(* ===== verification/Prelude.thy ===== *)
theory Prelude
  imports Main "HOL-Library.Monad_Syntax"
begin

text \<open>
  Shared vocabulary of the development: unsigned machine integers as naturals with the width
  written out at every operation that can overflow, the error-propagating combinators the Rust
  sources write as \<open>?\<close>, \<open>ok_or\<close> and \<open>ensure!\<close>, and the generic facts on floor division
  that the market-maker formulas rest on.

  A \<open>u128\<close>, \<open>U256\<close> or \<open>U512\<close> value is a \<^typ>\<open>nat\<close>; \<open>umax w\<close> is the greatest value of
  width \<open>w\<close>. Rust's \<open>checked_add\<close>, \<open>checked_mul\<close>, \<open>checked_sub\<close>, \<open>checked_div\<close> are
  options, the \<open>saturating_\<close> family is total, and \<open>try_from\<close> to a narrower type is
  \<open>narrow\<close>.
\<close>

named_theorems ck_iff \<open>when a checked operation returns, and what\<close>
named_theorems res_iff \<open>inversion of the error-propagating combinators\<close>

type_synonym balance = nat
type_synonym asset_id = nat
type_synonym account_id = nat
type_synonym block_number = nat

section \<open>Unsigned integers of a given width\<close>

definition umax :: "nat \<Rightarrow> nat" where
  "umax w = 2 ^ w - 1"

definition checked_add :: "nat \<Rightarrow> nat \<Rightarrow> nat \<Rightarrow> nat option" where
  "checked_add w a b = (if a + b \<le> umax w then Some (a + b) else None)"

definition checked_sub :: "nat \<Rightarrow> nat \<Rightarrow> nat option" where
  "checked_sub a b = (if b \<le> a then Some (a - b) else None)"

definition checked_mul :: "nat \<Rightarrow> nat \<Rightarrow> nat \<Rightarrow> nat option" where
  "checked_mul w a b = (if a * b \<le> umax w then Some (a * b) else None)"

definition checked_div :: "nat \<Rightarrow> nat \<Rightarrow> nat option" where
  "checked_div a b = (if b = 0 then None else Some (a div b))"

definition saturating_add :: "nat \<Rightarrow> nat \<Rightarrow> nat \<Rightarrow> nat" where
  "saturating_add w a b = min (umax w) (a + b)"

definition saturating_mul :: "nat \<Rightarrow> nat \<Rightarrow> nat \<Rightarrow> nat" where
  "saturating_mul w a b = min (umax w) (a * b)"

definition saturating_sub :: "nat \<Rightarrow> nat \<Rightarrow> nat" where
  "saturating_sub a b = a - b"

definition narrow :: "nat \<Rightarrow> nat \<Rightarrow> nat option" where
  "narrow w x = (if x \<le> umax w then Some x else None)"

definition abs_diff :: "nat \<Rightarrow> nat \<Rightarrow> nat" where
  "abs_diff a b = (if a \<le> b then b - a else a - b)"

lemma checked_add_Some [ck_iff]:
  "checked_add w a b = Some c \<longleftrightarrow> c = a + b \<and> a + b \<le> umax w"
  by (auto simp: checked_add_def)

lemma checked_sub_Some [ck_iff]: "checked_sub a b = Some c \<longleftrightarrow> b \<le> a \<and> c = a - b"
  by (auto simp: checked_sub_def)

lemma checked_mul_Some [ck_iff]:
  "checked_mul w a b = Some c \<longleftrightarrow> c = a * b \<and> a * b \<le> umax w"
  by (auto simp: checked_mul_def)

lemma checked_div_Some [ck_iff]: "checked_div a b = Some c \<longleftrightarrow> b \<noteq> 0 \<and> c = a div b"
  by (auto simp: checked_div_def)

lemma narrow_Some [ck_iff]: "narrow w x = Some y \<longleftrightarrow> y = x \<and> x \<le> umax w"
  by (auto simp: narrow_def)

lemma checked_None:
  "checked_add w a b = None \<longleftrightarrow> umax w < a + b"
  "checked_sub a b = None \<longleftrightarrow> a < b"
  "checked_mul w a b = None \<longleftrightarrow> umax w < a * b"
  "checked_div a b = None \<longleftrightarrow> b = 0"
  "narrow w x = None \<longleftrightarrow> umax w < x"
  by (auto simp: checked_add_def checked_sub_def checked_mul_def checked_div_def narrow_def)

lemma saturating_le [simp]: "saturating_add w a b \<le> umax w" "saturating_mul w a b \<le> umax w"
  by (simp_all add: saturating_add_def saturating_mul_def)

lemma saturating_exact:
  "a + b \<le> umax w \<Longrightarrow> saturating_add w a b = a + b"
  "a * b \<le> umax w \<Longrightarrow> saturating_mul w a b = a * b"
  by (simp_all add: saturating_add_def saturating_mul_def)

lemma umax_mono: "v \<le> w \<Longrightarrow> umax v \<le> umax w"
  by (simp add: umax_def diff_le_mono)

lemma le_umax_iff: "x \<le> umax w \<longleftrightarrow> x < 2 ^ w"
  by (simp add: umax_def Suc_le_eq [symmetric] le_diff_conv2)

lemma mult_le_umax: "a \<le> umax v \<Longrightarrow> b \<le> umax w \<Longrightarrow> a * b \<le> umax (v + w)"
  by (simp add: le_umax_iff power_add) (metis mult_strict_mono' zero_le)

lemma add_le_umax: "a \<le> umax v \<Longrightarrow> b \<le> umax v \<Longrightarrow> v < w \<Longrightarrow> a + b \<le> umax w"
proof -
  assume "a \<le> umax v" "b \<le> umax v" "v < w"
  then have "a + b < 2 ^ Suc v" by (simp add: le_umax_iff)
  also have "\<dots> \<le> 2 ^ w" using \<open>v < w\<close> by (intro power_increasing) auto
  finally show ?thesis by (simp add: le_umax_iff)
qed

text \<open>The two widenings the sources rely on: products and sums of two \<open>u128\<close> fit a \<open>U256\<close>.\<close>

lemma mult_u128_u256: "a \<le> umax 128 \<Longrightarrow> b \<le> umax 128 \<Longrightarrow> a * b \<le> umax 256"
  using mult_le_umax [of a 128 b 128] by simp

lemma add_u128_u256: "a \<le> umax 128 \<Longrightarrow> b \<le> umax 128 \<Longrightarrow> a + b \<le> umax 256"
  by (rule add_le_umax) auto

lemma u128_le_u256: "a \<le> umax 128 \<Longrightarrow> a \<le> umax 256"
  using umax_mono [of 128 256] by simp

lemma abs_diff_le: "a \<le> m \<Longrightarrow> b \<le> m \<Longrightarrow> abs_diff a b \<le> m"
  by (auto simp: abs_diff_def)

section \<open>Results\<close>

text \<open>
  A fallible Rust function returns \<open>'e + 'a\<close>, \<open>Inl\<close> the error. \<open>tryR m k\<close> is
  \<open>let x = m?; k x\<close>, \<open>ok_or\<close> turns an option into a result and \<open>ensure b e k\<close> is
  \<open>ensure!(b, e); k\<close>.
\<close>

definition tryR :: "'e + 'a \<Rightarrow> ('a \<Rightarrow> 'e + 'b) \<Rightarrow> 'e + 'b" where
  "tryR m k = (case m of Inl e \<Rightarrow> Inl e | Inr x \<Rightarrow> k x)"

definition ok_or :: "'a option \<Rightarrow> 'e \<Rightarrow> 'e + 'a" where
  "ok_or m e = (case m of None \<Rightarrow> Inl e | Some x \<Rightarrow> Inr x)"

definition ensure :: "bool \<Rightarrow> 'e \<Rightarrow> 'e + 'b \<Rightarrow> 'e + 'b" where
  "ensure b e k = (if b then k else Inl e)"

lemma tryR_simps [simp]: "tryR (Inl e) k = Inl e" "tryR (Inr x) k = k x"
  by (simp_all add: tryR_def)

lemma ok_or_simps [simp]: "ok_or None e = Inl e" "ok_or (Some x) e = Inr x"
  by (simp_all add: ok_or_def)

lemma ensure_simps [simp]: "ensure True e k = k" "ensure False e k = Inl e"
  by (simp_all add: ensure_def)

lemma tryR_Inr [res_iff]: "tryR m k = Inr y \<longleftrightarrow> (\<exists>x. m = Inr x \<and> k x = Inr y)"
  by (cases m) auto

lemma tryR_Inl: "tryR m k = Inl e \<longleftrightarrow> m = Inl e \<or> (\<exists>x. m = Inr x \<and> k x = Inl e)"
  by (cases m) auto

lemma ok_or_Inr [res_iff]: "ok_or m e = Inr x \<longleftrightarrow> m = Some x"
  by (cases m) auto

lemma ensure_Inr [res_iff]: "ensure b e k = Inr y \<longleftrightarrow> b \<and> k = Inr y"
  by (cases b) auto

lemma ok_or_Inl: "ok_or m e = Inl e' \<longleftrightarrow> m = None \<and> e' = e"
  by (cases m) auto

lemma ensure_Inl: "ensure b e k = Inl e' \<longleftrightarrow> \<not> b \<and> e' = e \<or> b \<and> k = Inl e'"
  by (cases b) auto

declare bind_eq_Some_conv [ck_iff]

section \<open>Floor division\<close>

lemma div_mult_le: "(a div b) * b \<le> (a :: nat)"
  by simp

lemma less_div_Suc_mult: "0 < b \<Longrightarrow> (a :: nat) < (a div b + 1) * b"
  by (metis Suc_eq_plus1 dividend_less_div_times mult.commute mult_Suc)

lemma div_le_if_mult: "(a :: nat) \<le> c * b \<Longrightarrow> a div b \<le> c"
  by (metis div_le_mono div_mult_self_is_m div_by_0 gr0I le0)

lemma div_add_le: "(a :: nat) div c + b div c \<le> (a + b) div c"
  by (subst div_add1_eq) simp

text \<open>
  The constant-product step: taking \<open>R * x div (Q + x)\<close> out of a reserve \<open>R\<close> against an
  inflow \<open>x\<close> into the other reserve \<open>Q\<close> never lowers the product.
\<close>

lemma product_step_ge:
  fixes R Q x :: nat
  shows "R * Q \<le> (R - R * x div (Q + x)) * (Q + x)"
proof -
  define d where "d = R * x div (Q + x)"
  have "d * (Q + x) \<le> R * x" unfolding d_def by (rule div_mult_le)
  moreover have "(R - d) * (Q + x) = R * (Q + x) - d * (Q + x)" by (rule diff_mult_distrib)
  ultimately show ?thesis by (simp add: d_def [symmetric] distrib_left)
qed

lemma product_step_le_reserve: "(R :: nat) * x div (Q + x) \<le> R"
  by (rule div_le_if_mult) (simp add: distrib_left)

text \<open>
  The inverse step rounds up: paying \<open>Q * y div (R - y) + 1\<close> for an outflow \<open>y < R\<close> also
  keeps the product.
\<close>

lemma product_inverse_step_ge:
  fixes R Q y :: nat
  assumes "y < R"
  shows "R * Q \<le> (R - y) * (Q + (Q * y div (R - y) + 1))"
proof -
  define d where "d = Q * y div (R - y)"
  have "Q * y < (d + 1) * (R - y)"
    unfolding d_def using assms by (intro less_div_Suc_mult) simp
  moreover have "R * Q = (R - y) * Q + y * Q"
    using assms by (simp add: distrib_right [symmetric])
  ultimately show ?thesis
    by (simp add: d_def [symmetric] algebra_simps)
qed

lemma tryR_E: "tryR m k = Inr y \<Longrightarrow> (\<And>x. m = Inr x \<Longrightarrow> k x = Inr y \<Longrightarrow> P) \<Longrightarrow> P"
  by (auto simp: res_iff)

lemma tryR_pairE:
  "tryR m (\<lambda>(a, b). k a b) = Inr y \<Longrightarrow> (\<And>a b. m = Inr (a, b) \<Longrightarrow> k a b = Inr y \<Longrightarrow> P) \<Longrightarrow> P"
  by (auto simp: res_iff)

lemma tryR_tripleE:
  "tryR m (\<lambda>(a, b, c). k a b c) = Inr y \<Longrightarrow>
     (\<And>a b c. m = Inr (a, b, c) \<Longrightarrow> k a b c = Inr y \<Longrightarrow> P) \<Longrightarrow> P"
  by (auto simp: res_iff)

lemma ensureE: "ensure b e k = Inr y \<Longrightarrow> (b \<Longrightarrow> k = Inr y \<Longrightarrow> P) \<Longrightarrow> P"
  by (simp add: res_iff)

lemma case_prod_eqE:
  "(case p of (x, y) \<Rightarrow> f x y) = z \<Longrightarrow> (\<And>x y. p = (x, y) \<Longrightarrow> f x y = z \<Longrightarrow> P) \<Longrightarrow> P"
  by (cases p) simp

lemma case_prod_nested_eqE:
  "(\<lambda>((x, y), w). f x y w) p = z \<Longrightarrow>
     (\<And>x y w. p = ((x, y), w) \<Longrightarrow> f x y w = z \<Longrightarrow> P) \<Longrightarrow> P"
  by (cases p) auto

lemma try_ok_orE:
  "tryR (ok_or m e) k = Inr y \<Longrightarrow> (\<And>x. m = Some x \<Longrightarrow> k x = Inr y \<Longrightarrow> P) \<Longrightarrow> P"
  by (auto simp: res_iff)

lemma bind_SomeE:
  "Option.bind x f = Some y \<Longrightarrow> (\<And>v. x = Some v \<Longrightarrow> f v = Some y \<Longrightarrow> P) \<Longrightarrow> P"
  by (cases x) auto

lemma if_NoneE: "(if b then None else x) = Some y \<Longrightarrow> (\<not> b \<Longrightarrow> x = Some y \<Longrightarrow> P) \<Longrightarrow> P"
  by (simp split: if_splits)

section \<open>Sums over a storage map\<close>

definition map_sum :: "('v \<Rightarrow> nat) \<Rightarrow> ('k \<rightharpoonup> 'v) \<Rightarrow> nat" where
  "map_sum f m = (\<Sum>k\<in>dom m. f (the (m k)))"

definition opt_val :: "('v \<Rightarrow> nat) \<Rightarrow> 'v option \<Rightarrow> nat" where
  "opt_val f v = (case v of None \<Rightarrow> 0 | Some x \<Rightarrow> f x)"

lemma opt_val_simps [simp]: "opt_val f None = 0" "opt_val f (Some x) = f x"
  by (simp_all add: opt_val_def)

lemma map_sum_remove:
  assumes "finite (dom m)"
  shows "map_sum f m = opt_val f (m k) + map_sum f (m(k := None))"
proof (cases "m k")
  case None
  then have "m(k := None) = m" by auto
  then show ?thesis using None by simp
next
  case (Some v)
  have "map_sum f m = f (the (m k)) + (\<Sum>j\<in>dom m - {k}. f (the (m j)))"
    unfolding map_sum_def using assms Some by (intro sum.remove) auto
  also have "(\<Sum>j\<in>dom m - {k}. f (the (m j))) = map_sum f (m(k := None))"
    unfolding map_sum_def by (rule sum.cong) auto
  finally show ?thesis using Some by simp
qed

lemma map_sum_upd:
  assumes "finite (dom m)"
  shows "map_sum f (m(k \<mapsto> v)) + opt_val f (m k) = map_sum f m + f v"
  using map_sum_remove [of "m(k \<mapsto> v)" f k] map_sum_remove [of m f k] assms by simp

lemma map_sum_empty [simp]: "map_sum f Map.empty = 0"
  by (simp add: map_sum_def)

lemmas ck_eval = checked_add_def checked_sub_def checked_mul_def checked_div_def narrow_def
  saturating_add_def saturating_sub_def saturating_mul_def umax_def

end
