(* ===== verification/Sp_Arith.thy ===== *)
theory Sp_Arith
  imports Prelude
begin

text \<open>
  The numeric libraries the sources call and the repository does not contain: \<open>sp_arithmetic\<close>
  (\<open>Permill\<close>, \<open>Perbill\<close>, \<open>FixedU128\<close>, \<open>multiply_by_rational_with_rounding\<close>) and the integer
  square root of \<open>primitive_types::U256\<close>. They are a parameter of the model: a record
  \<open>arith\<close> of their operations, passed to every definition that calls one. What the code
  relies on is the locale \<open>sp_arith\<close>, which states the documented behaviour of each operation
  on arguments of its type; a \<open>Permill\<close> is its number of parts per million, a \<open>FixedU128\<close> its
  inner \<open>u128\<close>, a multiple of \<open>1 / 10 ^ 18\<close>. An operation that panics on some arguments
  (\<open>FixedU128::from_rational\<close>) is an option, \<open>None\<close> the panic. \<open>FixedU128::from_rational\<close> rounds to the nearest
  multiple, the lower one of two; \<open>checked_from_rational\<close> and the multiplications round down.

  \<open>std_arith\<close> is the exact arithmetic that documentation describes; the interpretation at the
  end shows that it meets the contract, and the witnesses of the development evaluate with it.
\<close>

datatype pt_rounding = Round_Up | Round_Down | Round_NearestPrefUp | Round_NearestPrefDown

definition permill_one :: nat where
  "permill_one = 1000000"

definition perbill_one :: nat where
  "perbill_one = 1000000000"

definition fx_one :: nat where
  "fx_one = 1000000000000000000"

record arith =
  permill_checked_sub :: "nat \<Rightarrow> nat \<Rightarrow> nat option"
  permill_saturating_sub :: "nat \<Rightarrow> nat \<Rightarrow> nat"
  permill_mul_floor :: "nat \<Rightarrow> nat \<Rightarrow> nat"
  permill_mul_ceil :: "nat \<Rightarrow> nat \<Rightarrow> nat"
  permill_from_rational :: "nat \<Rightarrow> nat \<Rightarrow> nat"
  perbill_mul_floor :: "nat \<Rightarrow> nat \<Rightarrow> nat"
  fx_of_permill :: "nat \<Rightarrow> nat"
  fx_of_perbill :: "nat \<Rightarrow> nat"
  fx_to_permill :: "nat \<Rightarrow> nat"
  fx_of_int :: "nat \<Rightarrow> nat"
  fx_checked_from_rational :: "nat \<Rightarrow> nat \<Rightarrow> nat option"
  fx_from_rational :: "nat \<Rightarrow> nat \<Rightarrow> nat option"
  fx_checked_mul_int :: "nat \<Rightarrow> nat \<Rightarrow> nat option"
  fx_saturating_mul_int :: "nat \<Rightarrow> nat \<Rightarrow> nat"
  fx_checked_add :: "nat \<Rightarrow> nat \<Rightarrow> nat option"
  fx_checked_sub :: "nat \<Rightarrow> nat \<Rightarrow> nat option"
  fx_checked_mul :: "nat \<Rightarrow> nat \<Rightarrow> nat option"
  fx_checked_div :: "nat \<Rightarrow> nat \<Rightarrow> nat option"
  fx_saturating_add :: "nat \<Rightarrow> nat \<Rightarrow> nat"
  fx_saturating_sub :: "nat \<Rightarrow> nat \<Rightarrow> nat"
  fx_saturating_mul :: "nat \<Rightarrow> nat \<Rightarrow> nat"
  fx_saturating_pow :: "nat \<Rightarrow> nat \<Rightarrow> nat"
  mul_rational :: "pt_rounding \<Rightarrow> nat \<Rightarrow> nat \<Rightarrow> nat \<Rightarrow> nat option"
  integer_sqrt :: "nat \<Rightarrow> nat"
  perbill_from_rational :: "nat \<Rightarrow> nat \<Rightarrow> nat"

section \<open>Rounded quotients\<close>

text \<open>\<open>a * b / c\<close> rounded as the mode says, at full width.\<close>

fun round_quot :: "pt_rounding \<Rightarrow> nat \<Rightarrow> nat \<Rightarrow> nat" where
  "round_quot Round_Down n d = n div d"
| "round_quot Round_Up n d = n div d + (if n mod d = 0 then 0 else 1)"
| "round_quot Round_NearestPrefDown n d = n div d + (if d < 2 * (n mod d) then 1 else 0)"
| "round_quot Round_NearestPrefUp n d = n div d + (if d \<le> 2 * (n mod d) then 1 else 0)"

lemma round_quot_bounds: "n div d \<le> round_quot r n d" "round_quot r n d \<le> n div d + 1"
  by (cases r; simp)+

lemma round_quot_le:
  assumes "n \<le> c * d" "0 < d"
  shows "round_quot r n d \<le> c"
proof (cases "n div d = c")
  case True
  then have "c * d \<le> n" by (metis div_mult_le)
  with assms(1) have "n = c * d" by simp
  then show ?thesis using assms(2) by (cases r) simp_all
next
  case False
  moreover have "n div d \<le> c" using assms by (intro div_le_if_mult)
  ultimately show ?thesis using round_quot_bounds(2) [of r n d] by linarith
qed

lemma round_quot_up_ge: "0 < d \<Longrightarrow> n \<le> round_quot Round_Up n d * d"
  using less_div_Suc_mult [of d n] by (auto simp: mod_eq_0_iff_dvd)

lemma round_quot_down_le: "round_quot Round_Down n d * d \<le> n"
  by simp

text \<open>
  \<open>Perbill::from_rational\<close> computes in 32 bits: it divides both arguments by the smallest factor that brings the denominator
  to at most \<open>10 ^ 9\<close>, which is one for denominators up to that.
\<close>

definition perbill_reduction :: "nat \<Rightarrow> nat" where
  "perbill_reduction d = max 1 (round_quot Round_Up d perbill_one)"

definition perbill_quot :: "nat \<Rightarrow> nat \<Rightarrow> nat" where
  "perbill_quot n d = n div perbill_reduction d * perbill_one div (d div perbill_reduction d)"

lemma perbill_reduction_one: "d \<le> perbill_one \<Longrightarrow> perbill_reduction d = 1"
  using round_quot_le [of d 1 perbill_one Round_Up]
  by (simp add: perbill_reduction_def perbill_one_def del: round_quot.simps)

lemma perbill_quot_le: "n \<le> d \<Longrightarrow> perbill_quot n d \<le> perbill_one"
  unfolding perbill_quot_def by (rule div_le_if_mult) (simp add: mult.commute div_le_mono)

section \<open>The contract\<close>

locale sp_arith =
  fixes A :: arith
  assumes permill_checked_sub:
      "p \<le> permill_one \<Longrightarrow> q \<le> permill_one \<Longrightarrow> permill_checked_sub A p q = checked_sub p q"
    and permill_saturating_sub:
      "p \<le> permill_one \<Longrightarrow> q \<le> permill_one \<Longrightarrow> permill_saturating_sub A p q = p - q"
    and permill_mul_floor:
      "p \<le> permill_one \<Longrightarrow> x \<le> umax 128 \<Longrightarrow> permill_mul_floor A p x = p * x div permill_one"
    and permill_mul_ceil:
      "p \<le> permill_one \<Longrightarrow> x \<le> umax 128 \<Longrightarrow>
         permill_mul_ceil A p x = round_quot Round_Up (p * x) permill_one"
    and permill_from_rational: "permill_from_rational A n d \<le> permill_one"
    and perbill_mul_floor:
      "p \<le> perbill_one \<Longrightarrow> x \<le> umax 128 \<Longrightarrow> perbill_mul_floor A p x = p * x div perbill_one"
    and fx_of_permill: "p \<le> permill_one \<Longrightarrow> fx_of_permill A p = p * 1000000000000"
    and fx_of_perbill: "p \<le> perbill_one \<Longrightarrow> fx_of_perbill A p = p * 1000000000"
    and fx_to_permill: "fx_to_permill A f \<le> permill_one"
    and fx_of_int: "n \<le> umax 128 \<Longrightarrow> fx_of_int A n = min (umax 128) (n * fx_one)"
    and fx_checked_from_rational:
      "n \<le> umax 128 \<Longrightarrow> d \<le> umax 128 \<Longrightarrow>
         fx_checked_from_rational A n d = (if d = 0 then None else narrow 128 (n * fx_one div d))"
    and fx_from_rational:
      "n \<le> umax 128 \<Longrightarrow> d \<le> umax 128 \<Longrightarrow>
         fx_from_rational A n d =
           (if d = 0 then None else narrow 128 (round_quot Round_NearestPrefDown (n * fx_one) d))"
    and fx_checked_mul_int:
      "f \<le> umax 128 \<Longrightarrow> n \<le> umax 128 \<Longrightarrow>
         fx_checked_mul_int A f n = narrow 128 (f * n div fx_one)"
    and fx_saturating_mul_int:
      "f \<le> umax 128 \<Longrightarrow> n \<le> umax 128 \<Longrightarrow>
         fx_saturating_mul_int A f n = min (umax 128) (f * n div fx_one)"
    and fx_checked_add:
      "f \<le> umax 128 \<Longrightarrow> g \<le> umax 128 \<Longrightarrow> fx_checked_add A f g = checked_add 128 f g"
    and fx_checked_sub:
      "f \<le> umax 128 \<Longrightarrow> g \<le> umax 128 \<Longrightarrow> fx_checked_sub A f g = checked_sub f g"
    and fx_checked_mul:
      "f \<le> umax 128 \<Longrightarrow> g \<le> umax 128 \<Longrightarrow> fx_checked_mul A f g = narrow 128 (f * g div fx_one)"
    and fx_checked_div:
      "f \<le> umax 128 \<Longrightarrow> g \<le> umax 128 \<Longrightarrow>
         fx_checked_div A f g = (if g = 0 then None else narrow 128 (f * fx_one div g))"
    and fx_saturating_add:
      "f \<le> umax 128 \<Longrightarrow> g \<le> umax 128 \<Longrightarrow> fx_saturating_add A f g = saturating_add 128 f g"
    and fx_saturating_sub:
      "f \<le> umax 128 \<Longrightarrow> g \<le> umax 128 \<Longrightarrow> fx_saturating_sub A f g = f - g"
    and fx_saturating_mul:
      "f \<le> umax 128 \<Longrightarrow> g \<le> umax 128 \<Longrightarrow>
         fx_saturating_mul A f g = min (umax 128) (f * g div fx_one)"
    and fx_saturating_pow: "f \<le> umax 128 \<Longrightarrow> fx_saturating_pow A f k \<le> umax 128"
    and fx_saturating_pow_one: "f \<le> fx_one \<Longrightarrow> fx_saturating_pow A f k \<le> fx_one"
    and mul_rational:
      "a \<le> umax 128 \<Longrightarrow> b \<le> umax 128 \<Longrightarrow> c \<le> umax 128 \<Longrightarrow>
         mul_rational A r a b c = (if c = 0 then None else narrow 128 (round_quot r (a * b) c))"
    and integer_sqrt:
      "n \<le> umax 256 \<Longrightarrow> (integer_sqrt A n)\<^sup>2 \<le> n \<and> n < (integer_sqrt A n + 1)\<^sup>2"
    and perbill_from_rational:
      "n \<le> d \<Longrightarrow> 0 < d \<Longrightarrow> d \<le> umax 64 \<Longrightarrow> perbill_from_rational A n d = perbill_quot n d"
begin

lemma permill_mul_floor_le:
  assumes "p \<le> permill_one" "x \<le> umax 128"
  shows "permill_mul_floor A p x \<le> x"
proof -
  have "p * x \<le> x * permill_one" using assms(1) by (simp add: mult.commute)
  then show ?thesis using assms by (simp add: permill_mul_floor div_le_if_mult)
qed

lemma permill_mul_floor_u128:
  "p \<le> permill_one \<Longrightarrow> x \<le> umax 128 \<Longrightarrow> permill_mul_floor A p x \<le> umax 128"
  using permill_mul_floor_le order_trans by blast

lemma permill_mul_floor_one: "x \<le> umax 128 \<Longrightarrow> permill_mul_floor A permill_one x = x"
  by (simp add: permill_mul_floor permill_one_def)

lemma permill_mul_floor_zero: "x \<le> umax 128 \<Longrightarrow> permill_mul_floor A 0 x = 0"
  by (simp add: permill_mul_floor)

lemma permill_mul_floor_add_le:
  assumes "p \<le> permill_one" "x \<le> umax 128"
  shows "permill_mul_floor A p x + permill_mul_floor A (permill_one - p) x \<le> x"
proof -
  have "p * x div permill_one + (permill_one - p) * x div permill_one
      \<le> (p * x + (permill_one - p) * x) div permill_one"
    by (rule div_add_le)
  also have "p * x + (permill_one - p) * x = permill_one * x"
    using assms(1) by (simp add: add_mult_distrib [symmetric])
  finally show ?thesis
    using assms by (simp add: permill_mul_floor permill_one_def)
qed

lemma permill_mul_ceil_le:
  assumes "p \<le> permill_one" "x \<le> umax 128"
  shows "permill_mul_ceil A p x \<le> x"
  using assms by (simp add: permill_mul_ceil mult.commute round_quot_le permill_one_def
      del: round_quot.simps)

lemma fx_from_rational_u128:
  "n \<le> umax 128 \<Longrightarrow> d \<le> umax 128 \<Longrightarrow> fx_checked_from_rational A n d = Some v \<Longrightarrow>
     d \<noteq> 0 \<and> v = n * fx_one div d \<and> v \<le> umax 128"
  by (auto simp: fx_checked_from_rational ck_iff split: if_splits)

lemma fx_from_rational_fits:
  assumes "n \<le> umax 128" "d \<le> umax 128" "0 < d" "n * fx_one \<le> umax 128 * d"
  shows "fx_from_rational A n d = Some (round_quot Round_NearestPrefDown (n * fx_one) d)"
    "round_quot Round_NearestPrefDown (n * fx_one) d \<le> umax 128"
  using assms round_quot_le [OF assms(4,3), of Round_NearestPrefDown]
  by (simp_all add: fx_from_rational narrow_def del: round_quot.simps)

lemma fx_mul_int_le:
  assumes "f \<le> fx_one" "f \<le> umax 128" "n \<le> umax 128"
  shows "fx_checked_mul_int A f n = Some (f * n div fx_one)" "f * n div fx_one \<le> n"
proof -
  have "f * n \<le> n * fx_one" using assms(1) by (simp add: mult.commute)
  then show le: "f * n div fx_one \<le> n" by (rule div_le_if_mult)
  show "fx_checked_mul_int A f n = Some (f * n div fx_one)"
    using assms le by (simp add: fx_checked_mul_int narrow_def)
qed

lemma mul_rational_Some:
  assumes "a \<le> umax 128" "b \<le> umax 128" "c \<le> umax 128"
  shows "mul_rational A r a b c = Some v \<longleftrightarrow>
    c \<noteq> 0 \<and> v = round_quot r (a * b) c \<and> v \<le> umax 128"
  using assms by (auto simp: mul_rational ck_iff)

end

section \<open>The documented arithmetic, executable\<close>

fun isqrt :: "nat \<Rightarrow> nat" where
  "isqrt n =
     (if n = 0 then 0
      else let r = 2 * isqrt (n div 4) in if (r + 1) * (r + 1) \<le> n then r + 1 else r)"

declare isqrt.simps [simp del]

lemma isqrt_correct: "(isqrt n)\<^sup>2 \<le> n \<and> n < (isqrt n + 1)\<^sup>2"
proof (induction n rule: isqrt.induct)
  case (1 n)
  show ?case
  proof (cases "n = 0")
    case True
    then show ?thesis by (simp add: isqrt.simps)
  next
    case False
    define s where "s = isqrt (n div 4)"
    have s: "s * s \<le> n div 4" "n div 4 < (s + 1) * (s + 1)"
      using 1 False by (simp_all add: s_def power2_eq_square)
    have "4 * (s * s) \<le> 4 * (n div 4)" "4 * (n div 4 + 1) \<le> 4 * ((s + 1) * (s + 1))"
      using s by (intro mult_le_mono2; simp)+
    moreover have "4 * (n div 4) \<le> n" "n < 4 * (n div 4 + 1)" by simp_all
    ultimately have lo: "(2 * s) * (2 * s) \<le> n" and hi: "n < (2 * s + 2) * (2 * s + 2)"
      by (simp_all add: algebra_simps)
    have "isqrt n = (if (2 * s + 1) * (2 * s + 1) \<le> n then 2 * s + 1 else 2 * s)"
      using False by (subst isqrt.simps) (simp add: s_def Let_def)
    with lo hi show ?thesis by (simp add: power2_eq_square)
  qed
qed

lemma isqrt_eqI: "r * r \<le> n \<Longrightarrow> n < (r + 1) * (r + 1) \<Longrightarrow> isqrt n = r"
  using isqrt_correct [of n]
  by (metis Suc_eq_plus1 le_less_trans less_Suc_eq_le nat_neq_iff not_le power2_eq_square
      power2_nat_le_eq_le)

primrec fx_pow :: "nat \<Rightarrow> nat \<Rightarrow> nat" where
  "fx_pow f 0 = fx_one"
| "fx_pow f (Suc k) = min (umax 128) (fx_pow f k * f div fx_one)"

definition std_arith :: arith where
  "std_arith = \<lparr>
     permill_checked_sub = checked_sub,
     permill_saturating_sub = (\<lambda>p q. p - q),
     permill_mul_floor = (\<lambda>p x. p * x div permill_one),
     permill_mul_ceil = (\<lambda>p x. round_quot Round_Up (p * x) permill_one),
     permill_from_rational =
       (\<lambda>n d. if d = 0 \<or> d < n then permill_one else min permill_one (n * permill_one div d)),
     perbill_mul_floor = (\<lambda>p x. p * x div perbill_one),
     fx_of_permill = (\<lambda>p. p * 1000000000000),
     fx_of_perbill = (\<lambda>p. p * 1000000000),
     fx_to_permill = (\<lambda>f. min permill_one (f div 1000000000000)),
     fx_of_int = (\<lambda>n. min (umax 128) (n * fx_one)),
     fx_checked_from_rational =
       (\<lambda>n d. if d = 0 then None else narrow 128 (n * fx_one div d)),
     fx_from_rational =
       (\<lambda>n d. if d = 0 then None else narrow 128 (round_quot Round_NearestPrefDown (n * fx_one) d)),
     fx_checked_mul_int = (\<lambda>f n. narrow 128 (f * n div fx_one)),
     fx_saturating_mul_int = (\<lambda>f n. min (umax 128) (f * n div fx_one)),
     fx_checked_add = checked_add 128,
     fx_checked_sub = checked_sub,
     fx_checked_mul = (\<lambda>f g. narrow 128 (f * g div fx_one)),
     fx_checked_div = (\<lambda>f g. if g = 0 then None else narrow 128 (f * fx_one div g)),
     fx_saturating_add = saturating_add 128,
     fx_saturating_sub = (\<lambda>f g. f - g),
     fx_saturating_mul = (\<lambda>f g. min (umax 128) (f * g div fx_one)),
     fx_saturating_pow = fx_pow,
     mul_rational =
       (\<lambda>r a b c. if c = 0 then None else narrow 128 (round_quot r (a * b) c)),
     integer_sqrt = isqrt,
     perbill_from_rational =
       (\<lambda>n d. if d = 0 \<or> d < n then perbill_one else perbill_quot n d)\<rparr>"

lemma fx_one_u128: "fx_one \<le> umax 128"
  by (simp add: fx_one_def umax_def)

lemma fx_pow_u128: "fx_pow f k \<le> umax 128"
  by (cases k) (simp_all add: fx_one_u128)

lemma fx_pow_one_le: "f \<le> fx_one \<Longrightarrow> fx_pow f k \<le> fx_one"
proof (induction k)
  case (Suc k)
  then have "fx_pow f k * f \<le> fx_one * fx_one" by (intro mult_le_mono) auto
  then have "fx_pow f k * f div fx_one \<le> fx_one" by (rule div_le_if_mult)
  then show ?case by (simp add: min.coboundedI2)
qed simp

lemma std_arith_sel:
  "permill_checked_sub std_arith = checked_sub"
  "permill_saturating_sub std_arith = (\<lambda>p q. p - q)"
  "permill_mul_floor std_arith = (\<lambda>p x. p * x div permill_one)"
  "permill_mul_ceil std_arith = (\<lambda>p x. round_quot Round_Up (p * x) permill_one)"
  "permill_from_rational std_arith = (\<lambda>n d. if d = 0 \<or> d < n then permill_one else min permill_one (n * permill_one div d))"
  "perbill_mul_floor std_arith = (\<lambda>p x. p * x div perbill_one)"
  "fx_of_permill std_arith = (\<lambda>p. p * 1000000000000)"
  "fx_of_perbill std_arith = (\<lambda>p. p * 1000000000)"
  "fx_to_permill std_arith = (\<lambda>f. min permill_one (f div 1000000000000))"
  "fx_of_int std_arith = (\<lambda>n. min (umax 128) (n * fx_one))"
  "fx_checked_from_rational std_arith = (\<lambda>n d. if d = 0 then None else narrow 128 (n * fx_one div d))"
  "fx_from_rational std_arith = (\<lambda>n d. if d = 0 then None else narrow 128 (round_quot Round_NearestPrefDown (n * fx_one) d))"
  "fx_checked_mul_int std_arith = (\<lambda>f n. narrow 128 (f * n div fx_one))"
  "fx_saturating_mul_int std_arith = (\<lambda>f n. min (umax 128) (f * n div fx_one))"
  "fx_checked_add std_arith = checked_add 128"
  "fx_checked_sub std_arith = checked_sub"
  "fx_checked_mul std_arith = (\<lambda>f g. narrow 128 (f * g div fx_one))"
  "fx_checked_div std_arith = (\<lambda>f g. if g = 0 then None else narrow 128 (f * fx_one div g))"
  "fx_saturating_add std_arith = saturating_add 128"
  "fx_saturating_sub std_arith = (\<lambda>f g. f - g)"
  "fx_saturating_mul std_arith = (\<lambda>f g. min (umax 128) (f * g div fx_one))"
  "fx_saturating_pow std_arith = fx_pow"
  "mul_rational std_arith = (\<lambda>r a b c. if c = 0 then None else narrow 128 (round_quot r (a * b) c))"
  "integer_sqrt std_arith = isqrt"
  "perbill_from_rational std_arith = (\<lambda>n d. if d = 0 \<or> d < n then perbill_one else perbill_quot n d)"
  by (simp_all only: std_arith_def arith.simps)

interpretation std: sp_arith std_arith
proof (unfold_locales, goal_cases)
  case (25 n)
  show ?case unfolding std_arith_sel by (rule isqrt_correct)
qed (simp_all add: std_arith_sel fx_pow_u128 fx_pow_one_le del: round_quot.simps)

lemmas std_arith_eval = std_arith_def permill_one_def perbill_one_def fx_one_def umax_def

end
