(* ===== verification/Math_Lib.thy ===== *)
theory Math_Lib
  imports Sp_Arith
begin

text \<open>
  The shared pieces of the math crate: its error type, the conversion macros of
  \<open>math/src/lib.rs\<close> and the pool trade fee of \<open>math/src/fee.rs\<close>. \<open>to_u256!\<close> is the
  identity on naturals: the width of a \<open>U256\<close> is written at the operation that uses it.
\<close>

datatype math_error =
    Overflow
  | InsufficientOutReserve
  | ZeroWeight
  | ZeroReserve
  | ZeroDuration
  | DivisionByZero

definition to_balance :: "nat \<Rightarrow> math_error + balance" where
  "to_balance x = ok_or (narrow 128 x) Overflow"

definition to_lbp_weight :: "nat \<Rightarrow> math_error + nat" where
  "to_lbp_weight x = ok_or (narrow 32 x) Overflow"

definition round_up :: "balance \<Rightarrow> math_error + balance" where
  "round_up x = ok_or (checked_add 128 x 1) Overflow"

lemma to_balance_Inr [res_iff]: "to_balance x = Inr y \<longleftrightarrow> y = x \<and> x \<le> umax 128"
  by (simp add: to_balance_def res_iff ck_iff)

lemma to_lbp_weight_Inr [res_iff]: "to_lbp_weight x = Inr y \<longleftrightarrow> y = x \<and> x \<le> umax 32"
  by (simp add: to_lbp_weight_def res_iff ck_iff)

lemma round_up_Inr [res_iff]: "round_up x = Inr y \<longleftrightarrow> y = x + 1 \<and> x + 1 \<le> umax 128"
  by (simp add: round_up_def res_iff ck_iff)

lemmas math_lib_eval = to_balance_def to_lbp_weight_def round_up_def
  checked_add_def checked_sub_def checked_mul_def checked_div_def narrow_def umax_def

section \<open>Pool trade fee\<close>

definition calculate_pool_trade_fee :: "balance \<Rightarrow> nat \<times> nat \<Rightarrow> balance option" where
  "calculate_pool_trade_fee amount fee =
     (let numerator = fst fee; denominator = snd fee in
      if denominator = 0 \<or> numerator = 0 then Some 0
      else if denominator = numerator then Some amount
      else do {
        q \<leftarrow> checked_div amount denominator;
        checked_mul 128 q numerator
      })"

lemma calculate_pool_trade_fee_le:
  assumes "calculate_pool_trade_fee amount (n, d) = Some f" "n \<le> d"
  shows "f \<le> amount"
proof (cases "d = 0 \<or> n = 0 \<or> n = d")
  case True
  then show ?thesis using assms(1)
    by (auto simp: calculate_pool_trade_fee_def split: if_splits)
next
  case False
  then have "f = amount div d * n"
    using assms(1) by (auto simp: calculate_pool_trade_fee_def ck_iff)
  also have "\<dots> \<le> amount div d * d" using assms(2) by simp
  also have "\<dots> \<le> amount" by simp
  finally show ?thesis .
qed

lemma calculate_pool_trade_fee_total:
  assumes "n \<le> d" "amount \<le> umax 128"
  shows "\<exists>f. calculate_pool_trade_fee amount (n, d) = Some f"
proof -
  have "amount div d * n \<le> amount div d * d" using assms(1) by simp
  also have "\<dots> \<le> umax 128" using assms(2) order_trans div_mult_le by blast
  finally show ?thesis
    by (auto simp: calculate_pool_trade_fee_def checked_div_def checked_mul_def Let_def)
qed

end
