(* ===== verification/Xyk_Math.thy ===== *)
theory Xyk_Math
  imports Math_Lib
begin

text \<open>
  The constant-product pool formulas of \<open>math/src/xyk/math.rs\<close>, one definition per function,
  with every checked operation at the width the source uses; the contract of a constant-product
  market (locale \<open>cp_market\<close>), which these formulas meet; and what follows for any sequence of
  trades and for a liquidity round trip.
\<close>

definition FIXED_ROUND_UP :: balance where
  "FIXED_ROUND_UP = 1"

definition calculate_spot_price ::
    "balance \<Rightarrow> balance \<Rightarrow> balance \<Rightarrow> math_error + balance" where
  "calculate_spot_price in_reserve out_reserve amount =
     ensure (in_reserve \<noteq> 0) ZeroReserve
     (if amount = 0 \<or> out_reserve = 0 then to_balance 0
      else
        tryR (ok_or (checked_mul 256 out_reserve amount) Overflow) (\<lambda>p.
        tryR (ok_or (checked_div p in_reserve) Overflow) (\<lambda>spot_price_hp.
        to_balance spot_price_hp)))"

text \<open>\<open>None\<close> is the panic of \<open>FixedU128::from_rational\<close> when the price overflows.\<close>

definition calculate_spot_price_with_fee ::
    "arith \<Rightarrow> balance \<Rightarrow> balance \<Rightarrow> (nat \<times> nat) option \<Rightarrow> (math_error + nat) option" where
  "calculate_spot_price_with_fee A in_reserve out_reserve fee_rate =
     (if in_reserve = 0 then Some (Inl ZeroReserve)
      else do {
        spot_price_without_fee \<leftarrow> fx_from_rational A out_reserve in_reserve;
        case fee_rate of
          None \<Rightarrow> Some (Inr spot_price_without_fee)
        | Some (n, d) \<Rightarrow>
            (case fx_checked_from_rational A n d of
               None \<Rightarrow> Some (Inl Overflow)
             | Some fee \<Rightarrow> do {
                 one \<leftarrow> fx_from_rational A 1 1;
                 Some (tryR (ok_or (fx_checked_sub A one fee) Overflow) (\<lambda>fee_multiplier.
                       ok_or (fx_checked_mul A spot_price_without_fee fee_multiplier) Overflow))
               })
      })"

definition calculate_out_given_in ::
    "balance \<Rightarrow> balance \<Rightarrow> balance \<Rightarrow> math_error + balance" where
  "calculate_out_given_in in_reserve out_reserve amount_in =
     (if amount_in = 0 then Inr 0
      else
        tryR (ok_or (checked_add 256 in_reserve amount_in) Overflow) (\<lambda>denominator.
        ensure (denominator \<noteq> 0) ZeroReserve (
        tryR (ok_or (checked_mul 256 out_reserve amount_in) Overflow) (\<lambda>numerator.
        tryR (ok_or (checked_div numerator denominator) Overflow) (\<lambda>sale_price_hp.
        to_balance sale_price_hp)))))"

definition calculate_in_given_out ::
    "balance \<Rightarrow> balance \<Rightarrow> balance \<Rightarrow> math_error + balance" where
  "calculate_in_given_out out_reserve in_reserve amount_out =
     (if amount_out = 0 then Inr 0
      else
        ensure (amount_out \<le> out_reserve) InsufficientOutReserve (
        tryR (ok_or (checked_mul 256 in_reserve amount_out) Overflow) (\<lambda>numerator.
        tryR (ok_or (checked_sub out_reserve amount_out) Overflow) (\<lambda>denominator.
        ensure (denominator \<noteq> 0) ZeroReserve (
        tryR (ok_or (checked_div numerator denominator) Overflow) (\<lambda>buy_price_hp.
        tryR (to_balance buy_price_hp) (\<lambda>result.
        ok_or (checked_add 128 result FIXED_ROUND_UP) Overflow)))))))"

definition calculate_liquidity_in ::
    "balance \<Rightarrow> balance \<Rightarrow> balance \<Rightarrow> math_error + balance" where
  "calculate_liquidity_in asset_a_reserve asset_b_reserve amount =
     ensure (asset_a_reserve \<noteq> 0) ZeroReserve
     (if amount = 0 \<or> asset_b_reserve = 0 then Inr 0
      else
        tryR (ok_or (do { v \<leftarrow> checked_mul 256 amount asset_b_reserve;
                          v \<leftarrow> checked_div v asset_a_reserve;
                          checked_add 256 v 1 }) Overflow) (\<lambda>b_required_hp.
        to_balance b_required_hp))"

definition calculate_liquidity_out ::
    "balance \<Rightarrow> balance \<Rightarrow> balance \<Rightarrow> balance \<Rightarrow> math_error + balance \<times> balance" where
  "calculate_liquidity_out asset_a_reserve asset_b_reserve amount total_liquidity =
     ensure (total_liquidity \<noteq> 0) ZeroReserve (
     tryR (ok_or (checked_mul 256 amount asset_a_reserve) Overflow) (\<lambda>p.
     tryR (ok_or (checked_div p total_liquidity) Overflow) (\<lambda>remove_amount_a_hp.
     tryR (to_balance remove_amount_a_hp) (\<lambda>remove_amount_a.
     tryR (ok_or (checked_mul 256 asset_b_reserve amount) Overflow) (\<lambda>q.
     tryR (ok_or (checked_div q total_liquidity) Overflow) (\<lambda>remove_amount_b_hp.
     tryR (to_balance remove_amount_b_hp) (\<lambda>remove_amount_b.
     Inr (remove_amount_a, remove_amount_b))))))))"

definition calculate_shares :: "balance \<Rightarrow> balance \<Rightarrow> balance \<Rightarrow> balance option" where
  "calculate_shares asset_reserve asset_amount share_issuance =
     (if asset_reserve = 0 then None
      else do {
        p \<leftarrow> checked_mul 256 share_issuance asset_amount;
        result \<leftarrow> checked_div p asset_reserve;
        narrow 128 result
      })"

section \<open>What each formula returns\<close>

lemma calculate_out_given_in_Inr:
  "calculate_out_given_in r_in r_out a = Inr out \<longleftrightarrow>
     (if a = 0 then out = 0
      else r_in + a \<le> umax 256 \<and> r_out * a \<le> umax 256 \<and>
        out = r_out * a div (r_in + a) \<and> out \<le> umax 128)"
  by (auto simp: calculate_out_given_in_def res_iff ck_iff)

lemma calculate_out_given_in_eq:
  assumes "r_in \<le> umax 128" "r_out \<le> umax 128" "a \<le> umax 128"
  shows "calculate_out_given_in r_in r_out a = Inr (r_out * a div (r_in + a))"
proof -
  have "r_out * a div (r_in + a) \<le> umax 128"
    using product_step_le_reserve assms(2) order_trans by blast
  then show ?thesis
    using assms by (simp add: calculate_out_given_in_Inr add_u128_u256 mult_u128_u256)
qed

lemma calculate_in_given_out_Inr:
  "calculate_in_given_out r_out r_in a = Inr x \<longleftrightarrow>
     (if a = 0 then x = 0
      else a < r_out \<and> r_in * a \<le> umax 256 \<and>
        x = r_in * a div (r_out - a) + 1 \<and> x \<le> umax 128)"
  by (auto simp: calculate_in_given_out_def FIXED_ROUND_UP_def res_iff ck_iff)

lemma calculate_liquidity_in_Inr:
  "calculate_liquidity_in r_a r_b amount = Inr b \<longleftrightarrow>
     r_a \<noteq> 0 \<and>
     (if amount = 0 \<or> r_b = 0 then b = 0
      else amount * r_b \<le> umax 256 \<and> b = amount * r_b div r_a + 1 \<and> b \<le> umax 128)"
  using umax_mono [of 128 256]
  by (auto simp: calculate_liquidity_in_def res_iff ck_iff)

lemma calculate_liquidity_out_Inr:
  "calculate_liquidity_out r_a r_b s i = Inr (a, b) \<longleftrightarrow>
     i \<noteq> 0 \<and> s * r_a \<le> umax 256 \<and> r_b * s \<le> umax 256 \<and>
     a = s * r_a div i \<and> b = r_b * s div i \<and> a \<le> umax 128 \<and> b \<le> umax 128"
  by (auto simp: calculate_liquidity_out_def res_iff ck_iff)

lemma calculate_shares_Some:
  "calculate_shares r a i = Some s \<longleftrightarrow>
     r \<noteq> 0 \<and> i * a \<le> umax 256 \<and> s = i * a div r \<and> s \<le> umax 128"
  by (auto simp: calculate_shares_def ck_iff)

section \<open>Constant-product markets\<close>

text \<open>
  A market quotes a sale (given the amount in, the amount out) and a purchase (given the amount
  out, the amount in) from the two reserves. Its contract: a quote never exceeds the reserve it
  is paid from, and settling it never lowers the product of the reserves.
\<close>

datatype cp_trade = Sell_A nat | Sell_B nat | Buy_A nat | Buy_B nat

text \<open>\<open>cp_step\<close> settles one trade on the reserves \<open>(a, b)\<close>; \<open>cp_run\<close> a sequence of them.\<close>

fun cp_step ::
    "(nat \<Rightarrow> nat \<Rightarrow> nat \<Rightarrow> nat option) \<Rightarrow> (nat \<Rightarrow> nat \<Rightarrow> nat \<Rightarrow> nat option) \<Rightarrow>
     cp_trade \<Rightarrow> nat \<times> nat \<Rightarrow> (nat \<times> nat) option" where
  "cp_step sell buy (Sell_A x) (a, b) = map_option (\<lambda>y. (a + x, b - y)) (sell a b x)"
| "cp_step sell buy (Sell_B x) (a, b) = map_option (\<lambda>y. (a - y, b + x)) (sell b a x)"
| "cp_step sell buy (Buy_A y) (a, b) = map_option (\<lambda>x. (a - y, b + x)) (buy b a y)"
| "cp_step sell buy (Buy_B y) (a, b) = map_option (\<lambda>x. (a + x, b - y)) (buy a b y)"

fun cp_run ::
    "(nat \<Rightarrow> nat \<Rightarrow> nat \<Rightarrow> nat option) \<Rightarrow> (nat \<Rightarrow> nat \<Rightarrow> nat \<Rightarrow> nat option) \<Rightarrow>
     cp_trade list \<Rightarrow> nat \<times> nat \<Rightarrow> (nat \<times> nat) option" where
  "cp_run sell buy [] s = Some s"
| "cp_run sell buy (t # ts) s = do { s' \<leftarrow> cp_step sell buy t s; cp_run sell buy ts s' }"

locale cp_market =
  fixes sell :: "nat \<Rightarrow> nat \<Rightarrow> nat \<Rightarrow> nat option"
    and buy :: "nat \<Rightarrow> nat \<Rightarrow> nat \<Rightarrow> nat option"
  assumes sell_product: "sell q r x = Some y \<Longrightarrow> q * r \<le> (q + x) * (r - y)"
    and buy_product: "buy q r y = Some x \<Longrightarrow> q * r \<le> (q + x) * (r - y)"
begin

lemma step_product:
  "cp_step sell buy t (a, b) = Some (a', b') \<Longrightarrow> a * b \<le> a' * b'"
  by (cases t) (auto simp: mult.commute dest: sell_product buy_product)

lemma run_product:
  "cp_run sell buy ts (a, b) = Some (a', b') \<Longrightarrow> a * b \<le> a' * b'"
proof (induction ts arbitrary: a b)
  case Nil
  then show ?case by simp
next
  case (Cons t ts)
  then obtain c d where s: "cp_step sell buy t (a, b) = Some (c, d)"
    and r: "cp_run sell buy ts (c, d) = Some (a', b')"
    by (auto simp: ck_iff)
  from s have "a * b \<le> c * d" by (rule step_product)
  also from r have "\<dots> \<le> a' * b'" by (rule Cons.IH)
  finally show ?case .
qed

text \<open>A market that starts with both reserves is never drained of either.\<close>

lemma run_not_drained:
  "cp_run sell buy ts (a, b) = Some (a', b') \<Longrightarrow> 0 < a \<Longrightarrow> 0 < b \<Longrightarrow> 0 < a' \<and> 0 < b'"
  using run_product [of ts a b a' b'] by (metis gr0I mult_is_0 le_zero_eq not_less0)

text \<open>Whoever brings the pool's first reserve back to its start cannot have taken from the other.\<close>

lemma run_no_extraction:
  assumes "cp_run sell buy ts (a, b) = Some (a', b')" "0 < a" "a' \<le> a"
  shows "b \<le> b'"
proof -
  have "a * b \<le> a' * b'" using assms(1) by (rule run_product)
  also have "\<dots> \<le> a * b'" using assms(3) by simp
  finally show ?thesis using assms(2) by simp
qed

end

definition xyk_sell :: "nat \<Rightarrow> nat \<Rightarrow> nat \<Rightarrow> nat option" where
  "xyk_sell r_in r_out x =
     (case calculate_out_given_in r_in r_out x of Inl _ \<Rightarrow> None | Inr y \<Rightarrow> Some y)"

definition xyk_buy :: "nat \<Rightarrow> nat \<Rightarrow> nat \<Rightarrow> nat option" where
  "xyk_buy r_in r_out y =
     (case calculate_in_given_out r_out r_in y of Inl _ \<Rightarrow> None | Inr x \<Rightarrow> Some x)"

lemma xyk_sell_Some: "xyk_sell q r x = Some y \<longleftrightarrow> calculate_out_given_in q r x = Inr y"
  by (auto simp: xyk_sell_def split: sum.splits)

lemma xyk_buy_Some: "xyk_buy q r y = Some x \<longleftrightarrow> calculate_in_given_out r q y = Inr x"
  by (auto simp: xyk_buy_def split: sum.splits)

interpretation xyk: cp_market xyk_sell xyk_buy
proof
  fix q r x y
  assume "xyk_sell q r x = Some y"
  then show "q * r \<le> (q + x) * (r - y)"
    using product_step_ge [of r q x]
    by (auto simp: xyk_sell_Some calculate_out_given_in_Inr mult.commute split: if_splits)
next
  fix q r y x
  assume "xyk_buy q r y = Some x"
  then show "q * r \<le> (q + x) * (r - y)"
    using product_inverse_step_ge [of y r q]
    by (auto simp: xyk_buy_Some calculate_in_given_out_Inr mult.commute split: if_splits)
qed

section \<open>Properties\<close>

text \<open>
  Any sequence of constant-product sells and buys that settles leaves the product of the two
  reserves at least as large, never empties a non-empty reserve, and a sequence that does not
  raise the first reserve cannot have lowered the second: no sequence of trades, however ordered
  or sized, extracts value from the pool through rounding.
\<close>

theorem xyk_trades_keep_product:
  assumes "cp_run xyk_sell xyk_buy ts (a, b) = Some (a', b')" "0 < a" "0 < b"
  shows "a * b \<le> a' * b' \<and> 0 < a' \<and> 0 < b' \<and> (a' \<le> a \<longrightarrow> b \<le> b')"
  using xyk.run_product xyk.run_not_drained xyk.run_no_extraction assms by blast

theorem xyk_trades_keep_product_witness:
  "cp_run xyk_sell xyk_buy [Sell_A 100, Buy_A 50] (1000, 2000) = Some (1050, 1906) \<and>
   (1000 :: nat) * 2000 \<le> 1050 * 1906"
proof -
  have run: "cp_run xyk_sell xyk_buy [Sell_A 100, Buy_A 50] (1000, 2000) = Some (1050, 1906)"
    by (simp add: xyk_sell_def xyk_buy_def calculate_out_given_in_def calculate_in_given_out_def
        FIXED_ROUND_UP_def math_lib_eval)
  show ?thesis using run xyk_trades_keep_product [OF run] by simp
qed


lemma in_given_out_then_out_given_in:
  assumes "0 < q" "q \<le> umax 128" "r \<le> umax 128" "calculate_in_given_out r q y = Inr x"
  shows "\<exists>y'. calculate_out_given_in q r x = Inr y' \<and> y \<le> y'"
proof (cases "y = 0")
  case True
  with assms show ?thesis by (simp add: calculate_in_given_out_Inr calculate_out_given_in_Inr)
next
  case False
  with assms(4) have y: "y < r" and x: "x = q * y div (r - y) + 1" "x \<le> umax 128"
    by (simp_all add: calculate_in_given_out_Inr)
  have "q * y < x * (r - y)" unfolding x(1) using y by (intro less_div_Suc_mult) simp
  then have "q * y + x * y < x * r" using y
    by (metis add_less_cancel_right distrib_left le_add_diff_inverse2 less_imp_le_nat)
  then have "y * (q + x) \<le> r * x" by (simp add: algebra_simps)
  then have "y \<le> r * x div (q + x)" using assms(1) by (simp add: less_eq_div_iff_mult_less_eq)
  then show ?thesis using assms x(2) by (simp add: calculate_out_given_in_eq)
qed

lemma out_given_in_then_in_given_out:
  assumes "0 < q" "q \<le> umax 128" "r \<le> umax 128" "x < umax 128"
    and "calculate_out_given_in q r x = Inr y"
  shows "\<exists>x'. calculate_in_given_out r q y = Inr x' \<and> x' \<le> x + 1"
proof (cases "y = 0")
  case True
  then show ?thesis by (simp add: calculate_in_given_out_Inr)
next
  case False
  have "y = r * x div (q + x)" using assms by (simp add: calculate_out_given_in_eq)
  then have le: "y * (q + x) \<le> r * x" by (metis div_mult_le)
  have "y < r"
  proof (rule ccontr)
    assume "\<not> y < r"
    then have "r * x \<le> y * x" by simp
    with le have "y * q = 0" unfolding distrib_left by linarith
    with False assms(1) show False by simp
  qed
  then have "q * y \<le> x * (r - y)" using le by (simp add: algebra_simps diff_mult_distrib2)
  then have "q * y div (r - y) \<le> x" by (rule div_le_if_mult)
  moreover have "q * y \<le> umax 256"
    using assms \<open>y < r\<close> by (intro mult_u128_u256) auto
  ultimately show ?thesis
    using False assms(4) \<open>y < r\<close> by (simp add: calculate_in_given_out_Inr)
qed

text \<open>
  Selling and buying quotes are inverse to each other up to one unit of rounding, in the pool's
  favour: what \<open>calculate_in_given_out\<close> charges for an amount out would have sold for at least
  that amount, and buying back what a sale returned costs at most one unit more than was sold.
\<close>

theorem xyk_quotes_inverse:
  assumes "0 < q" "q \<le> umax 128" "r \<le> umax 128"
  shows "(\<forall>x y. calculate_in_given_out r q y = Inr x \<longrightarrow>
            (\<exists>y'. calculate_out_given_in q r x = Inr y' \<and> y \<le> y')) \<and>
         (\<forall>x y. x < umax 128 \<longrightarrow> calculate_out_given_in q r x = Inr y \<longrightarrow>
            (\<exists>x'. calculate_in_given_out r q y = Inr x' \<and> x' \<le> x + 1))"
  using in_given_out_then_out_given_in out_given_in_then_in_given_out assms by blast

theorem xyk_quotes_inverse_witness:
  "calculate_in_given_out 2000 1000 100 = Inr 53 \<and>
   (\<exists>y'. calculate_out_given_in 1000 2000 53 = Inr y' \<and> 100 \<le> y') \<and>
   calculate_out_given_in 1000 2000 100 = Inr 181 \<and>
   (\<exists>x'. calculate_in_given_out 2000 1000 181 = Inr x' \<and> x' \<le> 101)"
proof -
  have a: "calculate_in_given_out 2000 1000 100 = Inr 53"
    by (simp add: calculate_in_given_out_def FIXED_ROUND_UP_def math_lib_eval)
  have b: "calculate_out_given_in 1000 2000 100 = Inr 181"
    by (simp add: calculate_out_given_in_def math_lib_eval)
  have u: "(0::nat) < 1000" "1000 \<le> umax 128" "2000 \<le> umax 128" "100 < umax 128"
    by (simp_all add: umax_def)
  show ?thesis using a b u(4) xyk_quotes_inverse [OF u(1-3)] by fastforce
qed

text \<open>
  A liquidity round trip never pays: shares minted for a deposit of \<open>a\<close> and the matching
  amount \<open>b\<close> of the other asset, burned right after, return at most \<open>a\<close> and at most \<open>b\<close>, and the
  withdrawal formula does return on reserves and issuance that fit their type.
\<close>

theorem xyk_liquidity_round_trip:
  assumes "calculate_shares r_a a i = Some s" "calculate_liquidity_in r_a r_b a = Inr b"
    and "0 < i" "i + s \<le> umax 128" "r_a + a \<le> umax 128" "r_b + b \<le> umax 128"
  shows "\<exists>a' b'. calculate_liquidity_out (r_a + a) (r_b + b) s (i + s) = Inr (a', b') \<and>
           a' \<le> a \<and> b' \<le> b"
proof -
  from assms(1) have r: "0 < r_a" and s: "s = i * a div r_a"
    by (auto simp: calculate_shares_Some)
  from s have s_le: "s * r_a \<le> i * a" by simp
  have b_ge: "a * r_b \<le> b * r_a"
    using assms(2) r less_div_Suc_mult [of r_a "a * r_b"]
    by (auto simp: calculate_liquidity_in_Inr split: if_splits)
  have "r_a * (s * r_b) \<le> r_a * (i * b)"
  proof -
    have "r_a * (s * r_b) = (s * r_a) * r_b" by (simp add: ac_simps)
    also have "\<dots> \<le> (i * a) * r_b" using s_le by (rule mult_le_mono1)
    also have "\<dots> = i * (a * r_b)" by (simp add: ac_simps)
    also have "\<dots> \<le> i * (b * r_a)" using b_ge by (rule mult_le_mono2)
    finally show ?thesis by (simp add: ac_simps)
  qed
  then have sb: "s * r_b \<le> i * b" using r by simp
  have "s * (r_a + a) div (i + s) \<le> a"
    using s_le by (intro div_le_if_mult) (simp add: algebra_simps)
  moreover have "(r_b + b) * s div (i + s) \<le> b"
    using sb by (intro div_le_if_mult) (simp add: algebra_simps)
  moreover have "s * (r_a + a) \<le> umax 256" "(r_b + b) * s \<le> umax 256"
    using assms by (intro mult_u128_u256; simp)+
  ultimately show ?thesis
    using assms(3-6) by (auto simp: calculate_liquidity_out_Inr)
qed

theorem xyk_liquidity_round_trip_witness:
  "calculate_shares 1000 100 500 = Some 50 \<and> calculate_liquidity_in 1000 2001 100 = Inr 201 \<and>
   (\<exists>a' b'. calculate_liquidity_out 1100 2202 50 550 = Inr (a', b') \<and> a' \<le> 100 \<and> b' \<le> 201)"
proof -
  have s: "calculate_shares 1000 100 500 = Some 50"
    by (simp add: calculate_shares_def math_lib_eval)
  have b: "calculate_liquidity_in 1000 2001 100 = Inr 201"
    by (simp add: calculate_liquidity_in_def math_lib_eval)
  show ?thesis using s b xyk_liquidity_round_trip [OF s b] by (simp add: umax_def)
qed

end
