(* ===== verification/Omnipool_Types.thy ===== *)
theory Omnipool_Types
  imports Math_Lib
begin

text \<open>
  The data of the Omnipool formulas (\<open>math/src/omnipool/types.rs\<close>): asset states, signed
  updates of balances, the deltas a trade or a liquidity operation produces, and the operations
  on them. \<open>bu_val\<close> and \<open>sb_val\<close> read a signed update as an integer; the lemmas at the end
  show that every operation on updates is integer addition whenever it returns.
\<close>

section \<open>Asset state\<close>

record asset_reserve_state =
  reserve :: balance
  hub_reserve :: balance
  shares :: balance
  protocol_shares :: balance

section \<open>Balance updates\<close>

datatype balance_update = Increase balance | Decrease balance

fun bu_amount :: "balance_update \<Rightarrow> balance" where
  "bu_amount (Increase a) = a"
| "bu_amount (Decrease a) = a"

definition bu_default :: balance_update where
  "bu_default = Increase 0"

text \<open>The bare \<open>+\<close> of two updates wraps around on overflow in a release build.\<close>

fun bu_add :: "balance_update \<Rightarrow> balance_update \<Rightarrow> balance_update" where
  "bu_add (Increase a) (Increase b) = Increase ((a + b) mod 2 ^ 128)"
| "bu_add (Decrease a) (Decrease b) = Decrease ((a + b) mod 2 ^ 128)"
| "bu_add (Increase a) (Decrease b) = (if b \<le> a then Increase (a - b) else Decrease (b - a))"
| "bu_add (Decrease a) (Increase b) = (if b \<le> a then Decrease (a - b) else Increase (b - a))"

fun bu_saturating_add :: "balance_update \<Rightarrow> balance_update \<Rightarrow> balance_update" where
  "bu_saturating_add (Increase a) (Increase b) = Increase (saturating_add 128 a b)"
| "bu_saturating_add (Decrease a) (Decrease b) = Decrease (saturating_add 128 a b)"
| "bu_saturating_add (Increase a) (Decrease b) =
     (if b \<le> a then Increase (saturating_sub a b) else Decrease (saturating_sub b a))"
| "bu_saturating_add (Decrease a) (Increase b) =
     (if b \<le> a then Decrease (saturating_sub a b) else Increase (saturating_sub b a))"

fun bu_checked_add :: "balance_update \<Rightarrow> balance_update \<Rightarrow> balance_update option" where
  "bu_checked_add (Increase a) (Increase b) = map_option Increase (checked_add 128 a b)"
| "bu_checked_add (Decrease a) (Decrease b) = map_option Decrease (checked_add 128 a b)"
| "bu_checked_add (Increase a) (Decrease b) =
     (if b \<le> a then map_option Increase (checked_sub a b)
      else map_option Decrease (checked_sub b a))"
| "bu_checked_add (Decrease a) (Increase b) =
     (if b \<le> a then map_option Decrease (checked_sub a b)
      else map_option Increase (checked_sub b a))"

definition bu_merge :: "balance_update \<Rightarrow> balance_update \<Rightarrow> balance_update option" where
  "bu_merge x y = bu_checked_add x y"

definition bu_saturating_merge :: "balance_update \<Rightarrow> balance_update \<Rightarrow> balance_update" where
  "bu_saturating_merge x y = bu_saturating_add x y"

text \<open>Applying an update to a balance.\<close>

fun bu_apply :: "balance_update \<Rightarrow> balance \<Rightarrow> balance option" where
  "bu_apply (Increase amount) b = checked_add 128 b amount"
| "bu_apply (Decrease amount) b = checked_sub b amount"

section \<open>Deltas\<close>

record asset_state_change =
  delta_reserve :: balance_update
  delta_hub_reserve :: balance_update
  delta_shares :: balance_update
  delta_protocol_shares :: balance_update
  extra_hub_reserve_amount :: balance_update

definition asset_state_change_default :: asset_state_change where
  "asset_state_change_default = \<lparr>
     delta_reserve = bu_default, delta_hub_reserve = bu_default, delta_shares = bu_default,
     delta_protocol_shares = bu_default, extra_hub_reserve_amount = bu_default\<rparr>"

definition state_price :: "arith \<Rightarrow> 'x asset_reserve_state_scheme \<Rightarrow> nat option" where
  "state_price A s = fx_checked_from_rational A (hub_reserve s) (reserve s)"

text \<open>The math crate's \<open>delta_update\<close>: it leaves the extra hub amount out.\<close>

definition math_delta_update ::
    "asset_reserve_state \<Rightarrow> asset_state_change \<Rightarrow> asset_reserve_state option" where
  "math_delta_update s delta = do {
     r \<leftarrow> bu_apply (delta_reserve delta) (reserve s);
     h \<leftarrow> bu_apply (delta_hub_reserve delta) (hub_reserve s);
     sh \<leftarrow> bu_apply (delta_shares delta) (shares s);
     ps \<leftarrow> bu_apply (delta_protocol_shares delta) (protocol_shares s);
     Some \<lparr>reserve = r, hub_reserve = h, shares = sh, protocol_shares = ps\<rparr>
   }"

definition total_delta_hub_reserve :: "asset_state_change \<Rightarrow> balance_update" where
  "total_delta_hub_reserve c =
     bu_saturating_merge (delta_hub_reserve c) (extra_hub_reserve_amount c)"

definition asc_account_for_fee_taken :: "asset_state_change \<Rightarrow> balance \<Rightarrow> asset_state_change" where
  "asc_account_for_fee_taken c amt_to_burn =
     c\<lparr>extra_hub_reserve_amount :=
         bu_saturating_merge (extra_hub_reserve_amount c) (Decrease amt_to_burn)\<rparr>"

record trade_fee =
  tf_asset_fee :: balance
  tf_protocol_fee :: balance
  tf_burned_protocol_fee :: balance

record trade_state_change =
  tsc_asset_in :: asset_state_change
  tsc_asset_out :: asset_state_change
  tsc_fee :: trade_fee

record hub_trade_state_change =
  hub_asset :: asset_state_change
  hub_fee :: trade_fee

record liquidity_state_change =
  lp_asset :: asset_state_change
  delta_position_reserve :: balance_update
  delta_position_shares :: balance_update
  lp_hub_amount :: balance

text \<open>
  How much of the extra minted hub amount to take back when part of the asset fee left the pool;
  \<open>math/src/omnipool/math.rs\<close>, at \<open>U256\<close> with a saturating conversion.
\<close>

definition calculate_burn_amount_based_on_fee_taken ::
    "balance \<Rightarrow> balance \<Rightarrow> balance \<Rightarrow> balance" where
  "calculate_burn_amount_based_on_fee_taken taken_fee total_fee_amount extra_hub_amount =
     (if total_fee_amount = 0 then 0
      else
        let hub_to_burn = saturating_mul 256 taken_fee extra_hub_amount div total_fee_amount
        in min (umax 128) hub_to_burn)"

definition account_for_fee_taken :: "trade_state_change \<Rightarrow> balance \<Rightarrow> trade_state_change" where
  "account_for_fee_taken v taken_fee =
     (let extra_amt = calculate_burn_amount_based_on_fee_taken taken_fee (tf_asset_fee (tsc_fee v))
                        (bu_amount (extra_hub_reserve_amount (tsc_asset_out v)))
      in v\<lparr>tsc_asset_out := asc_account_for_fee_taken (tsc_asset_out v) extra_amt\<rparr>)"

definition hub_account_for_fee_taken ::
    "hub_trade_state_change \<Rightarrow> balance \<Rightarrow> hub_trade_state_change" where
  "hub_account_for_fee_taken v taken_fee =
     (let extra_amt = calculate_burn_amount_based_on_fee_taken taken_fee (tf_asset_fee (hub_fee v))
                        (bu_amount (extra_hub_reserve_amount (hub_asset v)))
      in v\<lparr>hub_asset := asc_account_for_fee_taken (hub_asset v) extra_amt\<rparr>)"

record position =
  pos_amount :: balance
  pos_shares :: balance
  pos_price :: "balance \<times> balance"

definition position_price :: "arith \<Rightarrow> 'x position_scheme \<Rightarrow> nat option" where
  "position_price A p = fx_checked_from_rational A (fst (pos_price p)) (snd (pos_price p))"

section \<open>Signed balances\<close>

datatype signed_balance = Positive balance | Negative balance

definition sb_zero :: signed_balance where
  "sb_zero = Positive 0"

fun sb_is_positive :: "signed_balance \<Rightarrow> bool" where
  "sb_is_positive (Positive v) = (0 < v)"
| "sb_is_positive (Negative v) = False"

fun sb_is_negative :: "signed_balance \<Rightarrow> bool" where
  "sb_is_negative (Negative v) = (0 < v)"
| "sb_is_negative (Positive v) = False"

fun sb_abs :: "signed_balance \<Rightarrow> balance" where
  "sb_abs (Positive v) = v"
| "sb_abs (Negative v) = v"

definition sb_is_zero :: "signed_balance \<Rightarrow> bool" where
  "sb_is_zero s = (sb_abs s = 0)"

fun sb_negate :: "signed_balance \<Rightarrow> signed_balance" where
  "sb_negate (Positive v) = Negative v"
| "sb_negate (Negative v) = Positive v"

fun sb_checked_add :: "signed_balance \<Rightarrow> signed_balance \<Rightarrow> signed_balance option" where
  "sb_checked_add (Positive a) (Positive b) = map_option Positive (checked_add 128 a b)"
| "sb_checked_add (Negative a) (Negative b) = map_option Negative (checked_add 128 a b)"
| "sb_checked_add (Positive a) (Negative b) =
     Some (if b \<le> a then Positive (a - b) else Negative (b - a))"
| "sb_checked_add (Negative b) (Positive a) =
     Some (if b \<le> a then Positive (a - b) else Negative (b - a))"

fun sb_add_to_unsigned :: "signed_balance \<Rightarrow> balance \<Rightarrow> balance option" where
  "sb_add_to_unsigned (Positive v) b = checked_add 128 b v"
| "sb_add_to_unsigned (Negative v) b = checked_sub b v"

record trade_slip_fees =
  slip_in_hub_reserve :: balance
  slip_in_delta :: signed_balance
  slip_out_hub_reserve :: balance
  slip_out_delta :: signed_balance
  slip_max_fee :: nat

record hub_trade_slip_fees =
  hslip_hub_reserve :: balance
  hslip_delta :: signed_balance
  hslip_max_fee :: nat

section \<open>Updates as integers\<close>

fun bu_val :: "balance_update \<Rightarrow> int" where
  "bu_val (Increase a) = int a"
| "bu_val (Decrease a) = - int a"

fun sb_val :: "signed_balance \<Rightarrow> int" where
  "sb_val (Positive a) = int a"
| "sb_val (Negative a) = - int a"

lemma bu_val_amount: "int (bu_amount u) = \<bar>bu_val u\<bar>"
  by (cases u) auto

lemma sb_val_abs: "int (sb_abs s) = \<bar>sb_val s\<bar>"
  by (cases s) auto

lemma bu_checked_add_val:
  "bu_checked_add x y = Some z \<Longrightarrow> bu_val z = bu_val x + bu_val y"
  by (cases x; cases y) (auto simp: ck_iff split: if_splits)

lemma bu_checked_add_None:
  "bu_checked_add x y = None \<longleftrightarrow>
     int (umax 128) < \<bar>bu_val x + bu_val y\<bar> \<and> (0 \<le> bu_val x * bu_val y)"
  if "bu_amount x \<le> umax 128" "bu_amount y \<le> umax 128"
  using that
  by (cases x; cases y)
    (auto simp: checked_None mult_le_0_iff zero_le_mult_iff split: if_splits)

lemma bu_saturating_add_val:
  assumes "\<bar>bu_val x + bu_val y\<bar> \<le> int (umax 128)"
  shows "bu_val (bu_saturating_add x y) = bu_val x + bu_val y"
  using assms by (cases x; cases y) (auto simp: saturating_add_def saturating_sub_def)

lemma bu_apply_val:
  assumes "bu_apply u b = Some c"
  shows "int c = int b + bu_val u"
  using assms by (cases u) (auto simp: ck_iff)

lemma bu_apply_Some:
  "bu_apply u b = Some c \<longleftrightarrow> int c = int b + bu_val u \<and> 0 \<le> int b + bu_val u \<and>
     (case u of Increase _ \<Rightarrow> c \<le> umax 128 | Decrease _ \<Rightarrow> True)"
  by (cases u) (auto simp: ck_iff)

lemma sb_checked_add_val:
  "sb_checked_add x y = Some z \<Longrightarrow> sb_val z = sb_val x + sb_val y"
  by (cases x; cases y) (auto simp: ck_iff split: if_splits)

lemma sb_add_to_unsigned_val:
  "sb_add_to_unsigned s b = Some c \<Longrightarrow> int c = int b + sb_val s"
  by (cases s) (auto simp: ck_iff)

lemma sb_negate_val: "sb_val (sb_negate s) = - sb_val s"
  by (cases s) auto

lemma calculate_burn_amount_le:
  assumes "taken_fee \<le> t"
  shows "calculate_burn_amount_based_on_fee_taken taken_fee t extra \<le> extra"
proof (cases "t = 0")
  case False
  have "saturating_mul 256 taken_fee extra \<le> taken_fee * extra"
    by (simp add: saturating_mul_def)
  also have "\<dots> \<le> extra * t" using assms by (simp add: mult.commute)
  finally have "saturating_mul 256 taken_fee extra div t \<le> extra" by (rule div_le_if_mult)
  then show ?thesis using False
    by (simp add: calculate_burn_amount_based_on_fee_taken_def Let_def)
qed (simp add: calculate_burn_amount_based_on_fee_taken_def)

end
