(* ===== verification/Omnipool_Slip.thy ===== *)
theory Omnipool_Slip
  imports Omnipool_Types
begin

text \<open>
  Slip fees of the Omnipool (\<open>math/src/omnipool/slip_fee.rs\<close>): the fee charged on the hub
  amount of a trade from the cumulative hub flow of the block, and the two inversions a buy uses
  to find the gross hub amount from the net one. \<open>U256\<close> steps are at width 256 and every
  saturating step saturates there.
\<close>

definition PERMILL_SCALE :: nat where
  "PERMILL_SCALE = 1000000"

definition slip_rate_exceeds_cap :: "balance \<Rightarrow> balance \<Rightarrow> nat \<Rightarrow> bool option" where
  "slip_rate_exceeds_cap abs_cumulative denom max_slip_fee =
     (if denom = 0 \<or> abs_cumulative = 0 then Some False
      else do {
        lhs \<leftarrow> checked_mul 256 abs_cumulative PERMILL_SCALE;
        rhs \<leftarrow> checked_mul 256 max_slip_fee denom;
        Some (rhs < lhs)
      })"

definition calculate_slip_fee_amount ::
    "arith \<Rightarrow> balance \<Rightarrow> signed_balance \<Rightarrow> signed_balance \<Rightarrow> nat \<Rightarrow> balance \<Rightarrow> balance option" where
  "calculate_slip_fee_amount A hub_reserve_at_block_start prior_delta delta_q max_slip_fee
       base_amount =
     (if hub_reserve_at_block_start = 0 \<or> base_amount = 0 then Some 0
      else do {
        cumulative \<leftarrow> sb_checked_add prior_delta delta_q;
        denom \<leftarrow> sb_add_to_unsigned cumulative hub_reserve_at_block_start;
        if denom = 0 then None
        else if sb_is_zero cumulative then Some 0
        else do {
          exceeds \<leftarrow> slip_rate_exceeds_cap (sb_abs cumulative) denom max_slip_fee;
          if exceeds then Some (permill_mul_floor A max_slip_fee base_amount)
          else do {
            p \<leftarrow> checked_mul 256 (sb_abs cumulative) base_amount;
            amount_hp \<leftarrow> checked_div p denom;
            narrow 128 amount_hp
          }
        }
      })"

definition slip_rate_exceeds_cap_from_state ::
    "balance \<Rightarrow> signed_balance \<Rightarrow> signed_balance \<Rightarrow> nat \<Rightarrow> bool option" where
  "slip_rate_exceeds_cap_from_state hub_reserve_at_block_start prior_delta delta_q max_slip_fee =
     do {
       cumulative \<leftarrow> sb_checked_add prior_delta delta_q;
       denom \<leftarrow> sb_add_to_unsigned cumulative hub_reserve_at_block_start;
       slip_rate_exceeds_cap (sb_abs cumulative) denom max_slip_fee
     }"

section \<open>Inverting the buy side\<close>

definition invert_buy_side_slip_uncapped ::
    "arith \<Rightarrow> balance \<Rightarrow> balance \<Rightarrow> signed_balance \<Rightarrow> balance option" where
  "invert_buy_side_slip_uncapped A d_net l c = do {
     s_buy \<leftarrow> sb_add_to_unsigned c l;
     if s_buy = 0 then None
     else if l \<le> d_net then None
     else do {
       l_minus_d \<leftarrow> checked_sub l d_net;
       p \<leftarrow> checked_mul 256 d_net s_buy;
       q \<leftarrow> checked_div p l_minus_d;
       d_gross_case1_hp \<leftarrow> checked_add 256 q 1;
       d_gross_case1 \<leftarrow> narrow 128 d_gross_case1_hp;
       let abs_c = sb_abs c in
       if sb_is_positive c \<or> abs_c \<le> d_gross_case1 then Some d_gross_case1
       else do {
         two_c \<leftarrow> checked_mul 128 abs_c 2;
         l_minus_2c \<leftarrow> checked_sub l two_c;
         let b_positive = d_net \<le> l_minus_2c;
         b_abs \<leftarrow> (if b_positive then checked_sub l_minus_2c d_net
                  else checked_sub d_net l_minus_2c);
         b_sq \<leftarrow> checked_mul 256 b_abs b_abs;
         eight_d \<leftarrow> checked_mul 256 8 d_net;
         eight_ds \<leftarrow> checked_mul 256 eight_d s_buy;
         let disc = saturating_add 256 b_sq eight_ds;
         let sqrt_disc = integer_sqrt A disc;
         d_gross_hp \<leftarrow>
           (if b_positive then do {
              let denom = saturating_add 256 b_abs sqrt_disc;
              two_d \<leftarrow> checked_mul 256 2 d_net;
              two_ds \<leftarrow> checked_mul 256 two_d s_buy;
              checked_div two_ds denom
            }
            else checked_div (saturating_add 256 b_abs sqrt_disc) 4);
         d_gross \<leftarrow> narrow 128 d_gross_hp;
         checked_add 128 d_gross 1
       }
     }
   }"

definition capped_gross :: "balance \<Rightarrow> nat \<Rightarrow> balance option" where
  "capped_gross d denom_parts =
     (if denom_parts = 0 then None
      else do {
        p \<leftarrow> checked_mul 256 d PERMILL_SCALE;
        q \<leftarrow> checked_div p denom_parts;
        narrow 128 q
      })"

definition invert_buy_side_slip ::
    "arith \<Rightarrow> balance \<Rightarrow> balance \<Rightarrow> signed_balance \<Rightarrow> nat \<Rightarrow> balance option" where
  "invert_buy_side_slip A d_net l c max_slip_fee =
     (let capped = do {
            one_minus_max \<leftarrow> checked_sub PERMILL_SCALE max_slip_fee;
            capped_gross d_net one_minus_max
          }
      in case invert_buy_side_slip_uncapped A d_net l c of
           None \<Rightarrow> capped
         | Some d_gross_uncapped \<Rightarrow> do {
             exceeds \<leftarrow> slip_rate_exceeds_cap_from_state l c (Positive d_gross_uncapped)
                         max_slip_fee;
             if \<not> exceeds then Some d_gross_uncapped else capped
           })"

section \<open>Inverting the sell side\<close>

text \<open>Case B, opposing flow: \<open>C > 0\<close> and the result stays below it.\<close>

definition invert_sell_case_b ::
    "arith \<Rightarrow> balance \<Rightarrow> nat \<Rightarrow> nat \<Rightarrow> balance \<Rightarrow> balance \<Rightarrow> balance \<Rightarrow> balance option option" where
  "invert_sell_case_b A d_gross pf_parts k_parts l abs_c s =
     (if pf_parts = 0 then do {
        let num = saturating_mul 256 d_gross s;
        let denom = saturating_add 256 d_gross l;
        u_hp \<leftarrow> checked_div num denom;
        u \<leftarrow> narrow 128 u_hp;
        Some (checked_add 128 u 1)
      }
      else do {
        let ks = saturating_mul 256 k_parts s;
        let d_scaled = saturating_mul 256 d_gross PERMILL_SCALE;
        let c_scaled = saturating_mul 256 abs_c PERMILL_SCALE;
        let b_sum = saturating_add 256 ks d_scaled;
        let b_positive = c_scaled \<le> b_sum;
        let b_abs = (if b_positive then saturating_sub b_sum c_scaled
                     else saturating_sub c_scaled b_sum);
        b_sq \<leftarrow> checked_mul 256 b_abs b_abs;
        f1 \<leftarrow> checked_mul 256 4 pf_parts;
        f2 \<leftarrow> checked_mul 256 f1 d_gross;
        f3 \<leftarrow> checked_mul 256 f2 s;
        four_a_ds \<leftarrow> checked_mul 256 f3 PERMILL_SCALE;
        let disc = saturating_add 256 b_sq four_a_ds;
        let sqrt_disc = integer_sqrt A disc;
        let two_a = saturating_mul 256 pf_parts 2;
        let c_u256 = saturating_mul 256 (saturating_mul 256 d_gross s) PERMILL_SCALE;
        u_hp \<leftarrow>
          (if b_positive then do {
             let denom = saturating_add 256 b_abs sqrt_disc;
             n \<leftarrow> checked_mul 256 2 c_u256;
             checked_div n denom
           }
           else checked_div (saturating_add 256 b_abs sqrt_disc) two_a);
        u \<leftarrow> narrow 128 u_hp;
        Some (checked_add 128 u 1)
      })"

definition invert_sell_case_a ::
    "arith \<Rightarrow> balance \<Rightarrow> nat \<Rightarrow> bool \<Rightarrow> balance \<Rightarrow> balance \<Rightarrow> balance option" where
  "invert_sell_case_a A d_gross k_parts c_is_positive abs_c s = do {
     a_u256 \<leftarrow> checked_add 128 k_parts PERMILL_SCALE;
     let ks = saturating_mul 256 k_parts s;
     let d_scaled = saturating_mul 256 d_gross PERMILL_SCALE;
     let c_scaled = saturating_mul 256 abs_c PERMILL_SCALE;
     b_u256 \<leftarrow>
       (if c_is_positive
        then Some (saturating_add 256 (saturating_add 256 ks d_scaled) c_scaled)
        else checked_sub (saturating_add 256 ks d_scaled) c_scaled);
     let c_u256 = saturating_mul 256 (saturating_mul 256 d_gross s) PERMILL_SCALE;
     b_sq \<leftarrow> checked_mul 256 b_u256 b_u256;
     four_a \<leftarrow> checked_mul 256 4 a_u256;
     four_ac \<leftarrow> checked_mul 256 four_a c_u256;
     if b_sq < four_ac then None
     else do {
       let disc = saturating_sub b_sq four_ac;
       let sqrt_disc = integer_sqrt A disc;
       let two_a = saturating_mul 256 a_u256 2;
       if b_u256 < sqrt_disc then None
       else do {
         u_hp \<leftarrow> checked_div (saturating_sub b_u256 sqrt_disc) two_a;
         u \<leftarrow> narrow 128 u_hp;
         checked_add 128 u 1
       }
     }
   }"

definition invert_sell_side_fees_uncapped ::
    "arith \<Rightarrow> balance \<Rightarrow> nat \<Rightarrow> balance \<Rightarrow> signed_balance \<Rightarrow> balance option" where
  "invert_sell_side_fees_uncapped A d_gross protocol_fee l c = do {
     let abs_c = sb_abs c;
     let c_is_positive = sb_is_positive c;
     s \<leftarrow> (if c_is_positive then checked_add 128 l abs_c else checked_sub l abs_c);
     let pf_parts = protocol_fee;
     k_parts \<leftarrow> checked_sub PERMILL_SCALE pf_parts;
     if c_is_positive then do {
       u_b \<leftarrow> invert_sell_case_b A d_gross pf_parts k_parts l abs_c s;
       case u_b of
         Some u \<Rightarrow>
           if u \<le> abs_c then Some u
           else invert_sell_case_a A d_gross k_parts c_is_positive abs_c s
       | None \<Rightarrow> invert_sell_case_a A d_gross k_parts c_is_positive abs_c s
     }
     else invert_sell_case_a A d_gross k_parts c_is_positive abs_c s
   }"

definition invert_sell_side_fees ::
    "arith \<Rightarrow> balance \<Rightarrow> nat \<Rightarrow> balance \<Rightarrow> signed_balance \<Rightarrow> nat \<Rightarrow> balance option" where
  "invert_sell_side_fees A d_gross protocol_fee l c max_slip_fee =
     (let capped = do {
            d1 \<leftarrow> checked_sub PERMILL_SCALE protocol_fee;
            denom_parts \<leftarrow> checked_sub d1 max_slip_fee;
            capped_gross d_gross denom_parts
          }
      in case invert_sell_side_fees_uncapped A d_gross protocol_fee l c of
           None \<Rightarrow> capped
         | Some u_uncapped \<Rightarrow> do {
             exceeds \<leftarrow> slip_rate_exceeds_cap_from_state l c (Negative u_uncapped) max_slip_fee;
             if \<not> exceeds then Some u_uncapped else capped
           })"

section \<open>The fee is the capped rate on the base amount, rounded down once\<close>

lemma PERMILL_SCALE_permill_one: "PERMILL_SCALE = permill_one"
  by (simp add: PERMILL_SCALE_def permill_one_def)

lemma permill_one_le_umax: "p \<le> permill_one \<Longrightarrow> p \<le> umax 128"
  by (simp add: permill_one_def umax_def)

lemma slip_rate_exceeds_cap_eq:
  assumes "a \<le> umax 128" "d \<le> umax 128" "m \<le> permill_one"
  shows "slip_rate_exceeds_cap a d m = Some (d \<noteq> 0 \<and> a \<noteq> 0 \<and> m * d < a * permill_one)"
  using assms permill_one_le_umax [of m] permill_one_le_umax [of permill_one]
  by (auto simp: slip_rate_exceeds_cap_def checked_mul_def mult_u128_u256
      PERMILL_SCALE_permill_one)

lemma rate_min:
  fixes a d m b :: nat
  assumes "0 < d"
  shows "m * d < a * permill_one \<Longrightarrow> m * b div permill_one \<le> a * b div d"
    and "a * permill_one \<le> m * d \<Longrightarrow> a * b div d \<le> m * b div permill_one"
proof -
  have M: "0 < permill_one" by (simp add: permill_one_def)
  assume "m * d < a * permill_one"
  then have "m * d * b \<le> a * permill_one * b" by simp
  define q where "q = m * b div permill_one"
  have "q * permill_one \<le> m * b" unfolding q_def by (rule div_mult_le)
  then have "q * permill_one * d \<le> m * b * d" by (rule mult_le_mono1)
  also have "\<dots> = m * d * b" by (simp add: ac_simps)
  also have "\<dots> \<le> a * permill_one * b" by fact
  finally have "permill_one * (q * d) \<le> permill_one * (a * b)" by (simp add: ac_simps)
  then have "q * d \<le> a * b" using M by simp
  then show "m * b div permill_one \<le> a * b div d"
    unfolding q_def using assms by (simp add: less_eq_div_iff_mult_less_eq)
next
  have M: "0 < permill_one" by (simp add: permill_one_def)
  assume "a * permill_one \<le> m * d"
  then have le: "a * permill_one * b \<le> m * d * b" by simp
  define q where "q = a * b div d"
  have "q * d \<le> a * b" unfolding q_def by (rule div_mult_le)
  then have "q * d * permill_one \<le> a * b * permill_one" by (rule mult_le_mono1)
  also have "\<dots> = a * permill_one * b" by (simp add: ac_simps)
  also have "\<dots> \<le> m * d * b" by fact
  finally have "d * (q * permill_one) \<le> d * (m * b)" by (simp add: ac_simps)
  then have "q * permill_one \<le> m * b" using assms by simp
  then show "a * b div d \<le> m * b div permill_one"
    unfolding q_def using M by (simp add: less_eq_div_iff_mult_less_eq)
qed

lemma sb_abs_checked_add:
  "sb_checked_add x y = Some z \<Longrightarrow> sb_abs x \<le> umax 128 \<Longrightarrow> sb_abs y \<le> umax 128 \<Longrightarrow>
     sb_abs z \<le> umax 128"
  by (cases x; cases y) (auto simp: ck_iff split: if_splits)

lemma sb_add_to_unsigned_u128:
  "sb_add_to_unsigned s b = Some c \<Longrightarrow> b \<le> umax 128 \<Longrightarrow> c \<le> umax 128"
  by (cases s) (auto simp: ck_iff)

text \<open>The cumulative flow and the denominator the fee is computed from.\<close>

definition slip_point ::
    "balance \<Rightarrow> signed_balance \<Rightarrow> signed_balance \<Rightarrow> nat \<Rightarrow> nat \<Rightarrow> bool" where
  "slip_point q0 prior dq cum denom \<longleftrightarrow>
     int cum = \<bar>sb_val prior + sb_val dq\<bar> \<and> int denom = int q0 + sb_val prior + sb_val dq \<and> 0 < denom"

context sp_arith
begin

lemma slip_fee_exact:
  assumes u: "q0 \<le> umax 128" "b \<le> umax 128" "sb_abs prior \<le> umax 128" "sb_abs dq \<le> umax 128"
    and m: "m \<le> permill_one"
    and f: "calculate_slip_fee_amount A q0 prior dq m b = Some f"
    and nz: "q0 \<noteq> 0" "b \<noteq> 0"
  obtains cum denom where "slip_point q0 prior dq cum denom"
    "f = min (cum * b div denom) (m * b div permill_one)"
proof -
  from f nz obtain cu d where cu: "sb_checked_add prior dq = Some cu"
    and d: "sb_add_to_unsigned cu q0 = Some d" "d \<noteq> 0"
    and rest: "(if sb_is_zero cu then Some 0
       else do { ex \<leftarrow> slip_rate_exceeds_cap (sb_abs cu) d m;
                 if ex then Some (permill_mul_floor A m b)
                 else do { p \<leftarrow> checked_mul 256 (sb_abs cu) b;
                           h \<leftarrow> checked_div p d; narrow 128 h } }) = Some f"
    by (auto simp: calculate_slip_fee_amount_def ck_iff split: if_splits)
  have cu_u: "sb_abs cu \<le> umax 128" using sb_abs_checked_add [OF cu] u by simp
  have d_u: "d \<le> umax 128" using sb_add_to_unsigned_u128 [OF d(1)] u by simp
  have point: "slip_point q0 prior dq (sb_abs cu) d"
    using sb_checked_add_val [OF cu] sb_add_to_unsigned_val [OF d(1)] d(2)
    by (simp add: slip_point_def sb_val_abs)
  have "f = min (sb_abs cu * b div d) (m * b div permill_one)"
  proof (cases "sb_abs cu = 0")
    case True
    then show ?thesis using rest by (simp add: sb_is_zero_def)
  next
    case False
    show ?thesis
    proof (cases "m * d < sb_abs cu * permill_one")
      case True
      then have "f = m * b div permill_one"
        using rest False d(2) u m cu_u d_u
        by (simp add: sb_is_zero_def slip_rate_exceeds_cap_eq permill_mul_floor)
      with rate_min(1) [OF _ True, of b] d(2) show ?thesis by simp
    next
      case le: False
      then have "f = sb_abs cu * b div d"
        using rest False d(2) u m cu_u d_u
        by (auto simp: sb_is_zero_def slip_rate_exceeds_cap_eq ck_iff)
      with rate_min(2) [of d "sb_abs cu" m b] le d(2) show ?thesis by simp
    qed
  qed
  with point that show thesis by blast
qed

lemma slip_fee_le:
  assumes "q0 \<le> umax 128" "b \<le> umax 128" "sb_abs prior \<le> umax 128" "sb_abs dq \<le> umax 128"
    and "m \<le> permill_one" "calculate_slip_fee_amount A q0 prior dq m b = Some f"
  shows "f \<le> m * b div permill_one" "f \<le> b"
proof -
  show le: "f \<le> m * b div permill_one"
  proof (cases "q0 = 0 \<or> b = 0")
    case True
    then show ?thesis using assms(6) by (auto simp: calculate_slip_fee_amount_def)
  next
    case False
    then show ?thesis using slip_fee_exact [OF assms] by (metis min.cobounded2)
  qed
  have "m * b div permill_one \<le> b"
    using assms(5) by (intro div_le_if_mult) (simp add: mult.commute)
  with le show "f \<le> b" by simp
qed

end

section \<open>The buy-side inversion covers the net amount\<close>

text \<open>
  Arithmetic behind the branches: \<open>rate_covers\<close> turns a cross-multiplied inequality into the
  statement about the rounded fee, \<open>cap_covers\<close> is the capped branch, and the last two are
  the roots of the quadratic of the opposing-flow branch.
\<close>

lemma rate_covers:
  fixes d g a s :: nat
  assumes "0 < s" "d * s + a * g \<le> g * s"
  shows "d \<le> g - a * g div s"
proof -
  have "a * g div s * s \<le> a * g" by (rule div_mult_le)
  with assms(2) have "d * s + a * g div s * s \<le> g * s" by linarith
  then have "(d + a * g div s) * s \<le> g * s" by (simp add: distrib_right)
  with assms(1) show ?thesis by simp
qed

lemma cap_covers:
  fixes d g m k :: nat
  assumes "m + k = M" "0 < k" "g = d * M div k"
  shows "d \<le> g - m * g div M"
proof (rule ccontr)
  define y where "y = m * g div M"
  assume "\<not> ?thesis"
  then have lt: "g - y + 1 \<le> d" unfolding y_def by simp
  have y: "y * M \<le> m * g" unfolding y_def by (rule div_mult_le)
  have g: "d * M < (g + 1) * k"
    unfolding assms(3) using less_div_Suc_mult [OF assms(2), of "d * M"] by simp
  have "(g + 1) * M \<le> (d + y) * M" by (rule mult_le_mono1) (use lt in simp)
  then have "g * M + M \<le> d * M + y * M" by (simp add: distrib_right)
  also have "\<dots> < (g + 1) * k + m * g" using g y by linarith
  also have "\<dots> = g * M + k" unfolding assms(1) [symmetric] by (simp add: algebra_simps)
  finally show False using assms(1) by simp
qed

lemma quadratic_root_pos:
  fixes g b r p :: int
  assumes "0 \<le> b" "0 \<le> r" "0 \<le> p" "0 \<le> g" "r * r \<le> b * b + 8 * p" "2 * p < g * (b + r)"
  shows "p \<le> 2 * g * g + b * g"
proof (rule ccontr)
  assume "\<not> ?thesis"
  then have lt: "2 * g * g + b * g < p" by simp
  have "0 \<le> g * b" "0 \<le> g * g" using assms by simp_all
  then have "0 < 2 * p - g * b" "0 < p"
    using lt unfolding mult.commute [of g b] mult.assoc by linarith+
  have "2 * p - g * b < g * r" using assms(6) by (simp add: algebra_simps)
  then have "(2 * p - g * b) * (2 * p - g * b) < (g * r) * (g * r)"
    using \<open>0 < 2 * p - g * b\<close> by (intro mult_strict_mono') simp_all
  also have "\<dots> = (g * g) * (r * r)" by (simp add: ac_simps)
  also have "\<dots> \<le> (g * g) * (b * b + 8 * p)" using assms(5) by (intro mult_left_mono) simp_all
  finally have "4 * p * p < 4 * p * (2 * g * g + b * g)" by (simp add: algebra_simps)
  then show False using lt \<open>0 < p\<close> by simp
qed

lemma quadratic_root_neg:
  fixes g b r p :: int
  assumes "0 \<le> b" "0 \<le> r" "b * b + 8 * p < (r + 1) * (r + 1)" "b + r < 4 * g"
  shows "p \<le> 2 * g * g - b * g"
proof -
  have "(r + 1) * (r + 1) \<le> (4 * g - b) * (4 * g - b)"
    using assms(2,4) by (intro mult_mono) simp_all
  with assms(3) have "b * b + 8 * p < (4 * g - b) * (4 * g - b)" by linarith
  then show ?thesis by (simp add: algebra_simps)
qed

text \<open>
  The slack of a gross amount over the net amount it has to pay for, cross-multiplied; once it is
  not negative it stays so for every larger gross amount.
\<close>

definition slip_slack :: "nat \<Rightarrow> nat \<Rightarrow> int \<Rightarrow> nat \<Rightarrow> int" where
  "slip_slack d l c g =
     int g * (int l + c + int g) - (int d * (int l + c + int g) + \<bar>c + int g\<bar> * int g)"

definition buy_cover :: "nat \<Rightarrow> nat \<Rightarrow> signed_balance \<Rightarrow> nat \<Rightarrow> nat \<Rightarrow> bool" where
  "buy_cover d l c m g \<longleftrightarrow> d \<le> g - m * g div permill_one \<or>
     d < l \<and> 0 < g \<and> 0 < int l + sb_val c \<and> 0 \<le> slip_slack d l (sb_val c) g"

lemma slip_slack_growing:
  "0 \<le> c + int g \<Longrightarrow> slip_slack d l c g = int g * (int l - int d) - int d * (int l + c)"
  by (simp add: slip_slack_def algebra_simps)

lemma slip_slack_opposing:
  "c + int g \<le> 0 \<Longrightarrow>
     slip_slack d l c g = 2 * int g * int g + (int l + 2 * c - int d) * int g - int d * (int l + c)"
  by (simp add: slip_slack_def algebra_simps)

lemma slip_slack_mono_growing:
  assumes "0 \<le> c + int g" "g \<le> h" "d < l" "0 \<le> slip_slack d l c g"
  shows "0 \<le> slip_slack d l c h"
proof -
  have "int g * (int l - int d) \<le> int h * (int l - int d)"
    using assms by (intro mult_right_mono) auto
  then show ?thesis
    using assms slip_slack_growing [of c g d l] slip_slack_growing [of c h d l] by linarith
qed

lemma slip_slack_mono_opposing:
  assumes "c + int h \<le> 0" "0 < g" "g \<le> h" "0 \<le> int l + c" "0 \<le> slip_slack d l c g"
  shows "0 \<le> slip_slack d l c h"
proof -
  have "int g * slip_slack d l c h - int h * slip_slack d l c g =
      (2 * int g * int h + int d * (int l + c)) * (int h - int g)"
    using assms(1,3) by (simp add: slip_slack_opposing algebra_simps)
  also have "0 \<le> \<dots>" using assms by (intro mult_nonneg_nonneg) auto
  finally have "int h * slip_slack d l c g \<le> int g * slip_slack d l c h" by simp
  moreover have "0 \<le> int h * slip_slack d l c g" using assms(5) by simp
  ultimately have "0 \<le> int g * slip_slack d l c h" by linarith
  then show ?thesis using assms(2) by (simp add: zero_le_mult_iff)
qed

lemma slip_slack_mono:
  assumes "0 < g" "g \<le> h" "d < l" "0 \<le> int l + c" "0 \<le> slip_slack d l c g"
  shows "0 \<le> slip_slack d l c h"
proof (cases "0 \<le> c + int g \<or> c + int h \<le> 0")
  case True
  then show ?thesis
    using assms slip_slack_mono_growing [of c g h] slip_slack_mono_opposing [of c h g] by blast
next
  case False
  define k where "k = nat (- c)"
  have k: "int k = - c" "g \<le> k" "k \<le> h" using False by (auto simp: k_def)
  then have "0 \<le> slip_slack d l c k"
    using assms slip_slack_mono_opposing [of c k g] by simp
  then show ?thesis using k assms slip_slack_mono_growing [of c k h] by simp
qed

lemma capped_net_mono:
  fixes g h m :: nat
  assumes "m \<le> permill_one" "g \<le> h"
  shows "g - m * g div permill_one \<le> h - m * h div permill_one"
proof -
  have "m * h = m * g + m * (h - g)" using assms(2) by (simp add: distrib_left [symmetric])
  also have "\<dots> \<le> m * g + (h - g) * permill_one"
    using assms(1) by (simp add: mult.commute)
  finally have "m * h div permill_one \<le> (m * g + (h - g) * permill_one) div permill_one"
    by (rule div_le_mono)
  also have "\<dots> = m * g div permill_one + (h - g)"
    by (simp add: permill_one_def)
  finally show ?thesis using assms(2) by simp
qed

lemma buy_cover_mono:
  assumes "buy_cover d l c m g" "g \<le> h" "m \<le> permill_one"
  shows "buy_cover d l c m h"
  using assms capped_net_mono [of m g h] slip_slack_mono [of g h d l "sb_val c"]
  by (auto simp: buy_cover_def intro: order_trans)

lemma quadratic_disc_u256:
  assumes "b \<le> umax 126" "d \<le> umax 126" "s \<le> umax 126"
  shows "b * b + 8 * d * s \<le> umax 256"
proof -
  have "b * b \<le> umax 126 * umax 126" "d * s \<le> umax 126 * umax 126"
    using assms by (auto intro: mult_le_mono)
  then show ?thesis by (simp add: umax_def)
qed

lemma linear_covers:
  fixes d g l c :: int
  assumes "0 \<le> c + g" "d * (l + c) \<le> g * (l - d)"
  shows "d * (l + c + g) + \<bar>c + g\<bar> * g \<le> g * (l + c + g)"
  using assms by (simp add: algebra_simps)

lemma opposing_covers:
  fixes d g l c :: int
  assumes "c + g \<le> 0" "d * (l + c) \<le> 2 * g * g + (l + 2 * c - d) * g"
  shows "d * (l + c + g) + \<bar>c + g\<bar> * g \<le> g * (l + c + g)"
  using assms by (simp add: algebra_simps)

lemma div_Suc_covers:
  fixes p q :: nat
  assumes "q \<noteq> 0"
  shows "int p < (int (p div q) + 1) * int q"
proof -
  have "p < (p div q + 1) * q" using less_div_Suc_mult [of q p] assms by simp
  then have "int p < int ((p div q + 1) * q)" by (rule of_nat_less_iff [THEN iffD2])
  then show ?thesis by (simp only: of_nat_mult of_nat_add of_nat_1)
qed

context sp_arith
begin

lemma sqrt_bounds:
  assumes "n \<le> umax 256"
  shows "int (integer_sqrt A n) * int (integer_sqrt A n) \<le> int n"
    and "int n < (int (integer_sqrt A n) + 1) * (int (integer_sqrt A n) + 1)"
proof -
  show "int (integer_sqrt A n) * int (integer_sqrt A n) \<le> int n"
    using integer_sqrt [OF assms] by (simp add: power2_eq_square flip: of_nat_mult)
  have "n < (integer_sqrt A n + 1) * (integer_sqrt A n + 1)"
    using integer_sqrt [OF assms] by (simp add: power2_eq_square)
  then have "int n < int ((integer_sqrt A n + 1) * (integer_sqrt A n + 1))"
    by (rule of_nat_less_iff [THEN iffD2])
  then show "int n < (int (integer_sqrt A n) + 1) * (int (integer_sqrt A n) + 1)"
    by (simp only: of_nat_mult of_nat_add of_nat_1)
qed

lemma sqrt_u128: "n \<le> umax 256 \<Longrightarrow> integer_sqrt A n \<le> umax 128"
proof -
  assume n: "n \<le> umax 256"
  have "(integer_sqrt A n)\<^sup>2 < (2 ^ 128)\<^sup>2"
    using integer_sqrt [OF n] n by (simp add: umax_def)
  then have "integer_sqrt A n < 2 ^ 128" by (rule power_less_imp_less_base) simp
  then show ?thesis by (simp add: umax_def)
qed

lemma opposing_root:
  assumes "disc = saturating_add 256 (b * b) (8 * d * s)"
    and "if pos then h \<noteq> 0 \<and> h = saturating_add 256 b (integer_sqrt A disc) \<and> q = 2 * d * s div h
         else q = saturating_add 256 b (integer_sqrt A disc) div 4"
    and small: "b * b + 8 * d * s \<le> umax 256"
    and b_u: "b \<le> umax 128"
    and bv: "bv = (if pos then int b else - int b)"
  shows "int d * int s \<le> 2 * (int q + 1) * (int q + 1) + bv * (int q + 1)"
proof -
  define r where "r = integer_sqrt A disc"
  have disc: "disc = b * b + 8 * d * s"
    using assms(1) small by (simp add: saturating_add_def)
  have disc_u: "disc \<le> umax 256" using disc small by simp
  note r = sqrt_bounds [OF disc_u, folded r_def]
  show ?thesis
  proof (cases pos)
    case True
    have h: "h = saturating_add 256 b r" "h \<noteq> 0" "q = 2 * d * s div h"
      using assms(2) True by (auto simp: r_def)
    have "int h \<le> int b + int r" unfolding h(1) saturating_add_def by simp
    then have "(int q + 1) * int h \<le> (int q + 1) * (int b + int r)"
      by (intro mult_left_mono) simp_all
    moreover have "2 * (int d * int s) < (int q + 1) * int h"
      using div_Suc_covers [OF h(2), of "2 * d * s"] by (simp add: h(3) mult.assoc)
    ultimately have "2 * (int d * int s) < (int q + 1) * (int b + int r)" by linarith
    then show ?thesis
      using quadratic_root_pos [of "int b" "int r" "int d * int s" "int q + 1"] r(1) True bv
      by (simp add: disc mult.assoc)
  next
    case False
    have "q = saturating_add 256 b r div 4" using assms(2) False by (simp add: r_def)
    moreover have "b + r \<le> umax 256"
      using add_u128_u256 [OF b_u sqrt_u128 [OF disc_u]] by (simp add: r_def)
    ultimately have "b + r < 4 * (q + 1)" by (simp add: saturating_add_def)
    then show ?thesis
      using quadratic_root_neg [of "int b" "int r" "int d * int s" "int q + 1"] r(2) False bv
      by (simp add: disc mult.assoc)
  qed
qed

lemma invert_buy_side_slip_uncapped_covers:
  assumes small: "l \<le> umax 126" and d_u: "d \<le> umax 128" and c_u: "sb_abs c \<le> umax 128"
    and g: "invert_buy_side_slip_uncapped A d l c = Some g"
  shows "d < l \<and> g \<noteq> 0 \<and> g \<le> umax 128 \<and> 0 < int l + sb_val c \<and>
    int d * (int l + sb_val c + int g) + \<bar>sb_val c + int g\<bar> * int g
      \<le> int g * (int l + sb_val c + int g)"
proof -
  from g obtain s g1 where s: "sb_add_to_unsigned c l = Some s" "s \<noteq> 0" and dl: "d < l"
    and g1: "g1 = d * s div (l - d) + 1" "g1 \<le> umax 128"
    and rest: "sb_is_positive c \<or> sb_abs c \<le> g1 \<longrightarrow> g = g1"
      "\<not> (sb_is_positive c \<or> sb_abs c \<le> g1) \<longrightarrow> (\<exists>k pos b h q disc. k = l - sb_abs c * 2 \<and> sb_abs c * 2 \<le> l \<and>
         pos = (d \<le> k) \<and> b = (if pos then k - d else d - k) \<and>
         disc = saturating_add 256 (b * b) (8 * d * s) \<and>
         (if pos then h \<noteq> 0 \<and> h = saturating_add 256 b (integer_sqrt A disc) \<and> q = 2 * d * s div h
          else q = saturating_add 256 b (integer_sqrt A disc) div 4) \<and> g = q + 1 \<and> q + 1 \<le> umax 128)"
    by (auto simp: invert_buy_side_slip_uncapped_def ck_iff Let_def split: if_splits)
  have sv: "int s = int l + sb_val c" using sb_add_to_unsigned_val [OF s(1)] .
  have g1_cov: "int d * int s \<le> int g1 * (int l - int d)"
    using div_Suc_covers [of "l - d" "d * s"] dl
    by (simp add: g1(1) of_nat_diff add.commute)
  show ?thesis
  proof (cases "sb_is_positive c \<or> sb_abs c \<le> g1")
    case True
    then have "g = g1" "0 \<le> sb_val c + int g1" using rest(1) by (cases c; auto)+
    then show ?thesis
      using linear_covers [of "sb_val c" "int g1" "int d" "int l"] g1_cov g1 s(2) sv dl by auto
  next
    case False
    then obtain k pos b h q disc where r:
      "k = l - sb_abs c * 2" "sb_abs c * 2 \<le> l" "pos = (d \<le> k)"
      "b = (if pos then k - d else d - k)"
      "disc = saturating_add 256 (b * b) (8 * d * s)"
      "if pos then h \<noteq> 0 \<and> h = saturating_add 256 b (integer_sqrt A disc) \<and> q = 2 * d * s div h
       else q = saturating_add 256 b (integer_sqrt A disc) div 4"
      "g = q + 1" "q + 1 \<le> umax 128"
      using rest(2) by auto
    have c: "sb_val c = - int (sb_abs c)" using False by (cases c) auto
    have "b \<le> umax 126" "s \<le> umax 126" "d \<le> umax 126"
      using r(1-4) small dl sv c by (auto split: if_splits)
    then have "b * b + 8 * d * s \<le> umax 256" "b \<le> umax 128"
      using quadratic_disc_u256 by (auto simp: umax_def)
    moreover have "(if pos then int b else - int b) = int l + 2 * sb_val c - int d"
      using r(1-4) c by auto
    ultimately have root: "int d * int s \<le> 2 * int g * int g + (int l + 2 * sb_val c - int d) * int g"
      using opposing_root [OF r(5,6)] r(7) by (simp add: add.commute)
    show ?thesis
    proof (cases "sb_val c + int g \<le> 0")
      case True
      then show ?thesis using opposing_covers [OF True] root r(7,8) s(2) sv dl by auto
    next
      case ge: False
      have "int g1 * (int l - int d) \<le> int g * (int l - int d)"
        using ge False c dl by (intro mult_right_mono) auto
      with g1_cov have "int d * (int l + sb_val c) \<le> int g * (int l - int d)"
        unfolding sv by (rule order_trans)
      with ge have "int d * (int l + sb_val c + int g) + \<bar>sb_val c + int g\<bar> * int g
          \<le> int g * (int l + sb_val c + int g)"
        by (intro linear_covers) auto
      then show ?thesis using r(7,8) s(2) sv dl by auto
    qed
  qed
qed

lemma invert_buy_side_slip_cover:
  assumes "l \<le> umax 126" "d \<le> umax 128" "sb_abs c \<le> umax 128" "m \<le> permill_one"
    and g: "invert_buy_side_slip A d l c m = Some g"
  shows "buy_cover d l c m g \<and> g \<le> umax 128"
proof -
  consider (capped) "m < permill_one" "g = d * permill_one div (permill_one - m)" "g \<le> umax 128"
    | (uncapped) "invert_buy_side_slip_uncapped A d l c = Some g"
    using g assms(4) by (auto simp: invert_buy_side_slip_def capped_gross_def Let_def ck_iff
        PERMILL_SCALE_permill_one split: option.splits if_splits)
  then show ?thesis
  proof cases
    case capped
    then show ?thesis
      using cap_covers [of m "permill_one - m" permill_one g d] by (simp add: buy_cover_def)
  next
    case uncapped
    then show ?thesis
      using invert_buy_side_slip_uncapped_covers [OF assms(1-3)]
      by (simp add: buy_cover_def slip_slack_def)
  qed
qed

lemma buy_cover_net:
  assumes u: "l \<le> umax 128" "g \<le> umax 128" "sb_abs c \<le> umax 128" and m: "m \<le> permill_one"
    and cov: "buy_cover d l c m g"
    and f: "calculate_slip_fee_amount A l c (Positive g) m g = Some f"
  shows "d \<le> g - f"
proof (cases "d \<le> g - m * g div permill_one")
  case True
  moreover have "f \<le> m * g div permill_one" using slip_fee_le(1) [OF u(1,2,3) _ m f] u(2) by simp
  ultimately show ?thesis by simp
next
  case False
  then have cov: "d < l" "0 < g" "0 \<le> slip_slack d l (sb_val c) g"
    using cov by (auto simp: buy_cover_def)
  then obtain cum denom where p: "slip_point l c (Positive g) cum denom"
    and f: "f = min (cum * g div denom) (m * g div permill_one)"
    using slip_fee_exact [OF u(1,2,3) _ m f] u(2) by auto
  have "int d * int denom + int cum * int g \<le> int g * int denom"
    using cov p by (simp add: slip_point_def slip_slack_def)
  then have "d * denom + cum * g \<le> g * denom" by (simp flip: of_nat_mult of_nat_add)
  then have "d \<le> g - cum * g div denom" using p by (intro rate_covers) (auto simp: slip_point_def)
  then show ?thesis using f by simp
qed

end

section \<open>The sell-side inversion covers the gross amount\<close>

text \<open>
  The root of the sell-side quadratic is rounded up, which can overshoot the larger root by less
  than one; the value of the quadratic is then still above minus its leading coefficient.
\<close>

lemma concave_root_bound:
  fixes a b c r u :: int
  assumes "0 < a" "0 \<le> r" "r * r \<le> b * b - 4 * a * c" "2 * a * (u - 1) \<le> b - r" "b - r < 2 * a * u"
  shows "- a \<le> b * u - a * u * u - c"
proof -
  define y where "y = 2 * a * u - b"
  have "y * y \<le> r * r + 4 * a * a"
  proof (cases "y \<le> 0")
    case True
    have "- y < r" using assms(5) by (simp add: y_def)
    then have "(- y) * (- y) \<le> r * r" using True by (intro mult_mono) auto
    then have "y * y \<le> r * r" by simp
    moreover have "0 \<le> 4 * a * a" by (simp add: mult.assoc)
    ultimately show ?thesis by linarith
  next
    case False
    have le: "y \<le> 2 * a - r" using assms(4) by (simp add: y_def algebra_simps)
    then have "y * y \<le> (2 * a - r) * (2 * a - r)" using False by (intro mult_mono) auto
    also have "\<dots> = r * r + 4 * a * a - 4 * (a * r)" by (simp add: algebra_simps)
    finally show ?thesis using assms(1,2) mult_nonneg_nonneg [of a r] by linarith
  qed
  moreover have "y * y = 4 * a * (a * u * u - b * u) + b * b" by (simp add: y_def algebra_simps)
  ultimately have "4 * a * (a * u * u - b * u) \<le> 4 * a * (a - c)"
    using assms(3) by (simp add: right_diff_distrib)
  then show ?thesis using assms(1) by simp
qed

text \<open>
  With \<open>K = M - pf\<close> and the flow growing on the sell side, a value of the quadratic above
  \<open>- M (S - u)\<close> means that what is left of \<open>u\<close> after both rounded fees is more than \<open>D - 1\<close>.
\<close>

lemma sell_side_left:
  fixes D u S C K M p F1 F2 :: int
  assumes "K + p = M" "0 < M" "u < S" "M * F1 \<le> p * u" "(S - u) * F2 \<le> (C + u) * u"
    and G: "- (M * (S - u)) < (K * S - M * C + D * M) * u - (K + M) * u * u - D * S * M"
  shows "D \<le> u - F1 - F2"
proof -
  have "(S - u) * (M * F1) \<le> (S - u) * (p * u)" "M * ((S - u) * F2) \<le> M * ((C + u) * u)"
    using assms by (auto intro: mult_left_mono)
  moreover have "M * (S - u) * (u - F1 - F2) =
      M * (S - u) * u - (S - u) * (M * F1) - M * ((S - u) * F2)"
    by (simp add: algebra_simps)
  ultimately have "M * (S - u) * u - (S - u) * (p * u) - M * ((C + u) * u)
      \<le> M * (S - u) * (u - F1 - F2)"
    by linarith
  moreover have "M * (S - u) * u - (S - u) * (p * u) - M * ((C + u) * u) - M * (S - u) * D =
      (K * S - M * C + D * M) * u - (K + M) * u * u - D * S * M"
    unfolding assms(1) [symmetric] by (simp add: algebra_simps)
  ultimately have "M * (S - u) * (D - 1) < M * (S - u) * (u - F1 - F2)"
    using G by (simp add: right_diff_distrib)
  then have "D - 1 < u - F1 - F2" using assms by (simp add: mult_less_cancel_left)
  then show ?thesis by simp
qed

context sp_arith
begin

lemma invert_sell_case_a_bound:
  assumes k: "k \<le> permill_one" and s: "s \<le> umax 128" and d: "d \<le> umax 128" "c \<le> umax 128"
    and run: "invert_sell_case_a A d k False c s = Some u"
  shows "- (int k + int permill_one) \<le>
      (int k * int s - int permill_one * int c + int d * int permill_one) * int u
      - (int k + int permill_one) * int u * int u - int d * int s * int permill_one \<and> u \<noteq> 0"
proof -
  define c2 where "c2 = saturating_mul 256 (d * s) permill_one"
  define b where "b = k * s + d * permill_one - c * permill_one"
  define a where "a = k + permill_one"
  have big: "k * s \<le> permill_one * umax 128" "d * permill_one \<le> permill_one * umax 128"
    "c * permill_one \<le> permill_one * umax 128" "d * s \<le> umax 256"
    using assms mult_u128_u256 by (auto simp: mult.commute intro: mult_le_mono)
  have nosat: "saturating_mul 256 k s = k * s" "saturating_mul 256 d permill_one = d * permill_one"
      "saturating_mul 256 c permill_one = c * permill_one" "saturating_mul 256 d s = d * s"
      "saturating_add 256 (k * s) (d * permill_one) = k * s + d * permill_one"
      "saturating_mul 256 a 2 = a * 2"
    using big k by (simp_all add: saturating_mul_def saturating_add_def umax_def permill_one_def a_def)
  from run have a4: "4 * a * c2 \<le> b * b" "4 * a * c2 \<le> umax 256" "b * b \<le> umax 256"
    and b: "c * permill_one \<le> k * s + d * permill_one"
    and r: "integer_sqrt A (b * b - 4 * a * c2) \<le> b"
    and u: "u = (b - integer_sqrt A (b * b - 4 * a * c2)) div (a * 2) + 1"
    by (auto simp: invert_sell_case_a_def nosat ck_iff Let_def PERMILL_SCALE_permill_one
        a_def [symmetric] b_def [symmetric] c2_def [symmetric] saturating_sub_def split: if_splits)
  define r where "r = integer_sqrt A (b * b - 4 * a * c2)"
  have u1: "1 \<le> u" using u by simp
  have "a \<noteq> 0" by (simp add: a_def permill_one_def)
  then have "4 * c2 \<le> 4 * a * c2" by simp
  then have "4 * c2 \<le> umax 256" using a4(2) by (rule order_trans)
  then have "c2 < umax 256" by (simp add: umax_def)
  then have c2: "c2 = d * s * permill_one" by (auto simp: c2_def saturating_mul_def)
  have disc: "b * b - 4 * a * c2 \<le> umax 256" using a4(3) by simp
  have "int r * int r \<le> int b * int b - 4 * int a * int c2"
    using sqrt_bounds(1) [OF disc] a4(1) by (simp add: r_def of_nat_diff)
  moreover have "(u - 1) * (a * 2) \<le> b - r" "b - r < u * (a * 2)"
    using div_mult_le [of "b - r" "a * 2"] less_div_Suc_mult [of "a * 2" "b - r"] \<open>a \<noteq> 0\<close>
    by (simp_all add: u r_def)
  then have "int ((u - 1) * (a * 2)) \<le> int (b - r)" "int (b - r) < int (u * (a * 2))"
    by (simp_all only: of_nat_le_iff of_nat_less_iff)
  then have "2 * int a * (int u - 1) \<le> int b - int r" "int b - int r < 2 * int a * int u"
    using r [folded r_def] u1 by (simp_all add: of_nat_diff mult.commute mult.left_commute)
  ultimately have "- int a \<le> int b * int u - int a * int u * int u - int c2"
    using \<open>a \<noteq> 0\<close> by (intro concave_root_bound [of _ "int r"]) auto
  moreover have "int b = int k * int s - int permill_one * int c + int d * int permill_one"
    using b by (simp add: b_def of_nat_diff mult.commute)
  ultimately show ?thesis using u1 by (simp add: a_def c2)
qed

lemma invert_sell_side_fees_covers:
  assumes u128: "l \<le> umax 128" "d \<le> umax 128" "sb_abs c \<le> umax 128" "u \<le> umax 128"
    and p: "p \<le> permill_one" "m \<le> permill_one"
    and c: "\<not> sb_is_positive c" and room: "int u + 3 \<le> int l + sb_val c"
    and inv: "invert_sell_side_fees A d p l c m = Some u"
    and f: "calculate_slip_fee_amount A l c (Negative u) m u = Some f"
  shows "d + permill_mul_floor A p u + f \<le> u"
proof -
  have pm: "permill_mul_floor A p u = p * u div permill_one"
    using permill_mul_floor p u128 by simp
  consider (capped) "p + m < permill_one" "u = d * permill_one div (permill_one - p - m)"
    | (uncapped) "invert_sell_side_fees_uncapped A d p l c = Some u"
    using inv by (auto simp: invert_sell_side_fees_def capped_gross_def Let_def ck_iff
        PERMILL_SCALE_permill_one split: option.splits if_splits)
  then show ?thesis
  proof cases
    case capped
    have "d \<le> u - (p + m) * u div permill_one"
      using capped by (intro cap_covers [where k = "permill_one - p - m"]) auto
    moreover have "(p + m) * u div permill_one \<le> u"
      using capped by (intro div_le_if_mult) (simp add: mult.commute)
    moreover have "p * u div permill_one + m * u div permill_one \<le> (p + m) * u div permill_one"
      unfolding distrib_right by (rule div_add_le)
    moreover have "f \<le> m * u div permill_one" using slip_fee_le(1) [OF u128(1,4,3) _ p(2) f] u128 by simp
    ultimately show ?thesis unfolding pm by linarith
  next
    case uncapped
    let ?S = "int l + sb_val c" and ?C = "sb_abs c" and ?k = "permill_one - p"
    have cv: "sb_val c = - int ?C" using c by (cases c) auto
    from uncapped c have cl: "?C \<le> l"
      and a: "invert_sell_case_a A d ?k False ?C (l - ?C) = Some u"
      by (auto simp: invert_sell_side_fees_uncapped_def ck_iff Let_def PERMILL_SCALE_permill_one)
    have S: "int (l - ?C) = ?S" using cl cv by (simp add: of_nat_diff)
    have "?k \<le> permill_one" "l - ?C \<le> umax 128" using u128(1) by auto
    note G = invert_sell_case_a_bound [OF this u128(2,3) a, unfolded S]
    then obtain cum denom where pt: "slip_point l c (Negative u) cum denom"
      and f: "f = min (cum * u div denom) (m * u div permill_one)"
      using slip_fee_exact [OF u128(1,4,3) _ p(2) f] u128 room cv by auto
    have "f * denom \<le> cum * u"
      using div_mult_le [of "cum * u" denom] f by (metis min.cobounded1 mult_le_mono1 order_trans)
    then have "int f * int denom \<le> int cum * int u" by (simp flip: of_nat_mult)
    then have F2: "(?S - int u) * int f \<le> (int ?C + int u) * int u"
      using pt cv by (simp add: slip_point_def mult.commute add.commute)
    have F1: "int permill_one * int (p * u div permill_one) \<le> int p * int u"
      using div_mult_le [of "p * u" permill_one]
      by (simp add: mult.commute flip: of_nat_mult)
    have "int ?k + int permill_one < int permill_one * 3" using p by (simp add: permill_one_def)
    also have "\<dots> \<le> int permill_one * (?S - int u)" using room by (intro mult_left_mono) auto
    finally have "- (int permill_one * (?S - int u)) <
        (int ?k * ?S - int permill_one * int ?C + int d * int permill_one) * int u -
        (int ?k + int permill_one) * int u * int u - int d * ?S * int permill_one"
      using G by linarith
    moreover have "int ?k + int p = int permill_one" "0 < int permill_one" "int u < ?S"
      using p(1) room by (auto simp: permill_one_def)
    ultimately have "int d \<le> int u - int (p * u div permill_one) - int f"
      using sell_side_left [OF _ _ _ F1 F2] by blast
    then show ?thesis unfolding pm by linarith
  qed
qed

end

lemmas slip_eval = calculate_slip_fee_amount_def slip_rate_exceeds_cap_def
  slip_rate_exceeds_cap_from_state_def capped_gross_def sb_is_zero_def PERMILL_SCALE_def
  permill_one_def ck_eval std_arith_sel

lemmas buy_inversion_eval = invert_buy_side_slip_def invert_buy_side_slip_uncapped_def

lemmas sell_inversion_eval = invert_sell_side_fees_def invert_sell_side_fees_uncapped_def

section \<open>Properties\<close>

text \<open>
  The slip fee is exact: on a non-empty pool the fee of a trade is the rate
  \<open>|cumulative| / (Q\<^sub>0 + cumulative)\<close> times the base amount, rounded down once, capped at the
  configured share of the base amount, and it never exceeds that base; on an empty pool or
  an empty amount it is zero.
\<close>

theorem slip_fee_is_capped_rate:
  assumes "sp_arith A"
    and "q0 \<le> umax 128" "b \<le> umax 128" "sb_abs prior \<le> umax 128" "sb_abs dq \<le> umax 128"
    and "m \<le> permill_one"
    and "calculate_slip_fee_amount A q0 prior dq m b = Some f"
  shows "f \<le> b \<and>
    (if q0 = 0 \<or> b = 0 then f = 0
     else \<exists>cum denom. slip_point q0 prior dq cum denom \<and>
            f = min (cum * b div denom) (m * b div permill_one))"
proof -
  from assms(1) have "f \<le> b" by (rule sp_arith.slip_fee_le(2)) (use assms in auto)
  moreover have "f = 0" if "q0 = 0 \<or> b = 0"
    using that assms(7) by (auto simp: calculate_slip_fee_amount_def)
  moreover have "\<exists>cum denom. slip_point q0 prior dq cum denom \<and>
      f = min (cum * b div denom) (m * b div permill_one)" if "q0 \<noteq> 0" "b \<noteq> 0"
    using sp_arith.slip_fee_exact [OF assms that] by blast
  ultimately show ?thesis by simp
qed

theorem slip_fee_is_capped_rate_witness:
  "calculate_slip_fee_amount std_arith 1000000 (Negative 20000) (Negative 30000) 500000 30000
     = Some 1578 \<and> (1578::nat) \<le> 30000"
proof -
  have run: "calculate_slip_fee_amount std_arith 1000000 (Negative 20000) (Negative 30000) 500000
      30000 = Some 1578"
    by (simp add: slip_eval)
  show ?thesis
    using run slip_fee_is_capped_rate [OF std.sp_arith_axioms _ _ _ _ _ run]
    by (simp add: umax_def permill_one_def)
qed

text \<open>
  (C35) The buy-side inversion is safe: the gross hub amount found for a wanted net amount pays for
  it. Once the slip fee is charged on the gross amount, at least the net amount is left, in
  the capped branch, in the branch of growing flow and in the quadratic branch of opposing
  flow. Hub reserves are bounded by \<open>2^126\<close>, so that the discriminant fits 256 bits.
\<close>

theorem buy_side_inversion_covers_net:
  assumes "sp_arith A"
    and "l \<le> umax 126" "d \<le> umax 128" "sb_abs c \<le> umax 128" "m \<le> permill_one"
    and "invert_buy_side_slip A d l c m = Some g"
    and "calculate_slip_fee_amount A l c (Positive g) m g = Some f"
  shows "f \<le> g \<and> d \<le> g - f"
proof -
  have cov: "buy_cover d l c m g" "g \<le> umax 128"
    using sp_arith.invert_buy_side_slip_cover [OF assms(1-6)] by auto
  have "l \<le> umax 128" using assms(2) by (simp add: umax_def)
  then show ?thesis
    using sp_arith.slip_fee_le(2) [OF assms(1) _ _ assms(4) _ assms(5,7)]
      sp_arith.buy_cover_net [OF assms(1) _ cov(2) assms(4,5) cov(1) assms(7)] cov by simp
qed

theorem buy_side_inversion_covers_net_witness:
  "invert_buy_side_slip std_arith 20000 1000000 (Negative 60000) 500000 = Some 20850 \<and>
   calculate_slip_fee_amount std_arith 1000000 (Negative 60000) (Positive 20850) 500000 20850
     = Some 849 \<and> (20000 :: nat) \<le> 20850 - 849"
proof -
  have "isqrt 890000000000 = 943398" by (rule isqrt_eqI) simp_all
  then have inv: "invert_buy_side_slip std_arith 20000 1000000 (Negative 60000) 500000 = Some 20850"
    by (simp add: slip_eval buy_inversion_eval)
  have fee: "calculate_slip_fee_amount std_arith 1000000 (Negative 60000) (Positive 20850) 500000
      20850 = Some 849"
    by (simp add: slip_eval)
  show ?thesis
    using inv fee buy_side_inversion_covers_net [OF std.sp_arith_axioms _ _ _ _ inv fee]
    by (simp add: umax_def permill_one_def)
qed

text \<open>
  (C37) The sell-side inversion is safe while hub asset has been leaving the sold asset's pool in
  this block (or nothing has moved): the amount found for a wanted gross amount still holds it
  after the protocol fee and the slip fee are taken. The pool must keep three units of hub
  asset, which makes up for the rounding of the root.
\<close>

theorem sell_side_inversion_covers_gross:
  assumes "sp_arith A"
    and "l \<le> umax 128" "d \<le> umax 128" "sb_abs c \<le> umax 128" "u \<le> umax 128"
    and "p \<le> permill_one" "m \<le> permill_one"
    and "\<not> sb_is_positive c" "int u + 3 \<le> int l + sb_val c"
    and "invert_sell_side_fees A d p l c m = Some u"
    and "calculate_slip_fee_amount A l c (Negative u) m u = Some f"
  shows "d + permill_mul_floor A p u + f \<le> u"
  using assms by (rule sp_arith.invert_sell_side_fees_covers)

theorem sell_side_inversion_covers_gross_witness:
  "invert_sell_side_fees std_arith 20000 3000 1000000 (Negative 60000) 500000 = Some 22036 \<and>
   calculate_slip_fee_amount std_arith 1000000 (Negative 60000) (Negative 22036) 500000 22036
     = Some 1969 \<and> 20000 + permill_mul_floor std_arith 3000 22036 + 1969 \<le> 22036"
proof -
  have "isqrt 654757552400000000000000 = 809170904321" by (rule isqrt_eqI) simp_all
  then have inv: "invert_sell_side_fees std_arith 20000 3000 1000000 (Negative 60000) 500000 = Some 22036"
    by (simp add: slip_eval sell_inversion_eval invert_sell_case_a_def)
  have fee: "calculate_slip_fee_amount std_arith 1000000 (Negative 60000) (Negative 22036) 500000
      22036 = Some 1969"
    by (simp add: slip_eval)
  show ?thesis
    using inv fee sell_side_inversion_covers_gross [OF std.sp_arith_axioms _ _ _ _ _ _ _ _ inv fee]
    by (simp add: umax_def permill_one_def)
qed

text \<open>
  The growing-flow branch beyond its range: where the vertex of the quadratic lies below the flow \<open>c\<close>, so does the root it takes.
\<close>

lemma invert_sell_case_a_below:
  assumes run: "invert_sell_case_a A d k True c s = Some u" and k: "k \<le> permill_one"
    and vertex: "k * s + d * permill_one + c * permill_one < 2 * (k + permill_one) * c"
  shows "u \<le> c"
proof -
  define a b where "a = k + permill_one" and "b = saturating_add 256 (saturating_add 256 (saturating_mul 256 k s)
    (saturating_mul 256 d permill_one)) (saturating_mul 256 c permill_one)"
  have "b \<le> k * s + d * permill_one + c * permill_one"
    by (simp add: b_def saturating_add_def saturating_mul_def)
  then have "b < c * (a * 2)" using vertex by (simp add: a_def ac_simps)
  have "saturating_mul 256 a 2 = a * 2" using k by (simp add: a_def saturating_mul_def permill_one_def umax_def)
  then obtain r where "u = (b - r) div (a * 2) + 1"
    using run by (auto simp: invert_sell_case_a_def ck_iff Let_def PERMILL_SCALE_permill_one a_def [symmetric] b_def [symmetric]
        saturating_sub_def split: if_splits)
  moreover have "(b - r) div (a * 2) < c"
    using \<open>b < c * (a * 2)\<close> by (intro less_mult_imp_div_less) (rule le_less_trans [OF diff_le_self])
  ultimately show ?thesis by simp
qed

lemma invert_sell_uncapped_below:
  assumes "invert_sell_side_fees_uncapped A d p l (Positive c) = Some u"
    and "(permill_one - p) * l + permill_one * d < (2 * permill_one - p) * c"
  shows "u \<le> c"
proof -
  have p: "p \<le> permill_one"
    using assms(1) by (auto simp: invert_sell_side_fees_uncapped_def ck_iff Let_def PERMILL_SCALE_permill_one)
  have "c \<noteq> 0" using assms(2) by (cases c) simp_all
  then have "u \<le> c \<or> invert_sell_case_a A d (permill_one - p) True c (l + c) = Some u"
    using assms(1)
    by (auto simp: invert_sell_side_fees_uncapped_def ck_iff Let_def PERMILL_SCALE_permill_one split: option.splits if_splits)
  moreover have "2 * permill_one - p = permill_one - p + permill_one" using p by simp
  then have "(permill_one - p) * (l + c) + d * permill_one + c * permill_one < 2 * (permill_one - p + permill_one) * c"
    using assms(2) by (simp add: algebra_simps)
  ultimately show ?thesis using invert_sell_case_a_below [of A d "permill_one - p" c "l + c" u] by auto
qed

text \<open>
  (C36) The opposite regime has no such guarantee, in a whole range of inputs. Suppose that hub asset worth \<open>c\<close> entered the sold asset's pool in the block,
  that the wanted gross amount \<open>d\<close> is more than that, and that with the fee \<open>p\<close> in millionths the weighted sum of the pool's hub reserve \<open>l\<close> and \<open>d\<close> is below the
  same weight of \<open>c\<close> (without a protocol fee, \<open>l + d < 2 c\<close>). Then the amount found, unless capped, is at most \<open>c\<close>: either the
  opposing-flow branch returns it, or the growing-flow branch takes a root below the flow it assumes to be exceeded. So it does not reach the wanted amount even before a fee is taken.
\<close>

theorem sell_side_inversion_underpays:
  assumes "c < d" "(permill_one - p) * l + permill_one * d < (2 * permill_one - p) * c"
    and "invert_sell_side_fees_uncapped A d p l (Positive c) = Some u"
    and "slip_rate_exceeds_cap_from_state l (Positive c) (Negative u) m = Some False"
  shows "invert_sell_side_fees A d p l (Positive c) m = Some u \<and> u \<le> c \<and> u < d"
  using invert_sell_uncapped_below [OF assms(3,2)] assms(1,3,4) by (simp add: invert_sell_side_fees_def Let_def)

theorem sell_side_inversion_underpays_witness:
  "invert_sell_side_fees std_arith 320 0 100 (Positive 300) 500000 = Some 223 \<and>
   calculate_slip_fee_amount std_arith 100 (Positive 300) (Negative 223) 500000 223 = Some 97 \<and> (223 :: nat) \<le> 300"
proof -
  have b: "invert_sell_case_b std_arith 320 0 1000000 100 300 400 = Some (Some 305)"
    by (simp add: invert_sell_case_b_def ck_eval)
  have "isqrt 16400000000000000 = 128062484" by (rule isqrt_eqI) simp_all
  then have a: "invert_sell_case_a std_arith 320 1000000 True 300 400 = Some 223"
    by (simp add: invert_sell_case_a_def slip_eval)
  then have u: "invert_sell_side_fees_uncapped std_arith 320 0 100 (Positive 300) = Some 223"
    using b by (simp add: slip_eval sell_inversion_eval)
  have f: "calculate_slip_fee_amount std_arith 100 (Positive 300) (Negative 223) 500000 223 = Some 97"
      and cap: "slip_rate_exceeds_cap_from_state 100 (Positive 300) (Negative 223) 500000 = Some False"
    by (simp_all add: slip_eval)
  from sell_side_inversion_underpays [OF _ _ u cap] f show ?thesis by (simp add: permill_one_def)
qed

end
