(* ===== verification/Omnipool_Math.thy ===== *)
theory Omnipool_Math
  imports Omnipool_Slip
begin

text \<open>
  The Omnipool formulas (\<open>math/src/omnipool/math.rs\<close>): the deltas of a sell and a buy between two
  assets, of trades against the hub asset, of adding and removing liquidity, and the price and
  cap formulas. Intermediate products are at \<open>U256\<close>, results are narrowed to \<open>u128\<close>, and \<open>None\<close>
  is the code's \<open>None\<close>; \<open>sp_arithmetic\<close> is the parameter \<open>A\<close>.
\<close>

definition amount_without_fee :: "arith \<Rightarrow> balance \<Rightarrow> nat \<Rightarrow> balance option" where
  "amount_without_fee A amount fee = do {
     p \<leftarrow> permill_checked_sub A permill_one fee;
     Some (permill_mul_floor A p amount)
   }"

definition calculate_sell_state_changes ::
    "arith \<Rightarrow> 'x asset_reserve_state_scheme \<Rightarrow> 'y asset_reserve_state_scheme \<Rightarrow> balance \<Rightarrow> nat \<Rightarrow> nat \<Rightarrow> nat \<Rightarrow>
     trade_slip_fees option \<Rightarrow> trade_state_change option" where
  "calculate_sell_state_changes A asset_in_state asset_out_state amount asset_fee protocol_fee m
       slip = do {
     prod_in \<leftarrow> checked_mul 256 amount (hub_reserve asset_in_state);
     sum_in \<leftarrow> checked_add 256 (reserve asset_in_state) amount;
     hub_in_hp \<leftarrow> checked_div prod_in sum_in;
     delta_hub_reserve_in \<leftarrow> narrow 128 hub_in_hp;
     let protocol_fee_amount = permill_mul_floor A protocol_fee delta_hub_reserve_in;
     slip_sell_amount \<leftarrow> (case slip of
         Some sl \<Rightarrow> calculate_slip_fee_amount A (slip_in_hub_reserve sl) (slip_in_delta sl)
                      (Negative delta_hub_reserve_in) (slip_max_fee sl) delta_hub_reserve_in
       | None \<Rightarrow> Some 0);
     after_fee \<leftarrow> checked_sub delta_hub_reserve_in protocol_fee_amount;
     d_gross \<leftarrow> checked_sub after_fee slip_sell_amount;
     slip_buy_amount \<leftarrow> (case slip of
         Some sl \<Rightarrow> calculate_slip_fee_amount A (slip_out_hub_reserve sl) (slip_out_delta sl)
                      (Positive d_gross) (slip_max_fee sl) d_gross
       | None \<Rightarrow> Some 0);
     d_net \<leftarrow> checked_sub d_gross slip_buy_amount;
     prod_out \<leftarrow> checked_mul 256 (reserve asset_out_state) d_net;
     sum_out \<leftarrow> checked_add 256 (hub_reserve asset_out_state) d_net;
     delta_reserve_out_hp \<leftarrow> checked_div prod_out sum_out;
     amount_out \<leftarrow> narrow 128 delta_reserve_out_hp;
     delta_reserve_out \<leftarrow> amount_without_fee A amount_out asset_fee;
     let asset_fee_amount = saturating_sub amount_out delta_reserve_out;
     sum_m \<leftarrow> checked_add 256 (hub_reserve asset_out_state) d_net;
     prod_m \<leftarrow> checked_mul 256 sum_m d_net;
     quot_m \<leftarrow> checked_div prod_m (hub_reserve asset_out_state);
     minted \<leftarrow> narrow 128 quot_m;
     let delta_out_m = permill_mul_floor A asset_fee minted;
     fee1 \<leftarrow> checked_add 128 protocol_fee_amount slip_sell_amount;
     total_protocol_fee \<leftarrow> checked_add 128 fee1 slip_buy_amount;
     let burned_protocol_fee = permill_mul_floor A m total_protocol_fee;
     Some \<lparr>
       tsc_asset_in = asset_state_change_default\<lparr>
         delta_reserve := Increase amount, delta_hub_reserve := Decrease delta_hub_reserve_in\<rparr>,
       tsc_asset_out = asset_state_change_default\<lparr>
         delta_reserve := Decrease delta_reserve_out, delta_hub_reserve := Increase d_net,
         extra_hub_reserve_amount := Increase delta_out_m\<rparr>,
       tsc_fee = \<lparr>tf_asset_fee = asset_fee_amount, tf_protocol_fee = total_protocol_fee,
         tf_burned_protocol_fee = burned_protocol_fee\<rparr>\<rparr>
   }"

definition calculate_sell_hub_state_changes ::
    "arith \<Rightarrow> 'x asset_reserve_state_scheme \<Rightarrow> balance \<Rightarrow> nat \<Rightarrow> hub_trade_slip_fees option \<Rightarrow>
     hub_trade_state_change option" where
  "calculate_sell_hub_state_changes A asset_out_state hub_asset_amount asset_fee slip = do {
     slip_buy_amount \<leftarrow> (case slip of
         Some sl \<Rightarrow> calculate_slip_fee_amount A (hslip_hub_reserve sl) (hslip_delta sl)
                      (Positive hub_asset_amount) (hslip_max_fee sl) hub_asset_amount
       | None \<Rightarrow> Some 0);
     effective_hub \<leftarrow> checked_sub hub_asset_amount slip_buy_amount;
     prod_out \<leftarrow> checked_mul 256 (reserve asset_out_state) effective_hub;
     sum_out \<leftarrow> checked_add 256 (hub_reserve asset_out_state) effective_hub;
     delta_reserve_out_hp \<leftarrow> checked_div prod_out sum_out;
     amount_out \<leftarrow> narrow 128 delta_reserve_out_hp;
     delta_reserve_out \<leftarrow> amount_without_fee A amount_out asset_fee;
     let asset_fee_amount = saturating_sub amount_out delta_reserve_out;
     sum_m \<leftarrow> checked_add 256 (hub_reserve asset_out_state) effective_hub;
     prod_m \<leftarrow> checked_mul 256 sum_m effective_hub;
     quot_m \<leftarrow> checked_div prod_m (hub_reserve asset_out_state);
     minted \<leftarrow> narrow 128 quot_m;
     let delta_q_m = permill_mul_floor A asset_fee minted;
     Some \<lparr>
       hub_asset = asset_state_change_default\<lparr>
         delta_reserve := Decrease delta_reserve_out, delta_hub_reserve := Increase hub_asset_amount,
         extra_hub_reserve_amount := Increase delta_q_m\<rparr>,
       hub_fee = \<lparr>tf_asset_fee = asset_fee_amount, tf_protocol_fee = slip_buy_amount,
         tf_burned_protocol_fee = 0\<rparr>\<rparr>
   }"

definition calculate_fee_amount_for_buy :: "nat \<Rightarrow> balance \<Rightarrow> balance" where
  "calculate_fee_amount_for_buy fee amount =
     (if fee = 0 then 0
      else if fee = permill_one then amount
      else
        let numerator = fee; denominator = 1000000 in
        if numerator = denominator then amount
        else saturating_add 128
               (saturating_mul 128 numerator amount div saturating_sub denominator numerator) 1)"

definition calculate_buy_for_hub_asset_state_changes ::
    "arith \<Rightarrow> 'x asset_reserve_state_scheme \<Rightarrow> balance \<Rightarrow> nat \<Rightarrow> hub_trade_slip_fees option \<Rightarrow>
     hub_trade_state_change option" where
  "calculate_buy_for_hub_asset_state_changes A asset_out_state asset_out_amount asset_fee slip = do {
     reserve_no_fee \<leftarrow> amount_without_fee A (reserve asset_out_state) asset_fee;
     hub_denominator \<leftarrow> checked_sub reserve_no_fee asset_out_amount;
     prod \<leftarrow> checked_mul 256 (hub_reserve asset_out_state) asset_out_amount;
     quot \<leftarrow> checked_div prod hub_denominator;
     d_net_hp \<leftarrow> checked_add 256 quot 1;
     d_net \<leftarrow> narrow 128 d_net_hp;
     slip_buy_amount \<leftarrow> (case slip of
         Some sl \<Rightarrow> do {
           d_gross \<leftarrow> invert_buy_side_slip A d_net (hslip_hub_reserve sl) (hslip_delta sl)
                       (hslip_max_fee sl);
           checked_sub d_gross d_net
         }
       | None \<Rightarrow> Some 0);
     let fee_amount = calculate_fee_amount_for_buy asset_fee asset_out_amount;
     sum_m \<leftarrow> checked_add 256 (hub_reserve asset_out_state) d_net;
     prod_m \<leftarrow> checked_mul 256 sum_m asset_out_amount;
     minted \<leftarrow> narrow 128 prod_m;
     let n = permill_mul_floor A asset_fee minted;
     delta_q_m \<leftarrow> checked_div n hub_denominator;
     d_gross \<leftarrow> checked_add 128 d_net slip_buy_amount;
     Some \<lparr>
       hub_asset = asset_state_change_default\<lparr>
         delta_reserve := Decrease asset_out_amount, delta_hub_reserve := Increase d_gross,
         extra_hub_reserve_amount := Increase delta_q_m\<rparr>,
       hub_fee = \<lparr>tf_asset_fee = fee_amount, tf_protocol_fee = slip_buy_amount,
         tf_burned_protocol_fee = 0\<rparr>\<rparr>
   }"

definition calculate_buy_state_changes ::
    "arith \<Rightarrow> 'x asset_reserve_state_scheme \<Rightarrow> 'y asset_reserve_state_scheme \<Rightarrow> balance \<Rightarrow> nat \<Rightarrow> nat \<Rightarrow> nat \<Rightarrow>
     trade_slip_fees option \<Rightarrow> trade_state_change option" where
  "calculate_buy_state_changes A asset_in_state asset_out_state amount asset_fee protocol_fee m
       slip = do {
     reserve_no_fee \<leftarrow> amount_without_fee A (reserve asset_out_state) asset_fee;
     prod_out \<leftarrow> checked_mul 256 (hub_reserve asset_out_state) amount;
     rest_out \<leftarrow> checked_sub reserve_no_fee amount;
     d_net_hp \<leftarrow> checked_div prod_out rest_out;
     d_net0 \<leftarrow> narrow 128 d_net_hp;
     d_net \<leftarrow> checked_add 128 d_net0 1;
     d_gross \<leftarrow> (case slip of
         Some sl \<Rightarrow> invert_buy_side_slip A d_net (slip_out_hub_reserve sl) (slip_out_delta sl)
                      (slip_max_fee sl)
       | None \<Rightarrow> Some d_net);
     delta_hub_reserve_in \<leftarrow> (case slip of
         Some sl \<Rightarrow> invert_sell_side_fees A d_gross protocol_fee (slip_in_hub_reserve sl)
                      (slip_in_delta sl) (slip_max_fee sl)
       | None \<Rightarrow> fx_checked_div A d_net
                    (fx_of_permill A (permill_saturating_sub A permill_one protocol_fee)));
     if hub_reserve asset_in_state \<le> delta_hub_reserve_in then None
     else do {
       prod_in \<leftarrow> checked_mul 256 (reserve asset_in_state) delta_hub_reserve_in;
       rest_in \<leftarrow> checked_sub (hub_reserve asset_in_state) delta_hub_reserve_in;
       delta_reserve_in_hp \<leftarrow> checked_div prod_in rest_in;
       delta_reserve_in0 \<leftarrow> narrow 128 delta_reserve_in_hp;
       delta_reserve_in \<leftarrow> checked_add 128 delta_reserve_in0 1;
       let asset_fee_amount = calculate_fee_amount_for_buy asset_fee amount;
       let protocol_fee_amount = permill_mul_floor A protocol_fee delta_hub_reserve_in;
       slip_sell_amount \<leftarrow> (case slip of
           Some sl \<Rightarrow> calculate_slip_fee_amount A (slip_in_hub_reserve sl) (slip_in_delta sl)
                        (Negative delta_hub_reserve_in) (slip_max_fee sl) delta_hub_reserve_in
         | None \<Rightarrow> Some 0);
       after_fee \<leftarrow> checked_sub delta_hub_reserve_in protocol_fee_amount;
       d_gross_forward \<leftarrow> checked_sub after_fee slip_sell_amount;
       slip_buy_amount \<leftarrow> (case slip of
           Some sl \<Rightarrow> calculate_slip_fee_amount A (slip_out_hub_reserve sl) (slip_out_delta sl)
                        (Positive d_gross_forward) (slip_max_fee sl) d_gross_forward
         | None \<Rightarrow> Some 0);
       d_net_forward \<leftarrow> checked_sub d_gross_forward slip_buy_amount;
       fee1 \<leftarrow> checked_add 128 protocol_fee_amount slip_sell_amount;
       total_protocol_fee \<leftarrow> checked_add 128 fee1 slip_buy_amount;
       sum_m \<leftarrow> checked_add 256 (hub_reserve asset_out_state) d_net_forward;
       prod_m \<leftarrow> checked_mul 256 sum_m d_net_forward;
       quot_m \<leftarrow> checked_div prod_m (hub_reserve asset_out_state);
       minted \<leftarrow> narrow 128 quot_m;
       let delta_out_m = permill_mul_floor A asset_fee minted;
       let burned_protocol_fee = permill_mul_floor A m total_protocol_fee;
       Some \<lparr>
         tsc_asset_in = asset_state_change_default\<lparr>
           delta_reserve := Increase delta_reserve_in,
           delta_hub_reserve := Decrease delta_hub_reserve_in\<rparr>,
         tsc_asset_out = asset_state_change_default\<lparr>
           delta_reserve := Decrease amount, delta_hub_reserve := Increase d_net_forward,
           extra_hub_reserve_amount := Increase delta_out_m\<rparr>,
         tsc_fee = \<lparr>tf_asset_fee = asset_fee_amount, tf_protocol_fee = total_protocol_fee,
           tf_burned_protocol_fee = burned_protocol_fee\<rparr>\<rparr>
     }
   }"

section \<open>Liquidity\<close>

definition calculate_add_liquidity_state_changes ::
    "arith \<Rightarrow> 'x asset_reserve_state_scheme \<Rightarrow> balance \<Rightarrow> liquidity_state_change option" where
  "calculate_add_liquidity_state_changes A asset_state amount = do {
     p \<leftarrow> state_price A asset_state;
     delta_hub \<leftarrow> fx_checked_mul_int A p amount;
     prod \<leftarrow> checked_mul 256 (shares asset_state) amount;
     delta_shares_hp \<leftarrow> checked_div prod (reserve asset_state);
     delta_sh \<leftarrow> narrow 128 delta_shares_hp;
     Some \<lparr>
       lp_asset = asset_state_change_default\<lparr>
         delta_reserve := Increase amount, delta_hub_reserve := Increase delta_hub,
         delta_shares := Increase delta_sh\<rparr>,
       delta_position_reserve = bu_default, delta_position_shares = bu_default,
       lp_hub_amount = 0\<rparr>
   }"

text \<open>\<open>None\<close> is the panic of the division operator on overflow.\<close>

definition calculate_withdrawal_fee :: "arith \<Rightarrow> nat \<Rightarrow> nat \<Rightarrow> nat \<Rightarrow> nat option" where
  "calculate_withdrawal_fee A spot_price oracle_price min_withdrawal_fee =
     (let price_diff = (if oracle_price \<le> spot_price then fx_saturating_sub A spot_price oracle_price
                        else fx_saturating_sub A oracle_price spot_price);
          min_fee = fx_of_permill A min_withdrawal_fee
      in if oracle_price = 0 then Some min_fee
         else do {
           ratio \<leftarrow> fx_checked_div A price_diff oracle_price;
           Some (if ratio < min_fee then min_fee else if fx_one < ratio then fx_one else ratio)
         })"

definition calculate_remove_liquidity_state_changes ::
    "arith \<Rightarrow> 'x asset_reserve_state_scheme \<Rightarrow> balance \<Rightarrow> 'y position_scheme \<Rightarrow> nat \<Rightarrow>
     liquidity_state_change option" where
  "calculate_remove_liquidity_state_changes A asset_state shares_removed position withdrawal_fee = do {
     let current_shares = shares asset_state;
     let current_reserve = reserve asset_state;
     let current_hub_reserve = hub_reserve asset_state;
     current_price \<leftarrow> state_price A asset_state;
     position_price' \<leftarrow> position_price A position;
     p_mul \<leftarrow> fx_checked_mul_int A position_price' current_reserve;
     p_x_r \<leftarrow> checked_add 256 p_mul 1;
     delta_b_hp \<leftarrow> (if current_price < position_price' then do {
         diff \<leftarrow> checked_sub p_x_r current_hub_reserve;
         numer \<leftarrow> checked_mul 256 diff shares_removed;
         denom \<leftarrow> checked_add 256 p_x_r current_hub_reserve;
         quot \<leftarrow> checked_div numer denom;
         checked_add 256 quot 1
       }
       else Some 0);
     delta_shares_hp \<leftarrow> checked_sub shares_removed delta_b_hp;
     prod_r \<leftarrow> checked_mul 256 current_reserve delta_shares_hp;
     delta_reserve_hp \<leftarrow> checked_div prod_r current_shares;
     prod_h \<leftarrow> checked_mul 256 delta_reserve_hp current_hub_reserve;
     delta_hub_reserve_hp \<leftarrow> checked_div prod_h current_reserve;
     prod_p \<leftarrow> checked_mul 256 shares_removed (pos_amount position);
     delta_position_amount_hp \<leftarrow> checked_div prod_p (pos_shares position);
     delta_res0 \<leftarrow> narrow 128 delta_reserve_hp;
     delta_hub0 \<leftarrow> narrow 128 delta_hub_reserve_hp;
     delta_position_amount \<leftarrow> narrow 128 delta_position_amount_hp;
     delta_sh \<leftarrow> narrow 128 delta_shares_hp;
     delta_b \<leftarrow> narrow 128 delta_b_hp;
     hub_transferred0 \<leftarrow> (if position_price' < current_price then do {
         subtr \<leftarrow> checked_sub current_hub_reserve p_x_r;
         total \<leftarrow> checked_add 256 current_hub_reserve p_x_r;
         prod1 \<leftarrow> checked_mul 256 current_hub_reserve subtr;
         div1 \<leftarrow> checked_div prod1 total;
         prod2 \<leftarrow> checked_mul 256 div1 delta_shares_hp;
         quot2 \<leftarrow> checked_div prod2 current_shares;
         narrow 128 quot2
       }
       else Some 0);
     let fee_complement = fx_saturating_sub A fx_one withdrawal_fee;
     delta_res \<leftarrow> fx_checked_mul_int A fee_complement delta_res0;
     delta_hub \<leftarrow> fx_checked_mul_int A fee_complement delta_hub0;
     hub_transferred \<leftarrow> fx_checked_mul_int A fee_complement hub_transferred0;
     Some \<lparr>
       lp_asset = asset_state_change_default\<lparr>
         delta_reserve := Decrease delta_res, delta_hub_reserve := Decrease delta_hub,
         delta_shares := Decrease delta_sh, delta_protocol_shares := Increase delta_b\<rparr>,
       delta_position_reserve = Decrease delta_position_amount,
       delta_position_shares = Decrease shares_removed,
       lp_hub_amount = hub_transferred\<rparr>
   }"

section \<open>Prices and caps\<close>

definition calculate_tvl :: "balance \<Rightarrow> balance \<times> balance \<Rightarrow> balance option" where
  "calculate_tvl hub_res stable_asset = do {
     prod \<leftarrow> checked_mul 256 hub_res (fst stable_asset);
     tvl \<leftarrow> checked_div prod (snd stable_asset);
     narrow 128 tvl
   }"

definition calculate_spot_price ::
    "arith \<Rightarrow> 'x asset_reserve_state_scheme \<Rightarrow> 'y asset_reserve_state_scheme \<Rightarrow> (nat \<times> nat) option \<Rightarrow> nat option" where
  "calculate_spot_price A asset_a asset_b fee = do {
     price_a \<leftarrow> fx_checked_from_rational A (hub_reserve asset_a) (reserve asset_a);
     price_b \<leftarrow> fx_checked_from_rational A (reserve asset_b) (hub_reserve asset_b);
     spot_price_without_fee \<leftarrow> fx_checked_mul A price_a price_b;
     (case fee of
        Some (protocol_fee, asset_fee) \<Rightarrow> do {
          pf \<leftarrow> permill_checked_sub A permill_one protocol_fee;
          protocol_fee_multiplier \<leftarrow> fx_checked_from_rational A pf 1000000;
          af \<leftarrow> permill_checked_sub A permill_one asset_fee;
          asset_fee_multiplier \<leftarrow> fx_checked_from_rational A af 1000000;
          p1 \<leftarrow> fx_checked_mul A spot_price_without_fee protocol_fee_multiplier;
          fx_checked_mul A p1 asset_fee_multiplier
        }
      | None \<Rightarrow> Some spot_price_without_fee)
   }"

definition calculate_lrna_spot_price ::
    "arith \<Rightarrow> 'x asset_reserve_state_scheme \<Rightarrow> nat option \<Rightarrow> nat option" where
  "calculate_lrna_spot_price A asset fee = do {
     spot_price_without_fee \<leftarrow> fx_checked_from_rational A (reserve asset) (hub_reserve asset);
     (case fee of
        Some asset_fee \<Rightarrow> do {
          af \<leftarrow> permill_checked_sub A permill_one asset_fee;
          asset_fee_multiplier \<leftarrow> fx_checked_from_rational A af 1000000;
          fx_checked_mul A spot_price_without_fee asset_fee_multiplier
        }
      | None \<Rightarrow> Some spot_price_without_fee)
   }"

definition calculate_cap_difference ::
    "arith \<Rightarrow> 'x asset_reserve_state_scheme \<Rightarrow> nat \<Rightarrow> balance \<Rightarrow> balance option" where
  "calculate_cap_difference A asset asset_cap total_hub_reserve = do {
     max_allowed \<leftarrow> fx_checked_mul_int A asset_cap total_hub_reserve;
     p \<leftarrow> fx_checked_from_rational A (hub_reserve asset) max_allowed;
     if fx_one < p then Some 0
     else do {
       q \<leftarrow> fx_checked_sub A fx_one p;
       fx_checked_mul_int A q (reserve asset)
     }
   }"

definition calculate_tvl_cap_difference ::
    "'x asset_reserve_state_scheme \<Rightarrow> 'y asset_reserve_state_scheme \<Rightarrow> balance \<Rightarrow> balance \<Rightarrow> balance option" where
  "calculate_tvl_cap_difference asset stable_asset tvl_cap total_hub_reserve = do {
     prod \<leftarrow> checked_mul 256 tvl_cap (hub_reserve stable_asset);
     max_hub_reserve \<leftarrow> checked_div prod (reserve stable_asset);
     if max_hub_reserve < total_hub_reserve then Some 0
     else do {
       delta_q \<leftarrow> checked_sub max_hub_reserve total_hub_reserve;
       prod2 \<leftarrow> checked_mul 256 delta_q (reserve asset);
       amount \<leftarrow> checked_div prod2 (hub_reserve asset);
       narrow 128 amount
     }
   }"

definition verify_asset_cap ::
    "arith \<Rightarrow> 'x asset_reserve_state_scheme \<Rightarrow> nat \<Rightarrow> balance \<Rightarrow> balance \<Rightarrow> bool option" where
  "verify_asset_cap A asset asset_cap hub_amount total_hub_reserve = do {
     n \<leftarrow> checked_add 128 (hub_reserve asset) hub_amount;
     d \<leftarrow> checked_add 128 total_hub_reserve hub_amount;
     weight \<leftarrow> fx_checked_from_rational A n d;
     Some (weight \<le> asset_cap)
   }"

section \<open>Trades\<close>

text \<open>Widths the code's types guarantee.\<close>

definition state_u128 :: "'x asset_reserve_state_scheme \<Rightarrow> bool" where
  "state_u128 s \<longleftrightarrow> reserve s \<le> umax 128 \<and> hub_reserve s \<le> umax 128 \<and> shares s \<le> umax 128 \<and>
     protocol_shares s \<le> umax 128"

fun slip_u128 :: "trade_slip_fees option \<Rightarrow> bool" where
  "slip_u128 None = True"
| "slip_u128 (Some s) \<longleftrightarrow> slip_in_hub_reserve s \<le> umax 128 \<and> sb_abs (slip_in_delta s) \<le> umax 128 \<and>
     slip_out_hub_reserve s \<le> umax 128 \<and> sb_abs (slip_out_delta s) \<le> umax 128 \<and>
     slip_max_fee s \<le> permill_one"

fun hub_slip_u128 :: "hub_trade_slip_fees option \<Rightarrow> bool" where
  "hub_slip_u128 None = True"
| "hub_slip_u128 (Some s) \<longleftrightarrow> hslip_hub_reserve s \<le> umax 128 \<and> sb_abs (hslip_delta s) \<le> umax 128 \<and>
     hslip_max_fee s \<le> permill_one"

text \<open>
  What a trade between two assets promises, in terms of its deltas: the reserves of both assets
  move along curves on which reserve times hub reserve does not fall, no reserve is overdrawn, and
  the hub amount leaving the sold asset is the hub amount entering the bought one plus the protocol
  fee, of which a part is burned.
\<close>

definition trade_sound ::
    "'x asset_reserve_state_scheme \<Rightarrow> 'y asset_reserve_state_scheme \<Rightarrow> trade_state_change \<Rightarrow> bool" where
  "trade_sound si so t \<longleftrightarrow>
     (case (delta_reserve (tsc_asset_in t), delta_hub_reserve (tsc_asset_in t),
            delta_reserve (tsc_asset_out t), delta_hub_reserve (tsc_asset_out t)) of
        (Increase x, Decrease hi, Decrease y, Increase ho) \<Rightarrow>
          hi \<le> hub_reserve si \<and> y \<le> reserve so \<and>
          reserve si * hub_reserve si \<le> (reserve si + x) * (hub_reserve si - hi) \<and>
          reserve so * hub_reserve so \<le> (reserve so - y) * (hub_reserve so + ho) \<and>
          hi = ho + tf_protocol_fee (tsc_fee t) \<and>
          tf_burned_protocol_fee (tsc_fee t) \<le> tf_protocol_fee (tsc_fee t)
      | _ \<Rightarrow> False)"

text \<open>The slip part of the two sides of a trade.\<close>

definition slip_amount_in :: "arith \<Rightarrow> trade_slip_fees option \<Rightarrow> balance \<Rightarrow> balance option" where
  "slip_amount_in A slip h = (case slip of
     Some sl \<Rightarrow> calculate_slip_fee_amount A (slip_in_hub_reserve sl) (slip_in_delta sl)
                  (Negative h) (slip_max_fee sl) h
   | None \<Rightarrow> Some 0)"

definition slip_amount_out :: "arith \<Rightarrow> trade_slip_fees option \<Rightarrow> balance \<Rightarrow> balance option" where
  "slip_amount_out A slip h = (case slip of
     Some sl \<Rightarrow> calculate_slip_fee_amount A (slip_out_hub_reserve sl) (slip_out_delta sl)
                  (Positive h) (slip_max_fee sl) h
   | None \<Rightarrow> Some 0)"

lemma calculate_sell_state_changes_cases:
  assumes "calculate_sell_state_changes A si so amount asset_fee protocol_fee m slip = Some t"
  obtains hi pf ss g sb ho ao y mt where
    "hi = amount * hub_reserve si div (reserve si + amount)" "hi \<le> umax 128"
    "pf = permill_mul_floor A protocol_fee hi"
    "slip_amount_in A slip hi = Some ss" "hi = pf + ss + g"
    "slip_amount_out A slip g = Some sb" "g = sb + ho"
    "ao = reserve so * ho div (hub_reserve so + ho)" "ao \<le> umax 128"
    "amount_without_fee A ao asset_fee = Some y"
    "mt = (hub_reserve so + ho) * ho div hub_reserve so" "mt \<le> umax 128" "hub_reserve so \<noteq> 0"
    "t = \<lparr>tsc_asset_in = asset_state_change_default
            \<lparr>delta_reserve := Increase amount, delta_hub_reserve := Decrease hi\<rparr>,
          tsc_asset_out = asset_state_change_default
            \<lparr>delta_reserve := Decrease y, delta_hub_reserve := Increase ho,
             extra_hub_reserve_amount := Increase (permill_mul_floor A asset_fee mt)\<rparr>,
          tsc_fee = \<lparr>tf_asset_fee = ao - y, tf_protocol_fee = pf + ss + sb,
             tf_burned_protocol_fee = permill_mul_floor A m (pf + ss + sb)\<rparr>\<rparr>"
proof -
  from assms [unfolded calculate_sell_state_changes_def Let_def, folded slip_amount_in_def slip_amount_out_def]
  obtain p1 s1 h1 hi ss g1 g sb ho p2 s2 q2 ao y s3 p3 q3 mt f1 f2 where
    1: "checked_mul 256 amount (hub_reserve si) = Some p1"
      "checked_add 256 (reserve si) amount = Some s1"
      "checked_div p1 s1 = Some h1" "narrow 128 h1 = Some hi"
    and 2: "slip_amount_in A slip hi = Some ss"
      "checked_sub hi (permill_mul_floor A protocol_fee hi) = Some g1" "checked_sub g1 ss = Some g"
      "slip_amount_out A slip g = Some sb" "checked_sub g sb = Some ho"
    and 3: "checked_mul 256 (reserve so) ho = Some p2" "checked_add 256 (hub_reserve so) ho = Some s2"
      "checked_div p2 s2 = Some q2" "narrow 128 q2 = Some ao" "amount_without_fee A ao asset_fee = Some y"
    and 4: "checked_add 256 (hub_reserve so) ho = Some s3" "checked_mul 256 s3 ho = Some p3"
      "checked_div p3 (hub_reserve so) = Some q3" "narrow 128 q3 = Some mt"
    and 5: "checked_add 128 (permill_mul_floor A protocol_fee hi) ss = Some f1"
      "checked_add 128 f1 sb = Some f2"
    and t: "Some \<lparr>tsc_asset_in = asset_state_change_default
            \<lparr>delta_reserve := Increase amount, delta_hub_reserve := Decrease hi\<rparr>,
          tsc_asset_out = asset_state_change_default
            \<lparr>delta_reserve := Decrease y, delta_hub_reserve := Increase ho,
             extra_hub_reserve_amount := Increase (permill_mul_floor A asset_fee mt)\<rparr>,
          tsc_fee = \<lparr>tf_asset_fee = saturating_sub ao y, tf_protocol_fee = f2,
             tf_burned_protocol_fee = permill_mul_floor A m f2\<rparr>\<rparr> = Some t"
    by (elim bind_SomeE) (rule that, assumption+)
  have hi: "hi = amount * hub_reserve si div (reserve si + amount)" "hi \<le> umax 128"
    using 1 by (auto simp: ck_iff)
  have g: "hi = permill_mul_floor A protocol_fee hi + ss + g" "g = sb + ho"
    using 2 by (auto simp: ck_iff)
  have ao: "ao = reserve so * ho div (hub_reserve so + ho)" "ao \<le> umax 128"
    using 3 by (auto simp: ck_iff)
  have mt: "mt = (hub_reserve so + ho) * ho div hub_reserve so" "mt \<le> umax 128" "hub_reserve so \<noteq> 0"
    using 4 by (auto simp: ck_iff)
  have f2: "f2 = permill_mul_floor A protocol_fee hi + ss + sb"
    using 5 by (auto simp: ck_iff)
  show thesis
    by (rule that [OF hi refl 2(1) g(1) 2(4) g(2) ao 3(5) mt])
      (use t f2 in \<open>simp add: saturating_sub_def\<close>)
qed
definition gross_for_buy :: "arith \<Rightarrow> trade_slip_fees option \<Rightarrow> balance \<Rightarrow> balance option" where
  "gross_for_buy A slip d = (case slip of
     Some sl \<Rightarrow> invert_buy_side_slip A d (slip_out_hub_reserve sl) (slip_out_delta sl)
                  (slip_max_fee sl)
   | None \<Rightarrow> Some d)"

definition hub_in_for_buy ::
    "arith \<Rightarrow> trade_slip_fees option \<Rightarrow> nat \<Rightarrow> balance \<Rightarrow> balance \<Rightarrow> balance option" where
  "hub_in_for_buy A slip protocol_fee d_net d_gross = (case slip of
     Some sl \<Rightarrow> invert_sell_side_fees A d_gross protocol_fee (slip_in_hub_reserve sl)
                  (slip_in_delta sl) (slip_max_fee sl)
   | None \<Rightarrow> fx_checked_div A d_net
                (fx_of_permill A (permill_saturating_sub A permill_one protocol_fee)))"

text \<open>
  The regime in which a buy with slip fees is proved to pay in full: no net inflow of hub asset
  into the sold asset in this block, three units of hub asset left in its pool, and a reserve of
  the bought asset within \<open>2^126\<close>.
\<close>

fun slip_regime :: "trade_slip_fees option \<Rightarrow> balance \<Rightarrow> bool" where
  "slip_regime None hi = True"
| "slip_regime (Some s) hi \<longleftrightarrow> slip_out_hub_reserve s \<le> umax 126 \<and> \<not> sb_is_positive (slip_in_delta s) \<and>
     int hi + 3 \<le> int (slip_in_hub_reserve s) + sb_val (slip_in_delta s)"

lemma fx_one_permill: "fx_one = permill_one * 1000000000000"
  by (simp add: fx_one_def permill_one_def)

lemmas trade_slip_folds = slip_amount_in_def slip_amount_out_def gross_for_buy_def hub_in_for_buy_def

lemma calculate_buy_state_changes_cases:
  assumes "calculate_buy_state_changes A si so amount asset_fee protocol_fee m slip = Some t"
  obtains rn d dg hi x pf ss g sb ho mt where
    "amount_without_fee A (reserve so) asset_fee = Some rn" "amount < rn"
    "d = hub_reserve so * amount div (rn - amount) + 1" "d \<le> umax 128"
    "gross_for_buy A slip d = Some dg" "hub_in_for_buy A slip protocol_fee d dg = Some hi"
    "hi < hub_reserve si" "x = reserve si * hi div (hub_reserve si - hi) + 1" "x \<le> umax 128"
    "pf = permill_mul_floor A protocol_fee hi"
    "slip_amount_in A slip hi = Some ss" "hi = pf + ss + g"
    "slip_amount_out A slip g = Some sb" "g = sb + ho"
    "mt = (hub_reserve so + ho) * ho div hub_reserve so" "mt \<le> umax 128" "hub_reserve so \<noteq> 0"
    "t = \<lparr>tsc_asset_in = asset_state_change_default
            \<lparr>delta_reserve := Increase x, delta_hub_reserve := Decrease hi\<rparr>,
          tsc_asset_out = asset_state_change_default
            \<lparr>delta_reserve := Decrease amount, delta_hub_reserve := Increase ho,
             extra_hub_reserve_amount := Increase (permill_mul_floor A asset_fee mt)\<rparr>,
          tsc_fee = \<lparr>tf_asset_fee = calculate_fee_amount_for_buy asset_fee amount,
             tf_protocol_fee = pf + ss + sb,
             tf_burned_protocol_fee = permill_mul_floor A m (pf + ss + sb)\<rparr>\<rparr>"
proof -
  from assms [unfolded calculate_buy_state_changes_def Let_def, folded trade_slip_folds]
  obtain rn p1 s1 q1 d0 d dg hi p2 s2 q2 x0 x ss g1 g sb ho f1 f2 s3 p3 q3 mt where
    1: "amount_without_fee A (reserve so) asset_fee = Some rn"
      "checked_mul 256 (hub_reserve so) amount = Some p1" "checked_sub rn amount = Some s1"
      "checked_div p1 s1 = Some q1" "narrow 128 q1 = Some d0" "checked_add 128 d0 1 = Some d"
    and inv: "gross_for_buy A slip d = Some dg" "hub_in_for_buy A slip protocol_fee d dg = Some hi"
      "\<not> hub_reserve si \<le> hi"
    and 2: "checked_mul 256 (reserve si) hi = Some p2" "checked_sub (hub_reserve si) hi = Some s2"
      "checked_div p2 s2 = Some q2" "narrow 128 q2 = Some x0" "checked_add 128 x0 1 = Some x"
    and 3: "slip_amount_in A slip hi = Some ss"
      "checked_sub hi (permill_mul_floor A protocol_fee hi) = Some g1" "checked_sub g1 ss = Some g"
      "slip_amount_out A slip g = Some sb" "checked_sub g sb = Some ho"
      "checked_add 128 (permill_mul_floor A protocol_fee hi) ss = Some f1"
      "checked_add 128 f1 sb = Some f2"
    and 4: "checked_add 256 (hub_reserve so) ho = Some s3" "checked_mul 256 s3 ho = Some p3"
      "checked_div p3 (hub_reserve so) = Some q3" "narrow 128 q3 = Some mt"
    and t: "Some \<lparr>tsc_asset_in = asset_state_change_default
            \<lparr>delta_reserve := Increase x, delta_hub_reserve := Decrease hi\<rparr>,
          tsc_asset_out = asset_state_change_default
            \<lparr>delta_reserve := Decrease amount, delta_hub_reserve := Increase ho,
             extra_hub_reserve_amount := Increase (permill_mul_floor A asset_fee mt)\<rparr>,
          tsc_fee = \<lparr>tf_asset_fee = calculate_fee_amount_for_buy asset_fee amount,
             tf_protocol_fee = f2, tf_burned_protocol_fee = permill_mul_floor A m f2\<rparr>\<rparr> = Some t"
    by (elim bind_SomeE if_NoneE) (rule that, assumption+)
  have d: "amount < rn" "d = hub_reserve so * amount div (rn - amount) + 1" "d \<le> umax 128"
    using 1 by (auto simp: ck_iff)
  have x: "hi < hub_reserve si" "x = reserve si * hi div (hub_reserve si - hi) + 1" "x \<le> umax 128"
    using 2 by (auto simp: ck_iff)
  have g: "hi = permill_mul_floor A protocol_fee hi + ss + g" "g = sb + ho"
    "f2 = permill_mul_floor A protocol_fee hi + ss + sb"
    using 3 by (auto simp: ck_iff)
  have mt: "mt = (hub_reserve so + ho) * ho div hub_reserve so" "mt \<le> umax 128" "hub_reserve so \<noteq> 0"
    using 4 by (auto simp: ck_iff)
  show thesis
    by (rule that [OF 1(1) d inv(1,2) x refl 3(1) g(1) 3(4) g(2) mt]) (use t g(3) in simp)
qed

lemma asset_state_change_default_sel [simp]:
  "delta_reserve asset_state_change_default = Increase 0"
  "delta_hub_reserve asset_state_change_default = Increase 0"
  "delta_shares asset_state_change_default = Increase 0"
  "delta_protocol_shares asset_state_change_default = Increase 0"
  "extra_hub_reserve_amount asset_state_change_default = Increase 0"
  by (simp_all add: asset_state_change_default_def bu_default_def)

lemma product_inverse_step_no_fee:
  fixes R Q a n :: nat
  assumes "a < n" "n \<le> R"
  shows "R * Q \<le> (R - a) * (Q + (Q * a div (n - a) + 1))"
proof -
  have "Q * a div (R - a) + 1 \<le> Q * a div (n - a) + 1"
    using assms by (simp add: div_le_mono2)
  then have "(R - a) * (Q + (Q * a div (R - a) + 1)) \<le> (R - a) * (Q + (Q * a div (n - a) + 1))"
    by (intro mult_le_mono2) simp
  then show ?thesis using product_inverse_step_ge [of a R Q] assms by simp
qed

lemma product_step_smaller:
  fixes R Q x y :: nat
  assumes "y \<le> R * x div (Q + x)"
  shows "R * Q \<le> (R - y) * (Q + x)"
proof -
  have "(R - R * x div (Q + x)) * (Q + x) \<le> (R - y) * (Q + x)"
    using assms by (intro mult_le_mono1) simp
  then show ?thesis using product_step_ge [of R Q x] by (rule order_trans [rotated])
qed

text \<open>
  A trade against the hub asset: what reaches the pool after the slip fee pays for the outflow.
\<close>

definition hub_trade_sound ::
    "'x asset_reserve_state_scheme \<Rightarrow> hub_trade_state_change \<Rightarrow> bool" where
  "hub_trade_sound so t \<longleftrightarrow>
     (case (delta_reserve (hub_asset t), delta_hub_reserve (hub_asset t)) of
        (Decrease y, Increase h) \<Rightarrow>
          y \<le> reserve so \<and> tf_protocol_fee (hub_fee t) \<le> h \<and>
          reserve so * hub_reserve so \<le> (reserve so - y) * (hub_reserve so + (h - tf_protocol_fee (hub_fee t)))
      | _ \<Rightarrow> False)"

definition hub_slip_amount :: "arith \<Rightarrow> hub_trade_slip_fees option \<Rightarrow> balance \<Rightarrow> balance option" where
  "hub_slip_amount A slip h = (case slip of
     Some sl \<Rightarrow> calculate_slip_fee_amount A (hslip_hub_reserve sl) (hslip_delta sl)
                  (Positive h) (hslip_max_fee sl) h
   | None \<Rightarrow> Some 0)"

definition hub_slip_for_buy :: "arith \<Rightarrow> hub_trade_slip_fees option \<Rightarrow> balance \<Rightarrow> balance option" where
  "hub_slip_for_buy A slip d = (case slip of
     Some sl \<Rightarrow> do {
       g \<leftarrow> invert_buy_side_slip A d (hslip_hub_reserve sl) (hslip_delta sl) (hslip_max_fee sl);
       checked_sub g d
     }
   | None \<Rightarrow> Some 0)"

lemma calculate_sell_hub_state_changes_cases:
  assumes "calculate_sell_hub_state_changes A so h asset_fee slip = Some t"
  obtains sb e ao y mt where
    "hub_slip_amount A slip h = Some sb" "h = sb + e"
    "ao = reserve so * e div (hub_reserve so + e)" "ao \<le> umax 128"
    "amount_without_fee A ao asset_fee = Some y"
    "mt = (hub_reserve so + e) * e div hub_reserve so" "mt \<le> umax 128" "hub_reserve so \<noteq> 0"
    "t = \<lparr>hub_asset = asset_state_change_default
            \<lparr>delta_reserve := Decrease y, delta_hub_reserve := Increase h,
             extra_hub_reserve_amount := Increase (permill_mul_floor A asset_fee mt)\<rparr>,
          hub_fee = \<lparr>tf_asset_fee = ao - y, tf_protocol_fee = sb, tf_burned_protocol_fee = 0\<rparr>\<rparr>"
proof -
  from assms [unfolded calculate_sell_hub_state_changes_def Let_def, folded hub_slip_amount_def]
  obtain sb e p1 s1 q1 ao y s2 p2 q2 mt where
    1: "hub_slip_amount A slip h = Some sb" "checked_sub h sb = Some e"
    and 2: "checked_mul 256 (reserve so) e = Some p1" "checked_add 256 (hub_reserve so) e = Some s1"
      "checked_div p1 s1 = Some q1" "narrow 128 q1 = Some ao"
    and y: "amount_without_fee A ao asset_fee = Some y"
    and 3: "checked_add 256 (hub_reserve so) e = Some s2" "checked_mul 256 s2 e = Some p2"
      "checked_div p2 (hub_reserve so) = Some q2" "narrow 128 q2 = Some mt"
    and t: "Some \<lparr>hub_asset = asset_state_change_default
            \<lparr>delta_reserve := Decrease y, delta_hub_reserve := Increase h,
             extra_hub_reserve_amount := Increase (permill_mul_floor A asset_fee mt)\<rparr>,
          hub_fee = \<lparr>tf_asset_fee = saturating_sub ao y, tf_protocol_fee = sb,
            tf_burned_protocol_fee = 0\<rparr>\<rparr> = Some t"
    by (elim bind_SomeE) (rule that, assumption+)
  have e: "h = sb + e" using 1 by (auto simp: ck_iff)
  have ao: "ao = reserve so * e div (hub_reserve so + e)" "ao \<le> umax 128"
    using 2 by (auto simp: ck_iff)
  have mt: "mt = (hub_reserve so + e) * e div hub_reserve so" "mt \<le> umax 128" "hub_reserve so \<noteq> 0"
    using 3 by (auto simp: ck_iff)
  show thesis
    by (rule that [OF 1(1) e ao y mt]) (use t in \<open>simp add: saturating_sub_def\<close>)
qed

lemma calculate_buy_for_hub_asset_state_changes_cases:
  assumes "calculate_buy_for_hub_asset_state_changes A so amount asset_fee slip = Some t"
  obtains rn d sb x where
    "amount_without_fee A (reserve so) asset_fee = Some rn" "amount < rn"
    "d = hub_reserve so * amount div (rn - amount) + 1" "d \<le> umax 128"
    "hub_slip_for_buy A slip d = Some sb" "d + sb \<le> umax 128"
    "t = \<lparr>hub_asset = asset_state_change_default
            \<lparr>delta_reserve := Decrease amount, delta_hub_reserve := Increase (d + sb),
             extra_hub_reserve_amount := Increase x\<rparr>,
          hub_fee = \<lparr>tf_asset_fee = calculate_fee_amount_for_buy asset_fee amount,
            tf_protocol_fee = sb, tf_burned_protocol_fee = 0\<rparr>\<rparr>"
proof -
  from assms [unfolded calculate_buy_for_hub_asset_state_changes_def Let_def, folded hub_slip_for_buy_def]
  obtain rn hd p1 q1 d1 d sb s2 p2 mt x g where
    1: "amount_without_fee A (reserve so) asset_fee = Some rn" "checked_sub rn amount = Some hd"
      "checked_mul 256 (hub_reserve so) amount = Some p1" "checked_div p1 hd = Some q1"
      "checked_add 256 q1 1 = Some d1" "narrow 128 d1 = Some d"
    and sb: "hub_slip_for_buy A slip d = Some sb"
    and 2: "checked_add 256 (hub_reserve so) d = Some s2" "checked_mul 256 s2 amount = Some p2"
      "narrow 128 p2 = Some mt" "checked_div (permill_mul_floor A asset_fee mt) hd = Some x"
    and g: "checked_add 128 d sb = Some g"
    and t: "Some \<lparr>hub_asset = asset_state_change_default
            \<lparr>delta_reserve := Decrease amount, delta_hub_reserve := Increase g,
             extra_hub_reserve_amount := Increase x\<rparr>,
          hub_fee = \<lparr>tf_asset_fee = calculate_fee_amount_for_buy asset_fee amount,
            tf_protocol_fee = sb, tf_burned_protocol_fee = 0\<rparr>\<rparr> = Some t"
    by (elim bind_SomeE) (rule that, assumption+)
  have d: "amount < rn" "d = hub_reserve so * amount div (rn - amount) + 1" "d \<le> umax 128"
    using 1 by (auto simp: ck_iff)
  have "g = d + sb" "d + sb \<le> umax 128" using g by (auto simp: ck_iff)
  then show thesis using that [OF 1(1) d sb, of x] t by auto
qed

context sp_arith
begin

lemma amount_without_fee_Some:
  "fee \<le> permill_one \<Longrightarrow> amount \<le> umax 128 \<Longrightarrow>
     amount_without_fee A amount fee = Some ((permill_one - fee) * amount div permill_one)"
  by (simp add: amount_without_fee_def permill_checked_sub checked_sub_def permill_mul_floor)

lemma amount_without_fee_le:
  assumes "amount_without_fee A amount fee = Some v" "fee \<le> permill_one" "amount \<le> umax 128"
  shows "v \<le> amount"
  using assms permill_mul_floor_le [of "permill_one - fee" amount]
  by (auto simp: amount_without_fee_def permill_checked_sub ck_iff)

lemma calculate_sell_state_changes_sound:
  assumes fees: "asset_fee \<le> permill_one" "protocol_fee \<le> permill_one" "m \<le> permill_one"
    and run: "calculate_sell_state_changes A si so amount asset_fee protocol_fee m slip = Some t"
  shows "trade_sound si so t"
  using run
proof (cases rule: calculate_sell_state_changes_cases)
  case (1 hi pf ss g sb ho ao y mt)
  have "y \<le> ao" using amount_without_fee_le [OF 1(10) fees(1) 1(9)] .
  moreover have "ao \<le> reserve so" unfolding 1 by (rule product_step_le_reserve)
  moreover have "hi \<le> hub_reserve si"
    using product_step_le_reserve [of "hub_reserve si"] by (simp add: 1 mult.commute)
  moreover have "hub_reserve si * reserve si \<le> (hub_reserve si - hi) * (reserve si + amount)"
    using product_step_ge [of "hub_reserve si" "reserve si" amount] by (simp add: 1(1) mult.commute)
  moreover have "permill_mul_floor A m (pf + ss + sb) \<le> pf + ss + sb"
    using fees(3) 1(2,5,7) by (intro permill_mul_floor_le) auto
  ultimately show ?thesis
    using product_step_smaller [of y "reserve so" ho "hub_reserve so"] 1(5,7,8)
    by (simp add: trade_sound_def 1(14) mult.commute)
qed

lemma hub_in_for_buy_covers:
  assumes p: "protocol_fee \<le> permill_one" and d: "d \<le> umax 128" and hi: "hi \<le> umax 128"
    and slip: "slip_u128 slip" "slip_regime slip hi"
    and run: "gross_for_buy A slip d = Some dg" "hub_in_for_buy A slip protocol_fee d dg = Some hi"
      "slip_amount_in A slip hi = Some ss" "hi = permill_mul_floor A protocol_fee hi + ss + g"
      "slip_amount_out A slip g = Some sb" "g = sb + ho"
  shows "d \<le> ho"
proof (cases slip)
  case None
  have p1: "permill_one - protocol_fee \<le> permill_one" by simp
  have u: "(permill_one - protocol_fee) * 1000000000000 \<le> umax 128"
    by (simp add: permill_one_def umax_def)
  have "hi = d * permill_one div (permill_one - protocol_fee)" "protocol_fee < permill_one"
    using run(2) None p d u p1
    by (auto simp: hub_in_for_buy_def permill_saturating_sub fx_of_permill fx_checked_div ck_iff
        fx_one_permill split: if_splits)
  then have "d \<le> hi - protocol_fee * hi div permill_one"
    using cap_covers [of protocol_fee "permill_one - protocol_fee" permill_one hi d] by simp
  then show ?thesis
    using run(3-6) None p hi
    by (simp add: slip_amount_in_def slip_amount_out_def permill_mul_floor)
next
  case (Some s)
  have cov: "buy_cover d (slip_out_hub_reserve s) (slip_out_delta s) (slip_max_fee s) dg" "dg \<le> umax 128"
    using invert_buy_side_slip_cover [of "slip_out_hub_reserve s" d "slip_out_delta s" "slip_max_fee s" dg]
      slip d run(1) Some by (simp_all add: gross_for_buy_def)
  have "dg + permill_mul_floor A protocol_fee hi + ss \<le> hi"
    using slip run(2,3) Some cov(2) hi p
    by (intro invert_sell_side_fees_covers [of "slip_in_hub_reserve s" _ "slip_in_delta s"])
      (auto simp: hub_in_for_buy_def slip_amount_in_def)
  then have "dg \<le> g" using run(4) by simp
  then have "buy_cover d (slip_out_hub_reserve s) (slip_out_delta s) (slip_max_fee s) g"
    using buy_cover_mono [OF cov(1)] slip(1) Some by simp
  moreover have "g \<le> umax 128" using run(4) hi by simp
  ultimately have "d \<le> g - sb"
    using slip(1) run(5) Some
    by (intro buy_cover_net [of "slip_out_hub_reserve s" _ "slip_out_delta s"])
      (auto simp: slip_amount_out_def)
  then show ?thesis using run(6) by simp
qed

lemma calculate_buy_state_changes_sound:
  assumes u: "state_u128 si" "state_u128 so" "slip_u128 slip"
    and fees: "asset_fee \<le> permill_one" "protocol_fee \<le> permill_one" "m \<le> permill_one"
    and run: "calculate_buy_state_changes A si so amount asset_fee protocol_fee m slip = Some t"
    and regime: "slip_regime slip (bu_amount (delta_hub_reserve (tsc_asset_in t)))"
  shows "trade_sound si so t \<and> delta_reserve (tsc_asset_out t) = Decrease amount"
  using run
proof (cases rule: calculate_buy_state_changes_cases)
  case (1 rn d dg hi x pf ss g sb ho mt)
  have hi_u: "hi \<le> umax 128" using 1(7) u(1) by (simp add: state_u128_def)
  have rn: "rn \<le> reserve so"
    using amount_without_fee_le [OF 1(1) fees(1)] u(2) by (simp add: state_u128_def)
  have "slip_regime slip hi" using regime by (simp add: 1(18))
  then have "d \<le> ho"
    by (rule hub_in_for_buy_covers
        [OF fees(2) 1(4) hi_u u(3) _ 1(5,6,11) 1(12) [unfolded 1(10)] 1(13,14)])
  then have "(reserve so - amount) * (hub_reserve so + d) \<le> (reserve so - amount) * (hub_reserve so + ho)"
    by (intro mult_le_mono2) simp
  then have "reserve so * hub_reserve so \<le> (reserve so - amount) * (hub_reserve so + ho)"
    using product_inverse_step_no_fee [OF 1(2) rn, of "hub_reserve so"] 1(3) by simp
  moreover have "hub_reserve si * reserve si \<le> (hub_reserve si - hi) * (reserve si + x)"
    unfolding 1(8) using 1(7) by (rule product_inverse_step_ge)
  moreover have "permill_mul_floor A m (pf + ss + sb) \<le> pf + ss + sb"
    using fees(3) 1(12,14) hi_u by (intro permill_mul_floor_le) auto
  ultimately show ?thesis
    using 1(2,7,12,14) rn by (simp add: trade_sound_def 1(18) mult.commute)
qed

lemma calculate_sell_hub_state_changes_sound:
  assumes "asset_fee \<le> permill_one"
    and run: "calculate_sell_hub_state_changes A so h asset_fee slip = Some t"
  shows "hub_trade_sound so t \<and> delta_hub_reserve (hub_asset t) = Increase h"
  using run
proof (cases rule: calculate_sell_hub_state_changes_cases)
  case (1 sb e ao y mt)
  have "y \<le> ao" using amount_without_fee_le [OF 1(5) assms(1) 1(4)] .
  moreover have "ao \<le> reserve so" unfolding 1 by (rule product_step_le_reserve)
  ultimately show ?thesis
    using product_step_smaller [of y "reserve so" e "hub_reserve so"] 1(2,3)
    by (simp add: hub_trade_sound_def 1(9))
qed

lemma calculate_buy_for_hub_asset_state_changes_sound:
  assumes "state_u128 so" "asset_fee \<le> permill_one"
    and run: "calculate_buy_for_hub_asset_state_changes A so amount asset_fee slip = Some t"
  shows "hub_trade_sound so t \<and> delta_reserve (hub_asset t) = Decrease amount"
  using run
proof (cases rule: calculate_buy_for_hub_asset_state_changes_cases)
  case (1 rn d sb x)
  have rn: "rn \<le> reserve so"
    using amount_without_fee_le [OF 1(1) assms(2)] assms(1) by (simp add: state_u128_def)
  have "reserve so * hub_reserve so \<le> (reserve so - amount) * (hub_reserve so + d)"
    unfolding 1(3) using rn 1(2) by (rule product_inverse_step_no_fee [rotated])
  then show ?thesis using rn 1(2) by (simp add: hub_trade_sound_def 1(7))
qed

end

section \<open>Liquidity\<close>

definition protocol_shares_of_removal :: "nat \<Rightarrow> nat \<Rightarrow> nat \<Rightarrow> nat \<Rightarrow> nat \<Rightarrow> nat option" where
  "protocol_shares_of_removal cp pp p_x_r hub removed =
     (if cp < pp then do {
         diff \<leftarrow> checked_sub p_x_r hub;
         numer \<leftarrow> checked_mul 256 diff removed;
         denom \<leftarrow> checked_add 256 p_x_r hub;
         quot \<leftarrow> checked_div numer denom;
         checked_add 256 quot 1
       }
       else Some 0)"

definition hub_of_removal :: "nat \<Rightarrow> nat \<Rightarrow> nat \<Rightarrow> nat \<Rightarrow> nat \<Rightarrow> nat \<Rightarrow> nat option" where
  "hub_of_removal cp pp p_x_r hub ds sh =
     (if pp < cp then do {
         subtr \<leftarrow> checked_sub hub p_x_r;
         total \<leftarrow> checked_add 256 hub p_x_r;
         prod1 \<leftarrow> checked_mul 256 hub subtr;
         div1 \<leftarrow> checked_div prod1 total;
         prod2 \<leftarrow> checked_mul 256 div1 ds;
         quot2 \<leftarrow> checked_div prod2 sh;
         narrow 128 quot2
       }
       else Some 0)"

lemmas removal_folds = protocol_shares_of_removal_def hub_of_removal_def

lemma calculate_remove_liquidity_state_changes_cases:
  assumes "calculate_remove_liquidity_state_changes A s removed pos w = Some l"
  obtains cp pp pm b ds r0 h0 pr t0 r h t where
    "state_price A s = Some cp" "position_price A pos = Some pp"
    "fx_checked_mul_int A pp (reserve s) = Some pm"
    "protocol_shares_of_removal cp pp (pm + 1) (hub_reserve s) removed = Some b" "removed = ds + b"
    "shares s \<noteq> 0" "r0 = reserve s * ds div shares s" "r0 \<le> umax 128"
    "h0 = r0 * hub_reserve s div reserve s" "h0 \<le> umax 128"
    "pr = removed * pos_amount pos div pos_shares pos"
    "hub_of_removal cp pp (pm + 1) (hub_reserve s) ds (shares s) = Some t0"
    "fx_checked_mul_int A (fx_saturating_sub A fx_one w) r0 = Some r"
    "fx_checked_mul_int A (fx_saturating_sub A fx_one w) h0 = Some h"
    "fx_checked_mul_int A (fx_saturating_sub A fx_one w) t0 = Some t"
    "l = \<lparr>lp_asset = asset_state_change_default
            \<lparr>delta_reserve := Decrease r, delta_hub_reserve := Decrease h,
             delta_shares := Decrease ds, delta_protocol_shares := Increase b\<rparr>,
          delta_position_reserve = Decrease pr, delta_position_shares = Decrease removed,
          lp_hub_amount = t\<rparr>"
proof -
  from assms [unfolded calculate_remove_liquidity_state_changes_def Let_def, folded removal_folds]
  obtain cp pp pm px b1 ds1 p1 r1 p2 h1 p3 pr1 r0 h0 pr ds b t0 r h t where
    1: "state_price A s = Some cp" "position_price A pos = Some pp"
      "fx_checked_mul_int A pp (reserve s) = Some pm" "checked_add 256 pm 1 = Some px"
    and b: "protocol_shares_of_removal cp pp px (hub_reserve s) removed = Some b1"
      "checked_sub removed b1 = Some ds1"
    and 2: "checked_mul 256 (reserve s) ds1 = Some p1" "checked_div p1 (shares s) = Some r1"
      "checked_mul 256 r1 (hub_reserve s) = Some p2" "checked_div p2 (reserve s) = Some h1"
      "checked_mul 256 removed (pos_amount pos) = Some p3" "checked_div p3 (pos_shares pos) = Some pr1"
    and 3: "narrow 128 r1 = Some r0" "narrow 128 h1 = Some h0" "narrow 128 pr1 = Some pr"
      "narrow 128 ds1 = Some ds" "narrow 128 b1 = Some b"
    and t0: "hub_of_removal cp pp px (hub_reserve s) ds1 (shares s) = Some t0"
    and w: "fx_checked_mul_int A (fx_saturating_sub A fx_one w) r0 = Some r"
      "fx_checked_mul_int A (fx_saturating_sub A fx_one w) h0 = Some h"
      "fx_checked_mul_int A (fx_saturating_sub A fx_one w) t0 = Some t"
    and l: "Some \<lparr>lp_asset = asset_state_change_default
            \<lparr>delta_reserve := Decrease r, delta_hub_reserve := Decrease h,
             delta_shares := Decrease ds, delta_protocol_shares := Increase b\<rparr>,
          delta_position_reserve = Decrease pr, delta_position_shares = Decrease removed,
          lp_hub_amount = t\<rparr> = Some l"
    by (elim bind_SomeE) (rule that, assumption+)
  have eqs: "px = pm + 1" "b1 = b" "ds1 = ds" "r1 = r0" "h1 = h0" "pr1 = pr" "r0 \<le> umax 128" "h0 \<le> umax 128"
    using 1(4) 3 by (auto simp: ck_iff)
  have v: "removed = ds + b" "shares s \<noteq> 0" "r0 = reserve s * ds div shares s" "h0 = r0 * hub_reserve s div reserve s"
    "pr = removed * pos_amount pos div pos_shares pos"
    using b(2) 2 eqs by (auto simp: ck_iff)
  show thesis
    by (rule that [OF 1(1-3) b(1) [unfolded eqs] v(1,2,3) eqs(7) v(4) eqs(8) v(5) t0 [unfolded eqs] w])
      (use l in simp)
qed

text \<open>
  Adding liquidity never mints more shares than the deposit's part of the pool, and never more hub
  asset than the price allows.
\<close>

definition add_liquidity_sound ::
    "'x asset_reserve_state_scheme \<Rightarrow> balance \<Rightarrow> liquidity_state_change \<Rightarrow> bool" where
  "add_liquidity_sound s amount l \<longleftrightarrow>
     (case (delta_reserve (lp_asset l), delta_hub_reserve (lp_asset l), delta_shares (lp_asset l)) of
        (Increase a, Increase h, Increase ds) \<Rightarrow>
          a = amount \<and> ds * reserve s \<le> amount * shares s \<and> amount * shares s < (ds + 1) * reserve s \<and>
          h * reserve s \<le> amount * hub_reserve s
      | _ \<Rightarrow> False)"

text \<open>
  Removing liquidity: the shares removed are split between the pool and the protocol, what leaves
  the pool is at most the part the burned shares stand for, and the position shrinks by
  its own proportion.
\<close>

definition remove_liquidity_sound ::
    "'x asset_reserve_state_scheme \<Rightarrow> balance \<Rightarrow> 'y position_scheme \<Rightarrow> liquidity_state_change \<Rightarrow> bool" where
  "remove_liquidity_sound s removed pos l \<longleftrightarrow>
     (case (delta_reserve (lp_asset l), delta_hub_reserve (lp_asset l), delta_shares (lp_asset l),
            delta_protocol_shares (lp_asset l), delta_position_reserve l, delta_position_shares l) of
        (Decrease r, Decrease h, Decrease ds, Increase b, Decrease pr, Decrease ps) \<Rightarrow>
          ps = removed \<and> ds + b = removed \<and> shares s \<noteq> 0 \<and>
          r * shares s \<le> ds * reserve s \<and> h * shares s \<le> ds * hub_reserve s \<and>
          lp_hub_amount l * shares s \<le> ds * hub_reserve s \<and>
          pr * pos_shares pos \<le> removed * pos_amount pos
      | _ \<Rightarrow> False)"

lemma hub_of_removal_le:
  assumes "hub_of_removal cp pp px hub ds sh = Some t"
  shows "t \<le> umax 128" "t * sh \<le> ds * hub"
proof -
  show "t \<le> umax 128" using assms by (auto simp: hub_of_removal_def ck_iff split: if_splits)
  define x where "x = hub * (hub - px) div (hub + px)"
  have t: "t = 0 \<or> t = x * ds div sh"
    using assms by (auto simp: hub_of_removal_def ck_iff x_def split: if_splits)
  have "hub * (hub - px) \<le> hub * (hub + px)" by (rule mult_le_mono2) simp
  then have "x \<le> hub" unfolding x_def by (rule div_le_if_mult)
  then have "x * ds \<le> hub * ds" by (rule mult_le_mono1)
  with div_mult_le [of "x * ds" sh] have "x * ds div sh * sh \<le> ds * hub"
    by (simp only: mult.commute [of ds])
  then show "t * sh \<le> ds * hub" using t by auto
qed

lemma two_step_share:
  fixes r R S d h Q :: nat
  assumes "r * S \<le> R * d" "h = r * Q div R"
  shows "h * S \<le> d * Q"
proof (cases "R = 0")
  case False
  have "h * R \<le> r * Q" unfolding assms(2) by (rule div_mult_le)
  then have "h * R * S \<le> r * Q * S" by (rule mult_le_mono1)
  also have "\<dots> = r * S * Q" by simp
  also have "\<dots> \<le> R * d * Q" by (rule mult_le_mono1) fact
  finally have "R * (h * S) \<le> R * (d * Q)" by (simp add: ac_simps)
  then show ?thesis using False by simp
qed (use assms in simp)

context sp_arith
begin

lemma state_price_Some:
  assumes "state_u128 s" "state_price A s = Some p"
  shows "reserve s \<noteq> 0" "p = hub_reserve s * fx_one div reserve s" "p \<le> umax 128"
  using assms fx_from_rational_u128 [of "hub_reserve s" "reserve s" p]
  by (auto simp: state_price_def state_u128_def)

lemma price_mul_int_le:
  assumes "state_u128 s" "state_price A s = Some p" "n \<le> umax 128" "fx_checked_mul_int A p n = Some v"
  shows "v * reserve s \<le> n * hub_reserve s"
proof -
  note p = state_price_Some [OF assms(1,2)]
  have v: "v = p * n div fx_one" using assms(3,4) p(3) by (auto simp: fx_checked_mul_int ck_iff)
  have "v * fx_one * reserve s \<le> p * n * reserve s"
    unfolding v by (intro mult_le_mono1) (rule div_mult_le)
  also have "\<dots> = p * reserve s * n" by simp
  also have "\<dots> \<le> hub_reserve s * fx_one * n" unfolding p(2) by (intro mult_le_mono1) (rule div_mult_le)
  finally have "fx_one * (v * reserve s) \<le> fx_one * (n * hub_reserve s)" by (simp add: ac_simps)
  then show ?thesis by (simp add: fx_one_def)
qed

lemma calculate_add_liquidity_state_changes_sound:
  assumes "state_u128 s" "amount \<le> umax 128"
    and run: "calculate_add_liquidity_state_changes A s amount = Some l"
  shows "add_liquidity_sound s amount l"
proof -
  from run obtain p h where p: "state_price A s = Some p" "fx_checked_mul_int A p amount = Some h"
    and l: "lp_asset l = asset_state_change_default
        \<lparr>delta_reserve := Increase amount, delta_hub_reserve := Increase h,
         delta_shares := Increase (shares s * amount div reserve s)\<rparr>"
    by (auto simp: calculate_add_liquidity_state_changes_def ck_iff)
  show ?thesis
    using price_mul_int_le [OF assms(1) p(1) assms(2) p(2)] state_price_Some(1) [OF assms(1) p(1)]
      div_mult_le [of "shares s * amount" "reserve s"] less_div_Suc_mult [of "reserve s" "shares s * amount"]
    by (simp add: add_liquidity_sound_def l mult.commute)
qed

lemma withdrawal_fee_complement:
  assumes "w \<le> umax 128" "n \<le> umax 128" "fx_checked_mul_int A (fx_saturating_sub A fx_one w) n = Some v"
  shows "v \<le> n"
proof -
  have "fx_one - w \<le> umax 128" using fx_one_u128 by simp
  then show ?thesis
    using fx_mul_int_le [of "fx_one - w" n] assms by (simp add: fx_saturating_sub fx_one_u128)
qed

lemma calculate_remove_liquidity_state_changes_sound:
  assumes "w \<le> umax 128"
    and run: "calculate_remove_liquidity_state_changes A s removed pos w = Some l"
  shows "remove_liquidity_sound s removed pos l"
  using run
proof (cases rule: calculate_remove_liquidity_state_changes_cases)
  case (1 cp pp pm b ds r0 h0 pr t0 r h t)
  note t0 = hub_of_removal_le [OF 1(12)]
  have le: "r \<le> r0" "h \<le> h0" "t \<le> t0"
    using withdrawal_fee_complement [OF assms(1)] 1(8,10,13-15) t0 by auto
  have r0: "r0 * shares s \<le> reserve s * ds" unfolding 1(7) by (rule div_mult_le)
  have "r * shares s \<le> reserve s * ds"
    using mult_le_mono1 [OF le(1)] r0 by (rule order_trans)
  moreover have "h * shares s \<le> ds * hub_reserve s"
    using mult_le_mono1 [OF le(2)] two_step_share [OF r0 1(9)] by (rule order_trans)
  moreover have "t * shares s \<le> ds * hub_reserve s"
    using mult_le_mono1 [OF le(3)] t0(2) by (rule order_trans)
  moreover have "pr * pos_shares pos \<le> removed * pos_amount pos" unfolding 1(11) by (rule div_mult_le)
  ultimately show ?thesis
    using 1(5,6) by (simp add: remove_liquidity_sound_def 1(16) mult.commute)
qed

text \<open>
  Adding liquidity and withdrawing it again from the resulting state and position: the position's
  price is the state's, so no protocol shares are created and no hub asset is paid out.
\<close>

lemma add_remove_round_trip:
  assumes u: "state_u128 s" "amount \<le> umax 128" "w \<le> umax 128"
    and add: "calculate_add_liquidity_state_changes A s amount = Some l"
    and ds: "delta_shares (lp_asset l) = Increase ds"
    and s': "math_delta_update s (lp_asset l) = Some s'"
    and pos: "pos = \<lparr>pos_amount = amount, pos_shares = ds, pos_price = (hub_reserve s', reserve s')\<rparr>"
    and rem: "calculate_remove_liquidity_state_changes A s' ds pos w = Some l2"
  shows "bu_amount (delta_reserve (lp_asset l2)) \<le> amount \<and> lp_hub_amount l2 = 0 \<and>
    delta_shares (lp_asset l2) = Decrease ds \<and> delta_protocol_shares (lp_asset l2) = Increase 0"
  using rem
proof (cases rule: calculate_remove_liquidity_state_changes_cases)
  case (1 cp pp pm b ds' r0 h0 pr t0 r h t)
  have "position_price A pos = state_price A s'" by (simp add: position_price_def state_price_def pos)
  then have "pp = cp" using 1(1,2) by simp
  then have bt: "b = 0" "t0 = 0" "ds' = ds"
    using 1(4,5,12) by (simp_all add: protocol_shares_of_removal_def hub_of_removal_def)
  have t: "t = 0" using withdrawal_fee_complement [OF u(3) _ 1(15)] bt by simp
  have le: "ds * reserve s \<le> amount * shares s" "delta_reserve (lp_asset l) = Increase amount"
    using calculate_add_liquidity_state_changes_sound [OF u(1,2) add] ds
    by (auto simp: add_liquidity_sound_def split: balance_update.splits)
  have new: "reserve s' = reserve s + amount" "shares s' = shares s + ds"
    using s' ds le(2) by (auto simp: math_delta_update_def ck_iff)
  have "r * shares s' \<le> ds * reserve s'"
    using calculate_remove_liquidity_state_changes_sound [OF u(3) rem] bt
    by (simp add: remove_liquidity_sound_def 1(16))
  also have "\<dots> \<le> amount * shares s'" using le(1) by (simp add: new distrib_left mult.commute)
  finally have "r \<le> amount" using 1(6) by simp
  then show ?thesis using bt t by (simp add: 1(16))
qed

end

section \<open>Properties\<close>

definition sample_in :: asset_reserve_state where
  "sample_in = \<lparr>reserve = 1000000, hub_reserve = 2000000, shares = 1000000, protocol_shares = 0\<rparr>"

definition sample_out :: asset_reserve_state where
  "sample_out = \<lparr>reserve = 3000000, hub_reserve = 1500000, shares = 3000000, protocol_shares = 0\<rparr>"

definition sample_slip :: trade_slip_fees where
  "sample_slip = \<lparr>slip_in_hub_reserve = 2000000, slip_in_delta = Positive 0,
     slip_out_hub_reserve = 1500000, slip_out_delta = Positive 0, slip_max_fee = 50000\<rparr>"

lemmas omnipool_math_eval = sample_in_def sample_out_def sample_slip_def state_u128_def
  asset_state_change_default_def bu_default_def amount_without_fee_def slip_eval

text \<open>
  (C30) A sell between two Omnipool assets is sound: whenever the formula returns, neither
  reserve-times-hub-reserve product falls, no reserve is overdrawn, the hub amount taken from the
  sold asset is exactly the amount added to the bought asset plus the protocol fee (protocol and
  slip part), and at most that fee is burned.
\<close>

theorem omnipool_sell_sound:
  assumes "sp_arith A"
    and "asset_fee \<le> permill_one" "protocol_fee \<le> permill_one" "m \<le> permill_one"
    and "calculate_sell_state_changes A si so amount asset_fee protocol_fee m slip = Some t"
  shows "trade_sound si so t"
  using assms by (rule sp_arith.calculate_sell_state_changes_sound)

theorem omnipool_sell_sound_witness:
  "\<exists>t. calculate_sell_state_changes std_arith sample_in sample_out 10000 2500 500 500000
        (Some sample_slip) = Some t \<and>
     trade_sound sample_in sample_out t \<and> delta_reserve (tsc_asset_out t) = Decrease 38095"
proof -
  have "\<exists>t. calculate_sell_state_changes std_arith sample_in sample_out 10000 2500 500 500000
        (Some sample_slip) = Some t \<and> delta_reserve (tsc_asset_out t) = Decrease 38095"
    by (simp add: calculate_sell_state_changes_def omnipool_math_eval)
  then show ?thesis
    using omnipool_sell_sound [OF std.sp_arith_axioms, of 2500 500 500000 sample_in sample_out]
    by (auto simp: permill_one_def)
qed

text \<open>
  (C31) A buy between two Omnipool assets is sound: it delivers exactly the requested amount, and the
  amount charged pays for it in full through both curves and all fees, so that the same
  promises as for a sell hold. Without slip fees this is unconditional; with slip fees it holds
  while hub asset has not entered the sold asset's pool in the block.
\<close>

theorem omnipool_buy_sound:
  assumes "sp_arith A"
    and "state_u128 si" "state_u128 so" "slip_u128 slip"
    and "asset_fee \<le> permill_one" "protocol_fee \<le> permill_one" "m \<le> permill_one"
    and "calculate_buy_state_changes A si so amount asset_fee protocol_fee m slip = Some t"
    and "slip_regime slip (bu_amount (delta_hub_reserve (tsc_asset_in t)))"
  shows "trade_sound si so t \<and> delta_reserve (tsc_asset_out t) = Decrease amount"
  using assms by (rule sp_arith.calculate_buy_state_changes_sound)

theorem omnipool_buy_sound_witness:
  "\<exists>t. calculate_buy_state_changes std_arith sample_in sample_out 30000 2500 500 500000
        (Some sample_slip) = Some t \<and>
     trade_sound sample_in sample_out t \<and> delta_reserve (tsc_asset_in t) = Increase 7798"
proof -
  have b: "invert_buy_side_slip std_arith 15190 1500000 (Positive 0) 50000 = Some 15346"
    by (simp add: buy_inversion_eval slip_eval)
  have "isqrt 3812115191716000000000000 = 1952463877185" by (rule isqrt_eqI) simp_all
  then have s: "invert_sell_side_fees std_arith 15346 500 2000000 (Positive 0) 50000 = Some 15475"
    by (simp add: sell_inversion_eval invert_sell_case_a_def slip_eval)
  have f: "calculate_slip_fee_amount std_arith 2000000 (Positive 0) (Negative 15475) 50000 15475 = Some 120"
    "calculate_slip_fee_amount std_arith 1500000 (Positive 0) (Positive 15348) 50000 15348 = Some 155"
    by (simp_all add: slip_eval)
  have "\<exists>t. calculate_buy_state_changes std_arith sample_in sample_out 30000 2500 500 500000
        (Some sample_slip) = Some t \<and> delta_reserve (tsc_asset_in t) = Increase 7798 \<and>
        delta_hub_reserve (tsc_asset_in t) = Decrease 15475"
    using b s f by (simp add: calculate_buy_state_changes_def sample_in_def sample_out_def
        sample_slip_def amount_without_fee_def ck_eval permill_one_def std_arith_sel)
  then show ?thesis
    using omnipool_buy_sound [OF std.sp_arith_axioms, of sample_in sample_out "Some sample_slip" 2500 500 500000]
    by (auto simp: permill_one_def omnipool_math_eval)
qed

text \<open>
  Trades against the hub asset are sound: what the trader pays, less the slip fee, moves the
  asset along its curve without lowering its product; a sell takes exactly the
  offered hub amount and a buy delivers exactly the requested asset amount.
\<close>

theorem omnipool_hub_trades_sound:
  assumes "sp_arith A" "state_u128 so" "asset_fee \<le> permill_one"
    and "calculate_sell_hub_state_changes A so h asset_fee slip = Some t1"
    and "calculate_buy_for_hub_asset_state_changes A so amount asset_fee slip = Some t2"
  shows "hub_trade_sound so t1 \<and> delta_hub_reserve (hub_asset t1) = Increase h \<and>
    hub_trade_sound so t2 \<and> delta_reserve (hub_asset t2) = Decrease amount"
  using sp_arith.calculate_sell_hub_state_changes_sound [OF assms(1,3,4)]
    sp_arith.calculate_buy_for_hub_asset_state_changes_sound [OF assms(1,2,3,5)] by simp

theorem omnipool_hub_trades_sound_witness:
  "\<exists>t1 t2. calculate_sell_hub_state_changes std_arith sample_out 5000 2500 None = Some t1 \<and>
     calculate_buy_for_hub_asset_state_changes std_arith sample_out 5000 2500 None = Some t2 \<and>
     hub_trade_sound sample_out t1 \<and> hub_trade_sound sample_out t2"
proof -
  obtain t1 where t1: "calculate_sell_hub_state_changes std_arith sample_out 5000 2500 None = Some t1"
    by (simp add: calculate_sell_hub_state_changes_def omnipool_math_eval)
  obtain t2 where t2: "calculate_buy_for_hub_asset_state_changes std_arith sample_out 5000 2500 None = Some t2"
    by (simp add: calculate_buy_for_hub_asset_state_changes_def omnipool_math_eval)
  show ?thesis
    using t1 t2 omnipool_hub_trades_sound [OF std.sp_arith_axioms _ _ t1 t2]
    by (simp add: permill_one_def state_u128_def sample_out_def umax_def)
qed

text \<open>
  (C32) Adding liquidity mints the largest whole number of shares that does not exceed the deposit's
  part of the reserve, and no more hub asset than the deposit is worth at the current price.
\<close>

theorem omnipool_add_liquidity_sound:
  assumes "sp_arith A" "state_u128 s" "amount \<le> umax 128"
    and "calculate_add_liquidity_state_changes A s amount = Some l"
  shows "add_liquidity_sound s amount l"
  using assms by (rule sp_arith.calculate_add_liquidity_state_changes_sound)

theorem omnipool_add_liquidity_sound_witness:
  "\<exists>l. calculate_add_liquidity_state_changes std_arith sample_in 500 = Some l \<and>
     add_liquidity_sound sample_in 500 l"
proof -
  obtain l where l: "calculate_add_liquidity_state_changes std_arith sample_in 500 = Some l"
    by (simp add: calculate_add_liquidity_state_changes_def state_price_def omnipool_math_eval fx_one_def)
  show ?thesis
    using l omnipool_add_liquidity_sound [OF std.sp_arith_axioms _ _ l]
    by (simp add: state_u128_def sample_in_def umax_def)
qed

text \<open>
  (C33) Removing liquidity pays out at most the removed shares' part: asset, hub reserve and hub
  payment are each bounded by the share of the pool the burned shares stand for, shares given
  to the protocol and shares burned add up to the shares removed, and the position loses
  its own proportion.
\<close>

theorem omnipool_remove_liquidity_sound:
  assumes "sp_arith A" "w \<le> umax 128"
    and "calculate_remove_liquidity_state_changes A s removed pos w = Some l"
  shows "remove_liquidity_sound s removed pos l"
  using assms by (rule sp_arith.calculate_remove_liquidity_state_changes_sound)

theorem omnipool_remove_liquidity_sound_witness:
  "\<exists>l. calculate_remove_liquidity_state_changes std_arith sample_in 400
        \<lparr>pos_amount = 500, pos_shares = 500, pos_price = (1, 1)\<rparr> 10000000000000000 = Some l \<and>
     remove_liquidity_sound sample_in 400 \<lparr>pos_amount = 500, pos_shares = 500, pos_price = (1, 1)\<rparr> l \<and>
     lp_hub_amount l = 263"
proof -
  obtain l where l: "calculate_remove_liquidity_state_changes std_arith sample_in 400
      \<lparr>pos_amount = 500, pos_shares = 500, pos_price = (1, 1)\<rparr> 10000000000000000 = Some l"
    and "lp_hub_amount l = 263"
    by (simp add: calculate_remove_liquidity_state_changes_def state_price_def position_price_def
        omnipool_math_eval fx_one_def)
  then show ?thesis
    using omnipool_remove_liquidity_sound [OF std.sp_arith_axioms _ l] by (simp add: umax_def)
qed

text \<open>
  (C34) A liquidity round trip does not pay: withdrawing a position from the very state its deposit
  produced returns at most the deposit, no hub asset and no protocol shares, for every
  withdrawal fee.
\<close>

theorem omnipool_liquidity_round_trip:
  assumes "sp_arith A" "state_u128 s" "amount \<le> umax 128" "w \<le> umax 128"
    and "calculate_add_liquidity_state_changes A s amount = Some l"
    and "delta_shares (lp_asset l) = Increase ds"
    and "math_delta_update s (lp_asset l) = Some s'"
    and "pos = \<lparr>pos_amount = amount, pos_shares = ds, pos_price = (hub_reserve s', reserve s')\<rparr>"
    and "calculate_remove_liquidity_state_changes A s' ds pos w = Some l2"
  shows "bu_amount (delta_reserve (lp_asset l2)) \<le> amount \<and> lp_hub_amount l2 = 0 \<and>
    delta_shares (lp_asset l2) = Decrease ds \<and> delta_protocol_shares (lp_asset l2) = Increase 0"
  using assms by (rule sp_arith.add_remove_round_trip)

theorem omnipool_liquidity_round_trip_witness:
  "\<exists>l s' l2. calculate_add_liquidity_state_changes std_arith sample_out 700 = Some l \<and>
     delta_shares (lp_asset l) = Increase 700 \<and> math_delta_update sample_out (lp_asset l) = Some s' \<and>
     calculate_remove_liquidity_state_changes std_arith s' 700
       \<lparr>pos_amount = 700, pos_shares = 700, pos_price = (hub_reserve s', reserve s')\<rparr> 0 = Some l2 \<and>
     bu_amount (delta_reserve (lp_asset l2)) \<le> 700 \<and> lp_hub_amount l2 = 0"
proof -
  obtain l s' where l: "calculate_add_liquidity_state_changes std_arith sample_out 700 = Some l"
      "delta_shares (lp_asset l) = Increase 700"
    and s: "math_delta_update sample_out (lp_asset l) = Some s'"
    and s': "s' = \<lparr>reserve = 3000700, hub_reserve = 1500350, shares = 3000700, protocol_shares = 0\<rparr>"
    by (simp add: calculate_add_liquidity_state_changes_def state_price_def math_delta_update_def
        omnipool_math_eval fx_one_def)
  obtain l2 where l2: "calculate_remove_liquidity_state_changes std_arith s' 700
      \<lparr>pos_amount = 700, pos_shares = 700, pos_price = (hub_reserve s', reserve s')\<rparr> 0 = Some l2"
    by (simp add: s' calculate_remove_liquidity_state_changes_def state_price_def position_price_def
        omnipool_math_eval fx_one_def)
  show ?thesis
    using l s l2 omnipool_liquidity_round_trip [OF std.sp_arith_axioms _ _ _ l s refl l2]
    by (auto simp: state_u128_def sample_out_def umax_def)
qed

end
