(* ===== verification/Frame_Support.thy ===== *)
theory Frame_Support
  imports Prelude
begin

text \<open>
  What the pallets take from the runtime framework: origins, the error type of a dispatch, and the
  multi-currency ledger they transfer, mint and burn on. The ledger is third-party code
  (\<open>orml_traits::MultiCurrency\<close>), so it is a record of functions over an opaque world \<open>'w\<close>;
  \<open>pool_ledger\<close> is the contract for the balances of one account whose balances the ledger keeps exactly. The
  accounts of the pallets are exempt from dusting and meet it. Properties that speak of a trader assume it of the trader: a
  balance that falls below the existential deposit is dusted on the chain, and such a trade is outside these properties.
  \<open>transfers_of\<close> is its part on transfers alone. Errors of external code are numbers. Nothing of a failed
  dispatch is kept, so a failing operation returns its error and no state.
\<close>

datatype origin = Signed account_id | Root | Unsigned | Governance nat

datatype arithmetic_error = Arith_Underflow | Arith_Overflow | Arith_DivisionByZero

datatype 'e dispatch_error =
    Module 'e
  | Arithmetic arithmetic_error
  | BadOrigin
  | Corruption
  | Foreign nat

definition ensure_signed :: "origin \<Rightarrow> 'e dispatch_error + account_id" where
  "ensure_signed orig = (case orig of Signed who \<Rightarrow> Inr who | _ \<Rightarrow> Inl BadOrigin)"

definition ensure_signed_or_root :: "origin \<Rightarrow> 'e dispatch_error + account_id option" where
  "ensure_signed_or_root orig = (case orig of Signed who \<Rightarrow> Inr (Some who) | Root \<Rightarrow> Inr None | _ \<Rightarrow> Inl BadOrigin)"

text \<open>\<open>foreign m\<close> is \<open>m?\<close> for a call of external code.\<close>

definition foreign :: "nat + 'a \<Rightarrow> 'e dispatch_error + 'a" where
  "foreign m = (case m of Inl n \<Rightarrow> Inl (Foreign n) | Inr x \<Rightarrow> Inr x)"

lemma ensure_signed_Inr [res_iff]: "ensure_signed orig = Inr who \<longleftrightarrow> orig = Signed who"
  by (auto simp: ensure_signed_def split: origin.splits)

lemma ensure_signed_or_root_Inr [res_iff]:
  "ensure_signed_or_root orig = Inr x \<longleftrightarrow> (\<exists>who. orig = Signed who \<and> x = Some who) \<or> orig = Root \<and> x = None"
  by (auto simp: ensure_signed_or_root_def split: origin.splits)

lemma foreign_Inr [res_iff]: "foreign m = Inr x \<longleftrightarrow> m = Inr x"
  by (auto simp: foreign_def split: sum.splits)

lemma foreign_simps [simp]: "foreign (Inr x) = Inr x" "foreign (Inl n) = Inl (Foreign n)"
  by (simp_all add: foreign_def)

lemma try_foreignE:
  "tryR (foreign m) k = Inr y \<Longrightarrow> (\<And>x. m = Inr x \<Longrightarrow> k x = Inr y \<Longrightarrow> P) \<Longrightarrow> P"
  by (auto simp: res_iff)

text \<open>Elimination rules that take the successful run of a pallet operation apart, step by step.\<close>

lemma try_foreign_pairE:
  "tryR (foreign m) (\<lambda>(a, b). k a b) = Inr y \<Longrightarrow>
     (\<And>a b. m = Inr (a, b) \<Longrightarrow> k a b = Inr y \<Longrightarrow> P) \<Longrightarrow> P"
  by (auto simp: res_iff)

lemmas run_elims = try_ok_orE try_foreign_pairE try_foreignE tryR_tripleE tryR_pairE tryR_E ensureE
  case_prod_nested_eqE case_prod_eqE Inr_inject [elim_format] Pair_inject

section \<open>The ledger\<close>

record 'w currency =
  free_balance :: "'w \<Rightarrow> asset_id \<Rightarrow> account_id \<Rightarrow> balance"
  total_balance :: "'w \<Rightarrow> asset_id \<Rightarrow> account_id \<Rightarrow> balance"
  can_withdraw :: "'w \<Rightarrow> asset_id \<Rightarrow> account_id \<Rightarrow> balance \<Rightarrow> bool"
  transfer :: "asset_id \<Rightarrow> account_id \<Rightarrow> account_id \<Rightarrow> balance \<Rightarrow> 'w \<Rightarrow> nat + 'w"
  deposit :: "asset_id \<Rightarrow> account_id \<Rightarrow> balance \<Rightarrow> 'w \<Rightarrow> nat + 'w"
  withdraw :: "asset_id \<Rightarrow> account_id \<Rightarrow> balance \<Rightarrow> 'w \<Rightarrow> nat + 'w"

text \<open>The balances of one account after a transfer, a mint and a burn.\<close>

locale pool_ledger =
  fixes C :: "('w, 'z) currency_scheme" and P :: account_id
  assumes free_balance_u128: "free_balance C w a x \<le> umax 128"
    and transfer_pool:
      "transfer C a src dst n w = Inr w' \<Longrightarrow>
         free_balance C w' b P =
           (if b \<noteq> a \<or> src = dst then free_balance C w b P
            else if src = P then free_balance C w b P - n
            else if dst = P then free_balance C w b P + n
            else free_balance C w b P)"
    and transfer_enough:
      "transfer C a P dst n w = Inr w' \<Longrightarrow> dst \<noteq> P \<Longrightarrow> n \<le> free_balance C w a P"
    and deposit_pool:
      "deposit C a P n w = Inr w' \<Longrightarrow>
         free_balance C w' b P = (if b = a then free_balance C w b P + n else free_balance C w b P)"
    and withdraw_pool:
      "withdraw C a P n w = Inr w' \<Longrightarrow>
         free_balance C w' b P = (if b = a then free_balance C w b P - n else free_balance C w b P)"
    and withdraw_enough: "withdraw C a P n w = Inr w' \<Longrightarrow> n \<le> free_balance C w a P"

text \<open>The part of the contract a party to a payment relies on.\<close>

locale transfers_of =
  fixes C :: "('w, 'z) currency_scheme" and P :: account_id
  assumes transfer_at:
      "transfer C a src dst n w = Inr w' \<Longrightarrow>
         free_balance C w' b P =
           (if b \<noteq> a \<or> src = dst then free_balance C w b P
            else if src = P then free_balance C w b P - n
            else if dst = P then free_balance C w b P + n
            else free_balance C w b P)"
    and transfer_covered: "transfer C a P dst n w = Inr w' \<Longrightarrow> dst \<noteq> P \<Longrightarrow> n \<le> free_balance C w a P"

sublocale pool_ledger \<subseteq> payments: transfers_of C P
  by unfold_locales (fact transfer_pool, fact transfer_enough)

text \<open>What a swap of \<open>n\<close> of \<open>a\<close> for \<open>m\<close> of \<open>b\<close> by \<open>who\<close> means for the account \<open>z\<close>, the trader's or a bystander's.\<close>

definition swapped ::
    "('w, 'z) currency_scheme \<Rightarrow> account_id \<Rightarrow> account_id \<Rightarrow> asset_id \<Rightarrow> balance \<Rightarrow> asset_id \<Rightarrow> balance \<Rightarrow> 'w \<Rightarrow> 'w \<Rightarrow> bool" where
  "swapped C z who a n b m w w' \<longleftrightarrow> (z = who \<longrightarrow> n \<le> free_balance C w a z) \<and>
     (\<forall>c. free_balance C w' c z =
        (if z \<noteq> who then free_balance C w c z else if c = a then free_balance C w c z - n
         else if c = b then free_balance C w c z + m else free_balance C w c z))"

lemma swapped_cong:
  "swapped C z who a n b m w w' \<Longrightarrow> (\<And>c. free_balance C v c z = free_balance C w c z) \<Longrightarrow>
     (\<And>c. free_balance C v' c z = free_balance C w' c z) \<Longrightarrow> swapped C z who a n b m v v'"
  unfolding swapped_def by metis

context pool_ledger
begin

lemma swap_at:
  assumes "transfer C a who Q n w = Inr w1" "transfer C b Q who m w1 = Inr w2" "P \<noteq> Q" "who \<noteq> Q" "a \<noteq> b"
  shows "swapped C P who a n b m w w2"
  using transfer_pool [OF assms(1)] transfer_pool [OF assms(2)] transfer_enough [of a Q n w w1] assms
  by (cases "P = who") (simp_all add: swapped_def)

lemma swap_back_at:
  assumes "transfer C b Q who m w = Inr w1" "transfer C a who Q n w1 = Inr w2" "P \<noteq> Q" "who \<noteq> Q" "a \<noteq> b"
  shows "swapped C P who a n b m w w2"
  using transfer_pool [OF assms(1)] transfer_pool [OF assms(2)] transfer_enough [of a Q n w1 w2] assms
  by (cases "P = who") (simp_all add: swapped_def)

end

section \<open>A ledger\<close>

text \<open>
  A plain ledger of balances that meets the contract for every account: the witnesses of the
  pallets run on it.
\<close>

type_synonym ledger = "asset_id \<times> account_id \<Rightarrow> balance"

definition ledger_free :: "ledger \<Rightarrow> asset_id \<Rightarrow> account_id \<Rightarrow> balance" where
  "ledger_free l a x = min (umax 128) (l (a, x))"

definition ledger_deposit :: "asset_id \<Rightarrow> account_id \<Rightarrow> balance \<Rightarrow> ledger \<Rightarrow> nat + ledger" where
  "ledger_deposit a x n l =
     (if ledger_free l a x + n \<le> umax 128 then Inr (l((a, x) := ledger_free l a x + n)) else Inl 1)"

definition ledger_withdraw :: "asset_id \<Rightarrow> account_id \<Rightarrow> balance \<Rightarrow> ledger \<Rightarrow> nat + ledger" where
  "ledger_withdraw a x n l =
     (if n \<le> ledger_free l a x then Inr (l((a, x) := ledger_free l a x - n)) else Inl 2)"

definition ledger_transfer ::
    "asset_id \<Rightarrow> account_id \<Rightarrow> account_id \<Rightarrow> balance \<Rightarrow> ledger \<Rightarrow> nat + ledger" where
  "ledger_transfer a src dst n l =
     (if src = dst then Inr l
      else tryR (ledger_withdraw a src n l) (ledger_deposit a dst n))"

definition std_currency :: "ledger currency" where
  "std_currency = \<lparr>
     free_balance = ledger_free, total_balance = ledger_free,
     can_withdraw = (\<lambda>l a x n. n \<le> ledger_free l a x),
     transfer = ledger_transfer, deposit = ledger_deposit, withdraw = ledger_withdraw\<rparr>"

lemma std_currency_sel [simp]:
  "free_balance std_currency = ledger_free" "total_balance std_currency = ledger_free"
  "can_withdraw std_currency = (\<lambda>l a x n. n \<le> ledger_free l a x)"
  "transfer std_currency = ledger_transfer" "deposit std_currency = ledger_deposit"
  "withdraw std_currency = ledger_withdraw"
  by (simp_all add: std_currency_def)

lemma ledger_deposit_free:
  "ledger_deposit a x n l = Inr l' \<Longrightarrow>
     ledger_free l' b y = (if b = a \<and> y = x then ledger_free l b y + n else ledger_free l b y)"
  by (auto simp: ledger_deposit_def ledger_free_def split: if_splits)

lemma ledger_withdraw_free:
  "ledger_withdraw a x n l = Inr l' \<Longrightarrow> n \<le> ledger_free l a x \<and>
     ledger_free l' b y = (if b = a \<and> y = x then ledger_free l b y - n else ledger_free l b y)"
  by (auto simp: ledger_withdraw_def ledger_free_def split: if_splits)

lemma ledger_transfer_free:
  "ledger_transfer a src dst n l = Inr l' \<Longrightarrow> src \<noteq> dst \<Longrightarrow> n \<le> ledger_free l a src \<and>
     ledger_free l' b y =
       (if b \<noteq> a then ledger_free l b y else if y = src then ledger_free l b y - n
        else if y = dst then ledger_free l b y + n else ledger_free l b y)"
  using ledger_withdraw_free [of a src n l] ledger_deposit_free [of a dst n]
  by (auto simp: ledger_transfer_def res_iff)

interpretation std_ledger: pool_ledger std_currency P for P
proof (unfold_locales, goal_cases)
  case (1 w a x)
  show ?case by (simp add: ledger_free_def)
next
  case (2 a src dst n w w' b)
  show ?case
  proof (cases "src = dst")
    case True
    with 2 show ?thesis by (simp add: ledger_transfer_def)
  next
    case False
    with 2 ledger_transfer_free [of a src dst n w w' b P] show ?thesis by auto
  qed
next
  case (3 a dst n w w')
  then show ?case using ledger_transfer_free [of a P dst n w w'] by auto
next
  case (4 a n w w' b)
  then show ?case by (auto simp: ledger_deposit_free)
next
  case (5 a n w w' b)
  then show ?case using ledger_withdraw_free [of a P n w w' b P] by auto
next
  case (6 a n w w')
  then show ?case using ledger_withdraw_free [of a P n w w'] by auto
qed

end
