(* ===== verification/Broadcast.thy ===== *)
theory Broadcast
  imports Frame_Support
begin

text \<open>
  The broadcast pallet (\<open>pallets/broadcast/src/{lib,types}.rs\<close>): the stack of execution contexts a
  trade runs in, the counter behind its identifiers, the overridden swapper, and the trade
  events deposited with the stack of the moment. The pallets that trade push a context, deposit
  their events and pop it.
\<close>

datatype filler =
    Filler_Omnipool | Filler_Stableswap asset_id | Filler_XYK asset_id | Filler_LBP
  | Filler_OTC nat | Filler_AAVE | Filler_HSM

datatype destination = Account account_id | Burned

record fee_entry =
  fee_asset :: asset_id
  fee_amount :: balance
  fee_destination :: destination

datatype execution_type =
    Exec_Router nat | Exec_DCA nat nat | Exec_Batch nat | Exec_Omnipool nat | Exec_XcmExchange nat
  | Exec_Xcm nat nat

datatype trade_operation = ExactIn | ExactOut | Limit | LiquidityAdd | LiquidityRemove

record swapped_event =
  ev_swapper :: account_id
  ev_filler :: account_id
  ev_filler_type :: filler
  ev_operation :: trade_operation
  ev_inputs :: "(asset_id \<times> balance) list"
  ev_outputs :: "(asset_id \<times> balance) list"
  ev_fees :: "fee_entry list"
  ev_operation_stack :: "execution_type list"

datatype broadcast_error = ExecutionCallStackOverflow | ExecutionCallStackUnderflow

record broadcast =
  incremental_id :: nat
  execution_context :: "execution_type list"
  swapper :: "account_id option"
  swapped_events :: "swapped_event list"

definition MAX_STACK_SIZE :: nat where
  "MAX_STACK_SIZE = 16"

definition get_context :: "broadcast \<Rightarrow> execution_type list" where
  "get_context b = execution_context b"

definition deposit_trade_event ::
    "account_id \<Rightarrow> account_id \<Rightarrow> filler \<Rightarrow> trade_operation \<Rightarrow> (asset_id \<times> balance) list \<Rightarrow>
     (asset_id \<times> balance) list \<Rightarrow> fee_entry list \<Rightarrow> broadcast \<Rightarrow> broadcast" where
  "deposit_trade_event swap_acc fill_acc filler_type operation inputs outputs fees b =
     (let trade_swapper = (case swapper b of Some x \<Rightarrow> x | None \<Rightarrow> swap_acc)
      in b\<lparr>swapped_events := swapped_events b @
           [\<lparr>ev_swapper = trade_swapper, ev_filler = fill_acc, ev_filler_type = filler_type,
             ev_operation = operation, ev_inputs = inputs, ev_outputs = outputs, ev_fees = fees,
             ev_operation_stack = get_context b\<rparr>]\<rparr>)"

text \<open>The counter is a \<open>u32\<close> that wraps around.\<close>

definition add_to_context ::
    "(nat \<Rightarrow> execution_type) \<Rightarrow> broadcast \<Rightarrow> broadcast_error + (nat \<times> broadcast)" where
  "add_to_context execution_type b =
     (let next_id = incremental_id b;
          b' = b\<lparr>incremental_id := (next_id + 1) mod 2 ^ 32\<rparr>
      in if length (execution_context b') < MAX_STACK_SIZE
         then Inr (next_id,
                b'\<lparr>execution_context := execution_context b' @ [execution_type next_id]\<rparr>)
         else Inl ExecutionCallStackOverflow)"

definition remove_from_context :: "broadcast \<Rightarrow> broadcast_error + broadcast" where
  "remove_from_context b =
     (case execution_context b of
        [] \<Rightarrow> Inl ExecutionCallStackUnderflow
      | x # xs \<Rightarrow> Inr (b\<lparr>execution_context := butlast (x # xs)\<rparr>))"

definition set_swapper :: "account_id \<Rightarrow> broadcast \<Rightarrow> broadcast" where
  "set_swapper account b = b\<lparr>swapper := Some account\<rparr>"

definition remove_swapper :: "broadcast \<Rightarrow> broadcast" where
  "remove_swapper b = b\<lparr>swapper := None\<rparr>"

definition get_swapper :: "broadcast \<Rightarrow> account_id option" where
  "get_swapper b = swapper b"

definition broadcast_on_finalize :: "broadcast \<Rightarrow> broadcast" where
  "broadcast_on_finalize b = b\<lparr>execution_context := [], swapper := None\<rparr>"

section \<open>Contexts nest\<close>

definition context_ok :: "broadcast \<Rightarrow> bool" where
  "context_ok b \<longleftrightarrow> length (execution_context b) \<le> MAX_STACK_SIZE \<and> incremental_id b < 2 ^ 32"

lemma add_to_context_Inr [res_iff]:
  "add_to_context f b = Inr (i, b') \<longleftrightarrow> i = incremental_id b \<and>
     length (execution_context b) < MAX_STACK_SIZE \<and>
     b' = b\<lparr>incremental_id := (i + 1) mod 2 ^ 32, execution_context := execution_context b @ [f i]\<rparr>"
  by (auto simp: add_to_context_def Let_def)

lemma deposit_trade_event_sel [simp]:
  "execution_context (deposit_trade_event x y f k is os fs b) = execution_context b"
  "incremental_id (deposit_trade_event x y f k is os fs b) = incremental_id b"
  "swapper (deposit_trade_event x y f k is os fs b) = swapper b"
  by (simp_all add: deposit_trade_event_def Let_def)

lemma remove_from_context_snoc:
  "execution_context b = xs @ [x] \<Longrightarrow> remove_from_context b = Inr (b\<lparr>execution_context := xs\<rparr>)"
  by (cases xs) (auto simp: remove_from_context_def butlast_append)

lemma remove_from_context_Inr [res_iff]:
  "remove_from_context b = Inr b' \<longleftrightarrow> execution_context b \<noteq> [] \<and>
     b' = b\<lparr>execution_context := butlast (execution_context b)\<rparr>"
  by (auto simp: remove_from_context_def split: list.splits)

lemma add_to_context_ok: "context_ok b \<Longrightarrow> add_to_context f b = Inr (i, b') \<Longrightarrow> context_ok b'"
  by (auto simp: context_ok_def res_iff)

lemma remove_from_context_ok: "context_ok b \<Longrightarrow> remove_from_context b = Inr b' \<Longrightarrow> context_ok b'"
  by (auto simp: context_ok_def res_iff)

lemma context_bracket:
  assumes "add_to_context f b = Inr (i, b1)" "execution_context b2 = execution_context b1"
  shows "remove_from_context b2 = Inr (b2\<lparr>execution_context := execution_context b\<rparr>)"
  using assms by (intro remove_from_context_snoc) (simp add: res_iff)

end
