(* ===== verification/Omnipool_Pallet.thy ===== *)
theory Omnipool_Pallet
  imports Omnipool_Math Broadcast "HOL-Library.Word"
begin

unbundle bit_operations_syntax

text \<open>
  The Omnipool pallet (\<open>pallets/omnipool/src/{lib,types,traits}.rs\<close>): its storage as the record
  \<open>omnipool\<close>, its \<open>Config\<close> as the record \<open>omnipool_config\<close> over an opaque world \<open>'w\<close> (ledger,
  NFTs, registry, fees, hooks, oracle), and one definition per helper and extrinsic. An operation
  takes the state last and returns an error, or its result with the new state; the state of
  a failed extrinsic is discarded, as \<open>#[transactional]\<close> does. \<open>debug_assert!\<close> is compiled
  out, as in a release build.
\<close>

section \<open>Types\<close>

type_synonym tradability = "8 word"

definition FROZEN :: tradability where "FROZEN = 0"
definition SELL :: tradability where "SELL = 1"
definition BUY :: tradability where "BUY = 2"
definition ADD_LIQUIDITY :: tradability where "ADD_LIQUIDITY = 4"
definition REMOVE_LIQUIDITY :: tradability where "REMOVE_LIQUIDITY = 8"

definition contains :: "tradability \<Rightarrow> tradability \<Rightarrow> bool" where
  "contains t f = (t AND f = f)"

definition tradability_default :: tradability where
  "tradability_default = SELL OR BUY OR ADD_LIQUIDITY OR REMOVE_LIQUIDITY"

definition is_safe_withdrawal :: "tradability \<Rightarrow> bool" where
  "is_safe_withdrawal t = (t = (ADD_LIQUIDITY OR REMOVE_LIQUIDITY) \<or> t = REMOVE_LIQUIDITY)"

record asset_state =
  as_hub_reserve :: balance
  as_shares :: balance
  as_protocol_shares :: balance
  as_cap :: nat
  as_tradable :: tradability

text \<open>The pallet's reserve state extends the one of the math crate.\<close>

record pallet_reserve_state = asset_reserve_state +
  cap :: nat
  tradable :: tradability

definition asset_state_from_reserve_state :: "pallet_reserve_state \<Rightarrow> asset_state" where
  "asset_state_from_reserve_state s = \<lparr>
     as_hub_reserve = hub_reserve s, as_shares = shares s,
     as_protocol_shares = protocol_shares s, as_cap = cap s, as_tradable = tradable s\<rparr>"

definition reserve_state_from_asset_state :: "asset_state \<Rightarrow> balance \<Rightarrow> pallet_reserve_state" where
  "reserve_state_from_asset_state s r = \<lparr>
     reserve = r, hub_reserve = as_hub_reserve s, shares = as_shares s,
     protocol_shares = as_protocol_shares s, cap = as_cap s, tradable = as_tradable s\<rparr>"

definition pallet_reserve_state_default :: pallet_reserve_state where
  "pallet_reserve_state_default = \<lparr>
     reserve = 0, hub_reserve = 0, shares = 0, protocol_shares = 0, cap = 0,
     tradable = tradability_default\<rparr>"

definition weight_cap :: "pallet_reserve_state \<Rightarrow> nat" where
  "weight_cap s = cap s"

definition delta_update ::
    "pallet_reserve_state \<Rightarrow> asset_state_change \<Rightarrow> pallet_reserve_state option" where
  "delta_update s delta = do {
     r \<leftarrow> bu_apply (delta_reserve delta) (reserve s);
     h \<leftarrow> bu_apply (total_delta_hub_reserve delta) (hub_reserve s);
     sh \<leftarrow> bu_apply (delta_shares delta) (shares s);
     ps \<leftarrow> bu_apply (delta_protocol_shares delta) (protocol_shares s);
     Some \<lparr>reserve = r, hub_reserve = h, shares = sh, protocol_shares = ps,
           cap = cap s, tradable = tradable s\<rparr>
   }"

record lp_position = position +
  pos_asset_id :: asset_id

definition price_from_rational :: "arith \<Rightarrow> lp_position \<Rightarrow> nat option" where
  "price_from_rational A p = fx_checked_from_rational A (fst (pos_price p)) (snd (pos_price p))"

definition position_delta_update ::
    "lp_position \<Rightarrow> balance_update \<Rightarrow> balance_update \<Rightarrow> lp_position option" where
  "position_delta_update p d_reserve d_shares = do {
     a \<leftarrow> bu_apply d_reserve (pos_amount p);
     s \<leftarrow> bu_apply d_shares (pos_shares p);
     Some (p\<lparr>pos_amount := a, pos_shares := s\<rparr>)
   }"

record slip_fee_config =
  max_slip_fee :: nat

record asset_info =
  ai_asset_id :: asset_id
  ai_before :: pallet_reserve_state
  ai_after :: pallet_reserve_state
  ai_delta_changes :: asset_state_change
  ai_safe_withdrawal :: bool

datatype omnipool_error =
    InsufficientBalance | AssetAlreadyAdded | AssetNotFound | MissingBalance
  | InvalidInitialAssetPrice | BuyLimitNotReached | SellLimitExceeded | PositionNotFound
  | InsufficientShares | NotAllowed | Forbidden | AssetWeightCapExceeded | AssetNotRegistered
  | InsufficientLiquidity | InsufficientTradingAmount | SameAssetTradeNotAllowed
  | HubAssetUpdateError | InvalidSharesAmount | InvalidHubAssetTradableState
  | AssetRefundNotAllowed | MaxOutRatioExceeded | MaxInRatioExceeded | PriceDifferenceTooHigh
  | InvalidOraclePrice | InvalidWithdrawalFee | FeeOverdraft | SharesRemaining | AssetNotFrozen
  | ZeroAmountOut | ExistentialDepositNotAvailable | SlippageLimit | ProtocolFeeNotConsumed
  | MaxSlipFeeTooHigh | InvariantError | InvalidOmnipoolHubReserve
  | Panicked | Of_Broadcast broadcast_error

datatype omnipool_event =
    TokenAdded asset_id balance nat
  | TokenRemoved asset_id balance balance
  | LiquidityAdded account_id asset_id balance nat
  | LiquidityRemoved account_id nat asset_id balance nat
  | ProtocolLiquidityRemoved account_id asset_id balance balance balance
  | SellExecuted account_id asset_id asset_id balance balance balance balance balance balance
  | BuyExecuted account_id asset_id asset_id balance balance balance balance balance balance
  | PositionCreated nat account_id asset_id balance balance nat
  | PositionDestroyed nat account_id
  | PositionUpdated nat account_id asset_id balance balance nat
  | TradableStateUpdated asset_id tradability
  | AssetRefunded asset_id balance account_id
  | AssetWeightCapUpdated asset_id nat
  | SlipFeeSet "slip_fee_config option"

section \<open>Storage and configuration\<close>

record 'w omnipool =
  assets :: "asset_id \<rightharpoonup> asset_state"
  hub_asset_tradability :: tradability
  positions :: "nat \<rightharpoonup> lp_position"
  next_position_id :: nat
  slip_fee :: "slip_fee_config option"
  slip_fee_hub_reserve_at_block_start :: "asset_id \<rightharpoonup> balance"
  slip_fee_delta :: "asset_id \<Rightarrow> signed_balance"
  bcast :: broadcast
  omnipool_events :: "omnipool_event list"
  world :: 'w

record 'w omnipool_config = "'w currency" +
  oarith :: arith
  authority_origin :: "origin \<Rightarrow> bool"
  update_tradability_origin :: "origin \<Rightarrow> bool"
  registry_exists :: "'w \<Rightarrow> asset_id \<Rightarrow> bool"
  existential_deposit :: "'w \<Rightarrow> asset_id \<Rightarrow> balance option"
  hdx_asset_id :: asset_id
  hub_asset_id :: asset_id
  fee_get :: "'w \<Rightarrow> asset_id \<times> balance \<Rightarrow> nat \<times> nat"
  fee_get_and_store :: "asset_id \<times> balance \<Rightarrow> 'w \<Rightarrow> (nat \<times> nat) \<times> 'w"
  min_withdrawal_fee :: nat
  minimum_trading_limit :: balance
  minimum_pool_liquidity :: balance
  max_in_ratio :: nat
  max_out_ratio :: nat
  position_id_width :: nat
  protocol_account :: account_id
  nft_create_collection :: "'w \<Rightarrow> 'w"
  nft_owner :: "'w \<Rightarrow> nat \<Rightarrow> account_id option"
  nft_mint_into :: "nat \<Rightarrow> account_id \<Rightarrow> 'w \<Rightarrow> nat + 'w"
  nft_burn :: "nat \<Rightarrow> account_id option \<Rightarrow> 'w \<Rightarrow> nat + 'w"
  on_liquidity_changed :: "origin \<Rightarrow> asset_info \<Rightarrow> 'w \<Rightarrow> nat + 'w"
  on_trade :: "origin \<Rightarrow> asset_info \<Rightarrow> asset_info \<Rightarrow> 'w \<Rightarrow> nat + 'w"
  on_hub_asset_trade :: "origin \<Rightarrow> asset_info \<Rightarrow> 'w \<Rightarrow> nat + 'w"
  on_trade_fee ::
    "account_id \<Rightarrow> account_id \<Rightarrow> asset_id \<Rightarrow> balance \<Rightarrow> 'w \<Rightarrow> nat + ((balance \<times> account_id) option list \<times> 'w)"
  barrier_ensure_price :: "'w \<Rightarrow> account_id \<Rightarrow> asset_id \<Rightarrow> asset_id \<Rightarrow> balance \<times> balance \<Rightarrow> bool"
  oracle_get_price :: "'w \<Rightarrow> asset_id \<Rightarrow> asset_id \<Rightarrow> nat + (balance \<times> balance)"
  burn_protocol_fee :: nat

type_synonym 'a omnipool_result = "omnipool_error dispatch_error + 'a"

definition emit :: "omnipool_event \<Rightarrow> 'w omnipool \<Rightarrow> 'w omnipool" where
  "emit e s = s\<lparr>omnipool_events := omnipool_events s @ [e]\<rparr>"

definition of_broadcast :: "broadcast_error + 'a \<Rightarrow> 'a omnipool_result" where
  "of_broadcast m = (case m of Inl e \<Rightarrow> Inl (Module (Of_Broadcast e)) | Inr x \<Rightarrow> Inr x)"

section \<open>Helpers\<close>

definition load_asset_state ::
    "'w omnipool_config \<Rightarrow> asset_id \<Rightarrow> 'w omnipool \<Rightarrow> pallet_reserve_state omnipool_result" where
  "load_asset_state C asset s =
     tryR (ok_or (assets s asset) (Module AssetNotFound)) (\<lambda>st.
     let r = free_balance C (world s) asset (protocol_account C) in
     Inr (reserve_state_from_asset_state st r))"

definition snapshot_q0 :: "asset_id \<Rightarrow> balance \<Rightarrow> 'w omnipool \<Rightarrow> balance \<times> 'w omnipool" where
  "snapshot_q0 asset current_hub_reserve s =
     (case slip_fee_hub_reserve_at_block_start s asset of
        Some q0 \<Rightarrow> (q0, s)
      | None \<Rightarrow> (current_hub_reserve,
          s\<lparr>slip_fee_hub_reserve_at_block_start :=
              (slip_fee_hub_reserve_at_block_start s)(asset \<mapsto> current_hub_reserve)\<rparr>))"

definition load_trade_slip_fees ::
    "asset_id \<Rightarrow> balance \<Rightarrow> asset_id \<Rightarrow> balance \<Rightarrow> 'w omnipool \<Rightarrow> trade_slip_fees option \<times> 'w omnipool" where
  "load_trade_slip_fees asset_in in_hub_reserve asset_out out_hub_reserve s =
     (case slip_fee s of
        None \<Rightarrow> (None, s)
      | Some config \<Rightarrow>
          let (q_in, s1) = snapshot_q0 asset_in in_hub_reserve s;
              d_in = slip_fee_delta s1 asset_in;
              (q_out, s2) = snapshot_q0 asset_out out_hub_reserve s1;
              d_out = slip_fee_delta s2 asset_out
          in (Some \<lparr>slip_in_hub_reserve = q_in, slip_in_delta = d_in, slip_out_hub_reserve = q_out,
                slip_out_delta = d_out, slip_max_fee = max_slip_fee config\<rparr>, s2))"

definition load_hub_trade_slip_fees ::
    "asset_id \<Rightarrow> balance \<Rightarrow> 'w omnipool \<Rightarrow> hub_trade_slip_fees option \<times> 'w omnipool" where
  "load_hub_trade_slip_fees asset_out out_hub_reserve s =
     (case slip_fee s of
        None \<Rightarrow> (None, s)
      | Some config \<Rightarrow>
          let (q, s1) = snapshot_q0 asset_out out_hub_reserve s
          in (Some \<lparr>hslip_hub_reserve = q, hslip_delta = slip_fee_delta s1 asset_out,
                hslip_max_fee = max_slip_fee config\<rparr>, s1))"

definition ensure_q0_snapshot :: "asset_id \<Rightarrow> balance \<Rightarrow> 'w omnipool \<Rightarrow> 'w omnipool" where
  "ensure_q0_snapshot asset current_hub_reserve s =
     (if slip_fee s \<noteq> None then snd (snapshot_q0 asset current_hub_reserve s) else s)"

definition peek_trade_slip_fees ::
    "asset_id \<Rightarrow> balance \<Rightarrow> asset_id \<Rightarrow> balance \<Rightarrow> 'w omnipool \<Rightarrow> trade_slip_fees option" where
  "peek_trade_slip_fees asset_in in_hub_reserve asset_out out_hub_reserve s = do {
     config \<leftarrow> slip_fee s;
     Some \<lparr>
       slip_in_hub_reserve = (case slip_fee_hub_reserve_at_block_start s asset_in of
          Some q \<Rightarrow> q | None \<Rightarrow> in_hub_reserve),
       slip_in_delta = slip_fee_delta s asset_in,
       slip_out_hub_reserve = (case slip_fee_hub_reserve_at_block_start s asset_out of
          Some q \<Rightarrow> q | None \<Rightarrow> out_hub_reserve),
       slip_out_delta = slip_fee_delta s asset_out,
       slip_max_fee = max_slip_fee config\<rparr>
   }"

definition peek_hub_trade_slip_fees ::
    "asset_id \<Rightarrow> balance \<Rightarrow> 'w omnipool \<Rightarrow> hub_trade_slip_fees option" where
  "peek_hub_trade_slip_fees asset_out out_hub_reserve s = do {
     config \<leftarrow> slip_fee s;
     Some \<lparr>
       hslip_hub_reserve = (case slip_fee_hub_reserve_at_block_start s asset_out of
          Some q \<Rightarrow> q | None \<Rightarrow> out_hub_reserve),
       hslip_delta = slip_fee_delta s asset_out,
       hslip_max_fee = max_slip_fee config\<rparr>
   }"

definition update_slip_fee_delta ::
    "asset_id \<Rightarrow> balance \<Rightarrow> asset_id \<Rightarrow> balance \<Rightarrow> 'w omnipool \<Rightarrow> 'w omnipool omnipool_result" where
  "update_slip_fee_delta asset_in delta_hub_in asset_out delta_hub_out s =
     (if slip_fee s = None then Inr s
      else
        tryR (ok_or (sb_checked_add (slip_fee_delta s asset_in) (Negative delta_hub_in))
                (Arithmetic Arith_Overflow)) (\<lambda>d_in.
        let s1 = s\<lparr>slip_fee_delta := (slip_fee_delta s)(asset_in := d_in)\<rparr> in
        tryR (ok_or (sb_checked_add (slip_fee_delta s1 asset_out) (Positive delta_hub_out))
                (Arithmetic Arith_Overflow)) (\<lambda>d_out.
        Inr (s1\<lparr>slip_fee_delta := (slip_fee_delta s1)(asset_out := d_out)\<rparr>))))"

definition update_slip_fee_delta_hub_trade ::
    "asset_id \<Rightarrow> balance \<Rightarrow> 'w omnipool \<Rightarrow> 'w omnipool omnipool_result" where
  "update_slip_fee_delta_hub_trade asset_out delta_hub_out s =
     (if slip_fee s = None then Inr s
      else
        tryR (ok_or (sb_checked_add (slip_fee_delta s asset_out) (Positive delta_hub_out))
                (Arithmetic Arith_Overflow)) (\<lambda>d.
        Inr (s\<lparr>slip_fee_delta := (slip_fee_delta s)(asset_out := d)\<rparr>)))"

definition set_asset_state ::
    "asset_id \<Rightarrow> pallet_reserve_state \<Rightarrow> 'w omnipool \<Rightarrow> 'w omnipool" where
  "set_asset_state asset new_state s =
     s\<lparr>assets := (assets s)(asset \<mapsto> asset_state_from_reserve_state new_state)\<rparr>"

definition create_and_mint_position_instance ::
    "'w omnipool_config \<Rightarrow> account_id \<Rightarrow> 'w omnipool \<Rightarrow> (nat \<times> 'w omnipool) omnipool_result" where
  "create_and_mint_position_instance C owner s =
     (let next_id = next_position_id s in
      tryR (foreign (nft_mint_into C next_id owner (world s))) (\<lambda>w.
      tryR (ok_or (checked_add (position_id_width C) next_id 1) (Arithmetic Arith_Overflow)) (\<lambda>n.
      Inr (next_id, s\<lparr>next_position_id := n, world := w\<rparr>))))"

definition update_hub_asset_liquidity ::
    "'w omnipool_config \<Rightarrow> balance_update \<Rightarrow> 'w omnipool \<Rightarrow> 'w omnipool omnipool_result" where
  "update_hub_asset_liquidity C delta_amount s =
     (case delta_amount of
        Increase amount \<Rightarrow>
          tryR (foreign (deposit C (hub_asset_id C) (protocol_account C) amount (world s))) (\<lambda>w.
          Inr (s\<lparr>world := w\<rparr>))
      | Decrease amount \<Rightarrow>
          tryR (foreign (withdraw C (hub_asset_id C) (protocol_account C) amount (world s))) (\<lambda>w.
          Inr (s\<lparr>world := w\<rparr>)))"

definition increase_hdx_subpool_hub_reserve ::
    "'w omnipool_config \<Rightarrow> origin \<Rightarrow> balance \<Rightarrow> 'w omnipool \<Rightarrow> 'w omnipool omnipool_result" where
  "increase_hdx_subpool_hub_reserve C orig amount s =
     (if amount = 0 then Inr s
      else
        tryR (load_asset_state C (hdx_asset_id C) s) (\<lambda>hdx_state_before.
        tryR (ok_or (assets s (hdx_asset_id C)) (Module AssetNotFound)) (\<lambda>st.
        tryR (ok_or (checked_add 128 (as_hub_reserve st) amount) (Arithmetic Arith_Overflow)) (\<lambda>h.
        let s1 = s\<lparr>assets := (assets s)(hdx_asset_id C \<mapsto> st\<lparr>as_hub_reserve := h\<rparr>)\<rparr> in
        tryR (load_asset_state C (hdx_asset_id C) s1) (\<lambda>hdx_state_after.
        let hdx_delta_changes = asset_state_change_default\<lparr>delta_hub_reserve := Increase amount\<rparr>;
            hdx_info = \<lparr>ai_asset_id = hdx_asset_id C, ai_before = hdx_state_before,
              ai_after = hdx_state_after, ai_delta_changes = hdx_delta_changes,
              ai_safe_withdrawal = False\<rparr>
        in
        tryR (foreign (on_hub_asset_trade C orig hdx_info (world s1))) (\<lambda>w1.
        let (_, w2) = fee_get_and_store C (hdx_asset_id C, reserve hdx_state_after) w1 in
        Inr (s1\<lparr>world := w2\<rparr>)))))))"

definition process_protocol_fee ::
    "'w omnipool_config \<Rightarrow> origin \<Rightarrow> balance \<Rightarrow> balance \<Rightarrow> 'w omnipool \<Rightarrow>
     (fee_entry list \<times> 'w omnipool) omnipool_result" where
  "process_protocol_fee C orig protocol_fee burned s =
     (if protocol_fee = 0 then Inr ([], s)
      else
        let remaining_protocol_fee = saturating_sub protocol_fee burned;
            fee_report = (if 0 < burned
              then [\<lparr>fee_asset = hub_asset_id C, fee_amount = burned, fee_destination = Burned\<rparr>]
              else [])
        in
        if remaining_protocol_fee = 0 then Inr (fee_report, s)
        else
          tryR (update_hub_asset_liquidity C (Increase remaining_protocol_fee) s) (\<lambda>s1.
          tryR (increase_hdx_subpool_hub_reserve C orig remaining_protocol_fee s1) (\<lambda>s2.
          Inr (fee_report @
            [\<lparr>fee_asset = hub_asset_id C, fee_amount = remaining_protocol_fee,
              fee_destination = Account (protocol_account C)\<rparr>], s2))))"

definition allow_assets :: "pallet_reserve_state \<Rightarrow> pallet_reserve_state \<Rightarrow> bool" where
  "allow_assets asset_in asset_out =
     (contains (tradable asset_in) SELL \<and> contains (tradable asset_out) BUY)"

fun try_sum :: "balance \<Rightarrow> balance list \<Rightarrow> balance option" where
  "try_sum acc [] = Some acc"
| "try_sum acc (x # xs) = do { a \<leftarrow> checked_add 128 acc x; try_sum a xs }"

definition process_trade_fee ::
    "'w omnipool_config \<Rightarrow> account_id \<Rightarrow> asset_id \<Rightarrow> balance \<Rightarrow> 'w omnipool \<Rightarrow>
     (balance \<times> fee_entry list \<times> 'w omnipool) omnipool_result" where
  "process_trade_fee C trader asset amount s =
     (let account = protocol_account C;
          original_asset_reserve = free_balance C (world s) asset account;
          allowed_amount = saturating_sub amount 1
      in
      tryR (foreign (on_trade_fee C account trader asset allowed_amount (world s))) (\<lambda>(taken_fee, w).
      let taken_fee_entries = filter (\<lambda>f. 0 < fee_amount f)
            (map (\<lambda>(b, recipient).
               \<lparr>fee_asset = asset, fee_amount = b, fee_destination = Account recipient\<rparr>)
             (List.map_filter id taken_fee))
      in
      tryR (ok_or (try_sum 0 (map fee_amount taken_fee_entries)) (Arithmetic Arith_Overflow))
        (\<lambda>taken_fee_total.
      let asset_reserve = free_balance C w asset account;
          actual_fee_taken = saturating_sub original_asset_reserve asset_reserve
      in
      ensure (actual_fee_taken \<le> saturating_add 128 allowed_amount 10) (Module FeeOverdraft) (
      let protocol_fee_amount = saturating_sub amount taken_fee_total;
          all_trade_fees = \<lparr>fee_asset = asset, fee_amount = protocol_fee_amount,
            fee_destination = Account account\<rparr> # taken_fee_entries
      in Inr (taken_fee_total, all_trade_fees, s\<lparr>world := w\<rparr>)))))"

definition process_hub_amount ::
    "'w omnipool_config \<Rightarrow> balance \<Rightarrow> account_id \<Rightarrow> 'w omnipool \<Rightarrow> 'w omnipool omnipool_result" where
  "process_hub_amount C amount dest s =
     (if 0 < amount then
        (case transfer C (hub_asset_id C) (protocol_account C) dest amount (world s) of
           Inr w \<Rightarrow> Inr (s\<lparr>world := w\<rparr>)
         | Inl e \<Rightarrow>
             if amount < 400000000 then
               tryR (foreign (withdraw C (hub_asset_id C) (protocol_account C) amount (world s))) (\<lambda>w.
               Inr (s\<lparr>world := w\<rparr>))
             else Inl (Foreign e))
      else Inr s)"

definition hub_balance_excluding_swap_assets ::
    "'w omnipool_config \<Rightarrow> asset_id \<Rightarrow> pallet_reserve_state \<Rightarrow> asset_id \<Rightarrow> pallet_reserve_state \<Rightarrow>
     'w omnipool \<Rightarrow> balance omnipool_result" where
  "hub_balance_excluding_swap_assets C asset_in in_state asset_out out_state s =
     (let hub_supply = free_balance C (world s) (hub_asset_id C) (protocol_account C);
          hdx_id = hdx_asset_id C
      in
      tryR (ok_or (checked_add 128 (hub_reserve in_state) (hub_reserve out_state))
              (Module InvariantError)) (\<lambda>sum0.
      tryR (if hdx_id \<noteq> asset_in \<and> hdx_id \<noteq> asset_out then
              tryR (load_asset_state C hdx_id s) (\<lambda>hdx_state.
              ok_or (checked_add 128 sum0 (hub_reserve hdx_state)) (Module InvariantError))
            else Inr sum0) (\<lambda>sum_asset_hub_reserves.
      ensure (sum_asset_hub_reserves \<le> hub_supply) (Module InvalidOmnipoolHubReserve) (
      Inr (saturating_sub hub_supply sum_asset_hub_reserves)))))"

definition ensure_trade_invariant ::
    "'w omnipool_config \<Rightarrow> asset_id \<times> pallet_reserve_state \<times> pallet_reserve_state \<Rightarrow>
     asset_id \<times> pallet_reserve_state \<times> pallet_reserve_state \<Rightarrow> balance \<Rightarrow> 'w omnipool \<Rightarrow>
     unit omnipool_result" where
  "ensure_trade_invariant C asset_in asset_out hub_excluding s =
     (let (in_id, old_in_state, new_in_state) = asset_in;
          (out_id, old_out_state, new_out_state) = asset_out
      in
      tryR (ok_or (checked_mul 256 (reserve old_in_state) (hub_reserve old_in_state))
              (Module InvariantError)) (\<lambda>rq_before.
      tryR (ok_or (checked_mul 256 (reserve new_in_state) (hub_reserve new_in_state))
              (Module InvariantError)) (\<lambda>rq_after.
      ensure (rq_before \<le> rq_after) (Module InvariantError) (
      tryR (ok_or (assets s in_id) (Module InvariantError)) (\<lambda>in_store.
      tryR (ok_or (assets s out_id) (Module InvariantError)) (\<lambda>out_store.
      tryR (ok_or (checked_add 128 hub_excluding (as_hub_reserve in_store))
              (Module InvariantError)) (\<lambda>e1.
      tryR (ok_or (checked_add 128 e1 (as_hub_reserve out_store)) (Module InvariantError)) (\<lambda>e2.
      tryR (if hdx_asset_id C \<noteq> in_id \<and> hdx_asset_id C \<noteq> out_id then
              tryR (ok_or (assets s (hdx_asset_id C)) (Module InvariantError)) (\<lambda>hdx_store.
              ok_or (checked_add 128 e2 (as_hub_reserve hdx_store)) (Module InvariantError))
            else Inr e2) (\<lambda>expected_hub_supply.
      let actual_hub_supply = free_balance C (world s) (hub_asset_id C) (protocol_account C) in
      ensure (expected_hub_supply = actual_hub_supply) (Module InvariantError) (Inr ()))))))))))"

definition ensure_liquidity_invariant ::
    "pallet_reserve_state \<Rightarrow> pallet_reserve_state \<Rightarrow> unit omnipool_result" where
  "ensure_liquidity_invariant old_state new_state =
     (let one = 1000000000000 in
      tryR (ok_or (checked_mul 256 (saturating_sub (hub_reserve new_state) one) (reserve old_state))
              (Module InvariantError)) (\<lambda>left.
      tryR (ok_or (checked_mul 256 (hub_reserve old_state) (reserve new_state))
              (Module InvariantError)) (\<lambda>middle.
      tryR (ok_or (checked_add 256 (hub_reserve new_state) one) (Module InvariantError)) (\<lambda>r1.
      tryR (ok_or (checked_mul 256 r1 (reserve old_state)) (Module InvariantError)) (\<lambda>right.
      ensure (left \<le> middle) (Module InvariantError) (
      ensure (middle \<le> right) (Module InvariantError) (Inr ())))))))"

section \<open>Small operations\<close>

definition remove_asset :: "asset_id \<Rightarrow> 'w omnipool \<Rightarrow> 'w omnipool omnipool_result" where
  "remove_asset asset s = Inr (s\<lparr>assets := (assets s)(asset := None)\<rparr>)"

definition set_position :: "nat \<Rightarrow> lp_position \<Rightarrow> 'w omnipool \<Rightarrow> 'w omnipool omnipool_result" where
  "set_position position_id pos s = Inr (s\<lparr>positions := (positions s)(position_id \<mapsto> pos)\<rparr>)"

definition add_asset ::
    "'w omnipool_config \<Rightarrow> asset_id \<Rightarrow> asset_state \<Rightarrow> 'w omnipool \<Rightarrow> 'w omnipool omnipool_result" where
  "add_asset C asset st s =
     ensure (assets s asset = None) (Module AssetAlreadyAdded) (
     ensure (registry_exists C (world s) asset) (Module AssetNotRegistered) (
     Inr (s\<lparr>assets := (assets s)(asset \<mapsto> st)\<rparr>)))"

definition update_asset_state ::
    "'w omnipool_config \<Rightarrow> asset_id \<Rightarrow> asset_state_change \<Rightarrow> 'w omnipool \<Rightarrow> 'w omnipool omnipool_result" where
  "update_asset_state C asset delta s =
     tryR (load_asset_state C asset s) (\<lambda>st.
     tryR (ok_or (delta_update st delta) (Arithmetic Arith_Overflow)) (\<lambda>updated.
     Inr (set_asset_state asset updated s)))"

definition load_position ::
    "'w omnipool_config \<Rightarrow> nat \<Rightarrow> account_id \<Rightarrow> 'w omnipool \<Rightarrow> lp_position omnipool_result" where
  "load_position C position_id owner s =
     ensure (nft_owner C (world s) position_id = Some owner) (Module Forbidden) (
     ok_or (positions s position_id) (Module PositionNotFound))"

definition is_hub_asset_allowed :: "tradability \<Rightarrow> 'w omnipool \<Rightarrow> bool" where
  "is_hub_asset_allowed operation s = contains (hub_asset_tradability s) operation"

definition asset_exists :: "asset_id \<Rightarrow> 'w omnipool \<Rightarrow> bool" where
  "asset_exists asset s = (assets s asset \<noteq> None)"

definition buy_hub_asset :: "'w omnipool \<Rightarrow> 'w omnipool omnipool_result" where
  "buy_hub_asset s =
     ensure (contains (hub_asset_tradability s) BUY) (Module NotAllowed) (Inl (Module NotAllowed))"

definition sell_asset_for_hub_asset :: "'w omnipool \<Rightarrow> 'w omnipool omnipool_result" where
  "sell_asset_for_hub_asset s =
     ensure (contains (hub_asset_tradability s) BUY) (Module NotAllowed) (Inl (Module NotAllowed))"

section \<open>Trades\<close>

definition sell_hub_asset ::
    "'w omnipool_config \<Rightarrow> origin \<Rightarrow> account_id \<Rightarrow> asset_id \<Rightarrow> balance \<Rightarrow> balance \<Rightarrow> 'w omnipool \<Rightarrow>
     'w omnipool omnipool_result" where
  "sell_hub_asset C orig who asset_out amount limit s =
     ensure (contains (hub_asset_tradability s) SELL) (Module NotAllowed) (
     tryR (load_asset_state C asset_out s) (\<lambda>asset_state.
     ensure (contains (tradable asset_state) BUY) (Module NotAllowed) (
     tryR (ok_or (checked_div (hub_reserve asset_state) (max_in_ratio C))
             (Arithmetic Arith_DivisionByZero)) (\<lambda>max_in.
     ensure (amount \<le> max_in) (Module MaxInRatioExceeded) (
     let ((asset_fee, _), w1) = fee_get_and_store C (asset_out, reserve asset_state) (world s);
         s1 = s\<lparr>world := w1\<rparr>;
         (slip, s2) = load_hub_trade_slip_fees asset_out (hub_reserve asset_state) s1
     in
     tryR (ok_or (calculate_sell_hub_state_changes (oarith C) asset_state amount asset_fee slip)
             (Arithmetic Arith_Overflow)) (\<lambda>changes0.
     ensure (limit \<le> bu_amount (delta_reserve (hub_asset changes0))) (Module BuyLimitNotReached) (
     tryR (ok_or (checked_div (reserve asset_state) (max_out_ratio C))
             (Arithmetic Arith_DivisionByZero)) (\<lambda>max_out.
     ensure (bu_amount (delta_reserve (hub_asset changes0)) \<le> max_out) (Module MaxOutRatioExceeded) (
     tryR (process_trade_fee C who asset_out (tf_asset_fee (hub_fee changes0)) s2)
       (\<lambda>(taken_fee, trade_fees, s3).
     let changes = hub_account_for_fee_taken changes0 taken_fee;
         delta = hub_asset changes
     in
     ensure (case delta_hub_reserve delta of Increase _ \<Rightarrow> True | Decrease _ \<Rightarrow> False)
       (Module HubAssetUpdateError) (
     tryR (ok_or (delta_update asset_state delta) (Arithmetic Arith_Overflow)) (\<lambda>new_out_state.
     tryR (foreign (transfer C (hub_asset_id C) who (protocol_account C)
             (bu_amount (delta_hub_reserve delta)) (world s3))) (\<lambda>w4.
     tryR (foreign (transfer C asset_out (protocol_account C) who
             (bu_amount (delta_reserve delta)) w4)) (\<lambda>w5.
     tryR (update_hub_asset_liquidity C (extra_hub_reserve_amount delta) (s3\<lparr>world := w5\<rparr>)) (\<lambda>s6.
     let info = \<lparr>ai_asset_id = asset_out, ai_before = asset_state, ai_after = new_out_state,
           ai_delta_changes = delta, ai_safe_withdrawal = False\<rparr>;
         s7 = set_asset_state asset_out new_out_state s6
     in
     tryR (update_slip_fee_delta_hub_trade asset_out (bu_amount (delta_hub_reserve delta)) s7) (\<lambda>s8.
     let s9 = emit (SellExecuted who (hub_asset_id C) asset_out
                (bu_amount (delta_hub_reserve delta)) (bu_amount (delta_reserve delta)) 0 0
                (tf_asset_fee (hub_fee changes)) (tf_protocol_fee (hub_fee changes))) s8;
         s10 = s9\<lparr>bcast := deposit_trade_event who (protocol_account C) Filler_Omnipool ExactIn
                [(hub_asset_id C, bu_amount (delta_hub_reserve delta))]
                [(asset_out, bu_amount (delta_reserve delta))] trade_fees (bcast s9)\<rparr>
     in
     tryR (foreign (on_hub_asset_trade C orig info (world s10))) (\<lambda>w11.
     Inr (s10\<lparr>world := w11\<rparr>))))))))))))))))))"

definition buy_asset_for_hub_asset ::
    "'w omnipool_config \<Rightarrow> origin \<Rightarrow> account_id \<Rightarrow> asset_id \<Rightarrow> balance \<Rightarrow> balance \<Rightarrow> 'w omnipool \<Rightarrow>
     'w omnipool omnipool_result" where
  "buy_asset_for_hub_asset C orig who asset_out amount limit s =
     ensure (contains (hub_asset_tradability s) SELL) (Module NotAllowed) (
     tryR (load_asset_state C asset_out s) (\<lambda>asset_state.
     ensure (contains (tradable asset_state) BUY) (Module NotAllowed) (
     tryR (ok_or (checked_div (reserve asset_state) (max_out_ratio C))
             (Arithmetic Arith_DivisionByZero)) (\<lambda>max_out.
     ensure (amount \<le> max_out) (Module MaxOutRatioExceeded) (
     let ((asset_fee, _), w1) = fee_get_and_store C (asset_out, reserve asset_state) (world s);
         s1 = s\<lparr>world := w1\<rparr>;
         (slip, s2) = load_hub_trade_slip_fees asset_out (hub_reserve asset_state) s1
     in
     tryR (ok_or (calculate_buy_for_hub_asset_state_changes (oarith C) asset_state amount asset_fee slip)
             (Arithmetic Arith_Overflow)) (\<lambda>changes0.
     ensure (bu_amount (delta_hub_reserve (hub_asset changes0)) \<le> limit) (Module SellLimitExceeded) (
     tryR (ok_or (checked_div (hub_reserve asset_state) (max_in_ratio C))
             (Arithmetic Arith_DivisionByZero)) (\<lambda>max_in.
     ensure (bu_amount (delta_hub_reserve (hub_asset changes0)) \<le> max_in) (Module MaxInRatioExceeded) (
     ensure (case delta_hub_reserve (hub_asset changes0) of Increase _ \<Rightarrow> True | Decrease _ \<Rightarrow> False)
       (Module HubAssetUpdateError) (
     tryR (process_trade_fee C who asset_out (tf_asset_fee (hub_fee changes0)) s2)
       (\<lambda>(taken_fee, trade_fees, s3).
     let changes = hub_account_for_fee_taken changes0 taken_fee;
         delta = hub_asset changes
     in
     tryR (ok_or (delta_update asset_state delta) (Arithmetic Arith_Overflow)) (\<lambda>new_out_state.
     tryR (foreign (transfer C (hub_asset_id C) who (protocol_account C)
             (bu_amount (delta_hub_reserve delta)) (world s3))) (\<lambda>w4.
     tryR (foreign (transfer C asset_out (protocol_account C) who
             (bu_amount (delta_reserve delta)) w4)) (\<lambda>w5.
     tryR (update_hub_asset_liquidity C (extra_hub_reserve_amount delta) (s3\<lparr>world := w5\<rparr>)) (\<lambda>s6.
     let info = \<lparr>ai_asset_id = asset_out, ai_before = asset_state, ai_after = new_out_state,
           ai_delta_changes = delta, ai_safe_withdrawal = False\<rparr>;
         s7 = set_asset_state asset_out new_out_state s6
     in
     tryR (update_slip_fee_delta_hub_trade asset_out (bu_amount (delta_hub_reserve delta)) s7) (\<lambda>s8.
     let s9 = emit (BuyExecuted who (hub_asset_id C) asset_out
                (bu_amount (delta_hub_reserve delta)) (bu_amount (delta_reserve delta)) 0 0
                (tf_asset_fee (hub_fee changes)) (tf_protocol_fee (hub_fee changes))) s8;
         s10 = s9\<lparr>bcast := deposit_trade_event who (protocol_account C) Filler_Omnipool ExactOut
                [(hub_asset_id C, bu_amount (delta_hub_reserve delta))]
                [(asset_out, bu_amount (delta_reserve delta))] trade_fees (bcast s9)\<rparr>
     in
     tryR (foreign (on_hub_asset_trade C orig info (world s10))) (\<lambda>w11.
     Inr (s10\<lparr>world := w11\<rparr>))))))))))))))))))"

text \<open>
  The tail that \<open>sell\<close> and \<open>buy\<close> share word for word, from the asset fee to the invariant check;
  they differ in the direction reported in the events. A sell reports the given amount as the
  amount in; it is the \<open>delta_reserve\<close> of the asset in.
\<close>

definition settle_trade ::
    "'w omnipool_config \<Rightarrow> trade_operation \<Rightarrow> origin \<Rightarrow> account_id \<Rightarrow> asset_id \<Rightarrow> pallet_reserve_state \<Rightarrow>
     asset_id \<Rightarrow> pallet_reserve_state \<Rightarrow> balance \<Rightarrow> trade_state_change \<Rightarrow> 'w omnipool \<Rightarrow>
     'w omnipool omnipool_result" where
  "settle_trade C op orig who asset_in in_state asset_out out_state hub_excluding changes0 s =
     tryR (process_trade_fee C who asset_out (tf_asset_fee (tsc_fee changes0)) s)
       (\<lambda>(taken_fee, trade_fees, s1).
     let changes = account_for_fee_taken changes0 taken_fee;
         d_in = tsc_asset_in changes; d_out = tsc_asset_out changes
     in
     tryR (ok_or (delta_update in_state d_in) (Arithmetic Arith_Overflow)) (\<lambda>new_in_state.
     tryR (ok_or (delta_update out_state d_out) (Arithmetic Arith_Overflow)) (\<lambda>new_out_state.
     tryR (foreign (transfer C asset_in who (protocol_account C)
             (bu_amount (delta_reserve d_in)) (world s1))) (\<lambda>w2.
     tryR (foreign (transfer C asset_out (protocol_account C) who
             (bu_amount (delta_reserve d_out)) w2)) (\<lambda>w3.
     tryR (ok_or (bu_merge (total_delta_hub_reserve d_in) (total_delta_hub_reserve d_out))
             (Arithmetic Arith_Overflow)) (\<lambda>delta_hub_asset.
     tryR (update_hub_asset_liquidity C delta_hub_asset (s1\<lparr>world := w3\<rparr>)) (\<lambda>s4.
     let info_in = \<lparr>ai_asset_id = asset_in, ai_before = in_state, ai_after = new_in_state,
           ai_delta_changes = d_in, ai_safe_withdrawal = False\<rparr>;
         info_out = \<lparr>ai_asset_id = asset_out, ai_before = out_state, ai_after = new_out_state,
           ai_delta_changes = d_out, ai_safe_withdrawal = False\<rparr>;
         s5 = set_asset_state asset_out new_out_state (set_asset_state asset_in new_in_state s4)
     in
     tryR (update_slip_fee_delta asset_in (bu_amount (delta_hub_reserve d_in))
             asset_out (bu_amount (delta_hub_reserve d_out)) s5) (\<lambda>s6.
     tryR (foreign (on_trade C orig info_in info_out (world s6))) (\<lambda>w7.
     tryR (process_protocol_fee C orig (tf_protocol_fee (tsc_fee changes))
             (tf_burned_protocol_fee (tsc_fee changes)) (s6\<lparr>world := w7\<rparr>)) (\<lambda>(protocol_fees, s8).
     let s9 = emit ((if op = ExactIn then SellExecuted else BuyExecuted) who asset_in asset_out
                (bu_amount (delta_reserve d_in)) (bu_amount (delta_reserve d_out))
                (bu_amount (total_delta_hub_reserve d_in)) (bu_amount (total_delta_hub_reserve d_out))
                (tf_asset_fee (tsc_fee changes)) (tf_protocol_fee (tsc_fee changes))) s8
     in
     tryR (of_broadcast (add_to_context Exec_Omnipool (bcast s9))) (\<lambda>(_, b1).
     let b2 = deposit_trade_event who (protocol_account C) Filler_Omnipool op
                [(asset_in, bu_amount (delta_reserve d_in))]
                [(hub_asset_id C, bu_amount (delta_hub_reserve d_in))] protocol_fees b1;
         b3 = deposit_trade_event who (protocol_account C) Filler_Omnipool op
                [(hub_asset_id C, bu_amount (delta_hub_reserve d_out))]
                [(asset_out, bu_amount (delta_reserve d_out))] trade_fees b2
     in
     tryR (of_broadcast (remove_from_context b3)) (\<lambda>b4.
     let s10 = s9\<lparr>bcast := b4\<rparr> in
     tryR (ensure_trade_invariant C (asset_in, in_state, new_in_state)
             (asset_out, out_state, new_out_state) hub_excluding s10) (\<lambda>_.
     Inr s10)))))))))))))"

definition sell ::
    "'w omnipool_config \<Rightarrow> origin \<Rightarrow> asset_id \<Rightarrow> asset_id \<Rightarrow> balance \<Rightarrow> balance \<Rightarrow> 'w omnipool \<Rightarrow>
     'w omnipool omnipool_result" where
  "sell C orig asset_in asset_out amount min_buy_amount s =
     tryR (ensure_signed orig) (\<lambda>who.
     ensure (asset_in \<noteq> asset_out) (Module SameAssetTradeNotAllowed) (
     ensure (minimum_trading_limit C \<le> amount) (Module InsufficientTradingAmount) (
     ensure (can_withdraw C (world s) asset_in who amount) (Module InsufficientBalance) (
     if asset_in = hub_asset_id C then sell_hub_asset C orig who asset_out amount min_buy_amount s
     else if asset_out = hub_asset_id C then sell_asset_for_hub_asset s
     else
     tryR (load_asset_state C asset_in s) (\<lambda>in_state.
     tryR (load_asset_state C asset_out s) (\<lambda>out_state.
     tryR (hub_balance_excluding_swap_assets C asset_in in_state asset_out out_state s) (\<lambda>hub_excluding.
     ensure (allow_assets in_state out_state) (Module NotAllowed) (
     tryR (ok_or (checked_div (reserve in_state) (max_in_ratio C))
             (Arithmetic Arith_DivisionByZero)) (\<lambda>max_in.
     ensure (amount \<le> max_in) (Module MaxInRatioExceeded) (
     let ((asset_fee, _), w1) = fee_get_and_store C (asset_out, reserve out_state) (world s);
         ((_, protocol_fee), w2) = fee_get_and_store C (asset_in, reserve in_state) w1;
         (slip, s2) = load_trade_slip_fees asset_in (hub_reserve in_state) asset_out
                        (hub_reserve out_state) (s\<lparr>world := w2\<rparr>)
     in
     tryR (ok_or (calculate_sell_state_changes (oarith C) in_state out_state amount asset_fee
             protocol_fee (burn_protocol_fee C) slip) (Arithmetic Arith_Overflow)) (\<lambda>changes.
     let out = bu_amount (delta_reserve (tsc_asset_out changes)) in
     ensure (0 < out) (Module ZeroAmountOut) (
     ensure (min_buy_amount \<le> out) (Module BuyLimitNotReached) (
     tryR (ok_or (checked_div (reserve out_state) (max_out_ratio C))
             (Arithmetic Arith_DivisionByZero)) (\<lambda>max_out.
     ensure (out \<le> max_out) (Module MaxOutRatioExceeded) (
     settle_trade C ExactIn orig who asset_in in_state asset_out out_state hub_excluding changes
       s2)))))))))))))))"

definition buy ::
    "'w omnipool_config \<Rightarrow> origin \<Rightarrow> asset_id \<Rightarrow> asset_id \<Rightarrow> balance \<Rightarrow> balance \<Rightarrow> 'w omnipool \<Rightarrow>
     'w omnipool omnipool_result" where
  "buy C orig asset_out asset_in amount max_sell_amount s =
     tryR (ensure_signed orig) (\<lambda>who.
     ensure (asset_in \<noteq> asset_out) (Module SameAssetTradeNotAllowed) (
     ensure (minimum_trading_limit C \<le> amount) (Module InsufficientTradingAmount) (
     if asset_out = hub_asset_id C then buy_hub_asset s
     else if asset_in = hub_asset_id C then
       buy_asset_for_hub_asset C orig who asset_out amount max_sell_amount s
     else
     tryR (load_asset_state C asset_in s) (\<lambda>in_state.
     tryR (load_asset_state C asset_out s) (\<lambda>out_state.
     tryR (hub_balance_excluding_swap_assets C asset_in in_state asset_out out_state s) (\<lambda>hub_excluding.
     ensure (allow_assets in_state out_state) (Module NotAllowed) (
     ensure (amount \<le> reserve out_state) (Module InsufficientLiquidity) (
     tryR (ok_or (checked_div (reserve out_state) (max_out_ratio C))
             (Arithmetic Arith_DivisionByZero)) (\<lambda>max_out.
     ensure (amount \<le> max_out) (Module MaxOutRatioExceeded) (
     let ((asset_fee, _), w1) = fee_get_and_store C (asset_out, reserve out_state) (world s);
         ((_, protocol_fee), w2) = fee_get_and_store C (asset_in, reserve in_state) w1;
         (slip, s2) = load_trade_slip_fees asset_in (hub_reserve in_state) asset_out
                        (hub_reserve out_state) (s\<lparr>world := w2\<rparr>)
     in
     tryR (ok_or (calculate_buy_state_changes (oarith C) in_state out_state amount asset_fee
             protocol_fee (burn_protocol_fee C) slip) (Arithmetic Arith_Overflow)) (\<lambda>changes.
     let amount_in = bu_amount (delta_reserve (tsc_asset_in changes)) in
     ensure (can_withdraw C (world s2) asset_in who amount_in) (Module InsufficientBalance) (
     ensure (amount_in \<le> max_sell_amount) (Module SellLimitExceeded) (
     tryR (ok_or (checked_div (reserve in_state) (max_in_ratio C))
             (Arithmetic Arith_DivisionByZero)) (\<lambda>max_in.
     ensure (amount_in \<le> max_in) (Module MaxInRatioExceeded) (
     settle_trade C ExactOut orig who asset_in in_state asset_out out_state hub_excluding changes
       s2)))))))))))))))"

section \<open>Liquidity\<close>

definition do_add_liquidity ::
    "'w omnipool_config \<Rightarrow> origin \<Rightarrow> asset_id \<Rightarrow> balance \<Rightarrow> balance \<Rightarrow> 'w omnipool \<Rightarrow>
     (nat \<times> 'w omnipool) omnipool_result" where
  "do_add_liquidity C orig asset amount min_shares_limit s =
     tryR (ensure_signed orig) (\<lambda>who.
     ensure (minimum_pool_liquidity C \<le> amount) (Module InsufficientLiquidity) (
     ensure (can_withdraw C (world s) asset who amount) (Module InsufficientBalance) (
     tryR (load_asset_state C asset s) (\<lambda>asset_state.
     let s1 = ensure_q0_snapshot asset (hub_reserve asset_state) s in
     ensure (contains (tradable asset_state) ADD_LIQUIDITY) (Module NotAllowed) (
     ensure (barrier_ensure_price C (world s1) who (hub_asset_id C) asset
               (hub_reserve asset_state, reserve asset_state)) (Module PriceDifferenceTooHigh) (
     let (_, w2) = fee_get_and_store C (asset, reserve asset_state) (world s1) in
     tryR (ok_or (calculate_add_liquidity_state_changes (oarith C) asset_state amount)
             (Arithmetic Arith_Overflow)) (\<lambda>changes.
     let delta = lp_asset changes in
     ensure (min_shares_limit \<le> bu_amount (delta_shares delta)) (Module SlippageLimit) (
     tryR (ok_or (delta_update asset_state delta) (Arithmetic Arith_Overflow)) (\<lambda>new_state.
     tryR (ok_or (checked_add 128 (total_balance C w2 (hub_asset_id C) (protocol_account C))
                    (bu_amount (total_delta_hub_reserve delta))) (Arithmetic Arith_Overflow)) (\<lambda>total_hub.
     tryR (ok_or (fx_checked_from_rational (oarith C) (hub_reserve new_state) total_hub)
             (Arithmetic Arith_DivisionByZero)) (\<lambda>hub_reserve_ratio.
     ensure (hub_reserve_ratio \<le> weight_cap new_state) (Module AssetWeightCapExceeded) (
     let lp_pos = \<lparr>pos_amount = amount, pos_shares = bu_amount (delta_shares delta),
           pos_price = (hub_reserve new_state, reserve new_state), pos_asset_id = asset\<rparr>
     in
     tryR (create_and_mint_position_instance C who (s1\<lparr>world := w2\<rparr>)) (\<lambda>(instance_id, s3).
     let s4 = s3\<lparr>positions := (positions s3)(instance_id \<mapsto> lp_pos)\<rparr> in
     tryR (ok_or (state_price (oarith C) new_state) (Arithmetic Arith_DivisionByZero)) (\<lambda>price.
     let s5 = emit (PositionCreated instance_id who asset amount (bu_amount (delta_shares delta)) price) s4
     in
     tryR (foreign (transfer C asset who (protocol_account C)
             (bu_amount (delta_reserve delta)) (world s5))) (\<lambda>w6.
     let info = \<lparr>ai_asset_id = asset, ai_before = asset_state, ai_after = new_state,
           ai_delta_changes = delta, ai_safe_withdrawal = False\<rparr>
     in
     tryR (update_hub_asset_liquidity C (total_delta_hub_reserve delta) (s5\<lparr>world := w6\<rparr>)) (\<lambda>s7.
     let s8 = set_asset_state asset new_state s7;
         s9 = emit (LiquidityAdded who asset amount instance_id) s8
     in
     tryR (foreign (on_liquidity_changed C orig info (world s9))) (\<lambda>w10.
     tryR (ensure_liquidity_invariant asset_state new_state) (\<lambda>_.
     Inr (instance_id, s9\<lparr>world := w10\<rparr>)))))))))))))))))))"

definition add_liquidity_with_limit ::
    "'w omnipool_config \<Rightarrow> origin \<Rightarrow> asset_id \<Rightarrow> balance \<Rightarrow> balance \<Rightarrow> 'w omnipool \<Rightarrow>
     'w omnipool omnipool_result" where
  "add_liquidity_with_limit C orig asset amount min_shares_limit s =
     tryR (do_add_liquidity C orig asset amount min_shares_limit s) (\<lambda>(_, s'). Inr s')"

definition add_liquidity ::
    "'w omnipool_config \<Rightarrow> origin \<Rightarrow> asset_id \<Rightarrow> balance \<Rightarrow> 'w omnipool \<Rightarrow> 'w omnipool omnipool_result" where
  "add_liquidity C orig asset amount s = add_liquidity_with_limit C orig asset amount 0 s"

definition add_all_liquidity ::
    "'w omnipool_config \<Rightarrow> origin \<Rightarrow> asset_id \<Rightarrow> balance \<Rightarrow> 'w omnipool \<Rightarrow> 'w omnipool omnipool_result" where
  "add_all_liquidity C orig asset min_shares_limit s =
     tryR (ensure_signed orig) (\<lambda>who.
     let amount = free_balance C (world s) asset who in
     ensure (0 < amount) (Module InsufficientBalance) (
     tryR (do_add_liquidity C orig asset amount min_shares_limit s) (\<lambda>(_, s'). Inr s')))"

text \<open>A price with numerator zero is zero; the panic of the fee's division is \<open>Panicked\<close>.\<close>

definition do_remove_liquidity ::
    "'w omnipool_config \<Rightarrow> origin \<Rightarrow> nat \<Rightarrow> balance \<Rightarrow> balance \<Rightarrow> 'w omnipool \<Rightarrow>
     (balance \<times> 'w omnipool) omnipool_result" where
  "do_remove_liquidity C orig position_id amount min_limit s =
     tryR (ensure_signed orig) (\<lambda>who.
     ensure (0 < amount) (Module InvalidSharesAmount) (
     ensure (nft_owner C (world s) position_id = Some who) (Module Forbidden) (
     tryR (ok_or (positions s position_id) (Module PositionNotFound)) (\<lambda>pos.
     ensure (amount \<le> pos_shares pos) (Module InsufficientShares) (
     let asset = pos_asset_id pos in
     tryR (load_asset_state C asset s) (\<lambda>asset_state.
     let s1 = ensure_q0_snapshot asset (hub_reserve asset_state) s in
     ensure (contains (tradable asset_state) REMOVE_LIQUIDITY) (Module NotAllowed) (
     let (_, w2) = fee_get_and_store C (asset, reserve asset_state) (world s1);
         safe_withdrawal = is_safe_withdrawal (tradable asset_state)
     in
     ensure (safe_withdrawal \<or> barrier_ensure_price C w2 who (hub_asset_id C) asset
               (hub_reserve asset_state, reserve asset_state)) (Module PriceDifferenceTooHigh) (
     tryR (foreign (oracle_get_price C w2 (hub_asset_id C) asset)) (\<lambda>ext_asset_price.
     ensure (fst ext_asset_price \<noteq> 0) (Module InvalidOraclePrice) (
     tryR (ok_or (state_price (oarith C) asset_state) (Arithmetic Arith_DivisionByZero)) (\<lambda>spot.
     tryR (ok_or (fx_checked_from_rational (oarith C) (fst ext_asset_price) (snd ext_asset_price))
             (Module InvalidOraclePrice)) (\<lambda>oracle_price.
     tryR (ok_or (calculate_withdrawal_fee (oarith C) spot oracle_price (min_withdrawal_fee C))
             (Module Panicked)) (\<lambda>withdrawal_fee.
     tryR (ok_or (calculate_remove_liquidity_state_changes (oarith C) asset_state amount pos
             withdrawal_fee) (Arithmetic Arith_Overflow)) (\<lambda>changes.
     let delta = lp_asset changes in
     ensure (min_limit \<le> bu_amount (delta_reserve delta)) (Module SlippageLimit) (
     tryR (ok_or (delta_update asset_state delta) (Arithmetic Arith_Overflow)) (\<lambda>new_state.
     tryR (ok_or (position_delta_update pos (delta_position_reserve changes)
             (delta_position_shares changes)) (Arithmetic Arith_Overflow)) (\<lambda>updated.
     tryR (foreign (transfer C asset (protocol_account C) who
             (bu_amount (delta_reserve delta)) w2)) (\<lambda>w3.
     tryR (ok_or (bu_merge (total_delta_hub_reserve delta) (Increase (lp_hub_amount changes)))
             (Arithmetic Arith_Overflow)) (\<lambda>hub_delta.
     tryR (update_hub_asset_liquidity C hub_delta (s1\<lparr>world := w3\<rparr>)) (\<lambda>s4.
     tryR (process_hub_amount C (lp_hub_amount changes) who s4) (\<lambda>s5.
     tryR (if pos_shares updated = 0 then
             tryR (foreign (nft_burn C position_id (Some who) (world s5))) (\<lambda>w6.
             Inr (emit (PositionDestroyed position_id who)
               (s5\<lparr>positions := (positions s5)(position_id := None), world := w6\<rparr>)))
           else
             tryR (ok_or (price_from_rational (oarith C) updated) (Arithmetic Arith_DivisionByZero)) (\<lambda>price.
             let s6 = emit (PositionUpdated position_id who asset (pos_amount updated)
                        (pos_shares updated) price) s5
             in Inr (s6\<lparr>positions := (positions s6)(position_id \<mapsto> updated)\<rparr>))) (\<lambda>s7.
     let info = \<lparr>ai_asset_id = asset, ai_before = asset_state, ai_after = new_state,
           ai_delta_changes = delta, ai_safe_withdrawal = safe_withdrawal\<rparr>;
         s8 = set_asset_state asset new_state s7;
         s9 = emit (LiquidityRemoved who position_id asset amount withdrawal_fee) s8
     in
     tryR (foreign (on_liquidity_changed C orig info (world s9))) (\<lambda>w10.
     tryR (ensure_liquidity_invariant asset_state new_state) (\<lambda>_.
     Inr (bu_amount (delta_reserve delta), s9\<lparr>world := w10\<rparr>)))))))))))))))))))))))))"

definition remove_liquidity_with_limit ::
    "'w omnipool_config \<Rightarrow> origin \<Rightarrow> nat \<Rightarrow> balance \<Rightarrow> balance \<Rightarrow> 'w omnipool \<Rightarrow>
     'w omnipool omnipool_result" where
  "remove_liquidity_with_limit C orig position_id amount min_limit s =
     tryR (do_remove_liquidity C orig position_id amount min_limit s) (\<lambda>(_, s'). Inr s')"

definition remove_liquidity ::
    "'w omnipool_config \<Rightarrow> origin \<Rightarrow> nat \<Rightarrow> balance \<Rightarrow> 'w omnipool \<Rightarrow> 'w omnipool omnipool_result" where
  "remove_liquidity C orig position_id amount s =
     remove_liquidity_with_limit C orig position_id amount 0 s"

definition remove_all_liquidity ::
    "'w omnipool_config \<Rightarrow> origin \<Rightarrow> nat \<Rightarrow> balance \<Rightarrow> 'w omnipool \<Rightarrow> 'w omnipool omnipool_result" where
  "remove_all_liquidity C orig position_id min_limit s =
     tryR (ok_or (positions s position_id) (Module PositionNotFound)) (\<lambda>pos.
     remove_liquidity_with_limit C orig position_id (pos_shares pos) min_limit s)"

definition sacrifice_position ::
    "'w omnipool_config \<Rightarrow> origin \<Rightarrow> nat \<Rightarrow> 'w omnipool \<Rightarrow> 'w omnipool omnipool_result" where
  "sacrifice_position C orig position_id s =
     tryR (ensure_signed orig) (\<lambda>who.
     tryR (ok_or (positions s position_id) (Module PositionNotFound)) (\<lambda>pos.
     ensure (nft_owner C (world s) position_id = Some who) (Module Forbidden) (
     tryR (ok_or (assets s (pos_asset_id pos)) (Module AssetNotFound)) (\<lambda>st.
     tryR (ok_or (checked_add 128 (as_protocol_shares st) (pos_shares pos))
             (Arithmetic Arith_Overflow)) (\<lambda>ps.
     let s1 = s\<lparr>assets := (assets s)(pos_asset_id pos \<mapsto> st\<lparr>as_protocol_shares := ps\<rparr>)\<rparr>;
         s2 = s1\<lparr>positions := (positions s1)(position_id := None)\<rparr>
     in
     tryR (foreign (nft_burn C position_id (Some who) (world s2))) (\<lambda>w.
     Inr (emit (PositionDestroyed position_id who) (s2\<lparr>world := w\<rparr>))))))))"

definition withdraw_protocol_liquidity ::
    "'w omnipool_config \<Rightarrow> origin \<Rightarrow> asset_id \<Rightarrow> balance \<Rightarrow> balance \<times> balance \<Rightarrow> account_id \<Rightarrow> 'w omnipool \<Rightarrow>
     'w omnipool omnipool_result" where
  "withdraw_protocol_liquidity C orig asset amount price dest s =
     ensure (authority_origin C orig) BadOrigin (
     tryR (load_asset_state C asset s) (\<lambda>asset_state.
     ensure (amount \<le> protocol_shares asset_state) (Module InsufficientShares) (
     let pos = \<lparr>pos_amount = 0, pos_shares = amount, pos_price = price\<rparr> in
     tryR (ok_or (calculate_remove_liquidity_state_changes (oarith C) asset_state amount pos 0)
             (Arithmetic Arith_Overflow)) (\<lambda>changes.
     let delta = lp_asset changes in
     tryR (ok_or (delta_update asset_state delta) (Arithmetic Arith_Overflow)) (\<lambda>new_state0.
     let new_state = new_state0\<lparr>protocol_shares := saturating_sub (protocol_shares new_state0) amount\<rparr> in
     tryR (foreign (transfer C asset (protocol_account C) dest
             (bu_amount (delta_reserve delta)) (world s))) (\<lambda>w1.
     tryR (ok_or (bu_merge (total_delta_hub_reserve delta) (Increase (lp_hub_amount changes)))
             (Arithmetic Arith_Overflow)) (\<lambda>hub_delta.
     tryR (update_hub_asset_liquidity C hub_delta (s\<lparr>world := w1\<rparr>)) (\<lambda>s2.
     tryR (process_hub_amount C (lp_hub_amount changes) dest s2) (\<lambda>s3.
     let info = \<lparr>ai_asset_id = asset, ai_before = asset_state, ai_after = new_state,
           ai_delta_changes = delta, ai_safe_withdrawal = True\<rparr>;
         s4 = set_asset_state asset new_state s3;
         s5 = emit (ProtocolLiquidityRemoved dest asset (bu_amount (delta_reserve delta))
                (lp_hub_amount changes) amount) s4
     in
     tryR (foreign (on_liquidity_changed C orig info (world s5))) (\<lambda>w6.
     Inr (s5\<lparr>world := w6\<rparr>)))))))))))"

section \<open>Governance and hooks\<close>

definition add_token ::
    "'w omnipool_config \<Rightarrow> origin \<Rightarrow> asset_id \<Rightarrow> nat \<Rightarrow> nat \<Rightarrow> account_id \<Rightarrow> 'w omnipool \<Rightarrow>
     'w omnipool omnipool_result" where
  "add_token C orig asset initial_price weight_cap_permill position_owner s =
     ensure (authority_origin C orig) BadOrigin (
     ensure (assets s asset = None) (Module AssetAlreadyAdded) (
     ensure (registry_exists C (world s) asset) (Module AssetNotRegistered) (
     ensure (0 < initial_price) (Module InvalidInitialAssetPrice) (
     let w1 = nft_create_collection C (world s);
         amount = free_balance C w1 asset (protocol_account C)
     in
     tryR (ok_or (existential_deposit C w1 asset) (Module ExistentialDepositNotAvailable)) (\<lambda>ed.
     let min_liquidity = saturating_mul 128 ed 20 in
     ensure (0 < ed \<and> min_liquidity \<le> amount) (Module MissingBalance) (
     tryR (ok_or (fx_checked_mul_int (oarith C) initial_price amount) (Arithmetic Arith_Overflow)) (\<lambda>hub_res.
     let st = \<lparr>as_hub_reserve = hub_res, as_shares = amount, as_protocol_shares = 0,
           as_cap = fx_of_permill (oarith C) weight_cap_permill, as_tradable = tradability_default\<rparr>;
         lp_pos = \<lparr>pos_amount = amount, pos_shares = amount, pos_price = (initial_price, fx_one),
           pos_asset_id = asset\<rparr>
     in
     tryR (create_and_mint_position_instance C position_owner (s\<lparr>world := w1\<rparr>)) (\<lambda>(instance_id, s2).
     let s3 = s2\<lparr>positions := (positions s2)(instance_id \<mapsto> lp_pos)\<rparr>;
         s4 = emit (PositionCreated instance_id position_owner asset amount amount initial_price) s3
     in
     tryR (update_hub_asset_liquidity C (Increase hub_res) s4) (\<lambda>s5.
     let res = free_balance C (world s5) asset (protocol_account C);
         changes = asset_state_change_default\<lparr>delta_hub_reserve := Increase hub_res,
           delta_reserve := Increase res, delta_shares := Increase amount\<rparr>;
         info = \<lparr>ai_asset_id = asset, ai_before = pallet_reserve_state_default,
           ai_after = reserve_state_from_asset_state st res, ai_delta_changes = changes,
           ai_safe_withdrawal = False\<rparr>
     in
     tryR (foreign (on_liquidity_changed C orig info (world s5))) (\<lambda>w6.
     let (_, w7) = fee_get_and_store C (asset, res) w6;
         s8 = s5\<lparr>world := w7, assets := (assets s5)(asset \<mapsto> st)\<rparr>
     in Inr (emit (TokenAdded asset amount initial_price) s8)))))))))))"

definition set_asset_tradable_state ::
    "'w omnipool_config \<Rightarrow> origin \<Rightarrow> asset_id \<Rightarrow> tradability \<Rightarrow> 'w omnipool \<Rightarrow> 'w omnipool omnipool_result" where
  "set_asset_tradable_state C orig asset st s =
     ensure (update_tradability_origin C orig) BadOrigin (
     if asset = hub_asset_id C then
       ensure (\<not> contains st ADD_LIQUIDITY \<and> \<not> contains st REMOVE_LIQUIDITY)
         (Module InvalidHubAssetTradableState) (
       Inr (emit (TradableStateUpdated asset st) (s\<lparr>hub_asset_tradability := st\<rparr>)))
     else
       tryR (ok_or (assets s asset) (Module AssetNotFound)) (\<lambda>a.
       Inr (emit (TradableStateUpdated asset st)
         (s\<lparr>assets := (assets s)(asset \<mapsto> a\<lparr>as_tradable := st\<rparr>)\<rparr>))))"

definition refund_refused_asset ::
    "'w omnipool_config \<Rightarrow> origin \<Rightarrow> asset_id \<Rightarrow> balance \<Rightarrow> account_id \<Rightarrow> 'w omnipool \<Rightarrow>
     'w omnipool omnipool_result" where
  "refund_refused_asset C orig asset amount recipient s =
     ensure (authority_origin C orig) BadOrigin (
     ensure (asset \<noteq> hub_asset_id C) (Module AssetRefundNotAllowed) (
     ensure (assets s asset = None) (Module AssetAlreadyAdded) (
     ensure (can_withdraw C (world s) asset (protocol_account C) amount) (Module InsufficientBalance) (
     tryR (foreign (transfer C asset (protocol_account C) recipient amount (world s))) (\<lambda>w.
     Inr (emit (AssetRefunded asset amount recipient) (s\<lparr>world := w\<rparr>)))))))"

definition set_asset_weight_cap ::
    "'w omnipool_config \<Rightarrow> origin \<Rightarrow> asset_id \<Rightarrow> nat \<Rightarrow> 'w omnipool \<Rightarrow> 'w omnipool omnipool_result" where
  "set_asset_weight_cap C orig asset cap_permill s =
     ensure (authority_origin C orig) BadOrigin (
     tryR (ok_or (assets s asset) (Module AssetNotFound)) (\<lambda>a.
     Inr (emit (AssetWeightCapUpdated asset cap_permill)
       (s\<lparr>assets := (assets s)(asset \<mapsto> a\<lparr>as_cap := fx_of_permill (oarith C) cap_permill\<rparr>)\<rparr>))))"

definition remove_token ::
    "'w omnipool_config \<Rightarrow> origin \<Rightarrow> asset_id \<Rightarrow> account_id \<Rightarrow> 'w omnipool \<Rightarrow> 'w omnipool omnipool_result" where
  "remove_token C orig asset beneficiary s =
     ensure (authority_origin C orig) BadOrigin (
     tryR (load_asset_state C asset s) (\<lambda>asset_state.
     ensure (tradable asset_state = FROZEN) (Module AssetNotFrozen) (
     ensure (shares asset_state = protocol_shares asset_state) (Module SharesRemaining) (
     tryR (foreign (withdraw C (hub_asset_id C) (protocol_account C)
             (hub_reserve asset_state) (world s))) (\<lambda>w1.
     tryR (foreign (transfer C asset (protocol_account C) beneficiary (reserve asset_state) w1)) (\<lambda>w2.
     let s3 = s\<lparr>world := w2, assets := (assets s)(asset := None)\<rparr> in
     Inr (emit (TokenRemoved asset (reserve asset_state) (hub_reserve asset_state)) s3)))))))"

definition set_slip_fee ::
    "'w omnipool_config \<Rightarrow> origin \<Rightarrow> slip_fee_config option \<Rightarrow> 'w omnipool \<Rightarrow> 'w omnipool omnipool_result" where
  "set_slip_fee C orig config s =
     ensure (update_tradability_origin C orig) BadOrigin (
     ensure (case config of None \<Rightarrow> True | Some c \<Rightarrow> max_slip_fee c \<le> 900000) (Module MaxSlipFeeTooHigh) (
     Inr (emit (SlipFeeSet config) (s\<lparr>slip_fee := config\<rparr>))))"

definition omnipool_on_finalize :: "'w omnipool \<Rightarrow> 'w omnipool" where
  "omnipool_on_finalize s =
     s\<lparr>slip_fee_hub_reserve_at_block_start := Map.empty, slip_fee_delta := (\<lambda>_. sb_zero)\<rparr>"

text \<open>The price barrier of \<open>traits.rs\<close>: spot and oracle price within a part of their mean.\<close>

definition ensure_price_within ::
    "arith \<Rightarrow> (account_id \<Rightarrow> bool) \<Rightarrow> nat \<Rightarrow> (asset_id \<Rightarrow> asset_id \<Rightarrow> (balance \<times> balance) option) \<Rightarrow>
     account_id \<Rightarrow> asset_id \<Rightarrow> asset_id \<Rightarrow> balance \<times> balance \<Rightarrow> bool" where
  "ensure_price_within A whitelisted max_allowed_permill get_price who asset_a asset_b current_price =
     (if whitelisted who then True
      else
        (case do {
           let max_allowed = fx_of_permill A max_allowed_permill;
           oracle_price \<leftarrow> get_price asset_a asset_b;
           external_price \<leftarrow> fx_checked_from_rational A (fst oracle_price) (snd oracle_price);
           current_spot_price \<leftarrow> fx_checked_from_rational A (fst current_price) (snd current_price);
           sum \<leftarrow> fx_checked_add A current_spot_price external_price;
           max_allowed_difference \<leftarrow> fx_checked_mul A max_allowed sum;
           let diff = (if external_price \<le> current_spot_price
             then fx_saturating_sub A current_spot_price external_price
             else fx_saturating_sub A external_price current_spot_price);
           twice \<leftarrow> fx_checked_mul A diff (fx_of_int A 2);
           Some (twice \<le> max_allowed_difference)
         } of Some b \<Rightarrow> b | None \<Rightarrow> False))"

end
