(* ===== verification/Omnipool_Invariants.thy ===== *)
theory Omnipool_Invariants
  imports Omnipool_Pallet
begin

text \<open>
  The accounting invariants of the Omnipool pallet, those its \<open>try_state\<close> hook asserts: the hub asset
  held by the protocol account is exactly the sum of the hub reserves of all assets, and the LP
  shares of an asset are the shares of its positions plus the protocol's. Every extrinsic
  that succeeds preserves them, for every environment that meets \<open>omnipool_env\<close>.
\<close>

section \<open>What the pallet relies on\<close>

abbreviation hub_bal :: "'w omnipool_config \<Rightarrow> 'w \<Rightarrow> balance" where
  "hub_bal C w \<equiv> free_balance C w (hub_asset_id C) (protocol_account C)"

text \<open>
  The fee provider, the NFT store and the hooks do not move the hub asset of the protocol account;
  the fee hook may take its fee in the traded asset, which is not the hub asset.
\<close>

locale omnipool_env = pool_ledger C "protocol_account C" for C :: "'w omnipool_config" +
  assumes arith_ok: "sp_arith (oarith C)"
    and burn_ok: "burn_protocol_fee C \<le> permill_one"
    and fee_ok: "fee_get_and_store C k w = ((f, g), w') \<Longrightarrow>
      f \<le> permill_one \<and> g \<le> permill_one \<and> hub_bal C w' = hub_bal C w"
    and nft_create_frame: "hub_bal C (nft_create_collection C w) = hub_bal C w"
    and nft_mint_frame: "nft_mint_into C i x w = Inr w' \<Longrightarrow> hub_bal C w' = hub_bal C w"
    and nft_burn_frame: "nft_burn C i x' w = Inr w' \<Longrightarrow> hub_bal C w' = hub_bal C w"
    and liquidity_hook_frame: "on_liquidity_changed C orig ai w = Inr w' \<Longrightarrow> hub_bal C w' = hub_bal C w"
    and trade_hook_frame: "on_trade C orig ai bi w = Inr w' \<Longrightarrow> hub_bal C w' = hub_bal C w"
    and hub_trade_hook_frame: "on_hub_asset_trade C orig ai w = Inr w' \<Longrightarrow> hub_bal C w' = hub_bal C w"
    and fee_hook_frame: "on_trade_fee C x y a n w = Inr (l, w') \<Longrightarrow> a \<noteq> hub_asset_id C \<Longrightarrow>
      hub_bal C w' = hub_bal C w"

section \<open>The hub balance\<close>

text \<open>The excess of the recorded hub reserves over the hub asset the protocol account holds.\<close>

definition hub_gap :: "'w omnipool_config \<Rightarrow> 'w omnipool \<Rightarrow> int" where
  "hub_gap C s = int (map_sum as_hub_reserve (assets s)) - int (hub_bal C (world s))"

definition hub_backed :: "'w omnipool_config \<Rightarrow> 'w omnipool \<Rightarrow> bool" where
  "hub_backed C s \<longleftrightarrow> finite (dom (assets s)) \<and> hub_asset_id C \<notin> dom (assets s) \<and> hub_gap C s = 0"

lemma hub_gap_upd:
  assumes "finite (dom (assets s))" "assets s' = (assets s)(a \<mapsto> x)" "hub_bal C (world s') = hub_bal C (world s)"
  shows "hub_gap C s' = hub_gap C s + int (as_hub_reserve x) - int (opt_val as_hub_reserve (assets s a))"
  using map_sum_upd [OF assms(1), of as_hub_reserve a x] assms(2,3) by (simp add: hub_gap_def)

lemma load_asset_state_Inr:
  assumes "load_asset_state C a s = Inr st"
  obtains x where "assets s a = Some x" "hub_reserve st = as_hub_reserve x"
    "shares st = as_shares x" "protocol_shares st = as_protocol_shares x"
    "cap st = as_cap x" "tradable st = as_tradable x"
    "reserve st = free_balance C (world s) a (protocol_account C)"
  using assms by (auto simp: load_asset_state_def reserve_state_from_asset_state_def res_iff Let_def)

lemma delta_update_Some:
  assumes "delta_update st d = Some st'"
  shows "int (reserve st') = int (reserve st) + bu_val (delta_reserve d)"
    and "int (hub_reserve st') = int (hub_reserve st) + bu_val (total_delta_hub_reserve d)"
    and "int (shares st') = int (shares st) + bu_val (delta_shares d)"
    and "int (protocol_shares st') = int (protocol_shares st) + bu_val (delta_protocol_shares d)"
    and "cap st' = cap st" "tradable st' = tradable st"
  using assms by (auto simp: delta_update_def ck_iff dest: bu_apply_val)

lemma set_asset_state_sel [simp]:
  "assets (set_asset_state a st s) = (assets s)(a \<mapsto> asset_state_from_reserve_state st)"
  "world (set_asset_state a st s) = world s" "positions (set_asset_state a st s) = positions s"
  "next_position_id (set_asset_state a st s) = next_position_id s"
  "slip_fee (set_asset_state a st s) = slip_fee s"
  by (simp_all add: set_asset_state_def)

lemma asset_state_from_reserve_state_sel [simp]:
  "as_hub_reserve (asset_state_from_reserve_state st) = hub_reserve st"
  "as_shares (asset_state_from_reserve_state st) = shares st"
  "as_protocol_shares (asset_state_from_reserve_state st) = protocol_shares st"
  "as_cap (asset_state_from_reserve_state st) = cap st"
  "as_tradable (asset_state_from_reserve_state st) = tradable st"
  by (simp_all add: asset_state_from_reserve_state_def)

lemma emit_sel [simp]:
  "assets (emit e s) = assets s" "world (emit e s) = world s" "positions (emit e s) = positions s"
  "slip_fee (emit e s) = slip_fee s" "bcast (emit e s) = bcast s"
  "next_position_id (emit e s) = next_position_id s"
  by (simp_all add: emit_def)

text \<open>Snapshots and slip deltas leave the accounting alone.\<close>

lemma snapshot_q0_sel [simp]:
  "assets (snd (snapshot_q0 a q s)) = assets s" "world (snd (snapshot_q0 a q s)) = world s"
  "positions (snd (snapshot_q0 a q s)) = positions s" "slip_fee (snd (snapshot_q0 a q s)) = slip_fee s"
  "next_position_id (snd (snapshot_q0 a q s)) = next_position_id s"
  by (simp_all add: snapshot_q0_def split: option.splits)

lemma ensure_q0_snapshot_sel [simp]:
  "assets (ensure_q0_snapshot a q s) = assets s" "world (ensure_q0_snapshot a q s) = world s"
  "positions (ensure_q0_snapshot a q s) = positions s"
  "next_position_id (ensure_q0_snapshot a q s) = next_position_id s"
  by (simp_all add: ensure_q0_snapshot_def)

lemma load_trade_slip_fees_sel [simp]:
  "assets (snd (load_trade_slip_fees a p b q s)) = assets s"
  "world (snd (load_trade_slip_fees a p b q s)) = world s"
  "positions (snd (load_trade_slip_fees a p b q s)) = positions s"
  "next_position_id (snd (load_trade_slip_fees a p b q s)) = next_position_id s"
  by (simp_all add: load_trade_slip_fees_def case_prod_beta Let_def split: option.splits)

lemma load_hub_trade_slip_fees_sel [simp]:
  "assets (snd (load_hub_trade_slip_fees a q s)) = assets s"
  "world (snd (load_hub_trade_slip_fees a q s)) = world s"
  "positions (snd (load_hub_trade_slip_fees a q s)) = positions s"
  "next_position_id (snd (load_hub_trade_slip_fees a q s)) = next_position_id s"
  by (simp_all add: load_hub_trade_slip_fees_def case_prod_beta Let_def split: option.splits)

lemma update_slip_fee_delta_sel:
  assumes "update_slip_fee_delta a p b q s = Inr s'"
  shows "assets s' = assets s \<and> world s' = world s \<and> positions s' = positions s \<and>
    next_position_id s' = next_position_id s"
  using assms by (auto simp: update_slip_fee_delta_def res_iff Let_def split: if_splits)

lemma update_slip_fee_delta_hub_trade_sel:
  assumes "update_slip_fee_delta_hub_trade a p s = Inr s'"
  shows "assets s' = assets s \<and> world s' = world s \<and> positions s' = positions s \<and>
    next_position_id s' = next_position_id s"
  using assms by (auto simp: update_slip_fee_delta_hub_trade_def res_iff split: if_splits)

text \<open>Shares and protocol shares per asset.\<close>

definition share_view :: "'w omnipool \<Rightarrow> asset_id \<Rightarrow> (balance \<times> balance) option" where
  "share_view s = (\<lambda>a. map_option (\<lambda>x. (as_shares x, as_protocol_shares x)) (assets s a))"

lemma share_view_dom: "share_view s' = share_view s \<Longrightarrow> dom (assets s') = dom (assets s)"
proof -
  have "dom (share_view r) = dom (assets r)" for r :: "'w omnipool"
    by (auto simp: share_view_def domIff)
  then show "share_view s' = share_view s \<Longrightarrow> dom (assets s') = dom (assets s)" by metis
qed

text \<open>Operations that leave positions and shares alone, and those that also keep the hub balance.\<close>

definition same_lp :: "'w omnipool \<Rightarrow> 'w omnipool \<Rightarrow> bool" where
  "same_lp s s' \<longleftrightarrow> positions s' = positions s \<and> next_position_id s' = next_position_id s \<and>
     share_view s' = share_view s"

definition keeps :: "'w omnipool_config \<Rightarrow> 'w omnipool \<Rightarrow> 'w omnipool \<Rightarrow> bool" where
  "keeps C s s' \<longleftrightarrow> assets s' = assets s \<and> positions s' = positions s \<and>
     next_position_id s' = next_position_id s \<and> hub_bal C (world s') = hub_bal C (world s)"

lemma keeps_gap: "keeps C s s' \<Longrightarrow> hub_gap C s' = hub_gap C s"
  by (simp add: keeps_def hub_gap_def)

lemma keeps_same_lp: "keeps C s s' \<Longrightarrow> same_lp s s'"
  by (simp add: keeps_def same_lp_def share_view_def)

lemma same_lp_trans: "same_lp s s' \<Longrightarrow> same_lp s' s'' \<Longrightarrow> same_lp s s''"
  by (simp add: same_lp_def)

lemma same_lp_dom: "same_lp s s' \<Longrightarrow> dom (assets s') = dom (assets s)"
  by (rule share_view_dom) (simp add: same_lp_def)

text \<open>A trade changes no shares.\<close>

definition no_share_delta :: "asset_state_change \<Rightarrow> bool" where
  "no_share_delta d \<longleftrightarrow> delta_shares d = Increase 0 \<and> delta_protocol_shares d = Increase 0"

lemma trade_no_share_delta:
  "calculate_sell_state_changes A si so n f g m slip = Some t \<Longrightarrow>
     no_share_delta (tsc_asset_in t) \<and> no_share_delta (tsc_asset_out t)"
  "calculate_buy_state_changes A si so n f g m slip = Some t \<Longrightarrow>
     no_share_delta (tsc_asset_in t) \<and> no_share_delta (tsc_asset_out t)"
  by (auto simp: no_share_delta_def elim!: calculate_sell_state_changes_cases calculate_buy_state_changes_cases)

lemma no_share_delta_fee_taken [simp]:
  "tsc_asset_in (account_for_fee_taken ch n) = tsc_asset_in ch"
  "no_share_delta (tsc_asset_out (account_for_fee_taken ch n)) = no_share_delta (tsc_asset_out ch)"
  by (simp_all add: no_share_delta_def account_for_fee_taken_def asc_account_for_fee_taken_def Let_def)

lemma set_asset_state_same_lp:
  assumes "load_asset_state C a r = Inr st" "assets s a = assets r a" "delta_update st d = Some st'"
    "no_share_delta d"
  shows "same_lp s (set_asset_state a st' s)"
proof -
  obtain x where x: "assets r a = Some x" "shares st = as_shares x" "protocol_shares st = as_protocol_shares x"
    using load_asset_state_Inr [OF assms(1)] .
  have "shares st' = shares st" "protocol_shares st' = protocol_shares st"
    using delta_update_Some(3,4) [OF assms(3)] assms(4) by (simp_all add: no_share_delta_def)
  then show ?thesis using x assms(2) by (auto simp: same_lp_def share_view_def)
qed

lemma set_asset_state_gap:
  assumes "load_asset_state C a r = Inr st" "assets s a = assets r a" "delta_update st d = Some st'"
    "finite (dom (assets s))"
  shows "hub_gap C (set_asset_state a st' s) = hub_gap C s + bu_val (total_delta_hub_reserve d)"
proof -
  obtain x where x: "assets r a = Some x" "hub_reserve st = as_hub_reserve x"
    using load_asset_state_Inr [OF assms(1)] .
  show ?thesis
    using hub_gap_upd [OF assms(4), of "set_asset_state a st' s" a "asset_state_from_reserve_state st'" C]
      delta_update_Some(2) [OF assms(3)] x assms(2) by simp
qed

section \<open>Successful runs, taken apart\<close>

text \<open>A trade settled, up to the check of the invariant that ends it.\<close>

inductive settled ::
    "'w omnipool_config \<Rightarrow> trade_operation \<Rightarrow> origin \<Rightarrow> account_id \<Rightarrow> asset_id \<Rightarrow> pallet_reserve_state \<Rightarrow>
     asset_id \<Rightarrow> pallet_reserve_state \<Rightarrow> trade_state_change \<Rightarrow> 'w omnipool \<Rightarrow>
     pallet_reserve_state \<Rightarrow> pallet_reserve_state \<Rightarrow> 'w omnipool \<Rightarrow> bool"
  for C :: "'w omnipool_config" where
  settledI:
    "process_trade_fee C who a_out (tf_asset_fee (tsc_fee ch)) s = Inr (tk, fs, s1) \<Longrightarrow>
     ch' = account_for_fee_taken ch tk \<Longrightarrow>
     delta_update st_in (tsc_asset_in ch') = Some ni \<Longrightarrow> delta_update st_out (tsc_asset_out ch') = Some no \<Longrightarrow>
     transfer C a_in who (protocol_account C) (bu_amount (delta_reserve (tsc_asset_in ch'))) (world s1) = Inr w2 \<Longrightarrow>
     transfer C a_out (protocol_account C) who (bu_amount (delta_reserve (tsc_asset_out ch'))) w2 = Inr w3 \<Longrightarrow>
     bu_merge (total_delta_hub_reserve (tsc_asset_in ch')) (total_delta_hub_reserve (tsc_asset_out ch')) = Some dh \<Longrightarrow>
     update_hub_asset_liquidity C dh (s1\<lparr>world := w3\<rparr>) = Inr s4 \<Longrightarrow>
     update_slip_fee_delta a_in (bu_amount (delta_hub_reserve (tsc_asset_in ch')))
       a_out (bu_amount (delta_hub_reserve (tsc_asset_out ch')))
       (set_asset_state a_out no (set_asset_state a_in ni s4)) = Inr s6 \<Longrightarrow>
     on_trade C orig i1 i2 (world s6) = Inr w7 \<Longrightarrow>
     process_protocol_fee C orig (tf_protocol_fee (tsc_fee ch')) (tf_burned_protocol_fee (tsc_fee ch'))
       (s6\<lparr>world := w7\<rparr>) = Inr (pf, s8) \<Longrightarrow>
     s' = emit ev s8\<lparr>bcast := b4\<rparr> \<Longrightarrow>
     ev = (if op = ExactIn then SellExecuted else BuyExecuted) who a_in a_out
       (bu_amount (delta_reserve (tsc_asset_in ch'))) (bu_amount (delta_reserve (tsc_asset_out ch')))
       (bu_amount (total_delta_hub_reserve (tsc_asset_in ch'))) (bu_amount (total_delta_hub_reserve (tsc_asset_out ch')))
       (tf_asset_fee (tsc_fee ch')) (tf_protocol_fee (tsc_fee ch')) \<Longrightarrow>
     settled C op orig who a_in st_in a_out st_out ch s ni no s'"

lemma settledE:
  assumes "settled C op orig who a_in st_in a_out st_out ch s ni no s'"
  obtains tk fs s1 ch' w2 w3 dh s4 s6 i1 i2 w7 pf s8 ev b4 where
    "process_trade_fee C who a_out (tf_asset_fee (tsc_fee ch)) s = Inr (tk, fs, s1)"
    "ch' = account_for_fee_taken ch tk"
    "delta_update st_in (tsc_asset_in ch') = Some ni" "delta_update st_out (tsc_asset_out ch') = Some no"
    "transfer C a_in who (protocol_account C) (bu_amount (delta_reserve (tsc_asset_in ch'))) (world s1) = Inr w2"
    "transfer C a_out (protocol_account C) who (bu_amount (delta_reserve (tsc_asset_out ch'))) w2 = Inr w3"
    "bu_merge (total_delta_hub_reserve (tsc_asset_in ch')) (total_delta_hub_reserve (tsc_asset_out ch')) = Some dh"
    "update_hub_asset_liquidity C dh (s1\<lparr>world := w3\<rparr>) = Inr s4"
    "update_slip_fee_delta a_in (bu_amount (delta_hub_reserve (tsc_asset_in ch')))
       a_out (bu_amount (delta_hub_reserve (tsc_asset_out ch')))
       (set_asset_state a_out no (set_asset_state a_in ni s4)) = Inr s6"
    "on_trade C orig i1 i2 (world s6) = Inr w7"
    "process_protocol_fee C orig (tf_protocol_fee (tsc_fee ch')) (tf_burned_protocol_fee (tsc_fee ch'))
       (s6\<lparr>world := w7\<rparr>) = Inr (pf, s8)"
    "s' = emit ev s8\<lparr>bcast := b4\<rparr>"
    "ev = (if op = ExactIn then SellExecuted else BuyExecuted) who a_in a_out
       (bu_amount (delta_reserve (tsc_asset_in ch'))) (bu_amount (delta_reserve (tsc_asset_out ch')))
       (bu_amount (total_delta_hub_reserve (tsc_asset_in ch'))) (bu_amount (total_delta_hub_reserve (tsc_asset_out ch')))
       (tf_asset_fee (tsc_fee ch')) (tf_protocol_fee (tsc_fee ch'))"
  using assms by (rule settled.cases) (rule that; simp only:)

lemma settle_trade_Inr:
  assumes "settle_trade C op orig who a_in st_in a_out st_out excl ch s = Inr s'"
  obtains ni no where "settled C op orig who a_in st_in a_out st_out ch s ni no s'"
    "ensure_trade_invariant C (a_in, st_in, ni) (a_out, st_out, no) excl s' = Inr ()"
proof -
  from assms [unfolded settle_trade_def Let_def]
  show thesis
    by (elim run_elims) (rule that, rule settledI, assumption, rule refl, assumption, assumption, assumption, assumption,
        assumption, assumption, assumption, assumption, assumption, erule sym, rule refl, simp)
qed

lemma sell_cases:
  assumes "sell C orig a_in a_out n min_buy s = Inr s'"
  obtains who where "orig = Signed who" "a_in = hub_asset_id C" "a_out \<noteq> hub_asset_id C"
      "sell_hub_asset C orig who a_out n min_buy s = Inr s'"
  | who st_in st_out excl af x1 w1 x2 pf w2 slip s2 ch mi mo where
      "orig = Signed who" "a_in \<noteq> a_out" "a_in \<noteq> hub_asset_id C" "a_out \<noteq> hub_asset_id C"
      "minimum_trading_limit C \<le> n"
      "load_asset_state C a_in s = Inr st_in" "load_asset_state C a_out s = Inr st_out"
      "hub_balance_excluding_swap_assets C a_in st_in a_out st_out s = Inr excl"
      "allow_assets st_in st_out"
      "checked_div (reserve st_in) (max_in_ratio C) = Some mi" "n \<le> mi"
      "fee_get_and_store C (a_out, reserve st_out) (world s) = ((af, x1), w1)"
      "fee_get_and_store C (a_in, reserve st_in) w1 = ((x2, pf), w2)"
      "load_trade_slip_fees a_in (hub_reserve st_in) a_out (hub_reserve st_out) (s\<lparr>world := w2\<rparr>) = (slip, s2)"
      "calculate_sell_state_changes (oarith C) st_in st_out n af pf (burn_protocol_fee C) slip = Some ch"
      "0 < bu_amount (delta_reserve (tsc_asset_out ch))"
      "min_buy \<le> bu_amount (delta_reserve (tsc_asset_out ch))"
      "checked_div (reserve st_out) (max_out_ratio C) = Some mo"
      "bu_amount (delta_reserve (tsc_asset_out ch)) \<le> mo"
      "settle_trade C ExactIn orig who a_in st_in a_out st_out excl ch s2 = Inr s'"
proof (cases "a_in = hub_asset_id C")
  case True
  then show thesis
    using assms that(1) by (auto simp: sell_def res_iff)
next
  case False
  then have out: "a_out \<noteq> hub_asset_id C"
    using assms by (auto simp: sell_def res_iff sell_asset_for_hub_asset_def)
  from assms [unfolded sell_def Let_def if_not_P [OF False] if_not_P [OF out]]
  show thesis
    by (elim run_elims) (rule that(2), simp add: res_iff, (assumption | rule False out)+)
qed

lemma buy_cases:
  assumes "buy C orig a_out a_in n max_sell s = Inr s'"
  obtains who where "orig = Signed who" "a_in = hub_asset_id C" "a_out \<noteq> hub_asset_id C"
      "buy_asset_for_hub_asset C orig who a_out n max_sell s = Inr s'"
  | who st_in st_out excl af x1 w1 x2 pf w2 slip s2 ch mi mo where
      "orig = Signed who" "a_in \<noteq> a_out" "a_in \<noteq> hub_asset_id C" "a_out \<noteq> hub_asset_id C"
      "minimum_trading_limit C \<le> n"
      "load_asset_state C a_in s = Inr st_in" "load_asset_state C a_out s = Inr st_out"
      "hub_balance_excluding_swap_assets C a_in st_in a_out st_out s = Inr excl"
      "allow_assets st_in st_out"
      "checked_div (reserve st_out) (max_out_ratio C) = Some mo" "n \<le> mo"
      "fee_get_and_store C (a_out, reserve st_out) (world s) = ((af, x1), w1)"
      "fee_get_and_store C (a_in, reserve st_in) w1 = ((x2, pf), w2)"
      "load_trade_slip_fees a_in (hub_reserve st_in) a_out (hub_reserve st_out) (s\<lparr>world := w2\<rparr>) = (slip, s2)"
      "calculate_buy_state_changes (oarith C) st_in st_out n af pf (burn_protocol_fee C) slip = Some ch"
      "bu_amount (delta_reserve (tsc_asset_in ch)) \<le> max_sell"
      "checked_div (reserve st_in) (max_in_ratio C) = Some mi"
      "bu_amount (delta_reserve (tsc_asset_in ch)) \<le> mi"
      "settle_trade C ExactOut orig who a_in st_in a_out st_out excl ch s2 = Inr s'"
proof -
  have out: "a_out \<noteq> hub_asset_id C"
    using assms by (auto simp: buy_def res_iff buy_hub_asset_def)
  show thesis
  proof (cases "a_in = hub_asset_id C")
    case True
    then show thesis
      using assms out that(1) by (auto simp: buy_def res_iff)
  next
    case False
    from assms [unfolded buy_def Let_def if_not_P [OF False] if_not_P [OF out]]
    show thesis
      by (elim run_elims) (rule that(2), simp add: res_iff, (assumption | rule False out)+)
  qed
qed

text \<open>What the two trades against the hub asset share.\<close>

lemma sell_hub_asset_cases:
  assumes "sell_hub_asset C orig who a n limit s = Inr s'"
  obtains st af g w1 slip s2 ch mi mo tk fs s3 d st' w4 w5 s6 s8 info ev b w11 where
    "contains (hub_asset_tradability s) SELL" "load_asset_state C a s = Inr st" "contains (tradable st) BUY"
    "checked_div (hub_reserve st) (max_in_ratio C) = Some mi" "n \<le> mi"
    "fee_get_and_store C (a, reserve st) (world s) = ((af, g), w1)"
    "load_hub_trade_slip_fees a (hub_reserve st) (s\<lparr>world := w1\<rparr>) = (slip, s2)"
    "calculate_sell_hub_state_changes (oarith C) st n af slip = Some ch"
    "limit \<le> bu_amount (delta_reserve (hub_asset ch))"
    "checked_div (reserve st) (max_out_ratio C) = Some mo" "bu_amount (delta_reserve (hub_asset ch)) \<le> mo"
    "process_trade_fee C who a (tf_asset_fee (hub_fee ch)) s2 = Inr (tk, fs, s3)"
    "d = hub_asset (hub_account_for_fee_taken ch tk)"
    "delta_update st d = Some st'"
    "transfer C (hub_asset_id C) who (protocol_account C) (bu_amount (delta_hub_reserve d)) (world s3) = Inr w4"
    "transfer C a (protocol_account C) who (bu_amount (delta_reserve d)) w4 = Inr w5"
    "update_hub_asset_liquidity C (extra_hub_reserve_amount d) (s3\<lparr>world := w5\<rparr>) = Inr s6"
    "update_slip_fee_delta_hub_trade a (bu_amount (delta_hub_reserve d)) (set_asset_state a st' s6) = Inr s8"
    "on_hub_asset_trade C orig info (world s8) = Inr w11"
    "s' = emit ev s8\<lparr>bcast := b, world := w11\<rparr>"
    "ev = SellExecuted who (hub_asset_id C) a (bu_amount (delta_hub_reserve d)) (bu_amount (delta_reserve d)) 0 0
       (tf_asset_fee (hub_fee (hub_account_for_fee_taken ch tk)))
       (tf_protocol_fee (hub_fee (hub_account_for_fee_taken ch tk)))"
proof -
  from assms [unfolded sell_hub_asset_def Let_def]
  show thesis
    by (elim run_elims) (rule that, assumption, assumption, assumption, assumption, assumption, assumption,
        assumption, assumption, assumption, assumption, assumption, assumption, rule refl, assumption,
        assumption, assumption, assumption, assumption, simp, erule sym, rule refl)
qed

lemma buy_asset_for_hub_asset_cases:
  assumes "buy_asset_for_hub_asset C orig who a n limit s = Inr s'"
  obtains st af g w1 slip s2 ch mi mo tk fs s3 d st' w4 w5 s6 s8 info ev b w11 where
    "contains (hub_asset_tradability s) SELL" "load_asset_state C a s = Inr st" "contains (tradable st) BUY"
    "checked_div (reserve st) (max_out_ratio C) = Some mo" "n \<le> mo"
    "fee_get_and_store C (a, reserve st) (world s) = ((af, g), w1)"
    "load_hub_trade_slip_fees a (hub_reserve st) (s\<lparr>world := w1\<rparr>) = (slip, s2)"
    "calculate_buy_for_hub_asset_state_changes (oarith C) st n af slip = Some ch"
    "bu_amount (delta_hub_reserve (hub_asset ch)) \<le> limit"
    "checked_div (hub_reserve st) (max_in_ratio C) = Some mi" "bu_amount (delta_hub_reserve (hub_asset ch)) \<le> mi"
    "process_trade_fee C who a (tf_asset_fee (hub_fee ch)) s2 = Inr (tk, fs, s3)"
    "d = hub_asset (hub_account_for_fee_taken ch tk)"
    "delta_update st d = Some st'"
    "transfer C (hub_asset_id C) who (protocol_account C) (bu_amount (delta_hub_reserve d)) (world s3) = Inr w4"
    "transfer C a (protocol_account C) who (bu_amount (delta_reserve d)) w4 = Inr w5"
    "update_hub_asset_liquidity C (extra_hub_reserve_amount d) (s3\<lparr>world := w5\<rparr>) = Inr s6"
    "update_slip_fee_delta_hub_trade a (bu_amount (delta_hub_reserve d)) (set_asset_state a st' s6) = Inr s8"
    "on_hub_asset_trade C orig info (world s8) = Inr w11"
    "s' = emit ev s8\<lparr>bcast := b, world := w11\<rparr>"
    "ev = BuyExecuted who (hub_asset_id C) a (bu_amount (delta_hub_reserve d)) (bu_amount (delta_reserve d)) 0 0
       (tf_asset_fee (hub_fee (hub_account_for_fee_taken ch tk)))
       (tf_protocol_fee (hub_fee (hub_account_for_fee_taken ch tk)))"
proof -
  from assms [unfolded buy_asset_for_hub_asset_def Let_def]
  show thesis
    by (elim run_elims) (rule that, assumption, assumption, assumption, assumption, assumption, assumption,
        assumption, assumption, assumption, assumption, assumption, assumption, rule refl, assumption,
        assumption, assumption, assumption, assumption, simp, erule sym, rule refl)
qed

text \<open>The hub amounts of a trade against the hub asset add up without saturation.\<close>

lemma hub_trade_delta:
  "calculate_sell_hub_state_changes A so n f slip = Some ch \<Longrightarrow> d = hub_asset (hub_account_for_fee_taken ch k) \<Longrightarrow>
     delta_hub_reserve d = Increase (bu_amount (delta_hub_reserve (hub_asset ch))) \<and> no_share_delta d"
  "calculate_buy_for_hub_asset_state_changes A so n f slip = Some ch \<Longrightarrow>
     d = hub_asset (hub_account_for_fee_taken ch k) \<Longrightarrow>
     delta_hub_reserve d = Increase (bu_amount (delta_hub_reserve (hub_asset ch))) \<and> no_share_delta d"
  by (auto simp: no_share_delta_def hub_account_for_fee_taken_def asc_account_for_fee_taken_def Let_def
      elim!: calculate_sell_hub_state_changes_cases calculate_buy_for_hub_asset_state_changes_cases)

lemma total_delta_exact:
  assumes "delta_update st d = Some st'" "delta_hub_reserve d = Increase h" "hub_reserve st \<noteq> 0"
  shows "bu_val (total_delta_hub_reserve d) = int h + bu_val (extra_hub_reserve_amount d)"
proof (cases "extra_hub_reserve_amount d")
  case (Increase x)
  then have "bu_apply (Increase (saturating_add 128 h x)) (hub_reserve st) = Some (hub_reserve st')"
    using assms(1,2) by (auto simp: delta_update_def ck_iff total_delta_hub_reserve_def bu_saturating_merge_def)
  then have "saturating_add 128 h x < umax 128" using assms(3) by (auto simp: ck_iff)
  then show ?thesis using Increase assms(2)
    by (simp add: total_delta_hub_reserve_def bu_saturating_merge_def saturating_add_def)
next
  case (Decrease x)
  then show ?thesis using assms(2)
    by (simp add: total_delta_hub_reserve_def bu_saturating_merge_def saturating_sub_def)
qed

context omnipool_env
begin

lemma update_hub_asset_liquidity_Inr:
  assumes "update_hub_asset_liquidity C d s = Inr s'"
  shows "assets s' = assets s" "positions s' = positions s" "next_position_id s' = next_position_id s"
    "hub_gap C s' = hub_gap C s - bu_val d"
proof -
  obtain w where s': "s' = s\<lparr>world := w\<rparr>" and w: "int (hub_bal C w) = int (hub_bal C (world s)) + bu_val d"
    using assms deposit_pool [of "hub_asset_id C" _ "world s" _ "hub_asset_id C"]
      withdraw_pool [of "hub_asset_id C" _ "world s" _ "hub_asset_id C"]
      withdraw_enough [of "hub_asset_id C" _ "world s"]
    by (cases d) (auto simp: update_hub_asset_liquidity_def res_iff)
  show "assets s' = assets s" "positions s' = positions s" "next_position_id s' = next_position_id s"
    "hub_gap C s' = hub_gap C s - bu_val d"
    using w by (simp_all add: s' hub_gap_def)
qed

lemma process_trade_fee_keeps:
  assumes "process_trade_fee C who a n s = Inr (t, fs, s')" "a \<noteq> hub_asset_id C"
  shows "keeps C s s'"
  using assms fee_hook_frame
  by (auto simp: process_trade_fee_def res_iff Let_def keeps_def split: prod.splits)

lemma process_hub_amount_Inr:
  assumes "process_hub_amount C n dest s = Inr s'" "dest \<noteq> protocol_account C"
  shows "assets s' = assets s" "positions s' = positions s" "next_position_id s' = next_position_id s"
    "hub_gap C s' = hub_gap C s + int n"
proof -
  obtain w where s': "s' = s\<lparr>world := w\<rparr>" and w: "int (hub_bal C w) = int (hub_bal C (world s)) - int n"
  proof (cases "n = 0")
    case True
    then show ?thesis using assms that [of "world s"] by (simp add: process_hub_amount_def)
  next
    case False
    show ?thesis
      using assms False that transfer_pool [of "hub_asset_id C" _ dest n "world s" _ "hub_asset_id C"]
        transfer_enough [of "hub_asset_id C" dest n "world s"]
        withdraw_pool [of "hub_asset_id C" n "world s" _ "hub_asset_id C"]
        withdraw_enough [of "hub_asset_id C" n "world s"]
      by (auto simp: process_hub_amount_def res_iff split: if_splits sum.splits)
  qed
  show "assets s' = assets s" "positions s' = positions s" "next_position_id s' = next_position_id s"
    "hub_gap C s' = hub_gap C s + int n"
    using w by (simp_all add: s' hub_gap_def)
qed

lemma create_and_mint_Inr:
  assumes "create_and_mint_position_instance C who s = Inr (i, s')"
  shows "assets s' = assets s" "positions s' = positions s" "hub_bal C (world s') = hub_bal C (world s)"
    "i = next_position_id s" "next_position_id s' = i + 1"
  using assms nft_mint_frame
  by (auto simp: create_and_mint_position_instance_def res_iff Let_def ck_iff)

lemma increase_hdx_Inr:
  assumes run: "increase_hdx_subpool_hub_reserve C orig n s = Inr s'" and fin: "finite (dom (assets s))"
  shows "hub_gap C s' = hub_gap C s + int n \<and> same_lp s s'"
proof (cases "n = 0")
  case True
  with run show ?thesis by (simp add: increase_hdx_subpool_hub_reserve_def same_lp_def)
next
  case False
  let ?h = "hdx_asset_id C"
  from run [unfolded increase_hdx_subpool_hub_reserve_def Let_def if_not_P [OF False]]
  obtain x h w1 p w2 info r where x: "assets s ?h = Some x"
      "checked_add 128 (as_hub_reserve x) n = Some h"
    and w: "on_hub_asset_trade C orig info (world (s\<lparr>assets := (assets s)(?h \<mapsto> x\<lparr>as_hub_reserve := h\<rparr>)\<rparr>)) = Inr w1"
      "fee_get_and_store C (?h, r) w1 = (p, w2)"
    and s': "s\<lparr>assets := (assets s)(?h \<mapsto> x\<lparr>as_hub_reserve := h\<rparr>)\<rparr>\<lparr>world := w2\<rparr> = s'"
    by (elim run_elims) (rule that, assumption+)
  have "hub_bal C w2 = hub_bal C (world s)"
    using hub_trade_hook_frame fee_ok w by (cases p) (auto simp: res_iff)
  moreover have "assets s ?h = Some x" "h = as_hub_reserve x + n" using x by (auto simp: ck_iff)
  ultimately show ?thesis
    using hub_gap_upd [OF fin, of s' ?h "x\<lparr>as_hub_reserve := h\<rparr>" C] s'
    by (auto simp: share_view_def same_lp_def)
qed

lemma process_protocol_fee_Inr:
  assumes run: "process_protocol_fee C orig fee burned s = Inr (fs, s')" and fin: "finite (dom (assets s))"
  shows "hub_gap C s' = hub_gap C s \<and> same_lp s s'"
proof (cases "fee = 0 \<or> saturating_sub fee burned = 0")
  case True
  with run show ?thesis by (auto simp: process_protocol_fee_def Let_def same_lp_def split: if_splits)
next
  case False
  let ?r = "saturating_sub fee burned"
  from run False obtain s1 where s1: "update_hub_asset_liquidity C (Increase ?r) s = Inr s1"
    "increase_hdx_subpool_hub_reserve C orig ?r s1 = Inr s'"
    by (auto simp: process_protocol_fee_def res_iff Let_def split: if_splits)
  show ?thesis
    using update_hub_asset_liquidity_Inr [OF s1(1)] increase_hdx_Inr [OF s1(2)] fin
    by (simp add: same_lp_def share_view_def)
qed

lemma settled_accounting:
  assumes run: "settled C op orig who a_in st_in a_out st_out ch s ni no s'"
    and ld: "load_asset_state C a_in r = Inr st_in" "load_asset_state C a_out r = Inr st_out"
    and same: "assets s = assets r" and fin: "finite (dom (assets s))"
    and ne: "a_in \<noteq> a_out" "a_in \<noteq> hub_asset_id C" "a_out \<noteq> hub_asset_id C"
    and nd: "no_share_delta (tsc_asset_in ch)" "no_share_delta (tsc_asset_out ch)"
  shows "hub_gap C s' = hub_gap C s \<and> same_lp s s'"
  using run
proof (cases rule: settledE)
  case (1 tk fs s1 ch' w2 w3 dh s4 s6 i1 i2 w7 pf s8 ev b4)
  let ?t = "s1\<lparr>world := w3\<rparr>" and ?p = "set_asset_state a_in ni s4"
  let ?q = "set_asset_state a_out no ?p" and ?u = "s6\<lparr>world := w7\<rparr>"
  have k1: "keeps C s s1" by (rule process_trade_fee_keeps [OF 1(1) ne(3)])
  have "hub_bal C w3 = hub_bal C (world s1)"
    using transfer_pool [OF 1(5), of "hub_asset_id C"] transfer_pool [OF 1(6), of "hub_asset_id C"] ne by simp
  with k1 have k: "keeps C s ?t" by (simp add: keeps_def)
  note s4 = update_hub_asset_liquidity_Inr [OF 1(8)]
  have a4: "assets s4 = assets r" "finite (dom (assets s4))" using k s4(1) same fin by (auto simp: keeps_def)
  have lp4: "same_lp s s4" using k s4 by (simp add: keeps_def same_lp_def share_view_def)
  have dh: "bu_val dh = bu_val (total_delta_hub_reserve (tsc_asset_in ch')) +
      bu_val (total_delta_hub_reserve (tsc_asset_out ch'))"
    using 1(7) bu_checked_add_val by (simp add: bu_merge_def)
  have nd': "no_share_delta (tsc_asset_in ch')" "no_share_delta (tsc_asset_out ch')" using nd 1(2) by auto
  have p: "hub_gap C ?p = hub_gap C s4 + bu_val (total_delta_hub_reserve (tsc_asset_in ch'))" "same_lp s4 ?p"
    using set_asset_state_gap [OF ld(1) _ 1(3) a4(2)] set_asset_state_same_lp [OF ld(1) _ 1(3) nd'(1), of s4] a4
    by simp_all
  have ap: "assets ?p a_out = assets r a_out" "finite (dom (assets ?p))" using a4 ne by simp_all
  have q: "hub_gap C ?q = hub_gap C ?p + bu_val (total_delta_hub_reserve (tsc_asset_out ch'))" "same_lp ?p ?q"
    by (rule set_asset_state_gap [OF ld(2) ap(1) 1(4) ap(2)], rule set_asset_state_same_lp [OF ld(2) ap(1) 1(4) nd'(2)])
  have ku: "keeps C ?q ?u"
    using update_slip_fee_delta_sel [OF 1(9)] trade_hook_frame [OF 1(10)] by (auto simp: keeps_def)
  have "finite (dom (assets ?u))" using ku ap(2) by (simp add: keeps_def)
  note pf = process_protocol_fee_Inr [OF 1(11) this]
  have "hub_gap C s8 = hub_gap C s"
    using pf keeps_gap [OF ku] q(1) p(1) s4(4) dh keeps_gap [OF k] by simp
  moreover have "same_lp s s8"
    using lp4 p(2) q(2) keeps_same_lp [OF ku] pf by (metis same_lp_trans)
  ultimately show ?thesis using 1(12) by (simp add: hub_gap_def same_lp_def share_view_def)
qed

lemma increase_hdx_frame:
  assumes "increase_hdx_subpool_hub_reserve C orig n s = Inr s'" "b \<noteq> hdx_asset_id C"
  shows "assets s' b = assets s b"
  using assms by (auto simp: increase_hdx_subpool_hub_reserve_def res_iff Let_def case_prod_beta split: if_splits)

lemma process_protocol_fee_frame:
  assumes "process_protocol_fee C orig fee burned s = Inr (fs, s')" "b \<noteq> hdx_asset_id C"
  shows "assets s' b = assets s b"
  using assms update_hub_asset_liquidity_Inr(1) increase_hdx_frame
  by (fastforce simp: process_protocol_fee_def res_iff Let_def split: if_splits)

lemma settled_frame:
  assumes "settled C op orig who a_in st_in a_out st_out ch s ni no s'" "a_out \<noteq> hub_asset_id C"
    "b \<noteq> a_in" "b \<noteq> a_out" "b \<noteq> hdx_asset_id C"
  shows "assets s' b = assets s b"
  using assms(1)
proof (cases rule: settledE)
  case (1 tk fs s1 ch' w2 w3 dh s4 s6 i1 i2 w7 pf s8 ev b4)
  have "assets s1 = assets s" using process_trade_fee_keeps [OF 1(1) assms(2)] by (simp add: keeps_def)
  then show ?thesis
    using process_protocol_fee_frame [OF 1(11) assms(5)] update_slip_fee_delta_sel [OF 1(9)]
      update_hub_asset_liquidity_Inr(1) [OF 1(8)] assms(3,4) 1(12) by simp
qed

lemma load_trade_slip_fees_keeps:
  assumes "fee_get_and_store C k (world s) = (p, w1)" "fee_get_and_store C k' w1 = (p', w2)"
    "load_trade_slip_fees a x b y (s\<lparr>world := w2\<rparr>) = (slip, s2)"
  shows "keeps C s s2"
  using fee_ok [of k "world s" "fst p" "snd p" w1] fee_ok [of k' w1 "fst p'" "snd p'" w2]
    load_trade_slip_fees_sel [of a x b y "s\<lparr>world := w2\<rparr>", unfolded assms(3)] assms(1,2)
  by (simp add: keeps_def)

lemma load_hub_trade_slip_fees_keeps:
  assumes "fee_get_and_store C k (world s) = (p, w1)"
    "load_hub_trade_slip_fees a x (s\<lparr>world := w1\<rparr>) = (slip, s2)"
  shows "keeps C s s2"
  using fee_ok [of k "world s" "fst p" "snd p" w1]
    load_hub_trade_slip_fees_sel [of a x "s\<lparr>world := w1\<rparr>", unfolded assms(2)] assms(1)
  by (simp add: keeps_def)

lemma hub_trade_accounting:
  assumes k: "keeps C s s2" and fee: "process_trade_fee C who a f s2 = Inr (tk, fs, s3)"
    and ld: "load_asset_state C a s = Inr st" and upd: "delta_update st d = Some st'"
    and tr: "transfer C (hub_asset_id C) who (protocol_account C) (bu_amount (delta_hub_reserve d)) (world s3) = Inr w4"
      "transfer C a (protocol_account C) who m w4 = Inr w5"
    and hub: "update_hub_asset_liquidity C (extra_hub_reserve_amount d) (s3\<lparr>world := w5\<rparr>) = Inr s6"
    and slip: "update_slip_fee_delta_hub_trade a p (set_asset_state a st' s6) = Inr s8"
    and hook: "on_hub_asset_trade C orig info (world s8) = Inr w11"
    and s': "s' = emit ev s8\<lparr>bcast := b, world := w11\<rparr>"
    and d: "delta_hub_reserve d = Increase h \<and> no_share_delta d" "hub_reserve st \<noteq> 0"
    and side: "a \<noteq> hub_asset_id C" "who \<noteq> protocol_account C" "finite (dom (assets s))"
  shows "hub_gap C s' = hub_gap C s \<and> same_lp s s'"
proof -
  let ?q = "set_asset_state a st' s6"
  have k3: "keeps C s s3" using k process_trade_fee_keeps [OF fee side(1)] by (simp add: keeps_def)
  have "int (hub_bal C w5) = int (hub_bal C (world s3)) + int h"
    using transfer_pool [OF tr(1), of "hub_asset_id C"] transfer_pool [OF tr(2), of "hub_asset_id C"] d(1) side
    by simp
  note s6 = update_hub_asset_liquidity_Inr [OF hub] and w5 = this
  have a6: "assets s6 = assets s" using s6(1) k3 by (simp add: keeps_def)
  have "hub_gap C (s3\<lparr>world := w5\<rparr>) = hub_gap C s - int h"
    using w5 k3 by (simp add: hub_gap_def keeps_def)
  then have "hub_gap C ?q = hub_gap C s"
    using set_asset_state_gap [OF ld _ upd, of s6] total_delta_exact [OF upd conjunct1 [OF d(1)] d(2)] s6(4) a6 side
    by simp
  moreover have "same_lp s ?q"
    using set_asset_state_same_lp [OF ld _ upd conjunct2 [OF d(1)], of s6] a6 s6 k3
    by (simp add: same_lp_def keeps_def share_view_def)
  ultimately show ?thesis
    using update_slip_fee_delta_hub_trade_sel [OF slip] hub_trade_hook_frame [OF hook] s'
    by (auto simp: hub_gap_def same_lp_def share_view_def)
qed

text \<open>Every trade keeps the gap, the positions and the shares.\<close>

lemma sell_accounting:
  assumes run: "sell C orig a_in a_out n lim s = Inr s'" and fin: "finite (dom (assets s))"
    and who: "orig \<noteq> Signed (protocol_account C)"
  shows "hub_gap C s' = hub_gap C s \<and> same_lp s s'"
  using run
proof (cases rule: sell_cases)
  case (1 who)
  have ne: "who \<noteq> protocol_account C" using 1(1) assms(3) by auto
  from 1(4) show ?thesis
  proof (cases rule: sell_hub_asset_cases)
    case (1 st af g w1 slip s2 ch mi mo tk fs s3 d st' w4 w5 s6 s8 info ev b w11)
    have "hub_reserve st \<noteq> 0" using 1(8) by (elim calculate_sell_hub_state_changes_cases)
    then show ?thesis
      using hub_trade_accounting [OF load_hub_trade_slip_fees_keeps [OF 1(6,7)] 1(12) 1(2) 1(14-20)
        hub_trade_delta(1) [OF 1(8,13)]] ne fin \<open>a_out \<noteq> hub_asset_id C\<close> by simp
  qed
next
  case (2 who st_in st_out excl af x1 w1 x2 pf w2 slip s2 ch mi mo)
  note k = load_trade_slip_fees_keeps [OF 2(12-14)]
  have "hub_gap C s' = hub_gap C s2 \<and> same_lp s2 s'"
    by (rule settle_trade_Inr [OF 2(20)], drule settled_accounting [OF _ 2(6,7)])
      (use k fin 2(2-4) trade_no_share_delta(1) [OF 2(15)] in \<open>simp_all add: keeps_def\<close>)
  then show ?thesis using keeps_gap [OF k] keeps_same_lp [OF k] by (auto intro: same_lp_trans)
qed

lemma buy_accounting:
  assumes run: "buy C orig a_out a_in n lim s = Inr s'" and fin: "finite (dom (assets s))"
    and who: "orig \<noteq> Signed (protocol_account C)"
  shows "hub_gap C s' = hub_gap C s \<and> same_lp s s'"
  using run
proof (cases rule: buy_cases)
  case (1 who)
  have ne: "who \<noteq> protocol_account C" using 1(1) assms(3) by auto
  from 1(4) show ?thesis
  proof (cases rule: buy_asset_for_hub_asset_cases)
    case (1 st af g w1 slip s2 ch mi mo tk fs s3 d st' w4 w5 s6 s8 info ev b w11)
    have "0 < bu_amount (delta_hub_reserve (hub_asset ch))"
      using 1(8) by (auto elim!: calculate_buy_for_hub_asset_state_changes_cases)
    then have "hub_reserve st \<noteq> 0" using 1(10,11) by (auto simp: ck_iff intro: gr0I)
    then show ?thesis
      using hub_trade_accounting [OF load_hub_trade_slip_fees_keeps [OF 1(6,7)] 1(12) 1(2) 1(14-20)
        hub_trade_delta(2) [OF 1(8,13)]] ne fin \<open>a_out \<noteq> hub_asset_id C\<close> by simp
  qed
next
  case (2 who st_in st_out excl af x1 w1 x2 pf w2 slip s2 ch mi mo)
  note k = load_trade_slip_fees_keeps [OF 2(12-14)]
  have "hub_gap C s' = hub_gap C s2 \<and> same_lp s2 s'"
    by (rule settle_trade_Inr [OF 2(19)], drule settled_accounting [OF _ 2(6,7)])
      (use k fin 2(2-4) trade_no_share_delta(2) [OF 2(15)] in \<open>simp_all add: keeps_def\<close>)
  then show ?thesis using keeps_gap [OF k] keeps_same_lp [OF k] by (auto intro: same_lp_trans)
qed

end

end
