(* ===== verification/Omnipool_Positions.thy ===== *)
theory Omnipool_Positions
  imports Omnipool_Invariants
begin

text \<open>
  The LP side of the Omnipool invariants: \<open>omnipool_inv\<close> adds to the hub balance that the shares of
  every asset are those of its positions plus the protocol's. Each liquidity and governance
  operation preserves it.
\<close>

section \<open>The invariant\<close>

definition position_shares :: "'w omnipool \<Rightarrow> asset_id \<Rightarrow> balance" where
  "position_shares s a = map_sum (\<lambda>p. if pos_asset_id p = a then pos_shares p else 0) (positions s)"

definition shares_backed :: "'w omnipool \<Rightarrow> bool" where
  "shares_backed s \<longleftrightarrow> finite (dom (positions s)) \<and> (\<forall>i\<in>dom (positions s). i < next_position_id s) \<and>
     (\<forall>a. position_shares s a + opt_val as_protocol_shares (assets s a) = opt_val as_shares (assets s a))"

definition omnipool_inv :: "'w omnipool_config \<Rightarrow> 'w omnipool \<Rightarrow> bool" where
  "omnipool_inv C s \<longleftrightarrow> hub_backed C s \<and> shares_backed s"

lemma opt_val_share_view:
  "share_view s' = share_view s \<Longrightarrow> opt_val as_shares (assets s' a) = opt_val as_shares (assets s a) \<and>
     opt_val as_protocol_shares (assets s' a) = opt_val as_protocol_shares (assets s a)"
  by (drule fun_cong [of _ _ a]) (cases "assets s a"; cases "assets s' a"; simp add: share_view_def)

lemma same_lp_shares_backed: "same_lp s s' \<Longrightarrow> shares_backed s \<Longrightarrow> shares_backed s'"
  using opt_val_share_view [of s' s] by (simp add: same_lp_def shares_backed_def position_shares_def)

lemma same_lp_inv:
  assumes "same_lp s s'" "hub_gap C s' = hub_gap C s" "omnipool_inv C s"
  shows "omnipool_inv C s'"
  using assms same_lp_shares_backed [OF assms(1)] same_lp_dom [OF assms(1)]
  by (simp add: omnipool_inv_def hub_backed_def)

text \<open>One position changes, and the asset state with it.\<close>

lemma position_shares_upd:
  assumes "finite (dom (positions s))" "positions s' = (positions s)(i := po)"
  shows "position_shares s' a + opt_val (\<lambda>p. if pos_asset_id p = a then pos_shares p else 0) (positions s i) =
    position_shares s a + opt_val (\<lambda>p. if pos_asset_id p = a then pos_shares p else 0) po"
proof (cases po)
  case None
  then show ?thesis
    using map_sum_remove [OF assms(1), of "\<lambda>p. if pos_asset_id p = a then pos_shares p else 0" i] assms(2)
    by (simp add: position_shares_def)
next
  case (Some p)
  then show ?thesis
    using map_sum_upd [OF assms(1), of "\<lambda>p. if pos_asset_id p = a then pos_shares p else 0" i p] assms(2)
    by (simp add: position_shares_def)
qed

lemma shares_backed_upd:
  assumes inv: "shares_backed s" and pos: "positions s' = (positions s)(i := po)"
    and as: "assets s' = (assets s)(b \<mapsto> y)"
    and ids: "next_position_id s \<le> next_position_id s'" "po \<noteq> None \<Longrightarrow> i < next_position_id s'"
    and own: "\<And>p. positions s i = Some p \<Longrightarrow> pos_asset_id p = b" "\<And>p. po = Some p \<Longrightarrow> pos_asset_id p = b"
    and bal: "int (as_shares y) - int (opt_val as_shares (assets s b)) =
      int (opt_val pos_shares po) - int (opt_val pos_shares (positions s i)) +
      int (as_protocol_shares y) - int (opt_val as_protocol_shares (assets s b))"
  shows "shares_backed s'"
proof -
  have fin: "finite (dom (positions s))" using inv by (simp add: shares_backed_def)
  have "position_shares s' a + opt_val as_protocol_shares (assets s' a) = opt_val as_shares (assets s' a)" for a
  proof -
    have o: "opt_val (\<lambda>p. if pos_asset_id p = a then pos_shares p else 0) (positions s i) =
        (if a = b then opt_val pos_shares (positions s i) else 0)"
      using own(1) by (cases "positions s i") auto
    have n: "opt_val (\<lambda>p. if pos_asset_id p = a then pos_shares p else 0) po =
        (if a = b then opt_val pos_shares po else 0)"
      using own(2) by (cases po) auto
    have "position_shares s a + opt_val as_protocol_shares (assets s a) = opt_val as_shares (assets s a)"
      using inv by (simp add: shares_backed_def)
    then show ?thesis
      using position_shares_upd [OF fin pos, of a] bal by (auto simp: o n as split: if_splits)
  qed
  moreover have "j < next_position_id s'" if "j \<in> dom (positions s')" for j
  proof (cases "j = i")
    case True
    then have "po \<noteq> None" using that pos by (metis domIff fun_upd_same)
    then show ?thesis using ids(2) True by simp
  next
    case False
    then have "j \<in> dom (positions s)" using that pos by (metis domIff fun_upd_other)
    then show ?thesis using inv ids(1) by (auto simp: shares_backed_def intro: less_le_trans)
  qed
  ultimately show ?thesis using fin pos by (simp add: shares_backed_def)
qed

lemma shares_backed_set:
  assumes inv: "shares_backed s" and pos: "positions s' = positions s" "next_position_id s' = next_position_id s"
    and as: "assets s' = (assets s)(b := yo)"
    and bal: "int (opt_val as_shares yo) - int (opt_val as_shares (assets s b)) =
      int (opt_val as_protocol_shares yo) - int (opt_val as_protocol_shares (assets s b))"
  shows "shares_backed s'"
proof -
  have "position_shares s' a + opt_val as_protocol_shares (assets s' a) = opt_val as_shares (assets s' a)" for a
  proof -
    have "position_shares s a + opt_val as_protocol_shares (assets s a) = opt_val as_shares (assets s a)"
      using inv by (simp add: shares_backed_def)
    then show ?thesis using bal pos by (auto simp: as position_shares_def)
  qed
  then show ?thesis using inv pos by (simp add: shares_backed_def)
qed

section \<open>Successful runs, taken apart\<close>

lemma do_add_liquidity_cases:
  assumes "do_add_liquidity C orig a n lim s = Inr (i, s')"
  obtains who st fs w2 ch d st' s3 w6 s7 info e1 e2 w10 pos tot ratio where
    "orig = Signed who" "minimum_pool_liquidity C \<le> n" "load_asset_state C a s = Inr st"
    "contains (tradable st) ADD_LIQUIDITY"
    "fee_get_and_store C (a, reserve st) (world s) = (fs, w2)"
    "calculate_add_liquidity_state_changes (oarith C) st n = Some ch" "d = lp_asset ch"
    "lim \<le> bu_amount (delta_shares d)"
    "delta_update st d = Some st'"
    "checked_add 128 (total_balance C w2 (hub_asset_id C) (protocol_account C))
       (bu_amount (total_delta_hub_reserve d)) = Some tot"
    "fx_checked_from_rational (oarith C) (hub_reserve st') tot = Some ratio" "ratio \<le> cap st'"
    "create_and_mint_position_instance C who (ensure_q0_snapshot a (hub_reserve st) s\<lparr>world := w2\<rparr>) = Inr (i, s3)"
    "pos = \<lparr>pos_amount = n, pos_shares = bu_amount (delta_shares d),
       pos_price = (hub_reserve st', reserve st'), pos_asset_id = a\<rparr>"
    "transfer C a who (protocol_account C) (bu_amount (delta_reserve d)) (world s3) = Inr w6"
    "update_hub_asset_liquidity C (total_delta_hub_reserve d)
       (emit e1 (s3\<lparr>positions := (positions s3)(i \<mapsto> pos)\<rparr>)\<lparr>world := w6\<rparr>) = Inr s7"
    "on_liquidity_changed C orig info (world s7) = Inr w10"
    "ensure_liquidity_invariant st st' = Inr ()"
    "s' = emit e2 (set_asset_state a st' s7)\<lparr>world := w10\<rparr>"
proof -
  from assms [unfolded do_add_liquidity_def Let_def]
  show thesis
    by (elim run_elims) (rule that, simp add: res_iff, assumption, assumption, assumption, simp, assumption,
        rule refl, assumption, assumption, assumption, assumption, simp add: weight_cap_def, simp, rule refl, simp,
        simp, simp, simp, erule sym)
qed

lemma do_remove_liquidity_cases:
  assumes "do_remove_liquidity C orig i n lim s = Inr (out, s')"
  obtains who p a st fs w2 fee spot ext orp ch d st' p' w3 dh s4 s5 s7 info ev w10 where
    "orig = Signed who" "0 < n" "nft_owner C (world s) i = Some who" "positions s i = Some p" "n \<le> pos_shares p"
    "a = pos_asset_id p" "load_asset_state C a s = Inr st" "contains (tradable st) REMOVE_LIQUIDITY"
    "fee_get_and_store C (a, reserve st) (world s) = (fs, w2)"
    "oracle_get_price C w2 (hub_asset_id C) a = Inr ext"
    "state_price (oarith C) st = Some spot"
    "fx_checked_from_rational (oarith C) (fst ext) (snd ext) = Some orp"
    "calculate_withdrawal_fee (oarith C) spot orp (min_withdrawal_fee C) = Some fee"
    "calculate_remove_liquidity_state_changes (oarith C) st n p fee = Some ch" "d = lp_asset ch"
    "lim \<le> bu_amount (delta_reserve d)"
    "delta_update st d = Some st'"
    "position_delta_update p (delta_position_reserve ch) (delta_position_shares ch) = Some p'"
    "transfer C a (protocol_account C) who (bu_amount (delta_reserve d)) w2 = Inr w3"
    "bu_merge (total_delta_hub_reserve d) (Increase (lp_hub_amount ch)) = Some dh"
    "update_hub_asset_liquidity C dh (ensure_q0_snapshot a (hub_reserve st) s\<lparr>world := w3\<rparr>) = Inr s4"
    "process_hub_amount C (lp_hub_amount ch) who s4 = Inr s5"
    "(if pos_shares p' = 0 then
        tryR (foreign (nft_burn C i (Some who) (world s5))) (\<lambda>w6.
        Inr (emit (PositionDestroyed i who)
          (s5\<lparr>positions := (positions s5)(i := None), world := w6\<rparr>)))
      else
        tryR (ok_or (price_from_rational (oarith C) p') (Arithmetic Arith_DivisionByZero)) (\<lambda>price.
        Inr (emit (PositionUpdated i who a (pos_amount p') (pos_shares p') price) s5
               \<lparr>positions := (positions (emit (PositionUpdated i who a (pos_amount p') (pos_shares p') price) s5))
                  (i \<mapsto> p')\<rparr>))) = (Inr s7 :: 'w omnipool omnipool_result)"
    "on_liquidity_changed C orig info (world s7) = Inr w10"
    "ensure_liquidity_invariant st st' = Inr ()"
    "s' = emit ev (set_asset_state a st' s7)\<lparr>world := w10\<rparr>" "out = bu_amount (delta_reserve d)"
proof -
  from assms [unfolded do_remove_liquidity_def Let_def]
  show thesis
    by (elim run_elims) (rule that, simp add: res_iff, assumption, assumption, assumption, assumption, rule refl,
        assumption, assumption, simp, assumption, assumption, assumption, assumption, assumption, rule refl,
        assumption, assumption, assumption, assumption, assumption, simp, assumption, assumption, simp, simp,
        erule sym, erule sym)
qed

lemma withdraw_protocol_liquidity_cases:
  assumes "withdraw_protocol_liquidity C orig a n pr dest s = Inr s'"
  obtains st ch d st' w1 dh s2 s3 info ev w6 where
    "authority_origin C orig" "load_asset_state C a s = Inr st" "n \<le> protocol_shares st"
    "calculate_remove_liquidity_state_changes (oarith C) st n \<lparr>pos_amount = 0, pos_shares = n, pos_price = pr\<rparr> 0
       = Some ch" "d = lp_asset ch"
    "delta_update st d = Some st'"
    "transfer C a (protocol_account C) dest (bu_amount (delta_reserve d)) (world s) = Inr w1"
    "bu_merge (total_delta_hub_reserve d) (Increase (lp_hub_amount ch)) = Some dh"
    "update_hub_asset_liquidity C dh (s\<lparr>world := w1\<rparr>) = Inr s2"
    "process_hub_amount C (lp_hub_amount ch) dest s2 = Inr s3"
    "on_liquidity_changed C orig info (world s3) = Inr w6"
    "s' = emit ev (set_asset_state a (st'\<lparr>protocol_shares := protocol_shares st' - n\<rparr>) s3)\<lparr>world := w6\<rparr>"
proof -
  from assms [unfolded withdraw_protocol_liquidity_def Let_def]
  show thesis
    by (elim run_elims) (rule that, assumption, assumption, assumption, assumption, rule refl, assumption, assumption,
        assumption, assumption, assumption, simp, simp add: saturating_sub_def, erule sym)
qed

lemma add_token_cases:
  assumes "add_token C orig a price wc owner s = Inr s'"
  obtains ed h n st i s2 s5 fs w6 w7 info e1 e2 pos where
    "authority_origin C orig" "assets s a = None" "registry_exists C (world s) a" "0 < price"
    "existential_deposit C (nft_create_collection C (world s)) a = Some ed" "0 < ed"
    "n = free_balance C (nft_create_collection C (world s)) a (protocol_account C)" "saturating_mul 128 ed 20 \<le> n"
    "fx_checked_mul_int (oarith C) price n = Some h"
    "create_and_mint_position_instance C owner (s\<lparr>world := nft_create_collection C (world s)\<rparr>) = Inr (i, s2)"
    "pos = \<lparr>pos_amount = n, pos_shares = n, pos_price = (price, fx_one), pos_asset_id = a\<rparr>"
    "st = \<lparr>as_hub_reserve = h, as_shares = n, as_protocol_shares = 0,
       as_cap = fx_of_permill (oarith C) wc, as_tradable = tradability_default\<rparr>"
    "update_hub_asset_liquidity C (Increase h) (emit e1 (s2\<lparr>positions := (positions s2)(i \<mapsto> pos)\<rparr>)) = Inr s5"
    "on_liquidity_changed C orig info (world s5) = Inr w6"
    "fee_get_and_store C (a, free_balance C (world s5) a (protocol_account C)) w6 = (fs, w7)"
    "s' = emit e2 (s5\<lparr>world := w7, assets := (assets s5)(a \<mapsto> st)\<rparr>)"
proof -
  from assms [unfolded add_token_def Let_def]
  show thesis
    by (elim run_elims conjE) (rule that, assumption, assumption, assumption, assumption, assumption, assumption,
        rule refl, assumption, assumption, assumption, rule refl, rule refl, assumption, assumption, assumption, erule sym)
qed

section \<open>Preservation\<close>

lemma hub_backed_upd:
  assumes "hub_backed C s" "assets s' = (assets s)(a \<mapsto> x)" "a \<noteq> hub_asset_id C" "hub_gap C s' = hub_gap C s"
  shows "hub_backed C s'"
  using assms by (simp add: hub_backed_def)

lemma hub_backed_load:
  assumes "hub_backed C s" "load_asset_state C a s = Inr st"
  shows "a \<noteq> hub_asset_id C" "finite (dom (assets s))"
  using assms by (auto simp: hub_backed_def elim!: load_asset_state_Inr)

lemma add_liquidity_delta:
  assumes "calculate_add_liquidity_state_changes A st n = Some ch"
  shows "\<exists>k. delta_shares (lp_asset ch) = Increase k" "delta_protocol_shares (lp_asset ch) = Increase 0"
  using assms by (auto simp: calculate_add_liquidity_state_changes_def ck_iff)

lemma remove_liquidity_delta:
  assumes "calculate_remove_liquidity_state_changes A st n p fee = Some ch"
  obtains k b where "delta_shares (lp_asset ch) = Decrease k" "delta_protocol_shares (lp_asset ch) = Increase b"
    "n = k + b" "delta_position_shares ch = Decrease n"
  using assms by (elim calculate_remove_liquidity_state_changes_cases) (rule that, simp_all)

context omnipool_env
begin

lemma do_add_liquidity_inv:
  assumes run: "do_add_liquidity C orig a n lim s = Inr (i, s')" and inv: "omnipool_inv C s"
  shows "omnipool_inv C s'"
  using run
proof (cases rule: do_add_liquidity_cases)
  case (1 who st fs w2 ch d st' s3 w6 s7 info e1 e2 w10 pos tot ratio)
  let ?t = "set_asset_state a st' s7"
  have hb: "hub_backed C s" and sb: "shares_backed s" using inv by (simp_all add: omnipool_inv_def)
  note a = hub_backed_load [OF hb 1(3)]
  have w2: "hub_bal C w2 = hub_bal C (world s)" using fee_ok [of _ "world s" "fst fs" "snd fs" w2] 1(5) by simp
  note s3 = create_and_mint_Inr [OF 1(13)]
  have w6: "hub_bal C w6 = hub_bal C (world s3)" using transfer_pool [OF 1(15), of "hub_asset_id C"] a by simp
  note s7 = update_hub_asset_liquidity_Inr [OF 1(16)]
  have as7: "assets s7 = assets s" and pos7: "positions s7 = (positions s)(i \<mapsto> pos)"
    and id7: "next_position_id s7 = i + 1" "i = next_position_id s" using s7 s3 by simp_all
  have gap7: "hub_gap C s7 = hub_gap C s - bu_val (total_delta_hub_reserve d)"
    using s7(4) s3 w2 w6 by (simp add: hub_gap_def)
  have "hub_gap C ?t = hub_gap C s7 + bu_val (total_delta_hub_reserve d)"
    using set_asset_state_gap [OF 1(3) _ 1(9), of s7] as7 a(2) by simp
  then have gap: "hub_gap C s' = hub_gap C s"
    using gap7 liquidity_hook_frame [OF 1(17)] 1(19) by (simp add: hub_gap_def)
  obtain x where x: "assets s a = Some x" "shares st = as_shares x" "protocol_shares st = as_protocol_shares x"
    using load_asset_state_Inr [OF 1(3)] .
  obtain k where k: "delta_shares d = Increase k" "delta_protocol_shares d = Increase 0"
    using add_liquidity_delta [OF 1(6)] 1(7) by auto
  have "positions s i = None" using sb id7(2) by (auto simp: shares_backed_def)
  then have "shares_backed s'"
    using shares_backed_upd [OF sb, of s' i "Some pos" a "asset_state_from_reserve_state st'"]
      delta_update_Some(3,4) [OF 1(9)] x k 1(14,19) as7 pos7 id7 by simp
  moreover have "hub_backed C s'" by (rule hub_backed_upd [OF hb _ a(1) gap]) (simp add: 1(19) as7)
  ultimately show ?thesis by (simp add: omnipool_inv_def)
qed

lemma position_update_Inr:
  assumes "(if pos_shares p' = 0 then
        tryR (foreign (nft_burn C i (Some who) (world s5))) (\<lambda>w6.
        Inr (emit e1 (s5\<lparr>positions := (positions s5)(i := None), world := w6\<rparr>)))
      else
        tryR (ok_or m er) (\<lambda>price.
        Inr (emit (e2 price) s5\<lparr>positions := (positions (emit (e2 price) s5))(i \<mapsto> p')\<rparr>))) =
      (Inr s7 :: 'w omnipool omnipool_result)"
  shows "positions s7 = (positions s5)(i := if pos_shares p' = 0 then None else Some p')"
    "assets s7 = assets s5" "next_position_id s7 = next_position_id s5" "hub_bal C (world s7) = hub_bal C (world s5)"
  using assms nft_burn_frame by (auto simp: res_iff split: if_splits)

lemma do_remove_liquidity_inv:
  assumes run: "do_remove_liquidity C orig i n lim s = Inr (out, s')" and inv: "omnipool_inv C s"
    and who: "orig \<noteq> Signed (protocol_account C)"
  shows "omnipool_inv C s'"
  using run
proof (cases rule: do_remove_liquidity_cases)
  case (1 who p a st fs w2 fee spot ext orp ch d st' p' w3 dh s4 s5 s7 info ev w10)
  let ?t = "set_asset_state a st' s7"
  have hb: "hub_backed C s" and sb: "shares_backed s" using inv by (simp_all add: omnipool_inv_def)
  note a = hub_backed_load [OF hb 1(7)]
  have "hub_bal C w2 = hub_bal C (world s)" using fee_ok [of _ "world s" "fst fs" "snd fs" w2] 1(9) by simp
  then have w3: "hub_bal C w3 = hub_bal C (world s)" using transfer_pool [OF 1(19), of "hub_asset_id C"] a by simp
  note s4 = update_hub_asset_liquidity_Inr [OF 1(21)]
  have "who \<noteq> protocol_account C" using who 1(1) by auto
  note s5 = process_hub_amount_Inr [OF 1(22) this] and s7 = position_update_Inr [OF 1(23)]
  have as7: "assets s7 = assets s" and id7: "next_position_id s7 = next_position_id s"
    and pos7: "positions s7 = (positions s)(i := if pos_shares p' = 0 then None else Some p')"
    using s7 s5 s4 by simp_all
  have dh: "bu_val dh = bu_val (total_delta_hub_reserve d) + int (lp_hub_amount ch)"
    using bu_checked_add_val [OF 1(20) [unfolded bu_merge_def]] by simp
  have "hub_gap C s7 = hub_gap C s - bu_val (total_delta_hub_reserve d)"
    using s7 s5(4) s4(4) dh w3 by (simp add: hub_gap_def)
  moreover have "hub_gap C ?t = hub_gap C s7 + bu_val (total_delta_hub_reserve d)"
    using set_asset_state_gap [OF 1(7) _ 1(17), of s7] as7 a(2) by simp
  ultimately have gap: "hub_gap C s' = hub_gap C s"
    using liquidity_hook_frame [OF 1(24)] 1(26) by (simp add: hub_gap_def)
  obtain x where x: "assets s a = Some x" "shares st = as_shares x" "protocol_shares st = as_protocol_shares x"
    using load_asset_state_Inr [OF 1(7)] .
  obtain k b where k: "delta_shares d = Decrease k" "delta_protocol_shares d = Increase b" "n = k + b"
      "delta_position_shares ch = Decrease n"
    using remove_liquidity_delta [OF 1(14)] 1(15) by blast
  have p': "pos_asset_id p' = a" "int (pos_shares p') = int (pos_shares p) - int n"
    using 1(6,18) k(4) by (auto simp: position_delta_update_def ck_iff dest: bu_apply_val)
  have "i < next_position_id s" using sb 1(4) by (auto simp: shares_backed_def)
  have po: "opt_val pos_shares (if pos_shares p' = 0 then None else Some p') = pos_shares p'" by simp
  have "shares_backed s'"
  proof (rule shares_backed_upd [OF sb, of s' i "if pos_shares p' = 0 then None else Some p'" a
        "asset_state_from_reserve_state st'"])
    show "positions s' = (positions s)(i := if pos_shares p' = 0 then None else Some p')"
      "assets s' = (assets s)(a \<mapsto> asset_state_from_reserve_state st')"
      using 1(26) pos7 as7 by simp_all
    show "next_position_id s \<le> next_position_id s'" "i < next_position_id s'"
      using 1(26) id7 \<open>i < next_position_id s\<close> by simp_all
    show "pos_asset_id q = a" if "positions s i = Some q" for q using that 1(4,6) by simp
    show "pos_asset_id q = a" if "(if pos_shares p' = 0 then None else Some p') = Some q" for q
      using that p'(1) by (simp split: if_splits)
    show "int (as_shares (asset_state_from_reserve_state st')) - int (opt_val as_shares (assets s a)) =
      int (opt_val pos_shares (if pos_shares p' = 0 then None else Some p')) - int (opt_val pos_shares (positions s i)) +
      int (as_protocol_shares (asset_state_from_reserve_state st')) - int (opt_val as_protocol_shares (assets s a))"
      using delta_update_Some(3,4) [OF 1(17)] x k p'(2) 1(4) unfolding po by simp
  qed
  moreover have "hub_backed C s'" by (rule hub_backed_upd [OF hb _ a(1) gap]) (simp add: 1(26) as7)
  ultimately show ?thesis by (simp add: omnipool_inv_def)
qed

lemma withdraw_protocol_liquidity_inv:
  assumes run: "withdraw_protocol_liquidity C orig a n pr dest s = Inr s'" and inv: "omnipool_inv C s"
    and dest: "dest \<noteq> protocol_account C"
  shows "omnipool_inv C s'"
  using run
proof (cases rule: withdraw_protocol_liquidity_cases)
  case (1 st ch d st' w1 dh s2 s3 info ev w6)
  let ?y = "st'\<lparr>protocol_shares := protocol_shares st' - n\<rparr>"
  have hb: "hub_backed C s" and sb: "shares_backed s" using inv by (simp_all add: omnipool_inv_def)
  note a = hub_backed_load [OF hb 1(2)]
  have w1: "hub_bal C w1 = hub_bal C (world s)" using transfer_pool [OF 1(7), of "hub_asset_id C"] a by simp
  note s2 = update_hub_asset_liquidity_Inr [OF 1(9)] and s3 = process_hub_amount_Inr [OF 1(10) dest]
  have as3: "assets s3 = assets s" and pos3: "positions s3 = positions s" "next_position_id s3 = next_position_id s"
    using s3 s2 by simp_all
  have dh: "bu_val dh = bu_val (total_delta_hub_reserve d) + int (lp_hub_amount ch)"
    using bu_checked_add_val [OF 1(8) [unfolded bu_merge_def]] by simp
  have gap3: "hub_gap C s3 = hub_gap C s - bu_val (total_delta_hub_reserve d)"
    using s3(4) s2(4) dh w1 by (simp add: hub_gap_def)
  obtain x where x: "assets s a = Some x" "shares st = as_shares x" "protocol_shares st = as_protocol_shares x"
      "hub_reserve st = as_hub_reserve x"
    using load_asset_state_Inr [OF 1(2)] by metis
  have "hub_gap C (set_asset_state a ?y s3) = hub_gap C s"
    using hub_gap_upd [of s3 "set_asset_state a ?y s3" a "asset_state_from_reserve_state ?y" C]
      delta_update_Some(2) [OF 1(6)] gap3 x as3 a(2) by simp
  then have gap: "hub_gap C s' = hub_gap C s"
    using liquidity_hook_frame [OF 1(11)] 1(12) by (simp add: hub_gap_def)
  obtain k b where k: "delta_shares d = Decrease k" "delta_protocol_shares d = Increase b" "n = k + b"
    using remove_liquidity_delta [OF 1(4)] 1(5) by blast
  have "shares_backed s'"
    using shares_backed_set [OF sb, of s' a "Some (asset_state_from_reserve_state ?y)"]
      delta_update_Some(3,4) [OF 1(6)] x k 1(3,12) as3 pos3 by simp
  moreover have "hub_backed C s'" by (rule hub_backed_upd [OF hb _ a(1) gap]) (simp add: 1(12) as3)
  ultimately show ?thesis by (simp add: omnipool_inv_def)
qed

lemma sacrifice_position_inv:
  assumes run: "sacrifice_position C orig i s = Inr s'" and inv: "omnipool_inv C s"
  shows "omnipool_inv C s'"
proof -
  from run [unfolded sacrifice_position_def Let_def]
  obtain who p x ps w where p: "positions s i = Some p" "assets s (pos_asset_id p) = Some x"
      "checked_add 128 (as_protocol_shares x) (pos_shares p) = Some ps"
    and w: "nft_burn C i (Some who) (world s) = Inr w"
    and s': "s' = emit (PositionDestroyed i who)
      (s\<lparr>assets := (assets s)(pos_asset_id p \<mapsto> x\<lparr>as_protocol_shares := ps\<rparr>), positions := (positions s)(i := None), world := w\<rparr>)"
    by (elim run_elims) (rule that, assumption, assumption, assumption, simp, simp)
  let ?a = "pos_asset_id p"
  have hb: "hub_backed C s" and sb: "shares_backed s" using inv by (simp_all add: omnipool_inv_def)
  have ps: "ps = as_protocol_shares x + pos_shares p" using p(3) by (auto simp: ck_iff)
  have "shares_backed s'"
    by (rule shares_backed_upd [OF sb, of s' i None ?a "x\<lparr>as_protocol_shares := ps\<rparr>"]) (simp_all add: s' p ps)
  moreover have "hub_gap C s' = hub_gap C s"
    using hub_gap_upd [of s s' ?a "x\<lparr>as_protocol_shares := ps\<rparr>" C] nft_burn_frame [OF w] hb p
    by (simp add: s' hub_backed_def)
  then have "hub_backed C s'" using hb p(2) by (auto simp: s' hub_backed_def)
  ultimately show ?thesis by (simp add: omnipool_inv_def)
qed

lemma add_token_inv:
  assumes run: "add_token C orig a price wc owner s = Inr s'" and inv: "omnipool_inv C s"
    and a: "a \<noteq> hub_asset_id C"
  shows "omnipool_inv C s'"
  using run
proof (cases rule: add_token_cases)
  case (1 ed h n st i s2 s5 fs w6 w7 info e1 e2 pos)
  have hb: "hub_backed C s" and sb: "shares_backed s" using inv by (simp_all add: omnipool_inv_def)
  note s2 = create_and_mint_Inr [OF 1(10)] and s5 = update_hub_asset_liquidity_Inr [OF 1(13)]
  have as5: "assets s5 = assets s" and pos5: "positions s5 = (positions s)(i \<mapsto> pos)"
    and id5: "next_position_id s5 = i + 1" "i = next_position_id s" using s5 s2 by simp_all
  have gap5: "hub_gap C s5 = hub_gap C s - int h"
    using s5(4) s2 nft_create_frame by (simp add: hub_gap_def)
  have w7: "hub_bal C w7 = hub_bal C (world s5)"
    using fee_ok [of _ w6 "fst fs" "snd fs" w7] liquidity_hook_frame [OF 1(14)] 1(15) by simp
  have gap: "hub_gap C s' = hub_gap C s"
    using hub_gap_upd [of s5 s' a st C] hb gap5 w7 as5 1(2,12,16) by (simp add: hub_backed_def)
  have "positions s i = None" using sb id5(2) by (auto simp: shares_backed_def)
  then have "shares_backed s'"
    using shares_backed_upd [OF sb, of s' i "Some pos" a st] 1(2,11,12,16) as5 pos5 id5 by simp
  moreover have "hub_backed C s'" by (rule hub_backed_upd [OF hb _ a gap]) (simp add: 1(16) as5)
  ultimately show ?thesis by (simp add: omnipool_inv_def)
qed

lemma remove_token_inv:
  assumes run: "remove_token C orig a ben s = Inr s'" and inv: "omnipool_inv C s"
  shows "omnipool_inv C s'"
proof -
  from run [unfolded remove_token_def Let_def]
  obtain st w1 w2 ev where st: "load_asset_state C a s = Inr st" "shares st = protocol_shares st"
    and w: "withdraw C (hub_asset_id C) (protocol_account C) (hub_reserve st) (world s) = Inr w1"
      "transfer C a (protocol_account C) ben (reserve st) w1 = Inr w2"
    and s': "s' = emit ev (s\<lparr>world := w2, assets := (assets s)(a := None)\<rparr>)"
    by (elim run_elims) (rule that, assumption, assumption, assumption, assumption, erule sym)
  have hb: "hub_backed C s" and sb: "shares_backed s" using inv by (simp_all add: omnipool_inv_def)
  note a = hub_backed_load [OF hb st(1)]
  obtain x where x: "assets s a = Some x" "shares st = as_shares x" "protocol_shares st = as_protocol_shares x"
      "hub_reserve st = as_hub_reserve x"
    using load_asset_state_Inr [OF st(1)] by metis
  have "hub_bal C w2 + hub_reserve st = hub_bal C (world s)"
    using withdraw_pool [OF w(1), of "hub_asset_id C"] withdraw_enough [OF w(1)]
      transfer_pool [OF w(2), of "hub_asset_id C"] a by simp
  then have "hub_gap C s' = hub_gap C s"
    using map_sum_remove [OF a(2), of as_hub_reserve a] x(1,4) by (simp add: hub_gap_def s')
  then have "hub_backed C s'" using hb by (simp add: hub_backed_def s')
  moreover have "shares_backed s'"
    by (rule shares_backed_set [OF sb, of s' a None]) (use x st(2) in \<open>simp_all add: s'\<close>)
  ultimately show ?thesis by (simp add: omnipool_inv_def)
qed

lemma set_asset_field_inv:
  assumes "omnipool_inv C s" "assets s a = Some x" "assets s' = (assets s)(a \<mapsto> y)" "world s' = world s"
    "positions s' = positions s" "next_position_id s' = next_position_id s"
    "as_hub_reserve y = as_hub_reserve x" "as_shares y = as_shares x" "as_protocol_shares y = as_protocol_shares x"
  shows "omnipool_inv C s'"
proof (rule same_lp_inv [OF _ _ assms(1)])
  show "same_lp s s'" using assms by (auto simp: same_lp_def share_view_def)
  show "hub_gap C s' = hub_gap C s"
    using hub_gap_upd [of s s' a y C] assms by (simp add: omnipool_inv_def hub_backed_def)
qed

lemma set_asset_tradable_state_inv:
  assumes run: "set_asset_tradable_state C orig a t s = Inr s'" and inv: "omnipool_inv C s"
  shows "omnipool_inv C s'"
proof (cases "a = hub_asset_id C")
  case True
  then have "keeps C s s'" using run by (auto simp: set_asset_tradable_state_def res_iff keeps_def)
  then show ?thesis using same_lp_inv [OF keeps_same_lp keeps_gap inv] by simp
next
  case False
  then obtain x where "assets s a = Some x"
      "s' = emit (TradableStateUpdated a t) (s\<lparr>assets := (assets s)(a \<mapsto> x\<lparr>as_tradable := t\<rparr>)\<rparr>)"
    using run by (auto simp: set_asset_tradable_state_def res_iff)
  then show ?thesis using set_asset_field_inv [OF inv, of a x s' "x\<lparr>as_tradable := t\<rparr>"] by simp
qed

lemma set_asset_weight_cap_inv:
  assumes run: "set_asset_weight_cap C orig a wc s = Inr s'" and inv: "omnipool_inv C s"
  shows "omnipool_inv C s'"
proof -
  obtain x where "assets s a = Some x" "s' = emit (AssetWeightCapUpdated a wc)
      (s\<lparr>assets := (assets s)(a \<mapsto> x\<lparr>as_cap := fx_of_permill (oarith C) wc\<rparr>)\<rparr>)"
    using run by (auto simp: set_asset_weight_cap_def res_iff)
  then show ?thesis
    using set_asset_field_inv [OF inv, of a x s' "x\<lparr>as_cap := fx_of_permill (oarith C) wc\<rparr>"] by simp
qed

lemma refund_refused_asset_keeps:
  assumes "refund_refused_asset C orig a n r s = Inr s'"
  shows "keeps C s s'"
  using assms transfer_pool [of a "protocol_account C" r n "world s" _ "hub_asset_id C"]
  by (auto simp: refund_refused_asset_def res_iff keeps_def)

lemma set_slip_fee_keeps: "set_slip_fee C orig cfg s = Inr s' \<Longrightarrow> keeps C s s'"
  by (auto simp: set_slip_fee_def res_iff keeps_def)

lemma on_finalize_keeps: "keeps C s (omnipool_on_finalize s)"
  by (simp add: omnipool_on_finalize_def keeps_def)

lemma keeps_inv: "keeps C s s' \<Longrightarrow> omnipool_inv C s \<Longrightarrow> omnipool_inv C s'"
  by (rule same_lp_inv [OF keeps_same_lp keeps_gap])

end

end
