(* ===== verification/Omnipool_Instance.thy ===== *)
theory Omnipool_Instance
  imports Omnipool_Invariants
begin

text \<open>
  A complete runtime around the Omnipool pallet: a ledger of balances, a register of the owners of
  position NFTs, constant fees, a fee receiver that is paid half of the asset fee, and hooks that
  do nothing. It meets \<open>omnipool_env\<close>; the witnesses of the pallet run on it.
\<close>

record std_world =
  sw_ledger :: ledger
  sw_nft :: "nat \<rightharpoonup> account_id"

definition on_ledger :: "(ledger \<Rightarrow> nat + ledger) \<Rightarrow> std_world \<Rightarrow> nat + std_world" where
  "on_ledger f w = (case f (sw_ledger w) of Inl e \<Rightarrow> Inl e | Inr l \<Rightarrow> Inr (w\<lparr>sw_ledger := l\<rparr>))"

lemma on_ledger_Inr [res_iff]: "on_ledger f w = Inr w' \<longleftrightarrow> (\<exists>l. f (sw_ledger w) = Inr l \<and> w' = w\<lparr>sw_ledger := l\<rparr>)"
  by (auto simp: on_ledger_def split: sum.splits)

definition fee_receiver :: account_id where
  "fee_receiver = 77"

definition std_trade_fee ::
    "account_id \<Rightarrow> asset_id \<Rightarrow> balance \<Rightarrow> std_world \<Rightarrow> nat + ((balance \<times> account_id) option list \<times> std_world)" where
  "std_trade_fee src a n w =
     tryR (on_ledger (ledger_transfer a src fee_receiver (n div 2)) w) (\<lambda>w'. Inr ([Some (n div 2, fee_receiver)], w'))"

definition std_omnipool_config :: "std_world omnipool_config" where
  "std_omnipool_config = \<lparr>
     free_balance = (\<lambda>w. ledger_free (sw_ledger w)), total_balance = (\<lambda>w. ledger_free (sw_ledger w)),
     can_withdraw = (\<lambda>w a x n. n \<le> ledger_free (sw_ledger w) a x),
     transfer = (\<lambda>a x y n. on_ledger (ledger_transfer a x y n)),
     deposit = (\<lambda>a x n. on_ledger (ledger_deposit a x n)),
     withdraw = (\<lambda>a x n. on_ledger (ledger_withdraw a x n)),
     oarith = std_arith, authority_origin = (\<lambda>orig. orig = Root), update_tradability_origin = (\<lambda>orig. orig = Root),
     registry_exists = (\<lambda>w a. True), existential_deposit = (\<lambda>w a. Some 10),
     hdx_asset_id = 0, hub_asset_id = 1,
     fee_get = (\<lambda>w k. (2500, 500)), fee_get_and_store = (\<lambda>k w. ((2500, 500), w)),
     min_withdrawal_fee = 100000000000000, minimum_trading_limit = 1000, minimum_pool_liquidity = 1000,
     max_in_ratio = 3, max_out_ratio = 3, position_id_width = 128, protocol_account = 100,
     nft_create_collection = (\<lambda>w. w), nft_owner = (\<lambda>w. sw_nft w),
     nft_mint_into = (\<lambda>i x w. if sw_nft w i = None then Inr (w\<lparr>sw_nft := (sw_nft w)(i \<mapsto> x)\<rparr>) else Inl 3),
     nft_burn = (\<lambda>i x w. if x = sw_nft w i then Inr (w\<lparr>sw_nft := (sw_nft w)(i := None)\<rparr>) else Inl 4),
     on_liquidity_changed = (\<lambda>_ _ w. Inr w), on_trade = (\<lambda>_ _ _ w. Inr w), on_hub_asset_trade = (\<lambda>_ _ w. Inr w),
     on_trade_fee = (\<lambda>src _ a n w. std_trade_fee src a n w),
     barrier_ensure_price = (\<lambda>_ _ _ _ _. True), oracle_get_price = (\<lambda>_ _ _. Inr (1, 1)),
     burn_protocol_fee = 500000\<rparr>"

lemma std_omnipool_config_sel [simp]:
  "free_balance std_omnipool_config = (\<lambda>w. ledger_free (sw_ledger w))"
  "total_balance std_omnipool_config = (\<lambda>w. ledger_free (sw_ledger w))"
  "can_withdraw std_omnipool_config = (\<lambda>w a x n. n \<le> ledger_free (sw_ledger w) a x)"
  "transfer std_omnipool_config = (\<lambda>a x y n. on_ledger (ledger_transfer a x y n))"
  "deposit std_omnipool_config = (\<lambda>a x n. on_ledger (ledger_deposit a x n))"
  "withdraw std_omnipool_config = (\<lambda>a x n. on_ledger (ledger_withdraw a x n))"
  "oarith std_omnipool_config = std_arith"
  "authority_origin std_omnipool_config = (\<lambda>orig. orig = Root)"
  "update_tradability_origin std_omnipool_config = (\<lambda>orig. orig = Root)"
  "registry_exists std_omnipool_config = (\<lambda>w a. True)"
  "existential_deposit std_omnipool_config = (\<lambda>w a. Some 10)"
  "hdx_asset_id std_omnipool_config = 0" "hub_asset_id std_omnipool_config = 1"
  "fee_get std_omnipool_config = (\<lambda>w k. (2500, 500))"
  "fee_get_and_store std_omnipool_config = (\<lambda>k w. ((2500, 500), w))"
  "min_withdrawal_fee std_omnipool_config = 100000000000000"
  "minimum_trading_limit std_omnipool_config = 1000" "minimum_pool_liquidity std_omnipool_config = 1000"
  "max_in_ratio std_omnipool_config = 3" "max_out_ratio std_omnipool_config = 3"
  "position_id_width std_omnipool_config = 128" "protocol_account std_omnipool_config = 100"
  "nft_create_collection std_omnipool_config = (\<lambda>w. w)" "nft_owner std_omnipool_config = (\<lambda>w. sw_nft w)"
  "nft_mint_into std_omnipool_config =
     (\<lambda>i x w. if sw_nft w i = None then Inr (w\<lparr>sw_nft := (sw_nft w)(i \<mapsto> x)\<rparr>) else Inl 3)"
  "nft_burn std_omnipool_config =
     (\<lambda>i x' w. if x' = sw_nft w i then Inr (w\<lparr>sw_nft := (sw_nft w)(i := None)\<rparr>) else Inl 4)"
  "on_liquidity_changed std_omnipool_config = (\<lambda>_ _ w. Inr w)"
  "on_trade std_omnipool_config = (\<lambda>_ _ _ w. Inr w)"
  "on_hub_asset_trade std_omnipool_config = (\<lambda>_ _ w. Inr w)"
  "on_trade_fee std_omnipool_config = (\<lambda>src _ a n w. std_trade_fee src a n w)"
  "barrier_ensure_price std_omnipool_config = (\<lambda>_ _ _ _ _. True)"
  "oracle_get_price std_omnipool_config = (\<lambda>_ _ _. Inr (1, 1))"
  "burn_protocol_fee std_omnipool_config = 500000"
  by (simp_all add: std_omnipool_config_def)

interpretation std_pool: omnipool_env std_omnipool_config
proof (intro omnipool_env.intro omnipool_env_axioms.intro pool_ledger.intro, goal_cases)
  case (1 w a x)
  show ?case by (simp add: ledger_free_def)
next
  case (2 a src dst n w w' b)
  then show ?case
    using std_ledger.transfer_pool [of a src dst n "sw_ledger w" _ b 100] by (auto simp: res_iff)
next
  case (3 a dst n w w')
  then show ?case using std_ledger.transfer_enough [of a 100 dst n "sw_ledger w"] by (auto simp: res_iff)
next
  case (4 a n w w' b)
  then show ?case using std_ledger.deposit_pool [of a 100 n "sw_ledger w" _ b] by (auto simp: res_iff)
next
  case (5 a n w w' b)
  then show ?case using std_ledger.withdraw_pool [of a 100 n "sw_ledger w" _ b] by (auto simp: res_iff)
next
  case (6 a n w w')
  then show ?case using std_ledger.withdraw_enough [of a 100 n "sw_ledger w"] by (auto simp: res_iff)
next
  case 7
  show ?case by (simp add: std.sp_arith_axioms)
next
  case (16 x y a n w l w')
  then show ?case
    using std_ledger.transfer_pool [of a x fee_receiver "n div 2" "sw_ledger w" _ 1 100]
    by (auto simp: std_trade_fee_def res_iff)
qed (auto simp: permill_one_def split: if_splits)

section \<open>A pool of two assets\<close>

text \<open>HDX and asset 2, each with one position; account 7 trades.\<close>

definition sample_world :: std_world where
  "sample_world = \<lparr>
     sw_ledger = (\<lambda>_. 0)((0, 100) := 1000000000, (1, 100) := 3000000000, (2, 100) := 1000000000,
       (1, 7) := 1000000, (2, 7) := 1000000),
     sw_nft = [0 \<mapsto> 5, 1 \<mapsto> 7]\<rparr>"

definition sample_pool :: "std_world omnipool" where
  "sample_pool = \<lparr>
     assets = [0 \<mapsto> \<lparr>as_hub_reserve = 1000000000, as_shares = 1000000000, as_protocol_shares = 0,
                    as_cap = fx_one, as_tradable = tradability_default\<rparr>,
               2 \<mapsto> \<lparr>as_hub_reserve = 2000000000, as_shares = 1000000000, as_protocol_shares = 100000000,
                    as_cap = fx_one, as_tradable = tradability_default\<rparr>],
     hub_asset_tradability = SELL,
     positions = [0 \<mapsto> \<lparr>pos_amount = 1000000000, pos_shares = 1000000000, pos_price = (1, 1), pos_asset_id = 0\<rparr>,
                  1 \<mapsto> \<lparr>pos_amount = 900000000, pos_shares = 900000000, pos_price = (2, 1), pos_asset_id = 2\<rparr>],
     next_position_id = 2, slip_fee = None, slip_fee_hub_reserve_at_block_start = Map.empty,
     slip_fee_delta = (\<lambda>_. sb_zero),
     bcast = \<lparr>incremental_id = 0, execution_context = [], swapper = None, swapped_events = []\<rparr>,
     omnipool_events = [], world = sample_world\<rparr>"

lemmas pool_eval = sample_pool_def sample_world_def ledger_free_def ledger_transfer_def ledger_deposit_def
  ledger_withdraw_def on_ledger_def std_trade_fee_def fee_receiver_def load_asset_state_def
  reserve_state_from_asset_state_def asset_state_from_reserve_state_def ensure_signed_def
  std_arith_sel permill_one_def fx_one_def ck_eval contains_def allow_assets_def
  tradability_default_def SELL_def BUY_def ADD_LIQUIDITY_def REMOVE_LIQUIDITY_def FROZEN_def set_asset_state_def emit_def
  update_hub_asset_liquidity_def total_delta_hub_reserve_def bu_saturating_merge_def bu_merge_def delta_update_def
  process_trade_fee_def asset_state_change_default_def bu_default_def foreign_def map_filter_simps

lemmas sell_eval = pool_eval sell_def hub_balance_excluding_swap_assets_def load_trade_slip_fees_def
  calculate_sell_state_changes_def amount_without_fee_def settle_trade_def account_for_fee_taken_def
  asc_account_for_fee_taken_def calculate_burn_amount_based_on_fee_taken_def update_slip_fee_delta_def
  process_protocol_fee_def increase_hdx_subpool_hub_reserve_def of_broadcast_def add_to_context_def remove_from_context_def
  deposit_trade_event_def get_context_def MAX_STACK_SIZE_def ensure_trade_invariant_def

lemma sample_sell:
  "\<exists>s'. sell std_omnipool_config (Signed 7) 2 0 100000 199000 sample_pool = Inr s' \<and>
     omnipool_events s' = [SellExecuted 7 2 0 100000 199341 199980 200132 500 99]"
  by (simp add: sell_eval)

end
