(* ===== verification/Omnipool_Runs.thy ===== *)
theory Omnipool_Runs
  imports Omnipool_Positions Omnipool_Instance
begin

text \<open>
  Sequences of Omnipool dispatches: every extrinsic as a value of \<open>omnipool_call\<close>, the transitions
  of the pallet as the step relation \<open>omnipool_step\<close> (a successful call, the end of a block, or the rest of the
  runtime acting on the world without touching the hub asset of the protocol account), and the
  states reachable by them. The invariant of \<open>Omnipool_Positions\<close> holds in all of them, and
  with it the checks of the pallet's \<open>try_state\<close>.
\<close>

section \<open>Calls\<close>

datatype omnipool_call =
    Call_add_token asset_id nat nat account_id
  | Call_add_liquidity asset_id balance
  | Call_add_liquidity_with_limit asset_id balance balance
  | Call_add_all_liquidity asset_id balance
  | Call_remove_liquidity nat balance
  | Call_remove_liquidity_with_limit nat balance balance
  | Call_remove_all_liquidity nat balance
  | Call_sacrifice_position nat
  | Call_sell asset_id asset_id balance balance
  | Call_buy asset_id asset_id balance balance
  | Call_set_asset_tradable_state asset_id tradability
  | Call_refund_refused_asset asset_id balance account_id
  | Call_set_asset_weight_cap asset_id nat
  | Call_withdraw_protocol_liquidity asset_id balance "balance \<times> balance" account_id
  | Call_remove_token asset_id account_id
  | Call_set_slip_fee "slip_fee_config option"

fun omnipool_dispatch ::
    "'w omnipool_config \<Rightarrow> origin \<Rightarrow> omnipool_call \<Rightarrow> 'w omnipool \<Rightarrow> 'w omnipool omnipool_result" where
  "omnipool_dispatch C orig (Call_add_token a price wc owner) s = add_token C orig a price wc owner s"
| "omnipool_dispatch C orig (Call_add_liquidity a n) s = add_liquidity C orig a n s"
| "omnipool_dispatch C orig (Call_add_liquidity_with_limit a n lim) s = add_liquidity_with_limit C orig a n lim s"
| "omnipool_dispatch C orig (Call_add_all_liquidity a lim) s = add_all_liquidity C orig a lim s"
| "omnipool_dispatch C orig (Call_remove_liquidity i n) s = remove_liquidity C orig i n s"
| "omnipool_dispatch C orig (Call_remove_liquidity_with_limit i n lim) s =
     remove_liquidity_with_limit C orig i n lim s"
| "omnipool_dispatch C orig (Call_remove_all_liquidity i lim) s = remove_all_liquidity C orig i lim s"
| "omnipool_dispatch C orig (Call_sacrifice_position i) s = sacrifice_position C orig i s"
| "omnipool_dispatch C orig (Call_sell a_in a_out n lim) s = sell C orig a_in a_out n lim s"
| "omnipool_dispatch C orig (Call_buy a_out a_in n lim) s = buy C orig a_out a_in n lim s"
| "omnipool_dispatch C orig (Call_set_asset_tradable_state a t) s = set_asset_tradable_state C orig a t s"
| "omnipool_dispatch C orig (Call_refund_refused_asset a n r) s = refund_refused_asset C orig a n r s"
| "omnipool_dispatch C orig (Call_set_asset_weight_cap a wc) s = set_asset_weight_cap C orig a wc s"
| "omnipool_dispatch C orig (Call_withdraw_protocol_liquidity a n p dest) s =
     withdraw_protocol_liquidity C orig a n p dest s"
| "omnipool_dispatch C orig (Call_remove_token a ben) s = remove_token C orig a ben s"
| "omnipool_dispatch C orig (Call_set_slip_fee cfg) s = set_slip_fee C orig cfg s"

text \<open>
  The protocol account signs nothing, governance does not list the hub asset and does not send
  protocol liquidity to the pool itself. The pallet checks none of the three.
\<close>

fun admissible :: "'w omnipool_config \<Rightarrow> origin \<Rightarrow> omnipool_call \<Rightarrow> bool" where
  "admissible C orig (Call_add_token a price wc owner) = (a \<noteq> hub_asset_id C)"
| "admissible C orig (Call_withdraw_protocol_liquidity a n p dest) = (dest \<noteq> protocol_account C)"
| "admissible C orig c = (orig \<noteq> Signed (protocol_account C))"

inductive omnipool_step :: "'w omnipool_config \<Rightarrow> 'w omnipool \<Rightarrow> 'w omnipool \<Rightarrow> bool"
  for C :: "'w omnipool_config" where
  call: "omnipool_dispatch C orig c s = Inr s' \<Longrightarrow> admissible C orig c \<Longrightarrow> omnipool_step C s s'"
| block_end: "omnipool_step C s (omnipool_on_finalize s)"
| world_moves: "hub_bal C w = hub_bal C (world s) \<Longrightarrow> omnipool_step C s (s\<lparr>world := w\<rparr>)"

inductive omnipool_reach :: "'w omnipool_config \<Rightarrow> 'w omnipool \<Rightarrow> 'w omnipool \<Rightarrow> bool"
  for C :: "'w omnipool_config" where
  here: "omnipool_reach C s s"
| step: "omnipool_reach C s s' \<Longrightarrow> omnipool_step C s' s'' \<Longrightarrow> omnipool_reach C s s''"

text \<open>The pallet as genesis leaves it.\<close>

definition omnipool_genesis :: "'w \<Rightarrow> 'w omnipool" where
  "omnipool_genesis w = \<lparr>
     assets = Map.empty, hub_asset_tradability = SELL, positions = Map.empty, next_position_id = 0,
     slip_fee = None, slip_fee_hub_reserve_at_block_start = Map.empty, slip_fee_delta = (\<lambda>_. sb_zero),
     bcast = \<lparr>incremental_id = 0, execution_context = [], swapper = None, swapped_events = []\<rparr>,
     omnipool_events = [], world = w\<rparr>"

section \<open>The checks of \<open>try_state\<close>\<close>

text \<open>The sums and the difference wrap around, as in a release build.\<close>

definition try_state :: "'w omnipool_config \<Rightarrow> 'w omnipool \<Rightarrow> bool" where
  "try_state C s \<longleftrightarrow>
     map_sum as_hub_reserve (assets s) mod 2 ^ 128 = hub_bal C (world s) \<and>
     (\<forall>p\<in>ran (positions s). \<exists>x. assets s (pos_asset_id p) = Some x \<and>
        (as_shares x + 2 ^ 128 - as_protocol_shares x) mod 2 ^ 128 =
          position_shares s (pos_asset_id p) mod 2 ^ 128)"

lemma genesis_inv: "hub_bal C w = 0 \<Longrightarrow> omnipool_inv C (omnipool_genesis w)"
  by (simp add: omnipool_inv_def hub_backed_def shares_backed_def hub_gap_def omnipool_genesis_def position_shares_def)

lemma position_shares_ge:
  assumes "shares_backed s" "positions s i = Some p"
  shows "pos_shares p \<le> position_shares s (pos_asset_id p)"
proof -
  have "finite (dom (positions s))" using assms(1) by (simp add: shares_backed_def)
  from map_sum_remove [OF this, of "\<lambda>q. if pos_asset_id q = pos_asset_id p then pos_shares q else 0" i]
  show ?thesis using assms(2) by (simp add: position_shares_def)
qed

context omnipool_env
begin

lemma add_calls_inv:
  assumes "omnipool_inv C s"
  shows "add_liquidity_with_limit C orig a n lim s = Inr s' \<Longrightarrow> omnipool_inv C s'"
    and "add_liquidity C orig a n s = Inr s' \<Longrightarrow> omnipool_inv C s'"
    and "add_all_liquidity C orig a lim s = Inr s' \<Longrightarrow> omnipool_inv C s'"
  using do_add_liquidity_inv [OF _ assms]
  by (auto simp: add_liquidity_def add_liquidity_with_limit_def add_all_liquidity_def res_iff Let_def)

lemma remove_calls_inv:
  assumes "omnipool_inv C s" "orig \<noteq> Signed (protocol_account C)"
  shows "remove_liquidity_with_limit C orig i n lim s = Inr s' \<Longrightarrow> omnipool_inv C s'"
    and "remove_liquidity C orig i n s = Inr s' \<Longrightarrow> omnipool_inv C s'"
    and "remove_all_liquidity C orig i lim s = Inr s' \<Longrightarrow> omnipool_inv C s'"
  using do_remove_liquidity_inv [OF _ assms]
  by (auto simp: remove_liquidity_def remove_liquidity_with_limit_def remove_all_liquidity_def res_iff)

lemma trade_calls_inv:
  assumes "omnipool_inv C s" "orig \<noteq> Signed (protocol_account C)"
  shows "sell C orig a b n lim s = Inr s' \<Longrightarrow> omnipool_inv C s'"
    and "buy C orig a b n lim s = Inr s' \<Longrightarrow> omnipool_inv C s'"
proof -
  have fin: "finite (dom (assets s))" using assms(1) by (simp add: omnipool_inv_def hub_backed_def)
  show "sell C orig a b n lim s = Inr s' \<Longrightarrow> omnipool_inv C s'"
    "buy C orig a b n lim s = Inr s' \<Longrightarrow> omnipool_inv C s'"
    using sell_accounting [OF _ fin assms(2)] buy_accounting [OF _ fin assms(2)] same_lp_inv [OF _ _ assms(1)]
    by blast+
qed

lemma dispatch_inv:
  assumes "omnipool_dispatch C orig c s = Inr s'" "admissible C orig c" "omnipool_inv C s"
  shows "omnipool_inv C s'"
proof (cases c)
  case Call_add_token
  with assms show ?thesis by (simp only: omnipool_dispatch.simps admissible.simps) (rule add_token_inv)
next
  case Call_add_liquidity
  with assms show ?thesis by (simp only: omnipool_dispatch.simps admissible.simps) (rule add_calls_inv(2) [OF assms(3)])
next
  case Call_add_liquidity_with_limit
  with assms show ?thesis by (simp only: omnipool_dispatch.simps admissible.simps) (rule add_calls_inv(1) [OF assms(3)])
next
  case Call_add_all_liquidity
  with assms show ?thesis by (simp only: omnipool_dispatch.simps admissible.simps) (rule add_calls_inv(3) [OF assms(3)])
next
  case Call_remove_liquidity
  with assms show ?thesis by (simp only: omnipool_dispatch.simps admissible.simps) (rule remove_calls_inv(2) [OF assms(3)])
next
  case Call_remove_liquidity_with_limit
  with assms show ?thesis by (simp only: omnipool_dispatch.simps admissible.simps) (rule remove_calls_inv(1) [OF assms(3)])
next
  case Call_remove_all_liquidity
  with assms show ?thesis by (simp only: omnipool_dispatch.simps admissible.simps) (rule remove_calls_inv(3) [OF assms(3)])
next
  case Call_sacrifice_position
  with assms show ?thesis by (simp only: omnipool_dispatch.simps admissible.simps) (rule sacrifice_position_inv)
next
  case Call_sell
  with assms show ?thesis by (simp only: omnipool_dispatch.simps admissible.simps) (rule trade_calls_inv(1) [OF assms(3)])
next
  case Call_buy
  with assms show ?thesis by (simp only: omnipool_dispatch.simps admissible.simps) (rule trade_calls_inv(2) [OF assms(3)])
next
  case Call_set_asset_tradable_state
  with assms show ?thesis by (simp only: omnipool_dispatch.simps admissible.simps) (rule set_asset_tradable_state_inv)
next
  case Call_refund_refused_asset
  with assms show ?thesis by (simp only: omnipool_dispatch.simps admissible.simps) (rule keeps_inv [OF refund_refused_asset_keeps])
next
  case Call_set_asset_weight_cap
  with assms show ?thesis by (simp only: omnipool_dispatch.simps admissible.simps) (rule set_asset_weight_cap_inv)
next
  case Call_withdraw_protocol_liquidity
  with assms show ?thesis by (simp only: omnipool_dispatch.simps admissible.simps) (rule withdraw_protocol_liquidity_inv)
next
  case Call_remove_token
  with assms show ?thesis by (simp only: omnipool_dispatch.simps admissible.simps) (rule remove_token_inv)
next
  case Call_set_slip_fee
  with assms show ?thesis by (simp only: omnipool_dispatch.simps admissible.simps) (rule keeps_inv [OF set_slip_fee_keeps])
qed

lemma step_inv: "omnipool_step C s s' \<Longrightarrow> omnipool_inv C s \<Longrightarrow> omnipool_inv C s'"
proof (induction rule: omnipool_step.induct)
  case (call orig c s s')
  then show ?case by (rule dispatch_inv)
next
  case (block_end s)
  then show ?case by (rule keeps_inv [OF on_finalize_keeps])
next
  case (world_moves w s)
  then have "keeps C s (s\<lparr>world := w\<rparr>)" by (simp add: keeps_def)
  then show ?case using world_moves(2) by (rule keeps_inv)
qed

lemma reach_inv: "omnipool_reach C s s' \<Longrightarrow> omnipool_inv C s \<Longrightarrow> omnipool_inv C s'"
  by (induction rule: omnipool_reach.induct) (auto intro: step_inv)

lemma inv_try_state:
  assumes "omnipool_inv C s" "\<forall>p\<in>ran (positions s). 0 < pos_shares p"
  shows "try_state C s"
proof -
  have sb: "shares_backed s" using assms(1) by (simp add: omnipool_inv_def)
  have hub: "map_sum as_hub_reserve (assets s) = hub_bal C (world s)"
    using assms(1) by (simp add: omnipool_inv_def hub_backed_def hub_gap_def)
  have "\<exists>x. assets s (pos_asset_id p) = Some x \<and> (as_shares x + 2 ^ 128 - as_protocol_shares x) mod 2 ^ 128 =
      position_shares s (pos_asset_id p) mod 2 ^ 128" if p: "p \<in> ran (positions s)" for p
  proof -
    obtain i where "positions s i = Some p" using p by (auto simp: ran_def)
    then have "0 < position_shares s (pos_asset_id p)"
      using position_shares_ge [OF sb] assms(2) p by (metis order_less_le_trans)
    moreover have eq: "position_shares s (pos_asset_id p) + opt_val as_protocol_shares (assets s (pos_asset_id p)) =
        opt_val as_shares (assets s (pos_asset_id p))" using sb by (simp add: shares_backed_def)
    ultimately obtain x where "assets s (pos_asset_id p) = Some x" by (cases "assets s (pos_asset_id p)") auto
    moreover from this eq have "as_shares x + 2 ^ 128 - as_protocol_shares x =
        position_shares s (pos_asset_id p) + 2 ^ 128" by simp
    ultimately show ?thesis by simp
  qed
  then show ?thesis using hub free_balance_u128 [of "world s" "hub_asset_id C" "protocol_account C"]
    by (simp add: try_state_def le_umax_iff)
qed

end

section \<open>Properties\<close>

lemma map_sum_insert:
  "finite (dom m) \<Longrightarrow> m k = None \<Longrightarrow> map_sum f (m(k \<mapsto> v)) = f v + map_sum f m"
  using map_sum_upd [of m f k v] by simp

lemma sample_pool_inv: "omnipool_inv std_omnipool_config sample_pool"
  by (auto simp: omnipool_inv_def hub_backed_def shares_backed_def hub_gap_def position_shares_def
      map_sum_insert sample_pool_def sample_world_def ledger_free_def umax_def)

text \<open>
  (C1) The Omnipool's books stay balanced: from any state in which the hub asset of the protocol
  account is the sum of the recorded hub reserves and the shares of every asset are those of its
  positions plus the protocol's, every sequence of extrinsics, block ends and outside activity that does not
  touch the hub asset of the protocol account leads to such a state again.
\<close>

theorem omnipool_reachable_inv:
  assumes "omnipool_env C" "omnipool_inv C s" "omnipool_reach C s s'"
  shows "omnipool_inv C s'"
  by (rule omnipool_env.reach_inv [OF assms(1,3,2)])

theorem omnipool_reachable_inv_witness:
  "\<exists>s'. omnipool_reach std_omnipool_config sample_pool s' \<and> s' \<noteq> sample_pool \<and> omnipool_inv std_omnipool_config s'"
proof -
  obtain s' where run: "sell std_omnipool_config (Signed 7) 2 0 100000 199000 sample_pool = Inr s'"
      and ev: "omnipool_events s' \<noteq> []"
    using sample_sell by auto
  have "omnipool_step std_omnipool_config sample_pool s'"
    by (rule omnipool_step.call [of _ "Signed 7" "Call_sell 2 0 100000 199000"]) (simp_all add: run)
  then have reach: "omnipool_reach std_omnipool_config sample_pool s'"
    by (rule omnipool_reach.step [OF omnipool_reach.here])
  have "s' \<noteq> sample_pool" using ev by (auto simp: sample_pool_def)
  with reach omnipool_reachable_inv [OF std_pool.omnipool_env_axioms sample_pool_inv reach] show ?thesis by blast
qed

definition listing_world :: std_world where
  "listing_world = \<lparr>sw_ledger = (\<lambda>_. 0)((0, 100) := 1000000000), sw_nft = Map.empty\<rparr>"

lemma sample_listing:
  "\<exists>s. add_token std_omnipool_config Root 0 fx_one 500000 5 (omnipool_genesis listing_world) = Inr s \<and>
     assets s 0 \<noteq> None \<and> positions s = [0 \<mapsto> \<lparr>pos_amount = 1000000000, pos_shares = 1000000000,
       pos_price = (fx_one, fx_one), pos_asset_id = 0\<rparr>]"
  by (simp add: add_token_def omnipool_genesis_def listing_world_def create_and_mint_position_instance_def pool_eval)

text \<open>
  From genesis, with no hub asset in the protocol account, the assertions of \<open>try_state\<close> hold in every
  reachable state in which no position is empty.
\<close>

theorem omnipool_try_state_holds:
  assumes "omnipool_env C" "hub_bal C w = 0" "omnipool_reach C (omnipool_genesis w) s"
    and "\<forall>p\<in>ran (positions s). 0 < pos_shares p"
  shows "try_state C s"
  using omnipool_env.inv_try_state [OF assms(1) omnipool_env.reach_inv [OF assms(1,3) genesis_inv [OF assms(2)]] assms(4)] .

theorem omnipool_try_state_holds_witness:
  "\<exists>s. omnipool_reach std_omnipool_config (omnipool_genesis listing_world) s \<and> assets s 0 \<noteq> None \<and>
     try_state std_omnipool_config s"
proof -
  obtain s where run: "add_token std_omnipool_config Root 0 fx_one 500000 5 (omnipool_genesis listing_world) = Inr s"
      and st: "assets s 0 \<noteq> None" "ran (positions s) = {\<lparr>pos_amount = 1000000000, pos_shares = 1000000000,
        pos_price = (fx_one, fx_one), pos_asset_id = 0\<rparr>}"
    using sample_listing by auto
  have "omnipool_step std_omnipool_config (omnipool_genesis listing_world) s"
    by (rule omnipool_step.call [of _ Root "Call_add_token 0 fx_one 500000 5"]) (simp_all add: run)
  then have reach: "omnipool_reach std_omnipool_config (omnipool_genesis listing_world) s"
    by (rule omnipool_reach.step [OF omnipool_reach.here])
  have "hub_bal std_omnipool_config listing_world = 0" by (simp add: listing_world_def ledger_free_def)
  from omnipool_try_state_holds [OF std_pool.omnipool_env_axioms this reach] reach st show ?thesis by auto
qed

end
