(* ===== verification/Dynamic_Fees.thy ===== *)
theory Dynamic_Fees
  imports Sp_Arith Frame_Support
begin

text \<open>
  Dynamic fees: the fee formula of \<open>math/src/dynamic_fees\<close> and the pallet of
  \<open>pallets/dynamic-fees\<close> that keeps the last fee of every asset. The formula may panic (a ratio
  that does not fit \<open>FixedU128\<close>), which is \<open>None\<close>; the loop over at most twenty blocks
  returns the previous fee at once when a denominator vanishes. \<open>debug_assert!\<close> is
  compiled out.
\<close>

section \<open>The formula\<close>

record fee_params =
  min_fee :: nat
  max_fee :: nat
  decay :: nat
  amplification :: nat

record oracle_entry =
  oe_amount_in :: balance
  oe_amount_out :: balance
  oe_liquidity :: balance
  oe_decay_factor :: nat

datatype net_volume_direction = OutIn | InOut

definition MAX_BLOCK_DIFFERENCE :: nat where
  "MAX_BLOCK_DIFFERENCE = 20"

fun net_volume :: "oracle_entry \<Rightarrow> net_volume_direction \<Rightarrow> balance \<times> bool" where
  "net_volume e OutIn = (abs_diff (oe_amount_out e) (oe_amount_in e), oe_amount_out e < oe_amount_in e)"
| "net_volume e InOut = (abs_diff (oe_amount_out e) (oe_amount_in e), oe_amount_in e < oe_amount_out e)"

text \<open>
  The loop from \<open>j\<close> to \<open>m\<close>: \<open>Some None\<close> is the early return of the previous fee.
\<close>

function decay_sum ::
    "arith \<Rightarrow> nat \<Rightarrow> balance \<Rightarrow> balance \<Rightarrow> bool \<Rightarrow> nat \<Rightarrow> nat \<Rightarrow> nat \<Rightarrow> nat option option" where
  "decay_sum A w net_liquidity liquidity liquid_neg j m j_sum =
     (if m \<le> j then Some (Some j_sum)
      else
        let oracle_value = fx_saturating_pow A w j in do {
          n \<leftarrow> fx_from_rational A net_liquidity liquidity;
          let p = fx_saturating_mul A n oracle_value;
          let denom = (if liquid_neg then fx_saturating_sub A fx_one p else fx_saturating_add A fx_one p);
          if denom = 0 then Some None
          else do {
            q \<leftarrow> fx_checked_div A oracle_value denom;
            decay_sum A w net_liquidity liquidity liquid_neg (j + 1) m (fx_saturating_add A j_sum q)
          }
        })"
  by pat_completeness auto
termination by (relation "measure (\<lambda>(A, w, nl, l, neg, j, m, s). m - j)") auto

declare decay_sum.simps [simp del]

definition fee_delta :: "arith \<Rightarrow> nat \<Rightarrow> bool \<Rightarrow> nat \<Rightarrow> nat \<times> bool" where
  "fee_delta A p2 x_neg f =
     (if x_neg then (fx_saturating_add A p2 f, True)
      else if p2 < f then (fx_saturating_sub A f p2, True)
      else (fx_saturating_sub A p2 f, False))"

definition clamp :: "nat \<Rightarrow> nat \<Rightarrow> nat \<Rightarrow> nat" where
  "clamp x lo hi = (if x < lo then lo else if hi < x then hi else x)"

definition compute_dynamic_fee ::
    "arith \<Rightarrow> oracle_entry \<Rightarrow> balance \<Rightarrow> fee_params \<Rightarrow> nat \<Rightarrow> nat \<Rightarrow> net_volume_direction \<Rightarrow> nat option" where
  "compute_dynamic_fee A last_entry liquidity params previous_fee block_diff net_direction =
     (if oe_decay_factor last_entry = 0 \<or> amplification params = 0 \<or> block_diff = 0 then Some previous_fee
      else if liquidity = 0 \<or> oe_liquidity last_entry = 0 then Some previous_fee
      else
        let (net_vol, volume_neg) = net_volume last_entry net_direction;
            net_liquidity = abs_diff (oe_liquidity last_entry) liquidity;
            liquid_neg = oe_liquidity last_entry < liquidity;
            m = min block_diff MAX_BLOCK_DIFFERENCE
        in do {
          x \<leftarrow> fx_from_rational A (fx_saturating_mul_int A (amplification params) net_vol) liquidity;
          let w = fx_saturating_sub A fx_one (oe_decay_factor last_entry);
          r \<leftarrow> decay_sum A w net_liquidity liquidity liquid_neg 0 m 0;
          (case r of
             None \<Rightarrow> Some previous_fee
           | Some j_sum \<Rightarrow> do {
               w_term \<leftarrow> fx_checked_div A
                 (fx_saturating_mul A w (fx_saturating_sub A (fx_saturating_pow A w m) (fx_saturating_pow A w block_diff)))
                 (oe_decay_factor last_entry);
               let p2 = fx_saturating_mul A x (fx_saturating_add A j_sum w_term);
               let f = fx_saturating_mul A (decay params) (fx_of_int A block_diff);
               let (delta, delta_neg) = fee_delta A p2 volume_neg f;
               let fixed_previous_fee = fx_of_permill A previous_fee;
               if max_fee params < min_fee params then Some previous_fee
               else Some (clamp (fx_to_permill A
                 (if delta_neg then fx_saturating_sub A fixed_previous_fee delta
                  else fx_saturating_add A fixed_previous_fee delta)) (min_fee params) (max_fee params))
             })
        })"

definition recalculate_asset_fee ::
    "arith \<Rightarrow> oracle_entry \<Rightarrow> balance \<Rightarrow> nat \<Rightarrow> nat \<Rightarrow> fee_params \<Rightarrow> nat option" where
  "recalculate_asset_fee A last_entry current_asset_liquidity previous_fee block_diff params =
     compute_dynamic_fee A last_entry current_asset_liquidity params previous_fee block_diff OutIn"

definition recalculate_protocol_fee ::
    "arith \<Rightarrow> oracle_entry \<Rightarrow> balance \<Rightarrow> nat \<Rightarrow> nat \<Rightarrow> fee_params \<Rightarrow> nat option" where
  "recalculate_protocol_fee A last_entry current_asset_liquidity previous_fee block_diff params =
     compute_dynamic_fee A last_entry current_asset_liquidity params previous_fee block_diff InOut"

section \<open>The pallet\<close>

record dynamic_fee_entry =
  de_asset_fee :: nat
  de_protocol_fee :: nat
  de_timestamp :: block_number

datatype asset_fee_config =
    Fixed_Fee nat nat
  | Dynamic_Fee fee_params fee_params

datatype dynamic_fees_error = InvalidFeeParameters

datatype dynamic_fees_event =
    AssetFeeConfigSet asset_id asset_fee_config
  | AssetFeeConfigRemoved asset_id

record dynamic_fees =
  df_asset_fee :: "asset_id \<rightharpoonup> dynamic_fee_entry"
  df_asset_fee_config :: "asset_id \<rightharpoonup> asset_fee_config"
  df_events :: "dynamic_fees_event list"

text \<open>The raw oracle's last entry: amounts in and out, and liquidity.\<close>

record dynamic_fees_config =
  df_arith :: arith
  df_block_number :: block_number
  df_last_entry :: "asset_id \<Rightarrow> (balance \<times> balance \<times> balance) option"
  df_period :: nat
  df_authority :: "origin \<Rightarrow> bool"
  asset_fee_parameters :: fee_params
  protocol_fee_parameters :: fee_params

fun validate_fee_config :: "asset_fee_config \<Rightarrow> dynamic_fees_error dispatch_error + unit" where
  "validate_fee_config (Fixed_Fee a p) = Inr ()"
| "validate_fee_config (Dynamic_Fee ap pp) =
     ensure (min_fee ap \<le> max_fee ap \<and> amplification ap \<noteq> 0) (Module InvalidFeeParameters) (
     ensure (min_fee pp \<le> max_fee pp \<and> amplification pp \<noteq> 0) (Module InvalidFeeParameters) (Inr ()))"

definition set_asset_fee ::
    "dynamic_fees_config \<Rightarrow> origin \<Rightarrow> asset_id \<Rightarrow> asset_fee_config \<Rightarrow> dynamic_fees \<Rightarrow>
     dynamic_fees_error dispatch_error + dynamic_fees" where
  "set_asset_fee D orig asset config st =
     ensure (df_authority D orig) BadOrigin (
     tryR (validate_fee_config config) (\<lambda>_.
     Inr (st\<lparr>df_asset_fee_config := (df_asset_fee_config st)(asset \<mapsto> config),
             df_events := df_events st @ [AssetFeeConfigSet asset config]\<rparr>)))"

definition remove_asset_fee ::
    "dynamic_fees_config \<Rightarrow> origin \<Rightarrow> asset_id \<Rightarrow> dynamic_fees \<Rightarrow>
     dynamic_fees_error dispatch_error + dynamic_fees" where
  "remove_asset_fee D orig asset st =
     ensure (df_authority D orig) BadOrigin (
     Inr (st\<lparr>df_asset_fee_config := (df_asset_fee_config st)(asset := None),
             df_events := df_events st @ [AssetFeeConfigRemoved asset]\<rparr>))"

definition calculate_dynamic_fee ::
    "dynamic_fees_config \<Rightarrow> asset_id \<Rightarrow> balance \<Rightarrow> block_number \<Rightarrow> dynamic_fee_entry \<Rightarrow> fee_params \<Rightarrow> fee_params \<Rightarrow>
     bool \<Rightarrow> dynamic_fees \<Rightarrow> ((nat \<times> nat) \<times> dynamic_fees) option" where
  "calculate_dynamic_fee D asset asset_liquidity block_number current_fee_entry asset_params protocol_params store st =
     (let current = (de_asset_fee current_fee_entry, de_protocol_fee current_fee_entry) in
      if block_number = de_timestamp current_fee_entry then Some (current, st)
      else
        let delta_blocks = saturating_sub block_number (de_timestamp current_fee_entry) in
        (case df_last_entry D asset of
           None \<Rightarrow> Some (current, st)
         | Some (amount_in, amount_out, liq) \<Rightarrow>
             if df_period D = 0 then Some (current, st)
             else do {
               decay_factor \<leftarrow> fx_from_rational (df_arith D) 4 (df_period D);
               let entry = \<lparr>oe_amount_in = amount_in, oe_amount_out = amount_out, oe_liquidity = liq,
                 oe_decay_factor = decay_factor\<rparr>;
               asset_fee \<leftarrow> recalculate_asset_fee (df_arith D) entry asset_liquidity
                 (de_asset_fee current_fee_entry) delta_blocks asset_params;
               protocol_fee \<leftarrow> recalculate_protocol_fee (df_arith D) entry asset_liquidity
                 (de_protocol_fee current_fee_entry) delta_blocks protocol_params;
               let st' = (if store then st\<lparr>df_asset_fee := (df_asset_fee st)(asset \<mapsto>
                   \<lparr>de_asset_fee = asset_fee, de_protocol_fee = protocol_fee, de_timestamp = block_number\<rparr>)\<rparr>
                 else st);
               Some ((asset_fee, protocol_fee), st')
             }))"

definition current_fee_entry :: "asset_id \<Rightarrow> fee_params \<Rightarrow> fee_params \<Rightarrow> dynamic_fees \<Rightarrow> dynamic_fee_entry" where
  "current_fee_entry asset asset_params protocol_params st =
     (case df_asset_fee st asset of
        Some e \<Rightarrow> e
      | None \<Rightarrow> \<lparr>de_asset_fee = min_fee asset_params, de_protocol_fee = min_fee protocol_params, de_timestamp = 0\<rparr>)"

definition update_fee ::
    "dynamic_fees_config \<Rightarrow> asset_id \<times> balance \<Rightarrow> bool \<Rightarrow> dynamic_fees \<Rightarrow> ((nat \<times> nat) \<times> dynamic_fees) option" where
  "update_fee D k store st =
     (let (asset, asset_liquidity) = k; block_number = df_block_number D in
      (case df_asset_fee_config st asset of
         Some (Fixed_Fee asset_fee protocol_fee) \<Rightarrow> Some ((asset_fee, protocol_fee), st)
       | Some (Dynamic_Fee ap pp) \<Rightarrow>
           calculate_dynamic_fee D asset asset_liquidity block_number (current_fee_entry asset ap pp st) ap pp store st
       | None \<Rightarrow>
           let ap = asset_fee_parameters D; pp = protocol_fee_parameters D in
           calculate_dynamic_fee D asset asset_liquidity block_number (current_fee_entry asset ap pp st) ap pp store st))"

text \<open>
  The interface the pools use. A panic ends the block; the fees it returns are then irrelevant.
\<close>

definition df_get :: "dynamic_fees_config \<Rightarrow> dynamic_fees \<Rightarrow> asset_id \<times> balance \<Rightarrow> nat \<times> nat" where
  "df_get D st k = (case update_fee D k False st of Some (f, _) \<Rightarrow> f | None \<Rightarrow> (0, 0))"

definition df_get_and_store ::
    "dynamic_fees_config \<Rightarrow> asset_id \<times> balance \<Rightarrow> dynamic_fees \<Rightarrow> (nat \<times> nat) \<times> dynamic_fees" where
  "df_get_and_store D k st = (case update_fee D k True st of Some r \<Rightarrow> r | None \<Rightarrow> ((0, 0), st))"

section \<open>The fee interface\<close>

text \<open>
  What a pool relies on: storing returns what reading returns, storing the fee of one asset does not
  change another's.
\<close>

locale fee_provider =
  fixes get :: "'w \<Rightarrow> asset_id \<times> balance \<Rightarrow> nat \<times> nat"
    and get_and_store :: "asset_id \<times> balance \<Rightarrow> 'w \<Rightarrow> (nat \<times> nat) \<times> 'w"
  assumes get_same: "fst (get_and_store k w) = get w k"
    and store_other: "fst k' \<noteq> fst k \<Longrightarrow> get (snd (get_and_store k w)) k' = get w k'"
begin

lemma two_fees:
  assumes "get_and_store k w = (p, w1)" "get_and_store k' w1 = (p', w2)" "fst k' \<noteq> fst k"
  shows "get w k = p" "get w k' = p'"
  using get_same [of k w] get_same [of k' w1] store_other [OF assms(3), of w] assms by simp_all

end

lemma calculate_dynamic_fee_store:
  "calculate_dynamic_fee D a l b e ap pp True st = None \<longleftrightarrow> calculate_dynamic_fee D a l b e ap pp False st = None"
  "calculate_dynamic_fee D a l b e ap pp True st = Some (f, st') \<Longrightarrow>
     calculate_dynamic_fee D a l b e ap pp False st = Some (f, st) \<and>
     (st' = st \<or> st' = st\<lparr>df_asset_fee := (df_asset_fee st)(a \<mapsto>
        \<lparr>de_asset_fee = fst f, de_protocol_fee = snd f, de_timestamp = b\<rparr>)\<rparr>)"
  by (auto simp: calculate_dynamic_fee_def Let_def bind_eq_None_conv split: option.splits prod.splits if_splits bind_splits)

lemma update_fee_store:
  "update_fee D (a, l) True st = None \<longleftrightarrow> update_fee D (a, l) False st = None"
  "update_fee D (a, l) True st = Some (f, st') \<Longrightarrow> update_fee D (a, l) False st = Some (f, st) \<and>
     (st' = st \<or> st' = st\<lparr>df_asset_fee := (df_asset_fee st)(a \<mapsto>
        \<lparr>de_asset_fee = fst f, de_protocol_fee = snd f, de_timestamp = df_block_number D\<rparr>)\<rparr>)"
  using calculate_dynamic_fee_store
  by (auto simp: update_fee_def Let_def split: option.splits asset_fee_config.splits)

text \<open>Reading the fee of another asset does not look at the entry just stored.\<close>

lemma calculate_dynamic_fee_frame:
  "fst (the (calculate_dynamic_fee D a l b e ap pp False st')) = fst (the (calculate_dynamic_fee D a l b e ap pp False st))"
  "calculate_dynamic_fee D a l b e ap pp False st' = None \<longleftrightarrow> calculate_dynamic_fee D a l b e ap pp False st = None"
  by (auto simp: calculate_dynamic_fee_def Let_def bind_eq_None_conv split: option.splits prod.splits if_splits bind_splits)

lemma df_get_frame:
  assumes "df_asset_fee st' a = df_asset_fee st a" "df_asset_fee_config st' a = df_asset_fee_config st a"
  shows "df_get D st' (a, l) = df_get D st (a, l)"
proof -
  have "current_fee_entry a ap pp st' = current_fee_entry a ap pp st" for ap pp
    using assms(1) by (simp add: current_fee_entry_def)
  then have "(update_fee D (a, l) False st' = None \<longleftrightarrow> update_fee D (a, l) False st = None) \<and>
      fst (the (update_fee D (a, l) False st')) = fst (the (update_fee D (a, l) False st))"
    using assms(2) calculate_dynamic_fee_frame [of D a l _ _ _ _ st' st]
    by (auto simp: update_fee_def Let_def split: option.splits asset_fee_config.splits)
  then show ?thesis
    by (cases "update_fee D (a, l) False st'"; cases "update_fee D (a, l) False st")
      (auto simp: df_get_def split: prod.splits)
qed

interpretation dyn_fees: fee_provider "df_get D" "df_get_and_store D" for D
proof (unfold_locales, goal_cases)
  case (1 k w)
  show ?case
    using update_fee_store [of D "fst k" "snd k" w]
    by (cases "update_fee D k True w") (auto simp: df_get_def df_get_and_store_def split: option.splits)
next
  case (2 k' k w)
  obtain f st' where st': "df_get_and_store D k w = (f, st')" by (cases "df_get_and_store D k w")
  have "df_asset_fee_config st' = df_asset_fee_config w \<and> df_asset_fee st' (fst k') = df_asset_fee w (fst k')"
    using update_fee_store(2) [of D "fst k" "snd k" w] st' 2
    by (cases "update_fee D k True w") (auto simp: df_get_and_store_def)
  then show ?case using df_get_frame [of st' "fst k'" w D "snd k'"] st' by simp
qed

text \<open>Once stored, a fee stays the same for the rest of the block, whatever the liquidity.\<close>

lemma calculate_dynamic_fee_again:
  assumes "calculate_dynamic_fee D a l b e ap pp True st = Some (f, st')"
  shows "(st' = st \<and> (\<forall>l' c. calculate_dynamic_fee D a l' b e ap pp c st = Some (f, st))) \<or>
    st' = st\<lparr>df_asset_fee := (df_asset_fee st)(a \<mapsto>
      \<lparr>de_asset_fee = fst f, de_protocol_fee = snd f, de_timestamp = b\<rparr>)\<rparr>"
proof (cases "b = de_timestamp e \<or> df_last_entry D a = None \<or> df_period D = 0")
  case True
  then have "calculate_dynamic_fee D a l' b e ap pp c st = Some ((de_asset_fee e, de_protocol_fee e), st)" for l' c
    by (auto simp: calculate_dynamic_fee_def Let_def split: option.splits)
  then show ?thesis using assms by auto
next
  case False
  then show ?thesis using assms by (auto simp: calculate_dynamic_fee_def Let_def ck_iff split: prod.splits)
qed

lemma calculate_dynamic_fee_stored:
  "calculate_dynamic_fee D a l b \<lparr>de_asset_fee = fst f, de_protocol_fee = snd f, de_timestamp = b\<rparr> ap pp c st = Some (f, st)"
  by (simp add: calculate_dynamic_fee_def)

lemma stored_fee_stable:
  assumes "update_fee D (a, l) True st = Some (f, st')"
  shows "update_fee D (a, l') c st' = Some (f, st')"
proof -
  consider (fixed) x y where "df_asset_fee_config st a = Some (Fixed_Fee x y)"
    | (dynamic) ap pp where "\<And>l c st'. df_asset_fee_config st' a = df_asset_fee_config st a \<Longrightarrow> update_fee D (a, l) c st' =
        calculate_dynamic_fee D a l (df_block_number D) (current_fee_entry a ap pp st') ap pp c st'"
  proof (cases "df_asset_fee_config st a")
    case None
    then show thesis
      by (intro dynamic [of "asset_fee_parameters D" "protocol_fee_parameters D"]) (simp add: update_fee_def Let_def)
  next
    case (Some k)
    then show thesis
      by (cases k) (auto intro: fixed dynamic simp: update_fee_def)
  qed
  then show ?thesis
  proof cases
    case fixed
    then show ?thesis using assms by (simp add: update_fee_def)
  next
    case dynamic
    from assms dynamic [of st l True]
    have "calculate_dynamic_fee D a l (df_block_number D) (current_fee_entry a ap pp st) ap pp True st = Some (f, st')"
      by simp
    from calculate_dynamic_fee_again [OF this] show ?thesis
      by (auto simp: dynamic current_fee_entry_def calculate_dynamic_fee_stored)
  qed
qed

section \<open>The formula is bounded and total\<close>

lemma clamp_bounds: "lo \<le> hi \<Longrightarrow> lo \<le> clamp x lo hi \<and> clamp x lo hi \<le> hi"
  by (simp add: clamp_def)

lemma compute_dynamic_fee_bounds:
  assumes "compute_dynamic_fee A e l P prev bd dir = Some f" "min_fee P \<le> prev" "prev \<le> max_fee P"
  shows "min_fee P \<le> f \<and> f \<le> max_fee P"
  using assms clamp_bounds [of "min_fee P" "max_fee P"]
  by (auto simp: compute_dynamic_fee_def Let_def ck_iff case_prod_beta split: if_splits option.splits)

text \<open>The quotient \<open>FixedU128::from_rational\<close> forms, before it is checked to fit 128 bits.\<close>

definition fx_ratio :: "nat \<Rightarrow> nat \<Rightarrow> nat" where
  "fx_ratio n d = round_quot Round_NearestPrefDown (n * fx_one) d"

context sp_arith
begin

lemma fx_div_le_one:
  assumes "f \<le> fx_one" "g \<noteq> 0" "g \<le> umax 128"
  shows "fx_checked_div A f g = Some (f * fx_one div g)" "f * fx_one div g \<le> umax 128"
proof -
  have "f * fx_one div g \<le> f * fx_one" by (rule div_le_dividend)
  also have "\<dots> \<le> fx_one * fx_one" using assms(1) by simp
  also have "\<dots> \<le> umax 128" by (simp add: fx_one_def umax_def)
  finally show le: "f * fx_one div g \<le> umax 128" .
  then show "fx_checked_div A f g = Some (f * fx_one div g)"
    using assms fx_one_u128 by (simp add: fx_checked_div narrow_def)
qed

lemma decay_sum_panics:
  assumes "nl \<le> umax 128" "l \<le> umax 128" "umax 128 < fx_ratio nl l" "j < m"
  shows "decay_sum A w nl l neg j m acc = None"
  using assms by (subst decay_sum.simps) (simp add: fx_from_rational fx_ratio_def narrow_def Let_def del: round_quot.simps)

lemma decay_sum_returns:
  assumes "w \<le> fx_one" "nl \<le> umax 128" "l \<le> umax 128" "l \<noteq> 0" "fx_ratio nl l \<le> umax 128" "acc \<le> umax 128"
  shows "\<exists>r. decay_sum A w nl l neg j m acc = Some r \<and> (\<forall>v. r = Some v \<longrightarrow> v \<le> umax 128)"
  using assms(6)
proof (induction "m - j" arbitrary: j acc)
  case 0
  then show ?case by (subst decay_sum.simps) simp
next
  case (Suc k)
  let ?v = "fx_saturating_pow A w j" and ?n = "fx_ratio nl l"
  have v: "?v \<le> fx_one" "?v \<le> umax 128" using assms(1) fx_saturating_pow_one fx_one_u128 order_trans by blast+
  have n: "fx_from_rational A nl l = Some ?n" "?n \<le> umax 128"
    using assms(2-5) by (simp_all add: fx_from_rational fx_ratio_def narrow_def del: round_quot.simps)
  let ?p = "fx_saturating_mul A ?n ?v"
  let ?d = "if neg then fx_saturating_sub A fx_one ?p else fx_saturating_add A fx_one ?p"
  have p: "?p \<le> umax 128" using n v by (simp add: fx_saturating_mul)
  then have d: "?d \<le> umax 128"
    using fx_one_u128 by (auto simp: fx_saturating_sub fx_saturating_add intro: le_trans)
  show ?case
  proof (cases "?d = 0")
    case True
    moreover have "\<not> m \<le> j" using Suc.hyps(2) by simp
    ultimately have "decay_sum A w nl l neg j m acc = Some None" by (subst decay_sum.simps) (simp add: n Let_def)
    then show ?thesis by simp
  next
    case False
    note q = fx_div_le_one [OF v(1) False d]
    have acc: "fx_saturating_add A acc (?v * fx_one div ?d) \<le> umax 128"
      using Suc.prems q(2) by (simp add: fx_saturating_add)
    have "k = m - (j + 1)" using Suc.hyps(2) by simp
    from Suc.hyps(1) [OF this acc] obtain r where
      r: "decay_sum A w nl l neg (j + 1) m (fx_saturating_add A acc (?v * fx_one div ?d)) = Some r"
        "\<forall>v. r = Some v \<longrightarrow> v \<le> umax 128" by blast
    have "\<not> m \<le> j" using Suc.hyps(2) by simp
    then have "decay_sum A w nl l neg j m acc = Some r"
      using False q(1) r(1) by (subst decay_sum.simps) (simp add: n Let_def)
    then show ?thesis using r(2) by blast
  qed
qed

lemma compute_dynamic_fee_returns:
  assumes "oe_decay_factor e \<le> umax 128" "amplification P \<le> umax 128"
    "oe_amount_in e \<le> umax 128" "oe_amount_out e \<le> umax 128" "oe_liquidity e \<le> umax 128" "l \<le> umax 128"
    "fx_ratio (min (umax 128) (amplification P * abs_diff (oe_amount_in e) (oe_amount_out e) div fx_one)) l \<le> umax 128"
    "fx_ratio (abs_diff (oe_liquidity e) l) l \<le> umax 128"
  shows "\<exists>f. compute_dynamic_fee A e l P prev bd dir = Some f"
proof (cases "oe_decay_factor e = 0 \<or> amplification P = 0 \<or> bd = 0 \<or> l = 0 \<or> oe_liquidity e = 0")
  case True
  then show ?thesis by (auto simp: compute_dynamic_fee_def)
next
  case False
  let ?v = "abs_diff (oe_amount_out e) (oe_amount_in e)"
  let ?a = "fx_saturating_mul_int A (amplification P) ?v"
  let ?w = "fx_saturating_sub A fx_one (oe_decay_factor e)"
  have v: "?v \<le> umax 128" "?v = abs_diff (oe_amount_in e) (oe_amount_out e)"
    using assms(3,4) by (auto simp: abs_diff_def)
  have a: "?a = min (umax 128) (amplification P * ?v div fx_one)" using assms(2) v by (simp add: fx_saturating_mul_int)
  have x: "fx_from_rational A ?a l = Some (fx_ratio ?a l)"
    using assms(6,7) False a v(2) by (simp add: fx_from_rational fx_ratio_def narrow_def del: round_quot.simps)
  have w: "?w \<le> fx_one" using assms(1) fx_one_u128 by (simp add: fx_saturating_sub)
  have nl: "abs_diff (oe_liquidity e) l \<le> umax 128" using assms(5,6) by (rule abs_diff_le)
  obtain r where r: "decay_sum A ?w (abs_diff (oe_liquidity e) l) l (oe_liquidity e < l) 0 (min bd MAX_BLOCK_DIFFERENCE) 0 = Some r"
    using decay_sum_returns [OF w nl assms(6) _ assms(8)] False by fastforce
  let ?t = "fx_saturating_mul A ?w (fx_saturating_sub A (fx_saturating_pow A ?w (min bd MAX_BLOCK_DIFFERENCE))
    (fx_saturating_pow A ?w bd))"
  have pw: "fx_saturating_pow A ?w k \<le> fx_one" "fx_saturating_pow A ?w k \<le> umax 128" for k
    using w fx_saturating_pow_one fx_one_u128 order_trans by blast+
  have sub: "fx_saturating_sub A (fx_saturating_pow A ?w (min bd MAX_BLOCK_DIFFERENCE)) (fx_saturating_pow A ?w bd) \<le> fx_one"
    using pw by (simp add: fx_saturating_sub diff_le_self le_trans [OF diff_le_self])
  have "?w * fx_saturating_sub A (fx_saturating_pow A ?w (min bd MAX_BLOCK_DIFFERENCE)) (fx_saturating_pow A ?w bd)
      \<le> fx_one * fx_one" using w sub by (rule mult_le_mono)
  then have "?t \<le> fx_one"
    using w sub fx_one_u128 by (simp add: fx_saturating_mul min.coboundedI2 div_le_if_mult)
  moreover have "oe_decay_factor e \<noteq> 0" using False by simp
  ultimately have "fx_checked_div A ?t (oe_decay_factor e) = Some (?t * fx_one div oe_decay_factor e)"
    using assms(1) by (rule fx_div_le_one(1))
  with x r False show ?thesis
    by (cases dir; cases r) (auto simp: compute_dynamic_fee_def Let_def split: prod.splits)
qed

lemma compute_dynamic_fee_panics:
  assumes "amplification P \<le> umax 128" "oe_amount_in e \<le> umax 128" "oe_amount_out e \<le> umax 128"
    "oe_liquidity e \<le> umax 128" "l \<le> umax 128"
    and live: "\<not> (oe_decay_factor e = 0 \<or> amplification P = 0 \<or> bd = 0 \<or> l = 0 \<or> oe_liquidity e = 0)"
    and big: "umax 128 < fx_ratio (min (umax 128) (amplification P * abs_diff (oe_amount_in e) (oe_amount_out e) div fx_one)) l \<or>
      umax 128 < fx_ratio (abs_diff (oe_liquidity e) l) l"
  shows "compute_dynamic_fee A e l P prev bd dir = None"
proof -
  let ?v = "abs_diff (oe_amount_in e) (oe_amount_out e)" and ?nl = "abs_diff (oe_liquidity e) l"
  have v: "?v \<le> umax 128" "abs_diff (oe_amount_out e) (oe_amount_in e) = ?v" using assms(2,3) by (auto simp: abs_diff_def)
  have a: "fx_saturating_mul_int A (amplification P) ?v = min (umax 128) (amplification P * ?v div fx_one)"
    using assms(1) v by (simp add: fx_saturating_mul_int)
  have nl: "?nl \<le> umax 128" using assms(4,5) by (rule abs_diff_le)
  have "fx_from_rational A (min (umax 128) (amplification P * ?v div fx_one)) l = None \<or>
      (\<forall>w neg. decay_sum A w ?nl l neg 0 (min bd MAX_BLOCK_DIFFERENCE) 0 = None)"
    using big
  proof
    assume "umax 128 < fx_ratio (min (umax 128) (amplification P * ?v div fx_one)) l"
    then show ?thesis
      using assms(5) by (simp add: fx_from_rational fx_ratio_def narrow_def del: round_quot.simps)
  next
    assume "umax 128 < fx_ratio ?nl l"
    then show ?thesis using decay_sum_panics [OF nl assms(5)] live by (simp add: MAX_BLOCK_DIFFERENCE_def)
  qed
  then show ?thesis
    using live v(2) a by (cases dir) (auto simp: compute_dynamic_fee_def Let_def split: bind_split)
qed

end

section \<open>Properties\<close>

definition sample_entry :: oracle_entry where
  "sample_entry = \<lparr>oe_amount_in = 2000, oe_amount_out = 5000, oe_liquidity = 1000000, oe_decay_factor = 400000000000000000\<rparr>"

definition sample_params :: fee_params where
  "sample_params = \<lparr>min_fee = 2500, max_fee = 50000, decay = 100000000000000, amplification = 2000000000000000000\<rparr>"

text \<open>
  (C28) The dynamic fee stays between its minimum and its maximum: a recalculation that starts from a
  fee within the bounds returns one within the bounds, whatever the oracle, the liquidity and the number of blocks.
\<close>

theorem dynamic_fee_within_bounds:
  assumes "compute_dynamic_fee A e l P prev bd dir = Some f" "min_fee P \<le> prev" "prev \<le> max_fee P"
  shows "min_fee P \<le> f \<and> f \<le> max_fee P"
  using assms by (rule compute_dynamic_fee_bounds)

text \<open>
  (C29) When the recalculation returns: for arguments of their types and any number of elapsed blocks the loop terminates and a fee is returned,
  unless one of two quotients does not fit \<open>FixedU128\<close>: the amplified net volume over the liquidity, or the change of the liquidity over the
  liquidity. In exactly these cases \<open>FixedU128::from_rational\<close> panics; a disabled or degenerate fee never reaches them.
\<close>

theorem dynamic_fee_returns:
  assumes "sp_arith A" "oe_decay_factor e \<le> umax 128" "amplification P \<le> umax 128"
    "oe_amount_in e \<le> umax 128" "oe_amount_out e \<le> umax 128" "oe_liquidity e \<le> umax 128" "l \<le> umax 128"
  shows "(\<exists>f. compute_dynamic_fee A e l P prev bd dir = Some f) \<longleftrightarrow>
    oe_decay_factor e = 0 \<or> amplification P = 0 \<or> bd = 0 \<or> l = 0 \<or> oe_liquidity e = 0 \<or>
    fx_ratio (min (umax 128) (amplification P * abs_diff (oe_amount_in e) (oe_amount_out e) div fx_one)) l \<le> umax 128 \<and>
    fx_ratio (abs_diff (oe_liquidity e) l) l \<le> umax 128"
proof (cases "oe_decay_factor e = 0 \<or> amplification P = 0 \<or> bd = 0 \<or> l = 0 \<or> oe_liquidity e = 0")
  case True
  then show ?thesis by (auto simp: compute_dynamic_fee_def)
next
  case False
  then show ?thesis
    using sp_arith.compute_dynamic_fee_returns [OF assms] sp_arith.compute_dynamic_fee_panics [OF assms(1,3-7) False]
    by (metis not_le option.distinct(1))
qed

theorem dynamic_fee_returns_witness:
  "(\<exists>f. compute_dynamic_fee std_arith sample_entry 990000 sample_params 2500 100 OutIn = Some f) \<and>
   \<not> (\<exists>f. compute_dynamic_fee std_arith (sample_entry\<lparr>oe_liquidity := 10 ^ 21\<rparr>) 1 sample_params 2500 100 OutIn = Some f)"
proof
  show "\<exists>f. compute_dynamic_fee std_arith sample_entry 990000 sample_params 2500 100 OutIn = Some f"
    by (subst dynamic_fee_returns [OF std.sp_arith_axioms])
      (simp_all add: sample_entry_def sample_params_def umax_def fx_one_def fx_ratio_def abs_diff_def)
  show "\<not> (\<exists>f. compute_dynamic_fee std_arith (sample_entry\<lparr>oe_liquidity := 10 ^ 21\<rparr>) 1 sample_params 2500 100 OutIn = Some f)"
    by (subst dynamic_fee_returns [OF std.sp_arith_axioms])
      (simp_all add: sample_entry_def sample_params_def umax_def fx_one_def fx_ratio_def abs_diff_def)
qed

theorem dynamic_fee_within_bounds_witness:
  "\<exists>f. compute_dynamic_fee std_arith sample_entry 990000 sample_params 2500 1 OutIn = Some f \<and> 2500 \<le> f \<and> f \<le> 50000"
proof -
  have s: "decay_sum std_arith 600000000000000000 10000 990000 False 0 1 0 = Some (Some 990000000000000000)"
    by (simp add: decay_sum.simps std_arith_sel fx_one_def umax_def Let_def ck_eval)
  have "compute_dynamic_fee std_arith sample_entry 990000 sample_params 2500 1 OutIn = Some 8400"
    using s by (simp add: compute_dynamic_fee_def sample_entry_def sample_params_def std_arith_sel fx_one_def
        umax_def Let_def ck_eval abs_diff_def MAX_BLOCK_DIFFERENCE_def fee_delta_def clamp_def permill_one_def)
  from dynamic_fee_within_bounds [OF this] this show ?thesis by (simp add: sample_params_def)
qed

text \<open>
  Once a fee was stored in a block, every later reading of it in that block, storing or not and at
  any liquidity, returns the same fees and changes nothing.
\<close>

theorem stored_fee_is_final_in_block:
  assumes "update_fee D (a, l) True st = Some (f, st')"
  shows "update_fee D (a, l') c st' = Some (f, st')"
  using assms by (rule stored_fee_stable)

definition sample_fees_config :: dynamic_fees_config where
  "sample_fees_config = \<lparr>df_arith = std_arith, df_block_number = 1,
     df_last_entry = (\<lambda>_. Some (2000, 5000, 1000000)), df_period = 10, df_authority = (\<lambda>orig. orig = Root),
     asset_fee_parameters = sample_params, protocol_fee_parameters = sample_params\<rparr>"

definition sample_fees :: dynamic_fees where
  "sample_fees = \<lparr>df_asset_fee = Map.empty, df_asset_fee_config = Map.empty, df_events = []\<rparr>"

theorem stored_fee_is_final_in_block_witness:
  "\<exists>st'. update_fee sample_fees_config (5, 990000) True sample_fees = Some ((8400, 2500), st') \<and>
     update_fee sample_fees_config (5, 400) False st' = Some ((8400, 2500), st')"
proof -
  have s: "decay_sum std_arith 600000000000000000 10000 990000 False 0 1 0 = Some (Some 990000000000000000)"
    by (simp add: decay_sum.simps std_arith_sel fx_one_def umax_def Let_def ck_eval)
  obtain st' where run: "update_fee sample_fees_config (5, 990000) True sample_fees = Some ((8400, 2500), st')"
    using s by (simp add: update_fee_def calculate_dynamic_fee_def current_fee_entry_def recalculate_asset_fee_def
        recalculate_protocol_fee_def compute_dynamic_fee_def sample_fees_config_def sample_fees_def sample_params_def
        std_arith_sel fx_one_def umax_def Let_def ck_eval abs_diff_def MAX_BLOCK_DIFFERENCE_def fee_delta_def clamp_def
        permill_one_def)
  with stored_fee_is_final_in_block [OF run] show ?thesis by blast
qed

end
