(* ===== verification/Router_Types.thy ===== *)
theory Router_Types
  imports Frame_Support Sp_Arith
begin

text \<open>
  The types and interfaces of routed trades (\<open>traits/src/router.rs\<close>): pool types, routes, and the
  interface \<open>TradeExecution\<close> that each pool implements, as a record of functions over the state \<open>'s\<close> of the
  pools. A tuple of pools asks each in turn until one supports the pool type.
\<close>

datatype pool_type = Pool_XYK | Pool_LBP | Pool_Stableswap asset_id | Pool_Omnipool | Pool_Aave | Pool_HSM

datatype 'e executor_error = NotSupported | Executor_Error 'e

text \<open>\<open>executor m\<close> is \<open>m.map_err(ExecutorError::Error)\<close>.\<close>

definition executor :: "'e + 'a \<Rightarrow> 'e executor_error + 'a" where
  "executor m = (case m of Inl e \<Rightarrow> Inl (Executor_Error e) | Inr x \<Rightarrow> Inr x)"

lemma executor_Inr [res_iff]: "executor m = Inr x \<longleftrightarrow> m = Inr x"
  by (cases m) (auto simp: executor_def)

lemma executor_simps [simp]: "executor (Inr x) = Inr x" "executor (Inl e) = Inl (Executor_Error e)"
  by (simp_all add: executor_def)

text \<open>\<open>FixedU128::reciprocal\<close>, which the pools turn their spot price with.\<close>

definition fx_reciprocal :: "arith \<Rightarrow> nat \<Rightarrow> nat option" where
  "fx_reciprocal A x = fx_checked_div A fx_one x"

section \<open>Routes\<close>

definition MAX_NUMBER_OF_TRADES :: nat where
  "MAX_NUMBER_OF_TRADES = 9"

record trade =
  trade_pool :: pool_type
  trade_in :: asset_id
  trade_out :: asset_id

type_synonym route = "trade list"

record amount_in_and_out =
  aio_in :: balance
  aio_out :: balance

record route_pair =
  pair_in :: asset_id
  pair_out :: asset_id

definition is_ordered :: "route_pair \<Rightarrow> bool" where
  "is_ordered p \<longleftrightarrow> pair_in p \<le> pair_out p"

definition route_ordered_pair :: "route_pair \<Rightarrow> route_pair" where
  "route_ordered_pair p = (if is_ordered p then p else \<lparr>pair_in = pair_out p, pair_out = pair_in p\<rparr>)"

definition to_ordered_vec :: "route_pair \<Rightarrow> asset_id list" where
  "to_ordered_vec p = (let q = route_ordered_pair p in [pair_in q, pair_out q])"

definition inverse_trade :: "trade \<Rightarrow> trade" where
  "inverse_trade t = \<lparr>trade_pool = trade_pool t, trade_in = trade_out t, trade_out = trade_in t\<rparr>"

text \<open>\<open>BoundedVec::truncate_from\<close> keeps at most \<open>MAX_NUMBER_OF_TRADES\<close> trades.\<close>

definition inverse_route :: "route \<Rightarrow> route" where
  "inverse_route trades = take MAX_NUMBER_OF_TRADES (rev (map inverse_trade trades))"

lemma inverse_trade_inverse [simp]: "inverse_trade (inverse_trade t) = t"
  by (simp add: inverse_trade_def)

lemma inverse_route_inverse:
  assumes "length r \<le> MAX_NUMBER_OF_TRADES"
  shows "inverse_route (inverse_route r) = r"
  using assms by (simp add: inverse_route_def rev_map comp_def)

lemma inverse_route_length: "length (inverse_route r) \<le> MAX_NUMBER_OF_TRADES"
  by (simp add: inverse_route_def)

section \<open>Trade execution\<close>

record ('s, 'e) amm =
  amm_out_given_in :: "pool_type \<Rightarrow> asset_id \<Rightarrow> asset_id \<Rightarrow> balance \<Rightarrow> 's \<Rightarrow> 'e executor_error + balance"
  amm_in_given_out :: "pool_type \<Rightarrow> asset_id \<Rightarrow> asset_id \<Rightarrow> balance \<Rightarrow> 's \<Rightarrow> 'e executor_error + balance"
  amm_execute_sell :: "origin \<Rightarrow> pool_type \<Rightarrow> asset_id \<Rightarrow> asset_id \<Rightarrow> balance \<Rightarrow> balance \<Rightarrow> 's \<Rightarrow> 'e executor_error + 's"
  amm_execute_buy :: "origin \<Rightarrow> pool_type \<Rightarrow> asset_id \<Rightarrow> asset_id \<Rightarrow> balance \<Rightarrow> balance \<Rightarrow> 's \<Rightarrow> 'e executor_error + 's"
  amm_liquidity_depth :: "pool_type \<Rightarrow> asset_id \<Rightarrow> asset_id \<Rightarrow> 's \<Rightarrow> 'e executor_error + balance"
  amm_spot_price_with_fee :: "pool_type \<Rightarrow> asset_id \<Rightarrow> asset_id \<Rightarrow> 's \<Rightarrow> 'e executor_error + nat"

definition or_else :: "'e executor_error + 'a \<Rightarrow> 'e executor_error + 'a \<Rightarrow> 'e executor_error + 'a" where
  "or_else m n = (case m of Inl NotSupported \<Rightarrow> n | _ \<Rightarrow> m)"

lemma or_else_Inr [res_iff]: "or_else m n = Inr x \<longleftrightarrow> m = Inr x \<or> m = Inl NotSupported \<and> n = Inr x"
  by (auto simp: or_else_def split: sum.splits executor_error.splits)

definition amm_tuple :: "('s, 'e) amm \<Rightarrow> ('s, 'e) amm \<Rightarrow> ('s, 'e) amm" where
  "amm_tuple M N = \<lparr>
     amm_out_given_in = (\<lambda>p a b n s. or_else (amm_out_given_in M p a b n s) (amm_out_given_in N p a b n s)),
     amm_in_given_out = (\<lambda>p a b n s. or_else (amm_in_given_out M p a b n s) (amm_in_given_out N p a b n s)),
     amm_execute_sell = (\<lambda>who p a b n l s. or_else (amm_execute_sell M who p a b n l s) (amm_execute_sell N who p a b n l s)),
     amm_execute_buy = (\<lambda>who p a b n l s. or_else (amm_execute_buy M who p a b n l s) (amm_execute_buy N who p a b n l s)),
     amm_liquidity_depth = (\<lambda>p a b s. or_else (amm_liquidity_depth M p a b s) (amm_liquidity_depth N p a b s)),
     amm_spot_price_with_fee = (\<lambda>p a b s. or_else (amm_spot_price_with_fee M p a b s) (amm_spot_price_with_fee N p a b s))\<rparr>"

end
