(* ===== verification/Omnipool_Router.thy ===== *)
theory Omnipool_Router
  imports Omnipool_Runs Dynamic_Fees Router_Types
begin

text \<open>
  The Omnipool as the route executor and other pallets see it
  (\<open>pallets/omnipool/src/router_execution.rs\<close> and \<open>provider.rs\<close>): quotes, execution and spot
  prices. A quote reads the fee without storing it and peeks at the slip-fee storage without taking a
  snapshot; the lemmas \<open>sell_quote_exact\<close> and \<open>buy_quote_exact\<close> say that it is nevertheless what the trade then executes.
\<close>

type_synonym 'a executor_result = "omnipool_error dispatch_error executor_error + 'a"

definition omnipool_calculate_out_given_in ::
    "'w omnipool_config \<Rightarrow> pool_type \<Rightarrow> asset_id \<Rightarrow> asset_id \<Rightarrow> balance \<Rightarrow> 'w omnipool \<Rightarrow> balance executor_result" where
  "omnipool_calculate_out_given_in C pool asset_in asset_out amount_in s =
     ensure (pool = Pool_Omnipool) NotSupported (
     ensure (asset_out \<noteq> hub_asset_id C) (Executor_Error (Module NotAllowed)) (
     tryR (executor (load_asset_state C asset_out s)) (\<lambda>out_state.
     if asset_in = hub_asset_id C then
       let (asset_fee, _) = fee_get C (world s) (asset_out, reserve out_state);
           slip = peek_hub_trade_slip_fees asset_out (hub_reserve out_state) s
       in
       tryR (ok_or (calculate_sell_hub_state_changes (oarith C) out_state amount_in asset_fee slip)
               (Executor_Error (Arithmetic Arith_Overflow))) (\<lambda>changes.
       Inr (bu_amount (delta_reserve (hub_asset changes))))
     else
       tryR (executor (load_asset_state C asset_in s)) (\<lambda>in_state.
       let (asset_fee, _) = fee_get C (world s) (asset_out, reserve out_state);
           (_, protocol_fee) = fee_get C (world s) (asset_in, reserve in_state);
           slip = peek_trade_slip_fees asset_in (hub_reserve in_state) asset_out (hub_reserve out_state) s
       in
       tryR (ok_or (calculate_sell_state_changes (oarith C) in_state out_state amount_in asset_fee
               protocol_fee (burn_protocol_fee C) slip) (Executor_Error (Arithmetic Arith_Overflow))) (\<lambda>changes.
       Inr (bu_amount (delta_reserve (tsc_asset_out changes))))))))"

definition omnipool_calculate_in_given_out ::
    "'w omnipool_config \<Rightarrow> pool_type \<Rightarrow> asset_id \<Rightarrow> asset_id \<Rightarrow> balance \<Rightarrow> 'w omnipool \<Rightarrow> balance executor_result" where
  "omnipool_calculate_in_given_out C pool asset_in asset_out amount_out s =
     ensure (pool = Pool_Omnipool) NotSupported (
     ensure (asset_out \<noteq> hub_asset_id C) (Executor_Error (Module NotAllowed)) (
     tryR (executor (load_asset_state C asset_out s)) (\<lambda>out_state.
     if asset_in = hub_asset_id C then
       let (asset_fee, _) = fee_get C (world s) (asset_out, reserve out_state);
           slip = peek_hub_trade_slip_fees asset_out (hub_reserve out_state) s
       in
       tryR (ok_or (calculate_buy_for_hub_asset_state_changes (oarith C) out_state amount_out asset_fee slip)
               (Executor_Error (Arithmetic Arith_Overflow))) (\<lambda>changes.
       Inr (bu_amount (delta_hub_reserve (hub_asset changes))))
     else
       tryR (executor (load_asset_state C asset_in s)) (\<lambda>in_state.
       let (asset_fee, _) = fee_get C (world s) (asset_out, reserve out_state);
           (_, protocol_fee) = fee_get C (world s) (asset_in, reserve in_state);
           slip = peek_trade_slip_fees asset_in (hub_reserve in_state) asset_out (hub_reserve out_state) s
       in
       tryR (ok_or (calculate_buy_state_changes (oarith C) in_state out_state amount_out asset_fee
               protocol_fee (burn_protocol_fee C) slip) (Executor_Error (Arithmetic Arith_Overflow))) (\<lambda>changes.
       Inr (bu_amount (delta_reserve (tsc_asset_in changes))))))))"

definition omnipool_execute_sell ::
    "'w omnipool_config \<Rightarrow> origin \<Rightarrow> pool_type \<Rightarrow> asset_id \<Rightarrow> asset_id \<Rightarrow> balance \<Rightarrow> balance \<Rightarrow> 'w omnipool \<Rightarrow>
     'w omnipool executor_result" where
  "omnipool_execute_sell C who pool asset_in asset_out amount_in min_limit s =
     ensure (pool = Pool_Omnipool) NotSupported (executor (sell C who asset_in asset_out amount_in min_limit s))"

definition omnipool_execute_buy ::
    "'w omnipool_config \<Rightarrow> origin \<Rightarrow> pool_type \<Rightarrow> asset_id \<Rightarrow> asset_id \<Rightarrow> balance \<Rightarrow> balance \<Rightarrow> 'w omnipool \<Rightarrow>
     'w omnipool executor_result" where
  "omnipool_execute_buy C who pool asset_in asset_out amount_out max_limit s =
     ensure (pool = Pool_Omnipool) NotSupported (executor (buy C who asset_out asset_in amount_out max_limit s))"

definition omnipool_get_liquidity_depth ::
    "'w omnipool_config \<Rightarrow> pool_type \<Rightarrow> asset_id \<Rightarrow> asset_id \<Rightarrow> 'w omnipool \<Rightarrow> balance executor_result" where
  "omnipool_get_liquidity_depth C pool asset_a asset_b s =
     ensure (pool = Pool_Omnipool) NotSupported (
     tryR (executor (load_asset_state C asset_a s)) (\<lambda>st. Inr (reserve st)))"

definition omnipool_spot_price_with_fee ::
    "'w omnipool_config \<Rightarrow> pool_type \<Rightarrow> asset_id \<Rightarrow> asset_id \<Rightarrow> 'w omnipool \<Rightarrow> nat executor_result" where
  "omnipool_spot_price_with_fee C pool asset_a asset_b s =
     ensure (pool = Pool_Omnipool) NotSupported (
     ensure (asset_b \<noteq> hub_asset_id C) (Executor_Error (Module NotAllowed)) (
     if asset_a = hub_asset_id C then
       tryR (executor (load_asset_state C asset_b s)) (\<lambda>b_state.
       let (asset_fee, _) = fee_get C (world s) (asset_b, reserve b_state) in
       tryR (ok_or (calculate_lrna_spot_price (oarith C) b_state (Some asset_fee)) (Executor_Error Corruption)) (\<lambda>p.
       ok_or (fx_reciprocal (oarith C) p) (Executor_Error Corruption)))
     else
       tryR (executor (load_asset_state C asset_a s)) (\<lambda>a_state.
       tryR (executor (load_asset_state C asset_b s)) (\<lambda>b_state.
       let (_, protocol_fee) = fee_get C (world s) (asset_a, reserve a_state);
           (asset_fee, _) = fee_get C (world s) (asset_b, reserve b_state)
       in
       tryR (ok_or (calculate_spot_price (oarith C) a_state b_state (Some (protocol_fee, asset_fee)))
               (Executor_Error Corruption)) (\<lambda>p.
       ok_or (fx_reciprocal (oarith C) p) (Executor_Error Corruption))))))"

text \<open>The spot price provider.\<close>

definition pair_exists :: "asset_id \<Rightarrow> asset_id \<Rightarrow> 'w omnipool \<Rightarrow> bool" where
  "pair_exists asset_a asset_b s = (assets s asset_a \<noteq> None \<and> assets s asset_b \<noteq> None)"

definition ok_opt :: "'e + 'a \<Rightarrow> 'a option" where
  "ok_opt m = (case m of Inl _ \<Rightarrow> None | Inr x \<Rightarrow> Some x)"

definition provider_spot_price ::
    "'w omnipool_config \<Rightarrow> asset_id \<Rightarrow> asset_id \<Rightarrow> 'w omnipool \<Rightarrow> nat option" where
  "provider_spot_price C asset_a asset_b s =
     (if asset_a = asset_b then Some fx_one
      else if asset_a = hub_asset_id C then do {
        b \<leftarrow> ok_opt (load_asset_state C asset_b s);
        fx_checked_from_rational (oarith C) (hub_reserve b) (reserve b)
      }
      else if asset_b = hub_asset_id C then do {
        a \<leftarrow> ok_opt (load_asset_state C asset_a s);
        fx_checked_from_rational (oarith C) (reserve a) (hub_reserve a)
      }
      else do {
        a \<leftarrow> ok_opt (load_asset_state C asset_a s);
        b \<leftarrow> ok_opt (load_asset_state C asset_b s);
        price_a \<leftarrow> fx_checked_from_rational (oarith C) (reserve a) (hub_reserve a);
        price_b \<leftarrow> fx_checked_from_rational (oarith C) (hub_reserve b) (reserve b);
        fx_checked_mul (oarith C) price_a price_b
      })"

section \<open>Quotes and trades agree\<close>

interpretation std_fee: fee_provider "fee_get std_omnipool_config" "fee_get_and_store std_omnipool_config"
  by unfold_locales simp_all

text \<open>Peeking reads what loading would use.\<close>

lemma peek_trade_slip_fees:
  assumes "load_trade_slip_fees a x b y (s\<lparr>world := w\<rparr>) = (slip, s')" "a \<noteq> b"
  shows "peek_trade_slip_fees a x b y s = slip"
  using assms by (auto simp: load_trade_slip_fees_def peek_trade_slip_fees_def snapshot_q0_def Let_def
      split: option.splits prod.splits)

lemma peek_hub_trade_slip_fees:
  assumes "load_hub_trade_slip_fees a x (s\<lparr>world := w\<rparr>) = (slip, s')"
  shows "peek_hub_trade_slip_fees a x s = slip"
  using assms by (auto simp: load_hub_trade_slip_fees_def peek_hub_trade_slip_fees_def snapshot_q0_def Let_def
      split: option.splits prod.splits)

lemma hub_fee_taken_deltas [simp]:
  "delta_reserve (hub_asset (hub_account_for_fee_taken ch k)) = delta_reserve (hub_asset ch)"
  "delta_hub_reserve (hub_asset (hub_account_for_fee_taken ch k)) = delta_hub_reserve (hub_asset ch)"
  by (simp_all add: hub_account_for_fee_taken_def asc_account_for_fee_taken_def Let_def)

lemma trade_fee_taken_deltas [simp]:
  "delta_reserve (tsc_asset_out (account_for_fee_taken ch k)) = delta_reserve (tsc_asset_out ch)"
  by (simp add: account_for_fee_taken_def asc_account_for_fee_taken_def Let_def)

lemma last_event [simp]: "last (omnipool_events (emit ev s)) = ev"
  by (simp add: emit_def)

lemma settle_trade_event:
  assumes "settle_trade C op orig who a_in st_in a_out st_out excl ch s = Inr s'"
  shows "\<exists>hi ho af pf. last (omnipool_events s') = (if op = ExactIn then SellExecuted else BuyExecuted) who a_in a_out
    (bu_amount (delta_reserve (tsc_asset_in ch))) (bu_amount (delta_reserve (tsc_asset_out ch))) hi ho af pf"
  by (rule settle_trade_Inr [OF assms], elim settledE) auto

lemma sell_amount_in:
  "calculate_sell_state_changes A si so n f g m slip = Some ch \<Longrightarrow> delta_reserve (tsc_asset_in ch) = Increase n"
  "calculate_sell_hub_state_changes A so n f hslip = Some hch \<Longrightarrow> delta_hub_reserve (hub_asset hch) = Increase n"
  "calculate_buy_state_changes A si so n f g m slip = Some ch \<Longrightarrow> delta_reserve (tsc_asset_out ch) = Decrease n"
  "calculate_buy_for_hub_asset_state_changes A so n f hslip = Some hch \<Longrightarrow> delta_reserve (hub_asset hch) = Decrease n"
  by (auto elim!: calculate_sell_state_changes_cases calculate_sell_hub_state_changes_cases
      calculate_buy_state_changes_cases calculate_buy_for_hub_asset_state_changes_cases)

definition sell_as_quoted ::
    "'w omnipool_config \<Rightarrow> origin \<Rightarrow> asset_id \<Rightarrow> asset_id \<Rightarrow> balance \<Rightarrow> balance \<Rightarrow> 'w omnipool \<Rightarrow> 'w omnipool \<Rightarrow> bool" where
  "sell_as_quoted C orig a_in a_out n lim s s' \<longleftrightarrow>
     (\<exists>who out hi ho af pf. orig = Signed who \<and> lim \<le> out \<and>
        omnipool_calculate_out_given_in C Pool_Omnipool a_in a_out n s = Inr out \<and>
        last (omnipool_events s') = SellExecuted who a_in a_out n out hi ho af pf)"

definition buy_as_quoted ::
    "'w omnipool_config \<Rightarrow> origin \<Rightarrow> asset_id \<Rightarrow> asset_id \<Rightarrow> balance \<Rightarrow> balance \<Rightarrow> 'w omnipool \<Rightarrow> 'w omnipool \<Rightarrow> bool" where
  "buy_as_quoted C orig a_out a_in n lim s s' \<longleftrightarrow>
     (\<exists>who cost hi ho af pf. orig = Signed who \<and> cost \<le> lim \<and>
        omnipool_calculate_in_given_out C Pool_Omnipool a_in a_out n s = Inr cost \<and>
        last (omnipool_events s') = BuyExecuted who a_in a_out cost n hi ho af pf)"

lemma sell_quote_exact:
  assumes fees: "fee_provider (fee_get C) (fee_get_and_store C)" and run: "sell C orig a_in a_out n lim s = Inr s'"
  shows "sell_as_quoted C orig a_in a_out n lim s s'"
  using run
proof (cases rule: sell_cases)
  case (1 who)
  note hub = 1(1-3)
  from 1(4) show ?thesis
  proof (cases rule: sell_hub_asset_cases)
    case (1 st af g w1 slip s2 ch mi mo tk fs s3 d st' w4 w5 s6 s8 info ev b w11)
    have fee: "fee_get C (world s) (a_out, reserve st) = (af, g)"
      using fee_provider.get_same [OF fees, of "(a_out, reserve st)" "world s"] 1(6) by simp
    have "omnipool_calculate_out_given_in C Pool_Omnipool a_in a_out n s = Inr (bu_amount (delta_reserve (hub_asset ch)))"
      using hub 1(2,8) fee peek_hub_trade_slip_fees [OF 1(7)] by (simp add: omnipool_calculate_out_given_in_def)
    then show ?thesis
      using hub 1(9,13,20,21) sell_amount_in(2) [OF 1(8)] by (auto simp: sell_as_quoted_def)
  qed
next
  case (2 who st_in st_out excl af x1 w1 x2 pf w2 slip s2 ch mi mo)
  have fee: "fee_get C (world s) (a_out, reserve st_out) = (af, x1)" "fee_get C (world s) (a_in, reserve st_in) = (x2, pf)"
    using fee_provider.two_fees [OF fees 2(12,13)] 2(2) by auto
  have "omnipool_calculate_out_given_in C Pool_Omnipool a_in a_out n s = Inr (bu_amount (delta_reserve (tsc_asset_out ch)))"
    using 2(2-4,6,7,15) fee peek_trade_slip_fees [OF 2(14,2)] by (simp add: omnipool_calculate_out_given_in_def)
  then show ?thesis
    using 2(1,17) settle_trade_event [OF 2(20)] sell_amount_in(1) [OF 2(15)] by (auto simp: sell_as_quoted_def)
qed

lemma buy_quote_exact:
  assumes fees: "fee_provider (fee_get C) (fee_get_and_store C)" and run: "buy C orig a_out a_in n lim s = Inr s'"
  shows "buy_as_quoted C orig a_out a_in n lim s s'"
  using run
proof (cases rule: buy_cases)
  case (1 who)
  note hub = 1(1-3)
  from 1(4) show ?thesis
  proof (cases rule: buy_asset_for_hub_asset_cases)
    case (1 st af g w1 slip s2 ch mi mo tk fs s3 d st' w4 w5 s6 s8 info ev b w11)
    have fee: "fee_get C (world s) (a_out, reserve st) = (af, g)"
      using fee_provider.get_same [OF fees, of "(a_out, reserve st)" "world s"] 1(6) by simp
    have "omnipool_calculate_in_given_out C Pool_Omnipool a_in a_out n s = Inr (bu_amount (delta_hub_reserve (hub_asset ch)))"
      using hub 1(2,8) fee peek_hub_trade_slip_fees [OF 1(7)] by (simp add: omnipool_calculate_in_given_out_def)
    then show ?thesis
      using hub 1(9,13,20,21) sell_amount_in(4) [OF 1(8)] by (auto simp: buy_as_quoted_def)
  qed
next
  case (2 who st_in st_out excl af x1 w1 x2 pf w2 slip s2 ch mi mo)
  have fee: "fee_get C (world s) (a_out, reserve st_out) = (af, x1)" "fee_get C (world s) (a_in, reserve st_in) = (x2, pf)"
    using fee_provider.two_fees [OF fees 2(12,13)] 2(2) by auto
  have "omnipool_calculate_in_given_out C Pool_Omnipool a_in a_out n s = Inr (bu_amount (delta_reserve (tsc_asset_in ch)))"
    using 2(2-4,6,7,15) fee peek_trade_slip_fees [OF 2(14,2)] by (simp add: omnipool_calculate_in_given_out_def)
  then show ?thesis
    using 2(1,16) settle_trade_event [OF 2(19)] sell_amount_in(3) [OF 2(15)] by (auto simp: buy_as_quoted_def)
qed

section \<open>Sample quotes\<close>

lemmas buy_eval = sell_eval buy_def calculate_buy_state_changes_def calculate_fee_amount_for_buy_def

lemma sample_buy:
  "\<exists>s'. buy std_omnipool_config (Signed 7) 0 2 100000 60000 sample_pool = Inr s'"
  by (simp add: buy_eval)

end
