(* ===== verification/Omnipool_Safety.thy ===== *)
theory Omnipool_Safety
  imports Omnipool_Runs
begin

text \<open>
  What no caller can make the Omnipool pallet do: fail one of its own consistency checks from a
  balanced state, change a position of somebody else, move the reserves of a frozen asset, or
  set a slip fee above the cap.
\<close>

section \<open>The self-checks of a trade never fail\<close>

definition self_fails :: "'a omnipool_result \<Rightarrow> bool" where
  "self_fails m \<longleftrightarrow> m = Inl (Module InvariantError) \<or> m = Inl (Module InvalidOmnipoolHubReserve)"

lemma self_fails_simps [simp]: "\<not> self_fails (Inr v)" "\<not> self_fails (Inl (Arithmetic e))" "\<not> self_fails (Inl BadOrigin)"
  "\<not> self_fails (Inl (Foreign n))" "self_fails (Inl (Module x)) \<longleftrightarrow> x = InvariantError \<or> x = InvalidOmnipoolHubReserve"
  by (simp_all add: self_fails_def)

lemma self_fails_tryR:
  "self_fails (tryR m k) \<longleftrightarrow> self_fails m \<or> (\<exists>x. m = Inr x \<and> self_fails (k x))"
  by (cases m) (auto simp: self_fails_def)

lemma self_fails_ok_or: "self_fails (ok_or m e) \<longleftrightarrow> m = None \<and> self_fails (Inl e :: 'a omnipool_result)"
  for m :: "'a option"
  by (cases m) (auto simp: self_fails_def)

lemma self_fails_foreign: "\<not> self_fails (foreign m)"
  by (cases m) (auto simp: self_fails_def)

lemma self_fails_ensure:
  "self_fails (ensure b e k) \<longleftrightarrow> (\<not> b \<and> self_fails (Inl e :: 'a omnipool_result)) \<or> (b \<and> self_fails k)"
  for k :: "'a omnipool_result"
  by (cases b) auto

lemmas self_fails_iff = self_fails_tryR self_fails_ok_or self_fails_foreign self_fails_ensure

text \<open>The parts of a trade that have no check of their own.\<close>

lemma harmless [simp]:
  "\<not> self_fails (load_asset_state C a s)" "\<not> self_fails (process_trade_fee C who a n s)"
  "\<not> self_fails (update_hub_asset_liquidity C d s)" "\<not> self_fails (update_slip_fee_delta a m b n s)"
  "\<not> self_fails (update_slip_fee_delta_hub_trade a m s)"
  "\<not> self_fails (of_broadcast b')"
  by (auto simp: load_asset_state_def process_trade_fee_def update_hub_asset_liquidity_def update_slip_fee_delta_def
      update_slip_fee_delta_hub_trade_def of_broadcast_def self_fails_iff Let_def
      split: prod.splits balance_update.splits sum.splits if_splits)

lemma harmless_fee [simp]:
  "\<not> self_fails (increase_hdx_subpool_hub_reserve C orig n s)" "\<not> self_fails (process_protocol_fee C orig n m s)"
proof -
  show hdx: "\<not> self_fails (increase_hdx_subpool_hub_reserve C orig n s)" for n s
    by (auto simp: increase_hdx_subpool_hub_reserve_def self_fails_iff Let_def case_prod_beta)
  show "\<not> self_fails (process_protocol_fee C orig n m s)"
    using hdx by (auto simp: process_protocol_fee_def self_fails_iff Let_def)
qed

text \<open>Elimination rules for a run that ends in a failed self-check.\<close>

lemma sf_ok_orE: "self_fails (tryR (ok_or m (Arithmetic a)) k) \<Longrightarrow> (\<And>x. m = Some x \<Longrightarrow> self_fails (k x) \<Longrightarrow> P) \<Longrightarrow> P"
  by (auto simp: self_fails_iff res_iff)

lemma sf_foreignE: "self_fails (tryR (foreign m) k) \<Longrightarrow> (\<And>x. m = Inr x \<Longrightarrow> self_fails (k x) \<Longrightarrow> P) \<Longrightarrow> P"
  by (auto simp: self_fails_iff res_iff)

lemma sf_harmlessE:
  "\<not> self_fails m \<Longrightarrow> self_fails (tryR m k) \<Longrightarrow> (\<And>x. m = Inr x \<Longrightarrow> self_fails (k x) \<Longrightarrow> P) \<Longrightarrow> P"
  by (auto simp: self_fails_iff)

lemma sf_caseE: "self_fails (case q of (x, y) \<Rightarrow> k x y) \<Longrightarrow> (\<And>x y. q = (x, y) \<Longrightarrow> self_fails (k x y) \<Longrightarrow> P) \<Longrightarrow> P"
  by (cases q) auto

lemma sf_case_nestedE: "self_fails ((\<lambda>((x, y), w). k x y w) q) \<Longrightarrow>
    (\<And>x y w. q = ((x, y), w) \<Longrightarrow> self_fails (k x y w) \<Longrightarrow> P) \<Longrightarrow> P"
  by (cases q) auto

lemma sf_ensureE: "self_fails (ensure b e k) \<Longrightarrow> \<not> self_fails (Inl e :: unit omnipool_result) \<Longrightarrow>
    (b \<Longrightarrow> self_fails k \<Longrightarrow> P) \<Longrightarrow> P"
  by (cases b) (auto simp: self_fails_def)

lemmas sf_elims = sf_ok_orE sf_foreignE sf_harmlessE [OF harmless(1)] sf_harmlessE [OF harmless(2)]
  sf_harmlessE [OF harmless(3)] sf_harmlessE [OF harmless(4)] sf_harmlessE [OF harmless(5)] sf_harmlessE [OF harmless(6)]
  sf_harmlessE [OF harmless_fee(2)] sf_case_nestedE sf_caseE

lemma settle_trade_self_fails:
  assumes "self_fails (settle_trade C op orig who a_in st_in a_out st_out excl ch s)"
  obtains ni no s' where "settled C op orig who a_in st_in a_out st_out ch s ni no s'"
    "self_fails (ensure_trade_invariant C (a_in, st_in, ni) (a_out, st_out, no) excl s')"
proof -
  from assms [unfolded settle_trade_def Let_def]
  show thesis
    by (elim sf_elims; hypsubst?) (rule that, rule settledI, assumption, rule refl, assumption, assumption, assumption, assumption,
        assumption, assumption, assumption, assumption, assumption, rule refl, rule refl, simp add: self_fails_iff)
qed

text \<open>The sold asset's side of a trade, needed by the check on its product.\<close>

definition in_side_ok :: "'x asset_reserve_state_scheme \<Rightarrow> asset_state_change \<Rightarrow> bool" where
  "in_side_ok si d \<longleftrightarrow> (\<exists>x hi. delta_reserve d = Increase x \<and> delta_hub_reserve d = Decrease hi \<and>
     extra_hub_reserve_amount d = Increase 0 \<and> hi \<le> hub_reserve si \<and>
     reserve si * hub_reserve si \<le> (reserve si + x) * (hub_reserve si - hi))"

lemma sell_in_side:
  assumes "calculate_sell_state_changes A si so n f g m slip = Some t"
  shows "in_side_ok si (tsc_asset_in t)"
  using assms
proof (cases rule: calculate_sell_state_changes_cases)
  case (1 hi pf ss g sb ho ao y mt)
  have "hi \<le> hub_reserve si" using product_step_le_reserve [of "hub_reserve si" n "reserve si"] by (simp add: 1(1) mult.commute)
  moreover have "reserve si * hub_reserve si \<le> (reserve si + n) * (hub_reserve si - hi)"
    using product_step_ge [of "hub_reserve si" "reserve si" n] by (simp add: 1(1) mult.commute)
  ultimately show ?thesis by (simp add: in_side_ok_def 1(14))
qed

lemma buy_in_side:
  assumes "calculate_buy_state_changes A si so n f g m slip = Some t"
  shows "in_side_ok si (tsc_asset_in t)"
  using assms
proof (cases rule: calculate_buy_state_changes_cases)
  case (1 rn d dg hi x pf ss g sb ho mt)
  have "hub_reserve si * reserve si \<le> (hub_reserve si - hi) * (reserve si + x)"
    using product_inverse_step_ge [OF 1(7), of "reserve si"] by (simp only: 1(8))
  then show ?thesis using 1(7) by (simp add: in_side_ok_def 1(18) mult.commute)
qed

lemma in_side_product:
  assumes "in_side_ok si d" "delta_update si d = Some ni"
  shows "reserve si * hub_reserve si \<le> reserve ni * hub_reserve ni" "hub_reserve ni \<le> hub_reserve si"
proof -
  obtain x hi where d: "delta_reserve d = Increase x" "delta_hub_reserve d = Decrease hi"
      "extra_hub_reserve_amount d = Increase 0" "hi \<le> hub_reserve si"
      "reserve si * hub_reserve si \<le> (reserve si + x) * (hub_reserve si - hi)"
    using assms(1) by (auto simp: in_side_ok_def)
  have "bu_val (total_delta_hub_reserve d) = - int hi"
    using d by (simp add: total_delta_hub_reserve_def bu_saturating_merge_def saturating_sub_def)
  then have "reserve ni = reserve si + x" "hub_reserve ni = hub_reserve si - hi"
    using delta_update_Some(1,2) [OF assms(2)] d by auto
  then show "reserve si * hub_reserve si \<le> reserve ni * hub_reserve ni" "hub_reserve ni \<le> hub_reserve si"
    using d by simp_all
qed

text \<open>The hub reserves apart from those of the two traded assets and HDX.\<close>

definition other_hub :: "'w omnipool_config \<Rightarrow> asset_id \<Rightarrow> asset_id \<Rightarrow> 'w omnipool \<Rightarrow> balance" where
  "other_hub C a b s = map_sum as_hub_reserve ((assets s)(a := None, b := None, hdx_asset_id C := None))"

lemma hub_sum_split:
  assumes "finite (dom (assets s))" "a \<noteq> b"
  shows "map_sum as_hub_reserve (assets s) =
    opt_val as_hub_reserve (assets s a) + opt_val as_hub_reserve (assets s b) +
    (if hdx_asset_id C = a \<or> hdx_asset_id C = b then 0 else opt_val as_hub_reserve (assets s (hdx_asset_id C))) +
    other_hub C a b s"
proof -
  let ?f = as_hub_reserve and ?m = "assets s" and ?c = "hdx_asset_id C"
  have 1: "map_sum ?f ?m = opt_val ?f (?m a) + map_sum ?f (?m(a := None))" by (rule map_sum_remove [OF assms(1)])
  have 2: "map_sum ?f (?m(a := None)) = opt_val ?f (?m b) + map_sum ?f (?m(a := None, b := None))"
    using map_sum_remove [of "?m(a := None)" ?f b] assms by simp
  have 3: "map_sum ?f (?m(a := None, b := None)) =
      (if ?c = a \<or> ?c = b then 0 else opt_val ?f (?m ?c)) + other_hub C a b s"
    using map_sum_remove [of "?m(a := None, b := None)" ?f ?c] assms by (auto simp: other_hub_def)
  show ?thesis using 1 2 3 by simp
qed

lemma hub_trades_harmless:
  "\<not> self_fails (sell_hub_asset C orig who a n lim s)" "\<not> self_fails (buy_asset_for_hub_asset C orig who a n lim s)"
  "\<not> self_fails (sell_asset_for_hub_asset s)" "\<not> self_fails (buy_hub_asset s)"
  by (auto simp: sell_hub_asset_def buy_asset_for_hub_asset_def sell_asset_for_hub_asset_def buy_hub_asset_def
      self_fails_iff Let_def case_prod_beta)

lemma ensure_signed_harmless: "\<not> self_fails (ensure_signed orig)"
  by (auto simp: ensure_signed_def split: origin.splits)

lemmas sf_signedE = sf_harmlessE [OF ensure_signed_harmless]

lemmas sf_guards = sf_ensureE [of _ "Module SameAssetTradeNotAllowed", simplified]
  sf_ensureE [of _ "Module InsufficientTradingAmount", simplified]
  sf_ensureE [of _ "Module InsufficientBalance", simplified]
  sf_ensureE [of _ "Module NotAllowed", simplified]
  sf_ensureE [of _ "Module MaxInRatioExceeded", simplified]
  sf_ensureE [of _ "Module ZeroAmountOut", simplified]
  sf_ensureE [of _ "Module BuyLimitNotReached", simplified]
  sf_ensureE [of _ "Module MaxOutRatioExceeded", simplified]
  sf_ensureE [of _ "Module InsufficientLiquidity", simplified]
  sf_ensureE [of _ "Module SellLimitExceeded", simplified]

lemma sf_hub_balanceE:
  "self_fails (tryR (hub_balance_excluding_swap_assets C a x b y s) k) \<Longrightarrow>
     (self_fails (hub_balance_excluding_swap_assets C a x b y s) \<Longrightarrow> P) \<Longrightarrow>
     (\<And>e. hub_balance_excluding_swap_assets C a x b y s = Inr e \<Longrightarrow> self_fails (k e) \<Longrightarrow> P) \<Longrightarrow> P"
  by (auto simp: self_fails_iff)

lemma sell_self_fails:
  assumes "self_fails (sell C orig a_in a_out n lim s)"
  obtains st_in st_out where "a_in \<noteq> a_out" "a_in \<noteq> hub_asset_id C" "a_out \<noteq> hub_asset_id C"
      "load_asset_state C a_in s = Inr st_in" "load_asset_state C a_out s = Inr st_out"
      "self_fails (hub_balance_excluding_swap_assets C a_in st_in a_out st_out s)"
  | who st_in st_out excl af x1 w1 x2 pf w2 slip s2 ch where
      "a_in \<noteq> a_out" "a_in \<noteq> hub_asset_id C" "a_out \<noteq> hub_asset_id C"
      "load_asset_state C a_in s = Inr st_in" "load_asset_state C a_out s = Inr st_out"
      "hub_balance_excluding_swap_assets C a_in st_in a_out st_out s = Inr excl"
      "fee_get_and_store C (a_out, reserve st_out) (world s) = ((af, x1), w1)"
      "fee_get_and_store C (a_in, reserve st_in) w1 = ((x2, pf), w2)"
      "load_trade_slip_fees a_in (hub_reserve st_in) a_out (hub_reserve st_out) (s\<lparr>world := w2\<rparr>) = (slip, s2)"
      "calculate_sell_state_changes (oarith C) st_in st_out n af pf (burn_protocol_fee C) slip = Some ch"
      "self_fails (settle_trade C ExactIn orig who a_in st_in a_out st_out excl ch s2)"
proof -
  have ne: "a_in \<noteq> a_out" "a_in \<noteq> hub_asset_id C" "a_out \<noteq> hub_asset_id C"
    using assms by (auto simp: sell_def self_fails_iff ensure_signed_harmless hub_trades_harmless split: if_splits)
  from assms [unfolded sell_def Let_def if_not_P [OF ne(2)] if_not_P [OF ne(3)]]
  show thesis
    by (elim sf_elims sf_guards sf_signedE sf_hub_balanceE) (rule that(1) [OF ne], assumption+, rule that(2) [OF ne], assumption+)
qed

lemma buy_self_fails:
  assumes "self_fails (buy C orig a_out a_in n lim s)"
  obtains st_in st_out where "a_in \<noteq> a_out" "a_in \<noteq> hub_asset_id C" "a_out \<noteq> hub_asset_id C"
      "load_asset_state C a_in s = Inr st_in" "load_asset_state C a_out s = Inr st_out"
      "self_fails (hub_balance_excluding_swap_assets C a_in st_in a_out st_out s)"
  | who st_in st_out excl af x1 w1 x2 pf w2 slip s2 ch where
      "a_in \<noteq> a_out" "a_in \<noteq> hub_asset_id C" "a_out \<noteq> hub_asset_id C"
      "load_asset_state C a_in s = Inr st_in" "load_asset_state C a_out s = Inr st_out"
      "hub_balance_excluding_swap_assets C a_in st_in a_out st_out s = Inr excl"
      "fee_get_and_store C (a_out, reserve st_out) (world s) = ((af, x1), w1)"
      "fee_get_and_store C (a_in, reserve st_in) w1 = ((x2, pf), w2)"
      "load_trade_slip_fees a_in (hub_reserve st_in) a_out (hub_reserve st_out) (s\<lparr>world := w2\<rparr>) = (slip, s2)"
      "calculate_buy_state_changes (oarith C) st_in st_out n af pf (burn_protocol_fee C) slip = Some ch"
      "self_fails (settle_trade C ExactOut orig who a_in st_in a_out st_out excl ch s2)"
proof -
  have ne: "a_in \<noteq> a_out" "a_in \<noteq> hub_asset_id C" "a_out \<noteq> hub_asset_id C"
    using assms by (auto simp: buy_def self_fails_iff ensure_signed_harmless hub_trades_harmless split: if_splits)
  from assms [unfolded buy_def Let_def if_not_P [OF ne(3)] if_not_P [OF ne(2)]]
  show thesis
    by (elim sf_elims sf_guards sf_signedE sf_hub_balanceE) (rule that(1) [OF ne], assumption+, rule that(2) [OF ne], assumption+)
qed

text \<open>The calls that need no governance origin.\<close>

fun user_call :: "omnipool_call \<Rightarrow> bool" where
  "user_call (Call_add_token _ _ _ _) = False"
| "user_call (Call_set_asset_tradable_state _ _) = False"
| "user_call (Call_refund_refused_asset _ _ _) = False"
| "user_call (Call_set_asset_weight_cap _ _) = False"
| "user_call (Call_withdraw_protocol_liquidity _ _ _ _) = False"
| "user_call (Call_remove_token _ _) = False"
| "user_call (Call_set_slip_fee _) = False"
| "user_call _ = True"

text \<open>The shares of \<open>b\<close> a call hands to the protocol: those of the position of \<open>b\<close> it sacrifices.\<close>

definition shares_given :: "omnipool_call \<Rightarrow> 'w omnipool \<Rightarrow> asset_id \<Rightarrow> balance" where
  "shares_given c s b =
     (case c of
        Call_sacrifice_position i \<Rightarrow>
          (case positions s i of Some p \<Rightarrow> if pos_asset_id p = b then pos_shares p else 0 | None \<Rightarrow> 0)
      | _ \<Rightarrow> 0)"

context omnipool_env
begin

lemma inv_hub_sum:
  assumes "omnipool_inv C s"
  shows "map_sum as_hub_reserve (assets s) = hub_bal C (world s)" "finite (dom (assets s))"
    "map_sum as_hub_reserve (assets s) \<le> umax 128"
  using assms free_balance_u128 [of "world s" "hub_asset_id C" "protocol_account C"]
  by (simp_all add: omnipool_inv_def hub_backed_def hub_gap_def)

lemma hub_balance_excluding_ok:
  assumes inv: "omnipool_inv C s" and ne: "a \<noteq> b"
    and ld: "load_asset_state C a s = Inr sa" "load_asset_state C b s = Inr sb"
  shows "\<not> self_fails (hub_balance_excluding_swap_assets C a sa b sb s)"
    and "hub_balance_excluding_swap_assets C a sa b sb s = Inr excl \<Longrightarrow> excl = other_hub C a b s"
proof -
  note sum = inv_hub_sum [OF inv]
  obtain x where x: "assets s a = Some x" "hub_reserve sa = as_hub_reserve x"
    using load_asset_state_Inr [OF ld(1)] .
  obtain y where y: "assets s b = Some y" "hub_reserve sb = as_hub_reserve y"
    using load_asset_state_Inr [OF ld(2)] .
  note split = hub_sum_split [OF sum(2) ne, of C]
  show "\<not> self_fails (hub_balance_excluding_swap_assets C a sa b sb s)"
    using sum split x y
    by (auto simp: hub_balance_excluding_swap_assets_def Let_def self_fails_iff checked_None res_iff ck_iff
        elim!: load_asset_state_Inr split: if_splits)
  show "excl = other_hub C a b s" if "hub_balance_excluding_swap_assets C a sa b sb s = Inr excl"
    using that sum split x y
    by (auto simp: hub_balance_excluding_swap_assets_def Let_def res_iff ck_iff saturating_sub_def
        elim!: load_asset_state_Inr split: if_splits)
qed

lemma delta_update_u128:
  assumes "delta_update st d = Some st'" "reserve st \<le> umax 128" "hub_reserve st \<le> umax 128"
  shows "reserve st' \<le> umax 128" "hub_reserve st' \<le> umax 128"
proof -
  have "bu_apply u x = Some y \<Longrightarrow> x \<le> umax 128 \<Longrightarrow> y \<le> umax 128" for u x y
    by (cases u) (auto simp: ck_iff)
  then show "reserve st' \<le> umax 128" "hub_reserve st' \<le> umax 128"
    using assms by (auto simp: delta_update_def ck_iff)
qed

lemma load_u128:
  assumes inv: "omnipool_inv C s" and ld: "load_asset_state C a s = Inr st"
  shows "reserve st \<le> umax 128" "hub_reserve st \<le> umax 128"
proof -
  obtain x where x: "assets s a = Some x" "hub_reserve st = as_hub_reserve x"
      "reserve st = free_balance C (world s) a (protocol_account C)"
    using load_asset_state_Inr [OF ld] by metis
  have "as_hub_reserve x \<le> map_sum as_hub_reserve (assets s)"
    using map_sum_remove [OF inv_hub_sum(2) [OF inv], of as_hub_reserve a] x(1) by simp
  then show "reserve st \<le> umax 128" "hub_reserve st \<le> umax 128"
    using x inv_hub_sum(3) [OF inv] free_balance_u128 by simp_all
qed

lemma trade_check_ok:
  assumes st: "settled C op orig who a_in st_in a_out st_out ch s ni no s'"
    and inv_r: "omnipool_inv C r" and k: "keeps C r s"
    and ld: "load_asset_state C a_in r = Inr st_in" "load_asset_state C a_out r = Inr st_out"
    and ne: "a_in \<noteq> a_out" "a_in \<noteq> hub_asset_id C" "a_out \<noteq> hub_asset_id C"
    and nd: "no_share_delta (tsc_asset_in ch)" "no_share_delta (tsc_asset_out ch)"
    and side: "in_side_ok st_in (tsc_asset_in ch)" and hdx: "assets r (hdx_asset_id C) \<noteq> None"
  shows "ensure_trade_invariant C (a_in, st_in, ni) (a_out, st_out, no) (other_hub C a_in a_out r) s' = Inr ()"
proof -
  have inv: "omnipool_inv C s" by (rule keeps_inv [OF k inv_r])
  have same: "assets s = assets r" using k by (simp add: keeps_def)
  note fin = inv_hub_sum(2) [OF inv] and u = load_u128 [OF inv_r ld(1)]
  have acc: "hub_gap C s' = hub_gap C s" "same_lp s s'"
    using settled_accounting [OF st ld same fin ne nd] by simp_all
  have inv': "omnipool_inv C s'" by (rule same_lp_inv [OF acc(2,1) inv])
  have up: "delta_update st_in (tsc_asset_in ch) = Some ni"
    using st by (rule settledE) simp
  note p = in_side_product [OF side up] and u' = delta_update_u128 [OF up u]
  have rest: "other_hub C a_in a_out s' = other_hub C a_in a_out r"
    using settled_frame [OF st ne(3)] same unfolding other_hub_def by (intro arg_cong [where f = "map_sum as_hub_reserve"] ext) simp
  have dom: "dom (assets s') = dom (assets s)" by (rule same_lp_dom [OF acc(2)])
  obtain x y z where xyz: "assets s' a_in = Some x" "assets s' a_out = Some y" "assets s' (hdx_asset_id C) = Some z"
    using dom hdx ld same by (auto elim!: load_asset_state_Inr) (metis domD domI)
  have sum: "map_sum as_hub_reserve (assets s') = as_hub_reserve x + as_hub_reserve y +
      (if hdx_asset_id C = a_in \<or> hdx_asset_id C = a_out then 0 else as_hub_reserve z) + other_hub C a_in a_out r"
    using hub_sum_split [OF inv_hub_sum(2) [OF inv'] ne(1), of C] xyz rest by simp
  have prod: "checked_mul 256 (reserve st_in) (hub_reserve st_in) = Some (reserve st_in * hub_reserve st_in)"
    "checked_mul 256 (reserve ni) (hub_reserve ni) = Some (reserve ni * hub_reserve ni)"
    using mult_u128_u256 u u' by (simp_all add: checked_mul_def)
  show ?thesis
    using sum inv_hub_sum [OF inv'] prod p(1) xyz
    by (auto simp: ensure_trade_invariant_def checked_add_def split: if_splits)
qed

lemma excluding_hdx:
  assumes "hub_balance_excluding_swap_assets C a x b y s = Inr e"
    "load_asset_state C a s = Inr x" "load_asset_state C b s = Inr y"
  shows "assets s (hdx_asset_id C) \<noteq> None"
  using assms by (auto simp: hub_balance_excluding_swap_assets_def Let_def res_iff elim!: load_asset_state_Inr
      split: if_splits)

lemma settle_trade_ok:
  assumes inv: "omnipool_inv C r" and k: "keeps C r s"
    and ld: "load_asset_state C a_in r = Inr st_in" "load_asset_state C a_out r = Inr st_out"
    and ex: "hub_balance_excluding_swap_assets C a_in st_in a_out st_out r = Inr excl"
    and ne: "a_in \<noteq> a_out" "a_in \<noteq> hub_asset_id C" "a_out \<noteq> hub_asset_id C"
    and nd: "no_share_delta (tsc_asset_in ch) \<and> no_share_delta (tsc_asset_out ch)"
    and side: "in_side_ok st_in (tsc_asset_in ch)"
  shows "\<not> self_fails (settle_trade C op orig who a_in st_in a_out st_out excl ch s)"
proof
  assume "self_fails (settle_trade C op orig who a_in st_in a_out st_out excl ch s)"
  then obtain ni no s' where st: "settled C op orig who a_in st_in a_out st_out ch s ni no s'"
      "self_fails (ensure_trade_invariant C (a_in, st_in, ni) (a_out, st_out, no) excl s')"
    by (rule settle_trade_self_fails)
  have "excl = other_hub C a_in a_out r" by (rule hub_balance_excluding_ok(2) [OF inv ne(1) ld ex])
  then show False
    using trade_check_ok [OF st(1) inv k ld ne conjunct1 [OF nd] conjunct2 [OF nd] side excluding_hdx [OF ex ld]] st(2)
    by simp
qed

lemma sell_self_checks:
  assumes inv: "omnipool_inv C s"
  shows "\<not> self_fails (sell C orig a_in a_out n lim s)"
proof
  assume "self_fails (sell C orig a_in a_out n lim s)"
  then show False
  proof (cases rule: sell_self_fails)
    case (1 st_in st_out)
    then show ?thesis using hub_balance_excluding_ok(1) [OF inv 1(1,4,5)] by simp
  next
    case (2 who st_in st_out excl af x1 w1 x2 pf w2 slip s2 ch)
    show ?thesis
      using settle_trade_ok [OF inv load_trade_slip_fees_keeps [OF 2(7-9)] 2(4-6) 2(1-3)
        trade_no_share_delta(1) [OF 2(10)] sell_in_side [OF 2(10)]] 2(11) by simp
  qed
qed

lemma buy_self_checks:
  assumes inv: "omnipool_inv C s"
  shows "\<not> self_fails (buy C orig a_out a_in n lim s)"
proof
  assume "self_fails (buy C orig a_out a_in n lim s)"
  then show False
  proof (cases rule: buy_self_fails)
    case (1 st_in st_out)
    then show ?thesis using hub_balance_excluding_ok(1) [OF inv 1(1,4,5)] by simp
  next
    case (2 who st_in st_out excl af x1 w1 x2 pf w2 slip s2 ch)
    show ?thesis
      using settle_trade_ok [OF inv load_trade_slip_fees_keeps [OF 2(7-9)] 2(4-6) 2(1-3)
        trade_no_share_delta(2) [OF 2(10)] buy_in_side [OF 2(10)]] 2(11) by simp
  qed
qed

text \<open>Which positions and which asset states an operation touches.\<close>

lemma do_add_liquidity_frame:
  assumes "do_add_liquidity C orig a n lim s = Inr (i, s')"
  shows "\<exists>p. positions s' = (positions s)(next_position_id s \<mapsto> p)"
    and "\<exists>x y. assets s a = Some x \<and> contains (as_tradable x) ADD_LIQUIDITY \<and> assets s' = (assets s)(a \<mapsto> y)"
proof -
  from assms have "(\<exists>p. positions s' = (positions s)(next_position_id s \<mapsto> p)) \<and>
      (\<exists>x y. assets s a = Some x \<and> contains (as_tradable x) ADD_LIQUIDITY \<and> assets s' = (assets s)(a \<mapsto> y))"
  proof (cases rule: do_add_liquidity_cases)
    case (1 who st fs w2 ch d st' s3 w6 s7 info e1 e2 w10 pos tot ratio)
    note s3 = create_and_mint_Inr [OF 1(13)] and s7 = update_hub_asset_liquidity_Inr [OF 1(16)]
    obtain x where "assets s a = Some x" "tradable st = as_tradable x"
      using load_asset_state_Inr [OF 1(3)] by metis
    then show ?thesis using s3 s7 1(4,19) by auto
  qed
  then show "\<exists>p. positions s' = (positions s)(next_position_id s \<mapsto> p)"
    "\<exists>x y. assets s a = Some x \<and> contains (as_tradable x) ADD_LIQUIDITY \<and> assets s' = (assets s)(a \<mapsto> y)" by blast+
qed

lemma do_remove_liquidity_frame:
  assumes run: "do_remove_liquidity C orig i n lim s = Inr (out, s')" and who: "orig \<noteq> Signed (protocol_account C)"
  obtains who po a x y where "orig = Signed who" "nft_owner C (world s) i = Some who" "positions s' = (positions s)(i := po)"
    "assets s a = Some x" "contains (as_tradable x) REMOVE_LIQUIDITY" "assets s' = (assets s)(a \<mapsto> y)"
  using run
proof (cases rule: do_remove_liquidity_cases)
  case (1 w p a st fs w2 fee spot ext orp ch d st' p' w3 dh s4 s5 s7 info ev w10)
  have "w \<noteq> protocol_account C" using who 1(1) by auto
  note s4 = update_hub_asset_liquidity_Inr [OF 1(21)] and s5 = process_hub_amount_Inr [OF 1(22) this]
    and s7 = position_update_Inr [OF 1(23)]
  obtain x where x: "assets s a = Some x" "tradable st = as_tradable x"
    using load_asset_state_Inr [OF 1(7)] by metis
  show thesis
    by (rule that [OF 1(1,3) _ x(1)]) (use s4 s5 s7 x(2) 1(8,26) in simp_all)
qed

lemma hub_trade_frame:
  assumes "process_trade_fee C who a f s2 = Inr (tk, fs, s3)" "keeps C s s2" "a \<noteq> hub_asset_id C"
    "update_hub_asset_liquidity C d (s3\<lparr>world := w5\<rparr>) = Inr s6"
    "update_slip_fee_delta_hub_trade a p (set_asset_state a st' s6) = Inr s8" "b \<noteq> a"
  shows "assets s8 b = assets s b"
  using process_trade_fee_keeps [OF assms(1,3)] assms(2,6) update_hub_asset_liquidity_Inr(1) [OF assms(4)]
    update_slip_fee_delta_hub_trade_sel [OF assms(5)] by (simp add: keeps_def)

text \<open>A trade touches only assets that may be sold or bought, and HDX.\<close>

lemma sell_frame:
  assumes run: "sell C orig a_in a_out n lim s = Inr s'" and x: "assets s b = Some x" "b \<noteq> hdx_asset_id C"
    and fz: "\<not> contains (as_tradable x) SELL" "\<not> contains (as_tradable x) BUY"
  shows "assets s' b = assets s b"
  using run
proof (cases rule: sell_cases)
  case (1 who)
  note hub = 1(3)
  from 1(4) show ?thesis
  proof (cases rule: sell_hub_asset_cases)
    case (1 st af g w1 slip s2 ch mi mo tk fs s3 d st' w4 w5 s6 s8 info ev b' w11)
    have "b \<noteq> a_out" using load_asset_state_Inr [OF 1(2)] 1(3) x fz by (metis option.inject)
    then show ?thesis
      using hub_trade_frame [OF 1(12) load_hub_trade_slip_fees_keeps [OF 1(6,7)] hub 1(17,18)] 1(20) by simp
  qed
next
  case (2 who st_in st_out excl af x1 w1 x2 pf w2 slip s2 ch mi mo)
  note k = load_trade_slip_fees_keeps [OF 2(12-14)]
  have "b \<noteq> a_in" "b \<noteq> a_out"
    using load_asset_state_Inr [OF 2(6)] load_asset_state_Inr [OF 2(7)] 2(9) x fz
    unfolding allow_assets_def by (metis option.inject)+
  obtain ni no where "settled C ExactIn orig who a_in st_in a_out st_out ch s2 ni no s'"
    using settle_trade_Inr [OF 2(20)] .
  from settled_frame [OF this 2(4) \<open>b \<noteq> a_in\<close> \<open>b \<noteq> a_out\<close> x(2)] show ?thesis using k by (simp add: keeps_def)
qed

lemma buy_frame:
  assumes run: "buy C orig a_out a_in n lim s = Inr s'" and x: "assets s b = Some x" "b \<noteq> hdx_asset_id C"
    and fz: "\<not> contains (as_tradable x) SELL" "\<not> contains (as_tradable x) BUY"
  shows "assets s' b = assets s b"
  using run
proof (cases rule: buy_cases)
  case (1 who)
  note hub = 1(3)
  from 1(4) show ?thesis
  proof (cases rule: buy_asset_for_hub_asset_cases)
    case (1 st af g w1 slip s2 ch mi mo tk fs s3 d st' w4 w5 s6 s8 info ev b' w11)
    have "b \<noteq> a_out" using load_asset_state_Inr [OF 1(2)] 1(3) x fz by (metis option.inject)
    then show ?thesis
      using hub_trade_frame [OF 1(12) load_hub_trade_slip_fees_keeps [OF 1(6,7)] hub 1(17,18)] 1(20) by simp
  qed
next
  case (2 who st_in st_out excl af x1 w1 x2 pf w2 slip s2 ch mi mo)
  note k = load_trade_slip_fees_keeps [OF 2(12-14)]
  have "b \<noteq> a_in" "b \<noteq> a_out"
    using load_asset_state_Inr [OF 2(6)] load_asset_state_Inr [OF 2(7)] 2(9) x fz
    unfolding allow_assets_def by (metis option.inject)+
  obtain ni no where "settled C ExactOut orig who a_in st_in a_out st_out ch s2 ni no s'"
    using settle_trade_Inr [OF 2(19)] .
  from settled_frame [OF this 2(4) \<open>b \<noteq> a_in\<close> \<open>b \<noteq> a_out\<close> x(2)] show ?thesis using k by (simp add: keeps_def)
qed

lemma liquidity_calls:
  "add_liquidity_with_limit C orig a n lim s = Inr s' \<Longrightarrow> \<exists>i. do_add_liquidity C orig a n lim s = Inr (i, s')"
  "add_liquidity C orig a n s = Inr s' \<Longrightarrow> \<exists>i. do_add_liquidity C orig a n 0 s = Inr (i, s')"
  "add_all_liquidity C orig a lim s = Inr s' \<Longrightarrow> \<exists>i n. do_add_liquidity C orig a n lim s = Inr (i, s')"
  "remove_liquidity_with_limit C orig j n lim s = Inr s' \<Longrightarrow> \<exists>x. do_remove_liquidity C orig j n lim s = Inr (x, s')"
  "remove_liquidity C orig j n s = Inr s' \<Longrightarrow> \<exists>x. do_remove_liquidity C orig j n 0 s = Inr (x, s')"
  "remove_all_liquidity C orig j lim s = Inr s' \<Longrightarrow> \<exists>x n. do_remove_liquidity C orig j n lim s = Inr (x, s')"
  by (auto simp: add_liquidity_def add_liquidity_with_limit_def add_all_liquidity_def remove_liquidity_def
      remove_liquidity_with_limit_def remove_all_liquidity_def res_iff Let_def)

lemma dispatch_cases:
  assumes run: "omnipool_dispatch C orig c s = Inr s'" and u: "user_call c"
  obtains (trade) a b n lim where "sell C orig a b n lim s = Inr s' \<or> buy C orig a b n lim s = Inr s'" "\<And>b. shares_given c s b = 0"
  | (add) a n lim i where "do_add_liquidity C orig a n lim s = Inr (i, s')" "\<And>b. shares_given c s b = 0"
  | (remove) i n lim x where "do_remove_liquidity C orig i n lim s = Inr (x, s')" "\<And>b. shares_given c s b = 0"
  | (sacrifice) i where "sacrifice_position C orig i s = Inr s'" "c = Call_sacrifice_position i"
  using assms by (cases c) (auto dest!: liquidity_calls intro: trade add remove sacrifice simp: shares_given_def)

lemma sacrifice_frame:
  assumes "sacrifice_position C orig i s = Inr s'"
  obtains who p x w where "orig = Signed who" "nft_owner C (world s) i = Some who" "positions s' = (positions s)(i := None)"
    "positions s i = Some p" "assets s (pos_asset_id p) = Some x"
    "assets s' = (assets s)(pos_asset_id p \<mapsto> x\<lparr>as_protocol_shares := as_protocol_shares x + pos_shares p\<rparr>)"
    "nft_burn C i (Some who) (world s) = Inr w" "world s' = w"
  using assms [unfolded sacrifice_position_def Let_def]
  by (elim run_elims) (rule that, simp_all add: res_iff ck_iff, auto)

lemma user_positions:
  assumes run: "omnipool_dispatch C orig c s = Inr s'" and u: "user_call c"
    and inv: "omnipool_inv C s" and who: "orig \<noteq> Signed (protocol_account C)" and ch: "positions s' j \<noteq> positions s j"
  shows "j = next_position_id s \<or> (\<exists>who. orig = Signed who \<and> nft_owner C (world s) j = Some who)"
  using run u
proof (cases rule: dispatch_cases)
  case (trade a b n lim)
  then have "positions s' = positions s"
    using sell_accounting [OF _ inv_hub_sum(2) [OF inv] who] buy_accounting [OF _ inv_hub_sum(2) [OF inv] who]
    by (auto simp: same_lp_def)
  with ch show ?thesis by simp
next
  case (add a n lim i)
  then show ?thesis using do_add_liquidity_frame(1) [OF add(1)] ch by (auto split: if_splits)
next
  case (remove i n lim x)
  show ?thesis by (rule do_remove_liquidity_frame [OF remove(1) who]) (use ch in \<open>auto split: if_splits\<close>)
next
  case (sacrifice i)
  show ?thesis by (rule sacrifice_frame [OF sacrifice(1)]) (use ch in \<open>auto split: if_splits\<close>)
qed

lemma frozen_flags:
  assumes "t = FROZEN"
  shows "\<not> contains t SELL" "\<not> contains t BUY" "\<not> contains t ADD_LIQUIDITY" "\<not> contains t REMOVE_LIQUIDITY"
  using assms by (simp_all add: contains_def FROZEN_def SELL_def BUY_def ADD_LIQUIDITY_def REMOVE_LIQUIDITY_def)

lemma user_frozen:
  assumes run: "omnipool_dispatch C orig c s = Inr s'" and u: "user_call c" and who: "orig \<noteq> Signed (protocol_account C)"
    and x: "assets s b = Some x" "as_tradable x = FROZEN" "b \<noteq> hdx_asset_id C"
  shows "assets s' b = Some (x\<lparr>as_protocol_shares := as_protocol_shares x + shares_given c s b\<rparr>)"
proof -
  note fz = frozen_flags [OF x(2)]
  have same: ?thesis if "assets s' b = assets s b" "shares_given c s b = 0" using that x(1) by simp
  from run u show ?thesis
  proof (cases rule: dispatch_cases)
    case (trade a b' n lim)
    have "assets s' b = assets s b" using trade(1) sell_frame [OF _ x(1,3) fz(1,2)] buy_frame [OF _ x(1,3) fz(1,2)] by blast
    then show ?thesis by (rule same) (rule trade(2))
  next
    case (add a n lim i)
    then show ?thesis using do_add_liquidity_frame(2) [OF add(1)] x fz same by (cases "a = b") auto
  next
    case (remove i n lim y)
    show ?thesis
      by (rule do_remove_liquidity_frame [OF remove(1) who]) (metis fz(4) fun_upd_other option.inject same remove(2) x(1))
  next
    case (sacrifice i)
    show ?thesis
      by (rule sacrifice_frame [OF sacrifice(1)]) (use sacrifice(2) x(1) in \<open>auto simp: shares_given_def\<close>)
  qed
qed

end

section \<open>The tokens of the protocol account\<close>

text \<open>
  What the runtime promises of the token reserves: the fee storage, the position NFTs and the handlers of trades and
  liquidity changes move no balance of the protocol account, and the handler of trade fees takes the asset of the fee only.
\<close>

locale omnipool_tokens = omnipool_env C for C :: "'w omnipool_config" +
  assumes fee_tokens: "fee_get_and_store C k w = (p, w') \<Longrightarrow> free_balance C w' c (protocol_account C) = free_balance C w c (protocol_account C)"
    and mint_tokens: "nft_mint_into C i x w = Inr w' \<Longrightarrow> free_balance C w' c (protocol_account C) = free_balance C w c (protocol_account C)"
    and burn_tokens: "nft_burn C i x' w = Inr w' \<Longrightarrow> free_balance C w' c (protocol_account C) = free_balance C w c (protocol_account C)"
    and liquidity_tokens: "on_liquidity_changed C orig ai w = Inr w' \<Longrightarrow> free_balance C w' c (protocol_account C) = free_balance C w c (protocol_account C)"
    and trade_tokens: "on_trade C orig ai bi w = Inr w' \<Longrightarrow> free_balance C w' c (protocol_account C) = free_balance C w c (protocol_account C)"
    and hub_trade_tokens: "on_hub_asset_trade C orig ai w = Inr w' \<Longrightarrow> free_balance C w' c (protocol_account C) = free_balance C w c (protocol_account C)"
    and trade_fee_tokens: "on_trade_fee C x y a n w = Inr (l, w') \<Longrightarrow> c \<noteq> a \<Longrightarrow>
      free_balance C w' c (protocol_account C) = free_balance C w c (protocol_account C)"
begin

lemma transfer_tokens:
  "transfer C a x y n w = Inr w' \<Longrightarrow> c \<noteq> a \<Longrightarrow> free_balance C w' c (protocol_account C) = free_balance C w c (protocol_account C)"
  using transfer_pool [of a x y n w w' c] by (simp split: if_splits)

lemma update_hub_tokens:
  "update_hub_asset_liquidity C d s = Inr s' \<Longrightarrow> c \<noteq> hub_asset_id C \<Longrightarrow>
     free_balance C (world s') c (protocol_account C) = free_balance C (world s) c (protocol_account C)"
  using deposit_pool [of "hub_asset_id C" _ "world s" _ c] withdraw_pool [of "hub_asset_id C" _ "world s" _ c]
  by (cases d) (auto simp: update_hub_asset_liquidity_def res_iff)

lemma hub_amount_tokens:
  "process_hub_amount C n x s = Inr s' \<Longrightarrow> c \<noteq> hub_asset_id C \<Longrightarrow>
     free_balance C (world s') c (protocol_account C) = free_balance C (world s) c (protocol_account C)"
  using transfer_tokens [of "hub_asset_id C" "protocol_account C" x n "world s" _ c] withdraw_pool [of "hub_asset_id C" n "world s" _ c]
  by (auto simp: process_hub_amount_def res_iff split: if_splits sum.splits)

lemma increase_hdx_tokens:
  "increase_hdx_subpool_hub_reserve C orig n s = Inr s' \<Longrightarrow>
     free_balance C (world s') c (protocol_account C) = free_balance C (world s) c (protocol_account C)"
  unfolding increase_hdx_subpool_hub_reserve_def Let_def
  by (cases "n = 0", simp, simp only: if_False, elim run_elims) (auto, metis fee_tokens hub_trade_tokens)

lemma protocol_fee_tokens:
  "process_protocol_fee C orig n k s = Inr (fs, s') \<Longrightarrow> c \<noteq> hub_asset_id C \<Longrightarrow>
     free_balance C (world s') c (protocol_account C) = free_balance C (world s) c (protocol_account C)"
  by (auto simp: process_protocol_fee_def res_iff Let_def update_hub_tokens increase_hdx_tokens split: if_splits)

lemma process_trade_fee_tokens:
  "process_trade_fee C who a n s = Inr (k, fs, s') \<Longrightarrow> c \<noteq> a \<Longrightarrow>
     free_balance C (world s') c (protocol_account C) = free_balance C (world s) c (protocol_account C)"
  by (auto simp: process_trade_fee_def res_iff Let_def trade_fee_tokens)

lemma settled_tokens:
  assumes run: "settled C op orig who a st_in b st_out ch s ni no s'" and c: "c \<noteq> a" "c \<noteq> b" "c \<noteq> hub_asset_id C"
  shows "free_balance C (world s') c (protocol_account C) = free_balance C (world s) c (protocol_account C)"
  using run
proof (cases rule: settledE)
  case (1 tk fs s1 ch' w2 w3 dh s4 s6 i1 i2 w7 pf s8 ev b4)
  show ?thesis
    using process_trade_fee_tokens [OF 1(1) c(2)] transfer_tokens [OF 1(5) c(1)] transfer_tokens [OF 1(6) c(2)]
      update_hub_tokens [OF 1(8) c(3)] update_slip_fee_delta_sel [OF 1(9)] trade_tokens [OF 1(10), of c]
      protocol_fee_tokens [OF 1(11) c(3)] 1(12) by simp
qed

lemma hub_trade_tokens_run:
  assumes "fee_get_and_store C k (world s) = (p, w1)" "load_hub_trade_slip_fees a h (s\<lparr>world := w1\<rparr>) = (slip, s2)"
    "process_trade_fee C who a f s2 = Inr (tk, fs, s3)"
    "transfer C (hub_asset_id C) who (protocol_account C) n (world s3) = Inr w4" "transfer C a (protocol_account C) who m w4 = Inr w5"
    "update_hub_asset_liquidity C d (s3\<lparr>world := w5\<rparr>) = Inr s6"
    "update_slip_fee_delta_hub_trade a j (set_asset_state a st' s6) = Inr s8" "on_hub_asset_trade C orig info (world s8) = Inr w11"
    and c: "c \<noteq> a" "c \<noteq> hub_asset_id C"
  shows "free_balance C w11 c (protocol_account C) = free_balance C (world s) c (protocol_account C)"
  using fee_tokens [OF assms(1), of c] load_hub_trade_slip_fees_sel(2) [of a h "s\<lparr>world := w1\<rparr>"] assms(2)
    process_trade_fee_tokens [OF assms(3) c(1)] transfer_tokens [OF assms(4) c(2)] transfer_tokens [OF assms(5) c(1)]
    update_hub_tokens [OF assms(6) c(2)] update_slip_fee_delta_hub_trade_sel [OF assms(7)] hub_trade_tokens [OF assms(8), of c]
  by simp

lemma sell_tokens:
  assumes run: "sell C orig a_in a_out n lim s = Inr s'" and x: "assets s c = Some x" "c \<noteq> hub_asset_id C"
    and fz: "\<not> contains (as_tradable x) SELL" "\<not> contains (as_tradable x) BUY"
  shows "free_balance C (world s') c (protocol_account C) = free_balance C (world s) c (protocol_account C)"
  using run
proof (cases rule: sell_cases)
  case (1 who)
  from 1(4) show ?thesis
  proof (cases rule: sell_hub_asset_cases)
    case (1 st af g w1 slip s2 ch mi mo tk fs s3 d st' w4 w5 s6 s8 info ev b' w11)
    have "c \<noteq> a_out" using load_asset_state_Inr [OF 1(2)] 1(3) x fz by (metis option.inject)
    then show ?thesis using hub_trade_tokens_run [OF 1(6,7,12,15-19) _ x(2)] 1(20) by simp
  qed
next
  case (2 who st_in st_out excl af x1 w1 x2 pf w2 slip s2 ch mi mo)
  have ne: "c \<noteq> a_in" "c \<noteq> a_out"
    using load_asset_state_Inr [OF 2(6)] load_asset_state_Inr [OF 2(7)] 2(9) x fz
    unfolding allow_assets_def by (metis option.inject)+
  obtain ni no where "settled C ExactIn orig who a_in st_in a_out st_out ch s2 ni no s'"
    using settle_trade_Inr [OF 2(20)] .
  from settled_tokens [OF this ne x(2)] show ?thesis
    using fee_tokens [OF 2(12), of c] fee_tokens [OF 2(13), of c] 2(14)
      load_trade_slip_fees_sel(2) [of a_in "hub_reserve st_in" a_out "hub_reserve st_out" "s\<lparr>world := w2\<rparr>"] by simp
qed

lemma buy_tokens:
  assumes run: "buy C orig a_out a_in n lim s = Inr s'" and x: "assets s c = Some x" "c \<noteq> hub_asset_id C"
    and fz: "\<not> contains (as_tradable x) SELL" "\<not> contains (as_tradable x) BUY"
  shows "free_balance C (world s') c (protocol_account C) = free_balance C (world s) c (protocol_account C)"
  using run
proof (cases rule: buy_cases)
  case (1 who)
  from 1(4) show ?thesis
  proof (cases rule: buy_asset_for_hub_asset_cases)
    case (1 st af g w1 slip s2 ch mi mo tk fs s3 d st' w4 w5 s6 s8 info ev b' w11)
    have "c \<noteq> a_out" using load_asset_state_Inr [OF 1(2)] 1(3) x fz by (metis option.inject)
    then show ?thesis using hub_trade_tokens_run [OF 1(6,7,12,15-19) _ x(2)] 1(20) by simp
  qed
next
  case (2 who st_in st_out excl af x1 w1 x2 pf w2 slip s2 ch mi mo)
  have ne: "c \<noteq> a_in" "c \<noteq> a_out"
    using load_asset_state_Inr [OF 2(6)] load_asset_state_Inr [OF 2(7)] 2(9) x fz
    unfolding allow_assets_def by (metis option.inject)+
  obtain ni no where "settled C ExactOut orig who a_in st_in a_out st_out ch s2 ni no s'"
    using settle_trade_Inr [OF 2(19)] .
  from settled_tokens [OF this ne x(2)] show ?thesis
    using fee_tokens [OF 2(12), of c] fee_tokens [OF 2(13), of c] 2(14)
      load_trade_slip_fees_sel(2) [of a_in "hub_reserve st_in" a_out "hub_reserve st_out" "s\<lparr>world := w2\<rparr>"] by simp
qed

lemma do_add_liquidity_tokens:
  assumes run: "do_add_liquidity C orig a n lim s = Inr (i, s')" and c: "c \<noteq> a" "c \<noteq> hub_asset_id C"
  shows "free_balance C (world s') c (protocol_account C) = free_balance C (world s) c (protocol_account C)"
  using run
proof (cases rule: do_add_liquidity_cases)
  case (1 who st fs w2 ch d st' s3 w6 s7 info e1 e2 w10 pos tot ratio)
  have "free_balance C (world s3) c (protocol_account C) = free_balance C w2 c (protocol_account C)"
    using 1(13) mint_tokens by (auto simp: create_and_mint_position_instance_def res_iff Let_def ck_iff)
  then show ?thesis
    using fee_tokens [OF 1(5), of c] transfer_tokens [OF 1(15) c(1)] update_hub_tokens [OF 1(16) c(2)]
      liquidity_tokens [OF 1(17), of c] 1(19) by simp
qed

lemma do_remove_liquidity_tokens:
  assumes run: "do_remove_liquidity C orig i n lim s = Inr (out, s')"
    and c: "assets s c = Some x" "\<not> contains (as_tradable x) REMOVE_LIQUIDITY" "c \<noteq> hub_asset_id C"
  shows "free_balance C (world s') c (protocol_account C) = free_balance C (world s) c (protocol_account C)"
  using run
proof (cases rule: do_remove_liquidity_cases)
  case (1 w p a st fs w2 fee spot ext orp ch d st' p' w3 dh s4 s5 s7 info ev w10)
  have ne: "c \<noteq> a" using load_asset_state_Inr [OF 1(7)] 1(8) c by (metis option.inject)
  have "free_balance C (world s7) c (protocol_account C) = free_balance C (world s5) c (protocol_account C)"
    using 1(23) burn_tokens by (auto simp: res_iff split: if_splits)
  then show ?thesis
    using fee_tokens [OF 1(9), of c] transfer_tokens [OF 1(19) ne] update_hub_tokens [OF 1(21) c(3)]
      hub_amount_tokens [OF 1(22) c(3)] liquidity_tokens [OF 1(24), of c] 1(26) by simp
qed

lemma user_frozen_tokens:
  assumes run: "omnipool_dispatch C orig c s = Inr s'" and u: "user_call c"
    and x: "assets s b = Some x" "as_tradable x = FROZEN" "b \<noteq> hub_asset_id C"
  shows "free_balance C (world s') b (protocol_account C) = free_balance C (world s) b (protocol_account C)"
proof -
  note fz = frozen_flags [OF x(2)]
  from run u show ?thesis
  proof (cases rule: dispatch_cases)
    case (trade a b' n lim)
    then show ?thesis using sell_tokens [OF _ x(1,3) fz(1,2)] buy_tokens [OF _ x(1,3) fz(1,2)] by blast
  next
    case (add a n lim i)
    have "b \<noteq> a" using do_add_liquidity_frame(2) [OF add(1)] x(1) fz(3) by auto
    then show ?thesis using do_add_liquidity_tokens [OF add(1) _ x(3)] by simp
  next
    case (remove i n lim y)
    show ?thesis by (rule do_remove_liquidity_tokens [OF remove(1) x(1) fz(4) x(3)])
  next
    case (sacrifice i)
    show ?thesis by (rule sacrifice_frame [OF sacrifice(1)]) (simp add: burn_tokens)
  qed
qed

end

interpretation std_tokens: omnipool_tokens std_omnipool_config
proof (intro omnipool_tokens.intro omnipool_tokens_axioms.intro, goal_cases)
  case 1
  show ?case by (rule std_pool.omnipool_env_axioms)
next
  case (8 x y a n w l w' c)
  then show ?case using std_ledger.transfer_pool [of a x fee_receiver "n div 2" "sw_ledger w" _ c 100]
    by (auto simp: std_trade_fee_def res_iff split: if_splits)
qed (auto simp: res_iff split: if_splits)

section \<open>Properties\<close>

text \<open>
  (C2) The self-checks at the end of a trade never fire: from a balanced state no \<open>sell\<close> and no
  \<open>buy\<close>, whatever its arguments, fails with \<open>InvariantError\<close> or
  \<open>InvalidOmnipoolHubReserve\<close>. The product of the sold asset never falls, and the hub asset in the
  protocol account is what the recorded reserves say.
\<close>

theorem trade_self_checks_never_fail:
  assumes "omnipool_env C" "omnipool_inv C s" "e = InvariantError \<or> e = InvalidOmnipoolHubReserve"
  shows "sell C orig a_in a_out n lim s \<noteq> Inl (Module e) \<and> buy C orig a_out a_in n lim s \<noteq> Inl (Module e)"
  using omnipool_env.sell_self_checks [OF assms(1,2)] omnipool_env.buy_self_checks [OF assms(1,2)] assms(3)
  by (auto simp: self_fails_def)

theorem trade_self_checks_never_fail_witness:
  "sell std_omnipool_config (Signed 7) 2 0 100000 199000 sample_pool \<noteq> Inl (Module InvariantError) \<and>
   buy std_omnipool_config (Signed 7) 0 2 100000 199000 sample_pool \<noteq> Inl (Module InvariantError)"
  by (rule trade_self_checks_never_fail [OF std_pool.omnipool_env_axioms sample_pool_inv]) simp

text \<open>
  (C26) Nobody touches the position of somebody else: a call open to users changes no position but a
  newly created one and those whose NFT the caller owns.
\<close>

theorem positions_only_by_owner:
  assumes "omnipool_env C" "omnipool_inv C s" "omnipool_dispatch C orig c s = Inr s'" "user_call c"
    "orig \<noteq> Signed (protocol_account C)" "positions s' j \<noteq> positions s j"
  shows "j = next_position_id s \<or> (\<exists>who. orig = Signed who \<and> nft_owner C (world s) j = Some who)"
  using omnipool_env.user_positions [OF assms(1,3,4,2,5,6)] .

theorem positions_only_by_owner_witness:
  "\<exists>s'. omnipool_dispatch std_omnipool_config (Signed 7) (Call_sacrifice_position 1) sample_pool = Inr s' \<and>
     (\<exists>who. Signed 7 = Signed who \<and> nft_owner std_omnipool_config (world sample_pool) 1 = Some who)"
proof -
  obtain s' where run: "omnipool_dispatch std_omnipool_config (Signed 7) (Call_sacrifice_position 1) sample_pool = Inr s'"
      and pos: "positions s' 1 = None"
    by (simp add: sacrifice_position_def pool_eval)
  have "positions s' 1 \<noteq> positions sample_pool 1" using pos by (simp add: sample_pool_def)
  from positions_only_by_owner [OF std_pool.omnipool_env_axioms sample_pool_inv run _ _ this] run
  show ?thesis by (simp add: sample_pool_def)
qed

text \<open>
  (C27) A frozen asset stands still: while an asset other than HDX is frozen, no call open to users, from any account but
  the protocol's, changes the tokens of it that the protocol account holds (its reserve), its recorded hub reserve, its
  shares, its cap or its flags. The protocol's share of it changes by a sacrificed position of that asset only, and then
  by exactly the position's shares.
\<close>

theorem frozen_asset_untouched:
  assumes "omnipool_tokens C" "omnipool_dispatch C orig c s = Inr s'" "user_call c" "orig \<noteq> Signed (protocol_account C)"
    "assets s b = Some x" "as_tradable x = FROZEN" "b \<noteq> hdx_asset_id C" "b \<noteq> hub_asset_id C"
  shows "free_balance C (world s') b (protocol_account C) = free_balance C (world s) b (protocol_account C) \<and>
    assets s' b = Some (x\<lparr>as_protocol_shares := as_protocol_shares x +
      (case c of
         Call_sacrifice_position i \<Rightarrow>
           (case positions s i of Some p \<Rightarrow> if pos_asset_id p = b then pos_shares p else 0 | None \<Rightarrow> 0)
       | _ \<Rightarrow> 0)\<rparr>)"
  using omnipool_tokens.user_frozen_tokens [OF assms(1,2,3,5,6,8)]
    omnipool_env.user_frozen [OF omnipool_tokens.axioms(1) [OF assms(1)] assms(2-7)]
  by (simp add: shares_given_def)

definition frozen_pool :: "std_world omnipool" where
  "frozen_pool = sample_pool\<lparr>assets := [
     0 \<mapsto> \<lparr>as_hub_reserve = 1000000000, as_shares = 1000000000, as_protocol_shares = 0,
        as_cap = fx_one, as_tradable = tradability_default\<rparr>,
     2 \<mapsto> \<lparr>as_hub_reserve = 2000000000, as_shares = 1000000000, as_protocol_shares = 100000000,
        as_cap = fx_one, as_tradable = FROZEN\<rparr>]\<rparr>"

theorem frozen_asset_untouched_witness:
  "\<exists>s'. omnipool_dispatch std_omnipool_config (Signed 7) (Call_sacrifice_position 1) frozen_pool = Inr s' \<and>
     ledger_free (sw_ledger (world s')) 2 100 = ledger_free (sw_ledger (world frozen_pool)) 2 100 \<and>
     assets s' 2 = Some \<lparr>as_hub_reserve = 2000000000, as_shares = 1000000000, as_protocol_shares = 1000000000,
       as_cap = fx_one, as_tradable = FROZEN\<rparr>"
proof -
  obtain s' where run: "omnipool_dispatch std_omnipool_config (Signed 7) (Call_sacrifice_position 1) frozen_pool = Inr s'"
    by (simp add: sacrifice_position_def frozen_pool_def pool_eval)
  from frozen_asset_untouched [OF std_tokens.omnipool_tokens_axioms run, of 2] run show ?thesis
    by (simp add: frozen_pool_def sample_pool_def)
qed

end
