(* ===== verification/Reserves.thy ===== *)
theory Reserves
  imports Frame_Support
begin

text \<open>
  Named reserves on the ledger (\<open>orml_traits::NamedMultiReservableCurrency\<close>), third-party code: a
  pallet reserves funds of an account under its own identifier and releases them later. The locale
  \<open>named_reserve\<close> is what the pallets rely on; \<open>std_reservable\<close> is a ledger with a table of
  reserves that meets it.
\<close>

record 'w reservable = "'w currency" +
  reserved_balance_named :: "'w \<Rightarrow> nat \<Rightarrow> asset_id \<Rightarrow> account_id \<Rightarrow> balance"
  reserve_named :: "nat \<Rightarrow> asset_id \<Rightarrow> account_id \<Rightarrow> balance \<Rightarrow> 'w \<Rightarrow> nat + 'w"
  unreserve_named :: "nat \<Rightarrow> asset_id \<Rightarrow> account_id \<Rightarrow> balance \<Rightarrow> 'w \<Rightarrow> balance \<times> 'w"

text \<open>\<open>unreserve_named\<close> releases what there is and returns the amount it could not release.\<close>

locale named_reserve =
  fixes C :: "('w, 'z) reservable_scheme"
  assumes transfer_reserved:
      "transfer C a src dst n w = Inr w' \<Longrightarrow>
         reserved_balance_named C w' i b x = reserved_balance_named C w i b x"
    and reserve_reserved:
      "reserve_named C i a x n w = Inr w' \<Longrightarrow>
         reserved_balance_named C w' j b y =
           reserved_balance_named C w j b y + (if j = i \<and> b = a \<and> y = x then n else 0)"
    and unreserve_rest: "fst (unreserve_named C i a x n w) = n - reserved_balance_named C w i a x"
    and unreserve_reserved:
      "reserved_balance_named C (snd (unreserve_named C i a x n w)) j b y =
         reserved_balance_named C w j b y - (if j = i \<and> b = a \<and> y = x then n else 0)"
    and unreserve_free:
      "free_balance C (snd (unreserve_named C i a x n w)) b y =
         free_balance C w b y + (if b = a \<and> y = x then min n (reserved_balance_named C w i a x) else 0)"

section \<open>A ledger with reserves\<close>

text \<open>Free balances and reserves as two tables; a transfer moves free balance only.\<close>

record reserve_world =
  rw_free :: "asset_id \<Rightarrow> account_id \<Rightarrow> balance"
  rw_reserved :: "nat \<Rightarrow> asset_id \<Rightarrow> account_id \<Rightarrow> balance"

definition upd2 :: "('a \<Rightarrow> 'b \<Rightarrow> 'c) \<Rightarrow> 'a \<Rightarrow> 'b \<Rightarrow> 'c \<Rightarrow> 'a \<Rightarrow> 'b \<Rightarrow> 'c" where
  "upd2 f a x v = f(a := (f a)(x := v))"

lemma upd2_apply [simp]: "upd2 f a x v b y = (if b = a \<and> y = x then v else f b y)"
  by (simp add: upd2_def)

definition rw_deposit :: "asset_id \<Rightarrow> account_id \<Rightarrow> balance \<Rightarrow> reserve_world \<Rightarrow> nat + reserve_world" where
  "rw_deposit a x n w = Inr (w\<lparr>rw_free := upd2 (rw_free w) a x (rw_free w a x + n)\<rparr>)"

definition rw_withdraw :: "asset_id \<Rightarrow> account_id \<Rightarrow> balance \<Rightarrow> reserve_world \<Rightarrow> nat + reserve_world" where
  "rw_withdraw a x n w =
     (if n \<le> rw_free w a x then Inr (w\<lparr>rw_free := upd2 (rw_free w) a x (rw_free w a x - n)\<rparr>) else Inl 2)"

definition rw_transfer ::
    "asset_id \<Rightarrow> account_id \<Rightarrow> account_id \<Rightarrow> balance \<Rightarrow> reserve_world \<Rightarrow> nat + reserve_world" where
  "rw_transfer a src dst n w = tryR (rw_withdraw a src n w) (rw_deposit a dst n)"

definition rw_reserve ::
    "nat \<Rightarrow> asset_id \<Rightarrow> account_id \<Rightarrow> balance \<Rightarrow> reserve_world \<Rightarrow> nat + reserve_world" where
  "rw_reserve i a x n w = tryR (rw_withdraw a x n w) (\<lambda>w.
     Inr (w\<lparr>rw_reserved := (rw_reserved w)(i := upd2 (rw_reserved w i) a x (rw_reserved w i a x + n))\<rparr>))"

definition rw_unreserve ::
    "nat \<Rightarrow> asset_id \<Rightarrow> account_id \<Rightarrow> balance \<Rightarrow> reserve_world \<Rightarrow> balance \<times> reserve_world" where
  "rw_unreserve i a x n w =
     (n - rw_reserved w i a x,
      w\<lparr>rw_free := upd2 (rw_free w) a x (rw_free w a x + min n (rw_reserved w i a x)),
        rw_reserved := (rw_reserved w)(i := upd2 (rw_reserved w i) a x (rw_reserved w i a x - n))\<rparr>)"

lemma rw_transfer_Inr:
  "rw_transfer a src dst n w = Inr w' \<Longrightarrow> n \<le> rw_free w a src \<and> rw_reserved w' = rw_reserved w \<and>
     (src \<noteq> dst \<longrightarrow> rw_free w' b y =
        (if b = a \<and> y = src then rw_free w b y - n else if b = a \<and> y = dst then rw_free w b y + n else rw_free w b y))"
  by (auto simp: rw_transfer_def rw_withdraw_def rw_deposit_def res_iff split: if_splits)

definition std_reservable :: "reserve_world reservable" where
  "std_reservable = \<lparr>
     free_balance = rw_free, total_balance = rw_free,
     can_withdraw = (\<lambda>w a x n. n \<le> rw_free w a x),
     transfer = rw_transfer, deposit = rw_deposit, withdraw = rw_withdraw,
     reserved_balance_named = rw_reserved, reserve_named = rw_reserve, unreserve_named = rw_unreserve\<rparr>"

interpretation std_reserve: named_reserve std_reservable
  by unfold_locales (auto simp: std_reservable_def rw_transfer_Inr rw_reserve_def rw_unreserve_def
      rw_withdraw_def res_iff split: if_splits)

end
