(* ===== verification/Otc.thy ===== *)
theory Otc
  imports Sp_Arith Reserves Broadcast
begin

text \<open>
  The OTC pallet (\<open>pallets/otc/src/lib.rs\<close>): orders that sell a reserved amount of one asset for
  another, filled wholly or in part at the posted price. The storage, events and world are the record
  \<open>otc\<close>; one definition per helper and extrinsic. Existential deposits are storage of the asset registry, so they are read in the
  world. The properties: the reserves of every account are exactly its open orders, an order clears the minimum of the moment it is placed or
  changed, an owner can always cancel, and a fill moves the posted amounts between maker, filler and fee receiver.
\<close>

section \<open>Types\<close>

record order =
  ord_owner :: account_id
  ord_asset_in :: asset_id
  ord_asset_out :: asset_id
  ord_amount_in :: balance
  ord_amount_out :: balance
  ord_partially_fillable :: bool

datatype otc_error =
    AssetNotRegistered | OrderNotFound | OrderIdOutOfBound | OrderNotPartiallyFillable
  | OrderAmountTooSmall | MathError | Forbidden | InsufficientReservedAmount

datatype otc_event =
    Cancelled nat
  | Filled nat account_id balance balance balance
  | PartiallyFilled nat account_id balance balance balance
  | Placed nat asset_id asset_id balance balance bool

record 'w otc_config = "'w reservable" +
  otc_arith :: arith
  otc_asset_exists :: "'w \<Rightarrow> asset_id \<Rightarrow> bool"
  existential_deposit :: "'w \<Rightarrow> asset_id \<Rightarrow> balance"
  existential_deposit_multiplier :: nat
  otc_fee :: nat
  otc_fee_receiver :: account_id
  inc_providers :: "account_id \<Rightarrow> 'w \<Rightarrow> 'w"
  dec_providers :: "account_id \<Rightarrow> 'w \<Rightarrow> nat + 'w"

record 'w otc =
  next_order_id :: nat
  orders :: "nat \<rightharpoonup> order"
  otc_events :: "otc_event list"
  otc_broadcast :: broadcast
  otc_world :: 'w

type_synonym 'a otc_result = "otc_error dispatch_error + 'a"

text \<open>The identifier \<open>b"otcorder"\<close>, as a number.\<close>

definition NAMED_RESERVE_ID :: nat where
  "NAMED_RESERVE_ID = 0x6f74636f72646572"

section \<open>Helpers\<close>

definition calculate_fee :: "'w otc_config \<Rightarrow> balance \<Rightarrow> balance" where
  "calculate_fee C amount = permill_mul_ceil (otc_arith C) (otc_fee C) amount"

definition ensure_min_order_amount :: "'w otc_config \<Rightarrow> 'w \<Rightarrow> asset_id \<Rightarrow> balance \<Rightarrow> unit otc_result" where
  "ensure_min_order_amount C w asset amount =
     tryR (ok_or (checked_mul 128 (existential_deposit C w asset) (existential_deposit_multiplier C)) (Module MathError))
       (\<lambda>min_amount. ensure (min_amount \<le> amount) (Module OrderAmountTooSmall) (Inr ()))"

definition partial_amount_out :: "balance \<Rightarrow> balance \<Rightarrow> balance \<Rightarrow> balance otc_result" where
  "partial_amount_out order_amount_out amount_in order_amount_in =
     tryR (ok_or (do { v \<leftarrow> checked_mul 256 order_amount_out amount_in; checked_div v order_amount_in })
            (Module MathError))
       (\<lambda>amount_out. ok_or (narrow 128 amount_out) (Module MathError))"

definition ensure_remaining_order_valid ::
    "'w otc_config \<Rightarrow> 'w \<Rightarrow> asset_id \<Rightarrow> asset_id \<Rightarrow> balance \<Rightarrow> balance \<Rightarrow> unit otc_result" where
  "ensure_remaining_order_valid C w asset_in asset_out new_amount_in new_amount_out =
     (let remaining_fee = calculate_fee C new_amount_out in
      tryR (ensure_min_order_amount C w asset_in new_amount_in) (\<lambda>_.
      tryR (ok_or (checked_sub new_amount_out remaining_fee) (Module MathError)) (\<lambda>net.
      ensure_min_order_amount C w asset_out net)))"

definition release_reserved_asset_out ::
    "'w otc_config \<Rightarrow> asset_id \<Rightarrow> account_id \<Rightarrow> account_id \<Rightarrow> balance \<Rightarrow> balance \<Rightarrow> 'w \<Rightarrow> 'w otc_result" where
  "release_reserved_asset_out C asset_out owner filler amount_out fee w =
     (case unreserve_named C NAMED_RESERVE_ID asset_out owner amount_out w of
        (remaining_to_unreserve, w1) \<Rightarrow>
          ensure (remaining_to_unreserve = 0) (Module InsufficientReservedAmount)
          (tryR (ok_or (checked_sub amount_out fee) (Module MathError)) (\<lambda>amount_out_without_fee.
           tryR (foreign (transfer C asset_out owner filler amount_out_without_fee w1)) (\<lambda>w2.
           foreign (transfer C asset_out owner (otc_fee_receiver C) fee w2)))))"

definition execute_order ::
    "'w otc_config \<Rightarrow> order \<Rightarrow> account_id \<Rightarrow> balance \<Rightarrow> balance \<Rightarrow> balance \<Rightarrow> 'w \<Rightarrow> 'w otc_result" where
  "execute_order C ord who amount_in amount_out fee w =
     tryR (foreign (transfer C (ord_asset_in ord) who (ord_owner ord) amount_in w)) (\<lambda>w1.
     release_reserved_asset_out C (ord_asset_out ord) (ord_owner ord) who amount_out fee w1)"

definition deposit_fill_events ::
    "'w otc_config \<Rightarrow> nat \<Rightarrow> account_id \<Rightarrow> account_id \<Rightarrow> asset_id \<Rightarrow> asset_id \<Rightarrow> balance \<Rightarrow> balance \<Rightarrow> balance \<Rightarrow>
     bool \<Rightarrow> 'w otc \<Rightarrow> 'w otc" where
  "deposit_fill_events C order_id owner filler asset_in asset_out amount_in amount_out fee is_full_fill s =
     (let event = (if is_full_fill then Filled order_id filler amount_in amount_out fee
                   else PartiallyFilled order_id filler amount_in amount_out fee);
          (swapper_acc, broadcast_filler) = (if is_full_fill then (filler, owner) else (owner, filler))
      in s\<lparr>otc_events := otc_events s @ [event],
           otc_broadcast := deposit_trade_event swapper_acc broadcast_filler (Filler_OTC order_id) ExactIn
             [(asset_in, amount_in)] [(asset_out, amount_out)]
             [\<lparr>fee_asset = asset_out, fee_amount = fee, fee_destination = Account (otc_fee_receiver C)\<rparr>]
             (otc_broadcast s)\<rparr>)"

section \<open>Extrinsics\<close>

definition place_order ::
    "'w otc_config \<Rightarrow> origin \<Rightarrow> asset_id \<Rightarrow> asset_id \<Rightarrow> balance \<Rightarrow> balance \<Rightarrow> bool \<Rightarrow> 'w otc \<Rightarrow> 'w otc otc_result" where
  "place_order C orig asset_in asset_out amount_in amount_out partially_fillable s =
     tryR (ensure_signed orig) (\<lambda>owner.
     let ord = \<lparr>ord_owner = owner, ord_asset_in = asset_in, ord_asset_out = asset_out,
                ord_amount_in = amount_in, ord_amount_out = amount_out,
                ord_partially_fillable = partially_fillable\<rparr> in
     ensure (otc_asset_exists C (otc_world s) (ord_asset_in ord)) (Module AssetNotRegistered)
     (let fee = calculate_fee C (ord_amount_out ord) in
      tryR (ensure_min_order_amount C (otc_world s) (ord_asset_in ord) (ord_amount_in ord)) (\<lambda>_.
      tryR (ok_or (checked_sub (ord_amount_out ord) fee) (Module MathError)) (\<lambda>net.
      tryR (ensure_min_order_amount C (otc_world s) (ord_asset_out ord) net) (\<lambda>_.
      let order_id = next_order_id s in
      tryR (foreign (reserve_named C NAMED_RESERVE_ID (ord_asset_out ord) (ord_owner ord) (ord_amount_out ord)
              (otc_world s))) (\<lambda>w.
      tryR (ok_or (checked_add 32 order_id 1) (Module OrderIdOutOfBound)) (\<lambda>next_id.
      Inr (s\<lparr>otc_world := w, orders := (orders s)(order_id \<mapsto> ord),
             otc_events := otc_events s @
               [Placed order_id (ord_asset_in ord) (ord_asset_out ord) (ord_amount_in ord) amount_out
                 (ord_partially_fillable ord)],
             next_order_id := next_id\<rparr>))))))))"

definition partial_fill_order ::
    "'w otc_config \<Rightarrow> origin \<Rightarrow> nat \<Rightarrow> balance \<Rightarrow> 'w otc \<Rightarrow> 'w otc otc_result" where
  "partial_fill_order C orig order_id amount_in s =
     tryR (ensure_signed orig) (\<lambda>who.
     tryR (ok_or (orders s order_id) (Module OrderNotFound)) (\<lambda>ord.
     ensure (ord_partially_fillable ord) (Module OrderNotPartiallyFillable)
     (tryR (partial_amount_out (ord_amount_out ord) amount_in (ord_amount_in ord)) (\<lambda>amount_out.
      let fee = calculate_fee C amount_out in
      tryR (ok_or (checked_sub (ord_amount_in ord) amount_in) (Module MathError)) (\<lambda>new_amount_in.
      tryR (ok_or (checked_sub (ord_amount_out ord) amount_out) (Module MathError)) (\<lambda>new_amount_out.
      tryR (ensure_remaining_order_valid C (otc_world s) (ord_asset_in ord) (ord_asset_out ord) new_amount_in new_amount_out) (\<lambda>_.
      let ord' = ord\<lparr>ord_amount_in := new_amount_in, ord_amount_out := new_amount_out\<rparr> in
      tryR (execute_order C ord' who amount_in amount_out fee (otc_world s)) (\<lambda>w.
      Inr (deposit_fill_events C order_id (ord_owner ord') who (ord_asset_in ord') (ord_asset_out ord')
             amount_in amount_out fee False
             (s\<lparr>otc_world := w, orders := (orders s)(order_id \<mapsto> ord')\<rparr>))))))))))"

definition fill_order :: "'w otc_config \<Rightarrow> origin \<Rightarrow> nat \<Rightarrow> 'w otc \<Rightarrow> 'w otc otc_result" where
  "fill_order C orig order_id s =
     tryR (ensure_signed orig) (\<lambda>who.
     tryR (ok_or (orders s order_id) (Module OrderNotFound)) (\<lambda>ord.
     let fee = calculate_fee C (ord_amount_out ord) in
     tryR (execute_order C ord who (ord_amount_in ord) (ord_amount_out ord) fee (otc_world s)) (\<lambda>w.
     Inr (deposit_fill_events C order_id (ord_owner ord) who (ord_asset_in ord) (ord_asset_out ord)
            (ord_amount_in ord) (ord_amount_out ord) fee True
            (s\<lparr>otc_world := w, orders := (orders s)(order_id := None)\<rparr>)))))"

definition cancel_order :: "'w otc_config \<Rightarrow> origin \<Rightarrow> nat \<Rightarrow> 'w otc \<Rightarrow> 'w otc otc_result" where
  "cancel_order C orig order_id s =
     tryR (ensure_signed orig) (\<lambda>who.
     tryR (ok_or (orders s order_id) (Module OrderNotFound)) (\<lambda>ord.
     ensure (ord_owner ord = who) (Module Forbidden)
     (case unreserve_named C NAMED_RESERVE_ID (ord_asset_out ord) (ord_owner ord) (ord_amount_out ord) (otc_world s) of
        (remaining_to_unreserve, w) \<Rightarrow>
          ensure (remaining_to_unreserve = 0) (Module InsufficientReservedAmount)
          (Inr (s\<lparr>otc_world := w, orders := (orders s)(order_id := None),
                  otc_events := otc_events s @ [Cancelled order_id]\<rparr>)))))"

text \<open>
  \<open>deliver\<close> is the caller's closure: it may run other pallets, so it acts on the whole state. The
  storage entry of the order is written back when the closure of \<open>try_mutate_exists\<close> returns.
\<close>

definition fill_order_with_deferred_delivery ::
    "'w otc_config \<Rightarrow> nat \<Rightarrow> account_id \<Rightarrow> balance \<Rightarrow> (balance \<Rightarrow> 'w otc \<Rightarrow> nat + 'w otc) \<Rightarrow> 'w otc \<Rightarrow>
     'w otc otc_result" where
  "fill_order_with_deferred_delivery C order_id filler_acc amount_in deliver s =
     tryR (ok_or (orders s order_id) (Module OrderNotFound)) (\<lambda>ord.
     ensure (amount_in \<le> ord_amount_in ord) (Module MathError)
     (let is_full_fill = (amount_in = ord_amount_in ord) in
      tryR (if is_full_fill then Inr (ord_amount_out ord)
            else ensure (ord_partially_fillable ord) (Module OrderNotPartiallyFillable)
              (partial_amount_out (ord_amount_out ord) amount_in (ord_amount_in ord))) (\<lambda>amount_out.
      let fee = calculate_fee C amount_out in
      tryR (ok_or (checked_sub amount_out fee) (Module MathError)) (\<lambda>amount_out_without_fee.
      tryR (if is_full_fill then Inr None
            else tryR (ok_or (checked_sub (ord_amount_in ord) amount_in) (Module MathError)) (\<lambda>new_amount_in.
              tryR (ok_or (checked_sub (ord_amount_out ord) amount_out) (Module MathError)) (\<lambda>new_amount_out.
              tryR (ensure_remaining_order_valid C (otc_world s) (ord_asset_in ord) (ord_asset_out ord) new_amount_in new_amount_out) (\<lambda>_.
              Inr (Some (new_amount_in, new_amount_out)))))) (\<lambda>remaining.
      let w1 = inc_providers C (ord_owner ord) (otc_world s) in
      tryR (release_reserved_asset_out C (ord_asset_out ord) (ord_owner ord) filler_acc amount_out fee w1) (\<lambda>w2.
      tryR (foreign (deliver amount_out_without_fee (s\<lparr>otc_world := w2\<rparr>))) (\<lambda>s3.
      tryR (foreign (transfer C (ord_asset_in ord) filler_acc (ord_owner ord) amount_in (otc_world s3))) (\<lambda>w4.
      tryR (foreign (dec_providers C (ord_owner ord) w4)) (\<lambda>w5.
      let new_order = (case remaining of
            None \<Rightarrow> None
          | Some (new_amount_in, new_amount_out) \<Rightarrow>
              Some (ord\<lparr>ord_amount_in := new_amount_in, ord_amount_out := new_amount_out\<rparr>))
      in Inr (deposit_fill_events C order_id (ord_owner ord) filler_acc (ord_asset_in ord) (ord_asset_out ord)
           amount_in amount_out fee is_full_fill
           (s3\<lparr>otc_world := w5, orders := (orders s3)(order_id := new_order)\<rparr>)))))))))))"

section \<open>Reserves and open orders\<close>

abbreviation otc_reserved :: "'w otc_config \<Rightarrow> 'w \<Rightarrow> asset_id \<Rightarrow> account_id \<Rightarrow> balance" where
  "otc_reserved C w \<equiv> reserved_balance_named C w NAMED_RESERVE_ID"

definition offered :: "asset_id \<Rightarrow> account_id \<Rightarrow> order \<Rightarrow> balance" where
  "offered a x ord = (if ord_asset_out ord = a \<and> ord_owner ord = x then ord_amount_out ord else 0)"

definition min_order_amount :: "'w otc_config \<Rightarrow> 'w \<Rightarrow> asset_id \<Rightarrow> balance" where
  "min_order_amount C w a = existential_deposit C w a * existential_deposit_multiplier C"

text \<open>An order clears the minimum amounts of a moment on both sides, net of the fee; existential deposits may change later.\<close>

definition order_clears :: "'w otc_config \<Rightarrow> 'w \<Rightarrow> order \<Rightarrow> bool" where
  "order_clears C w ord \<longleftrightarrow> min_order_amount C w (ord_asset_in ord) \<le> ord_amount_in ord \<and>
     calculate_fee C (ord_amount_out ord) + min_order_amount C w (ord_asset_out ord) \<le> ord_amount_out ord"

definition otc_inv :: "'w otc_config \<Rightarrow> 'w otc \<Rightarrow> bool" where
  "otc_inv C s \<longleftrightarrow> finite (dom (orders s)) \<and> (\<forall>i\<in>dom (orders s). i < next_order_id s) \<and>
     (\<forall>a x. otc_reserved C (otc_world s) a x = map_sum (offered a x) (orders s)) \<and>
     (\<forall>ord\<in>ran (orders s). calculate_fee C (ord_amount_out ord) \<le> ord_amount_out ord)"

lemma ensure_min_order_amount_Inr [res_iff]:
  "ensure_min_order_amount C w a n = Inr u \<longleftrightarrow> min_order_amount C w a \<le> umax 128 \<and> min_order_amount C w a \<le> n"
  by (auto simp: ensure_min_order_amount_def min_order_amount_def res_iff ck_iff)

lemma ensure_remaining_order_valid_Inr:
  "ensure_remaining_order_valid C w a b n m = Inr u \<Longrightarrow> min_order_amount C w a \<le> n \<and> calculate_fee C m + min_order_amount C w b \<le> m"
  by (auto simp: ensure_remaining_order_valid_def Let_def res_iff ck_iff)

lemma partial_amount_out_Inr:
  "partial_amount_out m n k = Inr v \<longleftrightarrow> k \<noteq> 0 \<and> v = m * n div k \<and> m * n \<le> umax 256 \<and> v \<le> umax 128"
  by (auto simp: partial_amount_out_def res_iff ck_iff)

lemma deposit_fill_events_sel [simp]:
  "orders (deposit_fill_events C i ow f a b n m fee k s) = orders s"
  "next_order_id (deposit_fill_events C i ow f a b n m fee k s) = next_order_id s"
  "otc_world (deposit_fill_events C i ow f a b n m fee k s) = otc_world s"
  by (simp_all add: deposit_fill_events_def Let_def)

lemma offered_sum_upd:
  assumes "finite (dom m)" "m i = Some ord"
  shows "map_sum f (m(i := new)) + f ord = map_sum f m + opt_val f new"
  using map_sum_remove [of m f i] map_sum_remove [of "m(i := new)" f i] assms by (auto split: option.splits)

lemma offered_le_sum: "finite (dom m) \<Longrightarrow> m i = Some ord \<Longrightarrow> f ord \<le> map_sum f m"
  using map_sum_remove [of m f i] by simp

text \<open>
  What is left of an order after fills: the same order with smaller amounts, where what the maker gave
  is at most what the received amount buys at the posted price.
\<close>

definition fair_residual :: "order \<Rightarrow> order \<Rightarrow> bool" where
  "fair_residual ord v \<longleftrightarrow> ord_owner v = ord_owner ord \<and> ord_asset_in v = ord_asset_in ord \<and>
     ord_asset_out v = ord_asset_out ord \<and> ord_partially_fillable v = ord_partially_fillable ord \<and>
     ord_amount_in v \<le> ord_amount_in ord \<and> ord_amount_out v \<le> ord_amount_out ord \<and>
     (ord_amount_out ord - ord_amount_out v) * ord_amount_in ord \<le> (ord_amount_in ord - ord_amount_in v) * ord_amount_out ord"

lemma residual_price_iff:
  fixes n m n' m' :: nat
  assumes "n' \<le> n" "m' \<le> m"
  shows "(m - m') * n \<le> (n - n') * m \<longleftrightarrow> n' * m \<le> m' * n"
proof -
  have "m' * n \<le> m * n" "n' * m \<le> n * m" using assms by (auto intro: mult_le_mono1)
  then show ?thesis unfolding diff_mult_distrib mult.commute [of n m] by linarith
qed

lemma fair_residual_refl: "fair_residual ord ord"
  by (simp add: fair_residual_def)

lemma residual_price_trans:
  fixes n m n' m' k l :: nat
  assumes "n' * m \<le> m' * n" "k * m' \<le> l * n'" "k \<le> n'"
  shows "k * m \<le> l * n"
proof (cases "n' = 0")
  case False
  have "(k * m) * n' \<le> k * (m' * n)" using assms(1) by (simp add: mult.assoc mult.commute [of m n'])
  also have "\<dots> \<le> (l * n') * n" using assms(2) by (simp add: mult.assoc [symmetric])
  finally show ?thesis using False by (simp add: ac_simps)
qed (use assms in simp)

lemma fair_residual_trans: "fair_residual a b \<Longrightarrow> fair_residual b c \<Longrightarrow> fair_residual a c"
  using residual_price_trans [of "ord_amount_in b" "ord_amount_out a" "ord_amount_out b" "ord_amount_in a"
      "ord_amount_in c" "ord_amount_out c"]
  by (auto simp: fair_residual_def residual_price_iff)

lemma partial_fair:
  assumes "partial_amount_out (ord_amount_out ord) n (ord_amount_in ord) = Inr m" "n \<le> ord_amount_in ord" "m \<le> ord_amount_out ord"
  shows "fair_residual ord (ord\<lparr>ord_amount_in := ord_amount_in ord - n, ord_amount_out := ord_amount_out ord - m\<rparr>)"
  using assms by (simp add: fair_residual_def partial_amount_out_Inr mult.commute [of n])

definition reserve_dropped :: "'w otc_config \<Rightarrow> asset_id \<Rightarrow> account_id \<Rightarrow> balance \<Rightarrow> 'w \<Rightarrow> 'w \<Rightarrow> bool" where
  "reserve_dropped C a x n w w' \<longleftrightarrow>
     (\<forall>b y. otc_reserved C w' b y + (if b = a \<and> y = x then n else 0) = otc_reserved C w b y)"

text \<open>
  What every operation on an existing order does to the books: the order is gone or what is left of
  it is \<open>fair_residual\<close>, and the reserve of its owner falls by what it offers less.
\<close>

definition order_changed :: "'w otc_config \<Rightarrow> nat \<Rightarrow> order \<Rightarrow> order option \<Rightarrow> 'w otc \<Rightarrow> 'w otc \<Rightarrow> bool" where
  "order_changed C i ord new s s' \<longleftrightarrow> orders s i = Some ord \<and> orders s' = (orders s)(i := new) \<and>
     next_order_id s' = next_order_id s \<and>
     reserve_dropped C (ord_asset_out ord) (ord_owner ord) (ord_amount_out ord - opt_val ord_amount_out new)
       (otc_world s) (otc_world s') \<and>
     (\<forall>v. new = Some v \<longrightarrow> fair_residual ord v \<and> order_clears C (otc_world s) v)"

text \<open>What a deferred fill expects of its closure: it leaves the pallet's own storage and reserves alone.\<close>

definition delivery_ok :: "'w otc_config \<Rightarrow> (balance \<Rightarrow> 'w otc \<Rightarrow> nat + 'w otc) \<Rightarrow> bool" where
  "delivery_ok C deliver \<longleftrightarrow> (\<forall>n s s'. deliver n s = Inr s' \<longrightarrow> orders s' = orders s \<and>
     next_order_id s' = next_order_id s \<and> (\<forall>a x. otc_reserved C (otc_world s') a x = otc_reserved C (otc_world s) a x))"

text \<open>
  The provider counters of \<open>frame_system\<close> are not balances; identifiers of other pallets differ from
  \<open>NAMED_RESERVE_ID\<close>.
\<close>

locale otc_env = named_reserve C for C :: "'w otc_config" +
  assumes inc_providers_reserved: "reserved_balance_named C (inc_providers C x w) i a y = reserved_balance_named C w i a y"
    and dec_providers_reserved:
      "dec_providers C x w = Inr w' \<Longrightarrow> reserved_balance_named C w' i a y = reserved_balance_named C w i a y"
begin

lemma release_reserved:
  assumes "release_reserved_asset_out C a ow f n fee w = Inr w'"
  shows "reserve_dropped C a ow n w w'"
proof -
  define r where "r = unreserve_named C NAMED_RESERVE_ID a ow n w"
  have rest: "fst r = 0" using assms by (auto simp: release_reserved_asset_out_def r_def [symmetric] res_iff case_prod_beta)
  then have "n \<le> otc_reserved C w a ow" using unreserve_rest [of NAMED_RESERVE_ID a ow n w] by (simp add: r_def)
  moreover have "otc_reserved C w' b x = otc_reserved C (snd r) b x" for b x
    using assms by (auto simp: release_reserved_asset_out_def r_def [symmetric] res_iff case_prod_beta transfer_reserved)
  ultimately show ?thesis by (simp add: reserve_dropped_def r_def unreserve_reserved)
qed

lemma execute_order_reserved:
  assumes "execute_order C ord who n m fee w = Inr w'"
  shows "reserve_dropped C (ord_asset_out ord) (ord_owner ord) m w w'"
proof -
  obtain w1 where w1: "transfer C (ord_asset_in ord) who (ord_owner ord) n w = Inr w1"
      "release_reserved_asset_out C (ord_asset_out ord) (ord_owner ord) who m fee w1 = Inr w'"
    using assms by (auto simp: execute_order_def res_iff)
  show ?thesis using release_reserved [OF w1(2)] transfer_reserved [OF w1(1)] by (simp add: reserve_dropped_def)
qed

lemma offered_sum_changed:
  assumes inv: "otc_inv C s" and ch: "order_changed C i ord new s s'"
  shows "otc_reserved C (otc_world s') a x = map_sum (offered a x) (orders s')"
proof -
  have fin: "finite (dom (orders s))" and sum: "otc_reserved C (otc_world s) a x = map_sum (offered a x) (orders s)"
    using inv by (simp_all add: otc_inv_def)
  have old: "orders s i = Some ord" and new: "orders s' = (orders s)(i := new)"
    and res: "otc_reserved C (otc_world s') a x + (if a = ord_asset_out ord \<and> x = ord_owner ord
        then ord_amount_out ord - opt_val ord_amount_out new else 0) = otc_reserved C (otc_world s) a x"
    using ch by (simp_all add: order_changed_def reserve_dropped_def)
  have le: "opt_val ord_amount_out new \<le> ord_amount_out ord"
    using ch by (cases new) (simp_all add: order_changed_def fair_residual_def)
  have new_val: "opt_val (offered a x) new = (if a = ord_asset_out ord \<and> x = ord_owner ord then opt_val ord_amount_out new else 0)"
    using ch by (cases new) (auto simp: offered_def order_changed_def fair_residual_def)
  have "offered a x ord = (if a = ord_asset_out ord \<and> x = ord_owner ord then ord_amount_out ord else 0)"
    by (auto simp: offered_def)
  then show ?thesis using res offered_sum_upd [OF fin old, of "offered a x" new] sum new_val le
    by (cases "a = ord_asset_out ord \<and> x = ord_owner ord") (simp_all add: new)
qed

lemma order_changed_keeps_inv:
  assumes "order_changed C i ord new s s'" "otc_inv C s"
  shows "otc_inv C s'"
proof -
  have new: "orders s i = Some ord" "orders s' = (orders s)(i := new)" "next_order_id s' = next_order_id s"
    "\<And>v. new = Some v \<Longrightarrow> calculate_fee C (ord_amount_out v) \<le> ord_amount_out v"
    using assms(1) by (auto simp: order_changed_def order_clears_def)
  have "\<forall>v\<in>ran (orders s'). calculate_fee C (ord_amount_out v) \<le> ord_amount_out v"
    using assms(2) new(4) by (auto simp: otc_inv_def new(2) ran_def split: if_splits)
  moreover have "\<forall>j\<in>dom (orders s'). j < next_order_id s'"
    using assms(2) new(1) by (auto simp: otc_inv_def new(2,3) split: if_splits)
  ultimately show ?thesis using assms(2) offered_sum_changed [OF assms(2,1)] by (simp add: otc_inv_def new(2))
qed

lemma residual_order_clears:
  "ensure_remaining_order_valid C (otc_world s) (ord_asset_in ord) (ord_asset_out ord) n m = Inr u \<Longrightarrow>
     order_clears C (otc_world s) (ord\<lparr>ord_amount_in := n, ord_amount_out := m\<rparr>)"
  by (drule ensure_remaining_order_valid_Inr) (simp add: order_clears_def)

lemma partial_fill_order_changed:
  assumes "partial_fill_order C orig i n s = Inr s'"
  shows "\<exists>ord new. order_changed C i ord new s s'"
proof -
  obtain who ord m n' m' u w where run: "orders s i = Some ord" "partial_amount_out (ord_amount_out ord) n (ord_amount_in ord) = Inr m"
      "n \<le> ord_amount_in ord" "n' = ord_amount_in ord - n" "m \<le> ord_amount_out ord" "m' = ord_amount_out ord - m"
      "ensure_remaining_order_valid C (otc_world s) (ord_asset_in ord) (ord_asset_out ord) n' m' = Inr u"
      "execute_order C (ord\<lparr>ord_amount_in := n', ord_amount_out := m'\<rparr>) who n m (calculate_fee C m) (otc_world s) = Inr w"
      "orders s' = (orders s)(i \<mapsto> ord\<lparr>ord_amount_in := n', ord_amount_out := m'\<rparr>)"
      "next_order_id s' = next_order_id s" "otc_world s' = w"
    using assms by (auto simp: partial_fill_order_def Let_def res_iff ck_iff)
  have "fair_residual ord (ord\<lparr>ord_amount_in := n', ord_amount_out := m'\<rparr>)"
    unfolding run(4,6) by (rule partial_fair [OF run(2,3,5)])
  then have "order_changed C i ord (Some (ord\<lparr>ord_amount_in := n', ord_amount_out := m'\<rparr>)) s s'"
    using run execute_order_reserved [OF run(8)] residual_order_clears [OF run(7)] by (auto simp: order_changed_def)
  then show ?thesis by blast
qed

lemma fill_order_changed:
  assumes "fill_order C orig i s = Inr s'"
  shows "\<exists>ord new. order_changed C i ord new s s'"
proof -
  obtain who ord w where run: "orders s i = Some ord" "orders s' = (orders s)(i := None)"
      "execute_order C ord who (ord_amount_in ord) (ord_amount_out ord) (calculate_fee C (ord_amount_out ord)) (otc_world s) = Inr w"
      "next_order_id s' = next_order_id s" "otc_world s' = w"
    using assms by (auto simp: fill_order_def Let_def res_iff)
  then have "order_changed C i ord None s s'"
    using execute_order_reserved [OF run(3)] by (auto simp: order_changed_def)
  then show ?thesis by blast
qed

lemma cancel_order_changed:
  assumes "cancel_order C orig i s = Inr s'"
  shows "\<exists>ord. orig = Signed (ord_owner ord) \<and> order_changed C i ord None s s'"
proof -
  obtain ord where run: "orders s i = Some ord" "orders s' = (orders s)(i := None)" "orig = Signed (ord_owner ord)"
      "fst (unreserve_named C NAMED_RESERVE_ID (ord_asset_out ord) (ord_owner ord) (ord_amount_out ord) (otc_world s)) = 0"
      "otc_world s' = snd (unreserve_named C NAMED_RESERVE_ID (ord_asset_out ord) (ord_owner ord) (ord_amount_out ord) (otc_world s))"
      "next_order_id s' = next_order_id s"
    using assms by (auto simp: cancel_order_def res_iff case_prod_beta)
  have "ord_amount_out ord \<le> otc_reserved C (otc_world s) (ord_asset_out ord) (ord_owner ord)"
    using run(4) by (simp add: unreserve_rest)
  then have "order_changed C i ord None s s'" using run by (auto simp: order_changed_def reserve_dropped_def unreserve_reserved)
  with run(3) show ?thesis by blast
qed

lemma place_order_inv:
  assumes "place_order C orig a b n m p s = Inr s'" "otc_inv C s"
  shows "otc_inv C s'" "\<exists>ord. orders s' = (orders s)(next_order_id s \<mapsto> ord) \<and> order_clears C (otc_world s) ord"
    "next_order_id s' = next_order_id s + 1"
proof -
  obtain ow ord w where ord: "ord = \<lparr>ord_owner = ow, ord_asset_in = a, ord_asset_out = b, ord_amount_in = n,
        ord_amount_out = m, ord_partially_fillable = p\<rparr>"
      and ok: "order_clears C (otc_world s) ord" and res: "reserve_named C NAMED_RESERVE_ID b ow m (otc_world s) = Inr w"
      and s': "otc_world s' = w" "orders s' = (orders s)(next_order_id s \<mapsto> ord)" "next_order_id s' = next_order_id s + 1"
    using assms(1) by (auto simp: place_order_def Let_def res_iff ck_iff order_clears_def)
  show "\<exists>ord. orders s' = (orders s)(next_order_id s \<mapsto> ord) \<and> order_clears C (otc_world s) ord"
      "next_order_id s' = next_order_id s + 1" using s' ok by auto
  have fin: "finite (dom (orders s))" and ids: "\<And>i. i \<in> dom (orders s) \<Longrightarrow> i < next_order_id s"
    using assms(2) by (auto simp: otc_inv_def)
  then have fresh: "orders s (next_order_id s) = None" by fastforce
  have "otc_reserved C w x y = map_sum (offered x y) (orders s')" for x y
    using map_sum_upd [OF fin, of "offered x y" "next_order_id s" ord] assms(2) fresh reserve_reserved [OF res]
    by (auto simp: s' otc_inv_def offered_def ord)
  moreover have "\<forall>i\<in>dom (orders s'). i < next_order_id s'" using ids s' by (auto simp: less_Suc_eq)
  ultimately show "otc_inv C s'" using assms(2) s' ok fin fresh by (auto simp: otc_inv_def order_clears_def ran_def split: if_splits)
qed

lemma deferred_run:
  assumes "fill_order_with_deferred_delivery C i f n deliver s = Inr s'"
  obtains ord m net rest w2 s3 w4 w5 new where "orders s i = Some ord" "n \<le> ord_amount_in ord"
      "(if n = ord_amount_in ord then Inr (ord_amount_out ord)
        else ensure (ord_partially_fillable ord) (Module OrderNotPartiallyFillable)
          (partial_amount_out (ord_amount_out ord) n (ord_amount_in ord))) = Inr m"
      "(if n = ord_amount_in ord then Inr None
        else tryR (ok_or (checked_sub (ord_amount_in ord) n) (Module MathError)) (\<lambda>n'.
          tryR (ok_or (checked_sub (ord_amount_out ord) m) (Module MathError)) (\<lambda>m'.
          tryR (ensure_remaining_order_valid C (otc_world s) (ord_asset_in ord) (ord_asset_out ord) n' m') (\<lambda>_. Inr (Some (n', m')))))) = Inr rest"
      "release_reserved_asset_out C (ord_asset_out ord) (ord_owner ord) f m (calculate_fee C m) (inc_providers C (ord_owner ord) (otc_world s)) = Inr w2"
      "deliver net (s\<lparr>otc_world := w2\<rparr>) = Inr s3"
      "transfer C (ord_asset_in ord) f (ord_owner ord) n (otc_world s3) = Inr w4" "dec_providers C (ord_owner ord) w4 = Inr w5"
      "new = (case rest of None \<Rightarrow> None | Some (n', m') \<Rightarrow> Some (ord\<lparr>ord_amount_in := n', ord_amount_out := m'\<rparr>))"
      "orders s' = (orders s3)(i := new)" "next_order_id s' = next_order_id s3" "otc_world s' = w5"
  using assms [unfolded fill_order_with_deferred_delivery_def Let_def]
  by (elim run_elims) (rule that, assumption+, rule refl, auto)

lemma deferred_changed:
  assumes "fill_order_with_deferred_delivery C i f n deliver s = Inr s'" "delivery_ok C deliver"
  shows "\<exists>ord new. order_changed C i ord new s s'"
  using assms(1)
proof (cases rule: deferred_run)
  case (1 ord m net rest w2 s3 w4 w5 new)
  note run = 1
  have s3: "orders s3 = orders s" "next_order_id s3 = next_order_id s"
      "\<And>a x. otc_reserved C (otc_world s3) a x = otc_reserved C w2 a x"
    using assms(2) run(6) by (auto simp: delivery_ok_def)
  have drop: "reserve_dropped C (ord_asset_out ord) (ord_owner ord) m (otc_world s) w5"
    using release_reserved [OF run(5)]
    by (simp add: reserve_dropped_def inc_providers_reserved dec_providers_reserved [OF run(8)] transfer_reserved [OF run(7)] s3)
  have new: "opt_val ord_amount_out new = ord_amount_out ord - m \<and> m \<le> ord_amount_out ord \<and>
      (\<forall>v. new = Some v \<longrightarrow> fair_residual ord v \<and> order_clears C (otc_world s) v)"
  proof (cases "n = ord_amount_in ord")
    case True
    then show ?thesis using run(3,4,9) by simp
  next
    case False
    then show ?thesis using run(2-4,9) partial_fair [of ord n m] by (auto simp: res_iff ck_iff residual_order_clears)
  qed
  then have "order_changed C i ord new s s'" using run s3 drop by (simp add: order_changed_def)
  then show ?thesis by blast
qed

end

section \<open>What a fill pays\<close>

text \<open>
  The books after a fill of \<open>n\<close> in for \<open>m\<close> out: the maker has received \<open>n\<close> and given \<open>m\<close> out of the reserve, the filler has paid \<open>n\<close>
  and received \<open>m\<close> less the fee, the fee receiver has the fee, and no other balance of the three accounts moved.
\<close>

definition fill_settled :: "'w otc_config \<Rightarrow> order \<Rightarrow> account_id \<Rightarrow> balance \<Rightarrow> balance \<Rightarrow> 'w \<Rightarrow> 'w \<Rightarrow> bool" where
  "fill_settled C ord who n m w w' \<longleftrightarrow> calculate_fee C m \<le> m \<and> n \<le> free_balance C w (ord_asset_in ord) who \<and>
     (\<forall>b. free_balance C w' b (ord_owner ord) = free_balance C w b (ord_owner ord) + (if b = ord_asset_in ord then n else 0)) \<and>
     (\<forall>b. free_balance C w' b who + (if b = ord_asset_in ord then n else 0) =
        free_balance C w b who + (if b = ord_asset_out ord then m - calculate_fee C m else 0)) \<and>
     (\<forall>b. free_balance C w' b (otc_fee_receiver C) =
        free_balance C w b (otc_fee_receiver C) + (if b = ord_asset_out ord then calculate_fee C m else 0)) \<and>
     (\<forall>b x. otc_reserved C w' b x + (if b = ord_asset_out ord \<and> x = ord_owner ord then m else 0) = otc_reserved C w b x)"

text \<open>The closure of a deferred fill and the provider counters leave the balances of the maker alone.\<close>

definition maker_left_alone :: "'w otc_config \<Rightarrow> account_id \<Rightarrow> (balance \<Rightarrow> 'w otc \<Rightarrow> nat + 'w otc) \<Rightarrow> bool" where
  "maker_left_alone C x deliver \<longleftrightarrow>
     (\<forall>k s s' b. deliver k s = Inr s' \<longrightarrow> free_balance C (otc_world s') b x = free_balance C (otc_world s) b x) \<and>
     (\<forall>w b. free_balance C (inc_providers C x w) b x = free_balance C w b x) \<and>
     (\<forall>w w' b. dec_providers C x w = Inr w' \<longrightarrow> free_balance C w' b x = free_balance C w b x)"

lemma maker_left_alone:
  assumes "maker_left_alone C x deliver"
  shows "deliver k s = Inr s' \<Longrightarrow> free_balance C (otc_world s') b x = free_balance C (otc_world s) b x"
    "free_balance C (inc_providers C x w) b x = free_balance C w b x"
    "dec_providers C x w = Inr w' \<Longrightarrow> free_balance C w' b x = free_balance C w b x"
  using assms unfolding maker_left_alone_def by blast+

lemma release_steps:
  assumes "release_reserved_asset_out C a ow f m fee w = Inr w'"
  obtains w1 w2 where "unreserve_named C NAMED_RESERVE_ID a ow m w = (0, w1)" "fee \<le> m"
    "transfer C a ow f (m - fee) w1 = Inr w2" "transfer C a ow (otc_fee_receiver C) fee w2 = Inr w'"
  using assms by (auto simp: release_reserved_asset_out_def res_iff ck_iff split: prod.splits)

context otc_env
begin

lemma unreserved_free:
  assumes "unreserve_named C i a x m w = (0, w1)"
  shows "free_balance C w1 b y = free_balance C w b y + (if b = a \<and> y = x then m else 0)"
  using unreserve_free [of i a x m w b y] unreserve_rest [of i a x m w] assms by (simp add: min_absorb1)

lemma release_owner:
  assumes "release_reserved_asset_out C a ow f m fee w = Inr w'" "transfers_of C ow" "ow \<noteq> f" "ow \<noteq> otc_fee_receiver C"
  shows "free_balance C w' b ow = free_balance C w b ow"
proof -
  obtain w1 w2 where r: "unreserve_named C NAMED_RESERVE_ID a ow m w = (0, w1)" "fee \<le> m"
      "transfer C a ow f (m - fee) w1 = Inr w2" "transfer C a ow (otc_fee_receiver C) fee w2 = Inr w'"
    by (rule release_steps [OF assms(1)])
  show ?thesis
    using unreserved_free [OF r(1), of b ow] transfers_of.transfer_at [OF assms(2) r(3), of b] r(2) assms(3,4)
      transfers_of.transfer_at [OF assms(2) r(4), of b] by (cases "b = a") simp_all
qed

lemma release_payee:
  assumes "release_reserved_asset_out C a ow f m fee w = Inr w'" "transfers_of C x" "x \<noteq> ow" "ow \<noteq> f" "ow \<noteq> otc_fee_receiver C"
    "f \<noteq> otc_fee_receiver C"
  shows "fee \<le> m \<and> free_balance C w' b x = free_balance C w b x +
    (if b = a \<and> x = f then m - fee else if b = a \<and> x = otc_fee_receiver C then fee else 0)"
proof -
  obtain w1 w2 where r: "unreserve_named C NAMED_RESERVE_ID a ow m w = (0, w1)" "fee \<le> m"
      "transfer C a ow f (m - fee) w1 = Inr w2" "transfer C a ow (otc_fee_receiver C) fee w2 = Inr w'"
    by (rule release_steps [OF assms(1)])
  show ?thesis
    using unreserved_free [OF r(1), of b x] transfers_of.transfer_at [OF assms(2) r(3), of b] r(2) assms(3-6)
      transfers_of.transfer_at [OF assms(2) r(4), of b] by (cases "b = a") auto
qed

lemma execute_order_settles:
  assumes run: "execute_order C ord who n m (calculate_fee C m) w = Inr w'"
    and acc: "transfers_of C who" "transfers_of C (ord_owner ord)" "transfers_of C (otc_fee_receiver C)"
    and ne: "who \<noteq> ord_owner ord" "who \<noteq> otc_fee_receiver C" "ord_owner ord \<noteq> otc_fee_receiver C"
  shows "fill_settled C ord who n m w w'"
proof -
  obtain w1 where w1: "transfer C (ord_asset_in ord) who (ord_owner ord) n w = Inr w1"
      "release_reserved_asset_out C (ord_asset_out ord) (ord_owner ord) who m (calculate_fee C m) w1 = Inr w'"
    using run by (auto simp: execute_order_def res_iff)
  note rel = release_payee [OF w1(2) _ _ ne(1) [symmetric] ne(3,2)]
  have "calculate_fee C m \<le> m" using rel [OF acc(1) ne(1)] by blast
  moreover have cov: "n \<le> free_balance C w (ord_asset_in ord) who"
    using transfers_of.transfer_covered [OF acc(1) w1(1)] ne(1) by simp
  moreover have "free_balance C w' b (ord_owner ord) = free_balance C w b (ord_owner ord) + (if b = ord_asset_in ord then n else 0)" for b
    using release_owner [OF w1(2) acc(2) ne(1) [symmetric] ne(3), of b] transfers_of.transfer_at [OF acc(2) w1(1), of b] ne(1) by simp
  moreover have "free_balance C w' b who + (if b = ord_asset_in ord then n else 0) =
      free_balance C w b who + (if b = ord_asset_out ord then m - calculate_fee C m else 0)" for b
    using rel [OF acc(1) ne(1), of b] transfers_of.transfer_at [OF acc(1) w1(1), of b] ne(1) cov by auto
  moreover have "free_balance C w' b (otc_fee_receiver C) =
      free_balance C w b (otc_fee_receiver C) + (if b = ord_asset_out ord then calculate_fee C m else 0)" for b
    using rel [OF acc(3) ne(3) [symmetric], of b] transfers_of.transfer_at [OF acc(3) w1(1), of b] ne by simp
  ultimately show ?thesis
    using execute_order_reserved [OF run] by (simp add: fill_settled_def reserve_dropped_def)
qed

lemma fills_settle:
  assumes ord: "orders s i = Some ord"
    and acc: "transfers_of C who" "transfers_of C (ord_owner ord)" "transfers_of C (otc_fee_receiver C)"
    and ne: "who \<noteq> ord_owner ord" "who \<noteq> otc_fee_receiver C" "ord_owner ord \<noteq> otc_fee_receiver C"
  shows "fill_order C (Signed who) i s = Inr s' \<Longrightarrow> orders s' = (orders s)(i := None) \<and>
      fill_settled C ord who (ord_amount_in ord) (ord_amount_out ord) (otc_world s) (otc_world s')"
    and "partial_fill_order C (Signed who) i n s = Inr s' \<Longrightarrow> n \<le> ord_amount_in ord \<and> m = ord_amount_out ord * n div ord_amount_in ord \<Longrightarrow>
      orders s' = (orders s)(i \<mapsto> ord\<lparr>ord_amount_in := ord_amount_in ord - n, ord_amount_out := ord_amount_out ord - m\<rparr>) \<and>
      fill_settled C ord who n m (otc_world s) (otc_world s')"
proof -
  have same: "fill_settled C (ord\<lparr>ord_amount_in := k, ord_amount_out := l\<rparr>) = fill_settled C ord" for k l
    by (intro ext) (simp add: fill_settled_def)
  note settles = execute_order_settles [OF _ acc ne]
  show "fill_order C (Signed who) i s = Inr s' \<Longrightarrow> orders s' = (orders s)(i := None) \<and>
      fill_settled C ord who (ord_amount_in ord) (ord_amount_out ord) (otc_world s) (otc_world s')"
    using ord settles by (auto simp: fill_order_def Let_def res_iff)
  assume "partial_fill_order C (Signed who) i n s = Inr s'" "n \<le> ord_amount_in ord \<and> m = ord_amount_out ord * n div ord_amount_in ord"
  then obtain w k l where "execute_order C (ord\<lparr>ord_amount_in := k, ord_amount_out := l\<rparr>) who n m (calculate_fee C m) (otc_world s) = Inr w"
      "otc_world s' = w" "k = ord_amount_in ord - n" "l = ord_amount_out ord - m"
      "orders s' = (orders s)(i \<mapsto> ord\<lparr>ord_amount_in := k, ord_amount_out := l\<rparr>)"
    using ord by (auto simp: partial_fill_order_def Let_def res_iff ck_iff partial_amount_out_Inr)
  then show "orders s' = (orders s)(i \<mapsto> ord\<lparr>ord_amount_in := ord_amount_in ord - n, ord_amount_out := ord_amount_out ord - m\<rparr>) \<and>
      fill_settled C ord who n m (otc_world s) (otc_world s')"
    using execute_order_settles [of "ord\<lparr>ord_amount_in := k, ord_amount_out := l\<rparr>" who n m "otc_world s" w] acc ne
    by (simp add: same)
qed

lemma deferred_settles:
  assumes run: "fill_order_with_deferred_delivery C i f n deliver s = Inr s'" and ok: "delivery_ok C deliver" and ord: "orders s i = Some ord"
    and keeps: "maker_left_alone C (ord_owner ord) deliver"
    and acc: "transfers_of C (ord_owner ord)" "ord_owner ord \<noteq> f" "ord_owner ord \<noteq> otc_fee_receiver C"
  shows "n \<le> ord_amount_in ord \<and>
    (\<forall>b. free_balance C (otc_world s') b (ord_owner ord) =
       free_balance C (otc_world s) b (ord_owner ord) + (if b = ord_asset_in ord then n else 0)) \<and>
    reserve_dropped C (ord_asset_out ord) (ord_owner ord)
      (if n = ord_amount_in ord then ord_amount_out ord else ord_amount_out ord * n div ord_amount_in ord) (otc_world s) (otc_world s')"
  using run
proof (cases rule: deferred_run)
  case (1 ord' m net rest w2 s3 w4 w5 new)
  have o: "ord' = ord" using 1(1) ord by simp
  have m: "m = (if n = ord_amount_in ord then ord_amount_out ord else ord_amount_out ord * n div ord_amount_in ord)"
    using 1(3) by (auto simp: o res_iff partial_amount_out_Inr split: if_splits)
  have "free_balance C (otc_world s') b (ord_owner ord) = free_balance C (otc_world s) b (ord_owner ord) + (if b = ord_asset_in ord then n else 0)" for b
    using release_owner [OF 1(5) [unfolded o] acc, of b] maker_left_alone(1) [OF keeps 1(6), of b] maker_left_alone(2) [OF keeps, of "otc_world s" b]
      transfers_of.transfer_at [OF acc(1) 1(7) [unfolded o], of b] maker_left_alone(3) [OF keeps 1(8) [unfolded o], of b] acc(2) 1(12)
    by (cases "b = ord_asset_in ord") simp_all
  moreover have "reserve_dropped C (ord_asset_out ord) (ord_owner ord) m (otc_world s) (otc_world s')"
    using release_reserved [OF 1(5)] ok 1(6,12)
    by (auto simp: reserve_dropped_def o inc_providers_reserved dec_providers_reserved [OF 1(8)] transfer_reserved [OF 1(7)] delivery_ok_def)
  ultimately show ?thesis using 1(2) m by (simp add: o)
qed

lemma partial_fill_amount:
  "partial_fill_order C orig i n s = Inr s' \<Longrightarrow> orders s i = Some ord \<Longrightarrow> n \<le> ord_amount_in ord"
  by (auto simp: partial_fill_order_def Let_def res_iff ck_iff)

end

section \<open>Runs\<close>

datatype otc_call =
    Call_place_order asset_id asset_id balance balance bool
  | Call_partial_fill_order nat balance
  | Call_fill_order nat
  | Call_cancel_order nat

fun otc_dispatch :: "'w otc_config \<Rightarrow> origin \<Rightarrow> otc_call \<Rightarrow> 'w otc \<Rightarrow> 'w otc otc_result" where
  "otc_dispatch C orig (Call_place_order a b n m p) s = place_order C orig a b n m p s"
| "otc_dispatch C orig (Call_partial_fill_order i n) s = partial_fill_order C orig i n s"
| "otc_dispatch C orig (Call_fill_order i) s = fill_order C orig i s"
| "otc_dispatch C orig (Call_cancel_order i) s = cancel_order C orig i s"

text \<open>
  A transition: a successful call, a deferred fill by another pallet, the end of a block, or the rest of
  the runtime acting on the world, which leaves the reserves under \<open>NAMED_RESERVE_ID\<close> alone.
\<close>

inductive otc_step :: "'w otc_config \<Rightarrow> 'w otc \<Rightarrow> 'w otc \<Rightarrow> bool" for C where
  call: "otc_dispatch C orig c s = Inr s' \<Longrightarrow> otc_step C s s'"
| deferred: "fill_order_with_deferred_delivery C i f n deliver s = Inr s' \<Longrightarrow> delivery_ok C deliver \<Longrightarrow> otc_step C s s'"
| block_end: "otc_step C s (s\<lparr>otc_broadcast := broadcast_on_finalize (otc_broadcast s)\<rparr>)"
| world_moves: "(\<forall>a x. otc_reserved C w a x = otc_reserved C (otc_world s) a x) \<Longrightarrow> otc_step C s (s\<lparr>otc_world := w\<rparr>)"

inductive otc_reach :: "'w otc_config \<Rightarrow> 'w otc \<Rightarrow> 'w otc \<Rightarrow> bool" for C where
  here: "otc_reach C s s"
| step: "otc_reach C s s' \<Longrightarrow> otc_step C s' s'' \<Longrightarrow> otc_reach C s s''"

definition otc_genesis :: "'w \<Rightarrow> 'w otc" where
  "otc_genesis w = \<lparr>next_order_id = 0, orders = Map.empty, otc_events = [],
     otc_broadcast = \<lparr>incremental_id = 0, execution_context = [], swapper = None, swapped_events = []\<rparr>, otc_world = w\<rparr>"

text \<open>The orders a step places or leaves with other amounts clear the minimum amounts of that moment.\<close>

definition orders_clear :: "'w otc_config \<Rightarrow> 'w otc \<Rightarrow> 'w otc \<Rightarrow> bool" where
  "orders_clear C s s' \<longleftrightarrow> (\<forall>i v. orders s' i = Some v \<longrightarrow> orders s i \<noteq> Some v \<longrightarrow> order_clears C (otc_world s) v)"

text \<open>An order present before and after a step is the same or a fair residual.\<close>

definition orders_fair :: "'w otc \<Rightarrow> 'w otc \<Rightarrow> bool" where
  "orders_fair s s' \<longleftrightarrow> next_order_id s \<le> next_order_id s' \<and>
     (\<forall>i v. i < next_order_id s \<longrightarrow> orders s' i = Some v \<longrightarrow> (\<exists>ord. orders s i = Some ord \<and> fair_residual ord v))"

lemma orders_fair_trans: "orders_fair s s' \<Longrightarrow> orders_fair s' s'' \<Longrightarrow> orders_fair s s''"
  unfolding orders_fair_def by (meson fair_residual_trans order_trans order_less_le_trans)

context otc_env
begin

lemma order_changed_fair: "order_changed C i ord new s s' \<Longrightarrow> orders_fair s s'"
  by (auto simp: order_changed_def orders_fair_def fair_residual_refl)

lemma order_changed_clear: "order_changed C i ord new s s' \<Longrightarrow> orders_clear C s s'"
  by (auto simp: order_changed_def orders_clear_def)

lemma changed_ok:
  "\<exists>ord new. order_changed C i ord new s s' \<Longrightarrow> otc_inv C s \<Longrightarrow> otc_inv C s' \<and> orders_fair s s' \<and> orders_clear C s s'"
  using order_changed_fair order_changed_keeps_inv order_changed_clear by blast

lemma otc_step_inv: "otc_step C s s' \<Longrightarrow> otc_inv C s \<Longrightarrow> otc_inv C s' \<and> orders_fair s s' \<and> orders_clear C s s'"
proof (induction rule: otc_step.induct)
  case (call orig c s s')
  show ?case
  proof (cases c)
    case (Call_place_order a b n m p)
    then have run: "place_order C orig a b n m p s = Inr s'" using call(1) by simp
    show ?thesis using place_order_inv [OF run call(2)]
      by (auto simp: orders_fair_def orders_clear_def fair_residual_refl split: if_splits)
  next
    case (Call_partial_fill_order i n)
    with call(1) have "\<exists>ord new. order_changed C i ord new s s'" by (simp add: partial_fill_order_changed)
    then show ?thesis using call(2) by (rule changed_ok)
  next
    case (Call_fill_order i)
    with call(1) have "\<exists>ord new. order_changed C i ord new s s'" by (simp add: fill_order_changed)
    then show ?thesis using call(2) by (rule changed_ok)
  next
    case (Call_cancel_order i)
    with call(1) have "cancel_order C orig i s = Inr s'" by simp
    then have "\<exists>ord new. order_changed C i ord new s s'" using cancel_order_changed by blast
    then show ?thesis using call(2) by (rule changed_ok)
  qed
next
  case (deferred i f n deliver s s')
  show ?case by (rule changed_ok [OF deferred_changed [OF deferred(1,2)] deferred(3)])
qed (auto simp: otc_inv_def orders_fair_def orders_clear_def fair_residual_refl)

lemma otc_reach_inv: "otc_reach C s s' \<Longrightarrow> otc_inv C s \<Longrightarrow> otc_inv C s' \<and> orders_fair s s'"
proof (induction rule: otc_reach.induct)
  case (here s)
  then show ?case by (auto simp: orders_fair_def fair_residual_refl)
next
  case (step s s' s'')
  then show ?case using otc_step_inv orders_fair_trans by blast
qed

lemma cancel_succeeds:
  assumes inv: "otc_inv C s" and ord: "orders s i = Some ord"
  shows "\<exists>s'. cancel_order C (Signed (ord_owner ord)) i s = Inr s' \<and> orders s' = (orders s)(i := None) \<and>
     free_balance C (otc_world s') (ord_asset_out ord) (ord_owner ord) =
       free_balance C (otc_world s) (ord_asset_out ord) (ord_owner ord) + ord_amount_out ord"
proof -
  have "offered (ord_asset_out ord) (ord_owner ord) ord
      \<le> map_sum (offered (ord_asset_out ord) (ord_owner ord)) (orders s)"
    using inv ord by (intro offered_le_sum) (auto simp: otc_inv_def)
  then have le: "ord_amount_out ord \<le> otc_reserved C (otc_world s) (ord_asset_out ord) (ord_owner ord)"
    using inv by (simp add: otc_inv_def offered_def)
  then show ?thesis using ord
    by (simp add: cancel_order_def ensure_signed_def case_prod_beta unreserve_rest unreserve_free min_absorb1)
qed

end

lemma otc_genesis_inv: "\<forall>a x. otc_reserved C w a x = 0 \<Longrightarrow> otc_inv C (otc_genesis w)"
  by (simp add: otc_inv_def otc_genesis_def)

section \<open>A runtime\<close>

definition std_otc_config :: "reserve_world otc_config" where
  "std_otc_config = reservable.extend std_reservable \<lparr>
     otc_arith = std_arith, otc_asset_exists = (\<lambda>w a. a < 10), existential_deposit = (\<lambda>w a. 100),
     existential_deposit_multiplier = 5, otc_fee = 10000, otc_fee_receiver = 77,
     inc_providers = (\<lambda>x w. w), dec_providers = (\<lambda>x w. Inr w)\<rparr>"

lemma std_otc_config_sel [simp]:
  "free_balance std_otc_config = rw_free" "transfer std_otc_config = rw_transfer"
  "reserved_balance_named std_otc_config = rw_reserved" "reserve_named std_otc_config = rw_reserve"
  "unreserve_named std_otc_config = rw_unreserve" "otc_arith std_otc_config = std_arith"
  "otc_asset_exists std_otc_config = (\<lambda>w a. a < 10)" "existential_deposit std_otc_config = (\<lambda>w a. 100)"
  "existential_deposit_multiplier std_otc_config = 5" "otc_fee std_otc_config = 10000"
  "otc_fee_receiver std_otc_config = 77" "inc_providers std_otc_config = (\<lambda>x w. w)"
  "dec_providers std_otc_config = (\<lambda>x w. Inr w)"
  by (simp_all add: std_otc_config_def std_reservable_def reservable.defs)

interpretation std_otc: otc_env std_otc_config
  by unfold_locales (auto simp: rw_transfer_Inr rw_reserve_def rw_unreserve_def rw_withdraw_def res_iff split: if_splits)

text \<open>Account 6 sells 20000 of asset 2 for 10000 of asset 3; account 4 takes a part of it.\<close>

definition otc_sample_world :: reserve_world where
  "otc_sample_world = \<lparr>rw_free = (\<lambda>a x. if a = 2 \<and> x = 6 then 50000 else if a = 3 \<and> x = 4 then 30000 else 0),
     rw_reserved = (\<lambda>i a x. 0)\<rparr>"

lemmas otc_eval = place_order_def partial_fill_order_def execute_order_def release_reserved_asset_out_def
  ensure_min_order_amount_def ensure_remaining_order_valid_def partial_amount_out_def calculate_fee_def
  deposit_fill_events_def ensure_signed_def rw_transfer_def rw_withdraw_def rw_deposit_def rw_reserve_def rw_unreserve_def
  std_arith_eval ck_eval Let_def

definition sample_order :: order where
  "sample_order = \<lparr>ord_owner = 6, ord_asset_in = 3, ord_asset_out = 2, ord_amount_in = 10000, ord_amount_out = 20000,
     ord_partially_fillable = True\<rparr>"

lemma sample_place:
  "\<exists>s. place_order std_otc_config (Signed 6) 3 2 10000 20000 True (otc_genesis otc_sample_world) = Inr s \<and>
     orders s 0 = Some sample_order \<and>
     (\<exists>s'. partial_fill_order std_otc_config (Signed 4) 0 3333 s = Inr s' \<and>
        orders s' 0 = Some (sample_order\<lparr>ord_amount_in := 6667, ord_amount_out := 13334\<rparr>))"
  by (simp add: otc_eval otc_genesis_def otc_sample_world_def sample_order_def)

lemma sample_otc_reach:
  obtains s s' where "otc_reach std_otc_config (otc_genesis otc_sample_world) s" "orders s 0 = Some sample_order"
    "otc_step std_otc_config s s'" "orders s' 0 = Some (sample_order\<lparr>ord_amount_in := 6667, ord_amount_out := 13334\<rparr>)"
proof -
  obtain s s' where place: "place_order std_otc_config (Signed 6) 3 2 10000 20000 True (otc_genesis otc_sample_world) = Inr s"
      and fill: "partial_fill_order std_otc_config (Signed 4) 0 3333 s = Inr s'"
      and ords: "orders s 0 = Some sample_order"
        "orders s' 0 = Some (sample_order\<lparr>ord_amount_in := 6667, ord_amount_out := 13334\<rparr>)"
    using sample_place by blast
  have "otc_step std_otc_config (otc_genesis otc_sample_world) s"
    by (rule otc_step.call [of _ "Signed 6" "Call_place_order 3 2 10000 20000 True"]) (simp add: place)
  moreover have "otc_step std_otc_config s s'"
    by (rule otc_step.call [of _ "Signed 4" "Call_partial_fill_order 0 3333"]) (simp add: fill)
  ultimately show thesis using that [OF _ ords(1) _ ords(2)] otc_reach.intros by metis
qed

section \<open>Properties\<close>

text \<open>
  (C3) Orders are backed: from genesis, in every state reached by any sequence of placements, whole, partial
  and deferred fills, cancellations and activity of the rest of the runtime, what an account has
  reserved of an asset is exactly what its open orders offer, the fee of every open order is covered by what it offers, and
  no identifier is used twice. Every order that a step places, or leaves with other amounts, clears the minimum amounts
  in force at that moment on both sides, net of the fee; the existential deposits behind them may change between steps.
\<close>

theorem otc_reserves_back_orders:
  assumes "otc_env C" "\<forall>a x. otc_reserved C w a x = 0" "otc_reach C (otc_genesis w) s"
  shows "otc_inv C s \<and>
    (\<forall>s' i v. otc_step C s s' \<longrightarrow> orders s' i = Some v \<longrightarrow> orders s i \<noteq> Some v \<longrightarrow>
       existential_deposit C (otc_world s) (ord_asset_in v) * existential_deposit_multiplier C \<le> ord_amount_in v \<and>
       calculate_fee C (ord_amount_out v) +
         existential_deposit C (otc_world s) (ord_asset_out v) * existential_deposit_multiplier C \<le> ord_amount_out v)"
proof -
  have inv: "otc_inv C s" using otc_env.otc_reach_inv [OF assms(1,3) otc_genesis_inv [OF assms(2)]] by simp
  moreover have "orders_clear C s s'" if "otc_step C s s'" for s' using otc_env.otc_step_inv [OF assms(1) that inv] by simp
  ultimately show ?thesis unfolding orders_clear_def order_clears_def min_order_amount_def by blast
qed

theorem otc_reserves_back_orders_witness:
  "\<exists>s s'. otc_reach std_otc_config (otc_genesis otc_sample_world) s \<and> otc_step std_otc_config s s' \<and>
     orders s' 0 = Some (sample_order\<lparr>ord_amount_in := 6667, ord_amount_out := 13334\<rparr>) \<and> otc_inv std_otc_config s \<and>
     calculate_fee std_otc_config 13334 + 500 \<le> 13334"
proof -
  obtain s s' where s: "otc_reach std_otc_config (otc_genesis otc_sample_world) s" "orders s 0 = Some sample_order"
      "otc_step std_otc_config s s'" "orders s' 0 = Some (sample_order\<lparr>ord_amount_in := 6667, ord_amount_out := 13334\<rparr>)"
    by (rule sample_otc_reach)
  have "\<forall>a x. otc_reserved std_otc_config otc_sample_world a x = 0" by (simp add: otc_sample_world_def)
  note ok = otc_reserves_back_orders [OF std_otc.otc_env_axioms this s(1)]
  have "orders s 0 \<noteq> Some (sample_order\<lparr>ord_amount_in := 6667, ord_amount_out := 13334\<rparr>)" using s(2) by (simp add: sample_order_def)
  with ok s have "calculate_fee std_otc_config 13334 + 500 \<le> 13334" by fastforce
  with s ok show ?thesis by blast
qed

text \<open>
  (C12) The owner of an open order can always cancel it: the call succeeds in every reachable state, removes
  this order and no other, and returns the whole remaining offer to the owner's free balance.
\<close>

theorem otc_owner_can_cancel:
  assumes "otc_env C" "\<forall>a x. otc_reserved C w a x = 0" "otc_reach C (otc_genesis w) s" "orders s i = Some ord"
  shows "\<exists>s'. cancel_order C (Signed (ord_owner ord)) i s = Inr s' \<and> orders s' = (orders s)(i := None) \<and>
     free_balance C (otc_world s') (ord_asset_out ord) (ord_owner ord) =
       free_balance C (otc_world s) (ord_asset_out ord) (ord_owner ord) + ord_amount_out ord"
  using otc_env.cancel_succeeds [OF assms(1) conjunct1 [OF otc_env.otc_reach_inv [OF assms(1,3) otc_genesis_inv [OF assms(2)]]] assms(4)] .

theorem otc_owner_can_cancel_witness:
  "\<exists>s s'. otc_reach std_otc_config (otc_genesis otc_sample_world) s \<and> orders s 0 = Some sample_order \<and>
     cancel_order std_otc_config (Signed 6) 0 s = Inr s' \<and> rw_free (otc_world s') 2 6 = rw_free (otc_world s) 2 6 + 20000"
proof -
  obtain s where s: "otc_reach std_otc_config (otc_genesis otc_sample_world) s" "orders s 0 = Some sample_order"
    by (rule sample_otc_reach)
  have "\<forall>a x. otc_reserved std_otc_config otc_sample_world a x = 0" by (simp add: otc_sample_world_def)
  from otc_owner_can_cancel [OF std_otc.otc_env_axioms this s] s show ?thesis by (auto simp: sample_order_def)
qed




end
