(* ===== verification/Circuit_Breaker.thy ===== *)
theory Circuit_Breaker
  imports Sp_Arith Frame_Support
begin

text \<open>
  The circuit breaker (\<open>pallets/circuit-breaker/src/{lib,types}.rs\<close> and \<open>fuses/issuance.rs\<close>): limits
  on the net trade volume and on the liquidity added or removed per asset and block, the global limit on
  withdrawals with its linearly decaying accumulator, and the fuse that locks an asset whose
  issuance grows too fast. The properties bound what can happen in a block, in any stretch of
  time and in a period. \<open>Weight\<close> results are left out; the clock, the block number, the issuance and the
  deposit handlers are the environment's.
\<close>

section \<open>Types\<close>

type_synonym moment = nat

definition MAX_LIMIT_VALUE :: nat where
  "MAX_LIMIT_VALUE = 10000"

record trade_volume_limit =
  volume_in :: balance
  volume_out :: balance
  tv_limit :: balance

record liquidity_limit =
  ll_liquidity :: balance
  ll_limit :: balance

datatype lockdown_status = Locked block_number | Unlocked block_number balance

record withdraw_limit_params =
  wl_limit :: balance
  wl_window :: moment

datatype global_asset_category = External | Local

datatype circuit_breaker_error =
    InvalidLimitValue | LiquidityLimitNotStoredForAsset | TokenOutflowLimitReached | TokenInfluxLimitReached
  | MaxLiquidityLimitPerBlockReached | NotAllowed | AssetInLockdown | AssetNotInLockdown | InvalidAmount
  | DepositLimitExceededForWhitelistedAccount | WithdrawLockdownActive | GlobalWithdrawLimitExceeded
  | FailedToConvertAsset

datatype circuit_breaker_event =
    TradeVolumeLimitChanged asset_id "nat \<times> nat"
  | AddLiquidityLimitChanged asset_id "(nat \<times> nat) option"
  | RemoveLiquidityLimitChanged asset_id "(nat \<times> nat) option"
  | AssetLockdown asset_id block_number
  | AssetLockdownRemoved asset_id
  | DepositReleased account_id asset_id
  | WithdrawLockdownLifted
  | WithdrawLockdownReset
  | WithdrawLimitConfigUpdated balance moment
  | WithdrawLockdownTriggered moment
  | EgressAccountsAdded nat
  | EgressAccountsRemoved nat
  | AssetCategoryUpdated asset_id "global_asset_category option"

record 'w circuit_breaker_config =
  cb_arith :: arith
  cb_authority :: "origin \<Rightarrow> bool"
  whitelisted_accounts :: "account_id \<Rightarrow> bool"
  deposit_lock_whitelist :: "account_id \<Rightarrow> bool"
  default_trade_volume_limit :: "nat \<times> nat"
  default_add_liquidity_limit :: "(nat \<times> nat) option"
  default_remove_liquidity_limit :: "(nat \<times> nat) option"
  cb_hub_asset :: asset_id
  deposit_period :: nat
  deposit_limit :: "'w \<Rightarrow> asset_id \<Rightarrow> balance option"
  issuance :: "'w \<Rightarrow> asset_id \<Rightarrow> balance"
  on_limit_reached :: "asset_id \<Rightarrow> 'w \<Rightarrow> 'w"
  on_lockdown_deposit :: "asset_id \<times> account_id \<times> balance \<Rightarrow> 'w \<Rightarrow> nat + 'w"
  on_deposit_release :: "asset_id \<times> account_id \<Rightarrow> 'w \<Rightarrow> nat + 'w"
  timestamp :: "'w \<Rightarrow> moment"
  block_number :: "'w \<Rightarrow> block_number"

record 'w circuit_breaker =
  trade_limits :: "asset_id \<rightharpoonup> nat \<times> nat"
  allowed_trade_volume :: "asset_id \<rightharpoonup> trade_volume_limit"
  add_limits :: "asset_id \<rightharpoonup> (nat \<times> nat) option"
  allowed_add_liquidity :: "asset_id \<rightharpoonup> liquidity_limit"
  asset_lockdown_state :: "asset_id \<rightharpoonup> lockdown_status"
  remove_limits :: "asset_id \<rightharpoonup> (nat \<times> nat) option"
  allowed_remove_liquidity :: "asset_id \<rightharpoonup> liquidity_limit"
  global_withdraw_limit_config :: "withdraw_limit_params option"
  withdraw_limit_accumulator :: "balance \<times> moment"
  withdraw_lockdown_until :: "moment option"
  egress_accounts :: "account_id \<rightharpoonup> unit"
  ignore_withdraw_limit :: bool
  global_asset_overrides :: "asset_id \<rightharpoonup> global_asset_category"
  xcm_egress_buffer :: "(balance \<times> balance) option"
  cb_events :: "circuit_breaker_event list"
  cb_world :: 'w

type_synonym 'a cb_result = "circuit_breaker_error dispatch_error + 'a"

definition cb_emit :: "circuit_breaker_event \<Rightarrow> 'w circuit_breaker \<Rightarrow> 'w circuit_breaker" where
  "cb_emit e s = s\<lparr>cb_events := cb_events s @ [e]\<rparr>"

text \<open>The getters of the maps with a default value.\<close>

definition trade_volume_limit_per_asset :: "'w circuit_breaker_config \<Rightarrow> 'w circuit_breaker \<Rightarrow> asset_id \<Rightarrow> nat \<times> nat" where
  "trade_volume_limit_per_asset C s a =
     (case trade_limits s a of Some l \<Rightarrow> l | None \<Rightarrow> default_trade_volume_limit C)"

definition add_liquidity_limit_per_asset ::
    "'w circuit_breaker_config \<Rightarrow> 'w circuit_breaker \<Rightarrow> asset_id \<Rightarrow> (nat \<times> nat) option" where
  "add_liquidity_limit_per_asset C s a = (case add_limits s a of Some l \<Rightarrow> l | None \<Rightarrow> default_add_liquidity_limit C)"

definition remove_liquidity_limit_per_asset ::
    "'w circuit_breaker_config \<Rightarrow> 'w circuit_breaker \<Rightarrow> asset_id \<Rightarrow> (nat \<times> nat) option" where
  "remove_liquidity_limit_per_asset C s a =
     (case remove_limits s a of Some l \<Rightarrow> l | None \<Rightarrow> default_remove_liquidity_limit C)"

section \<open>Volume limits\<close>

definition update_amounts :: "balance \<Rightarrow> balance \<Rightarrow> trade_volume_limit \<Rightarrow> trade_volume_limit cb_result" where
  "update_amounts amount_in amount_out l =
     tryR (ok_or (checked_add 128 (volume_in l) amount_in) (Arithmetic Arith_Overflow)) (\<lambda>vi.
     tryR (ok_or (checked_add 128 (volume_out l) amount_out) (Arithmetic Arith_Overflow)) (\<lambda>vo.
     Inr (l\<lparr>volume_in := vi, volume_out := vo\<rparr>)))"

definition check_outflow_limit :: "trade_volume_limit \<Rightarrow> unit cb_result" where
  "check_outflow_limit l =
     (if volume_in l < volume_out l
      then tryR (ok_or (checked_sub (volume_out l) (volume_in l)) (Arithmetic Arith_Underflow)) (\<lambda>diff.
        ensure (diff \<le> tv_limit l) (Module TokenOutflowLimitReached) (Inr ()))
      else Inr ())"

definition check_influx_limit :: "trade_volume_limit \<Rightarrow> unit cb_result" where
  "check_influx_limit l =
     (if volume_out l < volume_in l
      then tryR (ok_or (checked_sub (volume_in l) (volume_out l)) (Arithmetic Arith_Underflow)) (\<lambda>diff.
        ensure (diff \<le> tv_limit l) (Module TokenInfluxLimitReached) (Inr ()))
      else Inr ())"

definition check_limits :: "trade_volume_limit \<Rightarrow> unit cb_result" where
  "check_limits l = tryR (check_outflow_limit l) (\<lambda>_. tryR (check_influx_limit l) (\<lambda>_. Inr ()))"

definition update_amount :: "balance \<Rightarrow> liquidity_limit \<Rightarrow> liquidity_limit cb_result" where
  "update_amount liquidity_in l =
     tryR (ok_or (checked_add 128 (ll_liquidity l) liquidity_in) (Arithmetic Arith_Overflow)) (\<lambda>v.
     Inr (l\<lparr>ll_liquidity := v\<rparr>))"

definition check_limit :: "liquidity_limit \<Rightarrow> unit cb_result" where
  "check_limit l = ensure (ll_liquidity l \<le> ll_limit l) (Module MaxLiquidityLimitPerBlockReached) (Inr ())"

definition validate_limit :: "nat \<times> nat \<Rightarrow> unit cb_result" where
  "validate_limit limit =
     (let (numerator, denominator) = limit in
      ensure (numerator \<le> MAX_LIMIT_VALUE \<and> denominator \<le> MAX_LIMIT_VALUE) (Module InvalidLimitValue)
      (ensure (numerator \<noteq> 0 \<and> denominator \<noteq> 0) (Module InvalidLimitValue) (Inr ())))"

definition calculate_limit :: "balance \<Rightarrow> nat \<times> nat \<Rightarrow> balance cb_result" where
  "calculate_limit liquidity limit =
     (let (numerator, denominator) = limit in
      tryR (ok_or (checked_mul 128 liquidity numerator) (Arithmetic Arith_Overflow)) (\<lambda>v.
      ok_or (checked_div v denominator) (Arithmetic Arith_DivisionByZero)))"

definition initialize_trade_limit ::
    "'w circuit_breaker_config \<Rightarrow> asset_id \<Rightarrow> balance \<Rightarrow> 'w circuit_breaker \<Rightarrow> 'w circuit_breaker cb_result" where
  "initialize_trade_limit C asset_id initial_asset_reserve s =
     (if asset_id \<noteq> cb_hub_asset C \<and> allowed_trade_volume s asset_id = None
      then tryR (calculate_limit initial_asset_reserve (trade_volume_limit_per_asset C s asset_id)) (\<lambda>limit.
        Inr (s\<lparr>allowed_trade_volume := (allowed_trade_volume s)(asset_id \<mapsto>
               \<lparr>volume_in = 0, volume_out = 0, tv_limit = limit\<rparr>)\<rparr>))
      else Inr s)"

definition calculate_and_store_liquidity_limits ::
    "'w circuit_breaker_config \<Rightarrow> asset_id \<Rightarrow> balance \<Rightarrow> 'w circuit_breaker \<Rightarrow> 'w circuit_breaker cb_result" where
  "calculate_and_store_liquidity_limits C asset_id initial_liquidity s =
     (if asset_id = cb_hub_asset C then Inr s
      else
        tryR (case add_liquidity_limit_per_asset C s asset_id of
            Some limit \<Rightarrow>
              (if allowed_add_liquidity s asset_id = None
               then tryR (calculate_limit initial_liquidity limit) (\<lambda>max_limit.
                 Inr (s\<lparr>allowed_add_liquidity := (allowed_add_liquidity s)(asset_id \<mapsto>
                        \<lparr>ll_liquidity = 0, ll_limit = max_limit\<rparr>)\<rparr>))
               else Inr s)
          | None \<Rightarrow> Inr s) (\<lambda>s.
        case remove_liquidity_limit_per_asset C s asset_id of
            Some limit \<Rightarrow>
              (if allowed_remove_liquidity s asset_id = None
               then tryR (calculate_limit initial_liquidity limit) (\<lambda>max_limit.
                 Inr (s\<lparr>allowed_remove_liquidity := (allowed_remove_liquidity s)(asset_id \<mapsto>
                        \<lparr>ll_liquidity = 0, ll_limit = max_limit\<rparr>)\<rparr>))
               else Inr s)
          | None \<Rightarrow> Inr s))"

definition ensure_and_update_trade_volume_limit ::
    "'w circuit_breaker_config \<Rightarrow> asset_id \<Rightarrow> balance \<Rightarrow> asset_id \<Rightarrow> balance \<Rightarrow> 'w circuit_breaker \<Rightarrow>
     'w circuit_breaker cb_result" where
  "ensure_and_update_trade_volume_limit C asset_in amount_in asset_out amount_out s =
     tryR (if asset_in \<noteq> cb_hub_asset C
           then tryR (ok_or (allowed_trade_volume s asset_in) (Module LiquidityLimitNotStoredForAsset)) (\<lambda>l.
             tryR (update_amounts amount_in 0 l) (\<lambda>l.
             tryR (check_limits l) (\<lambda>_.
             Inr (s\<lparr>allowed_trade_volume := (allowed_trade_volume s)(asset_in \<mapsto> l)\<rparr>))))
           else Inr s) (\<lambda>s.
     if asset_out \<noteq> cb_hub_asset C
     then tryR (ok_or (allowed_trade_volume s asset_out) (Module LiquidityLimitNotStoredForAsset)) (\<lambda>l.
       tryR (update_amounts 0 amount_out l) (\<lambda>l.
       tryR (check_limits l) (\<lambda>_.
       Inr (s\<lparr>allowed_trade_volume := (allowed_trade_volume s)(asset_out \<mapsto> l)\<rparr>))))
     else Inr s)"

definition ensure_and_update_add_liquidity_limit ::
    "'w circuit_breaker_config \<Rightarrow> asset_id \<Rightarrow> balance \<Rightarrow> 'w circuit_breaker \<Rightarrow> 'w circuit_breaker cb_result" where
  "ensure_and_update_add_liquidity_limit C asset_id added_liquidity s =
     (if asset_id \<noteq> cb_hub_asset C \<and> add_liquidity_limit_per_asset C s asset_id \<noteq> None
      then tryR (ok_or (allowed_add_liquidity s asset_id) (Module LiquidityLimitNotStoredForAsset)) (\<lambda>l.
        tryR (update_amount added_liquidity l) (\<lambda>l.
        tryR (check_limit l) (\<lambda>_.
        Inr (s\<lparr>allowed_add_liquidity := (allowed_add_liquidity s)(asset_id \<mapsto> l)\<rparr>))))
      else Inr s)"

definition ensure_and_update_remove_liquidity_limit ::
    "'w circuit_breaker_config \<Rightarrow> asset_id \<Rightarrow> balance \<Rightarrow> 'w circuit_breaker \<Rightarrow> 'w circuit_breaker cb_result" where
  "ensure_and_update_remove_liquidity_limit C asset_id removed_liquidity s =
     (if asset_id \<noteq> cb_hub_asset C \<and> remove_liquidity_limit_per_asset C s asset_id \<noteq> None
      then tryR (ok_or (allowed_remove_liquidity s asset_id) (Module LiquidityLimitNotStoredForAsset)) (\<lambda>l.
        tryR (update_amount removed_liquidity l) (\<lambda>l.
        tryR (check_limit l) (\<lambda>_.
        Inr (s\<lparr>allowed_remove_liquidity := (allowed_remove_liquidity s)(asset_id \<mapsto> l)\<rparr>))))
      else Inr s)"

definition is_origin_whitelisted_or_root :: "'w circuit_breaker_config \<Rightarrow> origin \<Rightarrow> bool cb_result" where
  "is_origin_whitelisted_or_root C orig =
     tryR (ensure_signed_or_root orig) (\<lambda>who.
     case who of Some account \<Rightarrow> Inr (whitelisted_accounts C account) | None \<Rightarrow> Inr True)"

definition ensure_pool_state_change_limit ::
    "'w circuit_breaker_config \<Rightarrow> asset_id \<Rightarrow> balance \<Rightarrow> balance \<Rightarrow> asset_id \<Rightarrow> balance \<Rightarrow> balance \<Rightarrow>
     'w circuit_breaker \<Rightarrow> 'w circuit_breaker cb_result" where
  "ensure_pool_state_change_limit C asset_in asset_in_reserve amount_in asset_out asset_out_reserve amount_out s =
     tryR (initialize_trade_limit C asset_in asset_in_reserve s) (\<lambda>s.
     tryR (initialize_trade_limit C asset_out asset_out_reserve s) (\<lambda>s.
     ensure_and_update_trade_volume_limit C asset_in amount_in asset_out amount_out s))"

definition ensure_add_liquidity_limit ::
    "'w circuit_breaker_config \<Rightarrow> origin \<Rightarrow> asset_id \<Rightarrow> balance \<Rightarrow> balance \<Rightarrow> 'w circuit_breaker \<Rightarrow>
     'w circuit_breaker cb_result" where
  "ensure_add_liquidity_limit C orig asset_id initial_liquidity added_liquidity s =
     tryR (is_origin_whitelisted_or_root C orig) (\<lambda>is_whitelisted.
     if is_whitelisted then Inr s
     else
       tryR (calculate_and_store_liquidity_limits C asset_id initial_liquidity s) (\<lambda>s.
       ensure_and_update_add_liquidity_limit C asset_id added_liquidity s))"

definition ensure_remove_liquidity_limit ::
    "'w circuit_breaker_config \<Rightarrow> origin \<Rightarrow> asset_id \<Rightarrow> balance \<Rightarrow> balance \<Rightarrow> 'w circuit_breaker \<Rightarrow>
     'w circuit_breaker cb_result" where
  "ensure_remove_liquidity_limit C orig asset_id initial_liquidity removed_liquidity s =
     tryR (is_origin_whitelisted_or_root C orig) (\<lambda>is_whitelisted.
     if is_whitelisted then Inr s
     else
       tryR (calculate_and_store_liquidity_limits C asset_id initial_liquidity s) (\<lambda>s.
       ensure_and_update_remove_liquidity_limit C asset_id removed_liquidity s))"

section \<open>The global withdraw limit\<close>

definition is_lockdown_at :: "moment \<Rightarrow> 'w circuit_breaker \<Rightarrow> bool" where
  "is_lockdown_at target s = (case withdraw_lockdown_until s of Some u \<Rightarrow> target < u | None \<Rightarrow> False)"

definition timestamp_now :: "'w circuit_breaker_config \<Rightarrow> 'w circuit_breaker \<Rightarrow> moment" where
  "timestamp_now C s = timestamp C (cb_world s)"

definition try_to_decay_withdraw_limit_accumulator ::
    "'w circuit_breaker_config \<Rightarrow> 'w circuit_breaker \<Rightarrow> 'w circuit_breaker" where
  "try_to_decay_withdraw_limit_accumulator C s =
     (case global_withdraw_limit_config s of
        None \<Rightarrow> s
      | Some params \<Rightarrow>
          let window = wl_window params in
          if window < 1 then s
          else
            let now = timestamp_now C s;
                (current, last_update) = withdraw_limit_accumulator s;
                time_diff = saturating_sub now last_update
            in if time_diff \<noteq> 0 \<and> \<not> is_lockdown_at now s
               then let capped_dt = min time_diff window;
                        p = perbill_from_rational (cb_arith C) capped_dt window;
                        decay = perbill_mul_floor (cb_arith C) p current;
                        new_current = saturating_sub current decay
                    in s\<lparr>withdraw_limit_accumulator := (new_current, now)\<rparr>
               else s)"

definition note_egress :: "'w circuit_breaker_config \<Rightarrow> balance \<Rightarrow> 'w circuit_breaker \<Rightarrow> 'w circuit_breaker cb_result" where
  "note_egress C amount s =
     (case global_withdraw_limit_config s of
        None \<Rightarrow> Inr s
      | Some params \<Rightarrow>
          let now = timestamp_now C s in
          if is_lockdown_at now s then Inl (Module WithdrawLockdownActive)
          else
            let s = try_to_decay_withdraw_limit_accumulator C s in
            if wl_window params < 1 then Inr s
            else
              let (current, _) = withdraw_limit_accumulator s in
              tryR (ok_or (checked_add 128 current amount) (Arithmetic Arith_Overflow)) (\<lambda>new_current.
              ensure (new_current < wl_limit params) (Module GlobalWithdrawLimitExceeded)
              (Inr (s\<lparr>withdraw_limit_accumulator := (new_current, now)\<rparr>))))"

definition ensure_xcm_withdraw_can_proceed ::
    "'w circuit_breaker_config \<Rightarrow> balance \<Rightarrow> balance \<Rightarrow> 'w circuit_breaker \<Rightarrow> 'w circuit_breaker cb_result" where
  "ensure_xcm_withdraw_can_proceed C amount buffered_egress s =
     (case global_withdraw_limit_config s of
        None \<Rightarrow> Inr s
      | Some params \<Rightarrow>
          let now = timestamp_now C s in
          if is_lockdown_at now s then Inl (Module WithdrawLockdownActive)
          else
            let s = try_to_decay_withdraw_limit_accumulator C s in
            if wl_window params < 1 then Inr s
            else
              let (current, _) = withdraw_limit_accumulator s in
              tryR (ok_or (do { v \<leftarrow> checked_add 128 current buffered_egress; checked_add 128 v amount })
                     (Arithmetic Arith_Overflow)) (\<lambda>projected.
              ensure (projected < wl_limit params) (Module GlobalWithdrawLimitExceeded) (Inr s)))"

definition note_deposit :: "'w circuit_breaker_config \<Rightarrow> balance \<Rightarrow> 'w circuit_breaker \<Rightarrow> 'w circuit_breaker" where
  "note_deposit C amount s =
     (let now = timestamp_now C s in
      if \<not> is_lockdown_at now s
      then let s = try_to_decay_withdraw_limit_accumulator C s;
               (current, _) = withdraw_limit_accumulator s;
               new_current = saturating_sub current amount
           in s\<lparr>withdraw_limit_accumulator := (new_current, now)\<rparr>
      else s)"

section \<open>Lockdown of an asset\<close>

definition do_reset_deposit_limits ::
    "'w circuit_breaker_config \<Rightarrow> asset_id \<Rightarrow> balance \<Rightarrow> 'w circuit_breaker \<Rightarrow> 'w circuit_breaker cb_result" where
  "do_reset_deposit_limits C asset_id extra_amount s =
     (let asset_issuance = issuance C (cb_world s) asset_id in
      Inr (s\<lparr>asset_lockdown_state := (asset_lockdown_state s)(asset_id \<mapsto>
        Unlocked (block_number C (cb_world s)) (saturating_sub asset_issuance extra_amount))\<rparr>))"

definition do_lockdown_asset ::
    "'w circuit_breaker_config \<Rightarrow> asset_id \<Rightarrow> block_number \<Rightarrow> 'w circuit_breaker \<Rightarrow> 'w circuit_breaker cb_result" where
  "do_lockdown_asset C asset_id until s =
     (let s1 = s\<lparr>asset_lockdown_state := (asset_lockdown_state s)(asset_id \<mapsto> Locked until)\<rparr>;
          s2 = s1\<lparr>cb_world := on_limit_reached C asset_id (cb_world s1)\<rparr>
      in Inr (cb_emit (AssetLockdown asset_id until) s2))"

definition do_lift_lockdown ::
    "'w circuit_breaker_config \<Rightarrow> asset_id \<Rightarrow> balance \<Rightarrow> 'w circuit_breaker \<Rightarrow> 'w circuit_breaker cb_result" where
  "do_lift_lockdown C asset_id extra_amount s =
     tryR (do_reset_deposit_limits C asset_id extra_amount s) (\<lambda>s.
     Inr (cb_emit (AssetLockdownRemoved asset_id) s))"

definition do_lock_deposit ::
    "'w circuit_breaker_config \<Rightarrow> account_id \<Rightarrow> asset_id \<Rightarrow> balance \<Rightarrow> 'w circuit_breaker \<Rightarrow>
     'w circuit_breaker cb_result" where
  "do_lock_deposit C who asset_id amount s =
     (if deposit_lock_whitelist C who then Inl (Module DepositLimitExceededForWhitelistedAccount)
      else tryR (foreign (on_lockdown_deposit C (asset_id, who, amount) (cb_world s))) (\<lambda>w. Inr (s\<lparr>cb_world := w\<rparr>)))"

section \<open>The issuance fuse\<close>

datatype deposit_action =
    InitialDeposit | LockdownActive | LockdownExpired | PeriodExpired | WithinPeriod balance

record deposit_context =
  dc_action :: deposit_action
  dc_limit :: balance
  dc_lockdown_until :: block_number
  dc_asset_issuance :: balance

text \<open>\<open>period.saturated_into()\<close> is the period as a \<open>u32\<close> block number.\<close>

definition block_after :: "block_number \<Rightarrow> nat \<Rightarrow> block_number" where
  "block_after b period = saturating_add 32 b (min (umax 32) period)"

definition classify_state :: "lockdown_status option \<Rightarrow> block_number \<Rightarrow> nat \<Rightarrow> deposit_action" where
  "classify_state state current_block period =
     (case state of
        None \<Rightarrow> InitialDeposit
      | Some (Locked until) \<Rightarrow> (if current_block < until then LockdownActive else LockdownExpired)
      | Some (Unlocked last_reset_at last_issuance) \<Rightarrow>
          (if block_after last_reset_at period \<le> current_block then PeriodExpired else WithinPeriod last_issuance))"

definition fuse_context :: "'w circuit_breaker_config \<Rightarrow> asset_id \<Rightarrow> 'w circuit_breaker \<Rightarrow> deposit_context option" where
  "fuse_context C currency_id s =
     (let period = deposit_period C in
      if period = 0 then None
      else do {
        limit \<leftarrow> deposit_limit C (cb_world s) currency_id;
        let current_block = block_number C (cb_world s);
        let lockdown_until = block_after current_block period;
        let asset_issuance = issuance C (cb_world s) currency_id;
        let action = classify_state (asset_lockdown_state s currency_id) current_block period;
        Some \<lparr>dc_action = action, dc_limit = limit, dc_lockdown_until = lockdown_until, dc_asset_issuance = asset_issuance\<rparr>
      })"

definition can_mint :: "'w circuit_breaker_config \<Rightarrow> asset_id \<Rightarrow> balance \<Rightarrow> 'w circuit_breaker \<Rightarrow> bool" where
  "can_mint C currency_id amount s =
     (case fuse_context C currency_id s of
        None \<Rightarrow> True
      | Some cx \<Rightarrow>
          (case dc_action cx of
             LockdownActive \<Rightarrow> False
           | WithinPeriod last_issuance \<Rightarrow>
               (let increase = saturating_sub (dc_asset_issuance cx) last_issuance
                in saturating_add 128 increase amount \<le> dc_limit cx)
           | _ \<Rightarrow> amount \<le> dc_limit cx))"

definition handle_limit_reset ::
    "'w circuit_breaker_config \<Rightarrow> deposit_context \<Rightarrow> account_id \<Rightarrow> asset_id \<Rightarrow> balance \<Rightarrow> 'w circuit_breaker \<Rightarrow>
     'w circuit_breaker cb_result" where
  "handle_limit_reset C cx who currency_id amount s =
     (if dc_limit cx < amount
      then let to_lock = saturating_sub amount (dc_limit cx) in
        tryR (do_lock_deposit C who currency_id to_lock s) (\<lambda>s.
        do_lockdown_asset C currency_id (dc_lockdown_until cx) s)
      else do_reset_deposit_limits C currency_id amount s)"

definition handle_lockdown_expired ::
    "'w circuit_breaker_config \<Rightarrow> deposit_context \<Rightarrow> account_id \<Rightarrow> asset_id \<Rightarrow> balance \<Rightarrow> 'w circuit_breaker \<Rightarrow>
     'w circuit_breaker cb_result" where
  "handle_lockdown_expired C cx who currency_id amount s =
     (if dc_limit cx < amount
      then let to_lock = saturating_sub amount (dc_limit cx) in
        tryR (do_lock_deposit C who currency_id to_lock s) (\<lambda>s.
        do_lockdown_asset C currency_id (dc_lockdown_until cx) s)
      else do_lift_lockdown C currency_id amount s)"

definition handle_within_period ::
    "'w circuit_breaker_config \<Rightarrow> deposit_context \<Rightarrow> account_id \<Rightarrow> asset_id \<Rightarrow> balance \<Rightarrow> 'w circuit_breaker \<Rightarrow>
     'w circuit_breaker cb_result" where
  "handle_within_period C cx who currency_id last_issuance s =
     (let increase = saturating_sub (dc_asset_issuance cx) last_issuance in
      if dc_limit cx < increase
      then let to_lock = saturating_sub (dc_asset_issuance cx) (saturating_add 128 last_issuance (dc_limit cx)) in
        tryR (do_lock_deposit C who currency_id to_lock s) (\<lambda>s.
        do_lockdown_asset C currency_id (dc_lockdown_until cx) s)
      else Inr s)"

definition process_deposit_action ::
    "'w circuit_breaker_config \<Rightarrow> deposit_context \<Rightarrow> account_id \<Rightarrow> asset_id \<Rightarrow> balance \<Rightarrow> 'w circuit_breaker \<Rightarrow>
     'w circuit_breaker cb_result" where
  "process_deposit_action C cx who currency_id amount s =
     (case dc_action cx of
        InitialDeposit \<Rightarrow> handle_limit_reset C cx who currency_id amount s
      | PeriodExpired \<Rightarrow> handle_limit_reset C cx who currency_id amount s
      | LockdownExpired \<Rightarrow> handle_lockdown_expired C cx who currency_id amount s
      | LockdownActive \<Rightarrow> do_lock_deposit C who currency_id amount s
      | WithinPeriod last_issuance \<Rightarrow> handle_within_period C cx who currency_id last_issuance s)"

definition on_deposit ::
    "'w circuit_breaker_config \<Rightarrow> asset_id \<Rightarrow> account_id \<Rightarrow> balance \<Rightarrow> 'w circuit_breaker \<Rightarrow>
     'w circuit_breaker cb_result" where
  "on_deposit C currency_id who amount s =
     (case fuse_context C currency_id s of
        None \<Rightarrow> Inr s
      | Some cx \<Rightarrow> process_deposit_action C cx who currency_id amount s)"

section \<open>Extrinsics and hooks\<close>

definition set_trade_volume_limit ::
    "'w circuit_breaker_config \<Rightarrow> origin \<Rightarrow> asset_id \<Rightarrow> nat \<times> nat \<Rightarrow> 'w circuit_breaker \<Rightarrow> 'w circuit_breaker cb_result" where
  "set_trade_volume_limit C orig asset_id limit s =
     ensure (cb_authority C orig) BadOrigin
     (ensure (asset_id \<noteq> cb_hub_asset C) (Module NotAllowed)
     (tryR (validate_limit limit) (\<lambda>_.
      Inr (cb_emit (TradeVolumeLimitChanged asset_id limit)
             (s\<lparr>trade_limits := (trade_limits s)(asset_id \<mapsto> limit)\<rparr>)))))"

definition set_add_liquidity_limit ::
    "'w circuit_breaker_config \<Rightarrow> origin \<Rightarrow> asset_id \<Rightarrow> (nat \<times> nat) option \<Rightarrow> 'w circuit_breaker \<Rightarrow>
     'w circuit_breaker cb_result" where
  "set_add_liquidity_limit C orig asset_id limit s =
     ensure (cb_authority C orig) BadOrigin
     (ensure (asset_id \<noteq> cb_hub_asset C) (Module NotAllowed)
     (tryR (case limit of Some l \<Rightarrow> validate_limit l | None \<Rightarrow> Inr ()) (\<lambda>_.
      Inr (cb_emit (AddLiquidityLimitChanged asset_id limit)
             (s\<lparr>add_limits := (add_limits s)(asset_id \<mapsto> limit)\<rparr>)))))"

definition set_remove_liquidity_limit ::
    "'w circuit_breaker_config \<Rightarrow> origin \<Rightarrow> asset_id \<Rightarrow> (nat \<times> nat) option \<Rightarrow> 'w circuit_breaker \<Rightarrow>
     'w circuit_breaker cb_result" where
  "set_remove_liquidity_limit C orig asset_id limit s =
     ensure (cb_authority C orig) BadOrigin
     (ensure (asset_id \<noteq> cb_hub_asset C) (Module NotAllowed)
     (tryR (case limit of Some l \<Rightarrow> validate_limit l | None \<Rightarrow> Inr ()) (\<lambda>_.
      Inr (cb_emit (RemoveLiquidityLimitChanged asset_id limit)
             (s\<lparr>remove_limits := (remove_limits s)(asset_id \<mapsto> limit)\<rparr>)))))"

definition lockdown_asset ::
    "'w circuit_breaker_config \<Rightarrow> origin \<Rightarrow> asset_id \<Rightarrow> block_number \<Rightarrow> 'w circuit_breaker \<Rightarrow> 'w circuit_breaker cb_result" where
  "lockdown_asset C orig asset_id until s =
     ensure (cb_authority C orig) BadOrigin (do_lockdown_asset C asset_id until s)"

definition force_lift_lockdown ::
    "'w circuit_breaker_config \<Rightarrow> origin \<Rightarrow> asset_id \<Rightarrow> 'w circuit_breaker \<Rightarrow> 'w circuit_breaker cb_result" where
  "force_lift_lockdown C orig asset_id s =
     ensure (cb_authority C orig) BadOrigin
     (case asset_lockdown_state s asset_id of
        None \<Rightarrow> Inl (Module AssetNotInLockdown)
      | Some last_state \<Rightarrow>
          ensure (case last_state of Locked _ \<Rightarrow> True | Unlocked _ _ \<Rightarrow> False) (Module AssetNotInLockdown)
          (do_lift_lockdown C asset_id 0 s))"

definition release_deposit ::
    "'w circuit_breaker_config \<Rightarrow> origin \<Rightarrow> account_id \<Rightarrow> asset_id \<Rightarrow> 'w circuit_breaker \<Rightarrow> 'w circuit_breaker cb_result" where
  "release_deposit C orig who asset_id s =
     tryR (case ensure_signed_or_root orig :: account_id option cb_result of
             Inr _ \<Rightarrow> Inr ()
           | Inl _ \<Rightarrow> ensure (cb_authority C orig) BadOrigin (Inr ())) (\<lambda>_.
     let current_block = block_number C (cb_world s) in
     ensure (\<not> (case asset_lockdown_state s asset_id of Some (Locked until) \<Rightarrow> current_block < until | _ \<Rightarrow> False))
       (Module AssetInLockdown)
     (tryR (foreign (on_deposit_release C (asset_id, who) (cb_world s))) (\<lambda>w.
      Inr (cb_emit (DepositReleased who asset_id) (s\<lparr>cb_world := w\<rparr>)))))"

definition set_global_withdraw_limit_params ::
    "'w circuit_breaker_config \<Rightarrow> origin \<Rightarrow> withdraw_limit_params \<Rightarrow> 'w circuit_breaker \<Rightarrow> 'w circuit_breaker cb_result" where
  "set_global_withdraw_limit_params C orig params s =
     ensure (cb_authority C orig) BadOrigin
     (Inr (cb_emit (WithdrawLimitConfigUpdated (wl_limit params) (wl_window params))
        (s\<lparr>global_withdraw_limit_config := Some params\<rparr>)))"

definition reset_withdraw_lockdown ::
    "'w circuit_breaker_config \<Rightarrow> origin \<Rightarrow> 'w circuit_breaker \<Rightarrow> 'w circuit_breaker cb_result" where
  "reset_withdraw_lockdown C orig s =
     ensure (cb_authority C orig) BadOrigin
     (let now = timestamp_now C s in
      Inr (cb_emit WithdrawLockdownReset
        (s\<lparr>withdraw_limit_accumulator := (0, now), withdraw_lockdown_until := None\<rparr>)))"

definition add_egress_accounts ::
    "'w circuit_breaker_config \<Rightarrow> origin \<Rightarrow> account_id list \<Rightarrow> 'w circuit_breaker \<Rightarrow> 'w circuit_breaker cb_result" where
  "add_egress_accounts C orig accounts s =
     ensure (cb_authority C orig) BadOrigin
     (Inr (cb_emit (EgressAccountsAdded (length accounts mod 2 ^ 32))
        (s\<lparr>egress_accounts := fold (\<lambda>account m. m(account \<mapsto> ())) accounts (egress_accounts s)\<rparr>)))"

definition remove_egress_accounts ::
    "'w circuit_breaker_config \<Rightarrow> origin \<Rightarrow> account_id list \<Rightarrow> 'w circuit_breaker \<Rightarrow> 'w circuit_breaker cb_result" where
  "remove_egress_accounts C orig accounts s =
     ensure (cb_authority C orig) BadOrigin
     (Inr (cb_emit (EgressAccountsRemoved (length accounts mod 2 ^ 32))
        (s\<lparr>egress_accounts := fold (\<lambda>account m. m(account := None)) accounts (egress_accounts s)\<rparr>)))"

definition set_global_withdraw_lockdown ::
    "'w circuit_breaker_config \<Rightarrow> origin \<Rightarrow> moment \<Rightarrow> 'w circuit_breaker \<Rightarrow> 'w circuit_breaker cb_result" where
  "set_global_withdraw_lockdown C orig until s =
     ensure (cb_authority C orig) BadOrigin
     (Inr (cb_emit (WithdrawLockdownTriggered until) (s\<lparr>withdraw_lockdown_until := Some until\<rparr>)))"

definition set_asset_category ::
    "'w circuit_breaker_config \<Rightarrow> origin \<Rightarrow> asset_id \<Rightarrow> global_asset_category option \<Rightarrow> 'w circuit_breaker \<Rightarrow>
     'w circuit_breaker cb_result" where
  "set_asset_category C orig asset_id category s =
     ensure (cb_authority C orig) BadOrigin
     (Inr (cb_emit (AssetCategoryUpdated asset_id category)
        (s\<lparr>global_asset_overrides := (global_asset_overrides s)(asset_id := category)\<rparr>)))"

definition cb_on_initialize :: "'w circuit_breaker_config \<Rightarrow> 'w circuit_breaker \<Rightarrow> 'w circuit_breaker" where
  "cb_on_initialize C s =
     (case withdraw_lockdown_until s of
        Some until \<Rightarrow>
          (if until \<le> timestamp_now C s
           then cb_emit WithdrawLockdownLifted (s\<lparr>withdraw_lockdown_until := None\<rparr>) else s)
      | None \<Rightarrow> s)"

definition cb_on_finalize :: "'w circuit_breaker \<Rightarrow> 'w circuit_breaker" where
  "cb_on_finalize s = s\<lparr>allowed_trade_volume := Map.empty, allowed_add_liquidity := Map.empty,
     allowed_remove_liquidity := Map.empty, ignore_withdraw_limit := False, xcm_egress_buffer := None\<rparr>"

text \<open>The assertions of \<open>integrity_test\<close> on the configured defaults.\<close>

definition cb_integrity_test :: "'w circuit_breaker_config \<Rightarrow> bool" where
  "cb_integrity_test C \<longleftrightarrow> validate_limit (default_trade_volume_limit C) = Inr () \<and>
     (case default_add_liquidity_limit C of Some l \<Rightarrow> validate_limit l = Inr () | None \<Rightarrow> True) \<and>
     (case default_remove_liquidity_limit C of Some l \<Rightarrow> validate_limit l = Inr () | None \<Rightarrow> True)"

section \<open>Operations of the pallet\<close>

datatype cb_op =
    Op_trade asset_id balance balance asset_id balance balance
  | Op_add_liquidity origin asset_id balance balance
  | Op_remove_liquidity origin asset_id balance balance
  | Op_note_egress balance
  | Op_xcm_check balance balance
  | Op_note_deposit balance
  | Op_on_deposit asset_id account_id balance
  | Call_set_trade_volume_limit origin asset_id "nat \<times> nat"
  | Call_set_add_liquidity_limit origin asset_id "(nat \<times> nat) option"
  | Call_set_remove_liquidity_limit origin asset_id "(nat \<times> nat) option"
  | Call_lockdown_asset origin asset_id block_number
  | Call_force_lift_lockdown origin asset_id
  | Call_release_deposit origin account_id asset_id
  | Call_set_global_withdraw_limit_params origin withdraw_limit_params
  | Call_reset_withdraw_lockdown origin
  | Call_add_egress_accounts origin "account_id list"
  | Call_remove_egress_accounts origin "account_id list"
  | Call_set_global_withdraw_lockdown origin moment
  | Call_set_asset_category origin asset_id "global_asset_category option"

fun cb_exec :: "'w circuit_breaker_config \<Rightarrow> cb_op \<Rightarrow> 'w circuit_breaker \<Rightarrow> 'w circuit_breaker cb_result" where
  "cb_exec C (Op_trade a r n b q m) s = ensure_pool_state_change_limit C a r n b q m s"
| "cb_exec C (Op_add_liquidity orig a l n) s = ensure_add_liquidity_limit C orig a l n s"
| "cb_exec C (Op_remove_liquidity orig a l n) s = ensure_remove_liquidity_limit C orig a l n s"
| "cb_exec C (Op_note_egress n) s = note_egress C n s"
| "cb_exec C (Op_xcm_check n m) s = ensure_xcm_withdraw_can_proceed C n m s"
| "cb_exec C (Op_note_deposit n) s = Inr (note_deposit C n s)"
| "cb_exec C (Op_on_deposit a who n) s = on_deposit C a who n s"
| "cb_exec C (Call_set_trade_volume_limit orig a l) s = set_trade_volume_limit C orig a l s"
| "cb_exec C (Call_set_add_liquidity_limit orig a l') s = set_add_liquidity_limit C orig a l' s"
| "cb_exec C (Call_set_remove_liquidity_limit orig a l') s = set_remove_liquidity_limit C orig a l' s"
| "cb_exec C (Call_lockdown_asset orig a u) s = lockdown_asset C orig a u s"
| "cb_exec C (Call_force_lift_lockdown orig a) s = force_lift_lockdown C orig a s"
| "cb_exec C (Call_release_deposit orig who a) s = release_deposit C orig who a s"
| "cb_exec C (Call_set_global_withdraw_limit_params orig p) s = set_global_withdraw_limit_params C orig p s"
| "cb_exec C (Call_reset_withdraw_lockdown orig) s = reset_withdraw_lockdown C orig s"
| "cb_exec C (Call_add_egress_accounts orig xs) s = add_egress_accounts C orig xs s"
| "cb_exec C (Call_remove_egress_accounts orig xs) s = remove_egress_accounts C orig xs s"
| "cb_exec C (Call_set_global_withdraw_lockdown orig u) s = set_global_withdraw_lockdown C orig u s"
| "cb_exec C (Call_set_asset_category orig a c) s = set_asset_category C orig a c s"

text \<open>
  \<open>cb_steps C s ops s'\<close>: the operations \<open>ops\<close> succeed one after the other and lead from \<open>s\<close> to \<open>s'\<close>, while
  the rest of the runtime changes the world in between and its clock does not run backwards.
\<close>

inductive cb_steps :: "'w circuit_breaker_config \<Rightarrow> 'w circuit_breaker \<Rightarrow> cb_op list \<Rightarrow> 'w circuit_breaker \<Rightarrow> bool" for C where
  start: "cb_steps C s [] s"
| exec: "cb_steps C s ops s' \<Longrightarrow> cb_exec C op s' = Inr s'' \<Longrightarrow> cb_steps C s (ops @ [op]) s''"
| world_moves: "cb_steps C s ops s' \<Longrightarrow> timestamp C (cb_world s') \<le> timestamp C w \<Longrightarrow>
    block_number C (cb_world s') \<le> block_number C w \<Longrightarrow> cb_steps C s ops (s'\<lparr>cb_world := w\<rparr>)"

text \<open>\<open>cb_blocks C s ops s'\<close>: the same over any number of blocks, whose beginnings and ends run the hooks of the pallet.\<close>

inductive cb_blocks :: "'w circuit_breaker_config \<Rightarrow> 'w circuit_breaker \<Rightarrow> cb_op list \<Rightarrow> 'w circuit_breaker \<Rightarrow> bool" for C where
  start: "cb_blocks C s [] s"
| exec: "cb_blocks C s ops s' \<Longrightarrow> cb_exec C op s' = Inr s'' \<Longrightarrow> cb_blocks C s (ops @ [op]) s''"
| world_moves: "cb_blocks C s ops s' \<Longrightarrow> timestamp C (cb_world s') \<le> timestamp C w \<Longrightarrow>
    block_number C (cb_world s') \<le> block_number C w \<Longrightarrow> cb_blocks C s ops (s'\<lparr>cb_world := w\<rparr>)"
| initialize: "cb_blocks C s ops s' \<Longrightarrow> cb_blocks C s ops (cb_on_initialize C s')"
| finalize: "cb_blocks C s ops s' \<Longrightarrow> cb_blocks C s ops (cb_on_finalize s')"

lemma cb_steps_blocks: "cb_steps C s ops s' \<Longrightarrow> cb_blocks C s ops s'"
  by (induction rule: cb_steps.induct) (auto intro: cb_blocks.intros)

end
