(* ===== verification/Circuit_Limits.thy ===== *)
theory Circuit_Limits
  imports Circuit_Breaker
begin

text \<open>
  What the circuit breaker guarantees over sequences of operations: the stored volumes of a block are
  exactly those of the accepted trades and their net stays within the limit; the withdrawals of any stretch
  of time are bounded by the global limit; and the issuance of an asset that stays unlocked grows by
  at most its limit per period.
\<close>

section \<open>Which operations touch what\<close>

lemmas lockdown_defs = do_reset_deposit_limits_def do_lockdown_asset_def do_lift_lockdown_def do_lock_deposit_def
  on_deposit_def process_deposit_action_def handle_limit_reset_def handle_lockdown_expired_def handle_within_period_def
  lockdown_asset_def force_lift_lockdown_def release_deposit_def

lemmas governance_defs = set_trade_volume_limit_def set_add_liquidity_limit_def set_remove_liquidity_limit_def
  set_global_withdraw_limit_params_def reset_withdraw_lockdown_def add_egress_accounts_def remove_egress_accounts_def
  set_global_withdraw_lockdown_def set_asset_category_def

lemmas withdraw_defs = note_egress_def ensure_xcm_withdraw_can_proceed_def note_deposit_def
  try_to_decay_withdraw_limit_accumulator_def

lemmas liquidity_defs = ensure_add_liquidity_limit_def ensure_remove_liquidity_limit_def
  ensure_and_update_add_liquidity_limit_def ensure_and_update_remove_liquidity_limit_def
  calculate_and_store_liquidity_limits_def

lemmas trade_defs = ensure_pool_state_change_limit_def initialize_trade_limit_def ensure_and_update_trade_volume_limit_def

text \<open>The groups of storage items and which operations leave them alone.\<close>

definition trade_view :: "'w circuit_breaker \<Rightarrow> (asset_id \<rightharpoonup> trade_volume_limit) \<times> (asset_id \<rightharpoonup> nat \<times> nat)" where
  "trade_view s = (allowed_trade_volume s, trade_limits s)"

definition withdraw_view :: "'w circuit_breaker \<Rightarrow> withdraw_limit_params option \<times> balance \<times> moment" where
  "withdraw_view s = (global_withdraw_limit_config s, withdraw_limit_accumulator s)"

lemma cb_emit_sel [simp]:
  "allowed_trade_volume (cb_emit e s) = allowed_trade_volume s" "trade_limits (cb_emit e s) = trade_limits s"
  "global_withdraw_limit_config (cb_emit e s) = global_withdraw_limit_config s"
  "withdraw_limit_accumulator (cb_emit e s) = withdraw_limit_accumulator s"
  "asset_lockdown_state (cb_emit e s) = asset_lockdown_state s" "cb_world (cb_emit e s) = cb_world s"
  "trade_view (cb_emit e s) = trade_view s" "withdraw_view (cb_emit e s) = withdraw_view s"
  by (simp_all add: cb_emit_def trade_view_def withdraw_view_def)

lemma lockdown_views:
  "do_lock_deposit C who a n s = Inr s1 \<Longrightarrow> trade_view s1 = trade_view s \<and> withdraw_view s1 = withdraw_view s"
  "do_lockdown_asset C a u s = Inr s2 \<Longrightarrow> trade_view s2 = trade_view s \<and> withdraw_view s2 = withdraw_view s"
  "do_reset_deposit_limits C a n s = Inr s3 \<Longrightarrow> trade_view s3 = trade_view s \<and> withdraw_view s3 = withdraw_view s"
  "do_lift_lockdown C a n s = Inr s4 \<Longrightarrow> trade_view s4 = trade_view s \<and> withdraw_view s4 = withdraw_view s"
  by (auto simp: lockdown_defs trade_view_def withdraw_view_def res_iff Let_def split: if_splits)

lemma on_deposit_views:
  "on_deposit C a who n s = Inr s' \<Longrightarrow> trade_view s' = trade_view s \<and> withdraw_view s' = withdraw_view s"
  by (auto simp: on_deposit_def process_deposit_action_def handle_limit_reset_def handle_lockdown_expired_def
      handle_within_period_def Let_def res_iff lockdown_views split: option.splits deposit_action.splits if_splits)

lemma liquidity_update_views:
  "ensure_and_update_add_liquidity_limit C a n s = Inr s2 \<Longrightarrow> trade_view s2 = trade_view s \<and> withdraw_view s2 = withdraw_view s \<and> cb_world s2 = cb_world s"
  "ensure_and_update_remove_liquidity_limit C a n s = Inr s3 \<Longrightarrow> trade_view s3 = trade_view s \<and> withdraw_view s3 = withdraw_view s \<and> cb_world s3 = cb_world s"
  by (auto simp: ensure_and_update_add_liquidity_limit_def ensure_and_update_remove_liquidity_limit_def
      trade_view_def withdraw_view_def res_iff split: if_splits)

lemma liquidity_store_views:
  assumes "calculate_and_store_liquidity_limits C a l s = Inr s1"
  shows "trade_view s1 = trade_view s \<and> withdraw_view s1 = withdraw_view s \<and> cb_world s1 = cb_world s"
proof (cases "a = cb_hub_asset C")
  case True
  then show ?thesis using assms by (simp add: calculate_and_store_liquidity_limits_def)
next
  case False
  with assms obtain s' where s': "(case add_liquidity_limit_per_asset C s a of
            Some limit \<Rightarrow>
              (if allowed_add_liquidity s a = None
               then tryR (calculate_limit l limit) (\<lambda>max_limit.
                 Inr (s\<lparr>allowed_add_liquidity := (allowed_add_liquidity s)(a \<mapsto>
                        \<lparr>ll_liquidity = 0, ll_limit = max_limit\<rparr>)\<rparr>))
               else Inr s)
          | None \<Rightarrow> Inr s) = (Inr s' :: 'a circuit_breaker cb_result)"
      and s1: "(case remove_liquidity_limit_per_asset C s' a of
            Some limit \<Rightarrow>
              (if allowed_remove_liquidity s' a = None
               then tryR (calculate_limit l limit) (\<lambda>max_limit.
                 Inr (s'\<lparr>allowed_remove_liquidity := (allowed_remove_liquidity s')(a \<mapsto>
                        \<lparr>ll_liquidity = 0, ll_limit = max_limit\<rparr>)\<rparr>))
               else Inr s')
          | None \<Rightarrow> Inr s') = (Inr s1 :: 'a circuit_breaker cb_result)"
    unfolding calculate_and_store_liquidity_limits_def by (auto elim: tryR_E)
  have "trade_view s' = trade_view s \<and> withdraw_view s' = withdraw_view s \<and> cb_world s' = cb_world s"
    using s' by (auto simp: res_iff trade_view_def withdraw_view_def split: option.splits if_splits)
  moreover have "trade_view s1 = trade_view s' \<and> withdraw_view s1 = withdraw_view s' \<and> cb_world s1 = cb_world s'"
    using s1 by (auto simp: res_iff trade_view_def withdraw_view_def split: option.splits if_splits)
  ultimately show ?thesis by simp
qed

lemma liquidity_views:
  "ensure_add_liquidity_limit C orig a l n s = Inr s1 \<Longrightarrow> trade_view s1 = trade_view s \<and> withdraw_view s1 = withdraw_view s \<and> cb_world s1 = cb_world s"
  "ensure_remove_liquidity_limit C orig a l n s = Inr s2 \<Longrightarrow> trade_view s2 = trade_view s \<and> withdraw_view s2 = withdraw_view s \<and> cb_world s2 = cb_world s"
  by (auto simp: ensure_add_liquidity_limit_def ensure_remove_liquidity_limit_def res_iff liquidity_update_views liquidity_store_views split: if_splits)

lemma trade_withdraw_view:
  "ensure_pool_state_change_limit C a r n b q m s = Inr s' \<Longrightarrow> withdraw_view s' = withdraw_view s \<and> cb_world s' = cb_world s"
  by (auto simp: trade_defs withdraw_view_def res_iff split: if_splits)

lemma withdraw_trade_view:
  "note_egress C n s = Inr s1 \<Longrightarrow> trade_view s1 = trade_view s"
  "ensure_xcm_withdraw_can_proceed C n m s = Inr s2 \<Longrightarrow> trade_view s2 = trade_view s"
  "trade_view (note_deposit C n s) = trade_view s"
  by (auto simp: withdraw_defs trade_view_def res_iff Let_def case_prod_beta split: option.splits if_splits)

section \<open>Trade volumes of a block\<close>

text \<open>The specification: what a list of operations trades of an asset, and the reserve it was first traded at.\<close>

fun traded_in :: "asset_id \<Rightarrow> cb_op \<Rightarrow> balance" where
  "traded_in a (Op_trade x r n y q m) = (if x = a then n else 0)"
| "traded_in a _ = 0"

fun traded_out :: "asset_id \<Rightarrow> cb_op \<Rightarrow> balance" where
  "traded_out a (Op_trade x r n y q m) = (if y = a then m else 0)"
| "traded_out a _ = 0"

fun trade_reserve :: "asset_id \<Rightarrow> cb_op \<Rightarrow> balance option" where
  "trade_reserve a (Op_trade x r n y q m) = (if x = a then Some r else if y = a then Some q else None)"
| "trade_reserve a _ = None"

definition first_reserve :: "asset_id \<Rightarrow> cb_op list \<Rightarrow> balance option" where
  "first_reserve a ops = foldl (\<lambda>r op. case r of None \<Rightarrow> trade_reserve a op | Some x \<Rightarrow> Some x) None ops"

definition volume_spec :: "nat \<times> nat \<Rightarrow> asset_id \<Rightarrow> cb_op list \<Rightarrow> trade_volume_limit option" where
  "volume_spec limit a ops = map_option (\<lambda>r. \<lparr>volume_in = sum_list (map (traded_in a) ops),
     volume_out = sum_list (map (traded_out a) ops), tv_limit = r * fst limit div snd limit\<rparr>) (first_reserve a ops)"

definition within_limit :: "trade_volume_limit \<Rightarrow> bool" where
  "within_limit l \<longleftrightarrow> volume_in l \<le> volume_out l + tv_limit l \<and> volume_out l \<le> volume_in l + tv_limit l"

definition volume_after :: "nat \<times> nat \<Rightarrow> asset_id \<Rightarrow> cb_op \<Rightarrow> trade_volume_limit option \<Rightarrow> trade_volume_limit option" where
  "volume_after limit a op v = (case trade_reserve a op of None \<Rightarrow> v | Some r \<Rightarrow>
     let l = (case v of Some l \<Rightarrow> l | None \<Rightarrow> \<lparr>volume_in = 0, volume_out = 0, tv_limit = r * fst limit div snd limit\<rparr>)
     in Some (l\<lparr>volume_in := volume_in l + traded_in a op, volume_out := volume_out l + traded_out a op\<rparr>))"

lemma not_traded: "trade_reserve a op = None \<Longrightarrow> traded_in a op = 0 \<and> traded_out a op = 0"
  by (cases op) (auto split: if_splits)

lemma volume_spec_snoc: "volume_spec limit a (ops @ [op]) = volume_after limit a op (volume_spec limit a ops)"
proof -
  have zero: "first_reserve a ops = None \<Longrightarrow> sum_list (map (traded_in a) ops) = 0 \<and> sum_list (map (traded_out a) ops) = 0"
    by (induction ops rule: rev_induct) (auto simp: first_reserve_def not_traded split: option.splits)
  then show ?thesis
    by (cases "trade_reserve a op"; cases "first_reserve a ops")
      (auto simp: volume_spec_def volume_after_def first_reserve_def not_traded Let_def split: option.splits)
qed

lemma check_limits_Inr [res_iff]: "check_limits l = Inr u \<longleftrightarrow> within_limit l"
  by (auto simp: check_limits_def check_outflow_limit_def check_influx_limit_def within_limit_def res_iff ck_iff)

lemma update_amounts_Inr [res_iff]:
  "update_amounts n m l = Inr l' \<longleftrightarrow> volume_in l + n \<le> umax 128 \<and> volume_out l + m \<le> umax 128 \<and>
     l' = l\<lparr>volume_in := volume_in l + n, volume_out := volume_out l + m\<rparr>"
  by (auto simp: update_amounts_def res_iff ck_iff)

lemma calculate_limit_Inr [res_iff]:
  "calculate_limit n limit = Inr v \<longleftrightarrow> n * fst limit \<le> umax 128 \<and> snd limit \<noteq> 0 \<and> v = n * fst limit div snd limit"
  by (auto simp: calculate_limit_def case_prod_beta res_iff ck_iff)

lemma initialize_trade_limit_Inr:
  assumes "initialize_trade_limit C x r s = Inr s'"
  shows "trade_limits s' = trade_limits s"
    "allowed_trade_volume s' a = (if a = x \<and> x \<noteq> cb_hub_asset C \<and> allowed_trade_volume s x = None
       then Some \<lparr>volume_in = 0, volume_out = 0, tv_limit = r * fst (trade_volume_limit_per_asset C s x)
         div snd (trade_volume_limit_per_asset C s x)\<rparr> else allowed_trade_volume s a)"
  using assms by (auto simp: initialize_trade_limit_def res_iff split: if_splits)

lemma update_trade_volume_Inr:
  assumes "ensure_and_update_trade_volume_limit C x n y m s = Inr s'" "a \<noteq> cb_hub_asset C"
  shows "trade_limits s' = trade_limits s"
    "allowed_trade_volume s' a = (if a = x \<or> a = y then map_option (\<lambda>l. l\<lparr>volume_in := volume_in l + (if x = a then n else 0),
       volume_out := volume_out l + (if y = a then m else 0)\<rparr>) (allowed_trade_volume s a) else allowed_trade_volume s a)"
    "a = x \<or> a = y \<Longrightarrow> \<exists>l. allowed_trade_volume s' a = Some l \<and> within_limit l"
  using assms by (auto simp: ensure_and_update_trade_volume_limit_def res_iff split: if_splits)

lemma trade_volume_after:
  assumes "ensure_pool_state_change_limit C x r n y q m s = Inr s'" "a \<noteq> cb_hub_asset C"
  shows "trade_limits s' = trade_limits s"
    "allowed_trade_volume s' a = volume_after (trade_volume_limit_per_asset C s a) a (Op_trade x r n y q m) (allowed_trade_volume s a)"
    "a = x \<or> a = y \<Longrightarrow> \<exists>l. allowed_trade_volume s' a = Some l \<and> within_limit l"
proof -
  obtain s1 s2 where run: "initialize_trade_limit C x r s = Inr s1" "initialize_trade_limit C y q s1 = Inr s2"
      "ensure_and_update_trade_volume_limit C x n y m s2 = Inr s'"
    using assms(1) by (auto simp: ensure_pool_state_change_limit_def res_iff)
  note upd = update_trade_volume_Inr [OF run(3) assms(2)]
  note ini = initialize_trade_limit_Inr [OF run(1)] initialize_trade_limit_Inr [OF run(2)]
  show "trade_limits s' = trade_limits s" using upd(1) ini(1,3) by simp
  have "trade_volume_limit_per_asset C s1 a = trade_volume_limit_per_asset C s a"
    using ini(1) by (simp add: trade_volume_limit_per_asset_def)
  then show "allowed_trade_volume s' a = volume_after (trade_volume_limit_per_asset C s a) a (Op_trade x r n y q m) (allowed_trade_volume s a)"
    using upd(2) ini(2) [of a] ini(4) [of a] assms(2)
    by (cases "a = x"; cases "a = y"; cases "allowed_trade_volume s a") (simp_all add: volume_after_def)
  show "a = x \<or> a = y \<Longrightarrow> \<exists>l. allowed_trade_volume s' a = Some l \<and> within_limit l" by (rule upd(3))
qed

fun sets_trade_limit :: "asset_id \<Rightarrow> cb_op \<Rightarrow> bool" where
  "sets_trade_limit a (Call_set_trade_volume_limit orig x l) = (x = a)"
| "sets_trade_limit a _ = False"

lemma not_trade_view:
  assumes "cb_exec C op s = Inr s'" "trade_reserve a op = None" "\<not> sets_trade_limit a op" "a \<noteq> cb_hub_asset C"
  shows "allowed_trade_volume s' a = allowed_trade_volume s a \<and> trade_limits s' a = trade_limits s a"
proof (cases op)
  case (Op_trade x r n y q m)
  then show ?thesis using assms trade_volume_after [of C x r n y q m s s' a] by (auto simp: volume_after_def split: if_splits)
next
  case Call_set_trade_volume_limit
  then show ?thesis using assms by (auto simp: governance_defs res_iff)
next
  case Op_on_deposit
  then show ?thesis using assms on_deposit_views by (fastforce simp: trade_view_def)
next
  case Op_note_egress
  then show ?thesis using assms withdraw_trade_view(1) by (fastforce simp: trade_view_def)
next
  case Op_xcm_check
  then show ?thesis using assms withdraw_trade_view(2) by (fastforce simp: trade_view_def)
next
  case (Op_note_deposit n)
  then show ?thesis using assms withdraw_trade_view(3) [of C n s] by (auto simp: trade_view_def)
next
  case Op_add_liquidity
  then show ?thesis using assms liquidity_views(1) by (fastforce simp: trade_view_def)
next
  case Op_remove_liquidity
  then show ?thesis using assms liquidity_views(2) by (fastforce simp: trade_view_def)
qed (use assms in \<open>auto simp: governance_defs lockdown_defs res_iff Let_def split: option.splits lockdown_status.splits if_splits\<close>)

lemma block_volumes:
  assumes "cb_steps C s ops s'" "allowed_trade_volume s a = None" "a \<noteq> cb_hub_asset C" "\<forall>op\<in>set ops. \<not> sets_trade_limit a op"
  shows "trade_limits s' a = trade_limits s a"
    "allowed_trade_volume s' a = volume_spec (trade_volume_limit_per_asset C s a) a ops"
    "\<And>l. allowed_trade_volume s' a = Some l \<Longrightarrow> within_limit l"
proof -
  have "trade_limits s' a = trade_limits s a \<and> allowed_trade_volume s' a = volume_spec (trade_volume_limit_per_asset C s a) a ops \<and>
      (\<forall>l. allowed_trade_volume s' a = Some l \<longrightarrow> within_limit l)"
    using assms
  proof (induction rule: cb_steps.induct)
    case (start s)
    then show ?case by (simp add: volume_spec_def first_reserve_def)
  next
    case (exec s ops s' op s'')
    then have IH: "trade_limits s' a = trade_limits s a" "allowed_trade_volume s' a = volume_spec (trade_volume_limit_per_asset C s a) a ops"
      "\<And>l. allowed_trade_volume s' a = Some l \<Longrightarrow> within_limit l" and no_set: "\<not> sets_trade_limit a op" by auto
    from IH(1) have lim: "trade_volume_limit_per_asset C s' a = trade_volume_limit_per_asset C s a"
      by (simp add: trade_volume_limit_per_asset_def)
    show ?case
    proof (cases "trade_reserve a op")
      case None
      with not_trade_view [OF exec(2) None no_set exec(5)] IH show ?thesis
        by (simp add: volume_spec_snoc volume_after_def)
    next
      case (Some r0)
      then obtain x r n y q m where op: "op = Op_trade x r n y q m" and touched: "a = x \<or> a = y"
        by (cases op) (auto split: if_splits)
      have run: "ensure_pool_state_change_limit C x r n y q m s' = Inr s''" using exec(2) by (simp add: op)
      note tv = trade_volume_after [OF run exec(5)]
      have "within_limit l" if "allowed_trade_volume s'' a = Some l" for l using tv(3) [OF touched] that by auto
      then show ?thesis using tv(1,2) IH(1,2) lim by (simp add: op volume_spec_snoc)
    qed
  qed simp
  then show "trade_limits s' a = trade_limits s a"
    "allowed_trade_volume s' a = volume_spec (trade_volume_limit_per_asset C s a) a ops"
    "\<And>l. allowed_trade_volume s' a = Some l \<Longrightarrow> within_limit l" by blast+
qed

section \<open>The global withdraw limit\<close>

fun egressed :: "cb_op \<Rightarrow> balance" where
  "egressed (Op_note_egress n) = n"
| "egressed _ = 0"

fun deposited :: "cb_op \<Rightarrow> balance" where
  "deposited (Op_note_deposit n) = n"
| "deposited _ = 0"

fun resets_withdraw_limit :: "cb_op \<Rightarrow> bool" where
  "resets_withdraw_limit (Call_set_global_withdraw_limit_params orig p) = True"
| "resets_withdraw_limit (Call_reset_withdraw_lockdown orig) = True"
| "resets_withdraw_limit _ = False"

text \<open>
  The window the decay is computed over: \<open>Perbill::from_rational\<close> works on the window divided by a factor, which is one up to \<open>10 ^ 9\<close>
  milliseconds, and drops the remainder of the division.
\<close>

definition effective_window :: "moment \<Rightarrow> moment" where
  "effective_window W = W div perbill_reduction W * perbill_reduction W"

lemma effective_window_exact: "W \<le> perbill_one \<Longrightarrow> effective_window W = W"
  by (simp add: effective_window_def perbill_reduction_one)

lemma effective_window_le: "effective_window W \<le> W"
  by (simp add: effective_window_def)

text \<open>The handlers of the runtime reserve and release balances; they are not the clock.\<close>

locale cb_env =
  fixes C :: "'w circuit_breaker_config"
  assumes cb_arith_ok: "sp_arith (cb_arith C)"
    and on_limit_reached_clock:
      "timestamp C (on_limit_reached C a w) = timestamp C w" "block_number C (on_limit_reached C a w) = block_number C w"
    and on_lockdown_deposit_clock:
      "on_lockdown_deposit C x w = Inr w' \<Longrightarrow> timestamp C w' = timestamp C w \<and> block_number C w' = block_number C w"
    and on_deposit_release_clock:
      "on_deposit_release C y w = Inr w' \<Longrightarrow> timestamp C w' = timestamp C w \<and> block_number C w' = block_number C w"
begin

definition same_clock :: "'w circuit_breaker \<Rightarrow> 'w circuit_breaker \<Rightarrow> bool" where
  "same_clock s s' \<longleftrightarrow> timestamp C (cb_world s') = timestamp C (cb_world s) \<and> block_number C (cb_world s') = block_number C (cb_world s)"

lemma same_clock_refl [simp]: "same_clock s s"
  by (simp add: same_clock_def)

lemma same_clock_world: "cb_world s' = cb_world s \<Longrightarrow> same_clock s s'"
  by (simp add: same_clock_def)

lemma lockdown_clock:
  "do_lock_deposit C who a n s = Inr s1 \<Longrightarrow> same_clock s s1"
  "do_lockdown_asset C a u s = Inr s2 \<Longrightarrow> same_clock s s2"
  "do_reset_deposit_limits C a n s = Inr s3 \<Longrightarrow> same_clock s s3"
  "do_lift_lockdown C a n s = Inr s4 \<Longrightarrow> same_clock s s4"
  using on_lockdown_deposit_clock on_limit_reached_clock
  by (auto simp: lockdown_defs same_clock_def res_iff Let_def split: if_splits)

lemma lock_and_lockdown_clock:
  "do_lock_deposit C who a n s = Inr s1 \<Longrightarrow> do_lockdown_asset C a u s1 = Inr s2 \<Longrightarrow> same_clock s s2"
  using lockdown_clock(1,2) by (simp add: same_clock_def)

lemma on_deposit_clock: "on_deposit C a who n s = Inr s' \<Longrightarrow> same_clock s s'"
  by (auto simp: on_deposit_def process_deposit_action_def handle_limit_reset_def handle_lockdown_expired_def
      handle_within_period_def Let_def res_iff lockdown_clock lock_and_lockdown_clock
      split: option.splits deposit_action.splits if_splits)

lemma decay_world [simp]: "cb_world (try_to_decay_withdraw_limit_accumulator C s) = cb_world s"
  by (simp add: try_to_decay_withdraw_limit_accumulator_def Let_def case_prod_beta split: option.splits)

lemma withdraw_world:
  "note_egress C n s = Inr s1 \<Longrightarrow> cb_world s1 = cb_world s"
  "ensure_xcm_withdraw_can_proceed C n m s = Inr s2 \<Longrightarrow> cb_world s2 = cb_world s"
  "cb_world (note_deposit C n s) = cb_world s"
  by (auto simp: note_egress_def ensure_xcm_withdraw_can_proceed_def note_deposit_def res_iff Let_def case_prod_beta
      split: option.splits if_splits)

lemma cb_exec_clock:
  assumes "cb_exec C op s = Inr s'"
  shows "same_clock s s'"
proof (cases op)
  case Op_trade
  then show ?thesis using assms trade_withdraw_view same_clock_world by fastforce
next
  case Op_on_deposit
  then show ?thesis using assms on_deposit_clock by simp
next
  case Op_note_egress
  then show ?thesis using assms by (simp add: withdraw_world(1) same_clock_world)
next
  case Op_xcm_check
  then show ?thesis using assms by (simp add: withdraw_world(2) same_clock_world)
next
  case (Op_note_deposit n)
  then show ?thesis using assms withdraw_world(3) by (auto simp: same_clock_world)
next
  case Op_add_liquidity
  then show ?thesis using assms by (auto simp: same_clock_def dest: liquidity_views(1))
next
  case Op_remove_liquidity
  then show ?thesis using assms by (auto simp: same_clock_def dest: liquidity_views(2))
next
  case Call_lockdown_asset
  then show ?thesis using assms by (auto simp: lockdown_asset_def res_iff lockdown_clock)
next
  case Call_force_lift_lockdown
  then show ?thesis using assms by (auto simp: force_lift_lockdown_def res_iff lockdown_clock split: option.splits)
next
  case Call_release_deposit
  then show ?thesis using assms on_deposit_release_clock by (auto simp: release_deposit_def res_iff Let_def same_clock_def)
qed (use assms in \<open>auto simp: governance_defs res_iff Let_def same_clock_def\<close>)

text \<open>
  The accumulator as a potential: what was withdrawn since the start is still in it, was offset by deposits, or
  decayed; and the decay over a time \<open>t\<close> is at most the \<open>t / window\<close> part of the limit.
\<close>

definition wl_inv :: "balance \<Rightarrow> moment \<Rightarrow> moment \<Rightarrow> balance \<Rightarrow> balance \<Rightarrow> balance \<Rightarrow> 'w circuit_breaker \<Rightarrow> bool" where
  "wl_inv L W t0 c0 E D s \<longleftrightarrow> global_withdraw_limit_config s = Some \<lparr>wl_limit = L, wl_window = W\<rparr> \<and>
     fst (withdraw_limit_accumulator s) \<le> L \<and> t0 \<le> snd (withdraw_limit_accumulator s) \<and>
     snd (withdraw_limit_accumulator s) \<le> timestamp C (cb_world s) \<and>
     (c0 + E) * effective_window W \<le>
       (fst (withdraw_limit_accumulator s) + D) * effective_window W + L * (snd (withdraw_limit_accumulator s) - t0)"

lemma decay_le:
  assumes "0 < W" "W \<le> umax 64" "dt \<le> W" "c \<le> umax 128"
  shows "perbill_mul_floor (cb_arith C) (perbill_from_rational (cb_arith C) dt W) c * effective_window W \<le> c * dt"
proof -
  define k p where "k = perbill_reduction W" and "p = perbill_quot dt W"
  let ?V = "W div k" and ?d = "dt div k"
  have pV: "p * ?V \<le> ?d * perbill_one" by (simp add: p_def perbill_quot_def k_def)
  have "p \<le> perbill_one" unfolding p_def by (rule perbill_quot_le [OF assms(3)])
  then have q: "perbill_mul_floor (cb_arith C) (perbill_from_rational (cb_arith C) dt W) c = p * c div perbill_one"
    using assms by (simp add: sp_arith.perbill_from_rational [OF cb_arith_ok] sp_arith.perbill_mul_floor [OF cb_arith_ok] p_def)
  have "(p * c div perbill_one * ?V) * perbill_one \<le> (c * ?d) * perbill_one"
  proof -
    have "(p * c div perbill_one * perbill_one) * ?V \<le> (p * c) * ?V" by (rule mult_le_mono1 [OF div_mult_le])
    also have "\<dots> = (p * ?V) * c" by (simp add: ac_simps)
    also have "\<dots> \<le> (?d * perbill_one) * c" by (rule mult_le_mono1 [OF pV])
    finally show ?thesis by (simp only: ac_simps)
  qed
  then have "p * c div perbill_one * ?V \<le> c * ?d" by (simp add: perbill_one_def)
  then have "p * c div perbill_one * ?V * k \<le> c * ?d * k" by (rule mult_le_mono1)
  also have "\<dots> \<le> c * dt" using mult_le_mono2 [OF div_mult_le [of dt k], of c] by (simp add: mult.assoc)
  finally show ?thesis by (simp add: q effective_window_def k_def mult.assoc)
qed

lemma decay_inv:
  assumes inv: "wl_inv L W t0 c0 E D s" and W: "0 < W" "W \<le> umax 64" "L \<le> umax 128"
  shows "wl_inv L W t0 c0 E D (try_to_decay_withdraw_limit_accumulator C s)"
proof -
  obtain c u where acc: "withdraw_limit_accumulator s = (c, u)" by fastforce
  define now where "now = timestamp C (cb_world s)"
  define d where "d = perbill_mul_floor (cb_arith C) (perbill_from_rational (cb_arith C) (min (now - u) W) W) c"
  have facts: "c \<le> L" "t0 \<le> u" "u \<le> now" "(c0 + E) * effective_window W \<le> (c + D) * effective_window W + L * (u - t0)"
      "global_withdraw_limit_config s = Some \<lparr>wl_limit = L, wl_window = W\<rparr>"
    using inv by (simp_all add: wl_inv_def acc now_def)
  have "d * effective_window W \<le> c * min (now - u) W" unfolding d_def using W facts(1) by (intro decay_le) auto
  also have "\<dots> \<le> L * (now - u)" using facts(1) by (intro mult_le_mono) auto
  finally have "c * effective_window W \<le> (c - d) * effective_window W + L * (now - u)" by (simp add: diff_mult_distrib)
  moreover have "L * (u - t0) + L * (now - u) = L * (now - t0)" using facts(2,3) by (simp add: add_mult_distrib2 [symmetric])
  ultimately have step: "(c0 + E) * effective_window W \<le> (c - d + D) * effective_window W + L * (now - t0)" using facts(4) by (simp add: add_mult_distrib)
  have "try_to_decay_withdraw_limit_accumulator C s = s \<or>
      try_to_decay_withdraw_limit_accumulator C s = s\<lparr>withdraw_limit_accumulator := (c - d, now)\<rparr>"
    by (auto simp: try_to_decay_withdraw_limit_accumulator_def facts(5) Let_def acc timestamp_now_def now_def d_def saturating_sub_def)
  then show ?thesis using inv step facts by (auto simp: wl_inv_def now_def)
qed

lemma egress_inv:
  assumes inv: "wl_inv L W t0 c0 E D s" and W: "0 < W" "W \<le> umax 64" "L \<le> umax 128" and run: "note_egress C n s = Inr s'"
  shows "wl_inv L W t0 c0 (E + n) D s'"
proof -
  let ?s = "try_to_decay_withdraw_limit_accumulator C s"
  obtain c u where acc: "withdraw_limit_accumulator ?s = (c, u)" by fastforce
  have inv': "wl_inv L W t0 c0 E D ?s" by (rule decay_inv [OF inv W])
  have cfg: "global_withdraw_limit_config s = Some \<lparr>wl_limit = L, wl_window = W\<rparr>" using inv by (simp add: wl_inv_def)
  have s': "c + n < L" "s' = ?s\<lparr>withdraw_limit_accumulator := (c + n, timestamp C (cb_world s))\<rparr>"
    using run W(1) by (auto simp: note_egress_def cfg Let_def acc res_iff ck_iff timestamp_now_def split: if_splits)
  have "L * (u - t0) \<le> L * (timestamp C (cb_world s) - t0)"
    using inv' by (intro mult_le_mono2 diff_le_mono) (simp add: wl_inv_def acc)
  moreover have "(c0 + E) * effective_window W \<le> (c + D) * effective_window W + L * (u - t0)" using inv' by (simp add: wl_inv_def acc)
  ultimately have "(c0 + E) * effective_window W \<le> (c + D) * effective_window W + L * (timestamp C (cb_world s) - t0)" by linarith
  then have "(c0 + (E + n)) * effective_window W \<le> (c + n + D) * effective_window W + L * (timestamp C (cb_world s) - t0)" by (simp add: add_mult_distrib)
  then show ?thesis using inv' s' by (simp add: wl_inv_def acc)
qed

lemma deposit_inv:
  assumes inv: "wl_inv L W t0 c0 E D s" and W: "0 < W" "W \<le> umax 64" "L \<le> umax 128"
  shows "wl_inv L W t0 c0 E (D + n) (note_deposit C n s)"
proof (cases "is_lockdown_at (timestamp_now C s) s")
  case True
  then show ?thesis using inv by (simp add: note_deposit_def wl_inv_def add_mult_distrib)
next
  case False
  let ?s = "try_to_decay_withdraw_limit_accumulator C s"
  obtain c u where acc: "withdraw_limit_accumulator ?s = (c, u)" by fastforce
  have inv': "wl_inv L W t0 c0 E D ?s" by (rule decay_inv [OF inv W])
  have "L * (u - t0) \<le> L * (timestamp C (cb_world s) - t0)"
    using inv' by (intro mult_le_mono2 diff_le_mono) (simp add: wl_inv_def acc)
  moreover have "(c0 + E) * effective_window W \<le> (c + D) * effective_window W + L * (u - t0)" using inv' by (simp add: wl_inv_def acc)
  ultimately have "(c0 + E) * effective_window W \<le> (c + D) * effective_window W + L * (timestamp C (cb_world s) - t0)" by linarith
  moreover have "(c + D) * effective_window W \<le> (c - n + (D + n)) * effective_window W" by (rule mult_le_mono1) simp
  ultimately have "(c0 + E) * effective_window W \<le> (c - n + (D + n)) * effective_window W + L * (timestamp C (cb_world s) - t0)" by linarith
  then show ?thesis
    using inv' False by (auto simp: note_deposit_def Let_def acc wl_inv_def timestamp_now_def saturating_sub_def)
qed

lemma xcm_check_inv:
  assumes inv: "wl_inv L W t0 c0 E D s" and W: "0 < W" "W \<le> umax 64" "L \<le> umax 128"
    and run: "ensure_xcm_withdraw_can_proceed C n m s = Inr s'"
  shows "wl_inv L W t0 c0 E D s'"
proof -
  have "global_withdraw_limit_config s = Some \<lparr>wl_limit = L, wl_window = W\<rparr>" using inv by (simp add: wl_inv_def)
  then have "s' = try_to_decay_withdraw_limit_accumulator C s"
    using run by (auto simp: ensure_xcm_withdraw_can_proceed_def Let_def case_prod_beta res_iff split: if_splits)
  then show ?thesis using decay_inv [OF inv W] by simp
qed

lemma other_withdraw_view:
  assumes "cb_exec C op s = Inr s'" "\<not> resets_withdraw_limit op"
    "\<forall>n m. op \<noteq> Op_note_egress n \<and> op \<noteq> Op_note_deposit n \<and> op \<noteq> Op_xcm_check n m"
  shows "withdraw_view s' = withdraw_view s"
proof (cases op)
  case Op_trade
  then show ?thesis using assms by (auto dest: trade_withdraw_view)
next
  case Op_on_deposit
  then show ?thesis using assms by (auto dest: on_deposit_views)
next
  case Op_add_liquidity
  then show ?thesis using assms by (auto dest: liquidity_views(1))
next
  case Op_remove_liquidity
  then show ?thesis using assms by (auto dest: liquidity_views(2))
next
  case Call_lockdown_asset
  then show ?thesis using assms by (auto simp: lockdown_asset_def res_iff lockdown_views)
next
  case Call_force_lift_lockdown
  then show ?thesis using assms by (auto simp: force_lift_lockdown_def res_iff lockdown_views split: option.splits)
next
  case Call_release_deposit
  then show ?thesis using assms by (auto simp: release_deposit_def res_iff Let_def withdraw_view_def)
qed (use assms in \<open>auto simp: governance_defs res_iff Let_def withdraw_view_def\<close>)

lemma exec_wl_inv:
  assumes inv: "wl_inv L W t0 c0 E D s" and W: "0 < W" "W \<le> umax 64" "L \<le> umax 128"
    and run: "cb_exec C op s = Inr s'" and no_reset: "\<not> resets_withdraw_limit op"
  shows "wl_inv L W t0 c0 (E + egressed op) (D + deposited op) s'"
proof (cases "\<exists>n m. op = Op_note_egress n \<or> op = Op_note_deposit n \<or> op = Op_xcm_check n m")
  case True
  then show ?thesis using egress_inv [OF inv W] deposit_inv [OF inv W] xcm_check_inv [OF inv W] run by auto
next
  case False
  then have "egressed op = 0" "deposited op = 0" by (cases op; auto)+
  moreover have "withdraw_view s' = withdraw_view s" using other_withdraw_view [OF run no_reset] False by blast
  ultimately show ?thesis using inv cb_exec_clock [OF run] by (simp add: wl_inv_def withdraw_view_def same_clock_def)
qed

lemma hook_views:
  "withdraw_view (cb_on_initialize C s) = withdraw_view s" "cb_world (cb_on_initialize C s) = cb_world s"
  "withdraw_view (cb_on_finalize s) = withdraw_view s" "cb_world (cb_on_finalize s) = cb_world s"
  by (auto simp: cb_on_initialize_def cb_on_finalize_def withdraw_view_def cb_emit_def split: option.splits)

lemma hook_wl_inv:
  "wl_inv L W t0 c0 E D s \<Longrightarrow> wl_inv L W t0 c0 E D (cb_on_initialize C s)" "wl_inv L W t0 c0 E D s \<Longrightarrow> wl_inv L W t0 c0 E D (cb_on_finalize s)"
  using hook_views by (simp_all add: wl_inv_def withdraw_view_def)

lemma steps_wl_inv:
  assumes "cb_blocks C s ops s'" "wl_inv L W t0 c0 0 0 s" "0 < W" "W \<le> umax 64" "L \<le> umax 128"
    "\<forall>op\<in>set ops. \<not> resets_withdraw_limit op"
  shows "wl_inv L W t0 c0 (sum_list (map egressed ops)) (sum_list (map deposited ops)) s'"
  using assms
proof (induction rule: cb_blocks.induct)
  case (exec s ops s' op s'')
  then have "wl_inv L W t0 c0 (sum_list (map egressed ops)) (sum_list (map deposited ops)) s'" "\<not> resets_withdraw_limit op" by auto
  from exec_wl_inv [OF this(1) exec(5-7,2) this(2)] show ?case by simp
next
  case (world_moves s ops s' w)
  then show ?case by (auto simp: wl_inv_def)
qed (simp_all add: hook_wl_inv)

end

section \<open>The issuance fuse\<close>

text \<open>
  \<open>locked w a\<close> is the total of asset \<open>a\<close> ever handed to \<open>OnLockdownDeposit\<close>; locking a deposit and the
  notification of a reached limit leave the issuance alone.
\<close>

locale fuse_env = cb_env C for C :: "'w circuit_breaker_config" +
  fixes locked :: "'w \<Rightarrow> asset_id \<Rightarrow> balance"
  assumes lock_locked: "on_lockdown_deposit C (a, who, n) w = Inr w' \<Longrightarrow> locked w' b = locked w b + (if b = a then n else 0)"
    and lock_issuance: "on_lockdown_deposit C (a, who, n) w = Inr w' \<Longrightarrow> issuance C w' b = issuance C w b"
    and limit_reached_same: "locked (on_limit_reached C a w) b = locked w b" "issuance C (on_limit_reached C a w) b = issuance C w b"
    and issuance_u128: "issuance C w b \<le> umax 128"

text \<open>
  The life of one asset whose deposit limit may change but stays at most \<open>L\<close>: deposits mint it and run the fuse; everything else leaves its
  lockdown state alone, locks nothing and does not raise the issuance. The calls of the authority that lock the asset down or lift its lockdown
  are not part of it.
\<close>

inductive fuse_run :: "'w circuit_breaker_config \<Rightarrow> ('w \<Rightarrow> asset_id \<Rightarrow> balance) \<Rightarrow> asset_id \<Rightarrow> balance \<Rightarrow>
    'w circuit_breaker \<Rightarrow> 'w circuit_breaker \<Rightarrow> bool" for C locked a L where
  start: "fuse_run C locked a L s s"
| mint: "fuse_run C locked a L s s' \<Longrightarrow> issuance C w a = issuance C (cb_world s') a + n \<Longrightarrow>
    locked w a = locked (cb_world s') a \<Longrightarrow> block_number C w = block_number C (cb_world s') \<Longrightarrow>
    deposit_limit C w a = Some l \<Longrightarrow> l \<le> L \<Longrightarrow>
    on_deposit C a who n (s'\<lparr>cb_world := w\<rparr>) = Inr s'' \<Longrightarrow> fuse_run C locked a L s s''"
| other: "fuse_run C locked a L s s' \<Longrightarrow> asset_lockdown_state s'' a = asset_lockdown_state s' a \<Longrightarrow>
    issuance C (cb_world s'') a \<le> issuance C (cb_world s') a \<Longrightarrow> locked (cb_world s'') a = locked (cb_world s') a \<Longrightarrow>
    block_number C (cb_world s') \<le> block_number C (cb_world s'') \<Longrightarrow> fuse_run C locked a L s s''"

lemma block_after_mono: "b \<le> c \<Longrightarrow> block_after b p \<le> block_after c p"
  by (simp add: block_after_def saturating_add_def min_le_iff_disj)

context fuse_env
begin

definition fuse_inv :: "asset_id \<Rightarrow> block_number \<Rightarrow> balance \<Rightarrow> balance \<Rightarrow> balance \<Rightarrow> 'w circuit_breaker \<Rightarrow> bool" where
  "fuse_inv a t b L k s \<longleftrightarrow> t \<le> block_number C (cb_world s) \<and> issuance C (cb_world s) a + k \<le> b + L + locked (cb_world s) a \<and>
     (asset_lockdown_state s a = Some (Unlocked t b) \<and> issuance C (cb_world s) a \<le> b + L \<and> k \<le> locked (cb_world s) a \<or>
      (\<exists>u. asset_lockdown_state s a = Some (Locked u) \<and> block_after t (deposit_period C) \<le> u))"

lemma do_lock_deposit_fuse:
  assumes "do_lock_deposit C who a n s = Inr s'"
  shows "asset_lockdown_state s' = asset_lockdown_state s" "issuance C (cb_world s') b = issuance C (cb_world s) b"
    "locked (cb_world s') b = locked (cb_world s) b + (if b = a then n else 0)"
    "block_number C (cb_world s') = block_number C (cb_world s)"
  using assms lock_locked lock_issuance on_lockdown_deposit_clock by (auto simp: do_lock_deposit_def res_iff split: if_splits)

lemma do_lockdown_asset_fuse:
  assumes "do_lockdown_asset C a u s = Inr s'"
  shows "asset_lockdown_state s' a = Some (Locked u)" "issuance C (cb_world s') b = issuance C (cb_world s) b"
    "locked (cb_world s') b = locked (cb_world s) b" "block_number C (cb_world s') = block_number C (cb_world s)"
  using assms limit_reached_same on_limit_reached_clock by (auto simp: do_lockdown_asset_def Let_def)

lemma deposit_fuse_inv:
  assumes limit: "deposit_limit C w a = Some l" "l \<le> L" and period: "deposit_period C \<noteq> 0"
    and inv: "fuse_inv a t b L k s" and within: "block_number C (cb_world s) < block_after t (deposit_period C)"
    and w: "issuance C w a = issuance C (cb_world s) a + n" "locked w a = locked (cb_world s) a"
      "block_number C w = block_number C (cb_world s)"
    and run: "on_deposit C a who n (s\<lparr>cb_world := w\<rparr>) = Inr s'"
  shows "fuse_inv a t b L k s'"
proof -
  let ?i = "issuance C (cb_world s) a" and ?s = "s\<lparr>cb_world := w\<rparr>"
  consider (unlocked) "asset_lockdown_state s a = Some (Unlocked t b)" "?i \<le> b + L" "k \<le> locked (cb_world s) a"
    | (locked) u where "asset_lockdown_state s a = Some (Locked u)" "block_after t (deposit_period C) \<le> u"
    using inv by (auto simp: fuse_inv_def)
  then show ?thesis
  proof cases
    case locked
    then have "do_lock_deposit C who a n ?s = Inr s'"
      using run limit period within w(3) by (simp add: on_deposit_def fuse_context_def classify_state_def process_deposit_action_def)
    from do_lock_deposit_fuse [OF this] locked w inv show ?thesis by (auto simp: fuse_inv_def)
  next
    case unlocked
    define u where "u = block_after (block_number C w) (deposit_period C)"
    have t_le: "t \<le> block_number C w" using inv w(3) by (simp add: fuse_inv_def)
    have act: "(if l < ?i + n - b then tryR (do_lock_deposit C who a (?i + n - saturating_add 128 b l) ?s) (do_lockdown_asset C a u)
        else Inr ?s) = Inr s'"
      using run limit period within w unlocked(1)
      by (simp add: on_deposit_def fuse_context_def classify_state_def process_deposit_action_def handle_within_period_def
          saturating_sub_def u_def Let_def split: if_split_asm)
    show ?thesis
    proof (cases "l < ?i + n - b")
      case False
      then show ?thesis using act unlocked w inv limit(2) by (auto simp: fuse_inv_def)
    next
      case True
      have "?i + n \<le> umax 128" using issuance_u128 [of w a] w(1) by simp
      with True have lock: "?i + n - saturating_add 128 b l = ?i + n - (b + l)" by (simp add: saturating_add_def)
      from act True obtain s1 where s1: "do_lock_deposit C who a (?i + n - (b + l)) ?s = Inr s1" "do_lockdown_asset C a u s1 = Inr s'"
        by (auto simp: res_iff lock)
      note f1 = do_lock_deposit_fuse [OF s1(1)] and f2 = do_lockdown_asset_fuse [OF s1(2)]
      have "block_after t (deposit_period C) \<le> u" unfolding u_def by (rule block_after_mono [OF t_le])
      then show ?thesis using f1 f2 w unlocked True t_le limit(2) by (simp add: fuse_inv_def)
    qed
  qed
qed

lemma fuse_run_inv:
  assumes "fuse_run C locked a L s s'" "deposit_period C \<noteq> 0" "fuse_inv a t b L k s"
    "block_number C (cb_world s') < block_after t (deposit_period C)"
  shows "fuse_inv a t b L k s'"
  using assms
proof (induction rule: fuse_run.induct)
  case (mint s s' w n l who s'')
  have "same_clock (s'\<lparr>cb_world := w\<rparr>) s''" by (rule on_deposit_clock [OF mint(7)])
  then have within: "block_number C (cb_world s') < block_after t (deposit_period C)" using mint(4,11) by (simp add: same_clock_def)
  have inv: "fuse_inv a t b L k s'" by (rule mint(8) [OF mint(9,10) within])
  show ?case by (rule deposit_fuse_inv [OF mint(5,6,9) inv within mint(2-4,7)])
next
  case (other s s' s'')
  then have "fuse_inv a t b L k s'" by (meson order_le_less_trans)
  then show ?case using other(2-5) by (auto simp: fuse_inv_def)
qed simp

end

section \<open>A runtime\<close>

record cb_std_world =
  cw_issuance :: "asset_id \<Rightarrow> balance"
  cw_locked :: "asset_id \<Rightarrow> balance"
  cw_time :: moment
  cw_block :: block_number

definition std_cb_config :: "cb_std_world circuit_breaker_config" where
  "std_cb_config = \<lparr>cb_arith = std_arith, cb_authority = (\<lambda>orig. orig = Root), whitelisted_accounts = (\<lambda>x. False),
     deposit_lock_whitelist = (\<lambda>x. False), default_trade_volume_limit = (5000, 10000),
     default_add_liquidity_limit = Some (500, 10000), default_remove_liquidity_limit = Some (500, 10000),
     cb_hub_asset = 9, deposit_period = 10, deposit_limit = (\<lambda>w a. Some 1000),
     issuance = (\<lambda>w a. min (umax 128) (cw_issuance w a)), on_limit_reached = (\<lambda>a w. w),
     on_lockdown_deposit = (\<lambda>(a, who, n) w. Inr (w\<lparr>cw_locked := (cw_locked w)(a := cw_locked w a + n)\<rparr>)),
     on_deposit_release = (\<lambda>x w. Inr w), timestamp = cw_time, block_number = cw_block\<rparr>"

interpretation std_cb: cb_env std_cb_config
proof (rule cb_env.intro)
  show "sp_arith (cb_arith std_cb_config)" using std.sp_arith_axioms by (simp add: std_cb_config_def)
qed (auto simp: std_cb_config_def)

interpretation std_fuse: fuse_env std_cb_config cw_locked
  by unfold_locales (auto simp: std_cb_config_def)

definition sample_cb :: "cb_std_world circuit_breaker" where
  "sample_cb = \<lparr>trade_limits = Map.empty, allowed_trade_volume = Map.empty, add_limits = Map.empty,
     allowed_add_liquidity = Map.empty, asset_lockdown_state = [2 \<mapsto> Unlocked 100 50000], remove_limits = Map.empty,
     allowed_remove_liquidity = Map.empty, global_withdraw_limit_config = Some \<lparr>wl_limit = 10000, wl_window = 86400\<rparr>,
     withdraw_limit_accumulator = (4000, 1000), withdraw_lockdown_until = None, egress_accounts = Map.empty,
     ignore_withdraw_limit = False, global_asset_overrides = Map.empty, xcm_egress_buffer = None, cb_events = [],
     cb_world = \<lparr>cw_issuance = (\<lambda>a. 50600), cw_locked = (\<lambda>a. 0), cw_time = 1000, cw_block = 102\<rparr>\<rparr>"

lemma steps_one: "cb_exec C op s = Inr s' \<Longrightarrow> cb_steps C s [op] s'"
  using cb_steps.exec [OF cb_steps.start] by fastforce

section \<open>Properties\<close>

text \<open>
  (C16) The trade limits of a block are exact: starting from the end of a block, after any list of accepted
  operations the stored volumes of an asset are the sums of what the accepted trades of the list brought in and took out,
  its limit is the configured fraction of the reserve it was first traded at, and the net volume in
  either direction is within that limit.
\<close>

theorem block_trades_within_limit:
  assumes "cb_steps C (cb_on_finalize s) ops s'" "a \<noteq> cb_hub_asset C" "\<forall>op\<in>set ops. \<not> sets_trade_limit a op"
  shows "allowed_trade_volume s' a = volume_spec (trade_volume_limit_per_asset C s a) a ops \<and>
     (\<forall>l. allowed_trade_volume s' a = Some l \<longrightarrow>
        volume_in l \<le> volume_out l + tv_limit l \<and> volume_out l \<le> volume_in l + tv_limit l)"
proof -
  have "allowed_trade_volume (cb_on_finalize s) a = None" by (simp add: cb_on_finalize_def)
  note bv = block_volumes [OF assms(1) this assms(2,3)]
  have "trade_volume_limit_per_asset C (cb_on_finalize s) a = trade_volume_limit_per_asset C s a"
    by (simp add: trade_volume_limit_per_asset_def cb_on_finalize_def)
  then show ?thesis using bv(2,3) by (simp add: within_limit_def)
qed

lemma sample_trade:
  "\<exists>s'. cb_steps std_cb_config (cb_on_finalize sample_cb) [Op_trade 2 8000 1500 3 9000 1600] s'"
proof -
  have "\<exists>s'. cb_exec std_cb_config (Op_trade 2 8000 1500 3 9000 1600) (cb_on_finalize sample_cb) = Inr s'"
    by (simp add: trade_defs std_cb_config_def sample_cb_def cb_on_finalize_def calculate_limit_def ck_eval
        trade_volume_limit_per_asset_def update_amounts_def check_limits_def check_outflow_limit_def check_influx_limit_def)
  then show ?thesis using steps_one by blast
qed

theorem block_trades_within_limit_witness:
  "\<exists>s'. cb_steps std_cb_config (cb_on_finalize sample_cb) [Op_trade 2 8000 1500 3 9000 1600] s' \<and>
     allowed_trade_volume s' 2 = Some \<lparr>volume_in = 1500, volume_out = 0, tv_limit = 4000\<rparr>"
proof -
  obtain s' where s': "cb_steps std_cb_config (cb_on_finalize sample_cb) [Op_trade 2 8000 1500 3 9000 1600] s'"
    using sample_trade by blast
  from block_trades_within_limit [OF s', of 2]
  have "allowed_trade_volume s' 2 = Some \<lparr>volume_in = 1500, volume_out = 0, tv_limit = 4000\<rparr>"
    by (simp add: volume_spec_def first_reserve_def trade_volume_limit_per_asset_def std_cb_config_def sample_cb_def)
  with s' show ?thesis by blast
qed

text \<open>
  (C17) The global limit bounds withdrawals over any stretch of time: with limit \<open>L\<close> and window \<open>W\<close>, what is
  withdrawn between two states is at most the limit, plus what was deposited, plus the part of the
  limit that the elapsed time is of the window. This holds for every interleaving of withdrawals, deposits,
  checks, lockdowns, beginnings and ends of blocks and other operations that does not reconfigure or reset the limit, from an accumulator
  within the limit. Windows up to \<open>10 ^ 9\<close> milliseconds count exactly; for a longer one \<open>Perbill::from_rational\<close> rounds the window down to a
  multiple of a factor.
\<close>

theorem withdrawals_bounded_over_time:
  assumes "cb_env C" "cb_blocks C s ops s'" "\<forall>op\<in>set ops. \<not> resets_withdraw_limit op"
    and "global_withdraw_limit_config s = Some \<lparr>wl_limit = L, wl_window = W\<rparr>" "0 < W" "W \<le> umax 64" "L \<le> umax 128"
    and "withdraw_limit_accumulator s = (c, t)" "c \<le> L" "t \<le> timestamp C (cb_world s)"
    and V: "V = (if W \<le> perbill_one then W else W div perbill_reduction W * perbill_reduction W)"
  shows "(c + sum_list (map egressed ops)) * V \<le>
    (L + sum_list (map deposited ops)) * V + L * (timestamp C (cb_world s') - t)"
proof -
  let ?E = "sum_list (map egressed ops)" and ?D = "sum_list (map deposited ops)"
  have V: "V = effective_window W" using V effective_window_exact by (simp add: effective_window_def)
  have "cb_env.wl_inv C L W t c 0 0 s" using assms(4,8-10) by (simp add: cb_env.wl_inv_def [OF assms(1)])
  from cb_env.steps_wl_inv [OF assms(1,2) this assms(5-7,3)] obtain c' t' where
      f: "c' \<le> L" "t' \<le> timestamp C (cb_world s')" "(c + ?E) * V \<le> (c' + ?D) * V + L * (t' - t)"
    unfolding cb_env.wl_inv_def [OF assms(1)] V by blast
  have "(c' + ?D) * V \<le> (L + ?D) * V" using f(1) by simp
  moreover have "L * (t' - t) \<le> L * (timestamp C (cb_world s') - t)" using f(2) by (intro mult_le_mono2 diff_le_mono)
  ultimately show ?thesis using f(3) by linarith
qed

lemma sample_egress: "\<exists>s'. cb_exec std_cb_config (Op_note_egress 5000) sample_cb = Inr s' \<and> cw_time (cb_world s') = 1000"
  by (simp add: withdraw_defs std_cb_config_def sample_cb_def timestamp_now_def is_lockdown_at_def ck_eval)

theorem withdrawals_bounded_over_time_witness:
  "\<exists>s'. cb_steps std_cb_config sample_cb [Op_note_egress 5000] s' \<and>
     (4000 + sum_list (map egressed [Op_note_egress 5000])) * 86400 \<le> 10000 * 86400 + 10000 * (cw_time (cb_world s') - 1000)"
proof -
  obtain s' where run: "cb_exec std_cb_config (Op_note_egress 5000) sample_cb = Inr s'" "cw_time (cb_world s') = 1000"
    using sample_egress by blast
  from steps_one [OF run(1)] have steps: "cb_steps std_cb_config sample_cb [Op_note_egress 5000] s'" .
  have "(4000 + sum_list (map egressed [Op_note_egress 5000])) * 86400 \<le>
      (10000 + sum_list (map deposited [Op_note_egress 5000])) * 86400 + 10000 * (timestamp std_cb_config (cb_world s') - 1000)"
    by (rule withdrawals_bounded_over_time [OF std_cb.cb_env_axioms cb_steps_blocks [OF steps], where W = 86400 and V = 86400])
      (simp_all add: sample_cb_def umax_def std_cb_config_def perbill_one_def)
  then show ?thesis using steps by (intro exI [of _ s']) (simp add: std_cb_config_def)
qed

text \<open>
  (C25) The issuance fuse holds for a whole period: from the baseline of a period on, the issuance of an asset,
  less what was locked of it, exceeds the baseline by at most the largest deposit limit in force until the period ends. This
  holds however deposits, burns, changes of the limit and other activity interleave, and also after a deposit put the asset into lockdown; the
  authority does not lock the asset down or lift its lockdown meanwhile.
\<close>

theorem issuance_fuse_holds:
  assumes "fuse_env C locked" "fuse_run C locked a L s s'" "deposit_period C \<noteq> 0"
    and "asset_lockdown_state s a = Some (Unlocked t b)" "t \<le> block_number C (cb_world s)"
    and "issuance C (cb_world s) a \<le> b + L" "block_number C (cb_world s') < block_after t (deposit_period C)"
  shows "issuance C (cb_world s') a - (locked (cb_world s') a - locked (cb_world s) a) \<le> b + L"
proof -
  have "fuse_env.fuse_inv C locked a t b L (locked (cb_world s) a) s"
    using assms(4-6) by (simp add: fuse_env.fuse_inv_def [OF assms(1)])
  from fuse_env.fuse_run_inv [OF assms(1-3) this assms(7)]
  have "issuance C (cb_world s') a + locked (cb_world s) a \<le> b + L + locked (cb_world s') a"
    by (simp add: fuse_env.fuse_inv_def [OF assms(1)])
  then show ?thesis by linarith
qed

lemma sample_mint:
  "\<exists>s'. on_deposit std_cb_config 2 7 900 (sample_cb\<lparr>cb_world := (cb_world sample_cb)\<lparr>cw_issuance := (\<lambda>a. 51500)\<rparr>\<rparr>) = Inr s' \<and>
     cw_locked (cb_world s') 2 = 500 \<and> cw_issuance (cb_world s') 2 = 51500 \<and> cw_block (cb_world s') = 102"
  by (simp add: on_deposit_def fuse_context_def classify_state_def process_deposit_action_def handle_within_period_def
      do_lock_deposit_def do_lockdown_asset_def std_cb_config_def sample_cb_def ck_eval block_after_def cb_emit_def)

theorem issuance_fuse_holds_witness:
  "\<exists>s'. fuse_run std_cb_config cw_locked 2 1000 sample_cb s' \<and> cw_locked (cb_world s') 2 = 500 \<and>
     issuance std_cb_config (cb_world s') 2 - (cw_locked (cb_world s') 2 - cw_locked (cb_world sample_cb) 2) \<le> 50000 + 1000"
proof -
  obtain s' where run: "on_deposit std_cb_config 2 7 900 (sample_cb\<lparr>cb_world := (cb_world sample_cb)\<lparr>cw_issuance := (\<lambda>a. 51500)\<rparr>\<rparr>) = Inr s'"
      and s': "cw_locked (cb_world s') 2 = 500" "cw_block (cb_world s') = 102"
    using sample_mint by blast
  have "fuse_run std_cb_config cw_locked 2 1000 sample_cb s'"
    by (rule fuse_run.mint [OF fuse_run.start _ _ _ _ _ run, where l = 1000]) (simp_all add: std_cb_config_def sample_cb_def umax_def)
  moreover have "issuance std_cb_config (cb_world s') 2 - (cw_locked (cb_world s') 2 - cw_locked (cb_world sample_cb) 2) \<le> 50000 + 1000"
    by (rule issuance_fuse_holds [OF std_fuse.fuse_env_axioms calculation, where t = 100])
      (simp_all add: std_cb_config_def sample_cb_def umax_def block_after_def saturating_add_def s')
  ultimately show ?thesis using s' by blast
qed

end
