(* ===== verification/Rational_Math.thy ===== *)
theory Rational_Math
  imports Math_Lib
begin

text \<open>
  Rationals of two \<open>u128\<close> (\<open>math/src/support/rational.rs\<close> and \<open>math/src/ratio.rs\<close>): rounding a
  quotient of wide integers to one of \<open>u128\<close>, and the \<open>Ratio\<close> type with its arithmetic. A
  product of two \<open>u128\<close> is exact in a \<open>U256\<close>; the overflow of the plain \<open>+\<close> and the underflow of the
  plain \<open>-\<close> panic, which is \<open>None\<close>. The lemmas say when an operation is exact and in which
  direction it rounds otherwise.
\<close>

section \<open>Rounding\<close>

datatype rat_rounding = Rat_Nearest | Rat_Down | Rat_Up

fun to_bias :: "rat_rounding \<Rightarrow> nat \<Rightarrow> nat \<times> nat" where
  "to_bias Rat_Nearest magnitude = (0, 0)"
| "to_bias Rat_Down magnitude = (0, magnitude)"
| "to_bias Rat_Up magnitude = (magnitude, 0)"

text \<open>\<open>bits\<close> is the position of the highest bit that is set.\<close>

fun bits :: "nat \<Rightarrow> nat" where
  "bits n = (if n = 0 then 0 else bits (n div 2) + 1)"

declare bits.simps [simp del]

definition low_u128 :: "nat \<Rightarrow> nat" where
  "low_u128 n = n mod 2 ^ 128"

definition round_to_rational :: "nat \<times> nat \<Rightarrow> rat_rounding \<Rightarrow> nat \<times> nat" where
  "round_to_rational q rounding =
     (let (n, d) = q;
          shift = saturating_sub (max (bits n) (bits d)) 128
      in if 0 < shift
         then let min_n = (if n = 0 then 0 else 1);
                  (bias_n, bias_d) = to_bias rounding 1;
                  shifted_n = low_u128 (n div 2 ^ shift);
                  shifted_d = low_u128 (d div 2 ^ shift)
              in (max (saturating_add 128 shifted_n bias_n) min_n, max (saturating_add 128 shifted_d bias_d) 1)
         else (low_u128 n, low_u128 d))"

definition round_u512_to_rational :: "nat \<times> nat \<Rightarrow> rat_rounding \<Rightarrow> nat \<times> nat" where
  "round_u512_to_rational q rounding =
     (let (n, d) = q;
          shift = saturating_sub (max (bits n) (bits d)) 128
      in if 0 < shift
         then let min_n = (if n = 0 then 0 else 1);
                  (bias_n, bias_d) = to_bias rounding 1;
                  shifted_n = low_u128 (n div 2 ^ shift);
                  shifted_d = low_u128 (d div 2 ^ shift)
              in (max (saturating_add 128 shifted_n bias_n) min_n, max (saturating_add 128 shifted_d bias_d) 1)
         else (low_u128 n, low_u128 d))"

section \<open>Ratios\<close>

record ratio =
  ratio_n :: nat
  ratio_d :: nat

definition ratio_new :: "nat \<Rightarrow> nat \<Rightarrow> ratio" where
  "ratio_new n d = (let d = (if 0 < d then d else 1) in \<lparr>ratio_n = n, ratio_d = d\<rparr>)"

definition ratio_one :: ratio where
  "ratio_one = \<lparr>ratio_n = 1, ratio_d = 1\<rparr>"

definition ratio_zero :: ratio where
  "ratio_zero = \<lparr>ratio_n = 0, ratio_d = 1\<rparr>"

definition ratio_is_one :: "ratio \<Rightarrow> bool" where
  "ratio_is_one r \<longleftrightarrow> 0 < ratio_d r \<and> ratio_n r = ratio_d r"

definition ratio_is_zero :: "ratio \<Rightarrow> bool" where
  "ratio_is_zero r \<longleftrightarrow> ratio_n r = 0"

definition ratio_inverted :: "ratio \<Rightarrow> ratio" where
  "ratio_inverted r = (if ratio_is_zero r then r else \<lparr>ratio_n = ratio_d r, ratio_d = ratio_n r\<rparr>)"

definition ratio_pair :: "ratio \<Rightarrow> nat \<times> nat" where
  "ratio_pair r = (ratio_n r, ratio_d r)"

definition ratio_of_pair :: "nat \<times> nat \<Rightarrow> ratio" where
  "ratio_of_pair p = ratio_new (fst p) (snd p)"

definition ratio_of_nat :: "nat \<Rightarrow> ratio" where
  "ratio_of_nat n = ratio_new n 1"

definition ratio_of_permill :: "nat \<Rightarrow> ratio" where
  "ratio_of_permill p = ratio_of_pair (p, permill_one)"

text \<open>The order compares cross products; \<open>True\<close> is \<open>Ordering::Less\<close>.\<close>

definition ratio_less :: "ratio \<Rightarrow> ratio \<Rightarrow> bool" where
  "ratio_less l r =
     (if ratio_d l = ratio_d r then ratio_n l < ratio_n r
      else if ratio_d l = 0 then False
      else if ratio_d r = 0 then True
      else ratio_n l * ratio_d r < ratio_n r * ratio_d l)"

definition ratio_add :: "ratio \<Rightarrow> ratio \<Rightarrow> ratio option" where
  "ratio_add l r =
     (if ratio_n l = 0 then Some r
      else if ratio_n r = 0 then Some l
      else do {
        n \<leftarrow> checked_add 256 (ratio_n l * ratio_d r) (ratio_n r * ratio_d l);
        Some (ratio_of_pair (round_to_rational (n, ratio_d l * ratio_d r) Rat_Nearest))
      })"

definition ratio_saturating_add :: "ratio \<Rightarrow> ratio \<Rightarrow> ratio" where
  "ratio_saturating_add l r =
     (if ratio_n l = 0 then r
      else if ratio_n r = 0 then l
      else
        let n = saturating_add 256 (ratio_n l * ratio_d r) (ratio_n r * ratio_d l)
        in ratio_of_pair (round_to_rational (n, ratio_d l * ratio_d r) Rat_Down))"

definition ratio_sub :: "ratio \<Rightarrow> ratio \<Rightarrow> ratio option" where
  "ratio_sub l r =
     (if ratio_n l = 0 \<or> ratio_n r = 0 then Some (ratio_of_pair (ratio_n l, ratio_d l))
      else do {
        n \<leftarrow> checked_sub (ratio_n l * ratio_d r) (ratio_n r * ratio_d l);
        Some (ratio_of_pair (round_to_rational (n, ratio_d l * ratio_d r) Rat_Nearest))
      })"

definition ratio_saturating_sub :: "ratio \<Rightarrow> ratio \<Rightarrow> ratio" where
  "ratio_saturating_sub l r =
     (if ratio_n l = 0 \<or> ratio_n r = 0 then ratio_of_pair (ratio_n l, ratio_d l)
      else
        let n = saturating_sub (ratio_n l * ratio_d r) (ratio_n r * ratio_d l)
        in ratio_of_pair (round_to_rational (n, ratio_d l * ratio_d r) Rat_Nearest))"

definition ratio_mul :: "ratio \<Rightarrow> ratio \<Rightarrow> ratio" where
  "ratio_mul l r =
     (if ratio_is_zero l \<or> ratio_is_zero r then ratio_zero
      else ratio_of_pair (round_to_rational (ratio_n l * ratio_n r, ratio_d l * ratio_d r) Rat_Nearest))"

definition ratio_saturating_mul :: "ratio \<Rightarrow> ratio \<Rightarrow> ratio" where
  "ratio_saturating_mul l r = ratio_mul l r"

definition ratio_saturating_div :: "ratio \<Rightarrow> ratio \<Rightarrow> ratio" where
  "ratio_saturating_div l r =
     (if ratio_is_zero r then ratio_zero
      else ratio_of_pair (round_to_rational (ratio_n l * ratio_d r, ratio_d l * ratio_n r) Rat_Nearest))"

section \<open>When rounding is exact, and its direction\<close>

lemma bits_bounds: "n < 2 ^ bits n" "0 < n \<Longrightarrow> 2 ^ (bits n - 1) \<le> n"
proof -
  have "n < 2 ^ bits n \<and> (0 < n \<longrightarrow> 2 ^ (bits n - 1) \<le> n)"
  proof (induction n rule: bits.induct)
    case (1 n)
    show ?case
    proof (cases "n = 0")
      case False
      then have IH: "n div 2 < 2 ^ bits (n div 2)" "0 < n div 2 \<longrightarrow> 2 ^ (bits (n div 2) - 1) \<le> n div 2" using 1 by auto
      have b: "bits n = bits (n div 2) + 1" using False by (subst bits.simps) simp
      have "n < 2 ^ bits n" using IH(1) unfolding b by simp
      moreover have "2 ^ (bits n - 1) \<le> n"
      proof (cases "n div 2 = 0")
        case True
        then show ?thesis using False by (simp add: b True bits.simps)
      next
        case half: False
        then have "bits (n div 2) = Suc (bits (n div 2) - 1)" by (simp add: bits.simps [of "n div 2"])
        then have "(2 :: nat) ^ bits (n div 2) = 2 * 2 ^ (bits (n div 2) - 1)" by (metis power_Suc)
        also have "\<dots> \<le> 2 * (n div 2)" using IH(2) half by simp
        finally show ?thesis by (simp add: b)
      qed
      ultimately show ?thesis by simp
    qed (simp add: bits.simps)
  qed
  then show "n < 2 ^ bits n" "0 < n \<Longrightarrow> 2 ^ (bits n - 1) \<le> n" by auto
qed

lemma bits_le_iff: "bits n \<le> k \<longleftrightarrow> n < 2 ^ k"
proof
  assume "bits n \<le> k"
  then have "(2 :: nat) ^ bits n \<le> 2 ^ k" by (intro power_increasing) auto
  then show "n < 2 ^ k" using bits_bounds(1) [of n] by (rule order_less_le_trans [rotated])
next
  assume "n < 2 ^ k"
  show "bits n \<le> k"
  proof (rule ccontr)
    assume "\<not> bits n \<le> k"
    then have "(2 :: nat) ^ k \<le> 2 ^ (bits n - 1)" and "0 < n" by (auto intro: power_increasing simp: bits.simps [of n] split: if_splits)
    then have "(2 :: nat) ^ k \<le> n" using bits_bounds(2) [of n] by (meson order_trans)
    then show False using \<open>n < 2 ^ k\<close> by simp
  qed
qed

lemma round_exact:
  assumes "n \<le> umax 128" "d \<le> umax 128"
  shows "round_to_rational (n, d) r = (n, d)"
proof -
  have "bits n \<le> 128" "bits d \<le> 128" using assms by (simp_all add: bits_le_iff le_umax_iff)
  then have "\<not> 0 < saturating_sub (max (bits n) (bits d)) 128" by (simp add: saturating_sub_def)
  then show ?thesis using assms by (simp only: round_to_rational_def case_prod_conv Let_def if_False)
      (simp add: low_u128_def le_umax_iff)
qed

text \<open>A shifted numerator and denominator both fit a \<open>u128\<close>.\<close>

lemma shifted_u128:
  assumes "shift = max (bits n) (bits d) - 128"
  shows "n div 2 ^ shift \<le> umax 128" "d div 2 ^ shift \<le> umax 128"
proof -
  have "m div 2 ^ shift < 2 ^ 128" if "bits m \<le> max (bits n) (bits d)" for m
  proof -
    have "m < 2 ^ (128 + shift)" using that assms by (intro iffD1 [OF bits_le_iff]) simp
    then show ?thesis by (simp add: power_add mult.commute less_mult_imp_div_less)
  qed
  then show "n div 2 ^ shift \<le> umax 128" "d div 2 ^ shift \<le> umax 128" by (simp_all add: le_umax_iff)
qed

lemma round_to_rational_shift:
  assumes "shift = max (bits n) (bits d) - 128" "0 < shift"
  shows "round_to_rational (n, d) r =
    (max (saturating_add 128 (n div 2 ^ shift) (fst (to_bias r 1))) (if n = 0 then 0 else 1),
     max (saturating_add 128 (d div 2 ^ shift) (snd (to_bias r 1))) 1)"
  using assms shifted_u128 [OF assms(1)]
  by (simp add: round_to_rational_def saturating_sub_def low_u128_def le_umax_iff case_prod_beta Let_def)

lemma bits_eqI: "2 ^ k \<le> n \<Longrightarrow> n < 2 ^ Suc k \<Longrightarrow> bits n = Suc k"
  using bits_le_iff [of n k] bits_le_iff [of n "Suc k"] by linarith

text \<open>
  Truncating both sides of a fraction by the same shift: the quotient moves by less than one unit of either side.
\<close>

lemma shift_down_le:
  fixes n d k :: nat
  shows "(n div 2 ^ k) * d \<le> n * (d div 2 ^ k + 1)"
proof -
  have "(n div 2 ^ k) * d \<le> (n div 2 ^ k) * ((d div 2 ^ k + 1) * 2 ^ k)"
    using less_div_Suc_mult [of "2 ^ k" d] by (intro mult_le_mono2) simp
  also have "\<dots> = (n div 2 ^ k * 2 ^ k) * (d div 2 ^ k + 1)" by (simp only: ac_simps)
  also have "\<dots> \<le> n * (d div 2 ^ k + 1)" by (intro mult_le_mono1 div_mult_le)
  finally show ?thesis .
qed

section \<open>Properties\<close>

text \<open>
  Rounding a wide fraction to \<open>u128\<close> goes in the direction asked for: rounding down gives at most and
  rounding up at least the exact quotient, and a fraction that fits is returned unchanged. For a fraction that
  does not fit this needs that the shift leaves something of the side that is made smaller and that the other side does
  not saturate.
\<close>

theorem round_to_rational_direction:
  assumes "shift = max (bits n) (bits d) - 128" "0 < d"
  shows "(shift = 0 \<longrightarrow> round_to_rational (n, d) r = (n, d)) \<and>
    (2 ^ shift \<le> n \<longrightarrow> d div 2 ^ shift < umax 128 \<longrightarrow>
       fst (round_to_rational (n, d) Rat_Down) * d \<le> n * snd (round_to_rational (n, d) Rat_Down)) \<and>
    (2 ^ shift \<le> d \<longrightarrow> n div 2 ^ shift < umax 128 \<longrightarrow>
       n * snd (round_to_rational (n, d) Rat_Up) \<le> fst (round_to_rational (n, d) Rat_Up) * d)"
proof (cases "shift = 0")
  case True
  then have "n \<le> umax 128" "d \<le> umax 128" 
    using assms(1) bits_le_iff [of n 128] bits_le_iff [of d 128] by (simp_all add: le_umax_iff)
  then show ?thesis by (simp add: round_exact)
next
  case False
  have pos: "1 \<le> m div 2 ^ shift" if "2 ^ shift \<le> m" for m :: nat using that by (simp add: div_greater_zero_iff Suc_le_eq)
  note eq = round_to_rational_shift [OF assms(1)]
  have down: "round_to_rational (n, d) Rat_Down = (n div 2 ^ shift, d div 2 ^ shift + 1)"
    if "2 ^ shift \<le> n" "d div 2 ^ shift < umax 128"
    using False pos [OF that(1)] that shifted_u128 [OF assms(1)] by (simp add: eq saturating_add_def)
  have up: "round_to_rational (n, d) Rat_Up = (n div 2 ^ shift + 1, d div 2 ^ shift)"
    if "2 ^ shift \<le> d" "n div 2 ^ shift < umax 128"
    using False pos [OF that(1)] that shifted_u128 [OF assms(1)] by (simp add: eq saturating_add_def)
  show ?thesis using False down up shift_down_le [of n shift d] shift_down_le [of d shift n] by (simp add: mult.commute)
qed

lemma bits_sample: "bits (2 ^ 200) = 201" "bits 5 = 3"
  using bits_eqI [of 200 "2 ^ 200"] bits_eqI [of 2 5] by simp_all

theorem round_to_rational_direction_witness:
  "fst (round_to_rational (2 ^ 200, 5) Rat_Down) * 5 \<le> 2 ^ 200 * snd (round_to_rational (2 ^ 200, 5) Rat_Down)"
proof -
  have "(73 :: nat) = max (bits (2 ^ 200)) (bits 5) - 128" using bits_sample by simp
  from round_to_rational_direction [OF this, of Rat_Down] show ?thesis by (simp add: umax_def)
qed

text \<open>
  Without those conditions rounding down does not go down: a numerator that the shift would erase is kept at
  one, so the fraction \<open>1 / 2 ^ 200\<close> becomes \<open>1 / (2 ^ 127 + 1)\<close>, which is larger.
\<close>

theorem round_down_can_exceed:
  "round_to_rational (1, 2 ^ 200) Rat_Down = (1, 2 ^ 127 + 1) \<and> (1 :: nat) * (2 ^ 127 + 1) < 1 * 2 ^ 200"
proof -
  have "bits 1 = 1" using bits_eqI [of 0 1] by simp
  then have "(73 :: nat) = max (bits 1) (bits (2 ^ 200)) - 128" using bits_sample by simp
  from round_to_rational_shift [OF this, of Rat_Down] show ?thesis by (simp add: saturating_add_def umax_def)
qed

end
