(* ===== verification/Stableswap_Math.thy ===== *)
theory Stableswap_Math
  imports Rational_Math
begin

text \<open>
  The stable-pool formulas (\<open>math/src/stableswap/{math,types}.rs\<close>): the invariant \<open>D\<close> and the reserve \<open>y\<close> by
  Newton's method in integers, trades, shares, single-asset withdrawals and deposits, prices and the
  moving pegs. The const parameters \<open>D\<close> and \<open>Y\<close> of the code, the bounds of its loops, are ordinary arguments.
  \<open>None\<close> is the code's \<open>None\<close>, or a panic (an index out of range, a cast that overflows).
\<close>

section \<open>Reserves\<close>

record stable_reserve =
  ar_amount :: balance
  ar_decimals :: nat

datatype st_rounding = St_Down | St_Up

definition MAX_Y_ITERATIONS :: nat where "MAX_Y_ITERATIONS = 128"
definition MAX_D_ITERATIONS :: nat where "MAX_D_ITERATIONS = 64"
definition TARGET_PRECISION :: nat where "TARGET_PRECISION = 18"
definition PRECISION :: nat where "PRECISION = 1"

definition ar_is_zero :: "stable_reserve \<Rightarrow> bool" where
  "ar_is_zero r \<longleftrightarrow> ar_amount r = 0"

definition ar_saturating_add :: "stable_reserve \<Rightarrow> balance \<Rightarrow> stable_reserve" where
  "ar_saturating_add r amount = r\<lparr>ar_amount := saturating_add 128 (ar_amount r) amount\<rparr>"

definition ar_saturating_sub :: "stable_reserve \<Rightarrow> balance \<Rightarrow> stable_reserve" where
  "ar_saturating_sub r amount = r\<lparr>ar_amount := saturating_sub (ar_amount r) amount\<rparr>"

text \<open>\<open>10u128.saturating_pow(e)\<close>.\<close>

definition pow10_u128 :: "nat \<Rightarrow> nat" where
  "pow10_u128 e = min (umax 128) (10 ^ e)"

definition normalize_value :: "balance \<Rightarrow> nat \<Rightarrow> nat \<Rightarrow> st_rounding \<Rightarrow> balance" where
  "normalize_value amount decimals target_decimals rounding =
     (if target_decimals = decimals then amount
      else
        let diff = abs_diff target_decimals decimals in
        if decimals < target_decimals then saturating_mul 128 amount (pow10_u128 diff)
        else case rounding of
            St_Down \<Rightarrow> amount div pow10_u128 diff
          | St_Up \<Rightarrow> saturating_add 128 (amount div pow10_u128 diff) 1)"

definition normalize_reserves :: "stable_reserve list \<Rightarrow> balance list" where
  "normalize_reserves reserves =
     map (\<lambda>v. normalize_value (ar_amount v) (ar_decimals v) TARGET_PRECISION St_Down) reserves"

definition peg_reserves :: "arith \<Rightarrow> balance list \<Rightarrow> (balance \<times> balance) list \<Rightarrow> balance list option" where
  "peg_reserves A reserves pegs = those (map (\<lambda>(v, peg). mul_rational A Round_Down v (fst peg) (snd peg)) (zip reserves pegs))"

definition calculate_ann :: "nat \<Rightarrow> balance \<Rightarrow> balance option" where
  "calculate_ann n amplification = checked_mul 128 amplification n"

definition has_converged :: "nat \<Rightarrow> nat \<Rightarrow> nat \<Rightarrow> bool" where
  "has_converged v0 v1 precision =
     (let diff = abs_diff v0 v1 in (v1 \<le> v0 \<and> diff < precision) \<or> (v0 < v1 \<and> diff \<le> precision))"

text \<open>The elements without the one at an index, and indexing that may panic.\<close>

definition omit :: "nat \<Rightarrow> 'a list \<Rightarrow> 'a list" where
  "omit i xs = map snd (filter (\<lambda>(idx, _). idx \<noteq> i) (enumerate 0 xs))"

definition nth_opt :: "'a list \<Rightarrow> nat \<Rightarrow> 'a option" where
  "nth_opt xs i = (if i < length xs then Some (xs ! i) else None)"

primrec sum_u256 :: "nat list \<Rightarrow> nat \<Rightarrow> nat option" where
  "sum_u256 [] s = Some s"
| "sum_u256 (x # xs) s = Option.bind (checked_add 256 s x) (sum_u256 xs)"

section \<open>The invariant\<close>

text \<open>\<open>fold_d n d xs acc\<close> multiplies \<open>acc\<close> by \<open>d / (n * x)\<close> for every \<open>x\<close>, rounding down each time.\<close>

primrec fold_d :: "nat \<Rightarrow> nat \<Rightarrow> nat list \<Rightarrow> nat \<Rightarrow> nat option" where
  "fold_d n d [] acc = Some acc"
| "fold_d n d (v # vs) acc = do {
     m \<leftarrow> checked_mul 256 acc d;
     q \<leftarrow> checked_mul 256 v n;
     r \<leftarrow> checked_div m q;
     fold_d n d vs r
   }"

definition next_d :: "nat \<Rightarrow> nat \<Rightarrow> nat \<Rightarrow> nat list \<Rightarrow> nat \<Rightarrow> nat option" where
  "next_d ann_hp n_coins s_hp xp_hp d = do {
     d_p \<leftarrow> fold_d n_coins d xp_hp d;
     ann_s \<leftarrow> checked_mul 256 ann_hp s_hp;
     d_p_n \<leftarrow> checked_mul 256 d_p n_coins;
     sum \<leftarrow> checked_add 256 ann_s d_p_n;
     num \<leftarrow> checked_mul 256 sum d;
     ann_1 \<leftarrow> checked_sub ann_hp 1;
     ann_d \<leftarrow> checked_mul 256 ann_1 d;
     n_1 \<leftarrow> checked_add 256 n_coins 1;
     n_d_p \<leftarrow> checked_mul 256 n_1 d_p;
     denom \<leftarrow> checked_add 256 ann_d n_d_p;
     q \<leftarrow> checked_div num denom;
     checked_add 256 q 2
   }"

primrec iterate_d :: "nat \<Rightarrow> nat \<Rightarrow> nat \<Rightarrow> nat list \<Rightarrow> nat \<Rightarrow> nat \<Rightarrow> nat option" where
  "iterate_d ann_hp n_coins s_hp xp_hp 0 d = Some d"
| "iterate_d ann_hp n_coins s_hp xp_hp (Suc k) d = do {
     d' \<leftarrow> next_d ann_hp n_coins s_hp xp_hp d;
     if has_converged d d' PRECISION then Some d' else iterate_d ann_hp n_coins s_hp xp_hp k d'
   }"

definition calculate_d_internal :: "arith \<Rightarrow> nat \<Rightarrow> balance list \<Rightarrow> balance \<Rightarrow> (balance \<times> balance) list \<Rightarrow> balance option" where
  "calculate_d_internal A D reserves amplification pegs = do {
     xp \<leftarrow> peg_reserves A reserves pegs;
     let nonzero = filter (\<lambda>v. v \<noteq> 0) xp;
     if length nonzero \<noteq> length xp \<and> nonzero \<noteq> [] then None
     else do {
       let xp_hp = sort nonzero;
       let n_coins = length xp_hp;
       ann \<leftarrow> calculate_ann n_coins amplification;
       s_hp \<leftarrow> sum_u256 xp_hp 0;
       if s_hp = 0 then Some 0
       else do {
         d \<leftarrow> iterate_d ann n_coins s_hp xp_hp D s_hp;
         narrow 128 d
       }
     }
   }"

definition calculate_d :: "arith \<Rightarrow> nat \<Rightarrow> stable_reserve list \<Rightarrow> balance \<Rightarrow> (balance \<times> balance) list \<Rightarrow> balance option" where
  "calculate_d A D reserves amplification pegs =
     (let assets_ct = length reserves in
      if assets_ct \<le> 1 \<or> length pegs \<noteq> assets_ct then None
      else calculate_d_internal A D (normalize_reserves reserves) amplification pegs)"

section \<open>The reserve of one asset\<close>

definition next_y :: "nat \<Rightarrow> nat \<Rightarrow> nat \<Rightarrow> nat \<Rightarrow> nat option" where
  "next_y b c d_hp y = do {
     yy \<leftarrow> checked_mul 256 y y;
     num \<leftarrow> checked_add 256 yy c;
     y2 \<leftarrow> checked_mul 256 2 y;
     y2b \<leftarrow> checked_add 256 y2 b;
     denom \<leftarrow> checked_sub y2b d_hp;
     q \<leftarrow> checked_div num denom;
     checked_add 256 q 2
   }"

primrec iterate_y :: "nat \<Rightarrow> nat \<Rightarrow> nat \<Rightarrow> nat \<Rightarrow> nat \<Rightarrow> nat option" where
  "iterate_y b c d_hp 0 y = Some y"
| "iterate_y b c d_hp (Suc k) y = do {
     y' \<leftarrow> next_y b c d_hp y;
     if has_converged y y' PRECISION then Some y' else iterate_y b c d_hp k y'
   }"

definition calculate_y_internal ::
    "arith \<Rightarrow> nat \<Rightarrow> balance list \<Rightarrow> balance \<Rightarrow> balance \<Rightarrow> (balance \<times> balance) list \<Rightarrow> balance \<times> balance \<Rightarrow> balance option" where
  "calculate_y_internal A Y reserves d amplification pegs peg_omit = do {
     xp \<leftarrow> peg_reserves A reserves pegs;
     let nonzero = filter (\<lambda>v. v \<noteq> 0) xp;
     if length nonzero \<noteq> length xp \<and> nonzero \<noteq> [] then None
     else do {
       let xp_hp = sort nonzero;
       let n_coins_hp = length xp_hp + 1;
       ann_hp \<leftarrow> calculate_ann n_coins_hp amplification;
       s_hp \<leftarrow> sum_u256 xp_hp 0;
       c0 \<leftarrow> fold_d n_coins_hp d xp_hp d;
       c1 \<leftarrow> checked_mul 256 c0 d;
       ann_n \<leftarrow> checked_mul 256 ann_hp n_coins_hp;
       c \<leftarrow> checked_div c1 ann_n;
       d_ann \<leftarrow> checked_div d ann_hp;
       b \<leftarrow> checked_add 256 s_hp d_ann;
       y \<leftarrow> iterate_y b c d Y d;
       r \<leftarrow> narrow 128 y;
       mul_rational A Round_Down r (snd peg_omit) (fst peg_omit)
     }
   }"

definition calculate_y_given_in ::
    "arith \<Rightarrow> nat \<Rightarrow> nat \<Rightarrow> balance \<Rightarrow> nat \<Rightarrow> nat \<Rightarrow> balance list \<Rightarrow> balance \<Rightarrow> (balance \<times> balance) list \<Rightarrow> balance option" where
  "calculate_y_given_in A D Y amount idx_in idx_out reserves amplification pegs =
     (if length reserves \<le> idx_in \<or> length reserves \<le> idx_out then None
      else do {
        new_reserve_in \<leftarrow> checked_add 128 (reserves ! idx_in) amount;
        d \<leftarrow> calculate_d_internal A D reserves amplification pegs;
        let xp = omit idx_out (reserves[idx_in := new_reserve_in]);
        peg_omit \<leftarrow> nth_opt pegs idx_out;
        let r_pegs = omit idx_out pegs;
        calculate_y_internal A Y xp d amplification r_pegs peg_omit
      })"

definition calculate_y_given_out ::
    "arith \<Rightarrow> nat \<Rightarrow> nat \<Rightarrow> balance \<Rightarrow> nat \<Rightarrow> nat \<Rightarrow> balance list \<Rightarrow> balance \<Rightarrow> (balance \<times> balance) list \<Rightarrow> balance option" where
  "calculate_y_given_out A D Y amount idx_in idx_out reserves amplification pegs = do {
     reserve_out \<leftarrow> nth_opt reserves idx_out;
     new_reserve_out \<leftarrow> checked_sub reserve_out amount;
     d \<leftarrow> calculate_d_internal A D reserves amplification pegs;
     let xp = omit idx_in (reserves[idx_out := new_reserve_out]);
     peg_omit \<leftarrow> nth_opt pegs idx_in;
     let r_pegs = omit idx_in pegs;
     calculate_y_internal A Y xp d amplification r_pegs peg_omit
   }"

section \<open>Trades\<close>

definition st_calculate_fee_amount :: "arith \<Rightarrow> balance \<Rightarrow> nat \<Rightarrow> st_rounding \<Rightarrow> balance" where
  "st_calculate_fee_amount A amount fee rounding =
     (case rounding of St_Down \<Rightarrow> permill_mul_floor A fee amount | St_Up \<Rightarrow> permill_mul_ceil A fee amount)"

definition st_calculate_out_given_in ::
    "arith \<Rightarrow> nat \<Rightarrow> nat \<Rightarrow> stable_reserve list \<Rightarrow> nat \<Rightarrow> nat \<Rightarrow> balance \<Rightarrow> balance \<Rightarrow> (balance \<times> balance) list \<Rightarrow>
     balance option" where
  "st_calculate_out_given_in A D Y initial_reserves idx_in idx_out amount_in amplification pegs =
     (let assets_ct = length initial_reserves in
      if assets_ct \<le> 1 \<or> idx_in = idx_out \<or> assets_ct \<le> idx_in \<or> assets_ct \<le> idx_out \<or> length pegs \<noteq> assets_ct then None
      else do {
        let reserves = normalize_reserves initial_reserves;
        let amount_in = normalize_value amount_in (ar_decimals (initial_reserves ! idx_in)) TARGET_PRECISION St_Up;
        new_reserve_out \<leftarrow> calculate_y_given_in A D Y amount_in idx_in idx_out reserves amplification pegs;
        amount_out \<leftarrow> checked_sub (reserves ! idx_out) new_reserve_out;
        let amount_out = normalize_value amount_out TARGET_PRECISION (ar_decimals (initial_reserves ! idx_out)) St_Down;
        Some (saturating_sub amount_out 1)
      })"

definition st_calculate_in_given_out ::
    "arith \<Rightarrow> nat \<Rightarrow> nat \<Rightarrow> stable_reserve list \<Rightarrow> nat \<Rightarrow> nat \<Rightarrow> balance \<Rightarrow> balance \<Rightarrow> (balance \<times> balance) list \<Rightarrow>
     balance option" where
  "st_calculate_in_given_out A D Y initial_reserves idx_in idx_out amount_out amplification pegs =
     (let assets_ct = length initial_reserves in
      if assets_ct \<le> 1 \<or> idx_in = idx_out \<or> assets_ct \<le> idx_in \<or> assets_ct \<le> idx_out \<or> length pegs \<noteq> assets_ct then None
      else do {
        let reserves = normalize_reserves initial_reserves;
        let amount_out = normalize_value amount_out (ar_decimals (initial_reserves ! idx_out)) TARGET_PRECISION St_Down;
        new_reserve_in \<leftarrow> calculate_y_given_out A D Y amount_out idx_in idx_out reserves amplification pegs;
        amount_in \<leftarrow> checked_sub new_reserve_in (reserves ! idx_in);
        let amount_in = normalize_value amount_in TARGET_PRECISION (ar_decimals (initial_reserves ! idx_in)) St_Up;
        Some (saturating_add 128 amount_in 1)
      })"

definition calculate_out_given_in_with_fee ::
    "arith \<Rightarrow> nat \<Rightarrow> nat \<Rightarrow> stable_reserve list \<Rightarrow> nat \<Rightarrow> nat \<Rightarrow> balance \<Rightarrow> balance \<Rightarrow> nat \<Rightarrow> (balance \<times> balance) list \<Rightarrow>
     (balance \<times> balance) option" where
  "calculate_out_given_in_with_fee A D Y initial_reserves idx_in idx_out amount_in amplification fee pegs = do {
     amount_out \<leftarrow> st_calculate_out_given_in A D Y initial_reserves idx_in idx_out amount_in amplification pegs;
     let fee_amount = st_calculate_fee_amount A amount_out fee St_Down;
     amount_out \<leftarrow> checked_sub amount_out fee_amount;
     Some (amount_out, fee_amount)
   }"

definition calculate_in_given_out_with_fee ::
    "arith \<Rightarrow> nat \<Rightarrow> nat \<Rightarrow> stable_reserve list \<Rightarrow> nat \<Rightarrow> nat \<Rightarrow> balance \<Rightarrow> balance \<Rightarrow> nat \<Rightarrow> (balance \<times> balance) list \<Rightarrow>
     (balance \<times> balance) option" where
  "calculate_in_given_out_with_fee A D Y initial_reserves idx_in idx_out amount_out amplification fee pegs = do {
     amount_in \<leftarrow> st_calculate_in_given_out A D Y initial_reserves idx_in idx_out amount_out amplification pegs;
     let fee_amount = st_calculate_fee_amount A amount_in fee St_Up;
     amount_in \<leftarrow> checked_add 128 amount_in fee_amount;
     Some (amount_in, fee_amount)
   }"

end
