(* ===== verification/Stableswap_Shares.thy ===== *)
theory Stableswap_Shares
  imports Stableswap_Math
begin

text \<open>
  The rest of \<open>math/src/stableswap/math.rs\<close>: shares for deposited liquidity, withdrawals and deposits of
  one asset, amplification that changes over time, share and spot prices, and the pegs that follow a
  target with the fee that their movement implies.
\<close>

section \<open>Shares\<close>

text \<open>The imbalance fee \<open>fee * n / (4 * (n - 1))\<close>.\<close>

definition imbalance_fee :: "arith \<Rightarrow> nat \<Rightarrow> nat \<Rightarrow> nat option" where
  "imbalance_fee A fee assets_ct = do {
     x \<leftarrow> fx_checked_mul A (fx_of_permill A fee) (fx_of_int A assets_ct);
     fx_checked_div A x (fx_of_int A (4 * (assets_ct - 1)))
   }"

definition adjust_reserve ::
    "arith \<Rightarrow> nat \<Rightarrow> nat \<Rightarrow> nat \<Rightarrow> stable_reserve \<times> stable_reserve \<Rightarrow> (balance \<times> stable_reserve) option" where
  "adjust_reserve A fee d0 d1 r = do {
     let (initial, updated) = r;
     m \<leftarrow> checked_mul 256 d1 (ar_amount initial);
     ideal_balance \<leftarrow> checked_div m d0;
     diff \<leftarrow> narrow 128 (abs_diff (ar_amount updated) ideal_balance);
     fee_amount \<leftarrow> fx_checked_mul_int A fee diff;
     Some (fee_amount, updated\<lparr>ar_amount := saturating_sub (ar_amount updated) fee_amount\<rparr>)
   }"

definition calculate_stable_shares ::
    "arith \<Rightarrow> nat \<Rightarrow> stable_reserve list \<Rightarrow> stable_reserve list \<Rightarrow> balance \<Rightarrow> balance \<Rightarrow> nat \<Rightarrow> (balance \<times> balance) list \<Rightarrow>
     (balance \<times> balance list) option" where
  "calculate_stable_shares A D initial_reserves updated_reserves amplification share_issuance fee pegs =
     (let assets_ct = length initial_reserves in
      if assets_ct \<le> 1 \<or> length updated_reserves \<noteq> assets_ct \<or> length pegs \<noteq> assets_ct then None
      else do {
        initial_d \<leftarrow> calculate_d A D initial_reserves amplification pegs;
        new_d \<leftarrow> calculate_d A D updated_reserves amplification pegs;
        updated_d \<leftarrow> checked_sub new_d 2;
        if updated_d < initial_d then None
        else do {
          fee \<leftarrow> imbalance_fee A fee assets_ct;
          (fees, adjusted_reserves) \<leftarrow>
            (if 0 < share_issuance
             then map_option (\<lambda>xs. (map fst xs, map snd xs))
                    (those (map (adjust_reserve A fee initial_d updated_d) (zip initial_reserves updated_reserves)))
             else Some ([], updated_reserves));
          adjusted_d \<leftarrow> calculate_d A D adjusted_reserves amplification pegs;
          if share_issuance = 0 then Some (updated_d, fees)
          else do {
            d_diff \<leftarrow> checked_sub adjusted_d initial_d;
            m \<leftarrow> checked_mul 256 share_issuance d_diff;
            share_amount \<leftarrow> checked_div m initial_d;
            shares_amount \<leftarrow> narrow 128 share_amount;
            Some (shares_amount, fees)
          }
        }
      })"

definition calculate_shares_for_amount ::
    "arith \<Rightarrow> nat \<Rightarrow> stable_reserve list \<Rightarrow> nat \<Rightarrow> balance \<Rightarrow> balance \<Rightarrow> balance \<Rightarrow> nat \<Rightarrow> (balance \<times> balance) list \<Rightarrow>
     (balance \<times> balance list) option" where
  "calculate_shares_for_amount A D initial_reserves asset_idx amount amplification share_issuance fee pegs =
     (let assets_ct = length initial_reserves in
      if assets_ct \<le> 1 \<or> assets_ct \<le> asset_idx \<or> length pegs \<noteq> assets_ct then None
      else do {
        fee \<leftarrow> imbalance_fee A fee assets_ct;
        reserve \<leftarrow> checked_sub (ar_amount (initial_reserves ! asset_idx)) amount;
        let updated_reserves = initial_reserves[asset_idx := (initial_reserves ! asset_idx)\<lparr>ar_amount := reserve\<rparr>];
        initial_d \<leftarrow> calculate_d A D initial_reserves amplification pegs;
        updated_d \<leftarrow> calculate_d A D updated_reserves amplification pegs;
        xs \<leftarrow> those (map (adjust_reserve A fee initial_d updated_d) (zip initial_reserves updated_reserves));
        let fees = map fst xs;
        let adjusted_reserves = map snd xs;
        adjusted_d \<leftarrow> calculate_d A D adjusted_reserves amplification pegs;
        d_diff \<leftarrow> checked_sub initial_d adjusted_d;
        m \<leftarrow> checked_mul 256 share_issuance d_diff;
        q \<leftarrow> checked_div m initial_d;
        share_amount \<leftarrow> checked_add 256 q 1;
        shares \<leftarrow> narrow 128 share_amount;
        Some (shares, fees)
      })"

definition stable_liquidity_out :: "balance \<Rightarrow> balance \<Rightarrow> balance \<Rightarrow> balance option" where
  "stable_liquidity_out reserve share_amount share_issuance = do {
     m \<leftarrow> checked_mul 256 reserve share_amount;
     q \<leftarrow> checked_div m share_issuance;
     narrow 128 q
   }"

text \<open>The loop over the reserves: what the imbalance fee leaves of each.\<close>

definition withdraw_reduced :: "arith \<Rightarrow> nat \<Rightarrow> nat \<Rightarrow> nat \<Rightarrow> nat \<Rightarrow> nat \<Rightarrow> nat \<times> balance \<Rightarrow> balance option" where
  "withdraw_reduced A fee d d1 y asset_idx r = do {
     let (idx, reserve) = r;
     m \<leftarrow> checked_mul 256 reserve d1;
     q \<leftarrow> checked_div m d;
     dx_expected \<leftarrow> (if idx = asset_idx then checked_sub q y else checked_sub reserve q);
     expected \<leftarrow> narrow 128 dx_expected;
     f \<leftarrow> fx_checked_mul_int A fee expected;
     checked_sub reserve f
   }"

definition calculate_withdraw_one_asset ::
    "arith \<Rightarrow> nat \<Rightarrow> nat \<Rightarrow> stable_reserve list \<Rightarrow> balance \<Rightarrow> nat \<Rightarrow> balance \<Rightarrow> balance \<Rightarrow> nat \<Rightarrow> (balance \<times> balance) list \<Rightarrow>
     (balance \<times> balance) option" where
  "calculate_withdraw_one_asset A D Y initial_reserves shares asset_idx share_asset_issuance amplification fee pegs =
     (let assets_ct = length initial_reserves in
      if assets_ct \<le> 1 \<or> assets_ct \<le> asset_idx \<or> length pegs \<noteq> assets_ct \<or> shares = 0 \<or> share_asset_issuance < shares
      then None
      else do {
        let asset_out_decimals = ar_decimals (initial_reserves ! asset_idx);
        let reserves = normalize_reserves initial_reserves;
        fee \<leftarrow> imbalance_fee A fee assets_ct;
        initial_d \<leftarrow> calculate_d_internal A D reserves amplification pegs;
        m \<leftarrow> checked_mul 256 shares initial_d;
        q \<leftarrow> checked_div m share_asset_issuance;
        d1 \<leftarrow> checked_sub initial_d q;
        let xp = omit asset_idx reserves;
        let peg_omit = pegs ! asset_idx;
        let r_pegs = omit asset_idx pegs;
        d1_u128 \<leftarrow> narrow 128 d1;
        y \<leftarrow> calculate_y_internal A Y xp d1_u128 amplification r_pegs peg_omit;
        reduced \<leftarrow> those (map (withdraw_reduced A fee initial_d d1 y asset_idx) (enumerate 0 reserves));
        let reserves_reduced = omit asset_idx reduced;
        let asset_reserve = reduced ! asset_idx;
        y1 \<leftarrow> calculate_y_internal A Y reserves_reduced d1_u128 amplification r_pegs peg_omit;
        dy \<leftarrow> checked_sub asset_reserve y1;
        dy_0 \<leftarrow> checked_sub (reserves ! asset_idx) y;
        fee \<leftarrow> checked_sub dy_0 dy;
        Some (normalize_value dy TARGET_PRECISION asset_out_decimals St_Down,
              normalize_value fee TARGET_PRECISION asset_out_decimals St_Down)
      })"

definition add_reduced :: "arith \<Rightarrow> nat \<Rightarrow> nat \<Rightarrow> nat \<Rightarrow> nat \<Rightarrow> nat \<Rightarrow> nat \<times> balance \<Rightarrow> balance option" where
  "add_reduced A fee d d1 y asset_idx r = do {
     let (idx, reserve) = r;
     m \<leftarrow> checked_mul 256 reserve d1;
     q \<leftarrow> checked_div m d;
     dx_expected \<leftarrow> (if idx = asset_idx then checked_sub y q else checked_sub q reserve);
     expected \<leftarrow> narrow 128 dx_expected;
     f \<leftarrow> fx_checked_mul_int A fee expected;
     checked_sub reserve f
   }"

definition calculate_add_one_asset ::
    "arith \<Rightarrow> nat \<Rightarrow> nat \<Rightarrow> stable_reserve list \<Rightarrow> balance \<Rightarrow> nat \<Rightarrow> balance \<Rightarrow> balance \<Rightarrow> nat \<Rightarrow> (balance \<times> balance) list \<Rightarrow>
     (balance \<times> balance) option" where
  "calculate_add_one_asset A D Y initial_reserves shares asset_idx share_asset_issuance amplification fee pegs =
     (let assets_ct = length initial_reserves in
      if assets_ct \<le> 1 \<or> assets_ct \<le> asset_idx \<or> length pegs \<noteq> assets_ct \<or> shares = 0 \<or> share_asset_issuance < shares
      then None
      else do {
        let asset_in_decimals = ar_decimals (initial_reserves ! asset_idx);
        let reserves = normalize_reserves initial_reserves;
        initial_d \<leftarrow> calculate_d_internal A D reserves amplification pegs;
        m \<leftarrow> checked_mul 256 shares initial_d;
        q \<leftarrow> checked_div m share_asset_issuance;
        d1 \<leftarrow> checked_add 256 initial_d q;
        let xp = omit asset_idx reserves;
        let peg_omit = pegs ! asset_idx;
        let r_pegs = omit asset_idx pegs;
        d1_u128 \<leftarrow> narrow 128 d1;
        y \<leftarrow> calculate_y_internal A Y xp d1_u128 amplification r_pegs peg_omit;
        fee \<leftarrow> imbalance_fee A fee assets_ct;
        reduced \<leftarrow> those (map (add_reduced A fee initial_d d1 y asset_idx) (enumerate 0 reserves));
        let reserves_reduced = omit asset_idx reduced;
        let asset_reserve = reduced ! asset_idx;
        y1 \<leftarrow> calculate_y_internal A Y reserves_reduced d1_u128 amplification r_pegs peg_omit;
        dy \<leftarrow> checked_sub y1 asset_reserve;
        dy_0 \<leftarrow> checked_sub y asset_reserve;
        fee \<leftarrow> checked_sub dy dy_0;
        Some (normalize_value dy TARGET_PRECISION asset_in_decimals St_Up,
              normalize_value fee TARGET_PRECISION asset_in_decimals St_Down)
      })"

section \<open>Amplification\<close>

definition calculate_amplification :: "nat \<Rightarrow> nat \<Rightarrow> nat \<Rightarrow> nat \<Rightarrow> nat \<Rightarrow> nat" where
  "calculate_amplification initial_amplification final_amplification initial_block final_block current_block =
     (if current_block < initial_block \<or> final_block \<le> initial_block then initial_amplification
      else if final_block \<le> current_block then final_amplification
      else
        let step = saturating_mul 128 (abs_diff final_amplification initial_amplification)
                     (saturating_sub current_block initial_block) div saturating_sub final_block initial_block
        in if initial_amplification < final_amplification then saturating_add 128 initial_amplification step
           else saturating_sub initial_amplification step)"

section \<open>Prices\<close>

text \<open>\<open>for (v, mpl) in reserves.iter().zip(pegs)\<close>: the reserves at their pegs, before normalization.\<close>

definition pegged_reserves :: "arith \<Rightarrow> stable_reserve list \<Rightarrow> (balance \<times> balance) list \<Rightarrow> stable_reserve list option" where
  "pegged_reserves A reserves pegs = those (map (\<lambda>(v, mpl). do {
     r_new \<leftarrow> mul_rational A Round_Down (ar_amount v) (fst mpl) (snd mpl);
     Some (v\<lparr>ar_amount := r_new\<rparr>)
   }) (zip reserves pegs))"

primrec share_price_fold :: "arith \<Rightarrow> nat \<Rightarrow> nat \<Rightarrow> nat list \<Rightarrow> nat \<Rightarrow> nat option" where
  "share_price_fold A n d [] acc = Some acc"
| "share_price_fold A n d (v # vs) acc = do {
     nv \<leftarrow> checked_mul 128 n v;
     q \<leftarrow> fx_checked_from_rational A d nv;
     acc' \<leftarrow> fx_checked_mul A acc q;
     share_price_fold A n d vs acc'
   }"

definition calculate_share_price ::
    "arith \<Rightarrow> nat \<Rightarrow> stable_reserve list \<Rightarrow> balance \<Rightarrow> balance \<Rightarrow> nat \<Rightarrow> balance option \<Rightarrow> (balance \<times> balance) list \<Rightarrow>
     (balance \<times> balance) option" where
  "calculate_share_price A D reserves amplification issuance asset_idx provided_d pegs =
     (let n_coins = length reserves in
      if n_coins \<le> 1 \<or> n_coins \<le> asset_idx \<or> length pegs \<noteq> n_coins then None
      else do {
        d \<leftarrow> (case provided_d of Some v \<Rightarrow> Some v | None \<Rightarrow> calculate_d A D reserves amplification pegs);
        let asset_peg = pegs ! asset_idx;
        adjusted_reserves \<leftarrow> pegged_reserves A reserves pegs;
        let n_reserves = normalize_reserves adjusted_reserves;
        c_fx \<leftarrow> share_price_fold A n_coins d n_reserves fx_one;
        c \<leftarrow> fx_checked_mul_int A c_fx d;
        ann \<leftarrow> calculate_ann (length n_reserves) amplification;
        let xi = n_reserves ! asset_idx;
        xann \<leftarrow> checked_mul 256 xi ann;
        p1 \<leftarrow> checked_mul 256 d xann;
        xc \<leftarrow> checked_mul 256 xi c;
        p2 \<leftarrow> checked_mul 256 xc (saturating_add 256 n_coins 1);
        p3 \<leftarrow> checked_mul 256 xi d;
        p12 \<leftarrow> checked_add 256 p1 p2;
        num \<leftarrow> checked_sub p12 p3;
        xannc \<leftarrow> checked_add 256 xann c;
        denom \<leftarrow> checked_mul 256 issuance xannc;
        let p_diff = pow10_u128 (saturating_sub 18 (ar_decimals (reserves ! asset_idx)));
        (num, denom) \<leftarrow> (case checked_mul 256 denom p_diff of
            Some v \<Rightarrow> Some (num, v)
          | None \<Rightarrow> do { num \<leftarrow> checked_div num p_diff; Some (num, denom) });
        let c_ratio = ratio_of_pair (round_to_rational (num, denom) Rat_Down);
        let peg = ratio_of_pair asset_peg;
        Some (ratio_pair (ratio_saturating_div c_ratio peg))
      })"

definition calculate_share_prices ::
    "arith \<Rightarrow> nat \<Rightarrow> stable_reserve list \<Rightarrow> balance \<Rightarrow> balance \<Rightarrow> (balance \<times> balance) list \<Rightarrow> (balance \<times> balance) list option" where
  "calculate_share_prices A D reserves amplification issuance pegs =
     (let n = length reserves in
      if n \<le> 1 then None
      else if length pegs \<noteq> n then None
      else do {
        d \<leftarrow> calculate_d A D reserves amplification pegs;
        those (map (\<lambda>idx. calculate_share_price A D reserves amplification issuance idx (Some d) pegs) [0..<n])
      })"

definition calculate_spot_price_between_two_stable_assets ::
    "arith \<Rightarrow> stable_reserve list \<Rightarrow> balance \<Rightarrow> balance \<Rightarrow> nat \<Rightarrow> nat \<Rightarrow> nat option \<Rightarrow> (balance \<times> balance) list \<Rightarrow> nat option" where
  "calculate_spot_price_between_two_stable_assets A reserves amplification d asset_in_idx asset_out_idx fee pegs =
     (let n_coins = length reserves in
      if n_coins \<le> 1 \<or> n_coins \<le> asset_in_idx \<or> n_coins \<le> asset_out_idx \<or> length pegs \<noteq> n_coins then None
      else do {
        ann \<leftarrow> calculate_ann n_coins amplification;
        let asset_peg_in = pegs ! asset_in_idx;
        let asset_peg_out = pegs ! asset_out_idx;
        adjusted_reserves \<leftarrow> pegged_reserves A reserves pegs;
        let n_reserves = normalize_reserves adjusted_reserves;
        let x0 = n_reserves ! asset_in_idx;
        let xi = n_reserves ! asset_out_idx;
        let reserves_hp = sort n_reserves;
        c \<leftarrow> fold_d n_coins d reserves_hp d;
        axi \<leftarrow> checked_mul 256 ann xi;
        axic \<leftarrow> checked_add 256 axi c;
        num \<leftarrow> checked_mul 256 x0 axic;
        ax0 \<leftarrow> checked_mul 256 ann x0;
        ax0c \<leftarrow> checked_add 256 ax0 c;
        denom \<leftarrow> checked_mul 256 xi ax0c;
        let price = ratio_of_pair (round_to_rational (num, denom) Rat_Down);
        let peg_in = ratio_of_pair asset_peg_in;
        let peg_out = ratio_of_pair asset_peg_out;
        let result = ratio_saturating_div (ratio_saturating_mul price peg_out) peg_in;
        case fee of
          Some fee \<Rightarrow> do {
            fee_multiplier \<leftarrow> permill_checked_sub A permill_one fee;
            fx_checked_from_rational A (ratio_n result) (permill_mul_floor A fee_multiplier (ratio_d result))
          }
        | None \<Rightarrow> fx_checked_from_rational A (ratio_n result) (ratio_d result)
      })"

text \<open>\<open>position\<close> is the index of the first entry of an asset.\<close>

definition st_position :: "asset_id \<Rightarrow> (asset_id \<times> stable_reserve) list \<Rightarrow> nat option" where
  "st_position a rs = (if a \<in> set (map fst rs) then Some (length (takeWhile (\<lambda>r. fst r \<noteq> a) rs)) else None)"

definition st_calculate_spot_price ::
    "arith \<Rightarrow> asset_id \<Rightarrow> (asset_id \<times> stable_reserve) list \<Rightarrow> balance \<Rightarrow> asset_id \<Rightarrow> asset_id \<Rightarrow> balance \<Rightarrow> balance \<Rightarrow>
     nat option \<Rightarrow> (balance \<times> balance) list \<Rightarrow> nat option" where
  "st_calculate_spot_price A pool_id asset_reserves amplification asset_in asset_out share_issuance min_trade_amount fee pegs =
     (let n_coins = length asset_reserves in
      if n_coins \<le> 1 \<or> asset_in = asset_out \<or> length pegs \<noteq> n_coins then None
      else do {
        let reserves = map snd asset_reserves;
        d \<leftarrow> calculate_d A MAX_D_ITERATIONS reserves amplification pegs;
        let unwrapped_fee = (case fee of Some f \<Rightarrow> f | None \<Rightarrow> 0);
        case (asset_in = pool_id, asset_out = pool_id) of
          (False, False) \<Rightarrow> do {
            asset_in_idx \<leftarrow> st_position asset_in asset_reserves;
            asset_out_idx \<leftarrow> st_position asset_out asset_reserves;
            calculate_spot_price_between_two_stable_assets A reserves amplification d asset_in_idx asset_out_idx fee pegs
          }
        | (True, False) \<Rightarrow> do {
            asset_out_idx \<leftarrow> st_position asset_out asset_reserves;
            (shares, _) \<leftarrow> calculate_shares_for_amount A MAX_D_ITERATIONS reserves asset_out_idx min_trade_amount
                             amplification share_issuance unwrapped_fee pegs;
            fx_checked_from_rational A shares min_trade_amount
          }
        | (False, True) \<Rightarrow> do {
            updated_reserves \<leftarrow> those (map (\<lambda>(a, r).
                if a = asset_in then do { x \<leftarrow> checked_add 128 (ar_amount r) min_trade_amount; Some (r\<lparr>ar_amount := x\<rparr>) }
                else Some r) asset_reserves);
            (shares_for_min_trade, _) \<leftarrow> calculate_stable_shares A MAX_D_ITERATIONS reserves updated_reserves amplification
                                           share_issuance unwrapped_fee pegs;
            fx_checked_from_rational A min_trade_amount shares_for_min_trade
          }
        | (True, True) \<Rightarrow> None
      })"

section \<open>Moving pegs\<close>

record peg_delta =
  pd_delta :: ratio
  pd_neg :: bool
  pd_block_diff :: nat

definition peg_delta_of :: "nat \<Rightarrow> nat \<Rightarrow> (balance \<times> balance) \<times> (balance \<times> balance) \<times> nat \<Rightarrow> peg_delta" where
  "peg_delta_of block_ct max_peg_update p =
     (let (current, target) = p;
          c = ratio_of_pair current;
          t = ratio_of_pair (fst target);
          (delta, delta_neg) = (if ratio_less c t then (ratio_saturating_sub t c, False) else (ratio_saturating_sub c t, True));
          b = ratio_of_nat block_ct;
          max_move_ratio = ratio_of_pair (max_peg_update, perbill_one);
          max_peg_move = ratio_saturating_mul (ratio_saturating_mul max_move_ratio c) b
      in if \<not> ratio_less max_peg_move delta then \<lparr>pd_delta = delta, pd_neg = delta_neg, pd_block_diff = block_ct\<rparr>
         else if ratio_less c t then \<lparr>pd_delta = max_peg_move, pd_neg = False, pd_block_diff = block_ct\<rparr>
         else \<lparr>pd_delta = max_peg_move, pd_neg = True, pd_block_diff = block_ct\<rparr>)"

definition calculate_peg_deltas ::
    "nat \<Rightarrow> (balance \<times> balance) list \<Rightarrow> nat \<Rightarrow> ((balance \<times> balance) \<times> nat) list \<Rightarrow> nat \<Rightarrow> peg_delta list" where
  "calculate_peg_deltas block_no current current_updated_at target max_peg_update =
     (let block_ct = max (saturating_sub block_no current_updated_at) 1
      in map (peg_delta_of block_ct max_peg_update) (zip current target))"

definition max_change_step :: "ratio \<times> bool \<Rightarrow> ratio \<times> bool \<Rightarrow> ratio \<times> bool" where
  "max_change_step max_change p =
     (let (change, change_neg) = p in
      case (change_neg, snd max_change) of
        (True, True) \<Rightarrow> (if ratio_less change (fst max_change) then (change, True) else max_change)
      | (True, False) \<Rightarrow> max_change
      | (False, True) \<Rightarrow> (change, True)
      | (False, False) \<Rightarrow> (if ratio_less (fst max_change) change then (change, False) else max_change))"

definition min_change_step :: "ratio \<times> bool \<Rightarrow> ratio \<times> bool \<Rightarrow> ratio \<times> bool" where
  "min_change_step min_change p =
     (let (change, change_neg) = p in
      case (change_neg, snd min_change) of
        (True, True) \<Rightarrow> (if ratio_less (fst min_change) change then (change, True) else min_change)
      | (True, False) \<Rightarrow> (change, True)
      | (False, True) \<Rightarrow> min_change
      | (False, False) \<Rightarrow> (if ratio_less change (fst min_change) then (change, False) else min_change))"

definition one_plus_change :: "ratio \<times> bool \<Rightarrow> ratio \<times> bool" where
  "one_plus_change p =
     (if snd p
      then if ratio_less ratio_one (fst p) then (ratio_saturating_sub (fst p) ratio_one, True)
           else (ratio_saturating_sub ratio_one (fst p), False)
      else (ratio_saturating_add (fst p) ratio_one, False))"

definition calculate_target_fee :: "arith \<Rightarrow> (balance \<times> balance) list \<Rightarrow> peg_delta list \<Rightarrow> nat \<Rightarrow> nat" where
  "calculate_target_fee A current deltas current_fee =
     (let peg_relative_changes = map (\<lambda>(delta, current).
            let b = ratio_of_nat (pd_block_diff delta);
                c = ratio_of_pair current
            in (ratio_saturating_div (ratio_saturating_div (pd_delta delta) b) c, pd_neg delta)) (zip deltas current);
          max_change = foldl max_change_step (ratio_zero, False) peg_relative_changes;
          min_change = foldl min_change_step (ratio_zero, False) peg_relative_changes;
          (max_value, max_neg) = one_plus_change max_change;
          (min_value, min_neg) = one_plus_change min_change;
          max_diff = ratio_saturating_div max_value min_value;
          max_diff_negative = max_neg \<or> min_neg
      in if max_diff_negative \<or> ratio_less max_diff ratio_one then current_fee
         else
           let max_diff = ratio_saturating_sub max_diff ratio_one;
               p = ratio_saturating_mul (ratio_of_nat 2) max_diff;
               new_fee = permill_from_rational A (ratio_n p) (ratio_d p)
           in max new_fee current_fee)"

definition calculate_new_pegs :: "(balance \<times> balance) list \<Rightarrow> peg_delta list \<Rightarrow> (balance \<times> balance) list" where
  "calculate_new_pegs current deltas = map (\<lambda>(current, delta).
     let c = ratio_of_pair current;
         d = pd_delta delta;
         new_peg = (if pd_neg delta then ratio_saturating_sub c d else ratio_saturating_add c d)
     in ratio_pair new_peg) (zip current deltas)"

definition recalculate_pegs ::
    "arith \<Rightarrow> (balance \<times> balance) list \<Rightarrow> nat \<Rightarrow> ((balance \<times> balance) \<times> nat) list \<Rightarrow> nat \<Rightarrow> nat \<Rightarrow> nat \<Rightarrow>
     (nat \<times> (balance \<times> balance) list) option" where
  "recalculate_pegs A current_pegs current_pegs_updated_at target_pegs block max_peg_update pool_fee =
     (let deltas = calculate_peg_deltas block current_pegs current_pegs_updated_at target_pegs max_peg_update;
          trade_fee = calculate_target_fee A current_pegs deltas pool_fee;
          new_pegs = calculate_new_pegs current_pegs deltas
      in Some (trade_fee, new_pegs))"

end
