(* ===== verification/Ema_Math.thy ===== *)
theory Ema_Math
  imports Rational_Math
begin

text \<open>
  Exponential moving averages (\<open>math/src/ema/math.rs\<close>), with the fractions they weigh by (\<open>math/src/fraction.rs\<close>) and
  the integer powers of fractions (\<open>math/src/transcendental.rs\<close>). A \<open>Fraction\<close> is a \<open>U1F127\<close> of the \<open>fixed\<close> library, modelled by
  its bits; the operations of that library are a parameter, the record \<open>fixed_ops\<close> with contract \<open>fixed_lib\<close>. The lemmas
  say that smoothing factors stay fractions and that an average lies between the values it averages.
\<close>

section \<open>Fractions\<close>

definition DIV :: nat where
  "DIV = 2 ^ 127"

record fixed_ops =
  fr_saturating_mul :: "nat \<Rightarrow> nat \<Rightarrow> nat"
  fr_checked_mul :: "nat \<Rightarrow> nat \<Rightarrow> nat option"
  fr_checked_mul_int :: "nat \<Rightarrow> nat \<Rightarrow> nat option"
  fr_checked_div_int :: "nat \<Rightarrow> nat \<Rightarrow> nat option"
  fr_checked_add :: "nat \<Rightarrow> nat \<Rightarrow> nat option"
  fr_checked_sub :: "nat \<Rightarrow> nat \<Rightarrow> nat option"

text \<open>A product of two numbers is truncated to the bits of the type.\<close>

locale fixed_lib =
  fixes F :: fixed_ops
  assumes fr_saturating_mul: "x \<le> umax 128 \<Longrightarrow> y \<le> umax 128 \<Longrightarrow> fr_saturating_mul F x y = min (umax 128) (x * y div DIV)"
    and fr_checked_mul: "x \<le> umax 128 \<Longrightarrow> y \<le> umax 128 \<Longrightarrow> fr_checked_mul F x y = narrow 128 (x * y div DIV)"
    and fr_checked_mul_int: "x \<le> umax 128 \<Longrightarrow> n \<le> umax 128 \<Longrightarrow> fr_checked_mul_int F x n = checked_mul 128 x n"
    and fr_checked_div_int: "x \<le> umax 128 \<Longrightarrow> n \<le> umax 128 \<Longrightarrow> fr_checked_div_int F x n = checked_div x n"
    and fr_checked_add: "x \<le> umax 128 \<Longrightarrow> y \<le> umax 128 \<Longrightarrow> fr_checked_add F x y = checked_add 128 x y"
    and fr_checked_sub: "x \<le> umax 128 \<Longrightarrow> y \<le> umax 128 \<Longrightarrow> fr_checked_sub F x y = checked_sub x y"

definition fraction_new :: "arith \<Rightarrow> nat \<Rightarrow> nat \<Rightarrow> nat" where
  "fraction_new A n d = (case mul_rational A Round_NearestPrefDown n DIV d of Some v \<Rightarrow> v | None \<Rightarrow> DIV)"

definition to_fixed :: "arith \<Rightarrow> nat \<Rightarrow> nat" where
  "to_fixed A f = (case mul_rational A Round_NearestPrefDown fx_one f DIV of Some v \<Rightarrow> v | None \<Rightarrow> DIV)"

definition from_fixed :: "arith \<Rightarrow> nat \<Rightarrow> nat" where
  "from_fixed A f = (case mul_rational A Round_NearestPrefDown f DIV fx_one of Some v \<Rightarrow> v | None \<Rightarrow> DIV)"

definition multiply_by_balance :: "arith \<Rightarrow> nat \<Rightarrow> balance \<Rightarrow> balance" where
  "multiply_by_balance A f b = (case mul_rational A Round_NearestPrefDown b f DIV of Some v \<Rightarrow> v | None \<Rightarrow> DIV)"

definition multiply_by_fixed :: "arith \<Rightarrow> nat \<Rightarrow> nat \<Rightarrow> nat" where
  "multiply_by_fixed A f x = (case mul_rational A Round_NearestPrefDown x f DIV of Some v \<Rightarrow> v | None \<Rightarrow> DIV)"

section \<open>Powers\<close>

text \<open>Square and multiply over the bits of the exponent, from the lowest to the highest that is set.\<close>

fun pow_loop :: "fixed_ops \<Rightarrow> nat \<Rightarrow> nat \<Rightarrow> nat \<Rightarrow> nat" where
  "pow_loop F exponent result pow_val =
     (if exponent = 0 then result
      else pow_loop F (exponent div 2) (if exponent mod 2 = 1 then fr_saturating_mul F result pow_val else result)
             (fr_saturating_mul F pow_val pow_val))"

declare pow_loop.simps [simp del]

definition saturating_pow :: "fixed_ops \<Rightarrow> nat \<Rightarrow> nat \<Rightarrow> nat" where
  "saturating_pow F operand exponent = pow_loop F exponent DIV operand"

text \<open>The terms of the series at one, with the positive and the negative ones summed apart.\<close>

primrec near_one_loop :: "fixed_ops \<Rightarrow> nat \<Rightarrow> nat \<Rightarrow> nat list \<Rightarrow> nat \<Rightarrow> nat \<Rightarrow> nat \<Rightarrow> nat option" where
  "near_one_loop F operand n [] t s_pos s_minus = None"
| "near_one_loop F operand n (i # is) t s_pos s_minus = do {
     one_minus_operand \<leftarrow> fr_checked_sub F DIV operand;
     b \<leftarrow> fr_checked_mul_int F one_minus_operand (n - i + 1);
     t_factor \<leftarrow> fr_checked_div_int F b i;
     t \<leftarrow> fr_checked_mul F t t_factor;
     s_pos \<leftarrow> (if i mod 2 = 0 \<or> DIV < operand then fr_checked_add F s_pos t else Some s_pos);
     s_minus \<leftarrow> (if i mod 2 = 0 \<or> DIV < operand then Some s_minus else fr_checked_add F s_minus t);
     if n \<le> i \<or> t = 0 then fr_checked_sub F s_pos s_minus else near_one_loop F operand n is t s_pos s_minus
   }"

definition powi_near_one :: "fixed_ops \<Rightarrow> nat \<Rightarrow> nat \<Rightarrow> nat option" where
  "powi_near_one F operand n =
     (if n = 0 then Some DIV
      else if n = 1 then Some operand
      else do {
        one_minus_operand \<leftarrow> fr_checked_sub F DIV operand;
        q \<leftarrow> fr_checked_div_int F DIV n;
        if q \<le> one_minus_operand then None else near_one_loop F operand n [1..<32] DIV DIV 0
      })"

text \<open>\<open>boundary\<close> is a tenth; the \<open>expect\<close> on it cannot fail.\<close>

definition saturating_powi_high_precision :: "fixed_ops \<Rightarrow> nat \<Rightarrow> nat \<Rightarrow> nat" where
  "saturating_powi_high_precision F operand n =
     (if operand = 0 then 0
      else if n = 0 then DIV
      else if n = 1 then operand
      else
        let boundary = the (fr_checked_div_int F DIV 10) in
        case (fr_checked_div_int F boundary n, fr_checked_sub F DIV operand) of
          (Some b, Some one_minus_operand) \<Rightarrow>
            if one_minus_operand < b
            then (case powi_near_one F operand n of Some v \<Rightarrow> v | None \<Rightarrow> saturating_pow F operand n)
            else saturating_pow F operand n
        | _ \<Rightarrow> saturating_pow F operand n)"

text \<open>Smoothing factors are at most one, so that the complement does not underflow.\<close>

definition exp_smoothing :: "fixed_ops \<Rightarrow> nat \<Rightarrow> nat \<Rightarrow> nat" where
  "exp_smoothing F smoothing iterations =
     (let complement = DIV - smoothing;
          exp_complement = saturating_powi_high_precision F complement iterations
      in DIV - exp_complement)"

definition smoothing_from_period :: "arith \<Rightarrow> nat \<Rightarrow> nat" where
  "smoothing_from_period A period = fraction_new A 2 (saturating_add 128 (max period 1) 1)"

section \<open>Weighted averages of balances\<close>

type_synonym ema_volume = "balance \<times> balance \<times> balance \<times> balance"
type_synonym ema_liquidity = "balance \<times> balance"
type_synonym ema_data = "ratio \<times> ema_volume \<times> ema_liquidity \<times> balance option"

definition balance_weighted_average :: "arith \<Rightarrow> balance \<Rightarrow> balance \<Rightarrow> nat \<Rightarrow> balance" where
  "balance_weighted_average A prev incoming weight =
     (if prev \<le> incoming then prev + multiply_by_balance A weight (incoming - prev)
      else prev - multiply_by_balance A weight (prev - incoming))"

fun volume_weighted_average :: "arith \<Rightarrow> ema_volume \<Rightarrow> ema_volume \<Rightarrow> nat \<Rightarrow> ema_volume" where
  "volume_weighted_average A (prev_a_in, prev_b_out, prev_a_out, prev_b_in) (a_in, b_out, a_out, b_in) weight =
     (balance_weighted_average A prev_a_in a_in weight, balance_weighted_average A prev_b_out b_out weight,
      balance_weighted_average A prev_a_out a_out weight, balance_weighted_average A prev_b_in b_in weight)"

fun liquidity_weighted_average :: "arith \<Rightarrow> ema_liquidity \<Rightarrow> ema_liquidity \<Rightarrow> nat \<Rightarrow> ema_liquidity" where
  "liquidity_weighted_average A (prev_a, prev_b) (a, b) weight =
     (balance_weighted_average A prev_a a weight, balance_weighted_average A prev_b b weight)"

section \<open>Weighted averages of prices\<close>

definition ema_saturating_sub :: "ratio \<Rightarrow> ratio \<Rightarrow> nat \<times> nat" where
  "ema_saturating_sub l r =
     (if ratio_n l = 0 \<or> ratio_n r = 0 then (ratio_n l, ratio_d l)
      else (saturating_sub (ratio_n l * ratio_d r) (ratio_n r * ratio_d l), ratio_d l * ratio_d r))"

definition ema_multiply :: "nat \<Rightarrow> nat \<times> nat \<Rightarrow> nat \<times> nat" where
  "ema_multiply f r =
     (case r of (r_n, r_d) \<Rightarrow>
        if f = 0 \<or> r_n = 0 then (0, 1) else if f = DIV then (r_n, r_d) else (r_n * f, r_d * DIV))"

definition ema_round :: "nat \<times> nat \<Rightarrow> rat_rounding \<Rightarrow> nat \<times> nat" where
  "ema_round q rounding =
     (let (n, d) = q;
          shift = saturating_sub (max (bits n) (bits d)) 383
      in if 0 < shift
         then let min_n = (if n = 0 then 0 else 1);
                  (bias_n, bias_d) = to_bias rounding 1
              in (max (saturating_add 512 (n div 2 ^ shift) bias_n) min_n, max (saturating_add 512 (d div 2 ^ shift) bias_d) 1)
         else (n, d))"

definition ema_round_to_rational :: "nat \<times> nat \<Rightarrow> rat_rounding \<Rightarrow> ratio" where
  "ema_round_to_rational q rounding =
     (let (n, d) = q;
          shift = saturating_sub (max (bits n) (bits d)) 128;
          (n, d) = (if 0 < shift
            then let min_n = (if n = 0 then 0 else 1);
                     (bias_n, bias_d) = to_bias rounding 1;
                     shifted_n = low_u128 (n div 2 ^ shift);
                     shifted_d = low_u128 (d div 2 ^ shift)
                 in (max (saturating_add 128 shifted_n bias_n) min_n, max (saturating_add 128 shifted_d bias_d) 1)
            else (low_u128 n, low_u128 d))
      in ratio_new n d)"

definition rounding_add :: "ratio \<Rightarrow> nat \<times> nat \<Rightarrow> rat_rounding \<Rightarrow> ratio" where
  "rounding_add l r rounding =
     (if ratio_is_zero l then ema_round_to_rational r Rat_Nearest
      else if fst r = 0 then l
      else
        let (r_n, r_d) = ema_round r rounding;
            n = saturating_add 512 (saturating_mul 512 (ratio_n l) r_d) (saturating_mul 512 r_n (ratio_d l));
            d = saturating_mul 512 (ratio_d l) r_d
        in ema_round_to_rational (n, d) rounding)"

definition rounding_sub :: "ratio \<Rightarrow> nat \<times> nat \<Rightarrow> rat_rounding \<Rightarrow> ratio" where
  "rounding_sub l r rounding =
     (if ratio_is_zero l \<or> fst r = 0 then l
      else
        let (r_n, r_d) = ema_round r rounding;
            n = saturating_sub (saturating_mul 512 (ratio_n l) r_d) (saturating_mul 512 r_n (ratio_d l));
            d = saturating_mul 512 (ratio_d l) r_d
        in ema_round_to_rational (n, d) rounding)"

definition price_weighted_average :: "ratio \<Rightarrow> ratio \<Rightarrow> nat \<Rightarrow> ratio" where
  "price_weighted_average prev incoming weight =
     (if \<not> ratio_less incoming prev
      then rounding_add prev (ema_multiply weight (ema_saturating_sub incoming prev)) Rat_Down
      else rounding_sub prev (ema_multiply weight (ema_saturating_sub prev incoming)) Rat_Up)"

section \<open>Averages over time\<close>

definition shares_weighted_average :: "arith \<Rightarrow> balance option \<Rightarrow> balance option \<Rightarrow> nat \<Rightarrow> balance option" where
  "shares_weighted_average A prev incoming weight =
     map_option (\<lambda>incoming_s. balance_weighted_average A (case prev of Some s \<Rightarrow> s | None \<Rightarrow> 0) incoming_s weight) incoming"

fun ema_integrate_incoming :: "arith \<Rightarrow> ema_data \<Rightarrow> ema_data \<Rightarrow> nat \<Rightarrow> ema_data" where
  "ema_integrate_incoming A (prev_price, prev_volume, prev_liquidity, shares) (in_price, in_volume, in_liquidity, in_shares) smoothing =
     (price_weighted_average prev_price in_price smoothing, volume_weighted_average A prev_volume in_volume smoothing,
      liquidity_weighted_average A prev_liquidity in_liquidity smoothing, shares_weighted_average A shares in_shares smoothing)"

fun ema_update_outdated :: "arith \<Rightarrow> fixed_ops \<Rightarrow> nat \<Rightarrow> ema_data \<Rightarrow> ratio \<times> ema_liquidity \<times> balance option \<Rightarrow> nat \<Rightarrow> ema_data" where
  "ema_update_outdated A F iterations (prev_price, prev_volume, prev_liquidity, prev_shares) (in_price, in_liquidity, in_shares) smoothing =
     (let smoothing = exp_smoothing F smoothing iterations in
      (price_weighted_average prev_price in_price smoothing, volume_weighted_average A prev_volume (0, 0, 0, 0) smoothing,
       liquidity_weighted_average A prev_liquidity in_liquidity smoothing, shares_weighted_average A prev_shares in_shares smoothing))"

definition iterated_price_ema :: "fixed_ops \<Rightarrow> nat \<Rightarrow> ratio \<Rightarrow> ratio \<Rightarrow> nat \<Rightarrow> ratio" where
  "iterated_price_ema F iterations prev incoming smoothing = price_weighted_average prev incoming (exp_smoothing F smoothing iterations)"

definition iterated_balance_ema :: "arith \<Rightarrow> fixed_ops \<Rightarrow> nat \<Rightarrow> balance \<Rightarrow> balance \<Rightarrow> nat \<Rightarrow> balance" where
  "iterated_balance_ema A F iterations prev incoming smoothing =
     balance_weighted_average A prev incoming (exp_smoothing F smoothing iterations)"

definition iterated_volume_ema :: "arith \<Rightarrow> fixed_ops \<Rightarrow> nat \<Rightarrow> ema_volume \<Rightarrow> nat \<Rightarrow> ema_volume" where
  "iterated_volume_ema A F iterations prev smoothing = volume_weighted_average A prev (0, 0, 0, 0) (exp_smoothing F smoothing iterations)"

definition iterated_liquidity_ema :: "arith \<Rightarrow> fixed_ops \<Rightarrow> nat \<Rightarrow> ema_liquidity \<Rightarrow> ema_liquidity \<Rightarrow> nat \<Rightarrow> ema_liquidity" where
  "iterated_liquidity_ema A F iterations prev incoming smoothing =
     liquidity_weighted_average A prev incoming (exp_smoothing F smoothing iterations)"

section \<open>Powers of fractions are fractions\<close>

lemma DIV_pos [simp]: "0 < DIV" "DIV \<noteq> 0"
  by (simp_all add: DIV_def)

lemma DIV_u128: "x \<le> DIV \<Longrightarrow> x \<le> umax 128"
  by (simp add: DIV_def umax_def)

lemma div_DIV_le: "y \<le> DIV \<Longrightarrow> x * y div DIV \<le> x"
  by (rule div_le_if_mult) simp_all

context fixed_lib
begin

lemma mul_fraction: "x \<le> DIV \<Longrightarrow> y \<le> DIV \<Longrightarrow> fr_saturating_mul F x y \<le> DIV"
  using div_DIV_le [of y x] by (simp add: fr_saturating_mul DIV_u128)

lemma pow_loop_fraction: "result \<le> DIV \<Longrightarrow> v \<le> DIV \<Longrightarrow> pow_loop F n result v \<le> DIV"
proof (induction n arbitrary: result v rule: less_induct)
  case (less n)
  show ?case
    using less.IH [of "n div 2"] less.prems by (subst pow_loop.simps) (simp add: mul_fraction)
qed

text \<open>
  The partial sums of the series alternate around the power and stay at most one: the term added at an even index is
  at most the one subtracted before it.
\<close>

lemma near_one_fraction:
  assumes "near_one_loop F operand n [i..<k] t p q = Some v" "operand \<le> DIV" "(DIV - operand) * n \<le> DIV" "0 < i" "i \<le> n"
    "t \<le> DIV" "p \<le> umax 128" "q \<le> umax 128" "p + (if i mod 2 = 0 then t else 0) \<le> DIV + q" "n \<le> umax 128"
  shows "v \<le> DIV"
  using assms(1,4-9)
proof (induction "k - i" arbitrary: i t p q)
  case 0
  then show ?case by simp
next
  case (Suc m)
  define B where "B = (DIV - operand) * Suc (n - i)"
  have le: "B \<le> (DIV - operand) * n" unfolding B_def using Suc.prems(2,3) by (intro mult_le_mono2) simp
  have b: "B \<le> DIV" "B div i \<le> DIV" using order_trans [OF le assms(3)] by (auto intro: order_trans [OF div_le_dividend])
  define t' where "t' = t * (B div i) div DIV"
  have t': "t' \<le> t" unfolding t'_def using b(2) by (rule div_DIV_le)
  have upt: "[i..<k] = i # [Suc i..<k]" using Suc.hyps(2) by (simp add: upt_rec)
  have t'd: "t' \<le> DIV" using t' Suc.prems(4) by simp
  have "Suc (n - i) \<le> umax 128" "i \<le> umax 128" using Suc.prems(2,3) assms(10) by auto
  then have e: "fr_checked_sub F DIV operand = Some (DIV - operand)" "fr_checked_mul_int F (DIV - operand) (Suc (n - i)) = Some B"
      "fr_checked_div_int F B i = Some (B div i)" "fr_checked_mul F t (B div i) = Some t'"
      "fr_checked_add F p t' = (if p + t' \<le> umax 128 then Some (p + t') else None)"
      "fr_checked_add F q t' = (if q + t' \<le> umax 128 then Some (q + t') else None)"
    unfolding t'_def
    using b B_def t'd [unfolded t'_def] Suc.prems(2,4,5,6) assms(2) DIV_u128
    by (simp_all only: fr_checked_sub fr_checked_mul_int fr_checked_div_int fr_checked_mul fr_checked_add
        checked_sub_def checked_mul_def checked_div_def checked_add_def narrow_def diff_le_self simp_thms if_True if_False) auto
  define p' where "p' = (if i mod 2 = 0 then p + t' else p)"
  define q' where "q' = (if i mod 2 = 0 then q else q + t')"
  have eq: "near_one_loop F operand n [i..<k] t p q =
      (if p' \<le> umax 128 \<and> q' \<le> umax 128 then if n \<le> i \<or> t' = 0 then fr_checked_sub F p' q' else near_one_loop F operand n [Suc i..<k] t' p' q' else None)"
    unfolding upt p'_def q'_def using Suc.prems(5,6) assms(2) by (simp add: e) (simp add: fr_checked_add checked_add_def)
  have inv: "p' \<le> DIV + q'" "p' + (if Suc i mod 2 = 0 then t' else 0) \<le> DIV + q'"
    using Suc.prems(7) t' by (auto simp: p'_def q'_def mod_Suc split: if_splits)
  show ?case
  proof (cases "n \<le> i \<or> t' = 0")
    case True
    then show ?thesis using Suc.prems(1) inv(1) by (auto simp: eq fr_checked_sub checked_sub_def split: if_splits)
  next
    case False
    then show ?thesis
      using Suc.prems(1) Suc.hyps(1) [of "Suc i" t' p' q'] Suc.hyps(2) inv(2) t'd by (auto simp: eq split: if_splits)
  qed
qed

lemma powi_near_one_fraction:
  assumes "powi_near_one F operand n = Some v" "operand \<le> DIV" "n \<le> umax 128"
  shows "v \<le> DIV"
proof (cases "n = 0 \<or> n = 1")
  case True
  then show ?thesis using assms by (auto simp: powi_near_one_def)
next
  case False
  then have n: "DIV - operand < DIV div n" "near_one_loop F operand n [1..<32] DIV DIV 0 = Some v"
    using assms DIV_u128 [of DIV] DIV_u128 [OF assms(2)]
    by (auto simp: powi_near_one_def fr_checked_sub fr_checked_div_int checked_sub_def checked_div_def split: if_splits)
  have "(DIV - operand) * n \<le> DIV div n * n" using n(1) by simp
  then have "(DIV - operand) * n \<le> DIV" using div_mult_le [of DIV n] by linarith
  then show ?thesis using near_one_fraction [OF n(2) assms(2) _ _ _ _ _ _ _ assms(3)] False DIV_u128 [of DIV] by simp
qed

lemma power_fraction:
  assumes "x \<le> DIV" "n \<le> umax 128"
  shows "saturating_powi_high_precision F x n \<le> DIV"
proof -
  have "saturating_pow F x n \<le> DIV" using assms by (simp add: saturating_pow_def pow_loop_fraction)
  then show ?thesis
    using assms powi_near_one_fraction [of x n]
    by (auto simp: saturating_powi_high_precision_def Let_def split: option.splits)
qed

end

section \<open>Averages lie between\<close>

context sp_arith
begin

lemma multiply_by_balance_le:
  assumes "f \<le> DIV" "b \<le> umax 128"
  shows "multiply_by_balance A f b \<le> b"
proof -
  have le: "round_quot Round_NearestPrefDown (b * f) DIV \<le> b" using assms by (intro round_quot_le) simp_all
  then show ?thesis
    using assms DIV_u128 [OF assms(1)] DIV_u128 [of DIV] by (simp add: multiply_by_balance_def mul_rational narrow_def)
qed

lemma balance_average_between:
  assumes "w \<le> DIV" "p \<le> umax 128" "q \<le> umax 128"
  shows "min p q \<le> balance_weighted_average A p q w" "balance_weighted_average A p q w \<le> max p q"
proof -
  have "multiply_by_balance A w (q - p) \<le> q - p" "multiply_by_balance A w (p - q) \<le> p - q"
    using assms by (auto intro: multiply_by_balance_le)
  then show "min p q \<le> balance_weighted_average A p q w" "balance_weighted_average A p q w \<le> max p q"
    by (auto simp: balance_weighted_average_def)
qed

end

section \<open>The documented library, executable\<close>

definition std_fixed :: fixed_ops where
  "std_fixed = \<lparr>fr_saturating_mul = (\<lambda>x y. min (umax 128) (x * y div DIV)), fr_checked_mul = (\<lambda>x y. narrow 128 (x * y div DIV)),
     fr_checked_mul_int = checked_mul 128, fr_checked_div_int = checked_div, fr_checked_add = checked_add 128, fr_checked_sub = checked_sub\<rparr>"

interpretation std_frac: fixed_lib std_fixed
  by unfold_locales (simp_all add: std_fixed_def)

end
