(* ===== verification/Ordered_Map.thy ===== *)
theory Ordered_Map
  imports Main
begin

text \<open>
  \<open>BTreeMap\<close> and \<open>BoundedBTreeSet\<close> of the Rust libraries, in the order they are iterated in: lists whose keys are strictly
  increasing. The lemmas give the lookup after each operation and that the order is kept.
\<close>

definition keys_sorted :: "('k::linorder \<times> 'v) list \<Rightarrow> bool" where
  "keys_sorted m \<longleftrightarrow> sorted_wrt (<) (map fst m)"

definition bt_retain :: "('k \<Rightarrow> bool) \<Rightarrow> ('k \<times> 'v) list \<Rightarrow> ('k \<times> 'v) list" where
  "bt_retain P m = filter (\<lambda>p. P (fst p)) m"

definition bt_insert :: "'k::linorder \<Rightarrow> 'v \<Rightarrow> ('k \<times> 'v) list \<Rightarrow> ('k \<times> 'v) list" where
  "bt_insert k v m = bt_retain (\<lambda>x. x < k) m @ (k, v) # bt_retain (\<lambda>x. k < x) m"

definition bt_remove :: "'k \<Rightarrow> ('k \<times> 'v) list \<Rightarrow> ('k \<times> 'v) list" where
  "bt_remove k m = bt_retain (\<lambda>x. x \<noteq> k) m"

definition bts_try_insert :: "nat \<Rightarrow> 'k::linorder \<Rightarrow> 'k list \<Rightarrow> 'k list option" where
  "bts_try_insert bound k xs =
     (if k \<in> set xs then Some xs else if length xs < bound then Some (insort k xs) else None)"

lemma map_of_retain [simp]: "map_of (bt_retain P m) x = (if P x then map_of m x else None)"
  by (induction m) (auto simp: bt_retain_def)

lemma map_of_insert [simp]: "map_of (bt_insert k v m) = (map_of m)(k \<mapsto> v)"
  by (auto simp: bt_insert_def map_add_def fun_eq_iff split: option.splits)

lemma map_of_remove [simp]: "map_of (bt_remove k m) = (map_of m)(k := None)"
  by (auto simp: bt_remove_def fun_eq_iff)

lemma keys_sorted_retain [simp]: "keys_sorted m \<Longrightarrow> keys_sorted (bt_retain P m)"
  by (induction m) (auto simp: keys_sorted_def bt_retain_def)

lemma keys_sorted_insert [simp]: "keys_sorted m \<Longrightarrow> keys_sorted (bt_insert k v m)"
  using keys_sorted_retain [of m "\<lambda>x. x < k"] keys_sorted_retain [of m "\<lambda>x. k < x"]
  by (auto simp: keys_sorted_def bt_insert_def sorted_wrt_append bt_retain_def)

lemma keys_sorted_remove [simp]: "keys_sorted m \<Longrightarrow> keys_sorted (bt_remove k m)"
  by (simp add: bt_remove_def)

lemma keys_sorted_Nil [simp]: "keys_sorted []"
  by (simp add: keys_sorted_def)

lemma keys_sorted_distinct: "keys_sorted m \<Longrightarrow> distinct (map fst m)"
  by (simp add: keys_sorted_def strict_sorted_iff)

lemma set_bts_try_insert: "bts_try_insert n k xs = Some ys \<Longrightarrow> set ys = insert k (set xs)"
  by (auto simp: bts_try_insert_def set_insort_key split: if_splits)

lemma length_bts_try_insert: "bts_try_insert n k xs = Some ys \<Longrightarrow> length xs \<le> n \<Longrightarrow> length ys \<le> n"
  by (auto simp: bts_try_insert_def split: if_splits)

lemma keys_insert [simp]: "fst ` set (bt_insert k v m) = insert k (fst ` set m)"
  by (auto simp: bt_insert_def bt_retain_def image_iff)

lemma set_bt_insert: "x \<in> set (bt_insert k v m) \<Longrightarrow> x = (k, v) \<or> x \<in> set m"
  by (auto simp: bt_insert_def bt_retain_def)

lemma set_bt_retain: "x \<in> set (bt_retain P m) \<Longrightarrow> x \<in> set m"
  by (auto simp: bt_retain_def)

lemma set_bt_remove: "x \<in> set (bt_remove k m) \<Longrightarrow> x \<in> set m"
  by (simp add: bt_remove_def set_bt_retain)

lemma count_keys:
  assumes "keys_sorted m"
  shows "length (filter (\<lambda>(k, _). Q k) m) = card {k \<in> fst ` set m. Q k}"
proof -
  have "filter (\<lambda>(k, _). Q k) m = bt_retain Q m" by (auto simp: bt_retain_def intro: filter_cong)
  moreover have "card (set (map fst (bt_retain Q m))) = length (map fst (bt_retain Q m))"
    using assms by (intro distinct_card keys_sorted_distinct) simp
  moreover have "set (map fst (bt_retain Q m)) = {k \<in> fst ` set m. Q k}" by (auto simp: bt_retain_def)
  ultimately show ?thesis by simp
qed

end
