(* ===== verification/Ema_Oracle.thy ===== *)
theory Ema_Oracle
  imports Ema_Math Frame_Support Ordered_Map "HOL-Library.List_Lexorder" "HOL-Library.Product_Lexorder"
begin

text \<open>
  The oracle pallet (\<open>pallets/ema-oracle/src/{lib,types}.rs\<close>, with the types of \<open>traits/src/oracle.rs\<close>): trades and
  liquidity changes of a block are accumulated per source and pair, and merged at the end of the block into one moving
  average per period. Values are brought up to date when they are read. The storage is the record \<open>ema\<close>, with the
  number of the current block; one definition per function of the pallet.
\<close>

section \<open>Types\<close>

type_synonym oracle_source = "nat list"
type_synonym oracle_key = "oracle_source \<times> asset_id \<times> asset_id"

datatype oracle_period = LastBlock | Short | TenMinutes | Hour | Day | Week

definition all_periods :: "oracle_period list" where
  "all_periods = [LastBlock, Short, TenMinutes, Hour, Day, Week]"

definition BIFROST_SOURCE :: oracle_source where
  "BIFROST_SOURCE = [98, 105, 102, 114, 111, 115, 116, 111]"

fun into_smoothing :: "oracle_period \<Rightarrow> nat" where
  "into_smoothing LastBlock = 170141183460469231731687303715884105728"
| "into_smoothing Short = 16203922234330403022065457496750867212"
| "into_smoothing TenMinutes = 3369132345751865974884897103284833777"
| "into_smoothing Hour = 566193622164623067326746434994622648"
| "into_smoothing Day = 23629079016800115510268356880200556"
| "into_smoothing Week = 3375783642235081630771268215908257"

record volume =
  vol_a_in :: balance
  vol_b_out :: balance
  vol_a_out :: balance
  vol_b_in :: balance

definition volume_default :: volume where
  "volume_default = \<lparr>vol_a_in = 0, vol_b_out = 0, vol_a_out = 0, vol_b_in = 0\<rparr>"

definition from_a_in_b_out :: "balance \<Rightarrow> balance \<Rightarrow> volume" where
  "from_a_in_b_out a_in b_out = \<lparr>vol_a_in = a_in, vol_b_out = b_out, vol_a_out = 0, vol_b_in = 0\<rparr>"

definition from_a_out_b_in :: "balance \<Rightarrow> balance \<Rightarrow> volume" where
  "from_a_out_b_in a_out b_in = \<lparr>vol_a_in = 0, vol_b_out = 0, vol_a_out = a_out, vol_b_in = b_in\<rparr>"

definition volume_saturating_add :: "volume \<Rightarrow> volume \<Rightarrow> volume" where
  "volume_saturating_add l r = \<lparr>vol_a_in = saturating_add 128 (vol_a_in l) (vol_a_in r), vol_b_out = saturating_add 128 (vol_b_out l) (vol_b_out r),
     vol_a_out = saturating_add 128 (vol_a_out l) (vol_a_out r), vol_b_in = saturating_add 128 (vol_b_in l) (vol_b_in r)\<rparr>"

definition cumulative_volume :: "volume \<Rightarrow> balance \<times> balance" where
  "cumulative_volume v = (saturating_add 128 (vol_a_in v) (vol_a_out v), saturating_add 128 (vol_b_out v) (vol_b_in v))"

definition volume_inverted :: "volume \<Rightarrow> volume" where
  "volume_inverted v = \<lparr>vol_a_in = vol_b_in v, vol_b_out = vol_a_out v, vol_a_out = vol_b_out v, vol_b_in = vol_a_in v\<rparr>"

definition volume_of_tuple :: "ema_volume \<Rightarrow> volume" where
  "volume_of_tuple t = (case t of (a_in, b_out, a_out, b_in) \<Rightarrow> \<lparr>vol_a_in = a_in, vol_b_out = b_out, vol_a_out = a_out, vol_b_in = b_in\<rparr>)"

definition volume_tuple :: "volume \<Rightarrow> ema_volume" where
  "volume_tuple v = (vol_a_in v, vol_b_out v, vol_a_out v, vol_b_in v)"

record liquidity =
  liq_a :: balance
  liq_b :: balance

definition liquidity_inverted :: "liquidity \<Rightarrow> liquidity" where
  "liquidity_inverted l = \<lparr>liq_a = liq_b l, liq_b = liq_a l\<rparr>"

record oracle_entry =
  oe_price :: ratio
  oe_volume :: volume
  oe_liquidity :: liquidity
  oe_shares_issuance :: "balance option"
  oe_updated_at :: nat

record aggregated_entry =
  ag_price :: ratio
  ag_volume :: volume
  ag_liquidity :: liquidity
  ag_oracle_age :: nat
  ag_shares_issuance :: "balance option"

section \<open>Entries\<close>

definition into_aggregated :: "oracle_entry \<Rightarrow> nat \<Rightarrow> aggregated_entry" where
  "into_aggregated e initialized = \<lparr>ag_price = oe_price e, ag_volume = oe_volume e, ag_liquidity = oe_liquidity e,
     ag_oracle_age = saturating_sub (oe_updated_at e) initialized, ag_shares_issuance = oe_shares_issuance e\<rparr>"

definition raw_data :: "oracle_entry \<Rightarrow> ema_data" where
  "raw_data e = (oe_price e, volume_tuple (oe_volume e), (liq_a (oe_liquidity e), liq_b (oe_liquidity e)), oe_shares_issuance e)"

definition entry_inverted :: "oracle_entry \<Rightarrow> oracle_entry" where
  "entry_inverted e = e\<lparr>oe_price := ratio_inverted (oe_price e), oe_volume := volume_inverted (oe_volume e),
     oe_liquidity := liquidity_inverted (oe_liquidity e)\<rparr>"

definition accumulate_volume_and_update_from :: "oracle_entry \<Rightarrow> oracle_entry \<Rightarrow> oracle_entry" where
  "accumulate_volume_and_update_from e incoming = \<lparr>oe_price = oe_price incoming,
     oe_volume = volume_saturating_add (oe_volume incoming) (oe_volume e), oe_liquidity = oe_liquidity incoming,
     oe_shares_issuance = oe_shares_issuance incoming, oe_updated_at = oe_updated_at incoming\<rparr>"

definition fast_forward_to :: "oracle_entry \<Rightarrow> nat \<Rightarrow> oracle_entry" where
  "fast_forward_to e new_updated_at = e\<lparr>oe_updated_at := new_updated_at, oe_volume := volume_default\<rparr>"

definition with_added_volume_from :: "oracle_entry \<Rightarrow> oracle_entry \<Rightarrow> oracle_entry" where
  "with_added_volume_from e previous_entry = e\<lparr>oe_volume := volume_saturating_add (oe_volume previous_entry) (oe_volume e)\<rparr>"

definition entry_of_data :: "ema_data \<Rightarrow> nat \<Rightarrow> oracle_entry" where
  "entry_of_data d updated_at = (case d of (price, volume, (a, b), shares) \<Rightarrow>
     \<lparr>oe_price = price, oe_volume = volume_of_tuple volume, oe_liquidity = \<lparr>liq_a = a, liq_b = b\<rparr>,
      oe_shares_issuance = shares, oe_updated_at = updated_at\<rparr>)"

definition calculate_new_by_integrating_incoming :: "arith \<Rightarrow> oracle_entry \<Rightarrow> oracle_period \<Rightarrow> oracle_entry \<Rightarrow> oracle_entry option" where
  "calculate_new_by_integrating_incoming A e period incoming = do {
     d \<leftarrow> checked_sub (oe_updated_at incoming) (oe_updated_at e);
     if d \<noteq> 1 then None
     else if period = LastBlock then Some incoming
     else Some (entry_of_data (ema_integrate_incoming A (raw_data e) (raw_data incoming) (into_smoothing period)) (oe_updated_at incoming))
   }"

text \<open>\<open>saturated_into\<close> caps the number of blocks at \<open>u32::MAX\<close>.\<close>

definition calculate_current_from_outdated :: "arith \<Rightarrow> fixed_ops \<Rightarrow> oracle_entry \<Rightarrow> oracle_period \<Rightarrow> oracle_entry \<Rightarrow> oracle_entry option" where
  "calculate_current_from_outdated A F e period update_with = do {
     iterations \<leftarrow> checked_sub (oe_updated_at update_with) (oe_updated_at e);
     if iterations = 0 then None
     else if period = LastBlock then Some update_with
     else Some (entry_of_data
            (ema_update_outdated A F (min (umax 32) iterations) (raw_data e)
               (oe_price update_with, (liq_a (oe_liquidity update_with), liq_b (oe_liquidity update_with)), oe_shares_issuance update_with)
               (into_smoothing period))
            (oe_updated_at update_with))
   }"

definition ema_ordered_pair :: "asset_id \<Rightarrow> asset_id \<Rightarrow> asset_id \<times> asset_id" where
  "ema_ordered_pair asset_a asset_b = (if asset_a \<le> asset_b then (asset_a, asset_b) else (asset_b, asset_a))"

definition determine_normalized_price :: "asset_id \<Rightarrow> asset_id \<Rightarrow> ratio \<Rightarrow> ratio" where
  "determine_normalized_price a_in a_out price =
     (if ema_ordered_pair a_in a_out = (a_in, a_out) then price else ratio_inverted price)"

definition determine_normalized_volume :: "asset_id \<Rightarrow> asset_id \<Rightarrow> balance \<Rightarrow> balance \<Rightarrow> volume" where
  "determine_normalized_volume a_in a_out amount_in amount_out =
     (if ema_ordered_pair a_in a_out = (a_in, a_out) then from_a_in_b_out amount_in amount_out else from_a_out_b_in amount_out amount_in)"

definition determine_normalized_liquidity :: "asset_id \<Rightarrow> asset_id \<Rightarrow> balance \<Rightarrow> balance \<Rightarrow> liquidity" where
  "determine_normalized_liquidity a_in a_out liq_in liq_out =
     (if ema_ordered_pair a_in a_out = (a_in, a_out) then \<lparr>liq_a = liq_in, liq_b = liq_out\<rparr> else \<lparr>liq_a = liq_out, liq_b = liq_in\<rparr>)"

section \<open>Storage\<close>

datatype ema_error =
    TooManyUniqueEntries | OnTradeValueZero | OracleNotFound | AssetNotFound | SourceAlreadyRegistered | SourceNotFound
  | NotAuthorized | PriceIsZero

datatype oracle_error = NotPresent | SameAsset

datatype ema_event =
    AddedToWhitelist oracle_source "asset_id \<times> asset_id"
  | RemovedFromWhitelist oracle_source "asset_id \<times> asset_id"
  | OracleUpdated oracle_source "asset_id \<times> asset_id" "(oracle_period \<times> ratio) list"
  | ExternalSourceRegistered oracle_source
  | ExternalSourceRemoved oracle_source
  | AuthorizedAccountAdded oracle_source "asset_id \<times> asset_id" account_id
  | AuthorizedAccountRemoved oracle_source "asset_id \<times> asset_id" account_id

text \<open>
  What the pallet takes from the runtime: the two math libraries, the authority, the periods, the sources that are pools of
  the chain, the conversion of a location to an asset and the bound on entries.
\<close>

record ema_config =
  em_arith :: arith
  em_fixed :: fixed_ops
  em_authority :: "origin \<Rightarrow> bool"
  em_supported_periods :: "oracle_period list"
  em_internal_sources :: "oracle_source \<Rightarrow> bool"
  em_location_to_asset :: "nat \<Rightarrow> asset_id option"
  em_max_unique_entries :: nat

text \<open>\<open>registry_whitelist\<close> is the answer of the asset registry, the other half of the whitelist of the runtime.\<close>

record ema =
  accumulator :: "(oracle_key \<times> oracle_entry) list"
  oracles :: "oracle_key \<times> oracle_period \<rightharpoonup> oracle_entry \<times> nat"
  whitelisted_assets :: "oracle_key list"
  external_sources :: "oracle_source set"
  authorized_accounts :: "(oracle_key \<times> account_id) set"
  registry_whitelist :: "oracle_key \<Rightarrow> bool"
  em_block :: nat
  em_events :: "ema_event list"

type_synonym 'a ema_result = "ema_error dispatch_error + 'a"

definition em_deposit :: "ema_event \<Rightarrow> ema \<Rightarrow> ema" where
  "em_deposit e s = s\<lparr>em_events := em_events s @ [e]\<rparr>"

definition em_ensure_authority :: "ema_config \<Rightarrow> origin \<Rightarrow> unit ema_result" where
  "em_ensure_authority C orig = (if em_authority C orig then Inr () else Inl BadOrigin)"

definition oracle_whitelist :: "ema \<Rightarrow> oracle_key \<Rightarrow> bool" where
  "oracle_whitelist s t \<longleftrightarrow> registry_whitelist s t \<or> t \<in> set (whitelisted_assets s)"

section \<open>The accumulator\<close>

definition on_entry :: "ema_config \<Rightarrow> oracle_source \<Rightarrow> asset_id \<times> asset_id \<Rightarrow> oracle_entry \<Rightarrow> ema \<Rightarrow> ema option" where
  "on_entry C src assets entry s =
     (let is_internal_source = em_internal_sources C src in
      if \<not> oracle_whitelist s (src, assets) \<and> is_internal_source then Some s
      else case map_of (accumulator s) (src, assets) of
        Some e \<Rightarrow> Some (s\<lparr>accumulator := bt_insert (src, assets) (accumulate_volume_and_update_from e entry) (accumulator s)\<rparr>)
      | None \<Rightarrow>
          if is_internal_source \<and> em_max_unique_entries C \<le> length (filter (\<lambda>(key, _). em_internal_sources C (fst key)) (accumulator s))
          then None
          else Some (s\<lparr>accumulator := bt_insert (src, assets) entry (accumulator s)\<rparr>))"

definition em_on_trade :: "ema_config \<Rightarrow> oracle_source \<Rightarrow> asset_id \<times> asset_id \<Rightarrow> oracle_entry \<Rightarrow> ema \<Rightarrow> ema ema_result" where
  "em_on_trade C src assets entry s = ok_or (on_entry C src assets entry s) (Module TooManyUniqueEntries)"

definition em_on_liquidity_changed :: "ema_config \<Rightarrow> oracle_source \<Rightarrow> asset_id \<times> asset_id \<Rightarrow> oracle_entry \<Rightarrow> ema \<Rightarrow> ema ema_result" where
  "em_on_liquidity_changed C src assets entry s = ok_or (on_entry C src assets entry s) (Module TooManyUniqueEntries)"

definition handler_on_trade ::
    "ema_config \<Rightarrow> oracle_source \<Rightarrow> asset_id \<Rightarrow> asset_id \<Rightarrow> balance \<Rightarrow> balance \<Rightarrow> balance \<Rightarrow> balance \<Rightarrow> ratio \<Rightarrow> balance option \<Rightarrow> ema \<Rightarrow> ema ema_result" where
  "handler_on_trade C src asset_a asset_b amount_a amount_b liquidity_a liquidity_b price shares_issuance s =
     ensure (liquidity_a \<noteq> 0 \<and> liquidity_b \<noteq> 0) (Module OnTradeValueZero)
       (em_on_trade C src (ema_ordered_pair asset_a asset_b)
          \<lparr>oe_price = determine_normalized_price asset_a asset_b price,
           oe_volume = determine_normalized_volume asset_a asset_b amount_a amount_b,
           oe_liquidity = determine_normalized_liquidity asset_a asset_b liquidity_a liquidity_b,
           oe_shares_issuance = shares_issuance, oe_updated_at = em_block s\<rparr> s)"

definition handler_on_liquidity_changed ::
    "ema_config \<Rightarrow> oracle_source \<Rightarrow> asset_id \<Rightarrow> asset_id \<Rightarrow> balance \<Rightarrow> balance \<Rightarrow> balance \<Rightarrow> balance \<Rightarrow> ratio \<Rightarrow> balance option \<Rightarrow> ema \<Rightarrow> ema ema_result" where
  "handler_on_liquidity_changed C src asset_a asset_b amount_a amount_b liquidity_a liquidity_b price shares_issuance s =
     em_on_liquidity_changed C src (ema_ordered_pair asset_a asset_b)
       \<lparr>oe_price = determine_normalized_price asset_a asset_b price, oe_volume = volume_default,
        oe_liquidity = determine_normalized_liquidity asset_a asset_b liquidity_a liquidity_b,
        oe_shares_issuance = shares_issuance, oe_updated_at = em_block s\<rparr> s"

section \<open>Updating and reading\<close>

definition last_block_oracle :: "oracle_key \<Rightarrow> nat \<Rightarrow> ema \<Rightarrow> (oracle_entry \<times> nat) option" where
  "last_block_oracle key block s =
     map_option (\<lambda>(last_block, init). (if oe_updated_at last_block \<noteq> block then fast_forward_to last_block block else last_block, init))
       (oracles s (key, LastBlock))"

text \<open>
  The value of the mutating closure of \<open>update_oracle\<close> on an oracle that exists. Where a step fails the code warns and
  keeps the value (a debug build panics).
\<close>

definition update_existing :: "ema_config \<Rightarrow> oracle_key \<Rightarrow> oracle_period \<Rightarrow> oracle_entry \<Rightarrow> oracle_entry \<Rightarrow> ema \<Rightarrow> oracle_entry" where
  "update_existing C key period incoming prev s =
     (let parent = saturating_sub (em_block s) 1;
          caught_up = (if oe_updated_at prev < parent
            then case (do { (last_block, _) \<leftarrow> last_block_oracle key parent s;
                            calculate_current_from_outdated (em_arith C) (em_fixed C) prev period last_block }) of
                   Some e \<Rightarrow> e | None \<Rightarrow> prev
            else prev)
      in case calculate_new_by_integrating_incoming (em_arith C) caught_up period incoming of Some e \<Rightarrow> e | None \<Rightarrow> caught_up)"

definition update_oracle :: "ema_config \<Rightarrow> oracle_key \<Rightarrow> oracle_period \<Rightarrow> oracle_entry \<Rightarrow> ema \<Rightarrow> ratio \<times> ema" where
  "update_oracle C key period incoming s =
     (case oracles s (key, period) of
        None \<Rightarrow> (oe_price incoming, s\<lparr>oracles := (oracles s)((key, period) \<mapsto> (incoming, em_block s))\<rparr>)
      | Some (prev, init) \<Rightarrow>
          let e = update_existing C key period incoming prev s
          in (oe_price e, s\<lparr>oracles := (oracles s)((key, period) \<mapsto> (e, init))\<rparr>))"

primrec update_periods :: "ema_config \<Rightarrow> oracle_key \<Rightarrow> oracle_entry \<Rightarrow> oracle_period list \<Rightarrow> ema \<Rightarrow> (oracle_period \<times> ratio) list \<times> ema" where
  "update_periods C key entry [] s = ([], s)"
| "update_periods C key entry (p # ps) s =
     (let (price, s) = update_oracle C key p entry s;
          (updates, s) = update_periods C key entry ps s
      in ((p, price) # updates, s))"

text \<open>The last-block oracle is updated after the others, which are caught up with its old value.\<close>

primrec update_from_entries :: "ema_config \<Rightarrow> (oracle_key \<times> oracle_entry) list \<Rightarrow> ema \<Rightarrow> ema" where
  "update_from_entries C [] s = s"
| "update_from_entries C (x # xs) s =
     (let (key, entry) = x;
          (updates, s) = update_periods C key entry (filter (\<lambda>p. p \<noteq> LastBlock) (em_supported_periods C)) s;
          (price, s) = update_oracle C key LastBlock entry s
      in update_from_entries C xs (em_deposit (OracleUpdated (fst key) (snd key) ((LastBlock, price) # updates)) s))"

definition update_oracles_from_accumulator :: "ema_config \<Rightarrow> ema \<Rightarrow> ema" where
  "update_oracles_from_accumulator C s = update_from_entries C (accumulator s) (s\<lparr>accumulator := []\<rparr>)"

definition ema_on_finalize :: "ema_config \<Rightarrow> ema \<Rightarrow> ema" where
  "ema_on_finalize C s = update_oracles_from_accumulator C s"

definition get_updated_entry :: "ema_config \<Rightarrow> oracle_key \<Rightarrow> oracle_period \<Rightarrow> ema \<Rightarrow> (oracle_entry \<times> nat) option" where
  "get_updated_entry C key period s = do {
     let parent = saturating_sub (em_block s) 1;
     (last_block, last_block_init) \<leftarrow> last_block_oracle key parent s;
     if period = LastBlock then Some (last_block, last_block_init)
     else do {
       (entry, init) \<leftarrow> oracles s (key, period);
       e \<leftarrow> (if oe_updated_at entry < parent then calculate_current_from_outdated (em_arith C) (em_fixed C) entry period last_block
             else Some entry);
       Some (e, init)
     }
   }"

definition get_last_oracle_entry :: "oracle_source \<Rightarrow> asset_id \<times> asset_id \<Rightarrow> oracle_period \<Rightarrow> ema \<Rightarrow> (oracle_entry \<times> nat) option" where
  "get_last_oracle_entry src assets period s =
     map_option (\<lambda>(e, init). (if assets \<noteq> ema_ordered_pair (fst assets) (snd assets) then entry_inverted e else e, init))
       (oracles s ((src, ema_ordered_pair (fst assets) (snd assets)), period))"

definition get_entry :: "ema_config \<Rightarrow> asset_id \<Rightarrow> asset_id \<Rightarrow> oracle_period \<Rightarrow> oracle_source \<Rightarrow> ema \<Rightarrow> oracle_error + aggregated_entry" where
  "get_entry C asset_a asset_b period src s =
     (if asset_a = asset_b then Inl SameAsset
      else case get_updated_entry C (src, ema_ordered_pair asset_a asset_b) period s of
        None \<Rightarrow> Inl NotPresent
      | Some (e, initialized) \<Rightarrow>
          Inr (into_aggregated (if (asset_a, asset_b) \<noteq> ema_ordered_pair asset_a asset_b then entry_inverted e else e) initialized))"

definition get_price :: "ema_config \<Rightarrow> asset_id \<Rightarrow> asset_id \<Rightarrow> oracle_period \<Rightarrow> oracle_source \<Rightarrow> ema \<Rightarrow> oracle_error + ratio \<times> nat" where
  "get_price C asset_a asset_b period src s = tryR (get_entry C asset_a asset_b period src s) (\<lambda>e. Inr (ag_price e, ag_oracle_age e))"

definition get_raw_entry :: "oracle_source \<Rightarrow> asset_id \<Rightarrow> asset_id \<Rightarrow> oracle_period \<Rightarrow> ema \<Rightarrow> oracle_error + oracle_entry" where
  "get_raw_entry src asset_a asset_b period s =
     (if asset_a = asset_b then Inl SameAsset
      else let assets = ema_ordered_pair asset_a asset_b in
        case oracles s ((src, assets), period) of
          None \<Rightarrow> Inl NotPresent
        | Some (e, _) \<Rightarrow> Inr (if (asset_a, asset_b) = assets then e else entry_inverted e))"

section \<open>Genesis and calls\<close>

definition initial_entry :: "asset_id \<Rightarrow> asset_id \<Rightarrow> ratio \<Rightarrow> liquidity \<Rightarrow> balance option \<Rightarrow> oracle_entry" where
  "initial_entry asset_a asset_b price liquidity shares_issuance =
     (let e = \<lparr>oe_price = price, oe_volume = volume_default, oe_liquidity = liquidity, oe_shares_issuance = shares_issuance, oe_updated_at = 0\<rparr>
      in if ema_ordered_pair asset_a asset_b = (asset_a, asset_b) then e else entry_inverted e)"

primrec ema_genesis_build ::
    "ema_config \<Rightarrow> (oracle_source \<times> (asset_id \<times> asset_id) \<times> ratio \<times> liquidity \<times> balance option) list \<Rightarrow> ema \<Rightarrow> ema" where
  "ema_genesis_build C [] s = s"
| "ema_genesis_build C (x # xs) s =
     (case x of (src, (asset_a, asset_b), price, liquidity, shares_issuance) \<Rightarrow>
        ema_genesis_build C xs
          (snd (update_periods C (src, ema_ordered_pair asset_a asset_b) (initial_entry asset_a asset_b price liquidity shares_issuance)
                  (em_supported_periods C) s)))"

definition add_oracle :: "ema_config \<Rightarrow> origin \<Rightarrow> oracle_source \<Rightarrow> asset_id \<times> asset_id \<Rightarrow> ema \<Rightarrow> ema ema_result" where
  "add_oracle C orig src assets s =
     tryR (em_ensure_authority C orig) (\<lambda>_.
     let assets = ema_ordered_pair (fst assets) (snd assets) in
     tryR (ok_or (bts_try_insert (em_max_unique_entries C) (src, assets) (whitelisted_assets s)) (Module TooManyUniqueEntries)) (\<lambda>list.
     Inr (em_deposit (AddedToWhitelist src assets) (s\<lparr>whitelisted_assets := list\<rparr>))))"

primrec remove_periods :: "oracle_key \<Rightarrow> oracle_period list \<Rightarrow> ema \<Rightarrow> ema" where
  "remove_periods key [] s = s"
| "remove_periods key (p # ps) s =
     remove_periods key ps (s\<lparr>accumulator := bt_remove key (accumulator s), oracles := (oracles s)((key, p) := None)\<rparr>)"

definition remove_oracle :: "ema_config \<Rightarrow> origin \<Rightarrow> oracle_source \<Rightarrow> asset_id \<times> asset_id \<Rightarrow> ema \<Rightarrow> ema ema_result" where
  "remove_oracle C orig src assets s =
     tryR (em_ensure_authority C orig) (\<lambda>_.
     let assets = ema_ordered_pair (fst assets) (snd assets) in
     ensure ((src, assets) \<in> set (whitelisted_assets s)) (Module OracleNotFound) (
     let s = s\<lparr>whitelisted_assets := remove1 (src, assets) (whitelisted_assets s)\<rparr>;
         s = remove_periods (src, assets) (em_supported_periods C) s
     in Inr (em_deposit (RemovedFromWhitelist src assets) s)))"

definition do_set_oracle_inner ::
    "ema_config \<Rightarrow> account_id \<Rightarrow> oracle_source \<Rightarrow> asset_id \<Rightarrow> asset_id \<Rightarrow> balance \<times> balance \<Rightarrow> ema \<Rightarrow> ema ema_result" where
  "do_set_oracle_inner C who src asset_a asset_b price s =
     ensure (src \<in> external_sources s) (Module SourceNotFound) (
     ensure (fst price \<noteq> 0 \<and> snd price \<noteq> 0) (Module PriceIsZero) (
     let ordered = ema_ordered_pair asset_a asset_b in
     ensure (((src, ordered), who) \<in> authorized_accounts s) (Module NotAuthorized) (
     let e = \<lparr>oe_price = ratio_new (fst price) (snd price), oe_volume = volume_default, oe_liquidity = \<lparr>liq_a = 0, liq_b = 0\<rparr>,
              oe_shares_issuance = None, oe_updated_at = em_block s\<rparr>;
         entry = (if ordered = (asset_a, asset_b) then e else entry_inverted e)
     in ok_or (on_entry C src ordered entry s) (Module TooManyUniqueEntries))))"

definition do_set_oracle ::
    "ema_config \<Rightarrow> account_id \<Rightarrow> oracle_source \<Rightarrow> nat \<Rightarrow> nat \<Rightarrow> balance \<times> balance \<Rightarrow> ema \<Rightarrow> ema ema_result" where
  "do_set_oracle C who src location_a location_b price s =
     tryR (ok_or (em_location_to_asset C location_a) (Module AssetNotFound)) (\<lambda>asset_a.
     tryR (ok_or (em_location_to_asset C location_b) (Module AssetNotFound)) (\<lambda>asset_b.
     do_set_oracle_inner C who src asset_a asset_b price s))"

definition update_bifrost_oracle :: "ema_config \<Rightarrow> origin \<Rightarrow> nat \<Rightarrow> nat \<Rightarrow> balance \<times> balance \<Rightarrow> ema \<Rightarrow> ema ema_result" where
  "update_bifrost_oracle C orig location_a location_b price s =
     tryR (ensure_signed orig) (\<lambda>who. do_set_oracle C who BIFROST_SOURCE location_a location_b price s)"

definition set_external_oracle :: "ema_config \<Rightarrow> origin \<Rightarrow> oracle_source \<Rightarrow> nat \<Rightarrow> nat \<Rightarrow> balance \<times> balance \<Rightarrow> ema \<Rightarrow> ema ema_result" where
  "set_external_oracle C orig src location_a location_b price s =
     tryR (ensure_signed orig) (\<lambda>who. do_set_oracle C who src location_a location_b price s)"

definition set_external_oracle_by_ids :: "ema_config \<Rightarrow> origin \<Rightarrow> oracle_source \<Rightarrow> asset_id \<Rightarrow> asset_id \<Rightarrow> balance \<times> balance \<Rightarrow> ema \<Rightarrow> ema ema_result" where
  "set_external_oracle_by_ids C orig src asset_a asset_b price s =
     tryR (ensure_signed orig) (\<lambda>who. do_set_oracle_inner C who src asset_a asset_b price s)"

definition register_external_source :: "ema_config \<Rightarrow> origin \<Rightarrow> oracle_source \<Rightarrow> ema \<Rightarrow> ema ema_result" where
  "register_external_source C orig src s =
     tryR (em_ensure_authority C orig) (\<lambda>_.
     ensure (src \<notin> external_sources s) (Module SourceAlreadyRegistered) (
     Inr (em_deposit (ExternalSourceRegistered src) (s\<lparr>external_sources := insert src (external_sources s)\<rparr>))))"

text \<open>The limits of \<open>clear_prefix\<close> are \<open>u32::MAX\<close>, more than the rows there are.\<close>

definition remove_external_source :: "ema_config \<Rightarrow> origin \<Rightarrow> oracle_source \<Rightarrow> ema \<Rightarrow> ema ema_result" where
  "remove_external_source C orig src s =
     tryR (em_ensure_authority C orig) (\<lambda>_.
     ensure (src \<in> external_sources s) (Module SourceNotFound) (
     Inr (em_deposit (ExternalSourceRemoved src)
       (s\<lparr>external_sources := external_sources s - {src},
          authorized_accounts := Set.filter (\<lambda>(key, _). fst key \<noteq> src) (authorized_accounts s),
          oracles := (\<lambda>(key, p). if fst key = src then None else oracles s (key, p)),
          accumulator := bt_retain (\<lambda>key. fst key \<noteq> src) (accumulator s)\<rparr>))))"

definition add_authorized_account :: "ema_config \<Rightarrow> origin \<Rightarrow> oracle_source \<Rightarrow> asset_id \<times> asset_id \<Rightarrow> account_id \<Rightarrow> ema \<Rightarrow> ema ema_result" where
  "add_authorized_account C orig src assets account s =
     tryR (em_ensure_authority C orig) (\<lambda>_.
     ensure (src \<in> external_sources s) (Module SourceNotFound) (
     let pair = ema_ordered_pair (fst assets) (snd assets) in
     Inr (em_deposit (AuthorizedAccountAdded src pair account)
       (s\<lparr>authorized_accounts := insert ((src, pair), account) (authorized_accounts s)\<rparr>))))"

definition remove_authorized_account :: "ema_config \<Rightarrow> origin \<Rightarrow> oracle_source \<Rightarrow> asset_id \<times> asset_id \<Rightarrow> account_id \<Rightarrow> ema \<Rightarrow> ema ema_result" where
  "remove_authorized_account C orig src assets account s =
     tryR (em_ensure_authority C orig) (\<lambda>_.
     ensure (src \<in> external_sources s) (Module SourceNotFound) (
     let pair = ema_ordered_pair (fst assets) (snd assets) in
     Inr (em_deposit (AuthorizedAccountRemoved src pair account)
       (s\<lparr>authorized_accounts := authorized_accounts s - {((src, pair), account)}\<rparr>))))"

section \<open>The runtime\<close>

text \<open>The sources that are pools of the chain and the periods it tracks (\<open>runtime/hydradx/src/assets.rs\<close>, \<open>primitives/src/constants.rs\<close>).\<close>

definition OMNIPOOL_SOURCE :: oracle_source where
  "OMNIPOOL_SOURCE = [111, 109, 110, 105, 112, 111, 111, 108]"

definition STABLESWAP_SOURCE :: oracle_source where
  "STABLESWAP_SOURCE = [115, 116, 97, 98, 108, 101, 115, 119]"

definition XYK_SOURCE :: oracle_source where
  "XYK_SOURCE = [104, 121, 100, 114, 97, 120, 121, 107]"

definition internal_oracle_sources :: "oracle_source \<Rightarrow> bool" where
  "internal_oracle_sources s \<longleftrightarrow> s = OMNIPOOL_SOURCE \<or> s = STABLESWAP_SOURCE \<or> s = XYK_SOURCE"

definition runtime_periods :: "oracle_period list" where
  "runtime_periods = [LastBlock, Short, TenMinutes, Day]"

definition std_ema :: ema_config where
  "std_ema = \<lparr>em_arith = std_arith, em_fixed = std_fixed, em_authority = (\<lambda>orig. orig = Root), em_supported_periods = runtime_periods,
     em_internal_sources = internal_oracle_sources, em_location_to_asset = (\<lambda>n. if n < 100 then Some n else None), em_max_unique_entries = 40\<rparr>"

end
