(* ===== verification/Issuance.thy ===== *)
theory Issuance
  imports Frame_Support
begin

text \<open>
  Total issuance on the ledger (\<open>orml_traits::MultiCurrency::total_issuance\<close>), third-party code: minting raises the issuance of an
  asset, burning lowers it, transfers keep it. The locale \<open>issuing_ledger\<close> is the contract; \<open>std_issuing\<close> is a ledger that meets it.
\<close>

record 'w issuing = "'w currency" +
  total_issuance :: "'w \<Rightarrow> asset_id \<Rightarrow> balance"

locale issuing_ledger =
  fixes C :: "('w, 'z) issuing_scheme"
  assumes transfer_issuance: "transfer C a src dst n w = Inr w' \<Longrightarrow> total_issuance C w' b = total_issuance C w b"
    and deposit_issuance:
      "deposit C a x n w = Inr w' \<Longrightarrow> total_issuance C w' b = total_issuance C w b + (if b = a then n else 0)"
    and withdraw_issuance:
      "withdraw C a x n w = Inr w' \<Longrightarrow> total_issuance C w' b = total_issuance C w b - (if b = a then n else 0)"
    and withdraw_issued: "withdraw C a x n w = Inr w' \<Longrightarrow> n \<le> total_issuance C w a"

section \<open>A ledger that counts its issuance\<close>

record issue_world =
  iw_ledger :: ledger
  iw_issued :: "asset_id \<Rightarrow> balance"

definition iw_transfer :: "asset_id \<Rightarrow> account_id \<Rightarrow> account_id \<Rightarrow> balance \<Rightarrow> issue_world \<Rightarrow> nat + issue_world" where
  "iw_transfer a src dst n w = tryR (ledger_transfer a src dst n (iw_ledger w)) (\<lambda>l. Inr (w\<lparr>iw_ledger := l\<rparr>))"

definition iw_deposit :: "asset_id \<Rightarrow> account_id \<Rightarrow> balance \<Rightarrow> issue_world \<Rightarrow> nat + issue_world" where
  "iw_deposit a x n w = tryR (ledger_deposit a x n (iw_ledger w)) (\<lambda>l.
     Inr (w\<lparr>iw_ledger := l, iw_issued := (iw_issued w)(a := iw_issued w a + n)\<rparr>))"

definition iw_withdraw :: "asset_id \<Rightarrow> account_id \<Rightarrow> balance \<Rightarrow> issue_world \<Rightarrow> nat + issue_world" where
  "iw_withdraw a x n w = tryR (ledger_withdraw a x n (iw_ledger w)) (\<lambda>l.
     if n \<le> iw_issued w a then Inr (w\<lparr>iw_ledger := l, iw_issued := (iw_issued w)(a := iw_issued w a - n)\<rparr>) else Inl 3)"

definition std_issuing :: "issue_world issuing" where
  "std_issuing = \<lparr>free_balance = (\<lambda>w. ledger_free (iw_ledger w)), total_balance = (\<lambda>w. ledger_free (iw_ledger w)),
     can_withdraw = (\<lambda>w a x n. n \<le> ledger_free (iw_ledger w) a x), transfer = iw_transfer, deposit = iw_deposit, withdraw = iw_withdraw,
     total_issuance = iw_issued\<rparr>"

lemma std_issuing_sel [simp]:
  "free_balance std_issuing w = ledger_free (iw_ledger w)" "transfer std_issuing = iw_transfer" "deposit std_issuing = iw_deposit"
  "withdraw std_issuing = iw_withdraw" "total_issuance std_issuing = iw_issued"
  by (simp_all add: std_issuing_def)

interpretation std_issue: issuing_ledger std_issuing
  by unfold_locales (auto simp: iw_transfer_def iw_deposit_def iw_withdraw_def res_iff split: if_splits)

text \<open>The balances of one account are those of the plain ledger.\<close>

interpretation std_issue_pool: pool_ledger std_issuing P for P
proof (unfold_locales, goal_cases)
  case (1 w a x)
  show ?case using std_ledger.free_balance_u128 [of "iw_ledger w" a x] by simp
next
  case (2 a src dst n w w' b)
  then obtain l where "ledger_transfer a src dst n (iw_ledger w) = Inr l" "w' = w\<lparr>iw_ledger := l\<rparr>" by (auto simp: iw_transfer_def res_iff)
  with std_ledger.transfer_pool [of a src dst n "iw_ledger w" l b P] show ?case by simp
next
  case (3 a dst n w w')
  then show ?case using std_ledger.transfer_enough [of a P dst n "iw_ledger w"] by (auto simp: iw_transfer_def res_iff)
next
  case (4 a n w w' b)
  then show ?case using std_ledger.deposit_pool [of a P n "iw_ledger w" _ b] by (auto simp: iw_deposit_def res_iff)
next
  case (5 a n w w' b)
  then show ?case using std_ledger.withdraw_pool [of a P n "iw_ledger w" _ b] by (auto simp: iw_withdraw_def res_iff split: if_splits)
next
  case (6 a n w w')
  then show ?case using std_ledger.withdraw_enough [of a P n "iw_ledger w"] by (auto simp: iw_withdraw_def res_iff split: if_splits)
qed

lemma std_issuing_others:
  "iw_deposit a x n w = Inr w' \<Longrightarrow> x \<noteq> y \<Longrightarrow> ledger_free (iw_ledger w') b y = ledger_free (iw_ledger w) b y"
  "iw_withdraw a x n w = Inr w' \<Longrightarrow> x \<noteq> y \<Longrightarrow> ledger_free (iw_ledger w') b y = ledger_free (iw_ledger w) b y"
  by (auto simp: iw_deposit_def iw_withdraw_def res_iff ledger_deposit_free split: if_splits)
    (use ledger_withdraw_free in fastforce)

end
