(* ===== verification/Stableswap_Pallet.thy ===== *)
theory Stableswap_Pallet
  imports "HOL-Library.Word" Stableswap_Shares Ema_Oracle Broadcast Issuance
begin

text \<open>
  The stableswap pallet (\<open>pallets/stableswap/src/{lib,types}.rs\<close>): pools of two to five assets, each with an account of its own, a share
  token that is also the pool's identifier, an amplification that moves over blocks and pegs that follow an oracle. The storage is the
  record \<open>stableswap\<close>; one definition per helper and extrinsic. Registry, hooks, dusting whitelist and peg oracle are external. Debug
  assertions, which a release build drops, and the pallet's own events are left out.
\<close>

section \<open>Types\<close>

record pool_info =
  pi_assets :: "asset_id list"
  initial_amplification :: nat
  final_amplification :: nat
  initial_block :: nat
  final_block :: nat
  pi_fee :: nat

type_synonym peg_type = "balance \<times> balance"

datatype peg_source = Peg_Value peg_type | Peg_Oracle oracle_source oracle_period asset_id | Peg_MMOracle nat

record pool_peg_info =
  peg_sources :: "peg_source list"
  peg_updated_at :: nat
  max_peg_update :: nat
  current_pegs :: "peg_type list"

record pool_snapshot =
  ps_assets :: "asset_id list"
  ps_reserves :: "stable_reserve list"
  ps_amplification :: nat
  ps_fee :: nat
  ps_block_fee :: nat
  ps_pegs :: "peg_type list"
  ps_share_issuance :: balance

record pool_state =
  pst_assets :: "asset_id list"
  pst_before :: "balance list"
  pst_after :: "balance list"
  pst_delta :: "balance list"
  pst_issuance_before :: balance
  pst_issuance_after :: balance
  pst_share_prices :: "(balance \<times> balance) list"

text \<open>The errors of the pallet; \<open>Stable_Panicked\<close> stands for a panic of the fixed-point library, which has no error value.\<close>

datatype stable_error =
    IncorrectAssets | MaxAssetsExceeded | PoolNotFound | PoolExists | AssetNotInPool | ShareAssetNotRegistered | ShareAssetInPoolAssets
  | AssetNotRegistered | InvalidAssetAmount | InsufficientBalance | InsufficientShares | Stable_InsufficientLiquidity
  | InsufficientLiquidityRemaining | Stable_InsufficientTradingAmount | BuyLimitNotReached | SellLimitExceeded | InvalidInitialLiquidity
  | InvalidAmplification | InsufficientShareBalance | Stable_NotAllowed | PastBlock | SameAmplification | Stable_SlippageLimit
  | UnknownDecimals | IncorrectInitialPegs | MissingTargetPegOracle | IncorrectAssetDecimals | NoPegSource | ZeroAmountOut | ZeroAmountIn
  | InvariantError | InsufficientShareIssuance | UnaccountedShareIssuance
  | Stable_Panicked

type_synonym stable_flags = "8 word"

definition STABLE_SELL :: stable_flags where "STABLE_SELL = 1"
definition STABLE_BUY :: stable_flags where "STABLE_BUY = 2"
definition STABLE_ADD_LIQUIDITY :: stable_flags where "STABLE_ADD_LIQUIDITY = 4"
definition STABLE_REMOVE_LIQUIDITY :: stable_flags where "STABLE_REMOVE_LIQUIDITY = 8"

unbundle bit_operations_syntax

definition stable_flags_default :: stable_flags where
  "stable_flags_default = STABLE_SELL OR STABLE_BUY OR STABLE_ADD_LIQUIDITY OR STABLE_REMOVE_LIQUIDITY"

definition flags_contain :: "stable_flags \<Rightarrow> stable_flags \<Rightarrow> bool" where
  "flags_contain f g \<longleftrightarrow> f AND g = g"

definition MAX_ASSETS_IN_POOL :: nat where
  "MAX_ASSETS_IN_POOL = 5"

text \<open>
  The configuration: arithmetic, the block number of the world, the account of a pool, the asset registry, origins, hooks, the dusting
  whitelist, limits and the oracle of the pegs, which gives a price and the block of its last update.
\<close>

record 'w stable_config = "'w issuing" +
  sw_arith :: arith
  sw_now :: "'w \<Rightarrow> nat"
  pool_account :: "asset_id \<Rightarrow> account_id"
  sw_exists :: "'w \<Rightarrow> asset_id \<Rightarrow> bool"
  sw_decimals :: "'w \<Rightarrow> asset_id \<Rightarrow> nat option"
  sw_authority :: "origin \<Rightarrow> bool"
  sw_tradability_origin :: "origin \<Rightarrow> bool"
  sw_dust_add :: "account_id \<Rightarrow> 'w \<Rightarrow> nat + 'w"
  sw_dust_remove :: "account_id \<Rightarrow> 'w \<Rightarrow> nat + 'w"
  sw_on_liquidity_changed :: "asset_id \<Rightarrow> pool_state \<Rightarrow> 'w \<Rightarrow> nat + 'w"
  sw_on_trade :: "asset_id \<Rightarrow> asset_id \<Rightarrow> asset_id \<Rightarrow> pool_state \<Rightarrow> 'w \<Rightarrow> nat + 'w"
  sw_min_pool_liquidity :: balance
  sw_min_trading_limit :: balance
  amplification_range :: "nat \<times> nat"
  target_peg_oracle :: "'w \<Rightarrow> asset_id \<Rightarrow> peg_source \<Rightarrow> nat + peg_type \<times> nat"

record 'w stableswap =
  sw_pools :: "asset_id \<rightharpoonup> pool_info"
  sw_pegs :: "asset_id \<rightharpoonup> pool_peg_info"
  sw_tradability :: "asset_id \<times> asset_id \<Rightarrow> stable_flags"
  sw_snapshots :: "asset_id \<rightharpoonup> pool_snapshot"
  sw_block_fee :: "asset_id \<rightharpoonup> nat"
  share_issuance :: "asset_id \<Rightarrow> balance"
  sw_broadcast :: broadcast
  sw_world :: 'w

type_synonym 'a stable_result = "stable_error dispatch_error + 'a"

section \<open>Pools\<close>

definition find_asset :: "asset_id \<Rightarrow> asset_id list \<Rightarrow> nat option" where
  "find_asset a assets = (if a \<in> set assets then Some (length (takeWhile (\<lambda>v. v \<noteq> a) assets)) else None)"

definition pool_is_valid :: "pool_info \<Rightarrow> bool" where
  "pool_is_valid pool \<longleftrightarrow> 2 \<le> length (pi_assets pool) \<and> distinct (pi_assets pool)"

definition reserves_with_decimals :: "('w, 'z) stable_config_scheme \<Rightarrow> pool_info \<Rightarrow> account_id \<Rightarrow> 'w \<Rightarrow> stable_reserve list option" where
  "reserves_with_decimals C pool account w = those (map (\<lambda>asset. do {
     d \<leftarrow> sw_decimals C w asset;
     Some \<lparr>ar_amount = free_balance C w asset account, ar_decimals = d\<rparr>
   }) (pi_assets pool))"

definition with_new_pegs :: "pool_peg_info \<Rightarrow> peg_type list \<Rightarrow> nat \<Rightarrow> pool_peg_info" where
  "with_new_pegs info pegs at = info\<lparr>peg_updated_at := at, current_pegs := take MAX_ASSETS_IN_POOL pegs\<rparr>"

definition is_asset_allowed :: "asset_id \<Rightarrow> asset_id \<Rightarrow> stable_flags \<Rightarrow> 'w stableswap \<Rightarrow> bool" where
  "is_asset_allowed pool_id asset_id operation s = flags_contain (sw_tradability s (pool_id, asset_id)) operation"

definition get_amplification :: "('w, 'z) stable_config_scheme \<Rightarrow> pool_info \<Rightarrow> 'w \<Rightarrow> nat" where
  "get_amplification C pool w = calculate_amplification (initial_amplification pool) (final_amplification pool)
     (initial_block pool) (final_block pool) (sw_now C w)"

section \<open>Pegs\<close>

primrec raw_entries :: "('w, 'z) stable_config_scheme \<Rightarrow> 'w \<Rightarrow> (asset_id \<times> peg_source) list \<Rightarrow> (peg_type \<times> nat) list stable_result" where
  "raw_entries C w [] = Inr []"
| "raw_entries C w (x # xs) =
     (case target_peg_oracle C w (fst x) (snd x) of
        Inl _ \<Rightarrow> Inl (Module MissingTargetPegOracle)
      | Inr entry \<Rightarrow> tryR (raw_entries C w xs) (\<lambda>r. Inr (entry # r)))"

definition get_target_pegs :: "('w, 'z) stable_config_scheme \<Rightarrow> asset_id list \<Rightarrow> peg_source list \<Rightarrow> 'w \<Rightarrow> (peg_type \<times> nat) list stable_result" where
  "get_target_pegs C assets sources w =
     (if assets = [] then Inl (Module IncorrectAssets) else raw_entries C w (zip assets sources))"

definition get_updated_pegs :: "('w, 'z) stable_config_scheme \<Rightarrow> asset_id \<Rightarrow> pool_info \<Rightarrow> 'w stableswap \<Rightarrow> (nat \<times> peg_type list) stable_result" where
  "get_updated_pegs C pool_id pool s =
     (case sw_pegs s pool_id of
        None \<Rightarrow> Inr (pi_fee pool, replicate (length (pi_assets pool)) (1, 1))
      | Some peg_info \<Rightarrow>
          let current_block = sw_now C (sw_world s) in
          tryR (get_target_pegs C (pi_assets pool) (peg_sources peg_info) (sw_world s)) (\<lambda>target_pegs.
          if peg_updated_at peg_info = current_block
          then Inr (case sw_block_fee s pool_id of Some fee \<Rightarrow> fee | None \<Rightarrow> pi_fee pool, current_pegs peg_info)
          else ok_or (recalculate_pegs (sw_arith C) (current_pegs peg_info) (peg_updated_at peg_info) target_pegs current_block
                        (max_peg_update peg_info) (pi_fee pool)) (Arithmetic Arith_Overflow)))"

definition update_and_return_pegs_and_trade_fee ::
    "('w, 'z) stable_config_scheme \<Rightarrow> asset_id \<Rightarrow> pool_info \<Rightarrow> 'w stableswap \<Rightarrow> ((nat \<times> peg_type list) \<times> 'w stableswap) stable_result" where
  "update_and_return_pegs_and_trade_fee C pool_id pool s =
     tryR (get_updated_pegs C pool_id pool s) (\<lambda>(trade_fee, new_pegs).
     Inr ((trade_fee, new_pegs),
       (case sw_pegs s pool_id of
          None \<Rightarrow> s
        | Some peg_info \<Rightarrow> s\<lparr>sw_pegs := (sw_pegs s)(pool_id \<mapsto> with_new_pegs peg_info new_pegs (sw_now C (sw_world s))),
                            sw_block_fee := (sw_block_fee s)(pool_id \<mapsto> trade_fee)\<rparr>)))"

section \<open>Snapshots\<close>

definition create_snapshot :: "('w, 'z) stable_config_scheme \<Rightarrow> asset_id \<Rightarrow> 'w stableswap \<Rightarrow> pool_snapshot option" where
  "create_snapshot C pool_id s = do {
     pool \<leftarrow> sw_pools s pool_id;
     reserves \<leftarrow> reserves_with_decimals C pool (pool_account C pool_id) (sw_world s);
     (block_fee, asset_pegs) \<leftarrow> (case get_updated_pegs C pool_id pool s of Inl _ \<Rightarrow> None | Inr x \<Rightarrow> Some x);
     Some \<lparr>ps_assets = pi_assets pool, ps_reserves = take MAX_ASSETS_IN_POOL reserves,
           ps_amplification = get_amplification C pool (sw_world s), ps_fee = pi_fee pool, ps_block_fee = block_fee,
           ps_pegs = take MAX_ASSETS_IN_POOL asset_pegs, ps_share_issuance = share_issuance s pool_id\<rparr>
   }"

definition save_snapshot :: "('w, 'z) stable_config_scheme \<Rightarrow> asset_id \<Rightarrow> 'w stableswap \<Rightarrow> 'w stableswap" where
  "save_snapshot C pool_id s =
     (case sw_snapshots s pool_id of
        Some _ \<Rightarrow> s
      | None \<Rightarrow> (case create_snapshot C pool_id s of
                   Some snapshot \<Rightarrow> s\<lparr>sw_snapshots := (sw_snapshots s)(pool_id \<mapsto> snapshot)\<rparr>
                 | None \<Rightarrow> s))"

definition initial_pool_snapshot :: "('w, 'z) stable_config_scheme \<Rightarrow> asset_id \<Rightarrow> 'w stableswap \<Rightarrow> pool_snapshot option" where
  "initial_pool_snapshot C pool_id s =
     (case sw_snapshots s pool_id of Some snapshot \<Rightarrow> Some snapshot | None \<Rightarrow> create_snapshot C pool_id s)"

definition stable_on_finalize :: "'w stableswap \<Rightarrow> 'w stableswap" where
  "stable_on_finalize s = s\<lparr>sw_snapshots := Map.empty, sw_block_fee := Map.empty\<rparr>"

section \<open>Shares and checks\<close>

definition stable_mint_shares :: "('w, 'z) stable_config_scheme \<Rightarrow> asset_id \<Rightarrow> account_id \<Rightarrow> balance \<Rightarrow> 'w stableswap \<Rightarrow> 'w stableswap stable_result" where
  "stable_mint_shares C pool_id who amount s =
     tryR (ok_or (checked_add 128 (share_issuance s pool_id) amount) (Arithmetic Arith_Overflow)) (\<lambda>issuance.
     tryR (foreign (deposit C pool_id who amount (sw_world s))) (\<lambda>w.
     Inr (s\<lparr>share_issuance := (share_issuance s)(pool_id := issuance), sw_world := w\<rparr>)))"

definition stable_burn_shares :: "('w, 'z) stable_config_scheme \<Rightarrow> asset_id \<Rightarrow> account_id \<Rightarrow> balance \<Rightarrow> 'w stableswap \<Rightarrow> 'w stableswap stable_result" where
  "stable_burn_shares C pool_id who amount s =
     tryR (ok_or (checked_sub (share_issuance s pool_id) amount) (Module InsufficientShareIssuance)) (\<lambda>issuance.
     tryR (foreign (withdraw C pool_id who amount (sw_world s))) (\<lambda>w.
     Inr (s\<lparr>share_issuance := (share_issuance s)(pool_id := issuance), sw_world := w\<rparr>)))"

definition stable_transfer :: "('w, 'z) stable_config_scheme \<Rightarrow> asset_id \<Rightarrow> account_id \<Rightarrow> account_id \<Rightarrow> balance \<Rightarrow> 'w stableswap \<Rightarrow> 'w stableswap stable_result" where
  "stable_transfer C asset_id src dst amount s =
     tryR (foreign (transfer C asset_id src dst amount (sw_world s))) (\<lambda>w. Inr (s\<lparr>sw_world := w\<rparr>))"

definition ensure_issuance_in_sync :: "('w, 'z) stable_config_scheme \<Rightarrow> asset_id \<Rightarrow> 'w stableswap \<Rightarrow> unit stable_result" where
  "ensure_issuance_in_sync C pool_id s =
     ensure (total_issuance C (sw_world s) pool_id \<le> share_issuance s pool_id) (Module UnaccountedShareIssuance) (Inr ())"

definition get_pool_state ::
    "('w, 'z) stable_config_scheme \<Rightarrow> asset_id \<Rightarrow> stable_reserve list \<Rightarrow> balance option \<Rightarrow> 'w stableswap \<Rightarrow> pool_state stable_result" where
  "get_pool_state C pool_id initial_reserves initial_issuance s =
     tryR (ok_or (sw_pools s pool_id) (Module PoolNotFound)) (\<lambda>pool.
     let amplification = get_amplification C pool (sw_world s);
         issuance = share_issuance s pool_id in
     tryR (ok_or (reserves_with_decimals C pool (pool_account C pool_id) (sw_world s)) (Module UnknownDecimals)) (\<lambda>updated_reserves.
     tryR (get_updated_pegs C pool_id pool s) (\<lambda>(_, asset_pegs).
     tryR (ok_or (calculate_share_prices (sw_arith C) MAX_D_ITERATIONS updated_reserves amplification issuance asset_pegs)
             (Arithmetic Arith_Overflow)) (\<lambda>share_prices.
     Inr \<lparr>pst_assets = pi_assets pool, pst_before = map ar_amount initial_reserves, pst_after = map ar_amount updated_reserves,
           pst_delta = map (\<lambda>(initial, updated). abs_diff (ar_amount initial) (ar_amount updated)) (zip initial_reserves updated_reserves),
           pst_issuance_before = (case initial_issuance of Some n \<Rightarrow> n | None \<Rightarrow> issuance),
           pst_issuance_after = issuance, pst_share_prices = share_prices\<rparr>))))"

definition call_on_liquidity_change_hook ::
    "('w, 'z) stable_config_scheme \<Rightarrow> asset_id \<Rightarrow> stable_reserve list \<Rightarrow> balance \<Rightarrow> 'w stableswap \<Rightarrow> 'w stableswap stable_result" where
  "call_on_liquidity_change_hook C pool_id initial_reserves initial_issuance s =
     tryR (get_pool_state C pool_id initial_reserves (Some initial_issuance) s) (\<lambda>state.
     tryR (foreign (sw_on_liquidity_changed C pool_id state (sw_world s))) (\<lambda>w. Inr (s\<lparr>sw_world := w\<rparr>)))"

definition call_on_trade_hook ::
    "('w, 'z) stable_config_scheme \<Rightarrow> asset_id \<Rightarrow> asset_id \<Rightarrow> asset_id \<Rightarrow> stable_reserve list \<Rightarrow> 'w stableswap \<Rightarrow> 'w stableswap stable_result" where
  "call_on_trade_hook C pool_id asset_in asset_out initial_reserves s =
     tryR (get_pool_state C pool_id initial_reserves None s) (\<lambda>state.
     tryR (foreign (sw_on_trade C pool_id asset_in asset_out state (sw_world s))) (\<lambda>w. Inr (s\<lparr>sw_world := w\<rparr>)))"

text \<open>The computed invariants before and after an operation, both at the pegs and the amplification after it.\<close>

definition invariants_around ::
    "('w, 'z) stable_config_scheme \<Rightarrow> asset_id \<Rightarrow> pool_info \<Rightarrow> stable_reserve list \<Rightarrow> 'w stableswap \<Rightarrow> (balance \<times> balance) stable_result" where
  "invariants_around C pool_id pool initial_reserves s =
     tryR (case get_updated_pegs C pool_id pool s of Inl _ \<Rightarrow> Inl (Module InvariantError) | Inr x \<Rightarrow> Inr x) (\<lambda>(_, asset_pegs).
     tryR (ok_or (reserves_with_decimals C pool (pool_account C pool_id) (sw_world s)) (Module InvariantError)) (\<lambda>final_reserves.
     let amplification = get_amplification C pool (sw_world s) in
     tryR (ok_or (calculate_d (sw_arith C) MAX_D_ITERATIONS initial_reserves amplification asset_pegs) (Module InvariantError)) (\<lambda>initial_d.
     tryR (ok_or (calculate_d (sw_arith C) MAX_D_ITERATIONS final_reserves amplification asset_pegs) (Module InvariantError)) (\<lambda>final_d.
     Inr (initial_d, final_d)))))"

text \<open>The invariant per share must not fall.\<close>

definition ensure_share_ratio :: "('w, 'z) stable_config_scheme \<Rightarrow> balance \<Rightarrow> balance \<Rightarrow> balance \<Rightarrow> balance \<Rightarrow> unit stable_result" where
  "ensure_share_ratio C initial_d initial_issuance final_d current_issuance =
     tryR (ok_or (fx_from_rational (sw_arith C) initial_d initial_issuance) (Module Stable_Panicked)) (\<lambda>initial_r.
     tryR (ok_or (fx_from_rational (sw_arith C) final_d current_issuance) (Module Stable_Panicked)) (\<lambda>final_r.
     ensure (initial_r \<le> final_r) (Module InvariantError) (Inr ())))"

definition ensure_add_liquidity_invariant ::
    "('w, 'z) stable_config_scheme \<Rightarrow> asset_id \<Rightarrow> stable_reserve list \<Rightarrow> balance \<Rightarrow> 'w stableswap \<Rightarrow> unit stable_result" where
  "ensure_add_liquidity_invariant C pool_id initial_reserves initial_issuance s =
     tryR (ensure_issuance_in_sync C pool_id s) (\<lambda>_.
     tryR (ok_or (sw_pools s pool_id) (Module InvariantError)) (\<lambda>pool.
     tryR (invariants_around C pool_id pool initial_reserves s) (\<lambda>(initial_d, final_d).
     ensure (initial_d \<le> final_d) (Module InvariantError) (
     if initial_issuance = 0 then Inr () else
     ensure (share_issuance s pool_id \<noteq> 0) (Module InvariantError) (
     ensure_share_ratio C initial_d initial_issuance final_d (share_issuance s pool_id))))))"

definition ensure_remove_liquidity_invariant ::
    "('w, 'z) stable_config_scheme \<Rightarrow> asset_id \<Rightarrow> stable_reserve list \<Rightarrow> balance \<Rightarrow> 'w stableswap \<Rightarrow> unit stable_result" where
  "ensure_remove_liquidity_invariant C pool_id initial_reserves initial_issuance s =
     tryR (ensure_issuance_in_sync C pool_id s) (\<lambda>_.
     case sw_pools s pool_id of None \<Rightarrow> Inr () | Some pool \<Rightarrow>
     tryR (invariants_around C pool_id pool initial_reserves s) (\<lambda>(initial_d, final_d).
     ensure (final_d \<le> initial_d) (Module InvariantError) (
     if share_issuance s pool_id = 0 then Inr () else
     ensure (initial_issuance \<noteq> 0) (Module InvariantError) (
     ensure_share_ratio C initial_d initial_issuance final_d (share_issuance s pool_id)))))"

definition stable_ensure_trade_invariant ::
    "('w, 'z) stable_config_scheme \<Rightarrow> asset_id \<Rightarrow> stable_reserve list \<Rightarrow> 'w stableswap \<Rightarrow> unit stable_result" where
  "stable_ensure_trade_invariant C pool_id initial_reserves s =
     tryR (ensure_issuance_in_sync C pool_id s) (\<lambda>_.
     tryR (ok_or (sw_pools s pool_id) (Module InvariantError)) (\<lambda>pool.
     tryR (invariants_around C pool_id pool initial_reserves s) (\<lambda>(initial_d, final_d).
     ensure (initial_d \<le> final_d) (Module InvariantError) (Inr ()))))"

definition stable_trade_event ::
    "('w, 'z) stable_config_scheme \<Rightarrow> account_id \<Rightarrow> asset_id \<Rightarrow> trade_operation \<Rightarrow> (asset_id \<times> balance) list \<Rightarrow> (asset_id \<times> balance) list \<Rightarrow>
     (asset_id \<times> balance) list \<Rightarrow> 'w stableswap \<Rightarrow> 'w stableswap" where
  "stable_trade_event C who pool_id operation inputs outputs fees s =
     s\<lparr>sw_broadcast := deposit_trade_event who (pool_account C pool_id) (Filler_Stableswap pool_id) operation inputs outputs
        (map (\<lambda>(asset, amount). \<lparr>fee_asset = asset, fee_amount = amount, fee_destination = Account (pool_account C pool_id)\<rparr>) fees)
        (sw_broadcast s)\<rparr>"

section \<open>Creation and parameters\<close>

definition do_create_pool ::
    "('w, 'z) stable_config_scheme \<Rightarrow> asset_id \<Rightarrow> asset_id list \<Rightarrow> nat \<Rightarrow> nat \<Rightarrow> pool_peg_info option \<Rightarrow> 'w stableswap \<Rightarrow> 'w stableswap stable_result" where
  "do_create_pool C share_asset assets amplification fee peg_info s =
     (let w = sw_world s in
      ensure (sw_pools s share_asset = None) (Module PoolExists) (
      ensure (sw_exists C w share_asset) (Module ShareAssetNotRegistered) (
      ensure (share_asset \<notin> set assets) (Module ShareAssetInPoolAssets) (
      let block_number = sw_now C w; sorted_assets = sort assets in
      ensure (length sorted_assets \<le> MAX_ASSETS_IN_POOL) (Module MaxAssetsExceeded) (
      let pool = \<lparr>pi_assets = sorted_assets, initial_amplification = amplification, final_amplification = amplification,
                  initial_block = block_number, final_block = block_number, pi_fee = fee\<rparr> in
      ensure (pool_is_valid pool) (Module IncorrectAssets) (
      ensure (fst (amplification_range C) \<le> amplification \<and> amplification \<le> snd (amplification_range C)) (Module InvalidAmplification) (
      ensure (list_all (sw_exists C w) (pi_assets pool)) (Module AssetNotRegistered) (
      tryR (case peg_info of
              None \<Rightarrow> Inr s
            | Some p \<Rightarrow>
                ensure (length (current_pegs p) = length (pi_assets pool)) (Module IncorrectInitialPegs) (
                let enforce_decimals = list_ex (\<lambda>x. case x of Peg_Oracle _ _ _ \<Rightarrow> True | _ \<Rightarrow> False) (peg_sources p) in
                tryR (ok_or (those (map (sw_decimals C w) (pi_assets pool))) (Module UnknownDecimals)) (\<lambda>decimals_info.
                ensure (enforce_decimals \<longrightarrow> list_all (\<lambda>x. x = hd decimals_info) decimals_info) (Module IncorrectAssetDecimals) (
                Inr (s\<lparr>sw_pegs := (sw_pegs s)(share_asset \<mapsto> p)\<rparr>))))) (\<lambda>s.
      let s = s\<lparr>sw_pools := (sw_pools s)(share_asset \<mapsto> pool)\<rparr> in
      tryR (foreign (sw_dust_add C (pool_account C share_asset) (sw_world s))) (\<lambda>w.
      Inr (s\<lparr>sw_world := w\<rparr>)))))))))))"

definition stable_create_pool ::
    "('w, 'z) stable_config_scheme \<Rightarrow> origin \<Rightarrow> asset_id \<Rightarrow> asset_id list \<Rightarrow> nat \<Rightarrow> nat \<Rightarrow> 'w stableswap \<Rightarrow> 'w stableswap stable_result" where
  "stable_create_pool C orig share_asset assets amplification fee s =
     ensure (sw_authority C orig) BadOrigin (
     ensure (amplification \<noteq> 0) (Module InvalidAmplification) (
     do_create_pool C share_asset assets amplification fee None s))"

definition create_pool_with_pegs ::
    "('w, 'z) stable_config_scheme \<Rightarrow> origin \<Rightarrow> asset_id \<Rightarrow> asset_id list \<Rightarrow> nat \<Rightarrow> nat \<Rightarrow> peg_source list \<Rightarrow> nat \<Rightarrow> 'w stableswap \<Rightarrow>
     'w stableswap stable_result" where
  "create_pool_with_pegs C orig share_asset assets amplification fee peg_source max_update s =
     ensure (sw_authority C orig) BadOrigin (
     ensure (amplification \<noteq> 0) (Module InvalidAmplification) (
     tryR (get_target_pegs C assets peg_source (sw_world s)) (\<lambda>initial_pegs.
     let peg_info = \<lparr>peg_sources = peg_source, peg_updated_at = sw_now C (sw_world s), max_peg_update = max_update,
                     current_pegs = take MAX_ASSETS_IN_POOL (map fst initial_pegs)\<rparr> in
     do_create_pool C share_asset assets amplification fee (Some peg_info) s)))"

definition update_pool_fee :: "('w, 'z) stable_config_scheme \<Rightarrow> origin \<Rightarrow> asset_id \<Rightarrow> nat \<Rightarrow> 'w stableswap \<Rightarrow> 'w stableswap stable_result" where
  "update_pool_fee C orig pool_id fee s =
     ensure (sw_authority C orig) BadOrigin (
     tryR (ok_or (sw_pools s pool_id) (Module PoolNotFound)) (\<lambda>pool.
     Inr (s\<lparr>sw_pools := (sw_pools s)(pool_id \<mapsto> pool\<lparr>pi_fee := fee\<rparr>)\<rparr>)))"

definition update_amplification ::
    "('w, 'z) stable_config_scheme \<Rightarrow> origin \<Rightarrow> asset_id \<Rightarrow> nat \<Rightarrow> nat \<Rightarrow> nat \<Rightarrow> 'w stableswap \<Rightarrow> 'w stableswap stable_result" where
  "update_amplification C orig pool_id final_amp start_block end_block s =
     ensure (sw_authority C orig) BadOrigin (
     ensure (start_block < end_block \<and> sw_now C (sw_world s) \<le> start_block) (Module PastBlock) (
     tryR (ok_or (sw_pools s pool_id) (Module PoolNotFound)) (\<lambda>pool.
     let current_amplification = get_amplification C pool (sw_world s) in
     ensure (current_amplification \<noteq> final_amp) (Module SameAmplification) (
     let initial_amp = min (umax 16) current_amplification in
     ensure (initial_amp \<noteq> 0) (Module InvalidAmplification) (
     ensure (final_amp \<noteq> 0) (Module InvalidAmplification) (
     ensure (fst (amplification_range C) \<le> final_amp \<and> final_amp \<le> snd (amplification_range C)) (Module InvalidAmplification) (
     Inr (s\<lparr>sw_pools := (sw_pools s)(pool_id \<mapsto> pool\<lparr>initial_amplification := initial_amp, final_amplification := final_amp,
            initial_block := start_block, final_block := end_block\<rparr>)\<rparr>))))))))"

definition stable_set_asset_tradable_state ::
    "('w, 'z) stable_config_scheme \<Rightarrow> origin \<Rightarrow> asset_id \<Rightarrow> asset_id \<Rightarrow> stable_flags \<Rightarrow> 'w stableswap \<Rightarrow> 'w stableswap stable_result" where
  "stable_set_asset_tradable_state C orig pool_id asset_id state s =
     ensure (sw_tradability_origin C orig) BadOrigin (
     tryR (ok_or (sw_pools s pool_id) (Module PoolNotFound)) (\<lambda>pool.
     tryR (ok_or (find_asset asset_id (pi_assets pool)) (Module AssetNotInPool)) (\<lambda>_.
     Inr (s\<lparr>sw_tradability := (sw_tradability s)((pool_id, asset_id) := state)\<rparr>))))"

definition update_asset_peg_source ::
    "('w, 'z) stable_config_scheme \<Rightarrow> origin \<Rightarrow> asset_id \<Rightarrow> asset_id \<Rightarrow> peg_source \<Rightarrow> 'w stableswap \<Rightarrow> 'w stableswap stable_result" where
  "update_asset_peg_source C orig pool_id asset_id source s =
     ensure (sw_authority C orig) BadOrigin (
     tryR (ok_or (sw_pools s pool_id) (Module PoolNotFound)) (\<lambda>pool.
     tryR (ok_or (find_asset asset_id (pi_assets pool)) (Module AssetNotInPool)) (\<lambda>asset_index.
     tryR (ok_or (sw_pegs s pool_id) (Module NoPegSource)) (\<lambda>peg_info.
     ensure (length (peg_sources peg_info) = length (pi_assets pool)) (Module IncorrectAssets) (
     Inr (s\<lparr>sw_pegs := (sw_pegs s)(pool_id \<mapsto> peg_info\<lparr>peg_sources := (peg_sources peg_info)[asset_index := source]\<rparr>)\<rparr>))))))"

definition update_pool_max_peg_update ::
    "('w, 'z) stable_config_scheme \<Rightarrow> origin \<Rightarrow> asset_id \<Rightarrow> nat \<Rightarrow> 'w stableswap \<Rightarrow> 'w stableswap stable_result" where
  "update_pool_max_peg_update C orig pool_id max_update s =
     ensure (sw_authority C orig) BadOrigin (
     ensure (sw_pools s pool_id \<noteq> None) (Module PoolNotFound) (
     tryR (ok_or (sw_pegs s pool_id) (Module NoPegSource)) (\<lambda>peg_info.
     Inr (s\<lparr>sw_pegs := (sw_pegs s)(pool_id \<mapsto> peg_info\<lparr>max_peg_update := max_update\<rparr>)\<rparr>))))"

section \<open>Adding liquidity\<close>

text \<open>The assets a provider names, as a \<open>BTreeMap\<close> without duplicates.\<close>

primrec collect_added ::
    "('w, 'z) stable_config_scheme \<Rightarrow> account_id \<Rightarrow> asset_id \<Rightarrow> (asset_id \<times> balance) list \<Rightarrow> (asset_id \<times> balance) list \<Rightarrow> 'w stableswap \<Rightarrow>
     (asset_id \<times> balance) list stable_result" where
  "collect_added C who pool_id [] added s = Inr added"
| "collect_added C who pool_id (x # xs) added s =
     ensure (is_asset_allowed pool_id (fst x) STABLE_ADD_LIQUIDITY s) (Module Stable_NotAllowed) (
     ensure (sw_min_trading_limit C \<le> snd x) (Module Stable_InsufficientTradingAmount) (
     ensure (snd x \<le> free_balance C (sw_world s) (fst x) who) (Module InsufficientBalance) (
     ensure (map_of added (fst x) = None) (Module IncorrectAssets) (
     collect_added C who pool_id xs (bt_insert (fst x) (snd x) added) s))))"

text \<open>
  The reserves before and after, and what was provided of each asset. Without shares the whole reserve belongs to the first provider. The
  last component is what was named and is not in the pool.
\<close>

primrec gather_reserves ::
    "('w, 'z) stable_config_scheme \<Rightarrow> account_id \<Rightarrow> balance \<Rightarrow> 'w \<Rightarrow> asset_id list \<Rightarrow> (asset_id \<times> balance) list \<Rightarrow>
     (stable_reserve list \<times> stable_reserve list \<times> (asset_id \<times> balance) list \<times> (asset_id \<times> balance) list) stable_result" where
  "gather_reserves C account issuance w [] added = Inr ([], [], [], added)"
| "gather_reserves C account issuance w (pool_asset # assets) added =
     tryR (ok_or (sw_decimals C w pool_asset) (Module UnknownDecimals)) (\<lambda>decimals.
     let reserve = free_balance C w pool_asset account;
         (added, reserve) = (if reserve \<noteq> 0 \<and> issuance = 0
           then (bt_insert pool_asset (case map_of added pool_asset of Some n \<Rightarrow> saturating_add 128 n reserve | None \<Rightarrow> reserve) added, 0)
           else (added, reserve)) in
     case map_of added pool_asset of
       Some liq_added \<Rightarrow>
         tryR (ok_or (checked_add 128 reserve liq_added) (Arithmetic Arith_Overflow)) (\<lambda>inc_reserve.
         tryR (gather_reserves C account issuance w assets (bt_remove pool_asset added)) (\<lambda>(initial, updated, provided, left).
         Inr (\<lparr>ar_amount = reserve, ar_decimals = decimals\<rparr> # initial, \<lparr>ar_amount = inc_reserve, ar_decimals = decimals\<rparr> # updated,
              (pool_asset, liq_added) # provided, left)))
     | None \<Rightarrow>
         ensure (reserve \<noteq> 0) (Module InvalidInitialLiquidity) (
         tryR (gather_reserves C account issuance w assets added) (\<lambda>(initial, updated, provided, left).
         Inr (\<lparr>ar_amount = reserve, ar_decimals = decimals\<rparr> # initial, \<lparr>ar_amount = reserve, ar_decimals = decimals\<rparr> # updated,
              provided, left))))"

primrec transfer_all ::
    "('w, 'z) stable_config_scheme \<Rightarrow> account_id \<Rightarrow> account_id \<Rightarrow> (asset_id \<times> balance) list \<Rightarrow> 'w stableswap \<Rightarrow> 'w stableswap stable_result" where
  "transfer_all C src dst [] s = Inr s"
| "transfer_all C src dst (x # xs) s = tryR (stable_transfer C (fst x) src dst (snd x) s) (transfer_all C src dst xs)"

definition stable_do_add_liquidity ::
    "('w, 'z) stable_config_scheme \<Rightarrow> account_id \<Rightarrow> asset_id \<Rightarrow> (asset_id \<times> balance) list \<Rightarrow> balance \<Rightarrow> 'w stableswap \<Rightarrow>
     (balance \<times> 'w stableswap) stable_result" where
  "stable_do_add_liquidity C who pool_id assets min_shares s =
     tryR (ok_or (sw_pools s pool_id) (Module PoolNotFound)) (\<lambda>pool.
     ensure (length assets \<le> length (pi_assets pool)) (Module MaxAssetsExceeded) (
     tryR (collect_added C who pool_id assets [] s) (\<lambda>added_assets.
     let issuance = share_issuance s pool_id;
         s = save_snapshot C pool_id s;
         account = pool_account C pool_id in
     tryR (gather_reserves C account issuance (sw_world s) (pi_assets pool) added_assets)
       (\<lambda>(initial_reserves, updated_reserves, provided_assets, left).
     ensure (left = []) (Module AssetNotInPool) (
     let amplification = get_amplification C pool (sw_world s) in
     tryR (update_and_return_pegs_and_trade_fee C pool_id pool s) (\<lambda>((trade_fee, asset_pegs), s).
     tryR (ok_or (calculate_stable_shares (sw_arith C) MAX_D_ITERATIONS initial_reserves updated_reserves amplification issuance trade_fee asset_pegs)
             (Arithmetic Arith_Overflow)) (\<lambda>(share_amount, fees).
     ensure (share_amount \<noteq> 0) (Module InvalidAssetAmount) (
     ensure (min_shares \<le> share_amount) (Module Stable_SlippageLimit) (
     ensure (sw_min_pool_liquidity C \<le> saturating_add 128 (free_balance C (sw_world s) pool_id who) share_amount) (Module InsufficientShareBalance) (
     tryR (stable_mint_shares C pool_id who share_amount s) (\<lambda>s.
     tryR (transfer_all C who account assets s) (\<lambda>s.
     tryR (call_on_liquidity_change_hook C pool_id initial_reserves issuance s) (\<lambda>s.
     tryR (ensure_add_liquidity_invariant C pool_id initial_reserves issuance s) (\<lambda>_.
     Inr (share_amount, stable_trade_event C who pool_id LiquidityAdd provided_assets [(pool_id, share_amount)]
            (map (\<lambda>(b, a). (a, b)) (zip fees (pi_assets pool))) s)))))))))))))))"

definition add_assets_liquidity ::
    "('w, 'z) stable_config_scheme \<Rightarrow> origin \<Rightarrow> asset_id \<Rightarrow> (asset_id \<times> balance) list \<Rightarrow> balance \<Rightarrow> 'w stableswap \<Rightarrow> 'w stableswap stable_result" where
  "add_assets_liquidity C orig pool_id assets min_shares s =
     tryR (ensure_signed orig) (\<lambda>who.
     tryR (stable_do_add_liquidity C who pool_id assets min_shares s) (\<lambda>(_, s). Inr s))"

definition do_add_liquidity_shares ::
    "('w, 'z) stable_config_scheme \<Rightarrow> account_id \<Rightarrow> asset_id \<Rightarrow> balance \<Rightarrow> asset_id \<Rightarrow> balance \<Rightarrow> 'w stableswap \<Rightarrow>
     (balance \<times> 'w stableswap) stable_result" where
  "do_add_liquidity_shares C who pool_id shares asset_id max_asset_amount s =
     ensure (is_asset_allowed pool_id asset_id STABLE_ADD_LIQUIDITY s) (Module Stable_NotAllowed) (
     tryR (ok_or (sw_pools s pool_id) (Module PoolNotFound)) (\<lambda>pool.
     tryR (ok_or (find_asset asset_id (pi_assets pool)) (Module AssetNotInPool)) (\<lambda>asset_idx.
     let issuance = share_issuance s pool_id;
         amplification = get_amplification C pool (sw_world s);
         account = pool_account C pool_id in
     tryR (ok_or (reserves_with_decimals C pool account (sw_world s)) (Module UnknownDecimals)) (\<lambda>initial_reserves.
     ensure (list_all (\<lambda>r. ar_amount r \<noteq> 0) initial_reserves) (Module InvalidInitialLiquidity) (
     tryR (update_and_return_pegs_and_trade_fee C pool_id pool s) (\<lambda>((trade_fee, asset_pegs), s).
     tryR (ok_or (calculate_add_one_asset (sw_arith C) MAX_D_ITERATIONS MAX_Y_ITERATIONS initial_reserves shares asset_idx issuance amplification
                    trade_fee asset_pegs) (Arithmetic Arith_Overflow)) (\<lambda>(amount_in, fee).
     ensure (amount_in \<le> max_asset_amount) (Module Stable_SlippageLimit) (
     ensure (amount_in \<noteq> 0) (Module InvalidAssetAmount) (
     ensure (sw_min_pool_liquidity C \<le> saturating_add 128 (free_balance C (sw_world s) pool_id who) shares) (Module InsufficientShareBalance) (
     let s = save_snapshot C pool_id s in
     tryR (stable_mint_shares C pool_id who shares s) (\<lambda>s.
     tryR (stable_transfer C asset_id who account amount_in s) (\<lambda>s.
     tryR (call_on_liquidity_change_hook C pool_id initial_reserves issuance s) (\<lambda>s.
     tryR (ensure_add_liquidity_invariant C pool_id initial_reserves issuance s) (\<lambda>_.
     Inr (amount_in, stable_trade_event C who pool_id LiquidityAdd [(asset_id, amount_in)] [(pool_id, shares)] [(pool_id, fee)] s)))))))))))))))"

definition add_liquidity_shares ::
    "('w, 'z) stable_config_scheme \<Rightarrow> origin \<Rightarrow> asset_id \<Rightarrow> balance \<Rightarrow> asset_id \<Rightarrow> balance \<Rightarrow> 'w stableswap \<Rightarrow> 'w stableswap stable_result" where
  "add_liquidity_shares C orig pool_id shares asset_id max_asset_amount s =
     tryR (ensure_signed orig) (\<lambda>who.
     tryR (do_add_liquidity_shares C who pool_id shares asset_id max_asset_amount s) (\<lambda>(_, s). Inr s))"

section \<open>Removing liquidity\<close>

definition do_remove_liquidity_one_asset ::
    "('w, 'z) stable_config_scheme \<Rightarrow> account_id \<Rightarrow> asset_id \<Rightarrow> asset_id \<Rightarrow> balance \<Rightarrow> balance \<Rightarrow> 'w stableswap \<Rightarrow>
     (balance \<times> 'w stableswap) stable_result" where
  "do_remove_liquidity_one_asset C who pool_id asset_id share_amount min_amount_out s =
     ensure (is_asset_allowed pool_id asset_id STABLE_REMOVE_LIQUIDITY s) (Module Stable_NotAllowed) (
     ensure (0 < share_amount) (Module InvalidAssetAmount) (
     ensure (share_amount \<le> free_balance C (sw_world s) pool_id who) (Module InsufficientShares) (
     tryR (ok_or (sw_pools s pool_id) (Module PoolNotFound)) (\<lambda>pool.
     tryR (ok_or (find_asset asset_id (pi_assets pool)) (Module AssetNotInPool)) (\<lambda>asset_idx.
     let account = pool_account C pool_id in
     tryR (ok_or (reserves_with_decimals C pool account (sw_world s)) (Module UnknownDecimals)) (\<lambda>initial_reserves.
     let issuance = share_issuance s pool_id in
     ensure (issuance = share_amount \<or> sw_min_pool_liquidity C \<le> saturating_sub issuance share_amount) (Module InsufficientLiquidityRemaining) (
     let amplification = get_amplification C pool (sw_world s) in
     tryR (update_and_return_pegs_and_trade_fee C pool_id pool s) (\<lambda>((trade_fee, asset_pegs), s).
     let s = save_snapshot C pool_id s in
     tryR (ok_or (calculate_withdraw_one_asset (sw_arith C) MAX_D_ITERATIONS MAX_Y_ITERATIONS initial_reserves share_amount asset_idx issuance
                    amplification trade_fee asset_pegs) (Arithmetic Arith_Overflow)) (\<lambda>(amount, fee).
     ensure (min_amount_out \<le> amount) (Module Stable_SlippageLimit) (
     ensure (1 \<le> amount) (Module ZeroAmountOut) (
     tryR (stable_burn_shares C pool_id who share_amount s) (\<lambda>s.
     tryR (stable_transfer C asset_id account who amount s) (\<lambda>s.
     tryR (call_on_liquidity_change_hook C pool_id initial_reserves issuance s) (\<lambda>s.
     let s = stable_trade_event C who pool_id LiquidityRemove [(pool_id, share_amount)] [(asset_id, amount)] [(pool_id, fee)] s in
     tryR (ensure_remove_liquidity_invariant C pool_id initial_reserves issuance s) (\<lambda>_.
     Inr (amount, s))))))))))))))))"

definition remove_liquidity_one_asset ::
    "('w, 'z) stable_config_scheme \<Rightarrow> origin \<Rightarrow> asset_id \<Rightarrow> asset_id \<Rightarrow> balance \<Rightarrow> balance \<Rightarrow> 'w stableswap \<Rightarrow> 'w stableswap stable_result" where
  "remove_liquidity_one_asset C orig pool_id asset_id share_amount min_amount_out s =
     tryR (ensure_signed orig) (\<lambda>who.
     tryR (do_remove_liquidity_one_asset C who pool_id asset_id share_amount min_amount_out s) (\<lambda>(_, s). Inr s))"

definition withdraw_asset_amount ::
    "('w, 'z) stable_config_scheme \<Rightarrow> origin \<Rightarrow> asset_id \<Rightarrow> asset_id \<Rightarrow> balance \<Rightarrow> balance \<Rightarrow> 'w stableswap \<Rightarrow> 'w stableswap stable_result" where
  "withdraw_asset_amount C orig pool_id asset_id amount max_share_amount s =
     tryR (ensure_signed orig) (\<lambda>who.
     ensure (is_asset_allowed pool_id asset_id STABLE_REMOVE_LIQUIDITY s) (Module Stable_NotAllowed) (
     ensure (0 < amount) (Module InvalidAssetAmount) (
     tryR (ok_or (sw_pools s pool_id) (Module PoolNotFound)) (\<lambda>pool.
     tryR (ok_or (find_asset asset_id (pi_assets pool)) (Module AssetNotInPool)) (\<lambda>asset_idx.
     let account = pool_account C pool_id in
     tryR (ok_or (reserves_with_decimals C pool account (sw_world s)) (Module UnknownDecimals)) (\<lambda>initial_reserves.
     let issuance = share_issuance s pool_id; amplification = get_amplification C pool (sw_world s) in
     tryR (update_and_return_pegs_and_trade_fee C pool_id pool s) (\<lambda>((trade_fee, asset_pegs), s).
     let s = save_snapshot C pool_id s in
     tryR (ok_or (calculate_shares_for_amount (sw_arith C) MAX_D_ITERATIONS initial_reserves asset_idx amount amplification issuance trade_fee asset_pegs)
             (Arithmetic Arith_Overflow)) (\<lambda>(shares, fees).
     ensure (shares \<le> max_share_amount) (Module Stable_SlippageLimit) (
     ensure (1 \<le> shares) (Module ZeroAmountIn) (
     tryR (stable_burn_shares C pool_id who shares s) (\<lambda>s.
     tryR (stable_transfer C asset_id account who amount s) (\<lambda>s.
     tryR (call_on_liquidity_change_hook C pool_id initial_reserves issuance s) (\<lambda>s.
     let s = stable_trade_event C who pool_id LiquidityRemove [(pool_id, shares)] [(asset_id, amount)]
               (map (\<lambda>(b, a). (a, b)) (zip fees (pi_assets pool))) s in
     tryR (ensure_remove_liquidity_invariant C pool_id initial_reserves issuance s) (\<lambda>_.
     Inr s))))))))))))))"

primrec collect_min_amounts :: "(asset_id \<times> balance) list \<Rightarrow> (asset_id \<times> balance) list \<Rightarrow> (asset_id \<times> balance) list stable_result" where
  "collect_min_amounts [] m = Inr m"
| "collect_min_amounts (x # xs) m =
     ensure (map_of m (fst x) = None) (Module IncorrectAssets) (collect_min_amounts xs (bt_insert (fst x) (snd x) m))"

text \<open>
  The loop over the assets of a pool: the part of each reserve goes to the provider. The interface of other pallets rejects an amount
  of zero (\<open>nonzero\<close>), the extrinsic does not.
\<close>

primrec withdraw_assets ::
    "('w, 'z) stable_config_scheme \<Rightarrow> bool \<Rightarrow> account_id \<Rightarrow> asset_id \<Rightarrow> balance \<Rightarrow> balance \<Rightarrow> asset_id list \<Rightarrow> (asset_id \<times> balance) list \<Rightarrow>
     'w stableswap \<Rightarrow> 'w stableswap stable_result" where
  "withdraw_assets C nonzero who pool_id share_amount issuance [] mins s = Inr s"
| "withdraw_assets C nonzero who pool_id share_amount issuance (asset_id # assets) mins s =
     ensure (is_asset_allowed pool_id asset_id STABLE_REMOVE_LIQUIDITY s) (Module Stable_NotAllowed) (
     tryR (ok_or (map_of mins asset_id) (Module IncorrectAssets)) (\<lambda>min_amount.
     let reserve = free_balance C (sw_world s) asset_id (pool_account C pool_id) in
     tryR (if share_amount = issuance
           then ensure (min_amount \<le> reserve) (Module Stable_SlippageLimit) (Inr reserve)
           else tryR (ok_or (stable_liquidity_out reserve share_amount issuance) (Arithmetic Arith_Overflow)) (\<lambda>amount.
                ensure (min_amount \<le> amount) (Module Stable_SlippageLimit) (Inr amount))) (\<lambda>amount.
     ensure (nonzero \<longrightarrow> 1 \<le> amount) (Module ZeroAmountOut) (
     tryR (stable_transfer C asset_id (pool_account C pool_id) who amount s) (\<lambda>s.
     withdraw_assets C nonzero who pool_id share_amount issuance assets (bt_remove asset_id mins) s)))))"

text \<open>At most five assets of a pool have flags, so clearing five entries of its prefix clears all of them.\<close>

definition stable_destroy_pool :: "('w, 'z) stable_config_scheme \<Rightarrow> asset_id \<Rightarrow> 'w stableswap \<Rightarrow> 'w stableswap stable_result" where
  "stable_destroy_pool C pool_id s =
     (let s = s\<lparr>sw_pools := (sw_pools s)(pool_id := None), sw_pegs := (sw_pegs s)(pool_id := None),
                share_issuance := (share_issuance s)(pool_id := 0),
                sw_tradability := (\<lambda>(p, a). if p = pool_id then stable_flags_default else sw_tradability s (p, a))\<rparr> in
      tryR (foreign (sw_dust_remove C (pool_account C pool_id) (sw_world s))) (\<lambda>w. Inr (s\<lparr>sw_world := w\<rparr>)))"

definition stable_remove_all ::
    "('w, 'z) stable_config_scheme \<Rightarrow> bool \<Rightarrow> account_id \<Rightarrow> asset_id \<Rightarrow> balance \<Rightarrow> (asset_id \<times> balance) list \<Rightarrow> 'w stableswap \<Rightarrow> 'w stableswap stable_result" where
  "stable_remove_all C nonzero who pool_id share_amount min_amounts_out s =
     ensure (0 < share_amount) (Module InvalidAssetAmount) (
     ensure (share_amount \<le> free_balance C (sw_world s) pool_id who) (Module InsufficientShares) (
     tryR (ok_or (sw_pools s pool_id) (Module PoolNotFound)) (\<lambda>pool.
     tryR (ok_or (reserves_with_decimals C pool (pool_account C pool_id) (sw_world s)) (Module UnknownDecimals)) (\<lambda>initial_reserves.
     let issuance = share_issuance s pool_id in
     ensure (length min_amounts_out = length (pi_assets pool)) (Module IncorrectAssets) (
     tryR (collect_min_amounts min_amounts_out []) (\<lambda>mins.
     let s = save_snapshot C pool_id s in
     tryR (withdraw_assets C nonzero who pool_id share_amount issuance (pi_assets pool) mins s) (\<lambda>s.
     tryR (stable_burn_shares C pool_id who share_amount s) (\<lambda>s.
     tryR (if share_amount \<noteq> issuance then call_on_liquidity_change_hook C pool_id initial_reserves issuance s
           else stable_destroy_pool C pool_id s) (\<lambda>s.
     tryR (ensure_remove_liquidity_invariant C pool_id initial_reserves issuance s) (\<lambda>_.
     Inr s))))))))))"

definition stable_remove_liquidity ::
    "('w, 'z) stable_config_scheme \<Rightarrow> origin \<Rightarrow> asset_id \<Rightarrow> balance \<Rightarrow> (asset_id \<times> balance) list \<Rightarrow> 'w stableswap \<Rightarrow> 'w stableswap stable_result" where
  "stable_remove_liquidity C orig pool_id share_amount min_amounts_out s =
     tryR (ensure_signed orig) (\<lambda>who. stable_remove_all C False who pool_id share_amount min_amounts_out s)"

definition stable_do_remove_liquidity ::
    "('w, 'z) stable_config_scheme \<Rightarrow> account_id \<Rightarrow> asset_id \<Rightarrow> balance \<Rightarrow> (asset_id \<times> balance) list \<Rightarrow> 'w stableswap \<Rightarrow> 'w stableswap stable_result" where
  "stable_do_remove_liquidity C who pool_id share_amount min_amounts_out s =
     stable_remove_all C True who pool_id share_amount min_amounts_out s"

section \<open>Trades\<close>

definition pegs_and_fee ::
    "('w, 'z) stable_config_scheme \<Rightarrow> bool \<Rightarrow> asset_id \<Rightarrow> pool_info \<Rightarrow> 'w stableswap \<Rightarrow> ((nat \<times> peg_type list) \<times> 'w stableswap) stable_result" where
  "pegs_and_fee C persist_peg pool_id pool s =
     (if persist_peg then update_and_return_pegs_and_trade_fee C pool_id pool s
      else tryR (get_updated_pegs C pool_id pool s) (\<lambda>x. Inr (x, s)))"

definition calculate_out_amount ::
    "('w, 'z) stable_config_scheme \<Rightarrow> asset_id \<Rightarrow> asset_id \<Rightarrow> asset_id \<Rightarrow> balance \<Rightarrow> bool \<Rightarrow> 'w stableswap \<Rightarrow>
     ((balance \<times> balance) \<times> 'w stableswap) stable_result" where
  "calculate_out_amount C pool_id asset_in asset_out amount_in persist_peg s =
     tryR (ok_or (sw_pools s pool_id) (Module PoolNotFound)) (\<lambda>pool.
     tryR (ok_or (find_asset asset_in (pi_assets pool)) (Module AssetNotInPool)) (\<lambda>index_in.
     tryR (ok_or (find_asset asset_out (pi_assets pool)) (Module AssetNotInPool)) (\<lambda>index_out.
     tryR (ok_or (reserves_with_decimals C pool (pool_account C pool_id) (sw_world s)) (Module UnknownDecimals)) (\<lambda>initial_reserves.
     ensure (\<not> ar_is_zero (initial_reserves ! index_in)) (Module Stable_InsufficientLiquidity) (
     ensure (\<not> ar_is_zero (initial_reserves ! index_out)) (Module Stable_InsufficientLiquidity) (
     let amplification = get_amplification C pool (sw_world s) in
     tryR (pegs_and_fee C persist_peg pool_id pool s) (\<lambda>((trade_fee, asset_pegs), s).
     tryR (ok_or (calculate_out_given_in_with_fee (sw_arith C) MAX_D_ITERATIONS MAX_Y_ITERATIONS initial_reserves index_in index_out amount_in
                    amplification trade_fee asset_pegs) (Arithmetic Arith_Overflow)) (\<lambda>r.
     Inr (r, s)))))))))"

definition calculate_in_amount ::
    "('w, 'z) stable_config_scheme \<Rightarrow> asset_id \<Rightarrow> asset_id \<Rightarrow> asset_id \<Rightarrow> balance \<Rightarrow> bool \<Rightarrow> 'w stableswap \<Rightarrow>
     ((balance \<times> balance) \<times> 'w stableswap) stable_result" where
  "calculate_in_amount C pool_id asset_in asset_out amount_out persist_peg s =
     tryR (ok_or (sw_pools s pool_id) (Module PoolNotFound)) (\<lambda>pool.
     tryR (ok_or (find_asset asset_in (pi_assets pool)) (Module AssetNotInPool)) (\<lambda>index_in.
     tryR (ok_or (find_asset asset_out (pi_assets pool)) (Module AssetNotInPool)) (\<lambda>index_out.
     tryR (ok_or (reserves_with_decimals C pool (pool_account C pool_id) (sw_world s)) (Module UnknownDecimals)) (\<lambda>initial_reserves.
     ensure (amount_out < ar_amount (initial_reserves ! index_out)) (Module Stable_InsufficientLiquidity) (
     ensure (\<not> ar_is_zero (initial_reserves ! index_in)) (Module Stable_InsufficientLiquidity) (
     let amplification = get_amplification C pool (sw_world s) in
     tryR (pegs_and_fee C persist_peg pool_id pool s) (\<lambda>((trade_fee, asset_pegs), s).
     tryR (ok_or (calculate_in_given_out_with_fee (sw_arith C) MAX_D_ITERATIONS MAX_Y_ITERATIONS initial_reserves index_in index_out amount_out
                    amplification trade_fee asset_pegs) (Arithmetic Arith_Overflow)) (\<lambda>r.
     Inr (r, s)))))))))"

definition stable_sell ::
    "('w, 'z) stable_config_scheme \<Rightarrow> origin \<Rightarrow> asset_id \<Rightarrow> asset_id \<Rightarrow> asset_id \<Rightarrow> balance \<Rightarrow> balance \<Rightarrow> 'w stableswap \<Rightarrow> 'w stableswap stable_result" where
  "stable_sell C orig pool_id asset_in asset_out amount_in min_buy_amount s =
     tryR (ensure_signed orig) (\<lambda>who.
     ensure (asset_in \<noteq> asset_out) (Module Stable_NotAllowed) (
     ensure (is_asset_allowed pool_id asset_in STABLE_SELL s \<and> is_asset_allowed pool_id asset_out STABLE_BUY s) (Module Stable_NotAllowed) (
     ensure (sw_min_trading_limit C \<le> amount_in) (Module Stable_InsufficientTradingAmount) (
     ensure (amount_in \<le> free_balance C (sw_world s) asset_in who) (Module InsufficientBalance) (
     tryR (ok_or (sw_pools s pool_id) (Module PoolNotFound)) (\<lambda>pool.
     let account = pool_account C pool_id in
     tryR (ok_or (reserves_with_decimals C pool account (sw_world s)) (Module UnknownDecimals)) (\<lambda>initial_reserves.
     tryR (calculate_out_amount C pool_id asset_in asset_out amount_in True s) (\<lambda>((amount_out, fee), s).
     ensure (min_buy_amount \<le> amount_out) (Module BuyLimitNotReached) (
     let s = save_snapshot C pool_id s in
     tryR (stable_transfer C asset_in who account amount_in s) (\<lambda>s.
     tryR (stable_transfer C asset_out account who amount_out s) (\<lambda>s.
     tryR (call_on_trade_hook C pool_id asset_in asset_out initial_reserves s) (\<lambda>s.
     let s = stable_trade_event C who pool_id ExactIn [(asset_in, amount_in)] [(asset_out, amount_out)] [(asset_out, fee)] s in
     tryR (stable_ensure_trade_invariant C pool_id initial_reserves s) (\<lambda>_.
     Inr s)))))))))))))"

definition stable_buy ::
    "('w, 'z) stable_config_scheme \<Rightarrow> origin \<Rightarrow> asset_id \<Rightarrow> asset_id \<Rightarrow> asset_id \<Rightarrow> balance \<Rightarrow> balance \<Rightarrow> 'w stableswap \<Rightarrow> 'w stableswap stable_result" where
  "stable_buy C orig pool_id asset_out asset_in amount_out max_sell_amount s =
     tryR (ensure_signed orig) (\<lambda>who.
     ensure (asset_in \<noteq> asset_out) (Module Stable_NotAllowed) (
     ensure (is_asset_allowed pool_id asset_in STABLE_SELL s \<and> is_asset_allowed pool_id asset_out STABLE_BUY s) (Module Stable_NotAllowed) (
     ensure (sw_min_trading_limit C \<le> amount_out) (Module Stable_InsufficientTradingAmount) (
     tryR (ok_or (sw_pools s pool_id) (Module PoolNotFound)) (\<lambda>pool.
     let account = pool_account C pool_id in
     tryR (ok_or (reserves_with_decimals C pool account (sw_world s)) (Module UnknownDecimals)) (\<lambda>initial_reserves.
     tryR (calculate_in_amount C pool_id asset_in asset_out amount_out True s) (\<lambda>((amount_in, fee), s).
     ensure (amount_in \<le> max_sell_amount) (Module SellLimitExceeded) (
     ensure (amount_in \<le> free_balance C (sw_world s) asset_in who) (Module InsufficientBalance) (
     let s = save_snapshot C pool_id s in
     tryR (stable_transfer C asset_in who account amount_in s) (\<lambda>s.
     tryR (stable_transfer C asset_out account who amount_out s) (\<lambda>s.
     tryR (call_on_trade_hook C pool_id asset_in asset_out initial_reserves s) (\<lambda>s.
     let s = stable_trade_event C who pool_id ExactOut [(asset_in, amount_in)] [(asset_out, amount_out)] [(asset_in, fee)] s in
     tryR (stable_ensure_trade_invariant C pool_id initial_reserves s) (\<lambda>_.
     Inr s)))))))))))))"

section \<open>Simulated trades\<close>

definition update_reserves :: "asset_id \<times> balance \<Rightarrow> asset_id \<times> balance \<Rightarrow> pool_snapshot \<Rightarrow> pool_snapshot" where
  "update_reserves amount_in amount_out snapshot =
     (case find_asset (fst amount_in) (ps_assets snapshot) of None \<Rightarrow> snapshot | Some i \<Rightarrow>
      case find_asset (fst amount_out) (ps_assets snapshot) of None \<Rightarrow> snapshot | Some j \<Rightarrow>
      if length (ps_reserves snapshot) \<le> i then snapshot else
      let r = (ps_reserves snapshot)[i := ar_saturating_add (ps_reserves snapshot ! i) (snd amount_in)] in
      if length r \<le> j then snapshot\<lparr>ps_reserves := r\<rparr>
      else snapshot\<lparr>ps_reserves := r[j := ar_saturating_sub (r ! j) (snd amount_out)]\<rparr>)"

definition simulate_sell ::
    "('w, 'z) stable_config_scheme \<Rightarrow> asset_id \<Rightarrow> asset_id \<Rightarrow> asset_id \<Rightarrow> balance \<Rightarrow> balance \<Rightarrow> pool_snapshot option \<Rightarrow> 'w stableswap \<Rightarrow>
     (balance \<times> pool_snapshot) stable_result" where
  "simulate_sell C pool_id asset_in asset_out amount_in min_buy_amount use_snapshot s =
     tryR (case use_snapshot of Some x \<Rightarrow> Inr x | None \<Rightarrow> ok_or (create_snapshot C pool_id s) (Module PoolNotFound)) (\<lambda>snapshot.
     tryR (ok_or (find_asset asset_in (ps_assets snapshot)) (Module AssetNotInPool)) (\<lambda>index_in.
     tryR (ok_or (find_asset asset_out (ps_assets snapshot)) (Module AssetNotInPool)) (\<lambda>index_out.
     let initial_reserves = ps_reserves snapshot in
     ensure (index_in < length initial_reserves \<and> index_out < length initial_reserves) (Module Stable_Panicked) (
     ensure (\<not> ar_is_zero (initial_reserves ! index_in)) (Module Stable_InsufficientLiquidity) (
     ensure (\<not> ar_is_zero (initial_reserves ! index_out)) (Module Stable_InsufficientLiquidity) (
     tryR (ok_or (calculate_out_given_in_with_fee (sw_arith C) MAX_D_ITERATIONS MAX_Y_ITERATIONS initial_reserves index_in index_out amount_in
                    (ps_amplification snapshot) (ps_fee snapshot) (ps_pegs snapshot)) (Arithmetic Arith_Overflow)) (\<lambda>(amount_out, _).
     ensure (min_buy_amount \<le> amount_out) (Module Stable_SlippageLimit) (
     Inr (amount_out, update_reserves (asset_in, amount_in) (asset_out, amount_out) snapshot)))))))))"

definition simulate_buy ::
    "('w, 'z) stable_config_scheme \<Rightarrow> asset_id \<Rightarrow> asset_id \<Rightarrow> asset_id \<Rightarrow> balance \<Rightarrow> balance \<Rightarrow> pool_snapshot option \<Rightarrow> 'w stableswap \<Rightarrow>
     (balance \<times> pool_snapshot) stable_result" where
  "simulate_buy C pool_id asset_in asset_out amount_out max_amount_in use_snapshot s =
     tryR (case use_snapshot of Some x \<Rightarrow> Inr x | None \<Rightarrow> ok_or (create_snapshot C pool_id s) (Module PoolNotFound)) (\<lambda>snapshot.
     tryR (ok_or (find_asset asset_in (ps_assets snapshot)) (Module AssetNotInPool)) (\<lambda>index_in.
     tryR (ok_or (find_asset asset_out (ps_assets snapshot)) (Module AssetNotInPool)) (\<lambda>index_out.
     let initial_reserves = ps_reserves snapshot in
     ensure (index_in < length initial_reserves \<and> index_out < length initial_reserves) (Module Stable_Panicked) (
     ensure (amount_out < ar_amount (initial_reserves ! index_out)) (Module Stable_InsufficientLiquidity) (
     ensure (\<not> ar_is_zero (initial_reserves ! index_in)) (Module Stable_InsufficientLiquidity) (
     tryR (ok_or (calculate_in_given_out_with_fee (sw_arith C) MAX_D_ITERATIONS MAX_Y_ITERATIONS initial_reserves index_in index_out amount_out
                    (ps_amplification snapshot) (ps_fee snapshot) (ps_pegs snapshot)) (Arithmetic Arith_Overflow)) (\<lambda>(amount_in, _).
     ensure (amount_in \<le> max_amount_in) (Module Stable_SlippageLimit) (
     Inr (amount_in, update_reserves (asset_in, amount_in) (asset_out, amount_out) snapshot)))))))))"

end
