(* ===== verification/Stableswap_Steps.thy ===== *)
theory Stableswap_Steps
  imports Stableswap_Pallet
begin

text \<open>
  Successful runs of the stableswap pallet taken apart, one lemma per call: the amounts, the ledger operations and what the storage keeps.
  The invariant of the storage and that every call preserves it.
\<close>

section \<open>What a step changes\<close>

definition pegs_stored :: "('w, 'z) stable_config_scheme \<Rightarrow> asset_id \<Rightarrow> nat \<Rightarrow> peg_type list \<Rightarrow> 'w stableswap \<Rightarrow> 'w stableswap" where
  "pegs_stored C p fee pegs s = (case sw_pegs s p of None \<Rightarrow> s
     | Some info \<Rightarrow> s\<lparr>sw_pegs := (sw_pegs s)(p \<mapsto> with_new_pegs info pegs (sw_now C (sw_world s))), sw_block_fee := (sw_block_fee s)(p \<mapsto> fee)\<rparr>)"

lemma update_pegs_Inr [res_iff]:
  "update_and_return_pegs_and_trade_fee C p pool s = Inr (x, s') \<longleftrightarrow>
     get_updated_pegs C p pool s = Inr x \<and> s' = pegs_stored C p (fst x) (snd x) s"
  by (cases x) (auto simp: update_and_return_pegs_and_trade_fee_def res_iff pegs_stored_def split: option.splits)

lemma pegs_stored_sel [simp]:
  "sw_pools (pegs_stored C p fee pegs s) = sw_pools s" "sw_tradability (pegs_stored C p fee pegs s) = sw_tradability s"
  "share_issuance (pegs_stored C p fee pegs s) = share_issuance s" "sw_world (pegs_stored C p fee pegs s) = sw_world s"
  "sw_broadcast (pegs_stored C p fee pegs s) = sw_broadcast s" "sw_snapshots (pegs_stored C p fee pegs s) = sw_snapshots s"
  by (simp_all add: pegs_stored_def split: option.splits)

lemma pegs_stored_pegs:
  "sw_pegs (pegs_stored C p fee pegs s) = (case sw_pegs s p of None \<Rightarrow> sw_pegs s
     | Some info \<Rightarrow> (sw_pegs s)(p \<mapsto> with_new_pegs info pegs (sw_now C (sw_world s))))"
  by (simp add: pegs_stored_def split: option.splits)

lemma save_snapshot_sel [simp]:
  "sw_pools (save_snapshot C p s) = sw_pools s" "sw_pegs (save_snapshot C p s) = sw_pegs s" "sw_tradability (save_snapshot C p s) = sw_tradability s"
  "sw_block_fee (save_snapshot C p s) = sw_block_fee s" "share_issuance (save_snapshot C p s) = share_issuance s"
  "sw_broadcast (save_snapshot C p s) = sw_broadcast s" "sw_world (save_snapshot C p s) = sw_world s"
  by (simp_all add: save_snapshot_def split: option.splits)

lemma stable_trade_event_sel [simp]:
  "sw_pools (stable_trade_event C who p k is os fs s) = sw_pools s" "sw_pegs (stable_trade_event C who p k is os fs s) = sw_pegs s"
  "sw_tradability (stable_trade_event C who p k is os fs s) = sw_tradability s" "sw_block_fee (stable_trade_event C who p k is os fs s) = sw_block_fee s"
  "share_issuance (stable_trade_event C who p k is os fs s) = share_issuance s" "sw_world (stable_trade_event C who p k is os fs s) = sw_world s"
  "sw_snapshots (stable_trade_event C who p k is os fs s) = sw_snapshots s"
  "execution_context (sw_broadcast (stable_trade_event C who p k is os fs s)) = execution_context (sw_broadcast s)"
  by (simp_all add: stable_trade_event_def)

lemma stable_transfer_Inr [res_iff]:
  "stable_transfer C a x y n s = Inr s' \<longleftrightarrow> (\<exists>w. transfer C a x y n (sw_world s) = Inr w \<and> s' = s\<lparr>sw_world := w\<rparr>)"
  by (auto simp: stable_transfer_def res_iff)

lemma stable_mint_Inr [res_iff]:
  "stable_mint_shares C p who n s = Inr s' \<longleftrightarrow> share_issuance s p + n \<le> umax 128 \<and>
     (\<exists>w. deposit C p who n (sw_world s) = Inr w \<and> s' = s\<lparr>share_issuance := (share_issuance s)(p := share_issuance s p + n), sw_world := w\<rparr>)"
  by (auto simp: stable_mint_shares_def res_iff ck_iff)

lemma stable_burn_Inr [res_iff]:
  "stable_burn_shares C p who n s = Inr s' \<longleftrightarrow> n \<le> share_issuance s p \<and>
     (\<exists>w. withdraw C p who n (sw_world s) = Inr w \<and> s' = s\<lparr>share_issuance := (share_issuance s)(p := share_issuance s p - n), sw_world := w\<rparr>)"
  by (auto simp: stable_burn_shares_def res_iff ck_iff)

lemma call_hook_Inr:
  "call_on_liquidity_change_hook C p rs n s = Inr s' \<Longrightarrow> \<exists>st w. sw_on_liquidity_changed C p st (sw_world s) = Inr w \<and> s' = s\<lparr>sw_world := w\<rparr>"
  "call_on_trade_hook C p a b rs s = Inr s' \<Longrightarrow> \<exists>st w. sw_on_trade C p a b st (sw_world s) = Inr w \<and> s' = s\<lparr>sw_world := w\<rparr>"
  by (auto simp: call_on_liquidity_change_hook_def call_on_trade_hook_def res_iff)

text \<open>
  The storage after a call on the pool \<open>p\<close>: its issuance, its pegs and the temporary storage of the block; everything else stays. Where the
  call used pegs, they are those the pool had on entry, brought up to date.
\<close>

definition pool_step :: "('w, 'z) stable_config_scheme \<Rightarrow> asset_id \<Rightarrow> pool_info \<Rightarrow> balance \<Rightarrow> 'w stableswap \<Rightarrow> 'w stableswap \<Rightarrow> bool" where
  "pool_step C p pool n s s' \<longleftrightarrow> sw_pools s p = Some pool \<and> sw_pools s' = sw_pools s \<and> sw_tradability s' = sw_tradability s \<and>
     share_issuance s' = (share_issuance s)(p := n) \<and>
     execution_context (sw_broadcast s') = execution_context (sw_broadcast s) \<and>
     (\<exists>fee pegs. get_updated_pegs C p pool s = Inr (fee, pegs) \<and> sw_pegs s' = sw_pegs (pegs_stored C p fee pegs s) \<and>
        sw_block_fee s' = sw_block_fee (pegs_stored C p fee pegs s))"

lemma pool_stepI:
  assumes "sw_pools s p = Some pool" "get_updated_pegs C p pool s = Inr (fee, pegs)"
    and "sw_pools s' = sw_pools s" "sw_tradability s' = sw_tradability s" "share_issuance s' = (share_issuance s)(p := n)"
    and "execution_context (sw_broadcast s') = execution_context (sw_broadcast s)"
    and "sw_pegs s' = sw_pegs (pegs_stored C p fee pegs s)" "sw_block_fee s' = sw_block_fee (pegs_stored C p fee pegs s)"
  shows "pool_step C p pool n s s'"
  using assms unfolding pool_step_def by blast

lemma pegs_and_fee_Inr [res_iff]:
  "pegs_and_fee C persist p pool s = Inr (x, s') \<longleftrightarrow>
     get_updated_pegs C p pool s = Inr x \<and> s' = (if persist then pegs_stored C p (fst x) (snd x) s else s)"
  by (cases x) (auto simp: pegs_and_fee_def res_iff)

lemma calculate_out_amount_Inr:
  "calculate_out_amount C p a b n persist s = Inr (r, s') \<longleftrightarrow> (\<exists>pool i j rs fee pegs. sw_pools s p = Some pool \<and>
     find_asset a (pi_assets pool) = Some i \<and> find_asset b (pi_assets pool) = Some j \<and>
     reserves_with_decimals C pool (pool_account C p) (sw_world s) = Some rs \<and> \<not> ar_is_zero (rs ! i) \<and> \<not> ar_is_zero (rs ! j) \<and>
     get_updated_pegs C p pool s = Inr (fee, pegs) \<and>
     calculate_out_given_in_with_fee (sw_arith C) MAX_D_ITERATIONS MAX_Y_ITERATIONS rs i j n (get_amplification C pool (sw_world s)) fee pegs = Some r \<and>
     s' = (if persist then pegs_stored C p fee pegs s else s))"
  unfolding calculate_out_amount_def Let_def by (cases r; cases persist) (auto simp: res_iff)

lemma calculate_in_amount_Inr:
  "calculate_in_amount C p a b n persist s = Inr (r, s') \<longleftrightarrow> (\<exists>pool i j rs fee pegs. sw_pools s p = Some pool \<and>
     find_asset a (pi_assets pool) = Some i \<and> find_asset b (pi_assets pool) = Some j \<and>
     reserves_with_decimals C pool (pool_account C p) (sw_world s) = Some rs \<and> n < ar_amount (rs ! j) \<and> \<not> ar_is_zero (rs ! i) \<and>
     get_updated_pegs C p pool s = Inr (fee, pegs) \<and>
     calculate_in_given_out_with_fee (sw_arith C) MAX_D_ITERATIONS MAX_Y_ITERATIONS rs i j n (get_amplification C pool (sw_world s)) fee pegs = Some r \<and>
     s' = (if persist then pegs_stored C p fee pegs s else s))"
  unfolding calculate_in_amount_def Let_def by (cases r; cases persist) (auto simp: res_iff)

lemma amounts_persisted:
  assumes "calculate_out_amount C p a b n True s = Inr (r, s') \<or> calculate_in_amount C p a b n True s = Inr (r, s')"
  obtains pool fee pegs where "sw_pools s p = Some pool" "get_updated_pegs C p pool s = Inr (fee, pegs)" "s' = pegs_stored C p fee pegs s"
    "calculate_out_amount C p a b n True s = Inr (r, s') \<Longrightarrow> calculate_out_amount C p a b n False s = Inr (r, s)"
    "calculate_in_amount C p a b n True s = Inr (r, s') \<Longrightarrow> calculate_in_amount C p a b n False s = Inr (r, s)"
  using assms by (auto simp: calculate_out_amount_Inr calculate_in_amount_Inr)

lemma stable_sell_run:
  assumes "stable_sell C orig p a b n l s = Inr s'"
  obtains who pool rs m f w1 w2 st where
    "orig = Signed who" "a \<noteq> b" "n \<le> free_balance C (sw_world s) a who" "sw_pools s p = Some pool"
    "calculate_out_amount C p a b n False s = Inr ((m, f), s)" "l \<le> m"
    "reserves_with_decimals C pool (pool_account C p) (sw_world s) = Some rs"
    "transfer C a who (pool_account C p) n (sw_world s) = Inr w1" "transfer C b (pool_account C p) who m w1 = Inr w2"
    "sw_on_trade C p a b st w2 = Inr (sw_world s')" "pool_step C p pool (share_issuance s p) s s'"
    "stable_ensure_trade_invariant C p rs s' = Inr ()"
proof -
  obtain who pool rs m f s1 s2 s3 s4 where run: "orig = Signed who" "a \<noteq> b" "n \<le> free_balance C (sw_world s) a who" "sw_pools s p = Some pool"
      "reserves_with_decimals C pool (pool_account C p) (sw_world s) = Some rs" "calculate_out_amount C p a b n True s = Inr ((m, f), s1)" "l \<le> m"
      "stable_transfer C a who (pool_account C p) n (save_snapshot C p s1) = Inr s2" "stable_transfer C b (pool_account C p) who m s2 = Inr s3"
      "call_on_trade_hook C p a b rs s3 = Inr s4" "s' = stable_trade_event C who p ExactIn [(a, n)] [(b, m)] [(b, f)] s4"
      "stable_ensure_trade_invariant C p rs s' = Inr ()"
    using assms unfolding stable_sell_def Let_def by (elim run_elims) (auto simp: res_iff)
  from run(6) obtain pool' fee pegs where u: "sw_pools s p = Some pool'" "get_updated_pegs C p pool' s = Inr (fee, pegs)" "s1 = pegs_stored C p fee pegs s"
      "calculate_out_amount C p a b n False s = Inr ((m, f), s)"
    by (metis amounts_persisted)
  from call_hook_Inr(2) [OF run(10)] obtain st w3 where h: "sw_on_trade C p a b st (sw_world s3) = Inr w3" "s4 = s3\<lparr>sw_world := w3\<rparr>" by blast
  show ?thesis
    using run u h by (intro that [of who pool m f rs "sw_world s2" "sw_world s3" st]) (auto simp: res_iff intro!: pool_stepI [where fee = fee and pegs = pegs])
qed

lemma stable_buy_run:
  assumes "stable_buy C orig p b a m l s = Inr s'"
  obtains who pool rs n f w1 w2 st where
    "orig = Signed who" "a \<noteq> b" "n \<le> free_balance C (sw_world s) a who" "sw_pools s p = Some pool"
    "calculate_in_amount C p a b m False s = Inr ((n, f), s)" "n \<le> l"
    "reserves_with_decimals C pool (pool_account C p) (sw_world s) = Some rs"
    "transfer C a who (pool_account C p) n (sw_world s) = Inr w1" "transfer C b (pool_account C p) who m w1 = Inr w2"
    "sw_on_trade C p a b st w2 = Inr (sw_world s')" "pool_step C p pool (share_issuance s p) s s'"
    "stable_ensure_trade_invariant C p rs s' = Inr ()"
proof -
  obtain who pool rs n f s1 s2 s3 s4 where run: "orig = Signed who" "a \<noteq> b" "n \<le> free_balance C (sw_world s1) a who" "sw_pools s p = Some pool"
      "reserves_with_decimals C pool (pool_account C p) (sw_world s) = Some rs" "calculate_in_amount C p a b m True s = Inr ((n, f), s1)" "n \<le> l"
      "stable_transfer C a who (pool_account C p) n (save_snapshot C p s1) = Inr s2" "stable_transfer C b (pool_account C p) who m s2 = Inr s3"
      "call_on_trade_hook C p a b rs s3 = Inr s4" "s' = stable_trade_event C who p ExactOut [(a, n)] [(b, m)] [(a, f)] s4"
      "stable_ensure_trade_invariant C p rs s' = Inr ()"
    using assms unfolding stable_buy_def Let_def by (elim run_elims) (auto simp: res_iff)
  from run(6) obtain pool' fee pegs where u: "sw_pools s p = Some pool'" "get_updated_pegs C p pool' s = Inr (fee, pegs)" "s1 = pegs_stored C p fee pegs s"
      "calculate_in_amount C p a b m False s = Inr ((n, f), s)"
    by (metis amounts_persisted)
  from call_hook_Inr(2) [OF run(10)] obtain st w3 where h: "sw_on_trade C p a b st (sw_world s3) = Inr w3" "s4 = s3\<lparr>sw_world := w3\<rparr>" by blast
  show ?thesis
    using run u h by (intro that [of who n pool f rs "sw_world s2" "sw_world s3" st]) (auto simp: res_iff intro!: pool_stepI [where fee = fee and pegs = pegs])
qed

lemma get_updated_pegs_cong:
  "sw_pegs s' p = sw_pegs s p \<Longrightarrow> sw_block_fee s' p = sw_block_fee s p \<Longrightarrow> sw_world s' = sw_world s \<Longrightarrow>
     get_updated_pegs C p pool s' = get_updated_pegs C p pool s"
  by (simp add: get_updated_pegs_def cong: option.case_cong if_cong)

lemma get_updated_pegs_snapshot [simp]: "get_updated_pegs C p pool (save_snapshot C q s) = get_updated_pegs C p pool s"
  by (rule get_updated_pegs_cong) simp_all

lemma pegs_stored_snapshot [simp]:
  "sw_pegs (pegs_stored C p fee pegs (save_snapshot C q s)) = sw_pegs (pegs_stored C p fee pegs s)"
  "sw_block_fee (pegs_stored C p fee pegs (save_snapshot C q s)) = sw_block_fee (pegs_stored C p fee pegs s)"
  by (simp_all add: pegs_stored_def split: option.splits)

text \<open>The transfers of a list depend on the world only.\<close>

lemma transfer_all_world:
  assumes "transfer_all C x y ts s = Inr s'"
  obtains w where "s' = s\<lparr>sw_world := w\<rparr>" "\<And>t. sw_world t = sw_world s \<Longrightarrow> transfer_all C x y ts t = Inr (t\<lparr>sw_world := w\<rparr>)"
proof -
  have "\<exists>w. s' = s\<lparr>sw_world := w\<rparr> \<and> (\<forall>t. sw_world t = sw_world s \<longrightarrow> transfer_all C x y ts t = Inr (t\<lparr>sw_world := w\<rparr>))"
    using assms
  proof (induction ts arbitrary: s)
    case Nil
    then show ?case by (intro exI [of _ "sw_world s"]) auto
  next
    case (Cons z ts)
    then obtain w where w: "transfer C (fst z) x y (snd z) (sw_world s) = Inr w" "transfer_all C x y ts (s\<lparr>sw_world := w\<rparr>) = Inr s'"
      by (auto simp: res_iff)
    obtain v where v: "s' = s\<lparr>sw_world := v\<rparr>" "\<And>t. sw_world t = w \<Longrightarrow> transfer_all C x y ts t = Inr (t\<lparr>sw_world := v\<rparr>)"
      using Cons.IH [OF w(2)] by auto
    have "transfer_all C x y (z # ts) t = Inr (t\<lparr>sw_world := v\<rparr>)" if "sw_world t = sw_world s" for t
      using v(2) [of "t\<lparr>sw_world := w\<rparr>"] w(1) that by (auto simp: res_iff)
    then show ?case using v(1) by blast
  qed
  then show ?thesis using that by blast
qed

lemma ensure_invariant_event [simp]:
  "ensure_add_liquidity_invariant C p rs n (stable_trade_event C who q k is os fs s) = ensure_add_liquidity_invariant C p rs n s"
  "ensure_remove_liquidity_invariant C p rs n (stable_trade_event C who q k is os fs s) = ensure_remove_liquidity_invariant C p rs n s"
proof -
  have u: "get_updated_pegs C p pool (stable_trade_event C who q k is os fs s) = get_updated_pegs C p pool s" for pool
    by (rule get_updated_pegs_cong) simp_all
  show "ensure_add_liquidity_invariant C p rs n (stable_trade_event C who q k is os fs s) = ensure_add_liquidity_invariant C p rs n s"
    "ensure_remove_liquidity_invariant C p rs n (stable_trade_event C who q k is os fs s) = ensure_remove_liquidity_invariant C p rs n s"
    by (simp_all add: ensure_add_liquidity_invariant_def ensure_remove_liquidity_invariant_def ensure_issuance_in_sync_def invariants_around_def u
        cong: if_cong option.case_cong)
qed

lemma stable_do_add_liquidity_run:
  assumes "stable_do_add_liquidity C who p assets l s = Inr (m, s')"
  obtains pool added init upd prov fee pegs fs w1 w2 st where
    "sw_pools s p = Some pool" "length assets \<le> length (pi_assets pool)" "collect_added C who p assets [] s = Inr added"
    "gather_reserves C (pool_account C p) (share_issuance s p) (sw_world s) (pi_assets pool) added = Inr (init, upd, prov, [])"
    "get_updated_pegs C p pool s = Inr (fee, pegs)"
    "calculate_stable_shares (sw_arith C) MAX_D_ITERATIONS init upd (get_amplification C pool (sw_world s)) (share_issuance s p) fee pegs = Some (m, fs)"
    "l \<le> m" "0 < m" "deposit C p who m (sw_world s) = Inr w1"
    "transfer_all C who (pool_account C p) assets (s\<lparr>sw_world := w1\<rparr>) = Inr (s\<lparr>sw_world := w2\<rparr>)"
    "sw_on_liquidity_changed C p st w2 = Inr (sw_world s')" "pool_step C p pool (share_issuance s p + m) s s'" "share_issuance s p + m \<le> umax 128"
    "ensure_add_liquidity_invariant C p init (share_issuance s p) s' = Inr ()"
proof -
  let ?i = "share_issuance s p" and ?P = "pool_account C p" and ?s0 = "save_snapshot C p s"
  obtain pool added init upd prov fee pegs s1 fs s2 s3 s4 where run: "sw_pools s p = Some pool" "length assets \<le> length (pi_assets pool)"
      "collect_added C who p assets [] s = Inr added" "gather_reserves C ?P ?i (sw_world s) (pi_assets pool) added = Inr (init, upd, prov, [])"
      "update_and_return_pegs_and_trade_fee C p pool ?s0 = Inr ((fee, pegs), s1)"
      "calculate_stable_shares (sw_arith C) MAX_D_ITERATIONS init upd (get_amplification C pool (sw_world s)) ?i fee pegs = Some (m, fs)"
      "l \<le> m" "0 < m" "stable_mint_shares C p who m s1 = Inr s2" "transfer_all C who ?P assets s2 = Inr s3"
      "call_on_liquidity_change_hook C p init ?i s3 = Inr s4" "ensure_add_liquidity_invariant C p init ?i s4 = Inr ()"
      "s' = stable_trade_event C who p LiquidityAdd prov [(p, m)] (map (\<lambda>(b, a). (a, b)) (zip fs (pi_assets pool))) s4"
    using assms unfolding stable_do_add_liquidity_def Let_def by (elim run_elims) (auto simp: res_iff)
  from call_hook_Inr(1) [OF run(11)] obtain st w3 where h: "sw_on_liquidity_changed C p st (sw_world s3) = Inr w3" "s4 = s3\<lparr>sw_world := w3\<rparr>" by blast
  from transfer_all_world [OF run(10)] obtain w2 where t: "s3 = s2\<lparr>sw_world := w2\<rparr>"
    "\<And>t. sw_world t = sw_world s2 \<Longrightarrow> transfer_all C who ?P assets t = Inr (t\<lparr>sw_world := w2\<rparr>)" by blast
  show ?thesis
  proof (rule that [of pool added init upd prov fee pegs fs "sw_world s2" w2 st])
    show "transfer_all C who ?P assets (s\<lparr>sw_world := sw_world s2\<rparr>) = Inr (s\<lparr>sw_world := w2\<rparr>)" by (simp add: t(2))
    show "pool_step C p pool (?i + m) s s'"
      using run h t(1) by (intro pool_stepI [where fee = fee and pegs = pegs]) (auto simp: res_iff)
  qed (use run h t(1) in \<open>auto simp: res_iff\<close>)
qed

lemma do_add_liquidity_shares_run:
  assumes "do_add_liquidity_shares C who p m a l s = Inr (n, s')"
  obtains pool i rs fee pegs f w1 w2 st where
    "sw_pools s p = Some pool" "find_asset a (pi_assets pool) = Some i"
    "reserves_with_decimals C pool (pool_account C p) (sw_world s) = Some rs" "get_updated_pegs C p pool s = Inr (fee, pegs)"
    "calculate_add_one_asset (sw_arith C) MAX_D_ITERATIONS MAX_Y_ITERATIONS rs m i (share_issuance s p) (get_amplification C pool (sw_world s)) fee pegs = Some (n, f)"
    "n \<le> l" "0 < n" "deposit C p who m (sw_world s) = Inr w1" "transfer C a who (pool_account C p) n w1 = Inr w2"
    "sw_on_liquidity_changed C p st w2 = Inr (sw_world s')" "pool_step C p pool (share_issuance s p + m) s s'" "share_issuance s p + m \<le> umax 128"
    "ensure_add_liquidity_invariant C p rs (share_issuance s p) s' = Inr ()"
proof -
  let ?i = "share_issuance s p" and ?P = "pool_account C p"
  obtain pool i rs fee pegs s1 f s2 s3 s4 where run: "sw_pools s p = Some pool" "find_asset a (pi_assets pool) = Some i"
      "reserves_with_decimals C pool ?P (sw_world s) = Some rs" "update_and_return_pegs_and_trade_fee C p pool s = Inr ((fee, pegs), s1)"
      "calculate_add_one_asset (sw_arith C) MAX_D_ITERATIONS MAX_Y_ITERATIONS rs m i ?i (get_amplification C pool (sw_world s)) fee pegs = Some (n, f)"
      "n \<le> l" "0 < n" "stable_mint_shares C p who m (save_snapshot C p s1) = Inr s2" "stable_transfer C a who ?P n s2 = Inr s3"
      "call_on_liquidity_change_hook C p rs ?i s3 = Inr s4" "ensure_add_liquidity_invariant C p rs ?i s4 = Inr ()"
      "s' = stable_trade_event C who p LiquidityAdd [(a, n)] [(p, m)] [(p, f)] s4"
    using assms unfolding do_add_liquidity_shares_def Let_def by (elim run_elims) (auto simp: res_iff)
  from call_hook_Inr(1) [OF run(10)] obtain st w3 where h: "sw_on_liquidity_changed C p st (sw_world s3) = Inr w3" "s4 = s3\<lparr>sw_world := w3\<rparr>" by blast
  show ?thesis
    using run h by (intro that [of pool i rs fee pegs f "sw_world s2" "sw_world s3" st])
      (auto simp: res_iff intro!: pool_stepI [where fee = fee and pegs = pegs])
qed

lemma do_remove_liquidity_one_asset_run:
  assumes "do_remove_liquidity_one_asset C who p a n l s = Inr (m, s')"
  obtains pool i rs fee pegs f w1 w2 st where
    "sw_pools s p = Some pool" "find_asset a (pi_assets pool) = Some i" "0 < n" "n \<le> free_balance C (sw_world s) p who"
    "reserves_with_decimals C pool (pool_account C p) (sw_world s) = Some rs" "get_updated_pegs C p pool s = Inr (fee, pegs)"
    "calculate_withdraw_one_asset (sw_arith C) MAX_D_ITERATIONS MAX_Y_ITERATIONS rs n i (share_issuance s p) (get_amplification C pool (sw_world s)) fee pegs = Some (m, f)"
    "l \<le> m" "0 < m" "withdraw C p who n (sw_world s) = Inr w1" "transfer C a (pool_account C p) who m w1 = Inr w2"
    "sw_on_liquidity_changed C p st w2 = Inr (sw_world s')" "pool_step C p pool (share_issuance s p - n) s s'" "n \<le> share_issuance s p"
    "ensure_remove_liquidity_invariant C p rs (share_issuance s p) s' = Inr ()"
proof -
  let ?i = "share_issuance s p" and ?P = "pool_account C p"
  obtain pool i rs fee pegs s1 f s2 s3 s4 where run: "sw_pools s p = Some pool" "find_asset a (pi_assets pool) = Some i"
      "0 < n" "n \<le> free_balance C (sw_world s) p who"
      "reserves_with_decimals C pool ?P (sw_world s) = Some rs" "update_and_return_pegs_and_trade_fee C p pool s = Inr ((fee, pegs), s1)"
      "calculate_withdraw_one_asset (sw_arith C) MAX_D_ITERATIONS MAX_Y_ITERATIONS rs n i ?i (get_amplification C pool (sw_world s)) fee pegs = Some (m, f)"
      "l \<le> m" "0 < m" "stable_burn_shares C p who n (save_snapshot C p s1) = Inr s2" "stable_transfer C a ?P who m s2 = Inr s3"
      "call_on_liquidity_change_hook C p rs ?i s3 = Inr s4" "ensure_remove_liquidity_invariant C p rs ?i s' = Inr ()"
      "s' = stable_trade_event C who p LiquidityRemove [(p, n)] [(a, m)] [(p, f)] s4"
    using assms unfolding do_remove_liquidity_one_asset_def Let_def by (elim run_elims) (auto simp: res_iff)
  from call_hook_Inr(1) [OF run(12)] obtain st w3 where h: "sw_on_liquidity_changed C p st (sw_world s3) = Inr w3" "s4 = s3\<lparr>sw_world := w3\<rparr>" by blast
  show ?thesis
    using run h by (intro that [of pool i rs fee pegs f "sw_world s2" "sw_world s3" st])
      (auto simp: res_iff intro!: pool_stepI [where fee = fee and pegs = pegs])
qed

lemma withdraw_asset_amount_run:
  assumes "withdraw_asset_amount C orig p a m l s = Inr s'"
  obtains who pool i rs fee pegs n fs w1 w2 st where
    "orig = Signed who" "sw_pools s p = Some pool" "find_asset a (pi_assets pool) = Some i"
    "reserves_with_decimals C pool (pool_account C p) (sw_world s) = Some rs" "get_updated_pegs C p pool s = Inr (fee, pegs)"
    "calculate_shares_for_amount (sw_arith C) MAX_D_ITERATIONS rs i m (get_amplification C pool (sw_world s)) (share_issuance s p) fee pegs = Some (n, fs)"
    "n \<le> l" "0 < n" "0 < m" "withdraw C p who n (sw_world s) = Inr w1" "transfer C a (pool_account C p) who m w1 = Inr w2"
    "sw_on_liquidity_changed C p st w2 = Inr (sw_world s')" "pool_step C p pool (share_issuance s p - n) s s'" "n \<le> share_issuance s p"
    "ensure_remove_liquidity_invariant C p rs (share_issuance s p) s' = Inr ()"
proof -
  let ?i = "share_issuance s p" and ?P = "pool_account C p"
  obtain who pool i rs fee pegs s1 n fs s2 s3 s4 where run: "orig = Signed who" "sw_pools s p = Some pool" "find_asset a (pi_assets pool) = Some i"
      "reserves_with_decimals C pool ?P (sw_world s) = Some rs" "update_and_return_pegs_and_trade_fee C p pool s = Inr ((fee, pegs), s1)"
      "calculate_shares_for_amount (sw_arith C) MAX_D_ITERATIONS rs i m (get_amplification C pool (sw_world s)) ?i fee pegs = Some (n, fs)"
      "n \<le> l" "0 < n" "0 < m" "stable_burn_shares C p who n (save_snapshot C p s1) = Inr s2" "stable_transfer C a ?P who m s2 = Inr s3"
      "call_on_liquidity_change_hook C p rs ?i s3 = Inr s4" "ensure_remove_liquidity_invariant C p rs ?i s' = Inr ()"
      "s' = stable_trade_event C who p LiquidityRemove [(p, n)] [(a, m)] (map (\<lambda>(b, a). (a, b)) (zip fs (pi_assets pool))) s4"
    using assms unfolding withdraw_asset_amount_def Let_def by (elim run_elims) (auto simp: res_iff)
  from call_hook_Inr(1) [OF run(12)] obtain st w3 where h: "sw_on_liquidity_changed C p st (sw_world s3) = Inr w3" "s4 = s3\<lparr>sw_world := w3\<rparr>" by blast
  show ?thesis
    using run h by (intro that [of who pool i rs fee pegs n fs "sw_world s2" "sw_world s3" st])
      (auto simp: res_iff intro!: pool_stepI [where fee = fee and pegs = pegs])
qed

section \<open>The invariant of the storage\<close>

definition stable_pool_ok :: "('w, 'z) stable_config_scheme \<Rightarrow> asset_id \<Rightarrow> pool_info \<Rightarrow> bool" where
  "stable_pool_ok C p pool \<longleftrightarrow> 2 \<le> length (pi_assets pool) \<and> length (pi_assets pool) \<le> MAX_ASSETS_IN_POOL \<and> sorted_wrt (<) (pi_assets pool) \<and>
     p \<notin> set (pi_assets pool) \<and> 0 < initial_amplification pool \<and> 0 < final_amplification pool \<and>
     initial_amplification pool \<in> {fst (amplification_range C)..snd (amplification_range C)} \<and>
     final_amplification pool \<in> {fst (amplification_range C)..snd (amplification_range C)}"

definition pegs_ok :: "asset_id \<Rightarrow> pool_peg_info \<Rightarrow> 'w stableswap \<Rightarrow> bool" where
  "pegs_ok p info s \<longleftrightarrow> (\<exists>pool. sw_pools s p = Some pool \<and> length (current_pegs info) = length (pi_assets pool) \<and>
     length (pi_assets pool) \<le> length (peg_sources info))"

definition flags_ok :: "asset_id \<Rightarrow> asset_id \<Rightarrow> 'w stableswap \<Rightarrow> bool" where
  "flags_ok p a s \<longleftrightarrow> sw_tradability s (p, a) = stable_flags_default \<or> (\<exists>pool. sw_pools s p = Some pool \<and> a \<in> set (pi_assets pool))"

definition stable_inv :: "('w, 'z) stable_config_scheme \<Rightarrow> 'w stableswap \<Rightarrow> bool" where
  "stable_inv C s \<longleftrightarrow> (\<forall>p pool. sw_pools s p = Some pool \<longrightarrow> stable_pool_ok C p pool) \<and> (\<forall>p info. sw_pegs s p = Some info \<longrightarrow> pegs_ok p info s) \<and>
     (\<forall>p. sw_pools s p = None \<longrightarrow> share_issuance s p = 0) \<and> (\<forall>p a. flags_ok p a s)"

lemma stable_invD:
  assumes "stable_inv C s"
  shows "sw_pools s p = Some pool \<Longrightarrow> stable_pool_ok C p pool" "sw_pegs s p = Some info \<Longrightarrow> pegs_ok p info s"
    "sw_pools s p = None \<Longrightarrow> share_issuance s p = 0" "flags_ok p a s"
  using assms unfolding stable_inv_def by blast+

lemma stable_inv_cong:
  assumes "sw_pools s' = sw_pools s" "sw_pegs s' = sw_pegs s" "sw_tradability s' = sw_tradability s" "share_issuance s' = share_issuance s"
  shows "stable_inv C s' = stable_inv C s"
  using assms by (simp add: stable_inv_def pegs_ok_def flags_ok_def)

lemma stable_inv_world [simp]: "stable_inv C (s\<lparr>sw_world := w\<rparr>) = stable_inv C s" "stable_inv C (s\<lparr>sw_broadcast := b\<rparr>) = stable_inv C s"
  by (rule stable_inv_cong; simp)+

lemma length_raw_entries: "raw_entries C w xs = Inr ys \<Longrightarrow> length ys = length xs"
  by (induction xs arbitrary: ys) (auto simp: res_iff split: sum.splits)

lemma length_target_pegs: "get_target_pegs C as srcs w = Inr ys \<Longrightarrow> length ys = min (length as) (length srcs)"
  by (auto simp: get_target_pegs_def dest: length_raw_entries split: if_splits)

lemma length_recalculate: "recalculate_pegs A cur at tar now mx fee = Some (f, pegs) \<Longrightarrow> length tar = length cur \<Longrightarrow> length pegs = length cur"
  by (auto simp: recalculate_pegs_def Let_def calculate_new_pegs_def calculate_peg_deltas_def)

lemma length_updated_pegs:
  assumes "stable_inv C s" "sw_pools s p = Some pool" "get_updated_pegs C p pool s = Inr (fee, pegs)"
  shows "length pegs = length (pi_assets pool)"
proof (cases "sw_pegs s p")
  case None
  then show ?thesis using assms(3) by (auto simp: get_updated_pegs_def)
next
  case (Some info)
  have ok: "length (current_pegs info) = length (pi_assets pool)" "length (pi_assets pool) \<le> length (peg_sources info)"
    using stable_invD(2) [OF assms(1) Some] assms(2) by (auto simp: pegs_ok_def)
  obtain target where t: "get_target_pegs C (pi_assets pool) (peg_sources info) (sw_world s) = Inr target"
    "(if peg_updated_at info = sw_now C (sw_world s)
      then Inr (case sw_block_fee s p of Some fee \<Rightarrow> fee | None \<Rightarrow> pi_fee pool, current_pegs info)
      else ok_or (recalculate_pegs (sw_arith C) (current_pegs info) (peg_updated_at info) target (sw_now C (sw_world s)) (max_peg_update info) (pi_fee pool))
             (Arithmetic Arith_Overflow)) = (Inr (fee, pegs) :: (nat \<times> peg_type list) stable_result)"
    using assms(3) unfolding get_updated_pegs_def Some option.case Let_def by (elim tryR_E) (rule that)
  have "length target = length (current_pegs info)" using length_target_pegs [OF t(1)] ok by simp
  then show ?thesis using t(2) ok(1) by (auto simp: res_iff dest: length_recalculate split: if_splits)
qed

lemma pool_step_inv:
  assumes "stable_inv C s" "pool_step C p pool n s s'"
  shows "stable_inv C s'"
proof -
  obtain fee pegs where st: "sw_pools s p = Some pool" "sw_pools s' = sw_pools s" "sw_tradability s' = sw_tradability s"
      "share_issuance s' = (share_issuance s)(p := n)" "get_updated_pegs C p pool s = Inr (fee, pegs)" "sw_pegs s' = sw_pegs (pegs_stored C p fee pegs s)"
    using assms(2) by (auto simp: pool_step_def)
  have len: "length (take MAX_ASSETS_IN_POOL pegs) = length (pi_assets pool)"
    using length_updated_pegs [OF assms(1) st(1,5)] stable_invD(1) [OF assms(1) st(1)] by (simp add: stable_pool_ok_def)
  have "pegs_ok q info s'" if "sw_pegs s' q = Some info" for q info
  proof (cases "q = p \<and> sw_pegs s p \<noteq> None")
    case True
    then obtain i where i: "sw_pegs s p = Some i" by blast
    then have "info = with_new_pegs i pegs (sw_now C (sw_world s))" using that True by (simp add: st(6) pegs_stored_pegs)
    then show ?thesis using stable_invD(2) [OF assms(1) i] len True st(1,2) by (simp add: pegs_ok_def with_new_pegs_def)
  next
    case False
    then have "sw_pegs s q = Some info" using that by (auto simp: st(6) pegs_stored_pegs split: option.splits if_splits)
    then show ?thesis using stable_invD(2) [OF assms(1)] st(2) by (simp add: pegs_ok_def)
  qed
  moreover have "share_issuance s' q = 0" if "sw_pools s' q = None" for q using that stable_invD(3) [OF assms(1)] st by auto
  moreover have "flags_ok q a s'" for q a using stable_invD(4) [OF assms(1)] st(2,3) by (simp add: flags_ok_def)
  ultimately show ?thesis using stable_invD(1) [OF assms(1)] st(2) unfolding stable_inv_def by auto
qed

lemma amplification_between:
  assumes "i \<in> {lo..hi}" "f \<in> {lo..hi}" "hi \<le> umax 128"
  shows "calculate_amplification i f b0 b1 now \<in> {lo..hi}"
proof (cases "now < b0 \<or> b1 \<le> b0 \<or> b1 \<le> now")
  case True
  then show ?thesis using assms by (auto simp: calculate_amplification_def)
next
  case False
  define step where "step = saturating_mul 128 (abs_diff f i) (saturating_sub now b0) div saturating_sub b1 b0"
  have "step \<le> abs_diff f i * (now - b0) div (b1 - b0)" unfolding step_def saturating_sub_def by (intro div_le_mono) (simp add: saturating_mul_def)
  also have "\<dots> \<le> abs_diff f i * (b1 - b0) div (b1 - b0)" using False by (intro div_le_mono mult_le_mono) auto
  finally have "step \<le> abs_diff f i" using False by simp
  moreover have "calculate_amplification i f b0 b1 now = (if i < f then saturating_add 128 i step else saturating_sub i step)"
    using False by (simp add: calculate_amplification_def step_def Let_def)
  ultimately show ?thesis using assms by (auto simp: abs_diff_def saturating_add_def saturating_sub_def split: if_splits)
qed

lemma do_create_pool_inv:
  assumes inv: "stable_inv C s" and run: "do_create_pool C p assets amp fee info s = Inr s'" and amp: "amp \<noteq> 0"
    and info: "\<And>i. info = Some i \<Longrightarrow> length (current_pegs i) \<le> length (peg_sources i)"
  shows "stable_inv C s'"
proof -
  define pool where "pool = \<lparr>pi_assets = sort assets, initial_amplification = amp, final_amplification = amp,
    initial_block = sw_now C (sw_world s), final_block = sw_now C (sw_world s), pi_fee = fee\<rparr>"
  obtain s1 w where run1: "sw_pools s p = None" "p \<notin> set assets" "length (sort assets) \<le> MAX_ASSETS_IN_POOL" "pool_is_valid pool"
      "fst (amplification_range C) \<le> amp \<and> amp \<le> snd (amplification_range C)"
      "(case info of
              None \<Rightarrow> Inr s
            | Some p' \<Rightarrow>
                ensure (length (current_pegs p') = length (pi_assets pool)) (Module IncorrectInitialPegs) (
                tryR (ok_or (those (map (sw_decimals C (sw_world s)) (pi_assets pool))) (Module UnknownDecimals)) (\<lambda>decimals_info.
                ensure (list_ex (\<lambda>x. case x of Peg_Oracle _ _ _ \<Rightarrow> True | _ \<Rightarrow> False) (peg_sources p') \<longrightarrow> list_all (\<lambda>x. x = hd decimals_info) decimals_info)
                  (Module IncorrectAssetDecimals) (
                Inr (s\<lparr>sw_pegs := (sw_pegs s)(p \<mapsto> p')\<rparr>))))) = Inr s1"
      "s' = s1\<lparr>sw_pools := (sw_pools s1)(p \<mapsto> pool), sw_world := w\<rparr>"
    using run unfolding do_create_pool_def Let_def pool_def [symmetric] by (elim run_elims) blast
  have s1: "s1 = s\<lparr>sw_pegs := (case info of None \<Rightarrow> sw_pegs s | Some i \<Rightarrow> (sw_pegs s)(p \<mapsto> i))\<rparr>"
    "\<And>i. info = Some i \<Longrightarrow> length (current_pegs i) = length assets"
    using run1(6) by (cases info; auto simp: res_iff pool_def)+
  have st: "sw_pools s p = None" "p \<notin> set assets" "length assets \<le> MAX_ASSETS_IN_POOL" "pool_is_valid pool"
      "amp \<in> {fst (amplification_range C)..snd (amplification_range C)}" "\<And>i. info = Some i \<Longrightarrow> length (current_pegs i) = length assets"
      "s' = s\<lparr>sw_pegs := (case info of None \<Rightarrow> sw_pegs s | Some i \<Rightarrow> (sw_pegs s)(p \<mapsto> i)), sw_pools := (sw_pools s)(p \<mapsto> pool), sw_world := w\<rparr>"
    using run1 s1 by auto
  have "stable_pool_ok C p pool" using st amp by (auto simp: stable_pool_ok_def pool_is_valid_def pool_def strict_sorted_iff)
  moreover have "pegs_ok q i s'" if "sw_pegs s' q = Some i" for q i
  proof (cases "q = p")
    case True
    have "sw_pegs s p = None" using stable_invD(2) [OF inv, of p] st(1) by (cases "sw_pegs s p") (auto simp: pegs_ok_def)
    then have "info = Some i" using that True by (auto simp: st(7) split: option.splits)
    then show ?thesis using True st(6) [of i] info [of i] by (simp add: pegs_ok_def st(7) pool_def)
  next
    case False
    then have "sw_pegs s q = Some i" using that by (auto simp: st(7) split: option.splits)
    then show ?thesis using stable_invD(2) [OF inv] False by (auto simp: pegs_ok_def st(7))
  qed
  moreover have "flags_ok q a s'" for q a
  proof -
    have "flags_ok q a s" by (rule stable_invD(4) [OF inv])
    then show ?thesis using st(1) by (auto simp: flags_ok_def st(7))
  qed
  ultimately show ?thesis using stable_invD(1,3) [OF inv] unfolding stable_inv_def by (auto simp: st(7))
qed

lemma create_pool_inv:
  "stable_create_pool C orig p as amp fee s = Inr s' \<Longrightarrow> stable_inv C s \<Longrightarrow> stable_inv C s'"
  "create_pool_with_pegs C orig p as amp fee srcs mx s = Inr s' \<Longrightarrow> stable_inv C s \<Longrightarrow> stable_inv C s'"
proof -
  show "stable_inv C s'" if "stable_create_pool C orig p as amp fee s = Inr s'" "stable_inv C s"
    using that do_create_pool_inv [of C s p as amp fee None s'] by (auto simp: stable_create_pool_def res_iff)
  show "stable_inv C s'" if run: "create_pool_with_pegs C orig p as amp fee srcs mx s = Inr s'" and inv: "stable_inv C s"
  proof -
    obtain ts where ts: "amp \<noteq> 0" "get_target_pegs C as srcs (sw_world s) = Inr ts"
        "do_create_pool C p as amp fee (Some \<lparr>peg_sources = srcs, peg_updated_at = sw_now C (sw_world s), max_peg_update = mx,
           current_pegs = take MAX_ASSETS_IN_POOL (map fst ts)\<rparr>) s = Inr s'"
      using run by (auto simp: create_pool_with_pegs_def res_iff)
    show ?thesis by (rule do_create_pool_inv [OF inv ts(3,1)]) (use length_target_pegs [OF ts(2)] in auto)
  qed
qed

lemma pool_update_inv:
  assumes "stable_inv C s" "sw_pools s p = Some pool" "stable_pool_ok C p pool'" "pi_assets pool' = pi_assets pool"
  shows "stable_inv C (s\<lparr>sw_pools := (sw_pools s)(p \<mapsto> pool')\<rparr>)"
proof -
  have "pegs_ok q i (s\<lparr>sw_pools := (sw_pools s)(p \<mapsto> pool')\<rparr>)" if "sw_pegs s q = Some i" for q i
    using stable_invD(2) [OF assms(1) that] assms by (auto simp: pegs_ok_def)
  moreover have "flags_ok q a (s\<lparr>sw_pools := (sw_pools s)(p \<mapsto> pool')\<rparr>)" for q a
    using stable_invD(4) [OF assms(1), of q a] assms by (auto simp: flags_ok_def)
  ultimately show ?thesis using stable_invD(1,3) [OF assms(1)] assms(3) unfolding stable_inv_def by auto
qed

lemma pegs_update_inv:
  assumes "stable_inv C s" "sw_pegs s p = Some info" "length (current_pegs info') = length (current_pegs info)"
    "length (peg_sources info') = length (peg_sources info)"
  shows "stable_inv C (s\<lparr>sw_pegs := (sw_pegs s)(p \<mapsto> info')\<rparr>)"
proof -
  have "pegs_ok q i (s\<lparr>sw_pegs := (sw_pegs s)(p \<mapsto> info')\<rparr>)" if "((sw_pegs s)(p \<mapsto> info')) q = Some i" for q i
    using stable_invD(2) [OF assms(1,2)] stable_invD(2) [OF assms(1), of q i] that assms(3,4)
    by (auto simp: pegs_ok_def split: if_splits)
  moreover have "flags_ok q a (s\<lparr>sw_pegs := (sw_pegs s)(p \<mapsto> info')\<rparr>)" for q a
    using stable_invD(4) [OF assms(1), of q a] by (simp add: flags_ok_def)
  ultimately show ?thesis using stable_invD(1,3) [OF assms(1)] unfolding stable_inv_def by simp
qed

end
