(* ===== verification/Stableswap_Runs.thy ===== *)
theory Stableswap_Runs
  imports Stableswap_Steps
begin

text \<open>
  The transition system of the stableswap pallet: every extrinsic, the calls of other pallets, block ends and foreign activity. What
  the storage satisfies in each reachable state, and what a proportional withdrawal pays.
\<close>

section \<open>Parameters\<close>

text \<open>What the types of the configuration say: the bounds of the amplification are 16 bits wide.\<close>

locale stable_params =
  fixes C :: "('w, 'z) stable_config_scheme"
  assumes range_u16: "snd (amplification_range C) \<le> umax 16"
begin

lemma amplification_in_range:
  assumes "stable_pool_ok C p pool"
  shows "get_amplification C pool w \<in> {fst (amplification_range C)..snd (amplification_range C)}"
proof -
  have "snd (amplification_range C) \<le> umax 128" using range_u16 by (simp add: umax_def)
  then show ?thesis unfolding get_amplification_def using assms by (intro amplification_between) (auto simp: stable_pool_ok_def)
qed

lemma amplification_positive:
  assumes "stable_pool_ok C p pool"
  shows "0 < get_amplification C pool w"
proof -
  have "get_amplification C pool w \<in> {1..umax 16}"
    unfolding get_amplification_def using assms range_u16 by (intro amplification_between) (auto simp: stable_pool_ok_def umax_def)
  then show ?thesis by simp
qed

lemma update_amplification_inv:
  assumes "stable_inv C s" "update_amplification C orig p amp b0 b1 s = Inr s'"
  shows "stable_inv C s'"
proof -
  obtain pool where pool: "sw_pools s p = Some pool" "amp \<noteq> 0" "min (umax 16) (get_amplification C pool (sw_world s)) \<noteq> 0"
      "fst (amplification_range C) \<le> amp" "amp \<le> snd (amplification_range C)"
      "s' = s\<lparr>sw_pools := (sw_pools s)(p \<mapsto> pool\<lparr>initial_amplification := min (umax 16) (get_amplification C pool (sw_world s)),
         final_amplification := amp, initial_block := b0, final_block := b1\<rparr>)\<rparr>"
    using assms(2) unfolding update_amplification_def Let_def by (elim run_elims) auto
  have ok: "stable_pool_ok C p pool" by (rule stable_invD(1) [OF assms(1) pool(1)])
  have "min (umax 16) (get_amplification C pool (sw_world s)) = get_amplification C pool (sw_world s)"
    using amplification_in_range [OF ok, of "sw_world s"] range_u16 by simp
  then show ?thesis
    unfolding pool(6) using pool(2-5) ok amplification_in_range [OF ok, of "sw_world s"]
    by (intro pool_update_inv [OF assms(1) pool(1)]) (auto simp: stable_pool_ok_def)
qed

end

lemma update_pool_fee_inv:
  assumes "stable_inv C s" "update_pool_fee C orig p fee s = Inr s'"
  shows "stable_inv C s'"
proof -
  obtain pool where pool: "sw_pools s p = Some pool" "s' = s\<lparr>sw_pools := (sw_pools s)(p \<mapsto> pool\<lparr>pi_fee := fee\<rparr>)\<rparr>"
    using assms(2) by (auto simp: update_pool_fee_def res_iff)
  then show ?thesis unfolding pool(2) using stable_invD(1) [OF assms(1) pool(1)]
    by (intro pool_update_inv [OF assms(1) pool(1)]) (auto simp: stable_pool_ok_def)
qed

lemma find_asset_Some [simp]: "find_asset a as = Some i \<longleftrightarrow> a \<in> set as \<and> i = length (takeWhile (\<lambda>v. v \<noteq> a) as)"
  by (auto simp: find_asset_def)

lemma stable_tradable_state_inv:
  assumes "stable_inv C s" "stable_set_asset_tradable_state C orig p a f s = Inr s'"
  shows "stable_inv C s'"
proof -
  obtain pool where pool: "sw_pools s p = Some pool" "a \<in> set (pi_assets pool)" "s' = s\<lparr>sw_tradability := (sw_tradability s)((p, a) := f)\<rparr>"
    using assms(2) by (auto simp: stable_set_asset_tradable_state_def res_iff)
  have "flags_ok q b s'" for q b using stable_invD(4) [OF assms(1), of q b] pool by (auto simp: flags_ok_def)
  then show ?thesis using stable_invD(1-3) [OF assms(1)] unfolding stable_inv_def by (simp add: pool(3) pegs_ok_def)
qed

lemma peg_params_inv:
  "stable_inv C s \<Longrightarrow> update_asset_peg_source C orig p a src s = Inr s' \<Longrightarrow> stable_inv C s'"
  "stable_inv C s \<Longrightarrow> update_pool_max_peg_update C orig p mx s = Inr s' \<Longrightarrow> stable_inv C s'"
proof -
  assume inv: "stable_inv C s"
  show "stable_inv C s'" if run: "update_asset_peg_source C orig p a src s = Inr s'"
  proof -
    obtain info i where "sw_pegs s p = Some info" "s' = s\<lparr>sw_pegs := (sw_pegs s)(p \<mapsto> info\<lparr>peg_sources := (peg_sources info)[i := src]\<rparr>)\<rparr>"
      using run by (auto simp: update_asset_peg_source_def res_iff)
    then show ?thesis using pegs_update_inv [OF inv] by simp
  qed
  show "stable_inv C s'" if run: "update_pool_max_peg_update C orig p mx s = Inr s'"
  proof -
    obtain info where "sw_pegs s p = Some info" "s' = s\<lparr>sw_pegs := (sw_pegs s)(p \<mapsto> info\<lparr>max_peg_update := mx\<rparr>)\<rparr>"
      using run by (auto simp: update_pool_max_peg_update_def res_iff)
    then show ?thesis using pegs_update_inv [OF inv] by simp
  qed
qed

section \<open>Proportional withdrawals\<close>

definition part_of :: "balance \<Rightarrow> balance \<Rightarrow> balance \<Rightarrow> balance" where
  "part_of reserve n i = (if n = i then reserve else reserve * n div i)"

text \<open>The part that is paid is rounded down, so the reserve behind a share does not fall.\<close>

lemma part_of_bounds:
  assumes "n \<le> i" "0 < i"
  shows "part_of r n i \<le> r" "r * (i - n) \<le> (r - part_of r n i) * i" "part_of r i i = r"
proof -
  have m: "part_of r n i * i \<le> r * n" by (simp add: part_of_def)
  also have "\<dots> \<le> r * i" using assms(1) by simp
  finally show "part_of r n i \<le> r" using assms(2) by simp
  then show "r * (i - n) \<le> (r - part_of r n i) * i" using m by (simp add: diff_mult_distrib diff_mult_distrib2)
  show "part_of r i i = r" by (simp add: part_of_def)
qed

lemma liquidity_out_Some: "stable_liquidity_out r n i = Some m \<longleftrightarrow> r * n \<le> umax 256 \<and> 0 < i \<and> m = r * n div i \<and> m \<le> umax 128"
  by (auto simp: stable_liquidity_out_def ck_iff)

lemma withdraw_assets_Cons:
  assumes "withdraw_assets C nz who p n i (a # as) mins s = Inr s'"
  obtains w where "transfer C a (pool_account C p) who (part_of (free_balance C (sw_world s) a (pool_account C p)) n i) (sw_world s) = Inr w"
    "withdraw_assets C nz who p n i as (bt_remove a mins) (s\<lparr>sw_world := w\<rparr>) = Inr s'" "a \<in> fst ` set mins"
    "is_asset_allowed p a STABLE_REMOVE_LIQUIDITY s"
    "the (map_of mins a) \<le> part_of (free_balance C (sw_world s) a (pool_account C p)) n i"
proof -
  let ?r = "free_balance C (sw_world s) a (pool_account C p)"
  obtain l m s1 where run: "is_asset_allowed p a STABLE_REMOVE_LIQUIDITY s" "map_of mins a = Some l"
      "(if n = i then ensure (l \<le> ?r) (Module Stable_SlippageLimit) (Inr ?r)
        else tryR (ok_or (stable_liquidity_out ?r n i) (Arithmetic Arith_Overflow)) (\<lambda>amount. ensure (l \<le> amount) (Module Stable_SlippageLimit) (Inr amount))) = Inr m"
      "stable_transfer C a (pool_account C p) who m s = Inr s1" "withdraw_assets C nz who p n i as (bt_remove a mins) s1 = Inr s'"
    using assms unfolding withdraw_assets.simps Let_def by (elim run_elims) (rule that)
  have m: "m = part_of ?r n i" "l \<le> m" using run(3) by (auto simp: part_of_def res_iff liquidity_out_Some split: if_splits)
  have "a \<in> fst ` set mins" using map_of_SomeD [OF run(2)] by force
  then show ?thesis using run m that by (auto simp: res_iff)
qed

lemma withdraw_assets_storage:
  "withdraw_assets C nz who p n i as mins s = Inr s' \<Longrightarrow> \<exists>w. s' = s\<lparr>sw_world := w\<rparr>"
proof (induction as arbitrary: mins s)
  case Nil
  then show ?case by (auto intro: exI [of _ "sw_world s"])
next
  case (Cons a as)
  from withdraw_assets_Cons [OF Cons.prems] Cons.IH show ?case by (metis stableswap.surjective stableswap.update_convs(8))
qed

lemma stable_destroy_pool_inv:
  assumes "stable_inv C s" "stable_destroy_pool C p s = Inr s'"
  shows "stable_inv C s'"
proof -
  obtain w where s': "s' = s\<lparr>sw_pools := (sw_pools s)(p := None), sw_pegs := (sw_pegs s)(p := None), share_issuance := (share_issuance s)(p := 0),
      sw_tradability := (\<lambda>(q, a). if q = p then stable_flags_default else sw_tradability s (q, a)), sw_world := w\<rparr>"
    using assms(2) by (auto simp: stable_destroy_pool_def res_iff Let_def)
  have "pegs_ok q i s'" if "sw_pegs s' q = Some i" for q i
    using stable_invD(2) [OF assms(1), of q i] that by (auto simp: s' pegs_ok_def split: if_splits)
  moreover have "flags_ok q a s'" for q a using stable_invD(4) [OF assms(1), of q a] by (auto simp: s' flags_ok_def)
  ultimately show ?thesis using stable_invD(1,3) [OF assms(1)] unfolding stable_inv_def by (auto simp: s' split: if_splits)
qed

text \<open>
  A proportional withdrawal: the loop pays out of the world, then the shares are burned; the pool goes when no share is left.
\<close>

lemma stable_remove_all_run:
  assumes "stable_remove_all C nz who p n outs s = Inr s'"
  obtains pool rs mins w1 w2 s2 where
    "0 < n" "n \<le> free_balance C (sw_world s) p who" "sw_pools s p = Some pool"
    "reserves_with_decimals C pool (pool_account C p) (sw_world s) = Some rs" "collect_min_amounts outs [] = Inr mins"
    "withdraw_assets C nz who p n (share_issuance s p) (pi_assets pool) mins (save_snapshot C p s) = Inr ((save_snapshot C p s)\<lparr>sw_world := w1\<rparr>)"
    "n \<le> share_issuance s p" "withdraw C p who n w1 = Inr w2"
    "s2 = (save_snapshot C p s)\<lparr>share_issuance := (share_issuance s)(p := share_issuance s p - n), sw_world := w2\<rparr>"
    "(if n \<noteq> share_issuance s p then call_on_liquidity_change_hook C p rs (share_issuance s p) s2 else stable_destroy_pool C p s2) = Inr s'"
    "ensure_remove_liquidity_invariant C p rs (share_issuance s p) s' = Inr ()"
proof -
  obtain pool rs mins s1 s2 where run: "0 < n" "n \<le> free_balance C (sw_world s) p who" "sw_pools s p = Some pool"
      "reserves_with_decimals C pool (pool_account C p) (sw_world s) = Some rs" "collect_min_amounts outs [] = Inr mins"
      "withdraw_assets C nz who p n (share_issuance s p) (pi_assets pool) mins (save_snapshot C p s) = Inr s1" "stable_burn_shares C p who n s1 = Inr s2"
      "(if n \<noteq> share_issuance s p then call_on_liquidity_change_hook C p rs (share_issuance s p) s2 else stable_destroy_pool C p s2) = Inr s'"
      "ensure_remove_liquidity_invariant C p rs (share_issuance s p) s' = Inr ()"
    using assms unfolding stable_remove_all_def Let_def by (elim run_elims) auto
  obtain w1 where "s1 = (save_snapshot C p s)\<lparr>sw_world := w1\<rparr>" using withdraw_assets_storage [OF run(6)] by blast
  with run that show ?thesis by (auto simp: res_iff)
qed

lemma stable_remove_all_inv:
  assumes "stable_inv C s" "stable_remove_all C nz who p n outs s = Inr s'"
  shows "stable_inv C s'"
proof -
  obtain pool rs w2 s2 where run: "sw_pools s p = Some pool"
      "s2 = (save_snapshot C p s)\<lparr>share_issuance := (share_issuance s)(p := share_issuance s p - n), sw_world := w2\<rparr>"
      "(if n \<noteq> share_issuance s p then call_on_liquidity_change_hook C p rs (share_issuance s p) s2 else stable_destroy_pool C p s2) = Inr s'"
    using assms(2) by (elim stable_remove_all_run) blast
  have "stable_inv C s2" using assms(1) run(1) by (auto simp: stable_inv_def run(2) pegs_ok_def flags_ok_def)
  then show ?thesis using run(3) stable_destroy_pool_inv call_hook_Inr(1) by (fastforce split: if_splits)
qed

section \<open>Reachable states\<close>

inductive stable_reachable :: "('w, 'z) stable_config_scheme \<Rightarrow> 'w stableswap \<Rightarrow> bool" for C where
  genesis: "stable_reachable C \<lparr>sw_pools = Map.empty, sw_pegs = Map.empty, sw_tradability = (\<lambda>_. stable_flags_default), sw_snapshots = Map.empty,
     sw_block_fee = Map.empty, share_issuance = (\<lambda>_. 0), sw_broadcast = b, sw_world = w\<rparr>"
| create: "stable_reachable C s \<Longrightarrow> stable_create_pool C orig p as amp fee s = Inr s' \<Longrightarrow> stable_reachable C s'"
| create_pegs: "stable_reachable C s \<Longrightarrow> create_pool_with_pegs C orig p as amp fee srcs mx s = Inr s' \<Longrightarrow> stable_reachable C s'"
| fee: "stable_reachable C s \<Longrightarrow> update_pool_fee C orig p fee s = Inr s' \<Longrightarrow> stable_reachable C s'"
| amplification: "stable_reachable C s \<Longrightarrow> update_amplification C orig p amp b0 b1 s = Inr s' \<Longrightarrow> stable_reachable C s'"
| tradable: "stable_reachable C s \<Longrightarrow> stable_set_asset_tradable_state C orig p a f s = Inr s' \<Longrightarrow> stable_reachable C s'"
| peg_source: "stable_reachable C s \<Longrightarrow> update_asset_peg_source C orig p a src s = Inr s' \<Longrightarrow> stable_reachable C s'"
| max_peg: "stable_reachable C s \<Longrightarrow> update_pool_max_peg_update C orig p mx s = Inr s' \<Longrightarrow> stable_reachable C s'"
| add: "stable_reachable C s \<Longrightarrow> stable_do_add_liquidity C who p as l s = Inr (m, s') \<Longrightarrow> stable_reachable C s'"
| add_shares: "stable_reachable C s \<Longrightarrow> do_add_liquidity_shares C who p m a l s = Inr (n, s') \<Longrightarrow> stable_reachable C s'"
| remove_one: "stable_reachable C s \<Longrightarrow> do_remove_liquidity_one_asset C who p a n l s = Inr (m, s') \<Longrightarrow> stable_reachable C s'"
| withdraw_amount: "stable_reachable C s \<Longrightarrow> withdraw_asset_amount C orig p a m l s = Inr s' \<Longrightarrow> stable_reachable C s'"
| remove_all: "stable_reachable C s \<Longrightarrow> stable_remove_all C nz who p n outs s = Inr s' \<Longrightarrow> stable_reachable C s'"
| sell: "stable_reachable C s \<Longrightarrow> stable_sell C orig p a b n l s = Inr s' \<Longrightarrow> stable_reachable C s'"
| buy: "stable_reachable C s \<Longrightarrow> stable_buy C orig p b a m l s = Inr s' \<Longrightarrow> stable_reachable C s'"
| finalize: "stable_reachable C s \<Longrightarrow> stable_reachable C (stable_on_finalize s)"
| foreign: "stable_reachable C s \<Longrightarrow> stable_reachable C (s\<lparr>sw_world := w, sw_broadcast := b\<rparr>)"

context stable_params
begin

lemma stable_reachable_inv: "stable_reachable C s \<Longrightarrow> stable_inv C s"
proof (induction rule: stable_reachable.induct)
  case (genesis b w)
  then show ?case by (simp add: stable_inv_def flags_ok_def)
next
  case (add s who p as l m s')
  from add(2) obtain pool k where "pool_step C p pool k s s'" by (elim stable_do_add_liquidity_run) blast
  then show ?case by (rule pool_step_inv [OF add(3)])
next
  case (add_shares s who p m a l n s')
  from add_shares(2) obtain pool k where "pool_step C p pool k s s'" by (elim do_add_liquidity_shares_run) blast
  then show ?case by (rule pool_step_inv [OF add_shares(3)])
next
  case (remove_one s who p a n l m s')
  from remove_one(2) obtain pool k where "pool_step C p pool k s s'" by (elim do_remove_liquidity_one_asset_run) blast
  then show ?case by (rule pool_step_inv [OF remove_one(3)])
next
  case (withdraw_amount s orig p a m l s')
  from withdraw_amount(2) obtain pool k where "pool_step C p pool k s s'" by (elim withdraw_asset_amount_run) blast
  then show ?case by (rule pool_step_inv [OF withdraw_amount(3)])
next
  case (sell s orig p a b n l s')
  from sell(2) obtain pool k where "pool_step C p pool k s s'" by (elim stable_sell_run) blast
  then show ?case by (rule pool_step_inv [OF sell(3)])
next
  case (buy s orig p b a m l s')
  from buy(2) obtain pool k where "pool_step C p pool k s s'" by (elim stable_buy_run) blast
  then show ?case by (rule pool_step_inv [OF buy(3)])
next
  case (finalize s)
  then show ?case by (subst stable_inv_cong [of _ s]) (simp_all add: stable_on_finalize_def)
next
  case (foreign s w b)
  then show ?case by (subst stable_inv_cong [of _ s]) simp_all
qed (blast intro: create_pool_inv update_pool_fee_inv update_amplification_inv stable_tradable_state_inv peg_params_inv stable_remove_all_inv)+

end

section \<open>The pools' accounts\<close>

text \<open>
  The ledger seen from the accounts of the pools: minting and burning for others, the hooks and the dusting whitelist leave their balances;
  hooks and whitelist leave all balances.
\<close>

locale stable_env = stable_params C + issuing_ledger C for C :: "('w, 'z) stable_config_scheme" +
  assumes pool_accounts: "pool_ledger C (pool_account C p)"
    and deposit_elsewhere: "deposit C a x n w = Inr w' \<Longrightarrow> x \<noteq> y \<Longrightarrow> free_balance C w' b y = free_balance C w b y"
    and withdraw_elsewhere: "withdraw C a x n w = Inr w' \<Longrightarrow> x \<noteq> y \<Longrightarrow> free_balance C w' b y = free_balance C w b y"
    and liquidity_hook: "sw_on_liquidity_changed C p st w = Inr w' \<Longrightarrow> free_balance C w' = free_balance C w \<and> total_issuance C w' = total_issuance C w"
    and trade_hook: "sw_on_trade C p a b st w = Inr w' \<Longrightarrow> free_balance C w' = free_balance C w \<and> total_issuance C w' = total_issuance C w"
    and dust_hook: "sw_dust_remove C x w = Inr w' \<Longrightarrow> free_balance C w' = free_balance C w \<and> total_issuance C w' = total_issuance C w"
begin

lemma withdraw_assets_balances:
  assumes "withdraw_assets C nz who p n i as mins s = Inr s'" "distinct as" "who \<noteq> pool_account C p" "pool_ledger C who"
  shows "total_issuance C (sw_world s') = total_issuance C (sw_world s) \<and> (\<forall>a.
      let r = free_balance C (sw_world s) a (pool_account C p); m = (if a \<in> set as then part_of r n i else 0)
      in m \<le> r \<and> free_balance C (sw_world s') a (pool_account C p) = r - m \<and> free_balance C (sw_world s') a who = free_balance C (sw_world s) a who + m)"
  using assms(1,2)
proof (induction as arbitrary: mins s)
  case (Cons b as)
  let ?P = "pool_account C p"
  let ?m = "part_of (free_balance C (sw_world s) b ?P) n i"
  obtain w where w: "transfer C b ?P who ?m (sw_world s) = Inr w" "withdraw_assets C nz who p n i as (bt_remove b mins) (s\<lparr>sw_world := w\<rparr>) = Inr s'"
    using Cons.prems(1) by (elim withdraw_assets_Cons)
  have P: "free_balance C w c ?P = (if c = b then free_balance C (sw_world s) c ?P - ?m else free_balance C (sw_world s) c ?P)" for c
    using pool_ledger.transfer_pool [OF pool_accounts w(1), of c p] assms(3) by auto
  have T: "free_balance C w c who = (if c = b then free_balance C (sw_world s) c who + ?m else free_balance C (sw_world s) c who)" for c
    using pool_ledger.transfer_pool [OF assms(4) w(1), of c] assms(3) by auto
  have le: "?m \<le> free_balance C (sw_world s) b ?P" using pool_ledger.transfer_enough [OF pool_accounts w(1)] assms(3) by blast
  have issue: "total_issuance C w = total_issuance C (sw_world s)" using transfer_issuance [OF w(1)] by blast
  show ?case using Cons.IH [OF w(2)] Cons.prems(2) P T le issue by (auto simp: Let_def split: if_splits)
qed auto

lemma remove_all_world:
  assumes "(if n \<noteq> i then call_on_liquidity_change_hook C p rs i s2 else stable_destroy_pool C p s2) = Inr s'"
  shows "free_balance C (sw_world s') = free_balance C (sw_world s2)"
    "n = i \<Longrightarrow> sw_pools s' p = None \<and> sw_pegs s' p = None \<and> share_issuance s' p = 0"
    "n \<noteq> i \<Longrightarrow> sw_pools s' = sw_pools s2 \<and> share_issuance s' = share_issuance s2"
proof -
  show "free_balance C (sw_world s') = free_balance C (sw_world s2)"
    using assms call_hook_Inr(1) [of C p rs i s2 s'] liquidity_hook dust_hook
    by (fastforce simp: stable_destroy_pool_def res_iff Let_def split: if_splits)
  show "sw_pools s' p = None \<and> sw_pegs s' p = None \<and> share_issuance s' p = 0" if "n = i"
    using assms that by (auto simp: stable_destroy_pool_def res_iff Let_def)
  show "sw_pools s' = sw_pools s2 \<and> share_issuance s' = share_issuance s2" if "n \<noteq> i"
    using assms that call_hook_Inr(1) [of C p rs i s2 s'] by auto
qed

lemma remove_all_pays:
  assumes run: "stable_remove_all C nz who p n outs s = Inr s'" and inv: "stable_inv C s"
    and who: "pool_ledger C who" "who \<noteq> pool_account C p" and pool: "sw_pools s p = Some pool" and a: "a \<in> set (pi_assets pool)"
  defines "i \<equiv> share_issuance s p" and "r \<equiv> free_balance C (sw_world s) a (pool_account C p)"
  shows "n \<le> i \<and> 0 < n \<and> share_issuance s' p = i - n \<and> free_balance C (sw_world s) p who = free_balance C (sw_world s') p who + n \<and>
     free_balance C (sw_world s') a who = free_balance C (sw_world s) a who + part_of r n i \<and>
     free_balance C (sw_world s') a (pool_account C p) = r - part_of r n i \<and>
     sw_pools s' p = (if n = i then None else Some pool) \<and> (n = i \<longrightarrow> sw_pegs s' p = None)"
proof -
  let ?P = "pool_account C p"
  from run pool obtain rs mins w1 w2 s2 where t: "0 < n" "n \<le> free_balance C (sw_world s) p who"
      "withdraw_assets C nz who p n i (pi_assets pool) mins (save_snapshot C p s) = Inr ((save_snapshot C p s)\<lparr>sw_world := w1\<rparr>)"
      "n \<le> i" "withdraw C p who n w1 = Inr w2"
      "s2 = (save_snapshot C p s)\<lparr>share_issuance := (share_issuance s)(p := i - n), sw_world := w2\<rparr>"
      "(if n \<noteq> i then call_on_liquidity_change_hook C p rs i s2 else stable_destroy_pool C p s2) = Inr s'"
    unfolding i_def by (elim stable_remove_all_run) auto
  note fin = remove_all_world [OF t(7)]
  have ok: "stable_pool_ok C p pool" by (rule stable_invD(1) [OF inv pool])
  have pa: "p \<notin> set (pi_assets pool)" "distinct (pi_assets pool)" using ok by (auto simp: stable_pool_ok_def strict_sorted_iff)
  from withdraw_assets_balances [OF t(3) pa(2) who(2,1)] a pa(1)
  have w1: "free_balance C w1 a ?P = r - part_of r n i" "free_balance C w1 a who = free_balance C (sw_world s) a who + part_of r n i"
      "free_balance C w1 p who = free_balance C (sw_world s) p who"
    by (auto simp: r_def Let_def)
  have w2: "free_balance C w2 b who = (if b = p then free_balance C w1 b who - n else free_balance C w1 b who)" for b
    by (rule pool_ledger.withdraw_pool [OF who(1) t(5)])
  have P: "free_balance C w2 a ?P = free_balance C w1 a ?P" by (rule withdraw_elsewhere [OF t(5) who(2)])
  have "a \<noteq> p" using a pa(1) by blast
  then have bal: "free_balance C (sw_world s) p who = free_balance C (sw_world s') p who + n"
      "free_balance C (sw_world s') a who = free_balance C (sw_world s) a who + part_of r n i"
      "free_balance C (sw_world s') a ?P = r - part_of r n i"
    using w1 w2 P t(2) by (simp_all add: fin(1) t(6))
  have "sw_pools s' p = (if n = i then None else Some pool)" "share_issuance s' p = i - n" "n = i \<Longrightarrow> sw_pegs s' p = None"
    using fin(2,3) pool by (cases "n = i"; simp add: t(6))+
  then show ?thesis using bal t(1,4) by blast
qed

end

end
