(* ===== verification/Route_Executor.thy ===== *)
theory Route_Executor
  imports Rational_Math Router_Types Broadcast
begin

text \<open>
  The route executor (\<open>pallets/route-executor/src/lib.rs\<close>): sells and buys along a route of pools, and keeps a route
  per pair of assets. The pools, the ledger and the broadcast pallet share the state \<open>'s\<close>; the executor
  reaches the pools through the interface \<open>amm\<close> of \<open>Router_Types\<close>. One definition per function of the pallet.
\<close>

section \<open>Types\<close>

datatype 'e router_error =
    TradingLimitReached | MaxTradesExceeded | PoolNotSupported | InsufficientBalance | RouteCalculationFailed
  | InvalidRoute | RouteUpdateIsNotSuccessful | RouteHasNoOracle | InvalidRouteExecution | NotAllowed
  | FundsUnavailable | Of_Amm 'e | Of_Router_Broadcast broadcast_error

datatype router_event =
    Executed asset_id asset_id balance balance nat
  | RouteUpdated "asset_id list"

record ('s, 'e) router_config =
  router_amm :: "('s, 'e) amm"
  router_arith :: arith
  reducible_balance :: "'s \<Rightarrow> asset_id \<Rightarrow> account_id \<Rightarrow> balance"
  router_transfer :: "asset_id \<Rightarrow> account_id \<Rightarrow> account_id \<Rightarrow> balance \<Rightarrow> 's \<Rightarrow> nat + 's"
  get_broadcast :: "'s \<Rightarrow> broadcast"
  put_broadcast :: "broadcast \<Rightarrow> 's \<Rightarrow> 's"
  native_asset_id :: asset_id
  oracle_route_price :: "'s \<Rightarrow> route \<Rightarrow> (nat \<times> nat) option"
  default_route_pool_type :: pool_type
  force_insert_origin :: "origin \<Rightarrow> bool"
  router_account :: account_id

record 's router =
  routes :: "route_pair \<rightharpoonup> route"
  router_events :: "router_event list"
  router_state :: 's

type_synonym ('e, 'a) router_result = "'e router_error dispatch_error + 'a"

text \<open>\<open>handle_execution_error!\<close>, and \<open>?\<close> on a call of the broadcast pallet.\<close>

definition handle_execution_error :: "'e executor_error + 'a \<Rightarrow> ('e, 'a) router_result" where
  "handle_execution_error r =
     (case r of
        Inl NotSupported \<Rightarrow> Inl (Module PoolNotSupported)
      | Inl (Executor_Error e) \<Rightarrow> Inl (Module (Of_Amm e))
      | Inr x \<Rightarrow> Inr x)"

definition of_broadcast :: "broadcast_error + 'a \<Rightarrow> ('e, 'a) router_result" where
  "of_broadcast r = (case r of Inl e \<Rightarrow> Inl (Module (Of_Router_Broadcast e)) | Inr x \<Rightarrow> Inr x)"

lemma handle_execution_error_Inr [res_iff]: "handle_execution_error r = Inr x \<longleftrightarrow> r = Inr x"
  by (auto simp: handle_execution_error_def split: sum.splits executor_error.splits)

lemma of_broadcast_Inr [res_iff]: "of_broadcast r = Inr x \<longleftrightarrow> r = Inr x"
  by (auto simp: of_broadcast_def split: sum.splits)

lemma of_results_simps [simp]:
  "handle_execution_error (Inr x) = Inr x" "of_broadcast (Inr y) = Inr y"
  by (simp_all add: handle_execution_error_def of_broadcast_def)

section \<open>Routes\<close>

definition ensure_route_size :: "nat \<Rightarrow> ('e, unit) router_result" where
  "ensure_route_size route_length = ensure (route_length \<le> MAX_NUMBER_OF_TRADES) (Module MaxTradesExceeded) (Inr ())"

text \<open>Consecutive trades meet in the same asset.\<close>

fun route_connected :: "route \<Rightarrow> bool" where
  "route_connected (t # u # ts) = (trade_out t = trade_in u \<and> route_connected (u # ts))"
| "route_connected _ = True"

definition ensure_route_arguments :: "route_pair \<Rightarrow> route \<Rightarrow> ('e, unit) router_result" where
  "ensure_route_arguments pair route =
     (case route of
        [] \<Rightarrow> Inl (Module InvalidRoute)
      | t # ts \<Rightarrow>
          ensure (pair_in pair = trade_in t) (Module InvalidRoute) (
          ensure (pair_out pair = trade_out (last route)) (Module InvalidRoute) (
          ensure (route_connected route) (Module InvalidRoute) (Inr ()))))"

definition get_route :: "('s, 'e) router_config \<Rightarrow> route_pair \<Rightarrow> 's router \<Rightarrow> route" where
  "get_route C pair r =
     (case routes r (route_ordered_pair pair) of
        Some rt \<Rightarrow> if is_ordered pair then rt else inverse_route rt
      | None \<Rightarrow> [\<lparr>trade_pool = default_route_pool_type C, trade_in = pair_in pair, trade_out = pair_out pair\<rparr>])"

definition get_route_or_default :: "('s, 'e) router_config \<Rightarrow> asset_id \<Rightarrow> asset_id \<Rightarrow> route \<Rightarrow> 's router \<Rightarrow> route" where
  "get_route_or_default C asset_in asset_out route r =
     (if route \<noteq> [] then route else get_route C \<lparr>pair_in = asset_in, pair_out = asset_out\<rparr> r)"

section \<open>Quotes\<close>

primrec sell_amounts :: "('s, 'e) router_config \<Rightarrow> 's \<Rightarrow> route \<Rightarrow> balance \<Rightarrow> ('e, amount_in_and_out list) router_result" where
  "sell_amounts C s [] amount_in = Inr []"
| "sell_amounts C s (t # ts) amount_in =
     tryR (handle_execution_error (amm_out_given_in (router_amm C) (trade_pool t) (trade_in t) (trade_out t) amount_in s)) (\<lambda>amount_out.
     tryR (sell_amounts C s ts amount_out) (\<lambda>rest. Inr (\<lparr>aio_in = amount_in, aio_out = amount_out\<rparr> # rest)))"

definition calculate_sell_trade_amounts :: "('s, 'e) router_config \<Rightarrow> route \<Rightarrow> balance \<Rightarrow> 's router \<Rightarrow> ('e, amount_in_and_out list) router_result" where
  "calculate_sell_trade_amounts C route amount_in r = sell_amounts C (router_state r) route amount_in"

text \<open>The amounts of a purchase are computed and returned from the last trade to the first.\<close>

primrec buy_amounts :: "('s, 'e) router_config \<Rightarrow> 's \<Rightarrow> route \<Rightarrow> balance \<Rightarrow> ('e, amount_in_and_out list) router_result" where
  "buy_amounts C s [] amount_out = Inr []"
| "buy_amounts C s (t # ts) amount_out =
     tryR (handle_execution_error (amm_in_given_out (router_amm C) (trade_pool t) (trade_in t) (trade_out t) amount_out s)) (\<lambda>amount_in.
     tryR (buy_amounts C s ts amount_in) (\<lambda>rest. Inr (\<lparr>aio_in = amount_in, aio_out = amount_out\<rparr> # rest)))"

definition calculate_buy_trade_amounts :: "('s, 'e) router_config \<Rightarrow> route \<Rightarrow> balance \<Rightarrow> 's router \<Rightarrow> ('e, amount_in_and_out list) router_result" where
  "calculate_buy_trade_amounts C route amount_out r = buy_amounts C (router_state r) (rev route) amount_out"

definition calculate_expected_amount_out :: "('s, 'e) router_config \<Rightarrow> route \<Rightarrow> balance \<Rightarrow> 's router \<Rightarrow> ('e, balance) router_result" where
  "calculate_expected_amount_out C route amount_in r =
     tryR (calculate_sell_trade_amounts C route amount_in r) (\<lambda>amounts.
     if amounts = [] then Inl (Module RouteCalculationFailed) else Inr (aio_out (last amounts)))"

definition calculate_expected_amount_in :: "('s, 'e) router_config \<Rightarrow> route \<Rightarrow> balance \<Rightarrow> 's router \<Rightarrow> ('e, balance) router_result" where
  "calculate_expected_amount_in C route amount_out r =
     tryR (calculate_buy_trade_amounts C route amount_out r) (\<lambda>amounts.
     if amounts = [] then Inl (Module RouteCalculationFailed) else Inr (aio_in (last amounts)))"

definition router_validate_sell :: "('s, 'e) router_config \<Rightarrow> route \<Rightarrow> balance \<Rightarrow> 's router \<Rightarrow> ('e, balance) router_result" where
  "router_validate_sell C route amount_in r = calculate_expected_amount_out C route amount_in r"

section \<open>Trades\<close>

text \<open>Every trade of a sale sells all that the router account holds of its asset.\<close>

primrec sell_trades :: "('s, 'e) router_config \<Rightarrow> route \<Rightarrow> 's \<Rightarrow> ('e, 's) router_result" where
  "sell_trades C [] s = Inr s"
| "sell_trades C (t # ts) s =
     tryR (handle_execution_error (amm_execute_sell (router_amm C) (Signed (router_account C)) (trade_pool t) (trade_in t) (trade_out t)
             (reducible_balance C s (trade_in t) (router_account C)) 0 s)) (sell_trades C ts)"

primrec buy_trades :: "('s, 'e) router_config \<Rightarrow> (amount_in_and_out \<times> trade) list \<Rightarrow> 's \<Rightarrow> ('e, 's) router_result" where
  "buy_trades C [] s = Inr s"
| "buy_trades C (p # ps) s =
     tryR (handle_execution_error (amm_execute_buy (router_amm C) (Signed (router_account C)) (trade_pool (snd p)) (trade_in (snd p))
             (trade_out (snd p)) (aio_out (fst p)) (aio_in (fst p)) s)) (buy_trades C ps)"

text \<open>The end of both calls: the event, then the execution context and the swapper are taken back.\<close>

definition finish_trade :: "('s, 'e) router_config \<Rightarrow> router_event \<Rightarrow> 's \<Rightarrow> 's router \<Rightarrow> ('e, 's router) router_result" where
  "finish_trade C event s r =
     tryR (of_broadcast (remove_from_context (get_broadcast C s))) (\<lambda>b.
     Inr (r\<lparr>router_events := router_events r @ [event], router_state := put_broadcast C (remove_swapper b) s\<rparr>))"

definition router_do_sell ::
    "('s, 'e) router_config \<Rightarrow> origin \<Rightarrow> asset_id \<Rightarrow> asset_id \<Rightarrow> balance \<Rightarrow> balance \<Rightarrow> route \<Rightarrow> 's router \<Rightarrow> ('e, 's router) router_result" where
  "router_do_sell C orig asset_in asset_out amount_in min_amount_out route r =
     tryR (ensure_signed orig) (\<lambda>who.
     ensure (asset_in \<noteq> asset_out) (Module NotAllowed) (
     tryR (ensure_route_size (length route)) (\<lambda>_.
     let pair = \<lparr>pair_in = asset_in, pair_out = asset_out\<rparr>;
         route = get_route_or_default C asset_in asset_out route r in
     tryR (ensure_route_arguments pair route) (\<lambda>_.
     let trader = router_account C in
     ensure (amount_in \<le> reducible_balance C (router_state r) asset_in who) (Module FundsUnavailable) (
     tryR (foreign (router_transfer C asset_in who trader amount_in (router_state r))) (\<lambda>s1.
     tryR (of_broadcast (add_to_context Exec_Router (get_broadcast C s1))) (\<lambda>(next_event_id, b1).
     let s2 = put_broadcast C (set_swapper who b1) s1 in
     tryR (sell_trades C route s2) (\<lambda>s3.
     let amount_out = reducible_balance C s3 asset_out trader in
     ensure (min_amount_out \<le> amount_out) (Module TradingLimitReached) (
     tryR (foreign (router_transfer C asset_out trader who amount_out s3)) (\<lambda>s4.
     finish_trade C (Executed asset_in asset_out amount_in amount_out next_event_id) s4 r))))))))))"

definition router_sell ::
    "('s, 'e) router_config \<Rightarrow> origin \<Rightarrow> asset_id \<Rightarrow> asset_id \<Rightarrow> balance \<Rightarrow> balance \<Rightarrow> route \<Rightarrow> 's router \<Rightarrow> ('e, 's router) router_result" where
  "router_sell C orig asset_in asset_out amount_in min_amount_out route r =
     router_do_sell C orig asset_in asset_out amount_in min_amount_out route r"

definition router_sell_all ::
    "('s, 'e) router_config \<Rightarrow> origin \<Rightarrow> asset_id \<Rightarrow> asset_id \<Rightarrow> balance \<Rightarrow> route \<Rightarrow> 's router \<Rightarrow> ('e, 's router) router_result" where
  "router_sell_all C orig asset_in asset_out min_amount_out route r =
     tryR (ensure_signed orig) (\<lambda>who.
     let amount_in = reducible_balance C (router_state r) asset_in who in
     router_do_sell C orig asset_in asset_out amount_in min_amount_out route r)"

definition router_buy ::
    "('s, 'e) router_config \<Rightarrow> origin \<Rightarrow> asset_id \<Rightarrow> asset_id \<Rightarrow> balance \<Rightarrow> balance \<Rightarrow> route \<Rightarrow> 's router \<Rightarrow> ('e, 's router) router_result" where
  "router_buy C orig asset_in asset_out amount_out max_amount_in route r =
     tryR (ensure_signed orig) (\<lambda>who.
     ensure (asset_in \<noteq> asset_out) (Module NotAllowed) (
     tryR (ensure_route_size (length route)) (\<lambda>_.
     let pair = \<lparr>pair_in = asset_in, pair_out = asset_out\<rparr>;
         route = get_route_or_default C asset_in asset_out route r in
     tryR (ensure_route_arguments pair route) (\<lambda>_.
     tryR (calculate_buy_trade_amounts C route amount_out r) (\<lambda>trade_amounts.
     ensure (trade_amounts \<noteq> []) (Module RouteCalculationFailed) (
     let first_trade = last trade_amounts in
     ensure (aio_in first_trade \<le> max_amount_in) (Module TradingLimitReached) (
     let trader = router_account C;
         s0 = put_broadcast C (set_swapper who (get_broadcast C (router_state r))) (router_state r) in
     tryR (foreign (router_transfer C asset_in who trader (aio_in first_trade) s0)) (\<lambda>s1.
     tryR (of_broadcast (add_to_context Exec_Router (get_broadcast C s1))) (\<lambda>(next_event_id, b1).
     let s2 = put_broadcast C b1 s1 in
     tryR (buy_trades C (zip (rev trade_amounts) route) s2) (\<lambda>s3.
     let amount_out = reducible_balance C s3 asset_out trader in
     tryR (foreign (router_transfer C asset_out trader who amount_out s3)) (\<lambda>s4.
     finish_trade C (Executed asset_in asset_out (aio_in first_trade) amount_out next_event_id) s4 r)))))))))))"

section \<open>Setting a route\<close>

definition calculate_reference_amount_in :: "('s, 'e) router_config \<Rightarrow> route \<Rightarrow> 's router \<Rightarrow> ('e, balance) router_result" where
  "calculate_reference_amount_in C route r =
     (case route of
        [] \<Rightarrow> Inl (Module RouteCalculationFailed)
      | t # _ \<Rightarrow>
          let asset_b = (case trade_pool t of Pool_Omnipool \<Rightarrow> native_asset_id C | Pool_Stableswap pool_id \<Rightarrow> pool_id | _ \<Rightarrow> trade_out t) in
          tryR (handle_execution_error (amm_liquidity_depth (router_amm C) (trade_pool t) (trade_in t) asset_b (router_state r))) (\<lambda>liquidity.
          ok_or (checked_div liquidity 100) (Arithmetic Arith_Overflow)))"

definition validate_route :: "('s, 'e) router_config \<Rightarrow> route \<Rightarrow> 's router \<Rightarrow> ('e, balance \<times> balance) router_result" where
  "validate_route C route r =
     tryR (calculate_reference_amount_in C route r) (\<lambda>reference.
     let route_validation = router_validate_sell C route reference r;
         inverse = inverse_route route in
     tryR (calculate_reference_amount_in C inverse r) (\<lambda>reference_inverse.
     let inverse_validation = router_validate_sell C inverse reference_inverse r in
     case (route_validation, inverse_validation) of
       (Inr _, Inr _) \<Rightarrow> Inr (reference, reference_inverse)
     | (Inl _, Inr amount_out) \<Rightarrow> tryR (router_validate_sell C route amount_out r) (\<lambda>_. Inr (amount_out, reference_inverse))
     | (Inr amount_out, Inl _) \<Rightarrow> tryR (router_validate_sell C inverse amount_out r) (\<lambda>_. Inr (reference, amount_out))
     | (Inl err, Inl _) \<Rightarrow> Inl err))"

definition insert_route :: "route_pair \<Rightarrow> route \<Rightarrow> 's router \<Rightarrow> 's router" where
  "insert_route pair route r =
     r\<lparr>routes := (routes r)(pair \<mapsto> route), router_events := router_events r @ [RouteUpdated (to_ordered_vec pair)]\<rparr>"

definition set_route :: "('s, 'e) router_config \<Rightarrow> origin \<Rightarrow> route_pair \<Rightarrow> route \<Rightarrow> 's router \<Rightarrow> ('e, 's router) router_result" where
  "set_route C orig pair0 new_route0 r =
     tryR (ensure_signed orig) (\<lambda>_.
     tryR (ensure_route_size (length new_route0)) (\<lambda>_.
     tryR (ensure_route_arguments pair0 new_route0) (\<lambda>_.
     tryR (ok_or (oracle_route_price C (router_state r) new_route0) (Module RouteHasNoOracle)) (\<lambda>_.
     let pair = route_ordered_pair pair0;
         new_route = (if is_ordered pair0 then new_route0 else inverse_route new_route0);
         existing_route = get_route C pair r in
     case validate_route C existing_route r of
       Inr (reference, reference_inverse) \<Rightarrow>
         let inverse_new = inverse_route new_route in
         tryR (case (router_validate_sell C new_route reference r, router_validate_sell C inverse_new reference_inverse r) of
             (Inr _, Inr _) \<Rightarrow> Inr ()
           | (Inl _, Inr amount_out) \<Rightarrow> tryR (router_validate_sell C new_route amount_out r) (\<lambda>_. Inr ())
           | (Inr amount_out, Inl _) \<Rightarrow> tryR (router_validate_sell C inverse_new amount_out r) (\<lambda>_. Inr ())
           | (Inl err, Inl _) \<Rightarrow> Inl err) (\<lambda>_.
         tryR (calculate_expected_amount_out C existing_route reference r) (\<lambda>out_existing.
         tryR (calculate_expected_amount_out C new_route reference r) (\<lambda>out_new.
         let inverse_existing = inverse_route existing_route in
         tryR (calculate_expected_amount_out C inverse_existing reference_inverse r) (\<lambda>out_existing_inverse.
         tryR (calculate_expected_amount_out C inverse_new reference_inverse r) (\<lambda>out_new_inverse.
         if out_existing < out_new \<and> out_existing_inverse < out_new_inverse then Inr (insert_route pair new_route r)
         else Inl (Module RouteUpdateIsNotSuccessful))))))
     | Inl _ \<Rightarrow> tryR (validate_route C new_route r) (\<lambda>_. Inr (insert_route pair new_route r))))))"

definition force_insert_route :: "('s, 'e) router_config \<Rightarrow> origin \<Rightarrow> route_pair \<Rightarrow> route \<Rightarrow> 's router \<Rightarrow> ('e, 's router) router_result" where
  "force_insert_route C orig pair new_route r =
     ensure (force_insert_origin C orig) BadOrigin (
     Inr (insert_route (route_ordered_pair pair) (if is_ordered pair then new_route else inverse_route new_route) r))"

section \<open>Spot price of a route\<close>

text \<open>Hops are aggregated in chunks of four, with \<open>U512\<close> products.\<close>

fun chunks4 :: "'a list \<Rightarrow> 'a list list" where
  "chunks4 [] = []"
| "chunks4 (x # xs) = take 4 (x # xs) # chunks4 (drop 4 (x # xs))"

primrec product_u512 :: "nat list \<Rightarrow> nat \<Rightarrow> nat option" where
  "product_u512 [] acc = Some acc"
| "product_u512 (x # xs) acc = Option.bind (checked_mul 512 acc x) (product_u512 xs)"

definition chunk_prices :: "('s, 'e) router_config \<Rightarrow> 's \<Rightarrow> route \<Rightarrow> nat list option" where
  "chunk_prices C s chunk =
     those (map (\<lambda>t. case amm_spot_price_with_fee (router_amm C) (trade_pool t) (trade_in t) (trade_out t) s of
                       Inr p \<Rightarrow> Some p | Inl _ \<Rightarrow> None) chunk)"

primrec aggregate_chunks :: "('s, 'e) router_config \<Rightarrow> 's \<Rightarrow> route list \<Rightarrow> nat \<Rightarrow> nat \<Rightarrow> (nat \<times> nat) option" where
  "aggregate_chunks C s [] n d = Some (n, d)"
| "aggregate_chunks C s (c # cs) n d = do {
     prices \<leftarrow> chunk_prices C s c;
     cn \<leftarrow> product_u512 prices 1;
     cd \<leftarrow> product_u512 (map (\<lambda>_. fx_one) prices) 1;
     n' \<leftarrow> checked_mul 512 n cn;
     d' \<leftarrow> checked_mul 512 d cd;
     aggregate_chunks C s cs n' d'
   }"

definition spot_price_with_fee :: "('s, 'e) router_config \<Rightarrow> route \<Rightarrow> 's router \<Rightarrow> nat option" where
  "spot_price_with_fee C route r =
     (if route = [] then None
      else do {
        nd \<leftarrow> aggregate_chunks C (router_state r) (chunks4 route) 1 1;
        let rat = round_u512_to_rational nd Rat_Nearest;
        fx_checked_from_rational (router_arith C) (fst rat) (snd rat)
      })"

end
