(* ===== verification/Router_Contract.thy ===== *)
theory Router_Contract
  imports Route_Executor
begin

text \<open>
  What the route executor relies on and what follows from it, for any pools: the contract of a pool that trades for
  the router account (locale \<open>amm_contract\<close>), of the ledger and the broadcast pallet around it (locale
  \<open>router_env\<close>), and the lemmas of the executor proved once against them.
\<close>

section \<open>The contract of a pool\<close>

text \<open>
  A trade signed by the trader \<open>T\<close> takes the amount in from \<open>T\<close>, gives it the quoted amount out, and touches no
  balance of a user. \<open>inv\<close> is what the pools keep true of their state; \<open>independent\<close> trades do not move each other's quotes.
\<close>

definition traded :: "('s \<Rightarrow> asset_id \<Rightarrow> account_id \<Rightarrow> balance) \<Rightarrow> account_id \<Rightarrow> asset_id \<Rightarrow> asset_id \<Rightarrow> balance \<Rightarrow> balance \<Rightarrow> 's \<Rightarrow> 's \<Rightarrow> bool" where
  "traded bal T a b n m s s' \<longleftrightarrow> a \<noteq> b \<and> n \<le> bal s a T \<and>
     (\<forall>c. bal s' c T = (if c = a then bal s c T - n else if c = b then bal s c T + m else bal s c T))"

locale amm_contract =
  fixes M :: "('s, 'e) amm" and bal :: "'s \<Rightarrow> asset_id \<Rightarrow> account_id \<Rightarrow> balance" and T :: account_id
    and user :: "account_id \<Rightarrow> bool" and inv :: "'s \<Rightarrow> bool" and context_of :: "'s \<Rightarrow> execution_type list"
    and independent :: "trade \<Rightarrow> trade \<Rightarrow> bool"
  assumes sell_trader: "amm_execute_sell M (Signed T) p a b n l s = Inr s' \<Longrightarrow> inv s \<Longrightarrow>
        \<exists>m. l \<le> m \<and> amm_out_given_in M p a b n s = Inr m \<and> traded bal T a b n m s s'"
    and sell_users: "amm_execute_sell M (Signed T) p a b n l s = Inr s' \<Longrightarrow> inv s \<Longrightarrow> user u \<Longrightarrow> bal s' c u = bal s c u"
    and sell_inv: "amm_execute_sell M (Signed T) p a b n l s = Inr s' \<Longrightarrow> inv s \<Longrightarrow> inv s'"
    and sell_context: "amm_execute_sell M (Signed T) p a b n l s = Inr s' \<Longrightarrow> inv s \<Longrightarrow> context_of s' = context_of s"
    and sell_quotes: "amm_execute_sell M (Signed T) p a b n l s = Inr s' \<Longrightarrow> inv s \<Longrightarrow>
        independent \<lparr>trade_pool = p, trade_in = a, trade_out = b\<rparr> t \<Longrightarrow>
        amm_out_given_in M (trade_pool t) (trade_in t) (trade_out t) k s' = amm_out_given_in M (trade_pool t) (trade_in t) (trade_out t) k s"
    and buy_trader: "amm_execute_buy M (Signed T) p a b m l s = Inr s' \<Longrightarrow> inv s \<Longrightarrow>
        \<exists>n. n \<le> l \<and> amm_in_given_out M p a b m s = Inr n \<and> traded bal T a b n m s s'"
    and buy_users: "amm_execute_buy M (Signed T) p a b m l s = Inr s' \<Longrightarrow> inv s \<Longrightarrow> user u \<Longrightarrow> bal s' c u = bal s c u"
    and buy_inv: "amm_execute_buy M (Signed T) p a b m l s = Inr s' \<Longrightarrow> inv s \<Longrightarrow> inv s'"
    and buy_context: "amm_execute_buy M (Signed T) p a b m l s = Inr s' \<Longrightarrow> inv s \<Longrightarrow> context_of s' = context_of s"
    and buy_quotes: "amm_execute_buy M (Signed T) p a b m l s = Inr s' \<Longrightarrow> inv s \<Longrightarrow>
        independent \<lparr>trade_pool = p, trade_in = a, trade_out = b\<rparr> t \<Longrightarrow>
        amm_in_given_out M (trade_pool t) (trade_in t) (trade_out t) k s' = amm_in_given_out M (trade_pool t) (trade_in t) (trade_out t) k s"

text \<open>A tuple of pools meets the contract when its members do.\<close>

lemma amm_tuple_sel [simp]:
  "amm_out_given_in (amm_tuple M N) p a b n s = or_else (amm_out_given_in M p a b n s) (amm_out_given_in N p a b n s)"
  "amm_in_given_out (amm_tuple M N) p a b n s = or_else (amm_in_given_out M p a b n s) (amm_in_given_out N p a b n s)"
  "amm_execute_sell (amm_tuple M N) who p a b n l s = or_else (amm_execute_sell M who p a b n l s) (amm_execute_sell N who p a b n l s)"
  "amm_execute_buy (amm_tuple M N) who p a b n l s = or_else (amm_execute_buy M who p a b n l s) (amm_execute_buy N who p a b n l s)"
  by (simp_all add: amm_tuple_def)

section \<open>The executor\<close>

definition route_assets :: "route \<Rightarrow> asset_id set" where
  "route_assets ts = trade_in ` set ts \<union> trade_out ` set ts"

text \<open>The amounts of a purchase in the order of execution: each trade delivers what the next one takes in.\<close>

fun buy_chain :: "('s, 'e) router_config \<Rightarrow> 's \<Rightarrow> (amount_in_and_out \<times> trade) list \<Rightarrow> balance \<Rightarrow> bool" where
  "buy_chain C s [] m = True"
| "buy_chain C s (p # ps) m =
     (amm_in_given_out (router_amm C) (trade_pool (snd p)) (trade_in (snd p)) (trade_out (snd p)) (aio_out (fst p)) s = Inr (aio_in (fst p)) \<and>
      aio_out (fst p) = (case ps of [] \<Rightarrow> m | q # _ \<Rightarrow> aio_in (fst q)) \<and> buy_chain C s ps m)"

lemma buy_amounts_append:
  "buy_amounts C s (xs @ [t]) m =
     tryR (buy_amounts C s xs m) (\<lambda>am. let k = (if am = [] then m else aio_in (last am)) in
     tryR (handle_execution_error (amm_in_given_out (router_amm C) (trade_pool t) (trade_in t) (trade_out t) k s)) (\<lambda>n.
     Inr (am @ [\<lparr>aio_in = n, aio_out = k\<rparr>])))"
proof (induction xs arbitrary: m)
  case (Cons x xs)
  then show ?case
    by (cases "handle_execution_error (amm_in_given_out (router_amm C) (trade_pool x) (trade_in x) (trade_out x) m s)")
      (auto simp: tryR_def Let_def split: sum.splits)
qed simp

lemma buy_amounts_chain:
  "buy_amounts C s (rev route) m = Inr am \<Longrightarrow> length am = length route \<and> buy_chain C s (zip (rev am) route) m"
proof (induction route arbitrary: am)
  case (Cons t ts)
  then obtain am0 n where a: "buy_amounts C s (rev ts) m = Inr am0"
      "am = am0 @ [\<lparr>aio_in = n, aio_out = (if am0 = [] then m else aio_in (last am0))\<rparr>]"
      "amm_in_given_out (router_amm C) (trade_pool t) (trade_in t) (trade_out t) (if am0 = [] then m else aio_in (last am0)) s = Inr n"
    by (auto simp: buy_amounts_append Let_def res_iff)
  have IH: "length am0 = length ts" "buy_chain C s (zip (rev am0) ts) m" using Cons.IH [OF a(1)] by auto
  have "(if am0 = [] then m else aio_in (last am0)) = (case zip (rev am0) ts of [] \<Rightarrow> m | q # _ \<Rightarrow> aio_in (fst q))"
    using IH(1) by (cases am0 rule: rev_cases; cases ts) auto
  then show ?case using IH a(2,3) by simp
qed simp

lemma buy_chain_last: "buy_chain C s ps m \<Longrightarrow> ps \<noteq> [] \<Longrightarrow> aio_out (fst (last ps)) = m"
  by (induction ps) (auto split: list.splits)

lemma trade_eta [simp]: "\<lparr>trade_pool = trade_pool t, trade_in = trade_in t, trade_out = trade_out t\<rparr> = t"
  by simp

locale router_env =
  fixes C :: "('s, 'e) router_config" and user :: "account_id \<Rightarrow> bool" and inv :: "'s \<Rightarrow> bool" and independent :: "trade \<Rightarrow> trade \<Rightarrow> bool"
  assumes pools: "amm_contract (router_amm C) (reducible_balance C) (router_account C) user inv
        (\<lambda>s. execution_context (get_broadcast C s)) independent"
    and router_no_user: "\<not> user (router_account C)"
    and transfer_bal: "router_transfer C a x y n s = Inr s' \<Longrightarrow> user z \<or> z = router_account C \<Longrightarrow> x \<noteq> y \<Longrightarrow>
        reducible_balance C s' c z = (if c = a \<and> z = x then reducible_balance C s c z - n
          else if c = a \<and> z = y then reducible_balance C s c z + n else reducible_balance C s c z)"
    and transfer_enough: "router_transfer C a x y n s = Inr s' \<Longrightarrow> user x \<Longrightarrow> x \<noteq> y \<Longrightarrow> n \<le> reducible_balance C s a x"
    and transfer_inv: "router_transfer C a x y n s = Inr s' \<Longrightarrow> inv s \<Longrightarrow> inv s'"
    and transfer_broadcast: "router_transfer C a x y n s = Inr s' \<Longrightarrow> get_broadcast C s' = get_broadcast C s"
    and transfer_quotes: "router_transfer C a x (router_account C) n s = Inr s' \<Longrightarrow> user x \<Longrightarrow>
        amm_out_given_in (router_amm C) p c d k s' = amm_out_given_in (router_amm C) p c d k s \<and>
        amm_in_given_out (router_amm C) p c d k s' = amm_in_given_out (router_amm C) p c d k s"
    and get_put [simp]: "get_broadcast C (put_broadcast C b s) = b"
    and put_bal [simp]: "reducible_balance C (put_broadcast C b s) c z = reducible_balance C s c z"
    and put_inv: "inv s \<Longrightarrow> inv (put_broadcast C b s)"
    and put_quotes [simp]: "amm_out_given_in (router_amm C) p c d k (put_broadcast C b s) = amm_out_given_in (router_amm C) p c d k s"
      "amm_in_given_out (router_amm C) p c d k (put_broadcast C b s) = amm_in_given_out (router_amm C) p c d k s"
begin

abbreviation bal :: "'s \<Rightarrow> asset_id \<Rightarrow> account_id \<Rightarrow> balance" where
  "bal \<equiv> reducible_balance C"

abbreviation context_of :: "'s \<Rightarrow> execution_type list" where
  "context_of s \<equiv> execution_context (get_broadcast C s)"

lemma sell_trades_keep:
  "sell_trades C ts s = Inr s' \<Longrightarrow> inv s \<Longrightarrow> inv s' \<and> context_of s' = context_of s \<and> (\<forall>c u. user u \<longrightarrow> bal s' c u = bal s c u)"
proof (induction ts arbitrary: s)
  case (Cons t ts)
  then obtain s1 where s1: "amm_execute_sell (router_amm C) (Signed (router_account C)) (trade_pool t) (trade_in t) (trade_out t)
      (bal s (trade_in t) (router_account C)) 0 s = Inr s1" "sell_trades C ts s1 = Inr s'"
    by (auto simp: res_iff)
  then show ?case
    using Cons.IH [OF s1(2)] amm_contract.sell_inv [OF pools s1(1) Cons.prems(2)] amm_contract.sell_context [OF pools s1(1) Cons.prems(2)]
      amm_contract.sell_users [OF pools s1(1) Cons.prems(2)] by simp
qed simp

lemma buy_trades_keep:
  "buy_trades C ps s = Inr s' \<Longrightarrow> inv s \<Longrightarrow> inv s' \<and> context_of s' = context_of s \<and> (\<forall>c u. user u \<longrightarrow> bal s' c u = bal s c u)"
proof (induction ps arbitrary: s)
  case (Cons t ts)
  then obtain s1 where s1: "amm_execute_buy (router_amm C) (Signed (router_account C)) (trade_pool (snd t)) (trade_in (snd t)) (trade_out (snd t))
      (aio_out (fst t)) (aio_in (fst t)) s = Inr s1" "buy_trades C ts s1 = Inr s'"
    by (auto simp: res_iff)
  then show ?case
    using Cons.IH [OF s1(2)] amm_contract.buy_inv [OF pools s1(1) Cons.prems(2)] amm_contract.buy_context [OF pools s1(1) Cons.prems(2)]
      amm_contract.buy_users [OF pools s1(1) Cons.prems(2)] by simp
qed simp

text \<open>The shape of a successful sale and purchase.\<close>

lemma do_sell_run:
  assumes "router_do_sell C (Signed who) a b n lim rt r = Inr r'"
  defines "route \<equiv> get_route_or_default C a b rt r"
  obtains s1 i b1 s3 s4 b4 where "a \<noteq> b" "ensure_route_arguments \<lparr>pair_in = a, pair_out = b\<rparr> route = (Inr () :: ('e, unit) router_result)"
    "router_transfer C a who (router_account C) n (router_state r) = Inr s1"
    "add_to_context Exec_Router (get_broadcast C s1) = Inr (i, b1)"
    "sell_trades C route (put_broadcast C (set_swapper who b1) s1) = Inr s3" "lim \<le> bal s3 b (router_account C)"
    "router_transfer C b (router_account C) who (bal s3 b (router_account C)) s3 = Inr s4"
    "remove_from_context (get_broadcast C s4) = Inr b4"
    "r' = r\<lparr>router_events := router_events r @ [Executed a b n (bal s3 b (router_account C)) i], router_state := put_broadcast C (remove_swapper b4) s4\<rparr>"
  using assms(1) unfolding router_do_sell_def Let_def route_def [symmetric] finish_trade_def
  by (elim run_elims) (auto simp: res_iff)

lemma purchase_run:
  assumes "router_buy C (Signed who) a b m lim rt r = Inr r'"
  defines "route \<equiv> get_route_or_default C a b rt r"
  obtains am s1 i b1 s3 s4 b4 where "a \<noteq> b" "ensure_route_arguments \<lparr>pair_in = a, pair_out = b\<rparr> route = (Inr () :: ('e, unit) router_result)"
    "buy_amounts C (router_state r) (rev route) m = Inr am" "am \<noteq> []" "aio_in (last am) \<le> lim"
    "router_transfer C a who (router_account C) (aio_in (last am))
       (put_broadcast C (set_swapper who (get_broadcast C (router_state r))) (router_state r)) = Inr s1"
    "add_to_context Exec_Router (get_broadcast C s1) = Inr (i, b1)"
    "buy_trades C (zip (rev am) route) (put_broadcast C b1 s1) = Inr s3"
    "router_transfer C b (router_account C) who (bal s3 b (router_account C)) s3 = Inr s4"
    "remove_from_context (get_broadcast C s4) = Inr b4"
    "r' = r\<lparr>router_events := router_events r @ [Executed a b (aio_in (last am)) (bal s3 b (router_account C)) i],
       router_state := put_broadcast C (remove_swapper b4) s4\<rparr>"
  using assms(1) unfolding router_buy_def Let_def route_def [symmetric] finish_trade_def calculate_buy_trade_amounts_def
  by (elim run_elims) (auto simp: res_iff)

text \<open>What a call does to the user who makes it: \<open>n\<close> of \<open>a\<close> paid, \<open>m\<close> of \<open>b\<close> received, nothing else.\<close>

lemma user_settled:
  assumes "router_transfer C a who (router_account C) n s = Inr s1" "\<And>c. bal s3 c who = bal s1 c who"
    "router_transfer C b (router_account C) who m s3 = Inr s4" "user who" "a \<noteq> b"
  shows "traded bal who a b n m s s4"
proof -
  have ne: "who \<noteq> router_account C" using router_no_user assms(4) by auto
  show ?thesis
    using transfer_bal [OF assms(1), of who] transfer_bal [OF assms(3), of who] transfer_enough [OF assms(1,4) ne] assms(2,4,5) ne
    by (auto simp: traded_def)
qed

lemma do_sell_effect:
  assumes run: "router_do_sell C (Signed who) a b n lim rt r = Inr r'" and inv: "inv (router_state r)" and who: "user who"
  shows "\<exists>m i. lim \<le> m \<and> traded bal who a b n m (router_state r) (router_state r') \<and> inv (router_state r') \<and>
     context_of (router_state r') = context_of (router_state r) \<and> routes r' = routes r \<and>
     router_events r' = router_events r @ [Executed a b n m i]"
proof -
  obtain s1 i b1 s3 s4 b4 where ab: "a \<noteq> b" and st: "router_transfer C a who (router_account C) n (router_state r) = Inr s1"
      "add_to_context Exec_Router (get_broadcast C s1) = Inr (i, b1)"
      "sell_trades C (get_route_or_default C a b rt r) (put_broadcast C (set_swapper who b1) s1) = Inr s3" "lim \<le> bal s3 b (router_account C)"
      "router_transfer C b (router_account C) who (bal s3 b (router_account C)) s3 = Inr s4"
      "remove_from_context (get_broadcast C s4) = Inr b4"
      and r': "r' = r\<lparr>router_events := router_events r @ [Executed a b n (bal s3 b (router_account C)) i], router_state := put_broadcast C (remove_swapper b4) s4\<rparr>"
    using run by (rule do_sell_run)
  have keep: "inv s3" "context_of s3 = context_of s1 @ [Exec_Router i]" "\<And>c. bal s3 c who = bal s1 c who"
    using sell_trades_keep [OF st(3) put_inv [OF transfer_inv [OF st(1) inv]]] st(2) who by (auto simp: set_swapper_def res_iff)
  have ctx: "context_of s1 = context_of (router_state r)" "context_of s4 = context_of s1 @ [Exec_Router i]"
    using transfer_broadcast [OF st(1)] transfer_broadcast [OF st(5)] keep(2) by auto
  have "traded bal who a b n (bal s3 b (router_account C)) (router_state r) s4"
    using user_settled [OF st(1) keep(3) st(5) who ab] .
  then show ?thesis
    using st(4,6) ctx put_inv [OF transfer_inv [OF st(5) keep(1)]] by (auto simp: r' traded_def remove_swapper_def res_iff)
qed

text \<open>Sales at the quoted amount.\<close>

lemma sell_amounts_cong:
  assumes "\<And>t k. t \<in> set ts \<Longrightarrow> amm_out_given_in (router_amm C) (trade_pool t) (trade_in t) (trade_out t) k s' =
      amm_out_given_in (router_amm C) (trade_pool t) (trade_in t) (trade_out t) k s"
  shows "sell_amounts C s' ts n = sell_amounts C s ts n"
  using assms by (induction ts arbitrary: n) simp_all

lemma sell_trades_quote:
  assumes "sell_trades C ts s = Inr s'" "inv s" "ts \<noteq> []" "route_connected ts" "sorted_wrt independent ts"
    "\<forall>c\<in>route_assets ts. c \<noteq> trade_in (hd ts) \<longrightarrow> bal s c (router_account C) = 0"
  shows "\<exists>am. sell_amounts C s ts (bal s (trade_in (hd ts)) (router_account C)) = Inr am \<and> am \<noteq> [] \<and>
     aio_out (last am) = bal s' (trade_out (last ts)) (router_account C)"
  using assms
proof (induction ts arbitrary: s)
  case (Cons t ts)
  let ?T = "router_account C" and ?n = "bal s (trade_in t) (router_account C)"
  from Cons.prems(1) obtain s1 where s1: "amm_execute_sell (router_amm C) (Signed ?T) (trade_pool t) (trade_in t) (trade_out t) ?n 0 s = Inr s1"
      "sell_trades C ts s1 = Inr s'"
    by (auto simp: res_iff)
  obtain m where m: "amm_out_given_in (router_amm C) (trade_pool t) (trade_in t) (trade_out t) ?n s = Inr m"
      "traded bal ?T (trade_in t) (trade_out t) ?n m s s1"
    using amm_contract.sell_trader [OF pools s1(1) Cons.prems(2)] by auto
  have out: "bal s1 (trade_out t) ?T = m" using m(2) Cons.prems(6) by (auto simp: traded_def route_assets_def)
  show ?case
  proof (cases ts)
    case Nil
    then show ?thesis using m(1) out s1(2) by (simp add: res_iff)
  next
    case (Cons u us)
    then have con: "trade_in u = trade_out t" "route_connected ts" using Cons.prems(4) by auto
    have quotes: "sell_amounts C s1 ts k = sell_amounts C s ts k" for k
    proof (rule sell_amounts_cong)
      fix x l assume "x \<in> set ts"
      then have "independent \<lparr>trade_pool = trade_pool t, trade_in = trade_in t, trade_out = trade_out t\<rparr> x" using Cons.prems(5) by simp
      then show "amm_out_given_in (router_amm C) (trade_pool x) (trade_in x) (trade_out x) l s1 =
          amm_out_given_in (router_amm C) (trade_pool x) (trade_in x) (trade_out x) l s"
        by (rule amm_contract.sell_quotes [OF pools s1(1) Cons.prems(2)])
    qed
    have "\<forall>c\<in>route_assets ts. c \<noteq> trade_in (hd ts) \<longrightarrow> bal s1 c ?T = 0"
      using m(2) Cons.prems(6) con(1) Cons by (auto simp: traded_def route_assets_def)
    then obtain am where am: "sell_amounts C s1 ts (bal s1 (trade_in (hd ts)) ?T) = Inr am" "am \<noteq> []"
        "aio_out (last am) = bal s' (trade_out (last ts)) ?T"
      using Cons.IH [OF s1(2) amm_contract.sell_inv [OF pools s1(1) Cons.prems(2)] _ con(2)] Cons.prems(5) Cons by auto
    have ne: "ts \<noteq> []" "trade_in (hd ts) = trade_out t" using Cons con(1) by auto
    have "sell_amounts C s ts m = Inr am" using am(1) quotes [of m] unfolding ne(2) out by simp
    then show ?thesis using m(1) am(2,3) ne(1) by simp
  qed
qed simp

lemma do_sell_quote:
  assumes run: "router_do_sell C (Signed who) a b n lim rt r = Inr r'" and inv: "inv (router_state r)" and who: "user who"
    and indep: "sorted_wrt independent (get_route_or_default C a b rt r)"
    and empty: "\<forall>c\<in>route_assets (get_route_or_default C a b rt r). bal (router_state r) c (router_account C) = 0"
  shows "\<exists>m. calculate_expected_amount_out C (get_route_or_default C a b rt r) n r = Inr m \<and> lim \<le> m \<and>
     traded bal who a b n m (router_state r) (router_state r')"
proof -
  let ?T = "router_account C"
  define route where "route = get_route_or_default C a b rt r"
  obtain s1 i b1 s3 s4 b4 where ab: "a \<noteq> b" and args: "ensure_route_arguments \<lparr>pair_in = a, pair_out = b\<rparr> route = (Inr () :: ('e, unit) router_result)"
      and st: "router_transfer C a who ?T n (router_state r) = Inr s1" "add_to_context Exec_Router (get_broadcast C s1) = Inr (i, b1)"
      "sell_trades C route (put_broadcast C (set_swapper who b1) s1) = Inr s3" "lim \<le> bal s3 b ?T"
      "router_transfer C b ?T who (bal s3 b ?T) s3 = Inr s4" "remove_from_context (get_broadcast C s4) = Inr b4"
      and r': "r' = r\<lparr>router_events := router_events r @ [Executed a b n (bal s3 b ?T) i], router_state := put_broadcast C (remove_swapper b4) s4\<rparr>"
    using run unfolding route_def by (rule do_sell_run)
  define s2 where "s2 = put_broadcast C (set_swapper who b1) s1"
  have ne: "who \<noteq> ?T" using router_no_user who by auto
  have rt: "route \<noteq> []" "trade_in (hd route) = a" "trade_out (last route) = b" "route_connected route"
    using args by (auto simp: ensure_route_arguments_def res_iff split: list.splits)
  have b2: "bal s2 c ?T = (if c = a then bal (router_state r) c ?T + n else bal (router_state r) c ?T)" for c
    using transfer_bal [OF st(1), of ?T c] ne by (simp add: s2_def)
  have a0: "bal (router_state r) a ?T = 0" using empty rt(1,2) by (auto simp: route_def [symmetric] route_assets_def)
  have inv2: "inv s2" unfolding s2_def by (rule put_inv [OF transfer_inv [OF st(1) inv]])
  obtain am where am: "sell_amounts C s2 route n = Inr am" "am \<noteq> []" "aio_out (last am) = bal s3 b ?T"
    using sell_trades_quote [OF st(3) [folded s2_def] inv2 rt(1,4)] indep empty rt a0 by (auto simp: route_def [symmetric] b2)
  have "sell_amounts C (router_state r) route n = sell_amounts C s2 route n"
    using transfer_quotes [OF st(1) who] by (intro sell_amounts_cong) (simp add: s2_def)
  then have q: "calculate_expected_amount_out C route n r = Inr (bal s3 b ?T)"
    using am by (simp add: calculate_expected_amount_out_def calculate_sell_trade_amounts_def)
  have "\<And>c. bal s3 c who = bal s1 c who"
    using sell_trades_keep [OF st(3) put_inv [OF transfer_inv [OF st(1) inv]]] who by simp
  from user_settled [OF st(1) this st(5) who ab] have "traded bal who a b n (bal s3 b ?T) (router_state r) (router_state r')"
    by (simp add: r' traded_def)
  then show ?thesis using q st(4) by (auto simp: route_def [symmetric])
qed

text \<open>Purchases.\<close>

lemma buy_trades_deliver:
  assumes "buy_trades C ps s = Inr s'" "inv s" "ps \<noteq> []"
  shows "aio_out (fst (last ps)) \<le> bal s' (trade_out (snd (last ps))) (router_account C)"
  using assms
proof (induction ps arbitrary: s)
  case (Cons p ps)
  from Cons.prems(1) obtain s1 where s1: "amm_execute_buy (router_amm C) (Signed (router_account C)) (trade_pool (snd p)) (trade_in (snd p))
      (trade_out (snd p)) (aio_out (fst p)) (aio_in (fst p)) s = Inr s1" "buy_trades C ps s1 = Inr s'"
    by (auto simp: res_iff)
  show ?case
  proof (cases "ps = []")
    case True
    obtain n where "traded bal (router_account C) (trade_in (snd p)) (trade_out (snd p)) n (aio_out (fst p)) s s1"
      using amm_contract.buy_trader [OF pools s1(1) Cons.prems(2)] by blast
    then show ?thesis using True s1(2) by (simp add: traded_def)
  next
    case False
    then show ?thesis using Cons.IH [OF s1(2) amm_contract.buy_inv [OF pools s1(1) Cons.prems(2)]] by simp
  qed
qed simp

lemma buy_chain_cong:
  assumes "\<And>t k. t \<in> snd ` set ps \<Longrightarrow> amm_in_given_out (router_amm C) (trade_pool t) (trade_in t) (trade_out t) k s' =
      amm_in_given_out (router_amm C) (trade_pool t) (trade_in t) (trade_out t) k s"
  shows "buy_chain C s' ps m = buy_chain C s ps m"
  using assms by (induction ps) simp_all

lemma buy_trades_exact:
  assumes "buy_trades C ps s = Inr s'" "inv s" "ps \<noteq> []" "route_connected (map snd ps)" "sorted_wrt independent (map snd ps)"
    "buy_chain C s ps m" "\<forall>c\<in>route_assets (map snd ps). c \<noteq> trade_in (snd (hd ps)) \<longrightarrow> bal s c (router_account C) = 0"
    "bal s (trade_in (snd (hd ps))) (router_account C) = aio_in (fst (hd ps))"
  shows "bal s' (trade_out (snd (last ps))) (router_account C) = m"
  using assms
proof (induction ps arbitrary: s)
  case (Cons p ps)
  let ?T = "router_account C" and ?t = "snd p"
  from Cons.prems(1) obtain s1 where s1: "amm_execute_buy (router_amm C) (Signed ?T) (trade_pool ?t) (trade_in ?t) (trade_out ?t)
      (aio_out (fst p)) (aio_in (fst p)) s = Inr s1" "buy_trades C ps s1 = Inr s'"
    by (auto simp: res_iff)
  have tr: "traded bal ?T (trade_in ?t) (trade_out ?t) (aio_in (fst p)) (aio_out (fst p)) s s1"
    using amm_contract.buy_trader [OF pools s1(1) Cons.prems(2)] Cons.prems(6) by auto
  have out: "bal s1 (trade_out ?t) ?T = aio_out (fst p)" using tr Cons.prems(7) by (auto simp: traded_def route_assets_def)
  show ?case
  proof (cases ps)
    case Nil
    then show ?thesis using out s1(2) Cons.prems(6) by simp
  next
    case (Cons q qs)
    then have con: "trade_in (snd q) = trade_out ?t" "route_connected (map snd ps)" using Cons.prems(4) by auto
    have "buy_chain C s1 ps m = buy_chain C s ps m"
    proof (rule buy_chain_cong)
      fix x l assume "x \<in> snd ` set ps"
      then have "independent \<lparr>trade_pool = trade_pool ?t, trade_in = trade_in ?t, trade_out = trade_out ?t\<rparr> x" using Cons.prems(5) by auto
      then show "amm_in_given_out (router_amm C) (trade_pool x) (trade_in x) (trade_out x) l s1 =
          amm_in_given_out (router_amm C) (trade_pool x) (trade_in x) (trade_out x) l s"
        by (rule amm_contract.buy_quotes [OF pools s1(1) Cons.prems(2)])
    qed
    then have chain: "buy_chain C s1 ps m" "aio_out (fst p) = aio_in (fst q)" using Cons.prems(6) Cons by auto
    have "\<forall>c\<in>route_assets (map snd ps). c \<noteq> trade_in (snd (hd ps)) \<longrightarrow> bal s1 c ?T = 0"
      using tr Cons.prems(7,8) con(1) Cons by (auto simp: traded_def route_assets_def)
    then show ?thesis
      using Cons.IH [OF s1(2) amm_contract.buy_inv [OF pools s1(1) Cons.prems(2)] _ con(2) _ chain(1)] Cons.prems(5) Cons con(1) out chain(2) by simp
  qed
qed simp

lemma buy_effect:
  assumes run: "router_buy C (Signed who) a b m lim rt r = Inr r'" and inv: "inv (router_state r)" and who: "user who"
  defines "route \<equiv> get_route_or_default C a b rt r"
  shows "\<exists>n m' i. calculate_expected_amount_in C route m r = Inr n \<and> n \<le> lim \<and> m \<le> m' \<and>
     traded bal who a b n m' (router_state r) (router_state r') \<and> inv (router_state r') \<and>
     context_of (router_state r') = context_of (router_state r) \<and> routes r' = routes r \<and>
     router_events r' = router_events r @ [Executed a b n m' i] \<and>
     (sorted_wrt independent route \<longrightarrow> (\<forall>c\<in>route_assets route. bal (router_state r) c (router_account C) = 0) \<longrightarrow> m' = m)"
proof -
  let ?T = "router_account C" and ?s0 = "put_broadcast C (set_swapper who (get_broadcast C (router_state r))) (router_state r)"
  obtain am s1 i b1 s3 s4 b4 where ab: "a \<noteq> b" and args: "ensure_route_arguments \<lparr>pair_in = a, pair_out = b\<rparr> route = (Inr () :: ('e, unit) router_result)"
      and st: "buy_amounts C (router_state r) (rev route) m = Inr am" "am \<noteq> []" "aio_in (last am) \<le> lim"
      "router_transfer C a who ?T (aio_in (last am)) ?s0 = Inr s1" "add_to_context Exec_Router (get_broadcast C s1) = Inr (i, b1)"
      "buy_trades C (zip (rev am) route) (put_broadcast C b1 s1) = Inr s3"
      "router_transfer C b ?T who (bal s3 b ?T) s3 = Inr s4" "remove_from_context (get_broadcast C s4) = Inr b4"
      and r': "r' = r\<lparr>router_events := router_events r @ [Executed a b (aio_in (last am)) (bal s3 b ?T) i],
         router_state := put_broadcast C (remove_swapper b4) s4\<rparr>"
    using run unfolding route_def by (rule purchase_run)
  let ?s2 = "put_broadcast C b1 s1" and ?ps = "zip (rev am) route"
  have rt: "route \<noteq> []" "trade_in (hd route) = a" "trade_out (last route) = b" "route_connected route"
    using args by (auto simp: ensure_route_arguments_def res_iff split: list.splits)
  have ch: "length am = length route" "buy_chain C (router_state r) ?ps m" using buy_amounts_chain [OF st(1)] by auto
  have ps: "?ps \<noteq> []" "map snd ?ps = route" "snd (hd ?ps) = hd route" "fst (hd ?ps) = last am" "snd (last ?ps) = last route"
    using ch(1) st(2) rt(1) by (simp_all add: hd_rev hd_zip last_zip)
  have inv2: "inv ?s2" using put_inv transfer_inv [OF st(4)] inv by blast
  have keep: "inv s3" "context_of s3 = context_of s1 @ [Exec_Router i]" "\<And>c. bal s3 c who = bal s1 c who"
    using buy_trades_keep [OF st(6) inv2] st(5) who by (auto simp: res_iff)
  have ctx: "context_of s1 = context_of (router_state r)" "context_of s4 = context_of s1 @ [Exec_Router i]"
    using transfer_broadcast [OF st(4)] transfer_broadcast [OF st(7)] keep(2) by (auto simp: set_swapper_def)
  have le: "m \<le> bal s3 b ?T" using buy_trades_deliver [OF st(6) inv2 ps(1)] buy_chain_last [OF ch(2) ps(1)] ps(5) rt(3) by simp
  have "traded bal who a b (aio_in (last am)) (bal s3 b ?T) ?s0 s4" using user_settled [OF st(4) keep(3) st(7) who ab] .
  then have tr: "traded bal who a b (aio_in (last am)) (bal s3 b ?T) (router_state r) (router_state r')" by (simp add: r' traded_def)
  have exact: "bal s3 b ?T = m" if "sorted_wrt independent route" and e: "\<forall>c\<in>route_assets route. bal (router_state r) c ?T = 0"
  proof -
    have "who \<noteq> ?T" using router_no_user who by auto
    then have b2: "bal s1 c ?T = (if c = a then bal (router_state r) c ?T + aio_in (last am) else bal (router_state r) c ?T)" for c
      using transfer_bal [OF st(4), of ?T c] by simp
    have "a \<in> route_assets route" using rt(1,2) by (auto simp: route_assets_def)
    moreover have "buy_chain C ?s2 ?ps m = buy_chain C (router_state r) ?ps m"
      using transfer_quotes [OF st(4) who] by (intro buy_chain_cong) simp
    ultimately show ?thesis using buy_trades_exact [OF st(6) inv2 ps(1)] that ch(2) ps rt by (simp add: b2)
  qed
  have "calculate_expected_amount_in C route m r = Inr (aio_in (last am))"
    using st(1,2) by (simp add: calculate_expected_amount_in_def calculate_buy_trade_amounts_def)
  then show ?thesis
    using st(3,8) le tr exact ctx put_inv [OF transfer_inv [OF st(7) keep(1)]] by (auto simp: r' remove_swapper_def res_iff)
qed

end

end
