(* ===== verification/Stableswap_Router.thy ===== *)
theory Stableswap_Router
  imports Stableswap_Runs Router_Contract
begin

text \<open>
  The stableswap pallet as a pool of the router (\<open>pallets/stableswap/src/trade_execution.rs\<close>): a trade of the share token adds or removes
  liquidity, any other trade is a sale or a purchase. What is executed is what was quoted on the state before.
\<close>

section \<open>Quotes\<close>

text \<open>The reserves before and after adding the amounts of \<open>added\<close>; every other reserve must not be empty.\<close>

primrec quote_reserves ::
    "('w, 'z) stable_config_scheme \<Rightarrow> account_id \<Rightarrow> 'w \<Rightarrow> asset_id list \<Rightarrow> (asset_id \<times> balance) list \<Rightarrow>
     (stable_reserve list \<times> stable_reserve list) stable_result" where
  "quote_reserves C account w [] added = Inr ([], [])"
| "quote_reserves C account w (pool_asset # assets) added =
     tryR (ok_or (sw_decimals C w pool_asset) (Module UnknownDecimals)) (\<lambda>decimals.
     let reserve = free_balance C w pool_asset account in
     case map_of added pool_asset of
       Some liq_added \<Rightarrow>
         tryR (ok_or (checked_add 128 reserve liq_added) (Arithmetic Arith_Overflow)) (\<lambda>inc_reserve.
         tryR (quote_reserves C account w assets (bt_remove pool_asset added)) (\<lambda>(initial, updated).
         Inr (\<lparr>ar_amount = reserve, ar_decimals = decimals\<rparr> # initial, \<lparr>ar_amount = inc_reserve, ar_decimals = decimals\<rparr> # updated)))
     | None \<Rightarrow>
         ensure (0 < reserve) (Module InvalidInitialLiquidity) (
         tryR (quote_reserves C account w assets added) (\<lambda>(initial, updated).
         Inr (\<lparr>ar_amount = reserve, ar_decimals = decimals\<rparr> # initial, \<lparr>ar_amount = reserve, ar_decimals = decimals\<rparr> # updated))))"

definition quote_withdraw_one :: "('w, 'z) stable_config_scheme \<Rightarrow> asset_id \<Rightarrow> asset_id \<Rightarrow> balance \<Rightarrow> 'w stableswap \<Rightarrow> balance stable_result" where
  "quote_withdraw_one C pool_id asset_out amount_in s =
     tryR (ok_or (sw_pools s pool_id) (Module PoolNotFound)) (\<lambda>pool.
     tryR (ok_or (find_asset asset_out (pi_assets pool)) (Module AssetNotInPool)) (\<lambda>asset_idx.
     tryR (ok_or (reserves_with_decimals C pool (pool_account C pool_id) (sw_world s)) (Module UnknownDecimals)) (\<lambda>balances.
     tryR (get_updated_pegs C pool_id pool s) (\<lambda>(trade_fee, asset_pegs).
     tryR (ok_or (calculate_withdraw_one_asset (sw_arith C) MAX_D_ITERATIONS MAX_Y_ITERATIONS balances amount_in asset_idx (share_issuance s pool_id)
                    (get_amplification C pool (sw_world s)) trade_fee asset_pegs) (Arithmetic Arith_Overflow)) (\<lambda>(amount, _).
     Inr amount)))))"

definition quote_add_liquidity :: "('w, 'z) stable_config_scheme \<Rightarrow> asset_id \<Rightarrow> asset_id \<Rightarrow> balance \<Rightarrow> 'w stableswap \<Rightarrow> balance stable_result" where
  "quote_add_liquidity C pool_id asset_in amount_in s =
     tryR (ok_or (sw_pools s pool_id) (Module PoolNotFound)) (\<lambda>pool.
     ensure (is_asset_allowed pool_id asset_in STABLE_ADD_LIQUIDITY s) (Module Stable_NotAllowed) (
     ensure (sw_min_trading_limit C \<le> amount_in) (Module Stable_InsufficientTradingAmount) (
     ensure (find_asset asset_in (pi_assets pool) \<noteq> None) (Module AssetNotInPool) (
     tryR (quote_reserves C (pool_account C pool_id) (sw_world s) (pi_assets pool) [(asset_in, amount_in)]) (\<lambda>(initial_reserves, updated_reserves).
     tryR (get_updated_pegs C pool_id pool s) (\<lambda>(trade_fee, asset_pegs).
     tryR (ok_or (calculate_stable_shares (sw_arith C) MAX_D_ITERATIONS initial_reserves updated_reserves (get_amplification C pool (sw_world s))
                    (share_issuance s pool_id) trade_fee asset_pegs) (Arithmetic Arith_Overflow)) (\<lambda>(share_amount, _).
     Inr share_amount)))))))"

definition quote_add_one :: "('w, 'z) stable_config_scheme \<Rightarrow> asset_id \<Rightarrow> asset_id \<Rightarrow> balance \<Rightarrow> 'w stableswap \<Rightarrow> balance stable_result" where
  "quote_add_one C pool_id asset_in amount_out s =
     tryR (ok_or (sw_pools s pool_id) (Module PoolNotFound)) (\<lambda>pool.
     tryR (ok_or (find_asset asset_in (pi_assets pool)) (Module AssetNotInPool)) (\<lambda>asset_idx.
     tryR (ok_or (reserves_with_decimals C pool (pool_account C pool_id) (sw_world s)) (Module UnknownDecimals)) (\<lambda>balances.
     tryR (get_updated_pegs C pool_id pool s) (\<lambda>(trade_fee, asset_pegs).
     tryR (ok_or (calculate_add_one_asset (sw_arith C) MAX_D_ITERATIONS MAX_Y_ITERATIONS balances amount_out asset_idx (share_issuance s pool_id)
                    (get_amplification C pool (sw_world s)) trade_fee asset_pegs) (Arithmetic Arith_Overflow)) (\<lambda>(liquidity, _).
     Inr liquidity)))))"

definition quote_shares_for :: "('w, 'z) stable_config_scheme \<Rightarrow> asset_id \<Rightarrow> asset_id \<Rightarrow> balance \<Rightarrow> 'w stableswap \<Rightarrow> balance stable_result" where
  "quote_shares_for C pool_id asset_out amount_out s =
     tryR (ok_or (sw_pools s pool_id) (Module PoolNotFound)) (\<lambda>pool.
     tryR (ok_or (find_asset asset_out (pi_assets pool)) (Module AssetNotInPool)) (\<lambda>asset_idx.
     tryR (ok_or (reserves_with_decimals C pool (pool_account C pool_id) (sw_world s)) (Module UnknownDecimals)) (\<lambda>balances.
     tryR (get_updated_pegs C pool_id pool s) (\<lambda>(trade_fee, asset_pegs).
     tryR (ok_or (calculate_shares_for_amount (sw_arith C) MAX_D_ITERATIONS balances asset_idx amount_out (get_amplification C pool (sw_world s))
                    (share_issuance s pool_id) trade_fee asset_pegs) (Arithmetic Arith_Overflow)) (\<lambda>(shares_amount, _).
     Inr shares_amount)))))"

definition stable_out_given_in ::
    "('w, 'z) stable_config_scheme \<Rightarrow> pool_type \<Rightarrow> asset_id \<Rightarrow> asset_id \<Rightarrow> balance \<Rightarrow> 'w stableswap \<Rightarrow> stable_error dispatch_error executor_error + balance" where
  "stable_out_given_in C pool_type asset_in asset_out amount_in s =
     (case pool_type of
        Pool_Stableswap pool_id \<Rightarrow>
          executor (if asset_in = pool_id then quote_withdraw_one C pool_id asset_out amount_in s
                    else if asset_out = pool_id then quote_add_liquidity C pool_id asset_in amount_in s
                    else tryR (calculate_out_amount C pool_id asset_in asset_out amount_in False s) (\<lambda>((amount_out, _), _). Inr amount_out))
      | _ \<Rightarrow> Inl NotSupported)"

definition stable_in_given_out ::
    "('w, 'z) stable_config_scheme \<Rightarrow> pool_type \<Rightarrow> asset_id \<Rightarrow> asset_id \<Rightarrow> balance \<Rightarrow> 'w stableswap \<Rightarrow> stable_error dispatch_error executor_error + balance" where
  "stable_in_given_out C pool_type asset_in asset_out amount_out s =
     (case pool_type of
        Pool_Stableswap pool_id \<Rightarrow>
          executor (if asset_out = pool_id then quote_add_one C pool_id asset_in amount_out s
                    else if asset_in = pool_id then quote_shares_for C pool_id asset_out amount_out s
                    else tryR (calculate_in_amount C pool_id asset_in asset_out amount_out False s) (\<lambda>((amount_in, _), _). Inr amount_in))
      | _ \<Rightarrow> Inl NotSupported)"

section \<open>Execution\<close>

definition stable_execute_sell ::
    "('w, 'z) stable_config_scheme \<Rightarrow> origin \<Rightarrow> pool_type \<Rightarrow> asset_id \<Rightarrow> asset_id \<Rightarrow> balance \<Rightarrow> balance \<Rightarrow> 'w stableswap \<Rightarrow>
     stable_error dispatch_error executor_error + 'w stableswap" where
  "stable_execute_sell C who pool_type asset_in asset_out amount_in min_limit s =
     (case pool_type of
        Pool_Stableswap pool_id \<Rightarrow>
          executor (if asset_in = pool_id then remove_liquidity_one_asset C who pool_id asset_out amount_in min_limit s
                    else if asset_out = pool_id then add_assets_liquidity C who pool_id [(asset_in, amount_in)] min_limit s
                    else stable_sell C who pool_id asset_in asset_out amount_in min_limit s)
      | _ \<Rightarrow> Inl NotSupported)"

definition stable_execute_buy ::
    "('w, 'z) stable_config_scheme \<Rightarrow> origin \<Rightarrow> pool_type \<Rightarrow> asset_id \<Rightarrow> asset_id \<Rightarrow> balance \<Rightarrow> balance \<Rightarrow> 'w stableswap \<Rightarrow>
     stable_error dispatch_error executor_error + 'w stableswap" where
  "stable_execute_buy C who pool_type asset_in asset_out amount_out max_limit s =
     (case pool_type of
        Pool_Stableswap pool_id \<Rightarrow>
          executor (if asset_out = pool_id then add_liquidity_shares C who pool_id amount_out asset_in max_limit s
                    else if asset_in = pool_id then withdraw_asset_amount C who pool_id asset_out amount_out max_limit s
                    else stable_buy C who pool_id asset_out asset_in amount_out max_limit s)
      | _ \<Rightarrow> Inl NotSupported)"

definition stable_liquidity_depth ::
    "('w, 'z) stable_config_scheme \<Rightarrow> pool_type \<Rightarrow> asset_id \<Rightarrow> asset_id \<Rightarrow> 'w stableswap \<Rightarrow> stable_error dispatch_error executor_error + balance" where
  "stable_liquidity_depth C pool_type asset_a asset_b s =
     (case pool_type of
        Pool_Stableswap pool_id \<Rightarrow> Inr (free_balance C (sw_world s) asset_a (pool_account C pool_id))
      | _ \<Rightarrow> Inl NotSupported)"

definition stable_spot_price_with_fee ::
    "('w, 'z) stable_config_scheme \<Rightarrow> pool_type \<Rightarrow> asset_id \<Rightarrow> asset_id \<Rightarrow> 'w stableswap \<Rightarrow> stable_error dispatch_error executor_error + nat" where
  "stable_spot_price_with_fee C pool_type asset_a asset_b s =
     (case pool_type of
        Pool_Stableswap pool_id \<Rightarrow> executor (
          tryR (ok_or (sw_pools s pool_id) (Module PoolNotFound)) (\<lambda>pool.
          tryR (ok_or (reserves_with_decimals C pool (pool_account C pool_id) (sw_world s)) (Module UnknownDecimals)) (\<lambda>balances.
          tryR (get_updated_pegs C pool_id pool s) (\<lambda>(trade_fee, asset_pegs).
          ok_or (st_calculate_spot_price (sw_arith C) pool_id (zip (pi_assets pool) balances) (get_amplification C pool (sw_world s)) asset_a asset_b
                   (share_issuance s pool_id) (sw_min_trading_limit C) (Some trade_fee) asset_pegs) (Arithmetic Arith_Overflow)))))
      | _ \<Rightarrow> Inl NotSupported)"

section \<open>What is executed is what was quoted\<close>

text \<open>In a pool with shares, the execution and the quote see the same reserves; nothing is left over when the asset is in the pool.\<close>

lemma gather_quote:
  assumes "gather_reserves C acc i w as added = Inr (init, upd, prov, left)" "0 < i"
  shows "quote_reserves C acc w as added = Inr (init, upd)"
  using assms
proof (induction as arbitrary: added init upd prov)
  case (Cons a as)
  then show ?case by (cases "map_of added a") (auto simp: res_iff Let_def)
qed simp

lemma gather_left:
  assumes "gather_reserves C acc i w as added = Inr (init, upd, prov, left)" "0 < i" "a \<notin> set as"
  shows "map_of left a = map_of added a"
  using assms
proof (induction as arbitrary: added init upd prov)
  case (Cons b as)
  then show ?case by (cases "map_of added b") (auto simp: res_iff Let_def)
qed simp

lemma collect_added_one:
  assumes "collect_added C who p [(a, n)] [] s = Inr added"
  shows "added = [(a, n)]" "is_asset_allowed p a STABLE_ADD_LIQUIDITY s" "sw_min_trading_limit C \<le> n"
  using assms by (auto simp: res_iff bt_insert_def bt_retain_def)

lemma quote_add_liquidity_run:
  assumes run: "stable_do_add_liquidity C who p [(a, n)] l s = Inr (m, s')" and shares: "0 < share_issuance s p"
  shows "quote_add_liquidity C p a n s = Inr m"
proof -
  obtain pool added init upd prov fee pegs fs where r: "sw_pools s p = Some pool" "collect_added C who p [(a, n)] [] s = Inr added"
    "gather_reserves C (pool_account C p) (share_issuance s p) (sw_world s) (pi_assets pool) added = Inr (init, upd, prov, [])"
    "get_updated_pegs C p pool s = Inr (fee, pegs)"
    "calculate_stable_shares (sw_arith C) MAX_D_ITERATIONS init upd (get_amplification C pool (sw_world s)) (share_issuance s p) fee pegs = Some (m, fs)"
    using run by (elim stable_do_add_liquidity_run) blast
  note added = collect_added_one [OF r(2)]
  have "a \<in> set (pi_assets pool)" using gather_left [OF r(3) shares, of a] added(1) by auto
  then show ?thesis
    unfolding quote_add_liquidity_def using r added gather_quote [OF r(3) shares] by (simp add: find_asset_def)
qed

text \<open>The amounts of the remaining cases.\<close>

lemma quote_withdraw_one_run:
  "do_remove_liquidity_one_asset C who p a n l s = Inr (m, s') \<Longrightarrow> quote_withdraw_one C p a n s = Inr m"
  by (elim do_remove_liquidity_one_asset_run) (simp add: quote_withdraw_one_def find_asset_def)

lemma quote_add_one_run: "do_add_liquidity_shares C who p m a l s = Inr (n, s') \<Longrightarrow> quote_add_one C p a m s = Inr n"
  by (elim do_add_liquidity_shares_run) (simp add: quote_add_one_def find_asset_def)


context stable_env
begin

text \<open>The ledger operations of the three kinds of trade, seen from the trader's account.\<close>

lemma swap_traded:
  assumes "transfer C a T (pool_account C p) n w = Inr w1" "transfer C b (pool_account C p) T m w1 = Inr w2"
    and "pool_ledger C T" "T \<noteq> pool_account C p" "a \<noteq> b"
  shows "traded (free_balance C) T a b n m w w2"
  using pool_ledger.transfer_pool [OF assms(3,1)] pool_ledger.transfer_pool [OF assms(3,2)] pool_ledger.transfer_enough [OF assms(3,1)] assms(4,5)
  by (auto simp: traded_def)

lemma mint_traded:
  assumes "deposit C b T m w = Inr w1" "transfer C a T (pool_account C p) n w1 = Inr w2"
    and "pool_ledger C T" "T \<noteq> pool_account C p" "a \<noteq> b"
  shows "traded (free_balance C) T a b n m w w2"
  using pool_ledger.deposit_pool [OF assms(3,1)] pool_ledger.transfer_pool [OF assms(3,2)] pool_ledger.transfer_enough [OF assms(3,2)] assms(4,5)
  by (auto simp: traded_def)

lemma burn_traded:
  assumes "withdraw C a T n w = Inr w1" "transfer C b (pool_account C p) T m w1 = Inr w2"
    and "pool_ledger C T" "T \<noteq> pool_account C p" "a \<noteq> b"
  shows "traded (free_balance C) T a b n m w w2"
  using pool_ledger.withdraw_pool [OF assms(3,1)] pool_ledger.withdraw_enough [OF assms(3,1)] pool_ledger.transfer_pool [OF assms(3,2)] assms(4,5)
  by (auto simp: traded_def)

lemma traded_hook:
  assumes "traded (free_balance C) T a b n m w w1" "free_balance C w2 = free_balance C w1"
  shows "traded (free_balance C) T a b n m w w2"
  using assms by (simp add: traded_def)

lemma share_not_in_pool: "stable_inv C s \<Longrightarrow> sw_pools s p = Some pool \<Longrightarrow> find_asset a (pi_assets pool) = Some i \<Longrightarrow> a \<noteq> p"
  using stable_invD(1) [of C s p pool] by (auto simp: stable_pool_ok_def)

lemma share_sold:
  assumes "do_remove_liquidity_one_asset C T p b n l s = Inr (m, s')" "pool_ledger C T" "T \<noteq> pool_account C p" "stable_inv C s"
  shows "l \<le> m \<and> traded (free_balance C) T p b n m (sw_world s) (sw_world s')"
proof -
  from assms(1) obtain pool i w1 w2 st where r: "sw_pools s p = Some pool" "find_asset b (pi_assets pool) = Some i" "l \<le> m"
      "withdraw C p T n (sw_world s) = Inr w1" "transfer C b (pool_account C p) T m w1 = Inr w2" "sw_on_liquidity_changed C p st w2 = Inr (sw_world s')"
    by (elim do_remove_liquidity_one_asset_run) blast
  have "p \<noteq> b" using share_not_in_pool [OF assms(4) r(1,2)] by simp
  from traded_hook [OF burn_traded [OF r(4,5) assms(2,3) this]] liquidity_hook [OF r(6)] r(3) show ?thesis by blast
qed

lemma asset_bought:
  assumes "withdraw_asset_amount C (Signed T) p b m l s = Inr s'" "pool_ledger C T" "T \<noteq> pool_account C p" "stable_inv C s"
  shows "\<exists>n. n \<le> l \<and> quote_shares_for C p b m s = Inr n \<and> traded (free_balance C) T p b n m (sw_world s) (sw_world s')"
proof -
  from assms(1) obtain pool i rs fee pegs n fs w1 w2 st where r: "sw_pools s p = Some pool" "find_asset b (pi_assets pool) = Some i" "n \<le> l"
      "withdraw C p T n (sw_world s) = Inr w1" "transfer C b (pool_account C p) T m w1 = Inr w2" "sw_on_liquidity_changed C p st w2 = Inr (sw_world s')"
      "reserves_with_decimals C pool (pool_account C p) (sw_world s) = Some rs" "get_updated_pegs C p pool s = Inr (fee, pegs)"
      "calculate_shares_for_amount (sw_arith C) MAX_D_ITERATIONS rs i m (get_amplification C pool (sw_world s)) (share_issuance s p) fee pegs = Some (n, fs)"
    by (elim withdraw_asset_amount_run) blast
  have "p \<noteq> b" using share_not_in_pool [OF assms(4) r(1,2)] by simp
  from traded_hook [OF burn_traded [OF r(4,5) assms(2,3) this]] liquidity_hook [OF r(6)]
  have "traded (free_balance C) T p b n m (sw_world s) (sw_world s')" by blast
  moreover have "quote_shares_for C p b m s = Inr n" using r by (simp add: quote_shares_for_def find_asset_def)
  ultimately show ?thesis using r(3) by blast
qed

lemma share_bought:
  assumes "do_add_liquidity_shares C T p m a l s = Inr (n, s')" "pool_ledger C T" "T \<noteq> pool_account C p" "stable_inv C s"
  shows "n \<le> l \<and> traded (free_balance C) T a p n m (sw_world s) (sw_world s')"
proof -
  from assms(1) obtain pool i w1 w2 st where r: "sw_pools s p = Some pool" "find_asset a (pi_assets pool) = Some i" "n \<le> l"
      "deposit C p T m (sw_world s) = Inr w1" "transfer C a T (pool_account C p) n w1 = Inr w2" "sw_on_liquidity_changed C p st w2 = Inr (sw_world s')"
    by (elim do_add_liquidity_shares_run) blast
  have "a \<noteq> p" by (rule share_not_in_pool [OF assms(4) r(1,2)])
  from traded_hook [OF mint_traded [OF r(4,5) assms(2,3) this]] liquidity_hook [OF r(6)] r(3) show ?thesis by blast
qed

lemma asset_added:
  assumes "stable_do_add_liquidity C T p [(a, n)] l s = Inr (m, s')" "pool_ledger C T" "T \<noteq> pool_account C p" "a \<noteq> p"
  shows "l \<le> m \<and> traded (free_balance C) T a p n m (sw_world s) (sw_world s')"
proof -
  from assms(1) obtain w1 w2 st where r: "l \<le> m" "deposit C p T m (sw_world s) = Inr w1"
      "transfer_all C T (pool_account C p) [(a, n)] (s\<lparr>sw_world := w1\<rparr>) = Inr (s\<lparr>sw_world := w2\<rparr>)" "sw_on_liquidity_changed C p st w2 = Inr (sw_world s')"
    by (elim stable_do_add_liquidity_run) blast
  from r(3) obtain w where "transfer C a T (pool_account C p) n w1 = Inr w" "s\<lparr>sw_world := w2\<rparr> = s\<lparr>sw_world := w\<rparr>" by (auto simp: res_iff)
  then have t: "transfer C a T (pool_account C p) n w1 = Inr w2" by (metis stableswap.select_convs(8) stableswap.surjective stableswap.update_convs(8))
  from traded_hook [OF mint_traded [OF r(2) t assms(2,3,4)]] liquidity_hook [OF r(4)] r(1) show ?thesis by blast
qed

lemma execute_sell_quote:
  assumes run: "stable_execute_sell C (Signed T) (Pool_Stableswap p) a b n l s = Inr s'"
    and "stable_inv C s" "pool_ledger C T" "T \<noteq> pool_account C p" "b = p \<longrightarrow> 0 < share_issuance s p"
  shows "\<exists>m. l \<le> m \<and> stable_out_given_in C (Pool_Stableswap p) a b n s = Inr m \<and> traded (free_balance C) T a b n m (sw_world s) (sw_world s')"
proof -
  consider "a = p" | "a \<noteq> p" "b = p" | "a \<noteq> p" "b \<noteq> p" by blast
  then show ?thesis
  proof cases
    case 1
    with run obtain m where m: "do_remove_liquidity_one_asset C T p b n l s = Inr (m, s')"
      by (auto simp: stable_execute_sell_def remove_liquidity_one_asset_def res_iff)
    then show ?thesis using share_sold [OF m assms(3,4,2)] quote_withdraw_one_run [OF m] 1 by (auto simp: stable_out_given_in_def)
  next
    case 2
    with run obtain m where m: "stable_do_add_liquidity C T p [(a, n)] l s = Inr (m, s')"
      by (auto simp: stable_execute_sell_def add_assets_liquidity_def res_iff)
    then show ?thesis using asset_added [OF m assms(3,4) 2(1)] quote_add_liquidity_run [OF m] assms(5) 2 by (auto simp: stable_out_given_in_def)
  next
    case 3
    with run have "stable_sell C (Signed T) p a b n l s = Inr s'" by (simp add: stable_execute_sell_def res_iff)
    then obtain m f w1 w2 st where r: "a \<noteq> b" "calculate_out_amount C p a b n False s = Inr ((m, f), s)" "l \<le> m"
        "transfer C a T (pool_account C p) n (sw_world s) = Inr w1" "transfer C b (pool_account C p) T m w1 = Inr w2" "sw_on_trade C p a b st w2 = Inr (sw_world s')"
      by (elim stable_sell_run) auto
    from traded_hook [OF swap_traded [OF r(4,5) assms(3,4) r(1)]] trade_hook [OF r(6)]
    have "traded (free_balance C) T a b n m (sw_world s) (sw_world s')" by blast
    then show ?thesis using r(2,3) 3 by (auto simp: stable_out_given_in_def)
  qed
qed

lemma execute_buy_quote:
  assumes run: "stable_execute_buy C (Signed T) (Pool_Stableswap p) a b m l s = Inr s'"
    and "stable_inv C s" "pool_ledger C T" "T \<noteq> pool_account C p"
  shows "\<exists>n. n \<le> l \<and> stable_in_given_out C (Pool_Stableswap p) a b m s = Inr n \<and> traded (free_balance C) T a b n m (sw_world s) (sw_world s')"
proof -
  consider "b = p" | "b \<noteq> p" "a = p" | "b \<noteq> p" "a \<noteq> p" by blast
  then show ?thesis
  proof cases
    case 1
    with run obtain n where n: "do_add_liquidity_shares C T p m a l s = Inr (n, s')"
      by (auto simp: stable_execute_buy_def add_liquidity_shares_def res_iff)
    then show ?thesis using share_bought [OF n assms(3,4,2)] quote_add_one_run [OF n] 1 by (auto simp: stable_in_given_out_def)
  next
    case 2
    with run have "withdraw_asset_amount C (Signed T) p b m l s = Inr s'" by (simp add: stable_execute_buy_def res_iff)
    from asset_bought [OF this assms(3,4,2)] show ?thesis using 2 by (auto simp: stable_in_given_out_def)
  next
    case 3
    with run have "stable_buy C (Signed T) p b a m l s = Inr s'" by (simp add: stable_execute_buy_def res_iff)
    then obtain n f w1 w2 st where r: "a \<noteq> b" "calculate_in_amount C p a b m False s = Inr ((n, f), s)" "n \<le> l"
        "transfer C a T (pool_account C p) n (sw_world s) = Inr w1" "transfer C b (pool_account C p) T m w1 = Inr w2" "sw_on_trade C p a b st w2 = Inr (sw_world s')"
      by (elim stable_buy_run) auto
    from traded_hook [OF swap_traded [OF r(4,5) assms(3,4) r(1)]] trade_hook [OF r(6)]
    have "traded (free_balance C) T a b n m (sw_world s) (sw_world s')" by blast
    then show ?thesis using r(2,3) 3 by (auto simp: stable_in_given_out_def)
  qed
qed

end

end
