(* ===== verification/Stableswap_Newton.thy ===== *)
theory Stableswap_Newton
  imports Complex_Main "HOL-Library.Multiset" Stableswap_Shares
begin

text \<open>
  Newton's method in the stable pool. The exact invariant of reserves \<open>xs\<close> with \<open>n = length xs\<close> and \<open>a = A n\<close> is
  the root of the increasing function \<open>t ^ (n + 1) / (n ^ n * prod xs) + (a - 1) * t - a * sum xs\<close>; the reserve of one
  asset is the positive root of \<open>t ^ 2 + (b - d) * t - c\<close>. Both iterations of the code stay above their
  root: they round the quotient down but add two, and rounding the product inside \<open>D\<close> down errs upwards as
  long as the reserves are at least two, as the comment in the code claims.
\<close>

section \<open>The invariant is not underestimated\<close>

lemma real_div_le_Suc: "real m / real k \<le> real (m div k) + 1"
proof -
  have "of_int \<lfloor>real m / real k\<rfloor> = real (m div k)" by (simp add: floor_divide_of_nat_eq)
  then show ?thesis using floor_correct [of "real m / real k"] by linarith
qed

text \<open>The rounded product is at most the exact one.\<close>

lemma fold_d_le: "fold_d n d xs acc = Some p \<Longrightarrow> p * (n ^ length xs * prod_list xs) \<le> acc * d ^ length xs"
proof (induction xs arbitrary: acc)
  case (Cons x xs)
  then obtain r where r: "r = acc * d div (x * n)" "x * n \<noteq> 0" "fold_d n d xs r = Some p"
    by (auto simp: ck_iff)
  have "p * (n ^ length (x # xs) * prod_list (x # xs)) = (p * (n ^ length xs * prod_list xs)) * (x * n)"
    by (simp add: ac_simps)
  also have "\<dots> \<le> (r * d ^ length xs) * (x * n)" by (intro mult_le_mono1 Cons.IH r(3))
  also have "\<dots> = (r * (x * n)) * d ^ length xs" by (simp add: ac_simps)
  also have "\<dots> \<le> (acc * d) * d ^ length xs" unfolding r(1) by (intro mult_le_mono1 div_mult_le)
  finally show ?case by (simp add: ac_simps)
qed simp

text \<open>Convexity: a Newton step from any positive point lands above the root.\<close>

lemma newton_above:
  fixes d K a S P :: real and n :: nat
  assumes "0 < d" "0 < K" "1 \<le> a" "P = d ^ Suc n / K" "N = (a * S + n * P) * d / ((a - 1) * d + (n + 1) * P)" "0 \<le> S"
  shows "a * S \<le> N ^ Suc n / K + (a - 1) * N" "0 \<le> N"
proof -
  have P: "0 < P" using assms by simp
  have den: "0 < (a - 1) * d + (n + 1) * P" using assms P by (intro add_nonneg_pos mult_nonneg_nonneg mult_pos_pos) auto
  show N: "0 \<le> N" unfolding assms(5) using assms P den by (intro divide_nonneg_pos mult_nonneg_nonneg add_nonneg_nonneg) auto
  have "1 + Suc n * (N / d - 1) \<le> (1 + (N / d - 1)) ^ Suc n"
    using N assms(1) by (intro Bernoulli_inequality) simp
  then have "P * (1 + Suc n * (N / d - 1)) \<le> P * (N / d) ^ Suc n" using P by (intro mult_left_mono) auto
  also have "P * (N / d) ^ Suc n = N ^ Suc n / K" using assms(1) by (simp add: assms(4) power_divide field_simps)
  finally have "P * (1 + Suc n * (N / d - 1)) \<le> N ^ Suc n / K" .
  moreover have "N * ((a - 1) * d + (n + 1) * P) = (a * S + n * P) * d" using den by (simp add: assms(5))
  then have "P * (1 + Suc n * (N / d - 1)) + (a - 1) * N = a * S"
    using assms(1) by (simp add: field_simps)
  ultimately show "a * S \<le> N ^ Suc n / K + (a - 1) * N" by linarith
qed

text \<open>The step of the code with its rounded product \<open>p\<close> lands above the exact step while \<open>d\<close> is not far above the sum.\<close>

lemma newton_rounded:
  fixes d a S P p :: real and n :: nat
  assumes "0 < d" "1 \<le> a" "0 < P" "0 \<le> p" "p \<le> P" "n * (a - 1) * d \<le> (n + 1) * a * S" "0 < (a - 1) * d + (n + 1) * p"
  shows "(a * S + n * P) * d / ((a - 1) * d + (n + 1) * P) \<le> (a * S + n * p) * d / ((a - 1) * d + (n + 1) * p)"
proof -
  have den: "0 < (a - 1) * d + (n + 1) * P" using assms by (intro add_nonneg_pos mult_nonneg_nonneg mult_pos_pos) auto
  have "(a * S + n * p) * d * ((a - 1) * d + (n + 1) * P) - (a * S + n * P) * d * ((a - 1) * d + (n + 1) * p) =
      d * (P - p) * ((n + 1) * a * S - n * (a - 1) * d)" by (simp add: algebra_simps)
  moreover have "0 \<le> d * (P - p) * ((n + 1) * a * S - n * (a - 1) * d)" using assms by (intro mult_nonneg_nonneg) auto
  ultimately have "(a * S + n * P) * d * ((a - 1) * d + (n + 1) * p) \<le> (a * S + n * p) * d * ((a - 1) * d + (n + 1) * P)" by linarith
  then show ?thesis using den assms(7) by (simp add: pos_divide_le_eq pos_le_divide_eq)
qed

definition d_above :: "nat \<Rightarrow> nat list \<Rightarrow> nat \<Rightarrow> bool" where
  "d_above a xs d \<longleftrightarrow> a * sum_list xs * (length xs ^ length xs * prod_list xs) \<le>
     d ^ (length xs + 1) + (a - 1) * d * (length xs ^ length xs * prod_list xs)"

lemma next_d_Some:
  assumes "next_d a n s xs d = Some d'"
  obtains p where "fold_d n d xs d = Some p" "1 \<le> a" "0 < (a - 1) * d + (n + 1) * p"
    "d' = (a * s + p * n) * d div ((a - 1) * d + (n + 1) * p) + 2"
  using assms by (auto simp: next_d_def ck_iff)

lemma next_d_above:
  assumes step: "next_d a n s xs d = Some d'" and n: "n = length xs" and s: "s = sum_list xs" and pos: "0 \<notin> set xs" "0 < d"
    and bound: "n * (a - 1) * d \<le> (n + 1) * a * s"
  shows "d_above a xs d'"
proof -
  obtain p where p: "fold_d n d xs d = Some p" "1 \<le> a" "0 < (a - 1) * d + (n + 1) * p"
      "d' = (a * s + p * n) * d div ((a - 1) * d + (n + 1) * p) + 2"
    using step by (rule next_d_Some)
  define K where "K = n ^ n * prod_list xs"
  have K: "0 < K" using pos(1) n by (cases "xs = []") (auto simp: K_def prod_list_zero_iff intro!: gr0I)
  define P where "P = real d ^ Suc n / real K"
  define N where "N = (real a * s + n * P) * d / ((real a - 1) * d + (n + 1) * P)"
  have pP: "real p \<le> P"
  proof -
    have "p * K \<le> d * d ^ n" using fold_d_le [OF p(1)] by (simp add: n K_def)
    then have "real p * real K \<le> real d ^ Suc n" by (metis of_nat_mult of_nat_le_iff of_nat_power power_Suc)
    then show ?thesis using K by (simp add: P_def pos_le_divide_eq)
  qed
  have bound': "real n * (real a - 1) * real d \<le> (1 + real n) * real a * real s"
  proof -
    have "real (n * (a - 1) * d) \<le> real ((n + 1) * a * s)" using bound by (simp only: of_nat_le_iff)
    then show ?thesis using p(2) by (simp add: of_nat_diff algebra_simps)
  qed
  have den: "0 < (real a - 1) * d + (n + 1) * real p"
  proof -
    have "0 < real ((a - 1) * d + (n + 1) * p)" using p(3) by (simp only: of_nat_0_less_iff)
    then show ?thesis using p(2) by (simp add: of_nat_diff distrib_right)
  qed
  have "N \<le> (real a * s + n * real p) * d / ((real a - 1) * d + (n + 1) * real p)"
    unfolding N_def using pos(2) p(2) K pP bound' den by (intro newton_rounded) (auto simp: P_def)
  also have "\<dots> = real ((a * s + p * n) * d) / real ((a - 1) * d + (n + 1) * p)"
    using p(2) by (simp add: of_nat_diff ac_simps) (simp add: distrib_left mult.commute)
  also have "\<dots> \<le> real d'"
    unfolding p(4) by (rule order_trans [OF real_div_le_Suc]) simp
  finally have Nd: "N \<le> real d'" .
  have above: "real a * s \<le> N ^ Suc n / K + (real a - 1) * N" and N0: "0 \<le> N"
    using newton_above [of "real d" "real K" "real a" P n N "real s"] pos(2) K p(2) by (auto simp: P_def N_def)
  have "N ^ Suc n / K \<le> real d' ^ Suc n / K" using N0 Nd by (intro divide_right_mono power_mono) auto
  moreover have "(real a - 1) * N \<le> (real a - 1) * d'" using Nd p(2) by (intro mult_left_mono) auto
  ultimately have "real a * s \<le> real d' ^ Suc n / K + (real a - 1) * d'" using above by linarith
  then have "real a * s * K \<le> real d' ^ Suc n + (real a - 1) * d' * K"
    using K by (simp add: field_simps)
  then have "real (a * s * K) \<le> real (d' ^ Suc n + (a - 1) * d' * K)" using p(2) by (simp add: of_nat_diff)
  then have "a * s * K \<le> d' ^ Suc n + (a - 1) * d' * K" by (simp only: of_nat_le_iff)
  then show ?thesis by (simp add: d_above_def K_def n s)
qed

text \<open>The bound that \<open>next_d_above\<close> needs is kept when the reserves are at least two on average.\<close>

lemma next_d_bound:
  assumes step: "next_d a n s xs d = Some d'" and bound: "n * (a - 1) * d \<le> (n + 1) * a * s" and s: "2 * n \<le> s"
  shows "n * (a - 1) * d' \<le> (n + 1) * a * s" "0 < d'"
proof -
  obtain p where p: "1 \<le> a" "0 < (a - 1) * d + (n + 1) * p"
      "d' = (a * s + p * n) * d div ((a - 1) * d + (n + 1) * p) + 2"
    using step by (rule next_d_Some)
  show "0 < d'" by (simp add: p(3))
  define den where "den = (a - 1) * d + (n + 1) * p"
  define q where "q = (a * s + p * n) * d div den"
  have "(a - 1) * (q * den) \<le> (a - 1) * ((a * s + p * n) * d)" unfolding q_def by (intro mult_le_mono2 div_mult_le)
  also have "\<dots> = a * s * ((a - 1) * d) + p * (n * (a - 1) * d)" by (simp add: algebra_simps)
  also have "\<dots> \<le> a * s * ((a - 1) * d) + p * ((n + 1) * a * s)" using bound by (intro add_left_mono mult_le_mono2)
  also have "\<dots> = (a * s) * den" by (simp add: den_def algebra_simps)
  finally have "((a - 1) * q) * den \<le> (a * s) * den" by (simp add: ac_simps)
  then have "(a - 1) * q \<le> a * s" using p(2) unfolding den_def [symmetric] by (metis mult_le_cancel2)
  then have "n * ((a - 1) * q) \<le> n * (a * s)" by (rule mult_le_mono2)
  moreover have "(a - 1) * (2 * n) \<le> a * s" using s by (intro mult_le_mono) auto
  ultimately show "n * (a - 1) * d' \<le> (n + 1) * a * s" by (simp add: p(3) q_def den_def algebra_simps)
qed

lemma iterate_d_above:
  assumes "iterate_d a n s xs k d = Some d'" "n = length xs" "s = sum_list xs" "0 \<notin> set xs" "2 * n \<le> s"
    "0 < d" "n * (a - 1) * d \<le> (n + 1) * a * s" "0 < k \<or> d_above a xs d"
  shows "d_above a xs d'"
  using assms(1,6-)
proof (induction k arbitrary: d)
  case (Suc k)
  then obtain d1 where d1: "next_d a n s xs d = Some d1"
      "(if has_converged d d1 PRECISION then Some d1 else iterate_d a n s xs k d1) = Some d'"
    by (auto elim: bind_SomeE)
  have above: "d_above a xs d1" by (rule next_d_above [OF d1(1) assms(2-4) Suc.prems(2,3)])
  note nb = next_d_bound [OF d1(1) Suc.prems(3) assms(5)]
  show ?case
  proof (cases "has_converged d d1 PRECISION")
    case True
    then show ?thesis using d1(2) above by simp
  next
    case False
    then show ?thesis using d1(2) Suc.IH [OF _ nb(2,1)] above by simp
  qed
qed simp

lemma sum_u256_Some: "sum_u256 xs s = Some t \<Longrightarrow> t = s + sum_list xs"
  by (induction xs arbitrary: s) (fastforce simp: ck_iff)+

lemma prod_list_sort: "prod_list (sort xs) = prod_list (xs :: nat list)"
  by (simp add: prod_mset_prod_list [symmetric])

lemma sum_list_sort: "sum_list (sort xs) = sum_list (xs :: nat list)"
  by (simp add: sum_mset_sum_list [symmetric])

lemma d_above_sort: "d_above a (sort xs) d = d_above a xs d"
  by (simp add: d_above_def sum_list_sort prod_list_sort)

lemma sum_list_ge: "\<forall>x\<in>set xs. k \<le> x \<Longrightarrow> k * length xs \<le> sum_list (xs :: nat list)"
  by (induction xs) auto

lemma calculate_d_internal_above:
  assumes run: "calculate_d_internal A D reserves amp pegs = Some d" and xs: "peg_reserves A reserves pegs = Some xs"
    and two: "xs \<noteq> []" "\<forall>x\<in>set xs. 2 \<le> x" and D: "0 < D"
  shows "d_above (amp * length xs) xs d"
proof -
  have nz: "filter ((<) 0) xs = xs" using two by (intro filter_True) auto
  have pos: "0 < sum_list xs" using sum_list_ge [of xs 2] two by (cases xs) auto
  have some: "\<not> (\<forall>x\<in>set xs. x = 0)" using two by (cases xs) auto
  have it: "iterate_d (amp * length xs) (length xs) (sum_list xs) (sort xs) D (sum_list xs) = Some d"
    using run pos some
    by (auto simp: calculate_d_internal_def xs nz Let_def calculate_ann_def ck_iff sum_list_sort
      dest!: sum_u256_Some split: if_splits)
  have "d_above (amp * length xs) (sort xs) d"
    by (rule iterate_d_above [OF it])
      (use two pos D sum_list_ge [of xs 2] in \<open>auto simp: sum_list_sort intro!: trans_le_add2\<close>)
  then show ?thesis by (simp add: d_above_sort)
qed

section \<open>The reserve is not underestimated\<close>

text \<open>The iteration adds two to the quotient, so one less than the result is still on the safe side.\<close>

definition y_above :: "nat \<Rightarrow> nat \<Rightarrow> nat \<Rightarrow> nat \<Rightarrow> bool" where
  "y_above b c d y \<longleftrightarrow> 2 \<le> y \<and> c + d * (y - 1) \<le> (y - 1) * (y - 1) + b * (y - 1)"

lemma newton_quadratic:
  fixes y b c d :: real
  assumes "0 < 2 * y + b - d" "0 \<le> c" "(y * y + c) / (2 * y + b - d) \<le> z"
  shows "c + d * z \<le> z * z + b * z"
proof -
  define e where "e = b - d"
  define N where "N = (y * y + c) / (2 * y + e)"
  have den: "0 < 2 * y + e" using assms(1) by (simp add: e_def)
  have N: "N * (2 * y + e) = y * y + c" using den by (simp add: N_def)
  have root: "N * N + e * N - c = (N - y) * (N - y)" using N by (simp add: algebra_simps)
  have "(2 * y + e) * (2 * N + e) = (y + e)\<^sup>2 + y\<^sup>2 + 2 * c" using N by (simp add: algebra_simps power2_eq_square)
  moreover have "0 \<le> (y + e)\<^sup>2 + y\<^sup>2 + 2 * c" using assms(2) by simp
  ultimately have "0 \<le> (2 * y + e) * (2 * N + e)" by simp
  then have slope: "0 \<le> 2 * N + e" using den by (simp add: zero_le_mult_iff)
  have z: "N \<le> z" using assms(3) by (simp add: N_def e_def add_diff_eq)
  have "0 \<le> (z - N) * (z + N + e)" using z slope by (intro mult_nonneg_nonneg) auto
  moreover have "z * z + e * z - c = (N * N + e * N - c) + (z - N) * (z + N + e)" by (simp add: algebra_simps)
  ultimately have "0 \<le> z * z + e * z - c" using root by simp
  then show ?thesis by (simp add: e_def algebra_simps)
qed

lemma next_y_above:
  assumes "next_y b c d y = Some y'"
  shows "y_above b c d y'"
proof -
  have f: "d \<le> 2 * y + b" "2 * y + b - d \<noteq> 0" "y' = (y * y + c) div (2 * y + b - d) + 2"
    using assms by (auto simp: next_y_def ck_iff)
  have den: "0 < 2 * real y + real b - real d" using f by linarith
  have "(real y * real y + real c) / (2 * real y + real b - real d) = real (y * y + c) / real (2 * y + b - d)"
    using f(1) by (simp add: of_nat_diff)
  also have "\<dots> \<le> real (y' - 1)" unfolding f(3) by (rule order_trans [OF real_div_le_Suc]) simp
  finally have "real c + real d * real (y' - 1) \<le> real (y' - 1) * real (y' - 1) + real b * real (y' - 1)"
    using den by (intro newton_quadratic) auto
  then have "real (c + d * (y' - 1)) \<le> real ((y' - 1) * (y' - 1) + b * (y' - 1))" by (simp only: of_nat_add of_nat_mult)
  then have "c + d * (y' - 1) \<le> (y' - 1) * (y' - 1) + b * (y' - 1)" by (simp only: of_nat_le_iff)
  then show ?thesis by (simp add: y_above_def f(3))
qed

lemma iterate_y_above:
  assumes "iterate_y b c d k y = Some y'" "0 < k \<or> y_above b c d y"
  shows "y_above b c d y'"
  using assms
proof (induction k arbitrary: y)
  case (Suc k)
  then obtain y1 where y1: "next_y b c d y = Some y1"
      "(if has_converged y y1 PRECISION then Some y1 else iterate_y b c d k y1) = Some y'"
    by (auto elim: bind_SomeE)
  note above = next_y_above [OF y1(1)]
  show ?case using y1(2) above Suc.IH by (auto split: if_splits)
qed simp

end
