(* ===== verification/Stableswap_Trades.thy ===== *)
theory Stableswap_Trades
  imports Stableswap_Newton
begin

text \<open>
  What the rounded iterations are worth to a pool: with two assets, a trade never lowers the exact
  invariant of the pegged reserves, whatever the pegs, the amplification and the number of iterations.
\<close>

section \<open>The exact invariant\<close>

text \<open>
  \<open>d_below a xs v\<close>: the real number \<open>v\<close> is at most the invariant of the reserves \<open>xs\<close>. The left-hand side
  grows with \<open>v\<close>, so the numbers below the invariant are an interval that starts at zero.
\<close>

definition d_below :: "nat \<Rightarrow> nat list \<Rightarrow> real \<Rightarrow> bool" where
  "d_below a xs v \<longleftrightarrow>
     (let k = real (length xs ^ length xs * prod_list xs)
      in v ^ (length xs + 1) + (real a - 1) * v * k \<le> real a * real (sum_list xs) * k)"

lemma d_below_down:
  assumes "d_below a xs d" "0 \<le> v" "v \<le> d" "1 \<le> a"
  shows "d_below a xs v"
proof -
  have "v ^ (length xs + 1) \<le> d ^ (length xs + 1)" using assms by (intro power_mono)
  moreover have "(real a - 1) * v * real (length xs ^ length xs * prod_list xs)
      \<le> (real a - 1) * d * real (length xs ^ length xs * prod_list xs)"
    using assms by (intro mult_right_mono mult_left_mono) auto
  ultimately show ?thesis using assms(1) by (simp only: d_below_def Let_def)
qed

lemma d_above_below:
  assumes "d_above a xs d" "d_below a xs v" "1 \<le> a" "0 \<le> v"
  shows "v \<le> real d"
proof (rule ccontr)
  let ?k = "real (length xs ^ length xs * prod_list xs)"
  assume "\<not> v \<le> real d"
  then have lt: "real d < v" by simp
  have "real d ^ (length xs + 1) < v ^ (length xs + 1)" using lt by (intro power_strict_mono) auto
  moreover have "(real a - 1) * real d * ?k \<le> (real a - 1) * v * ?k"
    using lt assms(3) by (intro mult_right_mono mult_left_mono) auto
  moreover have "real (a * sum_list xs * (length xs ^ length xs * prod_list xs))
      \<le> real (d ^ (length xs + 1) + (a - 1) * d * (length xs ^ length xs * prod_list xs))"
    using assms(1) unfolding d_above_def of_nat_le_iff by simp
  then have "real a * real (sum_list xs) * ?k \<le> real d ^ (length xs + 1) + (real a - 1) * real d * ?k"
    using assms(3) by (simp only: of_nat_add of_nat_mult of_nat_power of_nat_diff of_nat_1)
  ultimately show False using assms(2) by (simp only: d_below_def Let_def)
qed

lemma d_below_two: "d_below a [x, y] v \<longleftrightarrow> v ^ 3 \<le> 4 * real x * real y * (real a * (real x + real y) - (real a - 1) * v)"
  by (simp add: d_below_def Let_def algebra_simps eval_nat_numeral)

lemma d_below_two_swap: "d_below a [x, y] v \<longleftrightarrow> d_below a [y, x] v"
  by (simp add: d_below_two ac_simps)

lemma d_below_two_mono:
  assumes "d_below a [x, y] v" "x \<le> x'" "y \<le> y'" "0 < x" "0 < y" "0 \<le> v"
  shows "d_below a [x', y'] v"
proof -
  define E where "E = real a * (real x + real y) - (real a - 1) * v"
  define E' where "E' = real a * (real x' + real y') - (real a - 1) * v"
  have E: "v ^ 3 \<le> 4 * real x * real y * E" using assms(1) by (simp add: d_below_two E_def)
  have "0 \<le> v ^ 3" using assms(6) by simp
  then have "0 \<le> 4 * real x * real y * E" using E by linarith
  then have pos: "0 \<le> E" using mult_le_cancel_left_pos [of "4 * real x * real y" 0 E] assms(4,5) by simp
  have "real a * (real x + real y) \<le> real a * (real x' + real y')" using assms by (intro mult_left_mono) auto
  then have "E \<le> E'" by (simp add: E_def E'_def)
  moreover have "real x * real y \<le> real x' * real y'" using assms by (intro mult_mono) auto
  ultimately have "4 * real x * real y * E \<le> 4 * real x' * real y' * E'"
    using pos assms(2,3) by (intro mult_mono) auto
  then show ?thesis using E by (simp add: d_below_two E'_def)
qed

section \<open>The computed reserve is on the safe side\<close>

text \<open>
  The divisions lose at most \<open>d / (2 * a) + 1\<close> of the constant term. One unit on top of a solution of the rounded
  equation makes up for it, since the computed reserves add up to the invariant.
\<close>

lemma rounded_root_sum:
  fixes x y a c d b :: real
  assumes "0 < x" "1 \<le> y" "1 \<le> a" "0 < d" and c: "d ^ 3 / (4 * x * a) - d / (2 * a) - 1 < c" and b: "b \<le> x + d / a"
    and root: "c + d * y \<le> y * y + b * y" and int: "x + y \<le> d - 1 \<or> d \<le> x + y"
  shows "d \<le> x + y"
proof (rule ccontr)
  define m where "m = d - (x + y)"
  assume "\<not> d \<le> x + y"
  then have m: "1 \<le> m" using int by (simp add: m_def)
  have "m / 2 \<le> d\<^sup>2 / (4 * x) - y"
  proof -
    have "m * (2 * x) \<le> m * (d + (x + y))" using m assms by (intro mult_left_mono) (auto simp: m_def)
    also have "\<dots> = d\<^sup>2 - (x + y)\<^sup>2" by (simp add: m_def algebra_simps power2_eq_square)
    also have "\<dots> \<le> d\<^sup>2 - 4 * x * y"
      using zero_le_power2 [of "x - y"] by (simp add: algebra_simps power2_eq_square)
    finally show ?thesis using assms(1) by (simp add: field_simps)
  qed
  then have "(d / a) * (m / 2) \<le> (d / a) * (d\<^sup>2 / (4 * x) - y)" using assms by (intro mult_left_mono) auto
  also have "\<dots> = d ^ 3 / (4 * x * a) - (d / a) * y" by (simp add: algebra_simps eval_nat_numeral)
  finally have A: "(d / a) * (m / 2) + (d / a) * y \<le> d ^ 3 / (4 * x * a)" by simp
  have "b * y \<le> (x + d / a) * y" using b assms by (intro mult_right_mono) auto
  then have "c \<le> (d / a) * y - m * y" using root by (simp add: m_def algebra_simps)
  then have "(d / a) * (m / 2) - (d / a) / 2 + m * y < 1" using A c by simp
  moreover have "(d / a) / 2 \<le> (d / a) * (m / 2)" using m assms by (simp add: field_simps)
  moreover have "1 \<le> m * y" using mult_mono [of 1 m 1 y] m assms by simp
  ultimately show False by linarith
qed

lemma rounded_root_safe:
  fixes x y a c d b :: real
  assumes "0 < x" "1 \<le> y" "1 \<le> a" "0 < d" and c: "d ^ 3 / (4 * x * a) - d / (2 * a) - 1 < c" and b: "b \<le> x + d / a"
    and root: "c + d * y \<le> y * y + b * y" and int: "x + y \<le> d - 1 \<or> d \<le> x + y"
  shows "d ^ 3 \<le> 4 * x * (y + 1) * (a * (x + (y + 1)) - (a - 1) * d)"
proof -
  have sum: "d \<le> x + y" using assms by (rule rounded_root_sum)
  have "b * y \<le> (x + d / a) * y" using b assms by (intro mult_right_mono) auto
  then have "d ^ 3 / (4 * x * a) - d / (2 * a) - 1 \<le> y * y + (x + d / a - d) * y"
    using root c by (simp add: algebra_simps)
  moreover have "0 \<le> d / (2 * a)" using assms by simp
  then have "d / (2 * a) \<le> d / a" by (simp add: field_simps)
  then have "y * y + (x + d / a - d) * y + d / (2 * a) + 1 \<le> (y + 1) * (y + 1) + (x + d / a - d) * (y + 1)"
    using sum assms(2) by (simp add: algebra_simps add_divide_distrib)
  ultimately have "d ^ 3 / (4 * x * a) \<le> (y + 1) * ((y + 1) + (x + d / a - d))" by (simp add: algebra_simps)
  then have "d ^ 3 \<le> (y + 1) * ((y + 1) + (x + d / a - d)) * (4 * x * a)" using assms by (simp add: pos_divide_le_eq)
  also have "\<dots> = 4 * x * (y + 1) * (a * (x + (y + 1)) - (a - 1) * d)" using assms by (simp add: field_simps)
  finally show ?thesis .
qed

lemma real_div_gt: "0 < k \<Longrightarrow> real m / real k - 1 < real (m div k)"
  using floor_correct [of "real m / real k"] by (simp add: floor_divide_of_nat_eq)

lemma real_div_ge: "real (m div k) \<le> real m / real k"
  using of_int_floor_le [of "real m / real k"] by (simp add: floor_divide_of_nat_eq)

lemma y_above_d_below:
  assumes "y_above (x + d div a) (d * d div (x * 2) * d div (a * 2)) d y" "0 < x" "1 \<le> a"
  shows "d_below a [x, y] d"
proof (cases "d = 0")
  case True
  then show ?thesis by (simp add: d_below_two)
next
  case False
  define z where "z = y - 1"
  have y: "y = z + 1" "1 \<le> z" and root: "d * d div (x * 2) * d div (a * 2) + d * z \<le> z * z + (x + d div a) * z"
    using assms(1) by (auto simp: y_above_def z_def)
  let ?q = "d * d div (x * 2)"
  have q: "real d * real d / (2 * real x) - 1 < real ?q" using real_div_gt [of "x * 2" "d * d"] assms(2) by (simp add: ac_simps)
  have "(real d * real d / (2 * real x) - 1) * (real d / (2 * real a)) \<le> real ?q * (real d / (2 * real a))"
    using q by (intro mult_right_mono) auto
  moreover have "real (?q * d) / real (a * 2) - 1 < real (?q * d div (a * 2))" using assms(3) by (intro real_div_gt) auto
  moreover have "(real d * real d / (2 * real x) - 1) * (real d / (2 * real a)) = real d ^ 3 / (4 * real x * real a) - real d / (2 * real a)"
    by (simp add: algebra_simps eval_nat_numeral)
  ultimately have c: "real d ^ 3 / (4 * real x * real a) - real d / (2 * real a) - 1 < real (?q * d div (a * 2))"
    by (simp add: ac_simps)
  have b: "real (x + d div a) \<le> real x + real d / real a" by (simp add: real_div_ge)
  have r: "real (?q * d div (a * 2)) + real d * real z \<le> real z * real z + real (x + d div a) * real z"
    using root by (simp only: of_nat_add [symmetric] of_nat_mult [symmetric] of_nat_le_iff)
  have int: "real x + real z \<le> real d - 1 \<or> real d \<le> real x + real z"
  proof -
    have "x + z + 1 \<le> d \<or> d \<le> x + z" by linarith
    then have "real (x + z + 1) \<le> real d \<or> real d \<le> real (x + z)" by (simp only: of_nat_le_iff)
    then show ?thesis by auto
  qed
  have "real d ^ 3 \<le> 4 * real x * (real z + 1) * (real a * (real x + (real z + 1)) - (real a - 1) * real d)"
    by (rule rounded_root_safe [OF _ _ _ _ c b r int]) (use assms y False in auto)
  then show ?thesis by (simp add: d_below_two y add.commute)
qed

text \<open>\<open>d_not_lower a xs ys\<close>: the invariant of \<open>ys\<close> is at least that of \<open>xs\<close>.\<close>

definition d_not_lower :: "nat \<Rightarrow> nat list \<Rightarrow> nat list \<Rightarrow> bool" where
  "d_not_lower a xs ys \<longleftrightarrow> (\<forall>v. 0 \<le> v \<longrightarrow> d_below a xs v \<longrightarrow> d_below a ys v)"

lemma d_not_lower_mono: "x \<le> x' \<Longrightarrow> y \<le> y' \<Longrightarrow> 0 < x \<Longrightarrow> 0 < y \<Longrightarrow> d_not_lower a [x, y] [x', y']"
  by (auto simp: d_not_lower_def intro: d_below_two_mono)

lemma d_not_lowerI:
  assumes "d_above a xs d" "d_below a [x, y] d" "x \<le> x'" "y \<le> y'" "0 < x" "0 < y" "1 \<le> a"
  shows "d_not_lower a xs [x', y']"
  unfolding d_not_lower_def
proof (intro allI impI)
  fix v assume v: "0 \<le> v" "d_below a xs v"
  then have "v \<le> real d" using assms(1,7) by (intro d_above_below)
  then have "d_below a [x, y] v" by (rule d_below_down [OF assms(2) v(1) _ assms(7)])
  then show "d_below a [x', y'] v" using assms(3-6) v(1) by (rule d_below_two_mono)
qed

lemma d_not_lower_swap: "d_not_lower a [x, y] [x', y'] \<longleftrightarrow> d_not_lower a [y, x] [y', x']"
  by (simp add: d_not_lower_def d_below_two_swap [of a x y] d_below_two_swap [of a x' y'])

lemma d_above_swap: "d_above a [x, y] d \<longleftrightarrow> d_above a [y, x] d"
  by (simp add: d_above_def ac_simps)

section \<open>Two-asset pools\<close>

lemma calculate_y_internal_single:
  assumes run: "calculate_y_internal A Y [v] d amp [p] q = Some r"
    and x: "mul_rational A Round_Down v (fst p) (snd p) = Some x" "0 < x" and Y: "0 < Y"
  obtains y where "d_below (amp * 2) [x, y] d" "2 \<le> y" "y \<le> umax 128" "mul_rational A Round_Down y (snd q) (fst q) = Some r" "0 < amp"
proof -
  have xp: "peg_reserves A [v] [p] = Some [x]" using x by (simp add: peg_reserves_def case_prod_beta)
  obtain y where y: "iterate_y (x + d div (amp + amp)) (d * d div (x + x) * d div (amp + amp + (amp + amp))) d Y d = Some y"
      "y \<le> umax 128" "mul_rational A Round_Down y (snd q) (fst q) = Some r" "0 < amp"
    using run x(2) unfolding calculate_y_internal_def xp
    by (auto simp: Let_def calculate_ann_def ck_iff split: if_splits)
  have "y_above (x + d div (amp * 2)) (d * d div (x * 2) * d div (amp * 2 * 2)) d y"
    using y(1) Y by (intro iterate_y_above [where k = Y and y = d]) (simp_all add: mult_2_right)
  then have "d_below (amp * 2) [x, y] d" "2 \<le> y" using y(4) x(2) by (auto simp: y_above_def intro!: y_above_d_below)
  then show ?thesis using that y by blast
qed

text \<open>Turning a pegged reserve back rounds down; one more unit is again worth the pegged reserve.\<close>

lemma peg_back:
  assumes "sp_arith A" and r: "mul_rational A Round_Down y (snd q) (fst q) = Some r"
    and z: "mul_rational A Round_Down r' (fst q) (snd q) = Some z"
    and le: "y \<le> umax 128" "fst q \<le> umax 128" "snd q \<le> umax 128" "r' \<le> umax 128" "r < r'"
  shows "y \<le> z"
proof -
  note mr = sp_arith.mul_rational [OF assms(1)]
  have f: "fst q \<noteq> 0" "r = y * snd q div fst q" using r le by (auto simp: mr ck_iff split: if_splits)
  have g: "snd q \<noteq> 0" "z = r' * fst q div snd q" using z le by (auto simp: mr ck_iff split: if_splits)
  have "y * snd q < (r + 1) * fst q" using f less_div_Suc_mult [of "fst q" "y * snd q"] by simp
  also have "\<dots> \<le> r' * fst q" using le(5) by (intro mult_le_mono1) simp
  finally have "y * snd q \<le> r' * fst q" by simp
  then show ?thesis using g by (simp add: less_eq_div_iff_mult_less_eq)
qed

text \<open>The value of a reserve at 18 decimals, and reserves on which normalising does not saturate.\<close>

definition st_value :: "stable_reserve \<Rightarrow> nat" where
  "st_value r = ar_amount r * 10 ^ (18 - ar_decimals r)"

definition st_fits :: "stable_reserve \<Rightarrow> bool" where
  "st_fits r \<longleftrightarrow> ar_decimals r \<le> 18 \<and> st_value r \<le> umax 128"

lemma pow10_18: "pow10_u128 (18 - k) = 10 ^ (18 - k)"
proof -
  have "(10::nat) ^ (18 - k) \<le> 10 ^ 18" by (intro power_increasing) auto
  also have "\<dots> \<le> umax 128" by (simp add: umax_def)
  finally show ?thesis by (simp add: pow10_u128_def)
qed

lemma normalize_up:
  "k \<le> 18 \<Longrightarrow> n * 10 ^ (18 - k) \<le> umax 128 \<Longrightarrow> normalize_value n k TARGET_PRECISION m = n * 10 ^ (18 - k)"
  by (auto simp: normalize_value_def TARGET_PRECISION_def Let_def abs_diff_def pow10_18 saturating_mul_def)

lemma normalize_reserves_fits: "\<forall>r\<in>set rs. st_fits r \<Longrightarrow> normalize_reserves rs = map st_value rs"
  by (simp add: normalize_reserves_def st_fits_def st_value_def normalize_up)

lemma normalize_down:
  "k \<le> 18 \<Longrightarrow> normalize_value n TARGET_PRECISION k St_Down = n div 10 ^ (18 - k)"
  by (auto simp: normalize_value_def TARGET_PRECISION_def Let_def abs_diff_def pow10_18)

lemma peg_pos:
  assumes "sp_arith A" "mul_rational A Round_Down v p q = Some x" "0 < x" "p \<le> umax 128" "q \<le> umax 128"
  shows "0 < v"
  using assms sp_arith.mul_rational [OF assms(1), of 0 p q Round_Down]
  by (cases "v = 0") (auto simp: ck_iff split: if_splits)

lemma peg_mono:
  assumes "sp_arith A" "mul_rational A Round_Down v p q = Some x" "mul_rational A Round_Down v' p q = Some x'"
    "v \<le> v'" "v' \<le> umax 128" "p \<le> umax 128" "q \<le> umax 128"
  shows "x \<le> x'"
  using assms sp_arith.mul_rational [OF assms(1), of _ p q Round_Down]
  by (auto simp: ck_iff intro!: div_le_mono split: if_splits)

text \<open>
  One step of either kind: the computed reserve \<open>r\<close> of the asset whose other reserve is \<open>v\<close>; the pool
  ends with at least one unit more than \<open>r\<close>.
\<close>

lemma reserve_step:
  assumes A: "sp_arith A" and d: "d_above (amp * 2) xs d" and run: "calculate_y_internal A Y [v] d amp [p] q = Some r" "0 < Y"
    and x: "mul_rational A Round_Down v (fst p) (snd p) = Some x" "0 < x"
    and y: "mul_rational A Round_Down r' (fst q) (snd q) = Some y" "r < r'"
    and le: "fst q \<le> umax 128" "snd q \<le> umax 128" "r' \<le> umax 128"
  shows "d_not_lower (amp * 2) xs [x, y]"
proof -
  obtain z where z: "d_below (amp * 2) [x, z] d" "2 \<le> z" "z \<le> umax 128"
      "mul_rational A Round_Down z (snd q) (fst q) = Some r" "0 < amp"
    using run x by (elim calculate_y_internal_single)
  have "z \<le> y" using A z(4) y(1) z(3) le y(2) by (rule peg_back)
  then show ?thesis using d z x(2) by (intro d_not_lowerI [where x = x and y = z and d = d]) auto
qed

lemma sell_run:
  assumes run: "st_calculate_out_given_in A D Y [r0, r1] i j amount amp [p0, p1] = Some amount_out"
    and fits: "st_fits r0" "st_fits r1" "amount * 10 ^ (18 - ar_decimals ([r0, r1] ! i)) \<le> umax 128"
  obtains d r where "i = 0 \<and> j = 1 \<or> i = 1 \<and> j = 0" "calculate_d_internal A D [st_value r0, st_value r1] amp [p0, p1] = Some d"
    "calculate_y_internal A Y [st_value ([r0, r1] ! i) + amount * 10 ^ (18 - ar_decimals ([r0, r1] ! i))] d amp
       [[p0, p1] ! i] ([p0, p1] ! j) = Some r"
    "amount_out = (st_value ([r0, r1] ! j) - r) div 10 ^ (18 - ar_decimals ([r0, r1] ! j)) - 1"
    "r \<le> st_value ([r0, r1] ! j)"
proof -
  have ij: "i = 0 \<and> j = 1 \<or> i = 1 \<and> j = 0" using run by (auto simp: st_calculate_out_given_in_def Let_def split: if_splits)
  have dec: "ar_decimals r0 \<le> 18" "ar_decimals r1 \<le> 18" using fits by (auto simp: st_fits_def)
  show ?thesis
    using ij run fits dec that
    by (auto simp: st_calculate_out_given_in_def Let_def normalize_reserves_fits normalize_up normalize_down
        calculate_y_given_in_def ck_iff nth_opt_def omit_def enumerate_eq_zip saturating_sub_def upt_rec)
qed

lemma buy_run:
  assumes run: "st_calculate_in_given_out A D Y [r0, r1] i j amount amp [p0, p1] = Some amount_in"
    and fits: "st_fits r0" "st_fits r1" "amount * 10 ^ (18 - ar_decimals ([r0, r1] ! j)) \<le> umax 128"
  obtains d r where "i = 0 \<and> j = 1 \<or> i = 1 \<and> j = 0" "calculate_d_internal A D [st_value r0, st_value r1] amp [p0, p1] = Some d"
    "calculate_y_internal A Y [st_value ([r0, r1] ! j) - amount * 10 ^ (18 - ar_decimals ([r0, r1] ! j))] d amp
       [[p0, p1] ! j] ([p0, p1] ! i) = Some r"
    "amount_in = saturating_add 128 (normalize_value (r - st_value ([r0, r1] ! i)) TARGET_PRECISION (ar_decimals ([r0, r1] ! i)) St_Up) 1"
    "st_value ([r0, r1] ! i) \<le> r"
proof -
  have ij: "i = 0 \<and> j = 1 \<or> i = 1 \<and> j = 0" using run by (auto simp: st_calculate_in_given_out_def Let_def split: if_splits)
  have dec: "ar_decimals r0 \<le> 18" "ar_decimals r1 \<le> 18" using fits by (auto simp: st_fits_def)
  have out: "normalize_value amount (ar_decimals ([r0, r1] ! j)) TARGET_PRECISION St_Down = amount * 10 ^ (18 - ar_decimals ([r0, r1] ! j))"
    using ij dec fits(3) by (intro normalize_up) auto
  have "normalize_reserves [r0, r1] = [st_value r0, st_value r1]" using fits by (simp add: normalize_reserves_fits)
  then obtain r where r: "calculate_y_given_out A D Y (amount * 10 ^ (18 - ar_decimals ([r0, r1] ! j))) i j [st_value r0, st_value r1] amp [p0, p1] = Some r"
      "[st_value r0, st_value r1] ! i \<le> r"
      "amount_in = saturating_add 128 (normalize_value (r - [st_value r0, st_value r1] ! i) TARGET_PRECISION (ar_decimals ([r0, r1] ! i)) St_Up) 1"
    using run by (auto simp: st_calculate_in_given_out_def out Let_def ck_iff split: if_splits)
  have sel: "[st_value r0, st_value r1] ! i = st_value ([r0, r1] ! i)" "[st_value r0, st_value r1] ! j = st_value ([r0, r1] ! j)"
    using ij by auto
  obtain d where "calculate_d_internal A D [st_value r0, st_value r1] amp [p0, p1] = Some d"
      "calculate_y_internal A Y [st_value ([r0, r1] ! j) - amount * 10 ^ (18 - ar_decimals ([r0, r1] ! j))] d amp [[p0, p1] ! j] ([p0, p1] ! i) = Some r"
    using r(1) ij by (elim disjE conjE)
      (auto simp: calculate_y_given_out_def ck_iff nth_opt_def omit_def enumerate_eq_zip upt_rec)
  then show ?thesis using that ij r(2,3) unfolding sel by blast
qed

lemma peg_reserves_two:
  "peg_reserves A [v, w] [p, q] = Some xs \<longleftrightarrow>
     (\<exists>x y. xs = [x, y] \<and> mul_rational A Round_Down v (fst p) (snd p) = Some x \<and> mul_rational A Round_Down w (fst q) (snd q) = Some y)"
  by (auto simp: peg_reserves_def case_prod_beta split: option.splits)

text \<open>The reserves after \<open>ain\<close> of asset \<open>i\<close> came in and \<open>aout\<close> of asset \<open>j\<close> went out.\<close>

definition st_after :: "nat \<Rightarrow> nat \<Rightarrow> balance \<Rightarrow> balance \<Rightarrow> stable_reserve list \<Rightarrow> stable_reserve list" where
  "st_after i j ain aout rs =
     rs[i := (rs ! i)\<lparr>ar_amount := ar_amount (rs ! i) + ain\<rparr>, j := (rs ! j)\<lparr>ar_amount := ar_amount (rs ! j) - aout\<rparr>]"

definition pegs_u128 :: "(balance \<times> balance) list \<Rightarrow> bool" where
  "pegs_u128 ps \<longleftrightarrow> list_all (\<lambda>p. fst p \<le> umax 128 \<and> snd p \<le> umax 128) ps"

text \<open>
  The two pools of the statements below: old and new pegged reserves of a two-asset pool, in the order
  of the trade.
\<close>

lemma two_asset_pools:
  assumes ij: "i = 0 \<and> j = 1 \<or> i = 1 \<and> j = 0"
    and fits: "list_all st_fits [r0, r1]" "list_all st_fits (st_after i j ain aout [r0, r1])"
    and xs: "peg_reserves A (normalize_reserves [r0, r1]) [p0, p1] = Some xs"
    and ys: "peg_reserves A (normalize_reserves (st_after i j ain aout [r0, r1])) [p0, p1] = Some ys"
  obtains x y x' y' where
    "mul_rational A Round_Down (st_value ([r0, r1] ! i)) (fst ([p0, p1] ! i)) (snd ([p0, p1] ! i)) = Some x"
    "mul_rational A Round_Down (st_value ([r0, r1] ! j)) (fst ([p0, p1] ! j)) (snd ([p0, p1] ! j)) = Some y"
    "mul_rational A Round_Down (st_value ([r0, r1] ! i) + ain * 10 ^ (18 - ar_decimals ([r0, r1] ! i)))
       (fst ([p0, p1] ! i)) (snd ([p0, p1] ! i)) = Some x'"
    "mul_rational A Round_Down (st_value ([r0, r1] ! j) - aout * 10 ^ (18 - ar_decimals ([r0, r1] ! j)))
       (fst ([p0, p1] ! j)) (snd ([p0, p1] ! j)) = Some y'"
    "set xs = {x, y}" "set ys = {x', y'}" "\<And>a. d_not_lower a [x, y] [x', y'] = d_not_lower a xs ys"
    "\<And>a d. d_above a xs d = d_above a [x, y] d"
  using assms that unfolding st_after_def
  by (elim disjE conjE)
    (auto simp: normalize_reserves_fits list_all_def peg_reserves_two st_value_def distrib_right diff_mult_distrib
       d_not_lower_swap d_above_swap insert_commute)

lemma pegs_u128_nth: "pegs_u128 ps \<Longrightarrow> k < length ps \<Longrightarrow> fst (ps ! k) \<le> umax 128 \<and> snd (ps ! k) \<le> umax 128"
  by (simp add: pegs_u128_def list_all_length)

lemma st_after_fits:
  assumes "i = 0 \<and> j = 1 \<or> i = 1 \<and> j = 0" "list_all st_fits (st_after i j ain aout [r0, r1])"
  shows "st_value ([r0, r1] ! i) + ain * 10 ^ (18 - ar_decimals ([r0, r1] ! i)) \<le> umax 128"
    "st_value ([r0, r1] ! j) - aout * 10 ^ (18 - ar_decimals ([r0, r1] ! j)) \<le> umax 128"
  using assms by (auto simp: st_after_def st_fits_def st_value_def distrib_right diff_mult_distrib)

lemma sell_leaves_more:
  fixes V r p a b :: nat
  assumes "b \<le> a" "0 < b" "a = (V - r) div p - 1" "0 < p"
  shows "r < V - b * p"
proof -
  have "a + 1 = (V - r) div p" using assms(1,2,3) by linarith
  then have "(a + 1) * p \<le> V - r" by (metis div_times_less_eq_dividend)
  then have "a * p + p \<le> V - r" by simp
  moreover have "b * p \<le> a * p" using assms(1) by simp
  ultimately show ?thesis using assms(4) by linarith
qed

lemma two_asset_above:
  assumes d: "calculate_d_internal A D [st_value r0, st_value r1] amp [p0, p1] = Some d" "0 < D"
    and fits: "list_all st_fits [r0, r1]" and xs: "peg_reserves A (normalize_reserves [r0, r1]) [p0, p1] = Some xs" "list_all ((\<le>) 2) xs"
  shows "d_above (amp * 2) xs d"
proof -
  have pr: "peg_reserves A [st_value r0, st_value r1] [p0, p1] = Some xs" using xs(1) fits by (simp add: normalize_reserves_fits list_all_def)
  then have len: "length xs = 2" by (auto simp: peg_reserves_two)
  have "d_above (amp * length xs) xs d"
    using d(1) pr _ _ d(2) by (rule calculate_d_internal_above) (use xs(2) len in \<open>auto simp: list_all_def\<close>)
  then show ?thesis by (simp add: len)
qed

text \<open>
  A sale in a two-asset pool never lowers the pool's exact invariant: for any pegs, amplification, trade fee and
  numbers of iterations, whatever amount the formula lets the pool pay out, the invariant of the pegged reserves
  after the trade is at least the invariant before. The integer iterations, the divisions and the
  conversions of decimals only ever favour the pool.
\<close>

theorem stable_sell_keeps_invariant:
  assumes A: "sp_arith A"
    and run: "calculate_out_given_in_with_fee A D Y [r0, r1] i j amount amp fee [p0, p1] = Some (out, fee_amount)"
    and fits: "list_all st_fits [r0, r1]" "list_all st_fits (st_after i j amount out [r0, r1])"
    and pegs: "pegs_u128 [p0, p1]" and iters: "0 < D" "0 < Y"
    and xs: "peg_reserves A (normalize_reserves [r0, r1]) [p0, p1] = Some xs" "list_all ((\<le>) 2) xs"
    and ys: "peg_reserves A (normalize_reserves (st_after i j amount out [r0, r1])) [p0, p1] = Some ys"
  shows "d_not_lower (amp * 2) xs ys"
proof -
  let ?in = "[r0, r1] ! i" and ?out = "[r0, r1] ! j"
  obtain out0 where out0: "st_calculate_out_given_in A D Y [r0, r1] i j amount amp [p0, p1] = Some out0" "out \<le> out0"
    using run by (auto simp: calculate_out_given_in_with_fee_def ck_iff Let_def)
  have ij: "i = 0 \<and> j = 1 \<or> i = 1 \<and> j = 0"
    using out0(1) by (auto simp: st_calculate_out_given_in_def Let_def split: if_splits)
  note after = st_after_fits [OF ij fits(2)]
  obtain d r where d: "calculate_d_internal A D [st_value r0, st_value r1] amp [p0, p1] = Some d"
      and r: "calculate_y_internal A Y [st_value ?in + amount * 10 ^ (18 - ar_decimals ?in)] d amp [[p0, p1] ! i] ([p0, p1] ! j) = Some r"
        "out0 = (st_value ?out - r) div 10 ^ (18 - ar_decimals ?out) - 1" "r \<le> st_value ?out"
    using out0(1) fits(1) after(1) by (elim sell_run) auto
  obtain x y x' y' where v: "mul_rational A Round_Down (st_value ?in) (fst ([p0, p1] ! i)) (snd ([p0, p1] ! i)) = Some x"
      "mul_rational A Round_Down (st_value ?out) (fst ([p0, p1] ! j)) (snd ([p0, p1] ! j)) = Some y"
      "mul_rational A Round_Down (st_value ?in + amount * 10 ^ (18 - ar_decimals ?in)) (fst ([p0, p1] ! i)) (snd ([p0, p1] ! i)) = Some x'"
      "mul_rational A Round_Down (st_value ?out - out * 10 ^ (18 - ar_decimals ?out)) (fst ([p0, p1] ! j)) (snd ([p0, p1] ! j)) = Some y'"
      and pools: "set xs = {x, y}" "\<And>a. d_not_lower a [x, y] [x', y'] = d_not_lower a xs ys" "\<And>a d. d_above a xs d = d_above a [x, y] d"
    using two_asset_pools [OF ij fits xs(1) ys] by metis
  have two: "2 \<le> x" "2 \<le> y" using xs(2) pools(1) by (auto simp: list_all_iff)
  have peg: "fst ([p0, p1] ! i) \<le> umax 128" "snd ([p0, p1] ! i) \<le> umax 128" "fst ([p0, p1] ! j) \<le> umax 128" "snd ([p0, p1] ! j) \<le> umax 128"
    using pegs pegs_u128_nth [of "[p0, p1]"] ij by auto
  have xx: "x \<le> x'" using peg_mono [OF A v(1) v(3) _ after(1)] peg by simp
  have above: "d_above (amp * 2) [x, y] d" using two_asset_above [OF d iters(1) fits(1) xs] by (simp add: pools(3))
  have "d_not_lower (amp * 2) [x, y] [x', y']"
  proof (cases "out = 0")
    case True
    then have "y' = y" using v(2,4) by simp
    then show ?thesis using xx two by (intro d_not_lower_mono) auto
  next
    case False
    have "r < st_value ?out - out * 10 ^ (18 - ar_decimals ?out)" using out0(2) False r(2) by (intro sell_leaves_more) auto
    then show ?thesis using reserve_step [OF A above r(1) iters(2) v(3) _ v(4) _ peg(3,4) after(2)] xx two by simp
  qed
  then show ?thesis by (simp add: pools(2))
qed

lemma buy_pays_enough:
  assumes "paid * 10 ^ (18 - k) + v \<le> umax 128" "0 < v" "k \<le> 18" "v \<le> r"
    "saturating_add 128 (normalize_value (r - v) TARGET_PRECISION k St_Up) 1 \<le> paid"
  shows "r < v + paid * 10 ^ (18 - k)"
proof -
  have "paid \<le> paid * 10 ^ (18 - k)" by simp
  then have "paid < umax 128" using assms(1,2) by linarith
  then have t: "normalize_value (r - v) TARGET_PRECISION k St_Up < paid" and n: "normalize_value (r - v) TARGET_PRECISION k St_Up < umax 128"
    using assms(5) by (auto simp: saturating_add_def)
  show ?thesis
  proof (cases "k = 18")
    case True
    then show ?thesis using t assms(4) by (simp add: normalize_value_def TARGET_PRECISION_def)
  next
    case False
    then have eq: "normalize_value (r - v) TARGET_PRECISION k St_Up = saturating_add 128 ((r - v) div 10 ^ (18 - k)) 1"
      using assms(3) by (simp add: normalize_value_def TARGET_PRECISION_def Let_def abs_diff_def pow10_18)
    then have "(r - v) div 10 ^ (18 - k) + 1 \<le> paid" using t n by (auto simp: saturating_add_def)
    then have "((r - v) div 10 ^ (18 - k) + 1) * 10 ^ (18 - k) \<le> paid * 10 ^ (18 - k)" by (rule mult_le_mono1)
    moreover have "r - v < ((r - v) div 10 ^ (18 - k) + 1) * 10 ^ (18 - k)" using less_div_Suc_mult [of "10 ^ (18 - k)" "r - v"] by simp
    ultimately show ?thesis by linarith
  qed
qed

text \<open>
  The same for a purchase, as long as it leaves something of the bought asset: the amount the buyer is
  asked for keeps the pool's exact invariant, whatever the pegs, the amplification, the fee and the number of iterations.
\<close>

theorem stable_buy_keeps_invariant:
  assumes A: "sp_arith A"
    and run: "calculate_in_given_out_with_fee A D Y [r0, r1] i j amount amp fee [p0, p1] = Some (paid, fee_amount)"
    and fits: "list_all st_fits [r0, r1]" "list_all st_fits (st_after i j paid amount [r0, r1])"
      "amount * 10 ^ (18 - ar_decimals ([r0, r1] ! j)) \<le> umax 128"
    and pegs: "pegs_u128 [p0, p1]" and iters: "0 < D" "0 < Y"
    and xs: "peg_reserves A (normalize_reserves [r0, r1]) [p0, p1] = Some xs" "list_all ((\<le>) 2) xs"
    and ys: "peg_reserves A (normalize_reserves (st_after i j paid amount [r0, r1])) [p0, p1] = Some ys" "list_all ((<) 0) ys"
  shows "d_not_lower (amp * 2) xs ys"
proof -
  let ?in = "[r0, r1] ! i" and ?out = "[r0, r1] ! j"
  obtain in0 where in0: "st_calculate_in_given_out A D Y [r0, r1] i j amount amp [p0, p1] = Some in0" "in0 \<le> paid"
    using run by (auto simp: calculate_in_given_out_with_fee_def ck_iff Let_def)
  obtain d r where ij: "i = 0 \<and> j = 1 \<or> i = 1 \<and> j = 0"
      and d: "calculate_d_internal A D [st_value r0, st_value r1] amp [p0, p1] = Some d"
      and r: "calculate_y_internal A Y [st_value ?out - amount * 10 ^ (18 - ar_decimals ?out)] d amp [[p0, p1] ! j] ([p0, p1] ! i) = Some r"
        "in0 = saturating_add 128 (normalize_value (r - st_value ?in) TARGET_PRECISION (ar_decimals ?in) St_Up) 1" "st_value ?in \<le> r"
    using in0(1) fits(1,3) by (elim buy_run) auto
  note after = st_after_fits [OF ij fits(2)]
  obtain x y x' y' where v: "mul_rational A Round_Down (st_value ?in) (fst ([p0, p1] ! i)) (snd ([p0, p1] ! i)) = Some x"
      "mul_rational A Round_Down (st_value ?in + paid * 10 ^ (18 - ar_decimals ?in)) (fst ([p0, p1] ! i)) (snd ([p0, p1] ! i)) = Some x'"
      "mul_rational A Round_Down (st_value ?out - amount * 10 ^ (18 - ar_decimals ?out)) (fst ([p0, p1] ! j)) (snd ([p0, p1] ! j)) = Some y'"
      and pools: "set xs = {x, y}" "set ys = {x', y'}" "\<And>a. d_not_lower a [x, y] [x', y'] = d_not_lower a xs ys" "\<And>a d. d_above a xs d = d_above a [x, y] d"
    using two_asset_pools [OF ij fits(1,2) xs(1) ys(1)] by metis
  have pos: "2 \<le> x" "0 < y'" using xs(2) ys(2) pools by (auto simp: list_all_iff)
  have peg: "fst ([p0, p1] ! i) \<le> umax 128" "snd ([p0, p1] ! i) \<le> umax 128"
    using pegs pegs_u128_nth [of "[p0, p1]"] ij by auto
  have dec: "ar_decimals ?in \<le> 18" using fits(1) ij by (auto simp: st_fits_def)
  have "0 < st_value ?in" using peg_pos [OF A v(1) _ peg] pos(1) by simp
  then have "r < st_value ?in + paid * 10 ^ (18 - ar_decimals ?in)"
    using after(1) dec r(2,3) in0(2) by (intro buy_pays_enough) auto
  moreover have "d_above (amp * 2) [x, y] d" using two_asset_above [OF d iters(1) fits(1) xs] by (simp add: pools(4))
  ultimately have "d_not_lower (amp * 2) [x, y] [y', x']"
    using reserve_step [OF A _ r(1) iters(2) v(3) pos(2) v(2) _ peg after(1)] by simp
  then have "d_not_lower (amp * 2) [x, y] [x', y']" by (simp add: d_not_lower_def d_below_two_swap [of _ y'])
  then show ?thesis by (simp add: pools(3))
qed

section \<open>A pool\<close>

lemma iterate_numeral:
  "iterate_d a n s xs (numeral k) d =
     Option.bind (next_d a n s xs d) (\<lambda>d'. if has_converged d d' PRECISION then Some d' else iterate_d a n s xs (pred_numeral k) d')"
  "iterate_y b c d (numeral k) y =
     Option.bind (next_y b c d y) (\<lambda>y'. if has_converged y y' PRECISION then Some y' else iterate_y b c d (pred_numeral k) y')"
  by (simp_all add: numeral_eq_Suc)

lemma omit_two: "omit 0 [x, y] = [y]" "omit 1 [x, y] = [x]" "omit (Suc 0) [x, y] = [x]"
  by (simp_all add: omit_def)

lemmas stable_eval = st_calculate_out_given_in_def st_calculate_in_given_out_def calculate_y_given_in_def calculate_y_given_out_def
  calculate_out_given_in_with_fee_def calculate_in_given_out_with_fee_def st_calculate_fee_amount_def
  calculate_d_internal_def calculate_y_internal_def calculate_ann_def next_d_def next_y_def iterate_numeral has_converged_def
  normalize_reserves_def normalize_value_def peg_reserves_def nth_opt_def omit_two
  TARGET_PRECISION_def PRECISION_def abs_diff_def

lemma stable_sample_sell:
  "calculate_out_given_in_with_fee std_arith 64 128 [\<lparr>ar_amount = 1000, ar_decimals = 18\<rparr>, \<lparr>ar_amount = 1000, ar_decimals = 18\<rparr>] 0 1 100 100 50000
     [(1, 1), (1, 1)] = Some (91, 4)"
  by (simp add: stable_eval ck_eval std_arith_eval)

lemma stable_sample_buy:
  "calculate_in_given_out_with_fee std_arith 64 128 [\<lparr>ar_amount = 1000, ar_decimals = 18\<rparr>, \<lparr>ar_amount = 1000, ar_decimals = 18\<rparr>] 1 0 100 100 50000
     [(1, 1), (1, 1)] = Some (111, 6)"
  by (simp add: stable_eval ck_eval std_arith_eval)

theorem stable_sell_keeps_invariant_witness:
  "calculate_out_given_in_with_fee std_arith 64 128 [\<lparr>ar_amount = 1000, ar_decimals = 18\<rparr>, \<lparr>ar_amount = 1000, ar_decimals = 18\<rparr>] 0 1 100 100 50000
     [(1, 1), (1, 1)] = Some (91, 4) \<and> d_not_lower (100 * 2) [1000, 1000] [1100, 909]"
  by (rule conjI [OF stable_sample_sell], rule stable_sell_keeps_invariant [OF std.sp_arith_axioms stable_sample_sell])
    (simp_all add: st_after_def st_fits_def st_value_def pegs_u128_def normalize_reserves_def normalize_value_def
       TARGET_PRECISION_def peg_reserves_def ck_eval std_arith_eval)

theorem stable_buy_keeps_invariant_witness:
  "calculate_in_given_out_with_fee std_arith 64 128 [\<lparr>ar_amount = 1000, ar_decimals = 18\<rparr>, \<lparr>ar_amount = 1000, ar_decimals = 18\<rparr>] 1 0 100 100 50000
     [(1, 1), (1, 1)] = Some (111, 6) \<and> d_not_lower (100 * 2) [1000, 1000] [900, 1111]"
  by (rule conjI [OF stable_sample_buy], rule stable_buy_keeps_invariant [OF std.sp_arith_axioms stable_sample_buy])
    (simp_all add: st_after_def st_fits_def st_value_def pegs_u128_def normalize_reserves_def normalize_value_def
       TARGET_PRECISION_def peg_reserves_def ck_eval std_arith_eval)

text \<open>
  (C24) The computed invariant is never below the exact one, for any number of assets whose pegged reserves are at least
  two units each: every real number below the exact invariant is at most what \<open>calculate_d\<close> returns. This is what the
  comment in the code claims of adding two in every iteration.
\<close>

theorem stable_d_not_underestimated:
  assumes "calculate_d A D reserves amp pegs = Some d" "peg_reserves A (normalize_reserves reserves) pegs = Some xs"
    and "xs \<noteq> []" "\<forall>x\<in>set xs. 2 \<le> x" "0 < D" "0 < amp" "0 \<le> v" "d_below (amp * length xs) xs v"
  shows "v \<le> real d"
proof -
  have "calculate_d_internal A D (normalize_reserves reserves) amp pegs = Some d"
    using assms(1) by (auto simp: calculate_d_def Let_def split: if_splits)
  then have "d_above (amp * length xs) xs d" using assms(2-5) by (rule calculate_d_internal_above)
  then show ?thesis using assms(3,6-8) by (intro d_above_below [where xs = xs and a = "amp * length xs"]) (auto simp: Suc_le_eq)
qed

theorem stable_d_not_underestimated_witness:
  "calculate_d std_arith 64 [\<lparr>ar_amount = 1000, ar_decimals = 18\<rparr>, \<lparr>ar_amount = 1000, ar_decimals = 18\<rparr>] 100 [(1, 1), (1, 1)] = Some 2002 \<and>
     (2000 :: real) \<le> real 2002"
proof (intro conjI)
  show run: "calculate_d std_arith 64 [\<lparr>ar_amount = 1000, ar_decimals = 18\<rparr>, \<lparr>ar_amount = 1000, ar_decimals = 18\<rparr>] 100 [(1, 1), (1, 1)] = Some 2002"
    by (simp add: calculate_d_def stable_eval ck_eval std_arith_eval)
  show "(2000 :: real) \<le> real 2002"
    by (rule stable_d_not_underestimated [OF run, where xs = "[1000, 1000]"])
      (simp_all add: d_below_two stable_eval ck_eval std_arith_eval)
qed

end
