(* ===== verification/Stableswap_Safety.thy ===== *)
theory Stableswap_Safety
  imports Stableswap_Router Stableswap_Trades
begin

text \<open>
  The properties of the stableswap pallet: the shape of its storage, what trades and withdrawals move, and the order of the pegs. A
  concrete configuration on a counting ledger, and a run of it from the genesis that creates a pool and provides its first liquidity.
\<close>

section \<open>A configuration\<close>

definition std_stable :: "issue_world stable_config" where
  "std_stable = \<lparr>free_balance = (\<lambda>w. ledger_free (iw_ledger w)), total_balance = (\<lambda>w. ledger_free (iw_ledger w)),
     can_withdraw = (\<lambda>w a x n. n \<le> ledger_free (iw_ledger w) a x), transfer = iw_transfer, deposit = iw_deposit, withdraw = iw_withdraw,
     total_issuance = iw_issued, sw_arith = std_arith, sw_now = (\<lambda>_. 5), pool_account = (\<lambda>p. 1000 + p), sw_exists = (\<lambda>_ _. True),
     sw_decimals = (\<lambda>_ _. Some 18), sw_authority = (\<lambda>orig. orig = Root), sw_tradability_origin = (\<lambda>orig. orig = Root),
     sw_dust_add = (\<lambda>_. Inr), sw_dust_remove = (\<lambda>_. Inr), sw_on_liquidity_changed = (\<lambda>_ _. Inr), sw_on_trade = (\<lambda>_ _ _ _. Inr),
     sw_min_pool_liquidity = 10, sw_min_trading_limit = 10, amplification_range = (2, 10000),
     target_peg_oracle = (\<lambda>_ _ source. case source of Peg_Value v \<Rightarrow> Inr (v, 0) | _ \<Rightarrow> Inl 0)\<rparr>"

lemma std_stable_sel [simp]:
  "free_balance std_stable w = ledger_free (iw_ledger w)" "transfer std_stable = iw_transfer" "deposit std_stable = iw_deposit"
  "withdraw std_stable = iw_withdraw" "total_issuance std_stable = iw_issued" "sw_arith std_stable = std_arith" "sw_now std_stable w = 5"
  "pool_account std_stable p = 1000 + p" "sw_exists std_stable w a" "sw_decimals std_stable w a = Some 18" "sw_authority std_stable orig = (orig = Root)"
  "sw_dust_add std_stable x = Inr" "sw_dust_remove std_stable x = Inr" "sw_on_liquidity_changed std_stable p st = Inr"
  "sw_on_trade std_stable p a b st = Inr" "sw_min_pool_liquidity std_stable = 10" "sw_min_trading_limit std_stable = 10"
  "amplification_range std_stable = (2, 10000)"
  "target_peg_oracle std_stable w a source = (case source of Peg_Value v \<Rightarrow> Inr (v, 0) | _ \<Rightarrow> Inl 0)"
  by (simp_all add: std_stable_def)

lemma std_stable_ledger: "pool_ledger std_stable x"
  using std_issue_pool.pool_ledger_axioms [of x] by (simp add: pool_ledger_def)

interpretation std_stable_params: stable_params std_stable
  by unfold_locales (simp add: umax_def)

interpretation std_stable_env: stable_env std_stable
proof -
  have "issuing_ledger std_stable" using std_issue.issuing_ledger_axioms by (simp add: issuing_ledger_def)
  then show "stable_env std_stable"
    using std_stable_params.stable_params_axioms std_stable_ledger
    by (auto simp: stable_env_def stable_env_axioms_def std_issuing_others)
qed

section \<open>Two-asset pools\<close>

lemma reserves_two:
  "pi_assets pool = [x, y] \<Longrightarrow> reserves_with_decimals C pool acc w = Some rs \<longleftrightarrow>
     (\<exists>d e. sw_decimals C w x = Some d \<and> sw_decimals C w y = Some e \<and>
        rs = [\<lparr>ar_amount = free_balance C w x acc, ar_decimals = d\<rparr>, \<lparr>ar_amount = free_balance C w y acc, ar_decimals = e\<rparr>])"
  by (cases "sw_decimals C w x"; cases "sw_decimals C w y") (auto simp: reserves_with_decimals_def)

context stable_env
begin

lemma swap_reserves:
  assumes "transfer C a T (pool_account C p) n w = Inr w1" "transfer C b (pool_account C p) T m w1 = Inr w2" "T \<noteq> pool_account C p" "a \<noteq> b"
  shows "free_balance C w2 c (pool_account C p) =
    (if c = a then free_balance C w c (pool_account C p) + n else if c = b then free_balance C w c (pool_account C p) - m
     else free_balance C w c (pool_account C p))"
  using pool_ledger.transfer_pool [OF pool_accounts assms(1), of c] pool_ledger.transfer_pool [OF pool_accounts assms(2), of c] assms(3,4) by auto

text \<open>The reserves after a swap, as the mathematics of the trade describes them.\<close>

lemma swap_st_after:
  assumes "transfer C a T (pool_account C p) n w = Inr w1" "transfer C b (pool_account C p) T m w1 = Inr w2" "T \<noteq> pool_account C p"
    and "free_balance C w3 = free_balance C w2" "sw_decimals C w3 = sw_decimals C w" "pi_assets pool = [x, y]" "x \<noteq> y" "a \<noteq> b"
    and "find_asset a [x, y] = Some i" "find_asset b [x, y] = Some j"
    and "reserves_with_decimals C pool (pool_account C p) w = Some rs" "reserves_with_decimals C pool (pool_account C p) w3 = Some rs'"
  shows "rs' = st_after i j n m rs"
  using assms swap_reserves [OF assms(1-3,8)] by (auto simp: reserves_two st_after_def split: if_splits)

end

section \<open>A run\<close>

text \<open>Root creates the pool 9 of the assets 3 and 4; account 7 provides 1000 of each and holds the first 2000 shares.\<close>

definition stable_start :: "issue_world stableswap" where
  "stable_start = \<lparr>sw_pools = Map.empty, sw_pegs = Map.empty, sw_tradability = (\<lambda>_. stable_flags_default), sw_snapshots = Map.empty,
     sw_block_fee = Map.empty, share_issuance = (\<lambda>_. 0), sw_broadcast = \<lparr>incremental_id = 0, execution_context = [], swapper = None, swapped_events = []\<rparr>,
     sw_world = \<lparr>iw_ledger = (\<lambda>_. 0)((3, 7) := 5000, (4, 7) := 5000), iw_issued = (\<lambda>_. 0)(3 := 5000, 4 := 5000)\<rparr>\<rparr>"

definition sample_stable_pool :: pool_info where
  "sample_stable_pool = \<lparr>pi_assets = [3, 4], initial_amplification = 100, final_amplification = 100, initial_block = 5, final_block = 5, pi_fee = 50000\<rparr>"

definition stable_created :: "issue_world stableswap" where
  "stable_created = stable_start\<lparr>sw_pools := [9 \<mapsto> sample_stable_pool]\<rparr>"

lemma stable_created_run: "stable_create_pool std_stable Root 9 [4, 3] 100 50000 stable_start = Inr stable_created"
  by (simp add: stable_create_pool_def do_create_pool_def stable_start_def stable_created_def sample_stable_pool_def ensure_def tryR_def foreign_def
      pool_is_valid_def MAX_ASSETS_IN_POOL_def Let_def)

lemma stable_created_reachable: "stable_reachable std_stable stable_created"
  by (rule stable_reachable.create [OF _ stable_created_run]) (unfold stable_start_def, rule stable_reachable.genesis)

lemma std_arith_fields:
  "mul_rational std_arith r a b c = (if c = 0 then None else narrow 128 (round_quot r (a * b) c))"
  "fx_of_permill std_arith p = p * 10 ^ 12" "fx_of_int std_arith n = min (umax 128) (n * 10 ^ 18)"
  "fx_checked_mul std_arith f g = narrow 128 (f * g div fx_one)" "fx_checked_mul_int std_arith f n = narrow 128 (f * n div fx_one)"
  "fx_checked_div std_arith f g = (if g = 0 then None else narrow 128 (f * fx_one div g))"
  "fx_checked_from_rational std_arith n d = (if d = 0 then None else narrow 128 (n * fx_one div d))"
  "fx_from_rational std_arith n d = (if d = 0 then None else narrow 128 (round_quot Round_NearestPrefDown (n * fx_one) d))"
  by (simp_all add: std_arith_def narrow_def fx_one_def)

lemmas stable_math = calculate_d_def stable_eval ck_eval std_arith_fields fx_one_def umax_def

abbreviation reserve18 :: "balance \<Rightarrow> stable_reserve" where
  "reserve18 n \<equiv> \<lparr>ar_amount = n, ar_decimals = 18\<rparr>"

lemma sample_d:
  "calculate_d std_arith 64 [reserve18 0, reserve18 0] 100 [(1, 1), (1, 1)] = Some 0"
  "calculate_d std_arith 64 [reserve18 1000, reserve18 1000] 100 [(1, 1), (1, 1)] = Some 2002"
  "calculate_d std_arith 64 [reserve18 750, reserve18 750] 100 [(1, 1), (1, 1)] = Some 1502"
  "calculate_d std_arith 64 [reserve18 1100, reserve18 909] 100 [(1, 1), (1, 1)] = Some 2010"
  by (simp_all add: stable_math)

lemma sample_price:
  "i < 2 \<Longrightarrow> \<exists>x. calculate_share_price std_arith 64 [reserve18 1000, reserve18 1000] 100 2000 i (Some 2002) [(1, 1), (1, 1)] = Some x"
  "i < 2 \<Longrightarrow> \<exists>x. calculate_share_price std_arith 64 [reserve18 750, reserve18 750] 100 1500 i (Some 1502) [(1, 1), (1, 1)] = Some x"
  "i < 2 \<Longrightarrow> \<exists>x. calculate_share_price std_arith 64 [reserve18 1100, reserve18 909] 100 2000 i (Some 2010) [(1, 1), (1, 1)] = Some x"
  by (auto simp: less_2_cases_iff calculate_share_price_def pegged_reserves_def stable_math pow10_u128_def)

lemma share_prices_two:
  assumes "calculate_d A D [r0, r1] amp [p0, p1] = Some d"
    "\<And>i. i < 2 \<Longrightarrow> \<exists>x. calculate_share_price A D [r0, r1] amp issuance i (Some d) [p0, p1] = Some x"
  shows "\<exists>ps. calculate_share_prices A D [r0, r1] amp issuance [p0, p1] = Some ps"
  using assms(1) assms(2) [of 0] assms(2) [of 1] by (auto simp: calculate_share_prices_def upt_rec)

lemmas sample_prices = share_prices_two [OF sample_d(2) sample_price(1)] share_prices_two [OF sample_d(3) sample_price(2)]
  share_prices_two [OF sample_d(4) sample_price(3)]

lemma sample_shares:
  "calculate_stable_shares std_arith 64 [reserve18 0, reserve18 0] [reserve18 1000, reserve18 1000] 100 0 50000 [(1, 1), (1, 1)] = Some (2000, [])"
  by (simp add: calculate_stable_shares_def imbalance_fee_def stable_math)

lemmas stable_run_defs = ensure_def tryR_def ok_or_def foreign_def ensure_signed_def Let_def is_asset_allowed_def flags_contain_def
  stable_flags_default_def STABLE_SELL_def STABLE_BUY_def STABLE_ADD_LIQUIDITY_def STABLE_REMOVE_LIQUIDITY_def
  find_asset_def reserves_with_decimals_def get_amplification_def calculate_amplification_def sample_stable_pool_def
  iw_transfer_def iw_deposit_def iw_withdraw_def ledger_transfer_def ledger_withdraw_def ledger_deposit_def ledger_free_def umax_def
  checked_add_def checked_sub_def saturating_add_def saturating_sub_def

definition provided_world :: issue_world where
  "provided_world = \<lparr>iw_ledger = (\<lambda>_. 0)((9, 7) := 2000, (3, 7) := 4000, (3, 1009) := 1000, (4, 7) := 4000, (4, 1009) := 1000),
     iw_issued = (\<lambda>_. 0)(3 := 5000, 4 := 5000, 9 := 2000)\<rparr>"

definition stable_provided :: "issue_world stableswap" where
  "stable_provided = (case stable_do_add_liquidity std_stable 7 9 [(3, 1000), (4, 1000)] 0 stable_created of Inr (_, s) \<Rightarrow> s | _ \<Rightarrow> stable_created)"

lemmas stable_call_defs = update_and_return_pegs_and_trade_fee_def get_updated_pegs_def stable_mint_shares_def stable_burn_shares_def stable_transfer_def
  call_on_liquidity_change_hook_def call_on_trade_hook_def get_pool_state_def ensure_add_liquidity_invariant_def
  ensure_remove_liquidity_invariant_def stable_ensure_trade_invariant_def ensure_issuance_in_sync_def invariants_around_def ensure_share_ratio_def
  MAX_D_ITERATIONS_def MAX_Y_ITERATIONS_def bt_insert_def bt_retain_def bt_remove_def

lemma stable_provided_exists:
  "\<exists>s. stable_do_add_liquidity std_stable 7 9 [(3, 1000), (4, 1000)] 0 stable_created = Inr (2000, s) \<and> sw_world s = provided_world \<and>
     sw_pools s = [9 \<mapsto> sample_stable_pool] \<and> sw_pegs s = Map.empty \<and> sw_tradability s = (\<lambda>_. stable_flags_default) \<and> share_issuance s = (\<lambda>_. 0)(9 := 2000)"
  using sample_prices(1)
  by (auto simp: stable_do_add_liquidity_def stable_created_def stable_start_def provided_world_def stable_run_defs stable_call_defs sample_shares sample_d
      simp del: One_nat_def)

lemma stable_provided_run: "stable_do_add_liquidity std_stable 7 9 [(3, 1000), (4, 1000)] 0 stable_created = Inr (2000, stable_provided)"
  and stable_provided_sel: "sw_world stable_provided = provided_world" "sw_pools stable_provided = [9 \<mapsto> sample_stable_pool]" "sw_pegs stable_provided = Map.empty"
    "sw_tradability stable_provided = (\<lambda>_. stable_flags_default)" "share_issuance stable_provided = (\<lambda>_. 0)(9 := 2000)"
  using stable_provided_exists by (auto simp: stable_provided_def)

lemma stable_provided_reachable: "stable_reachable std_stable stable_provided"
  by (rule stable_reachable.add [OF stable_created_reachable stable_provided_run])

text \<open>What account 7 may do next: take a quarter of its shares out, or sell 100 of the asset 3.\<close>

lemma stable_withdrawn_run:
  "\<exists>s. stable_remove_liquidity std_stable (Signed 7) 9 500 [(3, 0), (4, 0)] stable_provided = Inr s"
  using sample_prices(2)
  by (auto simp: stable_remove_liquidity_def stable_remove_all_def stable_provided_sel provided_world_def stable_run_defs stable_call_defs sample_d
      stable_liquidity_out_def checked_mul_def checked_div_def narrow_def std_arith_fields fx_one_def simp del: One_nat_def)

lemma stable_sample_sell_Suc:
  "calculate_out_given_in_with_fee std_arith 64 128 [reserve18 1000, reserve18 1000] 0 (Suc 0) 100 100 50000 [(1, 1), (1, 1)] = Some (91, 4)"
  using stable_sample_sell by simp

lemma stable_sold_run: "\<exists>s. stable_sell std_stable (Signed 7) 9 3 4 100 90 stable_provided = Inr s \<and>
     reserves_with_decimals std_stable sample_stable_pool 1009 (sw_world s) = Some [reserve18 1100, reserve18 909]"
  using sample_prices(3)
  by (auto simp: stable_sell_def calculate_out_amount_def pegs_and_fee_def stable_provided_sel provided_world_def stable_run_defs stable_call_defs sample_d
      stable_sample_sell_Suc ar_is_zero_def simp del: One_nat_def)

section \<open>Properties\<close>

text \<open>
  (C13) In every state the pallet reaches, a pool has two to five assets in strictly ascending order, its share token is none of them, its
  amplification is positive and inside the configured range at every block, also while it moves, and whenever the pegs can be brought up to
  date there is one per asset; flags are set for its own assets only. Where there is no pool there are no pegs, no issuance and no flags, so
  a pool that was destroyed leaves nothing behind for the next one with its identifier.
\<close>

theorem stable_storage_well_formed:
  assumes "stable_params C" "stable_reachable C s"
  shows "case sw_pools s p of
       None \<Rightarrow> sw_pegs s p = None \<and> share_issuance s p = 0 \<and> (\<forall>a. sw_tradability s (p, a) = stable_flags_default)
     | Some pool \<Rightarrow> length (pi_assets pool) \<in> {2..5} \<and> sorted_wrt (<) (pi_assets pool) \<and> p \<notin> set (pi_assets pool) \<and>
         (\<forall>w. 0 < get_amplification C pool w \<and> get_amplification C pool w \<in> {fst (amplification_range C)..snd (amplification_range C)}) \<and>
         (\<forall>fee pegs. get_updated_pegs C p pool s = Inr (fee, pegs) \<longrightarrow> length pegs = length (pi_assets pool)) \<and>
         (\<forall>a. a \<notin> set (pi_assets pool) \<longrightarrow> sw_tradability s (p, a) = stable_flags_default)"
proof (cases "sw_pools s p")
  case None
  have inv: "stable_inv C s" by (rule stable_params.stable_reachable_inv [OF assms])
  have "sw_pegs s p = None" using stable_invD(2) [OF inv, of p] None by (cases "sw_pegs s p") (auto simp: pegs_ok_def)
  then show ?thesis using stable_invD(3,4) [OF inv, of p] None by (auto simp: flags_ok_def)
next
  case (Some pool)
  have inv: "stable_inv C s" by (rule stable_params.stable_reachable_inv [OF assms])
  have ok: "stable_pool_ok C p pool" by (rule stable_invD(1) [OF inv Some])
  have flags: "sw_tradability s (p, a) = stable_flags_default" if "a \<notin> set (pi_assets pool)" for a
    using stable_invD(4) [OF inv, of p a] that Some by (auto simp: flags_ok_def)
  show ?thesis
    using ok flags stable_params.amplification_in_range [OF assms(1) ok] stable_params.amplification_positive [OF assms(1) ok] length_updated_pegs [OF inv Some] Some
    by (auto simp: stable_pool_ok_def MAX_ASSETS_IN_POOL_def)
qed

theorem stable_storage_well_formed_witness:
  "stable_reachable std_stable stable_provided \<and> sw_pools stable_provided 9 = Some sample_stable_pool \<and> 0 < get_amplification std_stable sample_stable_pool (sw_world stable_provided)"
  using stable_storage_well_formed [OF std_stable_params.stable_params_axioms stable_provided_reachable, of 9] stable_provided_reachable
  by (auto simp: stable_provided_sel)

text \<open>
  (C6) A provider who takes liquidity out of all assets of a pool gets exactly their part of each reserve, rounded down, and pays exactly the
  shares; what stays in the pool per share that stays never falls, for no asset. Taking out the last shares pays the whole reserves and
  removes the pool and its pegs; otherwise the pool stays as it was. This holds for the extrinsic, for every configuration and reachable state.
\<close>

theorem stable_withdrawal_proportional:
  fixes C :: "('w, 'z) stable_config_scheme" and s s' :: "'w stableswap"
  assumes "stable_env C" "stable_reachable C s" "pool_ledger C who" "who \<noteq> pool_account C p"
    and "stable_remove_liquidity C (Signed who) p n outs s = Inr s'" "sw_pools s p = Some pool" "a \<in> set (pi_assets pool)"
  defines "i \<equiv> share_issuance s p" and "r \<equiv> free_balance C (sw_world s) a (pool_account C p)"
    and "r' \<equiv> free_balance C (sw_world s') a (pool_account C p)"
  shows "n \<le> i \<and> 0 < n \<and> share_issuance s' p = i - n \<and> free_balance C (sw_world s) p who = free_balance C (sw_world s') p who + n \<and>
     free_balance C (sw_world s') a who = free_balance C (sw_world s) a who + (if n = i then r else r * n div i) \<and>
     r = r' + (if n = i then r else r * n div i) \<and> r * (i - n) \<le> r' * i \<and>
     (if n = i then sw_pools s' p = None \<and> sw_pegs s' p = None else sw_pools s' p = Some pool)"
proof -
  have run: "stable_remove_all C False who p n outs s = Inr s'" using assms(5) by (simp add: stable_remove_liquidity_def ensure_signed_def tryR_def)
  have "stable_inv C s" using stable_params.stable_reachable_inv assms(1,2) by (auto simp: stable_env_def)
  note pays = stable_env.remove_all_pays [OF assms(1) run this assms(3,4,6,7), folded i_def r_def r'_def]
  then have "0 < i" "n \<le> i" by auto
  from part_of_bounds [OF this(2,1), of r] pays show ?thesis by (auto simp: part_of_def)
qed

theorem stable_withdrawal_proportional_witness:
  "\<exists>s'. stable_remove_liquidity std_stable (Signed 7) 9 500 [(3, 0), (4, 0)] stable_provided = Inr s' \<and>
     ledger_free (iw_ledger (sw_world s')) 3 7 = 4250 \<and> share_issuance s' 9 = 1500"
proof -
  obtain s' where run: "stable_remove_liquidity std_stable (Signed 7) 9 500 [(3, 0), (4, 0)] stable_provided = Inr s'" using stable_withdrawn_run by blast
  have "(3 :: asset_id) \<in> set (pi_assets sample_stable_pool)" by (simp add: sample_stable_pool_def)
  from stable_withdrawal_proportional [OF std_stable_env.stable_env_axioms stable_provided_reachable std_stable_ledger _ run _ this] run
  show ?thesis by (simp add: stable_provided_sel provided_world_def ledger_free_def umax_def)
qed

text \<open>
  (C14) The router's trades on a pool give what was quoted on the state before: the trader's balance of the asset they sell falls by the
  amount in, that of the asset they buy rises by the amount out, and no other balance of theirs moves, for the three kinds of trade, of
  assets for assets, of shares for an asset and of an asset for shares (which the quote prices for a pool that has shares).
\<close>

theorem stable_router_executes_quote:
  assumes "stable_env C" "stable_reachable C s" "pool_ledger C T" "T \<noteq> pool_account C p"
  shows "(stable_execute_sell C (Signed T) (Pool_Stableswap p) a b n l s = Inr s' \<and> (b = p \<longrightarrow> 0 < share_issuance s p) \<longrightarrow>
       (\<exists>m\<ge>l. stable_out_given_in C (Pool_Stableswap p) a b n s = Inr m \<and> traded (free_balance C) T a b n m (sw_world s) (sw_world s'))) \<and>
     (stable_execute_buy C (Signed T) (Pool_Stableswap p) a b m l s = Inr s' \<longrightarrow>
       (\<exists>n\<le>l. stable_in_given_out C (Pool_Stableswap p) a b m s = Inr n \<and> traded (free_balance C) T a b n m (sw_world s) (sw_world s')))"
proof -
  have "stable_inv C s" using stable_params.stable_reachable_inv assms(1,2) by (auto simp: stable_env_def)
  then show ?thesis using stable_env.execute_sell_quote [OF assms(1)] stable_env.execute_buy_quote [OF assms(1)] assms(3,4) by blast
qed

theorem stable_router_executes_quote_witness:
  "\<exists>s' m. stable_execute_sell std_stable (Signed 7) (Pool_Stableswap 9) 3 4 100 90 stable_provided = Inr s' \<and>
     stable_out_given_in std_stable (Pool_Stableswap 9) 3 4 100 stable_provided = Inr m \<and> 90 \<le> m \<and>
     ledger_free (iw_ledger (sw_world s')) 3 7 = 3900 \<and> ledger_free (iw_ledger (sw_world s')) 4 7 = 4000 + m"
proof -
  obtain s' where "stable_sell std_stable (Signed 7) 9 3 4 100 90 stable_provided = Inr s'" using stable_sold_run by blast
  then have run: "stable_execute_sell std_stable (Signed 7) (Pool_Stableswap 9) 3 4 100 90 stable_provided = Inr s'" by (simp add: stable_execute_sell_def)
  from stable_router_executes_quote [OF std_stable_env.stable_env_axioms stable_provided_reachable std_stable_ledger,
      of 7 9 3 4 100 90 s'] run
  obtain m where m: "90 \<le> m" "stable_out_given_in std_stable (Pool_Stableswap 9) 3 4 100 stable_provided = Inr m"
      "traded (free_balance std_stable) 7 3 4 100 m (sw_world stable_provided) (sw_world s')" by auto
  have "ledger_free (iw_ledger (sw_world s')) 3 7 = 3900" "ledger_free (iw_ledger (sw_world s')) 4 7 = 4000 + m"
    using m(3) by (simp_all add: traded_def stable_provided_sel provided_world_def ledger_free_def umax_def)
  with run m show ?thesis by blast
qed

text \<open>
  (C7) In a pool of two assets a trade never lowers the exact invariant: whatever lay below the invariant of the pool's reserves before a
  sale or a purchase, at the pegs the trade used and the amplification of the block, lies below that of the reserves the ledger holds for
  the pool afterwards, for every configuration, trader and pegs, as long as the normalized reserves fit 128 bits.
\<close>

theorem stable_pool_trade_keeps_invariant:
  assumes env: "stable_env C" "sp_arith (sw_arith C)" "stable_reachable C s" "who \<noteq> pool_account C p"
    and run: "stable_sell C (Signed who) p a b n l s = Inr s' \<or> stable_buy C (Signed who) p b a n l s = Inr s'"
    and pool: "sw_pools s p = Some pool" "pi_assets pool = [x, y]" "get_updated_pegs C p pool s = Inr (fee, [p0, p1])" "pegs_u128 [p0, p1]"
    and decimals: "sw_decimals C (sw_world s') = sw_decimals C (sw_world s)"
    and before: "reserves_with_decimals C pool (pool_account C p) (sw_world s) = Some rs" "list_all st_fits rs"
      "peg_reserves (sw_arith C) (normalize_reserves rs) [p0, p1] = Some xs" "list_all ((\<le>) 2) xs"
    and "after": "reserves_with_decimals C pool (pool_account C p) (sw_world s') = Some rs'" "list_all st_fits rs'"
      "peg_reserves (sw_arith C) (normalize_reserves rs') [p0, p1] = Some ys" "list_all ((<) 0) ys"
  shows "d_not_lower (get_amplification C pool (sw_world s) * 2) xs ys"
proof -
  have inv: "stable_inv C s" using stable_params.stable_reachable_inv env(1,3) by (auto simp: stable_env_def)
  have xy: "x \<noteq> y" using stable_invD(1) [OF inv pool(1)] pool(2) by (auto simp: stable_pool_ok_def)
  obtain r0 r1 where rs: "rs = [r0, r1]" using before(1) pool(2) by (auto simp: reserves_two)
  have iters: "0 < MAX_D_ITERATIONS" "0 < MAX_Y_ITERATIONS" by (simp_all add: MAX_D_ITERATIONS_def MAX_Y_ITERATIONS_def)
  from run show ?thesis
  proof
    assume "stable_sell C (Signed who) p a b n l s = Inr s'"
    then obtain m f w1 w2 st where r: "a \<noteq> b" "calculate_out_amount C p a b n False s = Inr ((m, f), s)"
        "transfer C a who (pool_account C p) n (sw_world s) = Inr w1" "transfer C b (pool_account C p) who m w1 = Inr w2" "sw_on_trade C p a b st w2 = Inr (sw_world s')"
      by (elim stable_sell_run) auto
    from r(2) obtain i j where q: "find_asset a [x, y] = Some i" "find_asset b [x, y] = Some j"
        "calculate_out_given_in_with_fee (sw_arith C) MAX_D_ITERATIONS MAX_Y_ITERATIONS [r0, r1] i j n (get_amplification C pool (sw_world s)) fee [p0, p1] = Some (m, f)"
      using pool before(1) rs by (auto simp: calculate_out_amount_Inr)
    have "free_balance C (sw_world s') = free_balance C w2" using stable_env.trade_hook [OF env(1) r(5)] by blast
    from stable_env.swap_st_after [OF env(1) r(3,4) env(4) this decimals pool(2) xy r(1) q(1,2) before(1) after(1)]
    have "rs' = st_after i j n m [r0, r1]" by (simp add: rs)
    then show ?thesis using stable_sell_keeps_invariant [OF env(2) q(3) _ _ pool(4) iters] before after rs by simp
  next
    assume "stable_buy C (Signed who) p b a n l s = Inr s'"
    then obtain m f w1 w2 st where r: "a \<noteq> b" "calculate_in_amount C p a b n False s = Inr ((m, f), s)"
        "transfer C a who (pool_account C p) m (sw_world s) = Inr w1" "transfer C b (pool_account C p) who n w1 = Inr w2" "sw_on_trade C p a b st w2 = Inr (sw_world s')"
      by (elim stable_buy_run) auto
    from r(2) obtain i j where q: "find_asset a [x, y] = Some i" "find_asset b [x, y] = Some j" "n < ar_amount ([r0, r1] ! j)"
        "calculate_in_given_out_with_fee (sw_arith C) MAX_D_ITERATIONS MAX_Y_ITERATIONS [r0, r1] i j n (get_amplification C pool (sw_world s)) fee [p0, p1] = Some (m, f)"
      using pool before(1) rs by (auto simp: calculate_in_amount_Inr)
    have "free_balance C (sw_world s') = free_balance C w2" using stable_env.trade_hook [OF env(1) r(5)] by blast
    from stable_env.swap_st_after [OF env(1) r(3,4) env(4) this decimals pool(2) xy r(1) q(1,2) before(1) after(1)]
    have rs': "rs' = st_after i j m n [r0, r1]" by (simp add: rs)
    have "j < 2" using q(2) by (auto split: if_splits)
    then have "st_fits ([r0, r1] ! j)" using before(2) rs by (auto simp: less_2_cases_iff)
    then have "n * 10 ^ (18 - ar_decimals ([r0, r1] ! j)) \<le> umax 128"
      using q(3) by (auto simp: st_fits_def st_value_def elim!: order_trans [rotated])
    with stable_buy_keeps_invariant [OF env(2) q(4) _ _ _ pool(4) iters] before after rs rs' show ?thesis by simp
  qed
qed

theorem stable_pool_trade_keeps_invariant_witness:
  "\<exists>s'. stable_sell std_stable (Signed 7) 9 3 4 100 90 stable_provided = Inr s' \<and> d_not_lower (100 * 2) [1000, 1000] [1100, 909]"
proof -
  obtain s' where s': "stable_sell std_stable (Signed 7) 9 3 4 100 90 stable_provided = Inr s'"
      "reserves_with_decimals std_stable sample_stable_pool 1009 (sw_world s') = Some [reserve18 1100, reserve18 909]" using stable_sold_run by blast
  have amp: "get_amplification std_stable sample_stable_pool (sw_world stable_provided) = 100"
    by (simp add: get_amplification_def calculate_amplification_def sample_stable_pool_def)
  have "d_not_lower (get_amplification std_stable sample_stable_pool (sw_world stable_provided) * 2) [1000, 1000] [1100, 909]"
    by (rule stable_pool_trade_keeps_invariant [OF std_stable_env.stable_env_axioms _ stable_provided_reachable _ disjI1 [OF s'(1)],
          where pool = sample_stable_pool and x = 3 and y = 4 and fee = 50000 and ?p0.0 = "(1, 1)" and ?p1.0 = "(1, 1)"
            and rs = "[reserve18 1000, reserve18 1000]" and rs' = "[reserve18 1100, reserve18 909]"])
      (use s' std.sp_arith_axioms in \<open>simp_all add: stable_provided_sel sample_stable_pool_def provided_world_def get_updated_pegs_def fun_eq_iff reserves_with_decimals_def
         ledger_free_def umax_def pegs_u128_def st_fits_def st_value_def stable_math\<close>)
  with s'(1) show ?thesis by (auto simp: amp)
qed

section \<open>Pegs and the order of assets\<close>

lemma raw_entries_nth:
  "raw_entries C w xs = Inr ys \<Longrightarrow> k < length xs \<Longrightarrow> target_peg_oracle C w (fst (xs ! k)) (snd (xs ! k)) = Inr (ys ! k)"
proof (induction xs arbitrary: ys k)
  case (Cons x xs)
  then show ?case by (cases k) (auto simp: res_iff split: sum.splits)
qed simp

lemma created_with_pegs:
  assumes "create_pool_with_pegs C orig p assets amp fee sources mx s = Inr s'"
  obtains targets pool info where "get_target_pegs C assets sources (sw_world s) = Inr targets" "length targets = length assets"
    "length assets \<le> length sources" "sw_pools s' p = Some pool" "pi_assets pool = sort assets" "sw_pegs s' p = Some info"
    "current_pegs info = map fst targets" "peg_sources info = sources" "peg_updated_at info = sw_now C (sw_world s)"
proof -
  obtain ts where ts: "get_target_pegs C assets sources (sw_world s) = Inr ts"
      "do_create_pool C p assets amp fee (Some \<lparr>peg_sources = sources, peg_updated_at = sw_now C (sw_world s), max_peg_update = mx,
         current_pegs = take MAX_ASSETS_IN_POOL (map fst ts)\<rparr>) s = Inr s'"
    using assms by (auto simp: create_pool_with_pegs_def res_iff)
  have len: "length ts = min (length assets) (length sources)" by (rule length_target_pegs [OF ts(1)])
  from ts(2) obtain pool where r: "length assets \<le> MAX_ASSETS_IN_POOL" "length (take MAX_ASSETS_IN_POOL (map fst ts)) = length assets"
      "sw_pools s' p = Some pool" "pi_assets pool = sort assets"
      "sw_pegs s' p = Some \<lparr>peg_sources = sources, peg_updated_at = sw_now C (sw_world s), max_peg_update = mx,
         current_pegs = take MAX_ASSETS_IN_POOL (map fst ts)\<rparr>"
    unfolding do_create_pool_def Let_def by (auto simp: res_iff)
  have "take MAX_ASSETS_IN_POOL (map fst ts) = map fst ts" using r(1) len by simp
  with r len show thesis by (intro that [OF ts(1), of pool]) auto
qed

lemma quoted_at_stored_pegs:
  assumes "calculate_out_amount C p a b n persist r = Inr ((m, f), r')" "sw_pools r p = Some pool" "sw_pegs r p = Some info"
    "peg_updated_at info = sw_now C (sw_world r)"
  shows "\<exists>i j rs fee. i < length (pi_assets pool) \<and> j < length (pi_assets pool) \<and> pi_assets pool ! i = a \<and> pi_assets pool ! j = b \<and>
    reserves_with_decimals C pool (pool_account C p) (sw_world r) = Some rs \<and>
    calculate_out_given_in_with_fee (sw_arith C) MAX_D_ITERATIONS MAX_Y_ITERATIONS rs i j n (get_amplification C pool (sw_world r)) fee (current_pegs info) = Some (m, f)"
proof -
  obtain i j rs fee where q: "find_asset a (pi_assets pool) = Some i" "find_asset b (pi_assets pool) = Some j"
      "reserves_with_decimals C pool (pool_account C p) (sw_world r) = Some rs"
      "calculate_out_given_in_with_fee (sw_arith C) MAX_D_ITERATIONS MAX_Y_ITERATIONS rs i j n (get_amplification C pool (sw_world r)) fee (current_pegs info) = Some (m, f)"
    using assms by (auto simp: calculate_out_amount_Inr get_updated_pegs_def res_iff Let_def)
  have idx: "x \<in> set xs \<Longrightarrow> length (takeWhile (\<lambda>v. v \<noteq> x) xs) < length xs \<and> xs ! length (takeWhile (\<lambda>v. v \<noteq> x) xs) = x" for x xs
    by (induction xs) auto
  show ?thesis using q idx [of a "pi_assets pool"] idx [of b "pi_assets pool"] by auto
qed

text \<open>
  (C40) Pegs are kept in the order of the call, assets in ascending order. A pool created with peg sources stores its assets sorted and, position by
  position, the target pegs of the assets as they were listed in the call; when the list was not ascending, at least one position holds an asset and the
  peg of another asset. Every quote in that block, on any reserves, values the asset at a position of the sorted list at the peg stored at the same position.
\<close>

theorem pegs_keep_call_order:
  assumes "create_pool_with_pegs C orig p assets amp fee sources mx s = Inr s'"
  shows "\<exists>pool info. sw_pools s' p = Some pool \<and> sw_pegs s' p = Some info \<and> pi_assets pool = sort assets \<and> peg_sources info = sources \<and>
    length (current_pegs info) = length assets \<and>
    (\<forall>k < length assets. \<exists>t. target_peg_oracle C (sw_world s) (assets ! k) (sources ! k) = Inr (current_pegs info ! k, t)) \<and>
    (\<not> sorted assets \<longrightarrow> (\<exists>k < length assets. pi_assets pool ! k \<noteq> assets ! k)) \<and>
    (\<forall>r r' a b n m f persist. sw_pools r p = Some pool \<longrightarrow> sw_pegs r p = Some info \<longrightarrow> sw_now C (sw_world r) = sw_now C (sw_world s) \<longrightarrow>
       calculate_out_amount C p a b n persist r = Inr ((m, f), r') \<longrightarrow>
       (\<exists>i j rs trade_fee. i < length assets \<and> j < length assets \<and> sort assets ! i = a \<and> sort assets ! j = b \<and>
          reserves_with_decimals C pool (pool_account C p) (sw_world r) = Some rs \<and>
          calculate_out_given_in_with_fee (sw_arith C) MAX_D_ITERATIONS MAX_Y_ITERATIONS rs i j n (get_amplification C pool (sw_world r)) trade_fee
            (current_pegs info) = Some (m, f)))"
  using assms
proof (cases rule: created_with_pegs)
  case (1 targets pool info)
  have pegs: "\<exists>t. target_peg_oracle C (sw_world s) (assets ! k) (sources ! k) = Inr (current_pegs info ! k, t)" if "k < length assets" for k
    using raw_entries_nth [of C "sw_world s" "zip assets sources" targets k] 1(1-3,7) that
    by (auto simp: get_target_pegs_def split: if_splits intro!: exI [of _ "snd (targets ! k)"])
  have "\<exists>k < length assets. sort assets ! k \<noteq> assets ! k" if "\<not> sorted assets"
    using that nth_equalityI [of "sort assets" assets] by (metis length_sort sorted_sort)
  moreover have "\<exists>i j rs trade_fee. i < length assets \<and> j < length assets \<and> sort assets ! i = a \<and> sort assets ! j = b \<and>
      reserves_with_decimals C pool (pool_account C p) (sw_world r) = Some rs \<and>
      calculate_out_given_in_with_fee (sw_arith C) MAX_D_ITERATIONS MAX_Y_ITERATIONS rs i j n (get_amplification C pool (sw_world r)) trade_fee
        (current_pegs info) = Some (m, f)"
    if "sw_pools r p = Some pool" "sw_pegs r p = Some info" "sw_now C (sw_world r) = sw_now C (sw_world s)"
      "calculate_out_amount C p a b n persist r = Inr ((m, f), r')" for r r' a b n m f persist
    using quoted_at_stored_pegs [OF that(4,1,2)] that(3) 1(5,9) by simp
  ultimately show ?thesis using 1 pegs by (intro exI [of _ pool] exI [of _ info]) simp
qed

text \<open>
  Assets 20 and 10 listed in this order with the pegs three and one: asset 10 is stored first and valued at three, and against
  equal reserves 100 of it buy 273 of asset 20; with the pegs in the order of the assets they would buy 31.
\<close>

definition swapped_pegs :: "issue_world stableswap" where
  "swapped_pegs = (case create_pool_with_pegs std_stable Root 9 [20, 10] 100 50000 [Peg_Value (3, 1), Peg_Value (1, 1)] 1000 stable_start of
     Inr s \<Rightarrow> s | Inl _ \<Rightarrow> stable_start)"

lemma swapped_pegs_run:
  "create_pool_with_pegs std_stable Root 9 [20, 10] 100 50000 [Peg_Value (3, 1), Peg_Value (1, 1)] 1000 stable_start = Inr swapped_pegs"
  by (simp add: swapped_pegs_def create_pool_with_pegs_def get_target_pegs_def do_create_pool_def stable_start_def stable_run_defs pool_is_valid_def
      MAX_ASSETS_IN_POOL_def)

definition swapped_pegs_funded :: "issue_world stableswap" where
  "swapped_pegs_funded = swapped_pegs\<lparr>sw_world := \<lparr>iw_ledger = (\<lambda>_. 0)((10, 1009) := 1000, (20, 1009) := 1000), iw_issued = (\<lambda>_. 0)(10 := 1000, 20 := 1000)\<rparr>\<rparr>"

lemma pegged_quotes:
  "calculate_out_given_in_with_fee std_arith 64 128 [reserve18 1000, reserve18 1000] 0 (Suc 0) 100 100 50000 [(3, 1), (1, 1)] = Some (273, 14)"
  "calculate_out_given_in_with_fee std_arith 64 128 [reserve18 1000, reserve18 1000] 0 (Suc 0) 100 100 50000 [(1, 1), (3, 1)] = Some (31, 1)"
  by (simp_all add: stable_eval ck_eval std_arith_eval)

lemma swapped_pegs_quote:
  "calculate_out_amount std_stable 9 10 20 100 False swapped_pegs_funded = Inr ((273, 14), swapped_pegs_funded)"
  by (simp add: calculate_out_amount_def pegs_and_fee_def swapped_pegs_funded_def swapped_pegs_def create_pool_with_pegs_def get_target_pegs_def
      do_create_pool_def stable_start_def stable_run_defs pool_is_valid_def MAX_ASSETS_IN_POOL_def get_updated_pegs_def MAX_D_ITERATIONS_def
      MAX_Y_ITERATIONS_def pegged_quotes ar_is_zero_def del: One_nat_def)

theorem pegs_keep_call_order_witness:
  "\<exists>pool info. sw_pools swapped_pegs 9 = Some pool \<and> sw_pegs swapped_pegs 9 = Some info \<and> pi_assets pool = [10, 20] \<and> current_pegs info = [(3, 1), (1, 1)] \<and>
     calculate_out_amount std_stable 9 10 20 100 False swapped_pegs_funded = Inr ((273, 14), swapped_pegs_funded) \<and>
     (\<exists>i j rs trade_fee. [10, 20] ! i = (10 :: nat) \<and> [10, 20] ! j = (20 :: nat) \<and>
        calculate_out_given_in_with_fee std_arith MAX_D_ITERATIONS MAX_Y_ITERATIONS rs i j 100 100 trade_fee [(3, 1), (1, 1)] = Some (273, 14))"
proof -
  obtain pool info where w: "sw_pools swapped_pegs 9 = Some pool" "sw_pegs swapped_pegs 9 = Some info" "pi_assets pool = sort [20, 10]"
      "length (current_pegs info) = length [20, 10 :: nat]"
      "\<forall>k < length [20, 10 :: nat]. \<exists>t. target_peg_oracle std_stable (sw_world stable_start) ([20, 10] ! k) ([Peg_Value (3, 1), Peg_Value (1, 1)] ! k) =
         Inr (current_pegs info ! k, t)"
      "\<forall>r r' a b n m f persist. sw_pools r 9 = Some pool \<longrightarrow> sw_pegs r 9 = Some info \<longrightarrow>
         sw_now std_stable (sw_world r) = sw_now std_stable (sw_world stable_start) \<longrightarrow> calculate_out_amount std_stable 9 a b n persist r = Inr ((m, f), r') \<longrightarrow>
         (\<exists>i j rs trade_fee. i < length [20, 10 :: nat] \<and> j < length [20, 10 :: nat] \<and> sort [20, 10] ! i = a \<and> sort [20, 10] ! j = b \<and>
            reserves_with_decimals std_stable pool (pool_account std_stable 9) (sw_world r) = Some rs \<and>
            calculate_out_given_in_with_fee (sw_arith std_stable) MAX_D_ITERATIONS MAX_Y_ITERATIONS rs i j n (get_amplification std_stable pool (sw_world r)) trade_fee
              (current_pegs info) = Some (m, f))"
    using pegs_keep_call_order [OF swapped_pegs_run] by (elim exE conjE) (rule that)
  have "current_pegs info ! 0 = (3, 1)" "current_pegs info ! 1 = (1, 1)" using w(5) [rule_format, of 0] w(5) [rule_format, of 1] by simp_all
  then have pegs: "current_pegs info = [(3, 1), (1, 1)]" using w(4) by (auto simp: length_Suc_conv)
  have "sw_pools swapped_pegs 9 = Some \<lparr>pi_assets = [10, 20], initial_amplification = 100, final_amplification = 100, initial_block = 5, final_block = 5, pi_fee = 50000\<rparr>"
    by (simp add: swapped_pegs_def create_pool_with_pegs_def get_target_pegs_def do_create_pool_def stable_start_def stable_run_defs pool_is_valid_def
        MAX_ASSETS_IN_POOL_def)
  then have amp: "get_amplification std_stable pool x = 100" for x using w(1) by (simp add: get_amplification_def calculate_amplification_def)
  have "sw_pools swapped_pegs_funded 9 = Some pool" "sw_pegs swapped_pegs_funded 9 = Some info" using w(1,2) by (simp_all add: swapped_pegs_funded_def)
  from w(6) [rule_format, OF this _ swapped_pegs_quote] obtain i j rs trade_fee where "sort [20, 10] ! i = (10 :: nat)" "sort [20, 10] ! j = (20 :: nat)"
      "calculate_out_given_in_with_fee std_arith MAX_D_ITERATIONS MAX_Y_ITERATIONS rs i j 100 100 trade_fee [(3, 1), (1, 1)] = Some (273, 14)"
    by (auto simp: amp pegs)
  then show ?thesis using w(1-3) pegs swapped_pegs_quote by auto
qed

end
