(* ===== verification/Omnipool_Trades.thy ===== *)
theory Omnipool_Trades
  imports Omnipool_Router
begin

text \<open>
  What an Omnipool trade means for the accounts of others: the trader pays and receives the quoted amounts, an account
  that the pool and its handlers have no business with is left alone, and the execution context is the one before. The
  locale \<open>omnipool_outsider\<close> is what the runtime promises of such an account. The properties at the end say that a trade of such an account
  executes at its quote, in the balances.
\<close>

section \<open>Accounts outside the pool\<close>

locale omnipool_outsider = pool_ledger C x for C :: "'w omnipool_config" and x :: account_id +
  assumes no_protocol: "x \<noteq> protocol_account C"
    and deposit_outside: "deposit C a (protocol_account C) n w = Inr w' \<Longrightarrow> free_balance C w' c x = free_balance C w c x"
    and withdraw_outside: "withdraw C a (protocol_account C) n w = Inr w' \<Longrightarrow> free_balance C w' c x = free_balance C w c x"
    and fee_outside: "fee_get_and_store C k w = (p, w') \<Longrightarrow> free_balance C w' c x = free_balance C w c x"
    and trade_outside: "on_trade C orig i j w = Inr w' \<Longrightarrow> free_balance C w' c x = free_balance C w c x"
    and hub_trade_outside: "on_hub_asset_trade C orig i w = Inr w' \<Longrightarrow> free_balance C w' c x = free_balance C w c x"
    and trade_fee_outside: "on_trade_fee C (protocol_account C) z a n w = Inr (l, w') \<Longrightarrow> free_balance C w' c x = free_balance C w c x"
begin

lemma update_hub_outside: "update_hub_asset_liquidity C d s = Inr s' \<Longrightarrow> free_balance C (world s') c x = free_balance C (world s) c x"
  by (cases d) (auto simp: update_hub_asset_liquidity_def res_iff dest: deposit_outside withdraw_outside)

lemma increase_hdx_outside:
  "increase_hdx_subpool_hub_reserve C orig n s = Inr s' \<Longrightarrow> free_balance C (world s') c x = free_balance C (world s) c x"
  unfolding increase_hdx_subpool_hub_reserve_def Let_def
  by (cases "n = 0", simp, simp only: if_False, elim run_elims) (auto, metis fee_outside hub_trade_outside)

lemma process_protocol_fee_outside:
  "process_protocol_fee C orig n k s = Inr (fs, s') \<Longrightarrow> free_balance C (world s') c x = free_balance C (world s) c x"
  by (auto simp: process_protocol_fee_def res_iff Let_def update_hub_outside increase_hdx_outside split: if_splits)

lemma process_trade_fee_outside:
  "process_trade_fee C who a n s = Inr (k, fs, s') \<Longrightarrow> free_balance C (world s') c x = free_balance C (world s) c x"
  by (auto simp: process_trade_fee_def res_iff Let_def trade_fee_outside)

lemma settled_swaps:
  assumes run: "settled C op orig who a st_in b st_out ch s ni no s'" and ne: "a \<noteq> b" "who \<noteq> protocol_account C"
  shows "swapped C x who a (bu_amount (delta_reserve (tsc_asset_in ch))) b (bu_amount (delta_reserve (tsc_asset_out ch))) (world s) (world s')"
  using run
proof (cases rule: settledE)
  case (1 tk fs s1 ch' w2 w3 dh s4 s6 i1 i2 w7 pf s8 ev b4)
  have w3: "free_balance C (world s') c x = free_balance C w3 c x" for c
    using process_protocol_fee_outside [OF 1(11)] trade_outside [OF 1(10)] update_slip_fee_delta_sel [OF 1(9)] update_hub_outside [OF 1(8)] 1(12)
    by simp
  show ?thesis
    using swapped_cong [OF swap_at [OF 1(5,6) no_protocol ne(2,1)]] process_trade_fee_outside [OF 1(1)] w3 1(2) by simp
qed

text \<open>The hub asset against another asset, sold and bought alike.\<close>

lemma hub_trade_swaps:
  assumes "process_trade_fee C who b k s = Inr (tk, fs, s3)"
    "transfer C a who (protocol_account C) n (world s3) = Inr w4" "transfer C b (protocol_account C) who m w4 = Inr w5"
    "update_hub_asset_liquidity C d (s3\<lparr>world := w5\<rparr>) = Inr s6"
    "update_slip_fee_delta_hub_trade b j (set_asset_state b st' s6) = Inr s8" "on_hub_asset_trade C orig info (world s8) = Inr w11"
    "a \<noteq> b" "who \<noteq> protocol_account C"
  shows "swapped C x who a n b m (world s) w11"
  using swapped_cong [OF swap_at [OF assms(2,3) no_protocol assms(8,7)]] process_trade_fee_outside [OF assms(1)]
    hub_trade_outside [OF assms(6)] update_slip_fee_delta_hub_trade_sel [OF assms(5)] update_hub_outside [OF assms(4)]
  by simp

end

section \<open>The execution context\<close>

lemma slip_loads_bcast:
  "load_trade_slip_fees a p b q s = (slip, s') \<Longrightarrow> bcast s' = bcast s"
  "load_hub_trade_slip_fees a p s = (hslip, s') \<Longrightarrow> bcast s' = bcast s"
  by (auto simp: load_trade_slip_fees_def load_hub_trade_slip_fees_def snapshot_q0_def Let_def split: option.splits prod.splits)

lemma slip_updates_bcast:
  "update_slip_fee_delta a p b q s = Inr s' \<Longrightarrow> bcast s' = bcast s"
  "update_slip_fee_delta_hub_trade a p s = Inr s' \<Longrightarrow> bcast s' = bcast s"
  by (auto simp: update_slip_fee_delta_def update_slip_fee_delta_hub_trade_def res_iff Let_def split: if_splits)

lemma hub_updates_bcast:
  "update_hub_asset_liquidity C d s = Inr s' \<Longrightarrow> bcast s' = bcast s"
  "process_trade_fee C who a n s = Inr (k, fs, s') \<Longrightarrow> bcast s' = bcast s"
  by (auto simp: update_hub_asset_liquidity_def process_trade_fee_def res_iff Let_def split: balance_update.splits prod.splits)

lemma increase_hdx_bcast: "increase_hdx_subpool_hub_reserve C orig n s = Inr s' \<Longrightarrow> bcast s' = bcast s"
  unfolding increase_hdx_subpool_hub_reserve_def Let_def
  by (cases "n = 0", simp, simp only: if_False, elim run_elims) auto

lemma protocol_fee_bcast: "process_protocol_fee C orig n k s = Inr (fs, s') \<Longrightarrow> bcast s' = bcast s"
  by (auto simp: process_protocol_fee_def res_iff Let_def hub_updates_bcast increase_hdx_bcast split: if_splits)

lemma set_asset_state_bcast [simp]: "bcast (set_asset_state a st s) = bcast s"
  by (simp add: set_asset_state_def)

lemma broadcast_result_Inr: "of_broadcast m = Inr x \<longleftrightarrow> m = Inr x"
  by (auto simp: of_broadcast_def split: sum.splits)

lemma settle_trade_context:
  "settle_trade C op orig who a st_in b st_out excl ch s = Inr s' \<Longrightarrow> execution_context (bcast s') = execution_context (bcast s)"
  unfolding settle_trade_def Let_def
  by (elim run_elims, (drule hub_updates_bcast slip_updates_bcast protocol_fee_bcast)+) (auto simp: broadcast_result_Inr res_iff)

lemma hub_trades_context:
  "sell_hub_asset C orig who a n l s = Inr s' \<Longrightarrow> execution_context (bcast s') = execution_context (bcast s)"
  "buy_asset_for_hub_asset C orig who a n l s = Inr s' \<Longrightarrow> execution_context (bcast s') = execution_context (bcast s)"
  unfolding sell_hub_asset_def buy_asset_for_hub_asset_def Let_def
  by (elim run_elims, (drule hub_updates_bcast slip_updates_bcast slip_loads_bcast)+, auto)+

lemma omnipool_sell_context: "sell C orig a b n l s = Inr s' \<Longrightarrow> execution_context (bcast s') = execution_context (bcast s)"
  by (erule sell_cases) (simp_all add: hub_trades_context settle_trade_context slip_loads_bcast)

lemma omnipool_buy_context: "buy C orig b a n l s = Inr s' \<Longrightarrow> execution_context (bcast s') = execution_context (bcast s)"
  by (erule buy_cases) (simp_all add: hub_trades_context settle_trade_context slip_loads_bcast)

section \<open>Trades at their quotes\<close>

text \<open>The quotes depend on the assets, the slip-fee storage, the reserves and the fees only.\<close>

lemma omnipool_quotes_cong:
  assumes "\<And>c. free_balance C w (c :: asset_id) (protocol_account C) = free_balance C (world s) c (protocol_account C)"
    "fee_get C w = fee_get C (world s)"
  shows "omnipool_calculate_out_given_in C p a b n (s\<lparr>world := w, bcast := x\<rparr>) = omnipool_calculate_out_given_in C p a b n s"
    "omnipool_calculate_in_given_out C p a b n (s\<lparr>world := w, bcast := x\<rparr>) = omnipool_calculate_in_given_out C p a b n s"
proof -
  let ?s = "s\<lparr>world := w, bcast := x\<rparr>"
  have same: "load_asset_state C c ?s = load_asset_state C c s" "peek_trade_slip_fees c i d j ?s = peek_trade_slip_fees c i d j s"
      "peek_hub_trade_slip_fees c i ?s = peek_hub_trade_slip_fees c i s" "fee_get C (world ?s) = fee_get C (world s)" for c d i j
    using assms by (simp_all add: load_asset_state_def peek_trade_slip_fees_def peek_hub_trade_slip_fees_def)
  show "omnipool_calculate_out_given_in C p a b n ?s = omnipool_calculate_out_given_in C p a b n s"
      "omnipool_calculate_in_given_out C p a b n ?s = omnipool_calculate_in_given_out C p a b n s"
    by (simp_all only: omnipool_calculate_out_given_in_def omnipool_calculate_in_given_out_def same)
qed

lemma omnipool_sell_swaps:
  assumes fees: "fee_provider (fee_get C) (fee_get_and_store C)" and run: "sell C (Signed T) a b n l s = Inr s'" and T: "T \<noteq> protocol_account C"
  shows "\<exists>m. l \<le> m \<and> omnipool_calculate_out_given_in C Pool_Omnipool a b n s = Inr m \<and> a \<noteq> b \<and>
     (\<forall>x. omnipool_outsider C x \<longrightarrow> swapped C x T a n b m (world s) (world s'))"
proof -
  obtain m hi ho af pf where q: "l \<le> m" "omnipool_calculate_out_given_in C Pool_Omnipool a b n s = Inr m"
      "last (omnipool_events s') = SellExecuted T a b n m hi ho af pf"
    using sell_quote_exact [OF fees run] by (auto simp: sell_as_quoted_def)
  have "a \<noteq> b \<and> (\<forall>x. omnipool_outsider C x \<longrightarrow> swapped C x T a n b m (world s) (world s'))"
    using run
  proof (cases rule: sell_cases)
    case (1 who)
    note hub = 1(1-3)
    from 1(4) show ?thesis
    proof (cases rule: sell_hub_asset_cases)
      case (1 st af g w1 slip s2 ch mi mo tk fs s3 d st' w4 w5 s6 s8 info ev bc w11)
      have ev: "who = T" "n = bu_amount (delta_hub_reserve d)" "m = bu_amount (delta_reserve d)" "world s' = w11"
        using q(3) 1(20,21) hub(1) by auto
      have w2: "world s2 = w1" using load_hub_trade_slip_fees_sel(2) [of b "hub_reserve st" "s\<lparr>world := w1\<rparr>"] 1(7) by simp
      have ne: "hub_asset_id C \<noteq> b" "who \<noteq> protocol_account C" using hub T ev(1) by auto
      have "swapped C x T a n b m (world s) (world s')" if "omnipool_outsider C x" for x
        by (rule swapped_cong [of C x T a n b m "world s2" w11])
          (use omnipool_outsider.hub_trade_swaps [OF that 1(12,15,16,17,18,19) ne] omnipool_outsider.fee_outside [OF that 1(6)] w2 ev hub in simp_all)
      then show ?thesis using hub by simp
    qed
  next
    case (2 who st_in st_out excl af x1 w1 x2 pf w2 slip s2 ch mi mo)
    obtain ni no where st: "settled C ExactIn (Signed T) who a st_in b st_out ch s2 ni no s'" by (rule settle_trade_Inr [OF 2(20)])
    have ev: "who = T" "n = bu_amount (delta_reserve (tsc_asset_in ch))" "m = bu_amount (delta_reserve (tsc_asset_out ch))"
      using q(3) settle_trade_event [OF 2(20)] 2(1) by auto
    have w2: "world s2 = w2" using load_trade_slip_fees_sel(2) [of a "hub_reserve st_in" b "hub_reserve st_out" "s\<lparr>world := w2\<rparr>"] 2(14) by simp
    have "swapped C x T a n b m (world s) (world s')" if "omnipool_outsider C x" for x
      by (rule swapped_cong [of C x T a n b m "world s2" "world s'"])
        (use omnipool_outsider.settled_swaps [OF that st 2(2)] omnipool_outsider.fee_outside [OF that 2(12)] omnipool_outsider.fee_outside [OF that 2(13)] w2 ev T in simp_all)
    then show ?thesis using 2(2) by simp
  qed
  then show ?thesis using q by blast
qed

lemma omnipool_buy_swaps:
  assumes fees: "fee_provider (fee_get C) (fee_get_and_store C)" and run: "buy C (Signed T) b a m l s = Inr s'" and T: "T \<noteq> protocol_account C"
  shows "\<exists>n. n \<le> l \<and> omnipool_calculate_in_given_out C Pool_Omnipool a b m s = Inr n \<and> a \<noteq> b \<and>
     (\<forall>x. omnipool_outsider C x \<longrightarrow> swapped C x T a n b m (world s) (world s'))"
proof -
  obtain n hi ho af pf where q: "n \<le> l" "omnipool_calculate_in_given_out C Pool_Omnipool a b m s = Inr n"
      "last (omnipool_events s') = BuyExecuted T a b n m hi ho af pf"
    using buy_quote_exact [OF fees run] by (auto simp: buy_as_quoted_def)
  have "a \<noteq> b \<and> (\<forall>x. omnipool_outsider C x \<longrightarrow> swapped C x T a n b m (world s) (world s'))"
    using run
  proof (cases rule: buy_cases)
    case (1 who)
    note hub = 1(1-3)
    from 1(4) show ?thesis
    proof (cases rule: buy_asset_for_hub_asset_cases)
      case (1 st af g w1 slip s2 ch mi mo tk fs s3 d st' w4 w5 s6 s8 info ev bc w11)
      have ev: "who = T" "n = bu_amount (delta_hub_reserve d)" "m = bu_amount (delta_reserve d)" "world s' = w11"
        using q(3) 1(20,21) hub(1) by auto
      have w2: "world s2 = w1" using load_hub_trade_slip_fees_sel(2) [of b "hub_reserve st" "s\<lparr>world := w1\<rparr>"] 1(7) by simp
      have ne: "hub_asset_id C \<noteq> b" "who \<noteq> protocol_account C" using hub T ev(1) by auto
      have "swapped C x T a n b m (world s) (world s')" if "omnipool_outsider C x" for x
        by (rule swapped_cong [of C x T a n b m "world s2" w11])
          (use omnipool_outsider.hub_trade_swaps [OF that 1(12,15,16,17,18,19) ne] omnipool_outsider.fee_outside [OF that 1(6)] w2 ev hub in simp_all)
      then show ?thesis using hub by simp
    qed
  next
    case (2 who st_in st_out excl af x1 w1 x2 pf w2 slip s2 ch mi mo)
    obtain ni no where st: "settled C ExactOut (Signed T) who a st_in b st_out ch s2 ni no s'" by (rule settle_trade_Inr [OF 2(19)])
    have ev: "who = T" "n = bu_amount (delta_reserve (tsc_asset_in ch))" "m = bu_amount (delta_reserve (tsc_asset_out ch))"
      using q(3) settle_trade_event [OF 2(19)] 2(1) by auto
    have w2: "world s2 = w2" using load_trade_slip_fees_sel(2) [of a "hub_reserve st_in" b "hub_reserve st_out" "s\<lparr>world := w2\<rparr>"] 2(14) by simp
    have "swapped C x T a n b m (world s) (world s')" if "omnipool_outsider C x" for x
      by (rule swapped_cong [of C x T a n b m "world s2" "world s'"])
        (use omnipool_outsider.settled_swaps [OF that st 2(2)] omnipool_outsider.fee_outside [OF that 2(12)] omnipool_outsider.fee_outside [OF that 2(13)] w2 ev T in simp_all)
    then show ?thesis using 2(2) by simp
  qed
  then show ?thesis using q by blast
qed

section \<open>The concrete ledger\<close>

lemma on_ledger_books:
  "on_ledger (ledger_deposit a x n) w = Inr w' \<Longrightarrow> y \<noteq> x \<Longrightarrow> ledger_free (sw_ledger w') c y = ledger_free (sw_ledger w) c y"
  "on_ledger (ledger_withdraw a x n) w = Inr w' \<Longrightarrow> y \<noteq> x \<Longrightarrow> ledger_free (sw_ledger w') c y = ledger_free (sw_ledger w) c y"
  "on_ledger (ledger_transfer a x z n) w = Inr w' \<Longrightarrow> y \<noteq> x \<Longrightarrow> y \<noteq> z \<Longrightarrow> ledger_free (sw_ledger w') c y = ledger_free (sw_ledger w) c y"
  using ledger_deposit_free [of a x n "sw_ledger w" _ c y] ledger_withdraw_free [of a x n "sw_ledger w" _ c y]
    std_ledger.transfer_pool [of a x z n "sw_ledger w" _ c y]
  by (auto simp: res_iff split: if_splits)

text \<open>The ledger of the Omnipool instance keeps the books of every account.\<close>

lemma world_ledger:
  assumes "free_balance C = (\<lambda>w. ledger_free (sw_ledger w))" "transfer C = (\<lambda>a x y n. on_ledger (ledger_transfer a x y n))"
    "deposit C = (\<lambda>a x n. on_ledger (ledger_deposit a x n))" "withdraw C = (\<lambda>a x n. on_ledger (ledger_withdraw a x n))"
  shows "pool_ledger C P"
proof (unfold_locales, unfold assms, goal_cases)
  case (1 w a x)
  show ?case by (simp add: ledger_free_def)
next
  case (2 a src dst n w w' b)
  then show ?case using std_ledger.transfer_pool [of a src dst n "sw_ledger w" _ b P] by (auto simp: res_iff)
next
  case (3 a dst n w w')
  then show ?case using std_ledger.transfer_enough [of a P dst n "sw_ledger w"] by (auto simp: res_iff)
next
  case (4 a n w w' b)
  then show ?case using std_ledger.deposit_pool [of a P n "sw_ledger w" _ b] by (auto simp: res_iff)
next
  case (5 a n w w' b)
  then show ?case using std_ledger.withdraw_pool [of a P n "sw_ledger w" _ b] by (auto simp: res_iff)
next
  case (6 a n w w')
  then show ?case using std_ledger.withdraw_enough [of a P n "sw_ledger w"] by (auto simp: res_iff)
qed

lemma std_outsider:
  assumes "x \<notin> {fee_receiver, 100}"
  shows "omnipool_outsider std_omnipool_config x"
proof (intro omnipool_outsider.intro omnipool_outsider_axioms.intro, goal_cases)
  case 1
  show ?case by (rule world_ledger) simp_all
next
  case (8 z a n w l w' c)
  then show ?case using assms on_ledger_books(3) by (auto simp: std_trade_fee_def tryR_Inr)
qed (use assms on_ledger_books in auto)

section \<open>Properties\<close>

text \<open>
  (C10) A sell executes at its quote, in the balances: when a signed \<open>sell\<close> succeeds, the router's
  \<open>calculate_out_given_in\<close> on the state before it returned an amount \<open>m\<close>, at least the caller's limit, and the trader's
  account has paid exactly the amount sold, which it held, and received exactly \<open>m\<close>; none of its other balances and no
  balance of another account outside the pool has moved, and \<open>SellExecuted\<close> reports the two amounts. This covers trades
  against the hub asset, slip fees and the fee provider's storage.
\<close>

theorem omnipool_sell_executes_quote:
  assumes "fee_provider (fee_get C) (fee_get_and_store C)" "omnipool_outsider C T" "sell C (Signed T) a b n lim s = Inr s'"
  shows "sell_as_quoted C (Signed T) a b n lim s s' \<and>
    (\<exists>m. omnipool_calculate_out_given_in C Pool_Omnipool a b n s = Inr m \<and> lim \<le> m \<and> a \<noteq> b \<and>
       n \<le> free_balance C (world s) a T \<and>
       (\<forall>c. free_balance C (world s') c T =
          (if c = a then free_balance C (world s) c T - n else if c = b then free_balance C (world s) c T + m
           else free_balance C (world s) c T)) \<and>
       (\<forall>x c. omnipool_outsider C x \<and> x \<noteq> T \<longrightarrow> free_balance C (world s') c x = free_balance C (world s) c x))"
proof -
  obtain m where q: "omnipool_calculate_out_given_in C Pool_Omnipool a b n s = Inr m" "lim \<le> m" "a \<noteq> b"
      "\<And>x. omnipool_outsider C x \<Longrightarrow> swapped C x T a n b m (world s) (world s')"
    using omnipool_sell_swaps [OF assms(1,3) omnipool_outsider.no_protocol [OF assms(2)]] by blast
  show ?thesis
    using sell_quote_exact [OF assms(1,3)] q(1-3) q(4) [OF assms(2)] q(4) unfolding swapped_def by auto
qed

theorem omnipool_sell_executes_quote_witness:
  "\<exists>s' m. sell std_omnipool_config (Signed 7) 2 0 100000 199000 sample_pool = Inr s' \<and> 199000 \<le> m \<and>
     ledger_free (sw_ledger (world s')) 0 7 = ledger_free (sw_ledger (world sample_pool)) 0 7 + m \<and>
     ledger_free (sw_ledger (world s')) 2 7 = ledger_free (sw_ledger (world sample_pool)) 2 7 - 100000"
proof -
  obtain s' where run: "sell std_omnipool_config (Signed 7) 2 0 100000 199000 sample_pool = Inr s'"
    using sample_sell by blast
  have "omnipool_outsider std_omnipool_config 7" by (rule std_outsider) (simp add: fee_receiver_def)
  from omnipool_sell_executes_quote [OF std_fee.fee_provider_axioms this run] run show ?thesis by auto
qed

text \<open>
  (C11) A buy executes at its quote, in the balances: when a signed \<open>buy\<close> succeeds, \<open>calculate_in_given_out\<close> on the state
  before it returned an amount \<open>n\<close>, at most the caller's limit, and the trader's account has paid exactly \<open>n\<close>, which it
  held, and received exactly the amount bought; nothing else of it and no other account outside the pool has changed,
  and \<open>BuyExecuted\<close> reports the two amounts.
\<close>

theorem omnipool_buy_executes_quote:
  assumes "fee_provider (fee_get C) (fee_get_and_store C)" "omnipool_outsider C T" "buy C (Signed T) b a m lim s = Inr s'"
  shows "buy_as_quoted C (Signed T) b a m lim s s' \<and>
    (\<exists>n. omnipool_calculate_in_given_out C Pool_Omnipool a b m s = Inr n \<and> n \<le> lim \<and> a \<noteq> b \<and>
       n \<le> free_balance C (world s) a T \<and>
       (\<forall>c. free_balance C (world s') c T =
          (if c = a then free_balance C (world s) c T - n else if c = b then free_balance C (world s) c T + m
           else free_balance C (world s) c T)) \<and>
       (\<forall>x c. omnipool_outsider C x \<and> x \<noteq> T \<longrightarrow> free_balance C (world s') c x = free_balance C (world s) c x))"
proof -
  obtain n where q: "omnipool_calculate_in_given_out C Pool_Omnipool a b m s = Inr n" "n \<le> lim" "a \<noteq> b"
      "\<And>x. omnipool_outsider C x \<Longrightarrow> swapped C x T a n b m (world s) (world s')"
    using omnipool_buy_swaps [OF assms(1,3) omnipool_outsider.no_protocol [OF assms(2)]] by blast
  show ?thesis
    using buy_quote_exact [OF assms(1,3)] q(1-3) q(4) [OF assms(2)] q(4) unfolding swapped_def by auto
qed

theorem omnipool_buy_executes_quote_witness:
  "\<exists>s' n. buy std_omnipool_config (Signed 7) 0 2 100000 60000 sample_pool = Inr s' \<and> n \<le> 60000 \<and>
     ledger_free (sw_ledger (world s')) 0 7 = ledger_free (sw_ledger (world sample_pool)) 0 7 + 100000 \<and>
     ledger_free (sw_ledger (world s')) 2 7 = ledger_free (sw_ledger (world sample_pool)) 2 7 - n"
proof -
  obtain s' where run: "buy std_omnipool_config (Signed 7) 0 2 100000 60000 sample_pool = Inr s'"
    using sample_buy by blast
  have "omnipool_outsider std_omnipool_config 7" by (rule std_outsider) (simp add: fee_receiver_def)
  from omnipool_buy_executes_quote [OF std_fee.fee_provider_axioms this run] run show ?thesis by auto
qed

end
