(* ===== verification/Xyk_Pallet.thy ===== *)
theory Xyk_Pallet
  imports Xyk_Math Rational_Math Broadcast
begin

text \<open>
  The XYK pallet (\<open>pallets/xyk/src/{lib,types}.rs\<close>): constant-product pools for asset pairs, each with an
  account of its own and a share token. The storage is the record \<open>xyk\<close>; one definition per helper and
  extrinsic. Names that other pallets use too carry the prefix \<open>xyk\<close>.
\<close>

section \<open>Types\<close>

record asset_pair =
  asset_in :: asset_id
  asset_out :: asset_id

definition ordered_pair :: "asset_pair \<Rightarrow> asset_id \<times> asset_id" where
  "ordered_pair p = (if asset_in p \<le> asset_out p then (asset_in p, asset_out p) else (asset_out p, asset_in p))"

text \<open>\<open>u32::to_le_bytes\<close>; the name of a share token, \<open>b"HDT"\<close> between the two identifiers.\<close>

definition le_bytes :: "asset_id \<Rightarrow> nat list" where
  "le_bytes a = [a mod 256, a div 256 mod 256, a div 65536 mod 256, a div 16777216 mod 256]"

definition pair_name :: "asset_pair \<Rightarrow> nat list" where
  "pair_name p = (case ordered_pair p of (a, b) \<Rightarrow> le_bytes a @ [72, 68, 84] @ le_bytes b)"

text \<open>The errors of the pallet; \<open>Xyk_Panicked\<close> stands for a panic of the fixed-point library, which has no error value.\<close>

datatype xyk_error =
    CannotCreatePoolWithSameAssets | InsufficientLiquidity | InsufficientTradingAmount | ZeroLiquidity
  | InvalidMintedLiquidity | InvalidLiquidityAmount | AssetAmountExceededLimit | AssetAmountNotReachedLimit
  | InsufficientAssetBalance | InsufficientPoolAssetBalance | InsufficientNativeCurrencyBalance
  | TokenPoolNotFound | TokenPoolAlreadyExists | AddAssetAmountInvalid | RemoveAssetAmountInvalid
  | SellAssetAmountInvalid | BuyAssetAmountInvalid | FeeAmountInvalid | MaxOutRatioExceeded
  | MaxInRatioExceeded | Xyk_Overflow | CannotCreatePool | SlippageLimit
  | Xyk_Panicked

datatype xyk_event =
    LiquidityAdded account_id asset_id asset_id balance balance
  | LiquidityRemoved account_id asset_id asset_id balance
  | PoolCreated account_id asset_id asset_id balance asset_id account_id
  | PoolDestroyed account_id asset_id asset_id asset_id account_id
  | SellExecuted account_id asset_id asset_id balance balance asset_id balance account_id
  | BuyExecuted account_id asset_id asset_id balance balance asset_id balance account_id

text \<open>
  The configuration. \<open>account_hash\<close> is the hash that account identifiers are taken from, the registry hands out share
  tokens by name, and the handlers feed the oracle; a handler call gets the oracle source, the assets, amounts,
  liquidities, price and issuance.
\<close>

record 'w xyk_config = "'w currency" +
  get_or_register :: "nat list \<Rightarrow> 'w \<Rightarrow> nat + asset_id \<times> 'w"
  string_limit :: nat
  account_hash :: "nat list \<Rightarrow> account_id"
  exchange_fee :: "nat \<times> nat"
  min_trading_limit :: balance
  min_pool_liquidity :: balance
  max_in_ratio :: nat
  max_out_ratio :: nat
  oracle_source :: nat
  can_create :: "'w \<Rightarrow> asset_id \<Rightarrow> asset_id \<Rightarrow> bool"
  on_create_pool :: "asset_id \<Rightarrow> asset_id \<Rightarrow> 'w \<Rightarrow> 'w"
  on_trade :: "nat \<Rightarrow> asset_id \<Rightarrow> asset_id \<Rightarrow> balance \<Rightarrow> balance \<Rightarrow> balance \<Rightarrow> balance \<Rightarrow> ratio \<Rightarrow> balance option \<Rightarrow> 'w \<Rightarrow> nat + 'w"
  on_liquidity_changed :: "nat \<Rightarrow> asset_id \<Rightarrow> asset_id \<Rightarrow> balance \<Rightarrow> balance \<Rightarrow> balance \<Rightarrow> balance \<Rightarrow> ratio \<Rightarrow> balance option \<Rightarrow> 'w \<Rightarrow> nat + 'w"
  whitelist_add :: "account_id \<Rightarrow> 'w \<Rightarrow> nat + 'w"
  whitelist_remove :: "account_id \<Rightarrow> 'w \<Rightarrow> nat + 'w"

record 'w xyk =
  share_token :: "account_id \<rightharpoonup> asset_id"
  total_liquidity :: "account_id \<Rightarrow> balance"
  pool_assets :: "account_id \<rightharpoonup> asset_id \<times> asset_id"
  xyk_events :: "xyk_event list"
  xyk_broadcast :: broadcast
  xyk_world :: 'w

type_synonym 'a xyk_result = "xyk_error dispatch_error + 'a"

record amm_transfer =
  tr_origin :: account_id
  tr_assets :: asset_pair
  tr_amount :: balance
  tr_amount_b :: balance
  tr_fee :: "asset_id \<times> balance"

section \<open>Helpers\<close>

text \<open>
  The account of a pair (\<open>from_assets\<close> of \<open>runtime/hydradx/src/assets.rs\<close>): the hash of an identifier and the
  two assets in order. The identifier is \<open>b"xyk"\<close>.
\<close>

definition from_assets :: "('w, 'z) xyk_config_scheme \<Rightarrow> asset_id \<Rightarrow> asset_id \<Rightarrow> nat list \<Rightarrow> account_id" where
  "from_assets C asset_a asset_b identifier =
     account_hash C (if asset_a < asset_b then identifier @ le_bytes asset_a @ le_bytes asset_b
                     else identifier @ le_bytes asset_b @ le_bytes asset_a)"

definition pair_account_from_assets :: "('w, 'z) xyk_config_scheme \<Rightarrow> asset_id \<Rightarrow> asset_id \<Rightarrow> account_id" where
  "pair_account_from_assets C asset_a asset_b = from_assets C asset_a asset_b [120, 121, 107]"

definition get_pair_id :: "('w, 'z) xyk_config_scheme \<Rightarrow> asset_pair \<Rightarrow> account_id" where
  "get_pair_id C assets = pair_account_from_assets C (asset_in assets) (asset_out assets)"

definition xyk_exists :: "('w, 'z) xyk_config_scheme \<Rightarrow> asset_pair \<Rightarrow> 'w xyk \<Rightarrow> bool" where
  "xyk_exists C assets s = (share_token s (get_pair_id C assets) \<noteq> None)"

text \<open>A value query: the default where the map has no entry.\<close>

definition share_token_of :: "account_id \<Rightarrow> 'w xyk \<Rightarrow> asset_id" where
  "share_token_of acc s = (case share_token s acc of Some a \<Rightarrow> a | None \<Rightarrow> 0)"

definition get_share_token :: "('w, 'z) xyk_config_scheme \<Rightarrow> asset_pair \<Rightarrow> 'w xyk \<Rightarrow> asset_id" where
  "get_share_token C assets s = share_token_of (get_pair_id C assets) s"

definition get_pool_assets :: "account_id \<Rightarrow> 'w xyk \<Rightarrow> asset_id list option" where
  "get_pool_assets pool s = map_option (\<lambda>(a, b). [a, b]) (pool_assets s pool)"

definition get_pool_balances :: "('w, 'z) xyk_config_scheme \<Rightarrow> account_id \<Rightarrow> 'w xyk \<Rightarrow> (asset_id \<times> balance) list option" where
  "get_pool_balances C pool s =
     Some (case get_pool_assets pool s of
             Some assets \<Rightarrow> map (\<lambda>item. (item, free_balance C (xyk_world s) item pool)) assets
           | None \<Rightarrow> [])"

definition xyk_calculate_fee :: "('w, 'z) xyk_config_scheme \<Rightarrow> balance \<Rightarrow> balance xyk_result" where
  "xyk_calculate_fee C amount = ok_or (calculate_pool_trade_fee amount (exchange_fee C)) (Module FeeAmountInvalid)"

definition xyk_emit :: "xyk_event \<Rightarrow> 'w xyk \<Rightarrow> 'w xyk" where
  "xyk_emit e s = s\<lparr>xyk_events := xyk_events s @ [e]\<rparr>"

text \<open>\<open>map_math e m\<close> is \<open>m.map_err(|_| e)?\<close>.\<close>

definition map_math :: "xyk_error \<Rightarrow> math_error + 'a \<Rightarrow> 'a xyk_result" where
  "map_math e m = (case m of Inl _ \<Rightarrow> Inl (Module e) | Inr x \<Rightarrow> Inr x)"

lemma map_math_Inr [res_iff]: "map_math e m = Inr x \<longleftrightarrow> m = Inr x"
  by (auto simp: map_math_def split: sum.splits)

lemma map_math_simps [simp]: "map_math e (Inr x) = Inr x" "map_math e (Inl y) = Inl (Module e)"
  by (simp_all add: map_math_def)

section \<open>Liquidity\<close>

definition create_pool ::
    "('w, 'z) xyk_config_scheme \<Rightarrow> origin \<Rightarrow> asset_id \<Rightarrow> balance \<Rightarrow> asset_id \<Rightarrow> balance \<Rightarrow> 'w xyk \<Rightarrow> 'w xyk xyk_result" where
  "create_pool C orig asset_a amount_a asset_b amount_b s =
     tryR (ensure_signed orig) (\<lambda>who.
     ensure (can_create C (xyk_world s) asset_a asset_b) (Module CannotCreatePool) (
     ensure (min_pool_liquidity C \<le> amount_a \<and> min_pool_liquidity C \<le> amount_b) (Module InsufficientLiquidity) (
     ensure (asset_a \<noteq> asset_b) (Module CannotCreatePoolWithSameAssets) (
     let pair = \<lparr>asset_in = asset_a, asset_out = asset_b\<rparr> in
     ensure (\<not> xyk_exists C pair s) (Module TokenPoolAlreadyExists) (
     let shares_added = (if asset_a < asset_b then amount_a else amount_b) in
     ensure (amount_a \<le> free_balance C (xyk_world s) asset_a who) (Module InsufficientAssetBalance) (
     ensure (amount_b \<le> free_balance C (xyk_world s) asset_b who) (Module InsufficientAssetBalance) (
     let pair_account = get_pair_id C pair; token_name = pair_name pair in
     ensure (length token_name \<le> string_limit C) (Module CannotCreatePool) (
     tryR (foreign (get_or_register C token_name (xyk_world s))) (\<lambda>(token, w1).
     let w2 = on_create_pool C asset_a asset_b w1 in
     tryR (foreign (whitelist_add C pair_account w2)) (\<lambda>w3.
     let s1 = s\<lparr>share_token := (share_token s)(pair_account \<mapsto> token),
                pool_assets := (pool_assets s)(pair_account \<mapsto> (asset_a, asset_b))\<rparr>;
         s2 = xyk_emit (PoolCreated who asset_a asset_b shares_added token pair_account) s1 in
     tryR (foreign (transfer C asset_a who pair_account amount_a w3)) (\<lambda>w4.
     tryR (foreign (transfer C asset_b who pair_account amount_b w4)) (\<lambda>w5.
     tryR (foreign (deposit C token who shares_added w5)) (\<lambda>w6.
     Inr (s2\<lparr>total_liquidity := (total_liquidity s2)(pair_account := shares_added), xyk_world := w6\<rparr>))))))))))))))"

definition xyk_do_add_liquidity ::
    "('w, 'z) xyk_config_scheme \<Rightarrow> account_id \<Rightarrow> asset_id \<Rightarrow> asset_id \<Rightarrow> balance \<Rightarrow> balance \<Rightarrow> balance \<Rightarrow> 'w xyk \<Rightarrow>
     (balance \<times> 'w xyk) xyk_result" where
  "xyk_do_add_liquidity C who asset_a asset_b amount_a amount_b_max_limit min_shares s =
     (let pair = \<lparr>asset_in = asset_a, asset_out = asset_b\<rparr>; w = xyk_world s in
      ensure (xyk_exists C pair s) (Module TokenPoolNotFound) (
      ensure (min_trading_limit C \<le> amount_a) (Module InsufficientTradingAmount) (
      ensure (amount_b_max_limit \<noteq> 0) (Module ZeroLiquidity) (
      ensure (amount_a \<le> free_balance C w asset_a who) (Module InsufficientAssetBalance) (
      let pair_account = get_pair_id C pair;
          token = share_token_of pair_account s;
          account_shares = free_balance C w token who;
          asset_a_reserve = free_balance C w asset_a pair_account;
          asset_b_reserve = free_balance C w asset_b pair_account;
          share_issuance = total_liquidity s pair_account
      in
      tryR (map_math AddAssetAmountInvalid (calculate_liquidity_in asset_a_reserve asset_b_reserve amount_a)) (\<lambda>amount_b.
      ensure (amount_b \<le> free_balance C w asset_b who) (Module InsufficientAssetBalance) (
      ensure (amount_b \<le> amount_b_max_limit) (Module AssetAmountExceededLimit) (
      tryR (ok_or (calculate_shares asset_a_reserve amount_a share_issuance) (Module Xyk_Overflow)) (\<lambda>shares_added.
      ensure (shares_added \<noteq> 0) (Module InvalidMintedLiquidity) (
      ensure (min_shares \<le> shares_added) (Module SlippageLimit) (
      tryR (ok_or (checked_add 128 account_shares shares_added) (Module InvalidMintedLiquidity)) (\<lambda>new_shares.
      ensure (min_pool_liquidity C \<le> new_shares) (Module InsufficientLiquidity) (
      tryR (ok_or (checked_add 128 share_issuance shares_added) (Module InvalidLiquidityAmount)) (\<lambda>liquidity_amount.
      tryR (foreign (transfer C asset_a who pair_account amount_a w)) (\<lambda>w1.
      tryR (foreign (transfer C asset_b who pair_account amount_b w1)) (\<lambda>w2.
      tryR (foreign (deposit C token who shares_added w2)) (\<lambda>w3.
      let s1 = s\<lparr>total_liquidity := (total_liquidity s)(pair_account := liquidity_amount)\<rparr>;
          liquidity_a = total_balance C w3 asset_a pair_account;
          liquidity_b = total_balance C w3 asset_b pair_account
      in
      tryR (foreign (on_liquidity_changed C (oracle_source C) asset_a asset_b amount_a amount_b liquidity_a liquidity_b
              (ratio_new liquidity_a liquidity_b) (Some liquidity_amount) w3)) (\<lambda>w4.
      Inr (shares_added, xyk_emit (LiquidityAdded who asset_a asset_b amount_a amount_b) (s1\<lparr>xyk_world := w4\<rparr>))))))))))))))))))))"

definition xyk_add_liquidity ::
    "('w, 'z) xyk_config_scheme \<Rightarrow> origin \<Rightarrow> asset_id \<Rightarrow> asset_id \<Rightarrow> balance \<Rightarrow> balance \<Rightarrow> 'w xyk \<Rightarrow> 'w xyk xyk_result" where
  "xyk_add_liquidity C orig asset_a asset_b amount_a amount_b_max_limit s =
     tryR (ensure_signed orig) (\<lambda>who.
     tryR (xyk_do_add_liquidity C who asset_a asset_b amount_a amount_b_max_limit 0 s) (\<lambda>(_, s'). Inr s'))"

definition xyk_add_liquidity_with_limits ::
    "('w, 'z) xyk_config_scheme \<Rightarrow> origin \<Rightarrow> asset_id \<Rightarrow> asset_id \<Rightarrow> balance \<Rightarrow> balance \<Rightarrow> balance \<Rightarrow> 'w xyk \<Rightarrow> 'w xyk xyk_result" where
  "xyk_add_liquidity_with_limits C orig asset_a asset_b amount_a amount_b_max_limit min_shares s =
     tryR (ensure_signed orig) (\<lambda>who.
     tryR (xyk_do_add_liquidity C who asset_a asset_b amount_a amount_b_max_limit min_shares s) (\<lambda>(_, s'). Inr s'))"

text \<open>The interface of other pallets.\<close>

definition amm_add_liquidity ::
    "('w, 'z) xyk_config_scheme \<Rightarrow> account_id \<Rightarrow> asset_id \<Rightarrow> asset_id \<Rightarrow> balance \<Rightarrow> balance \<Rightarrow> 'w xyk \<Rightarrow> (balance \<times> 'w xyk) xyk_result" where
  "amm_add_liquidity C who asset_a asset_b amount_a amount_b_max_limit s =
     xyk_do_add_liquidity C who asset_a asset_b amount_a amount_b_max_limit 0 s"

text \<open>A pool whose last share is burned is removed from storage; an error of the whitelist is ignored.\<close>

definition destroy_pool :: "('w, 'z) xyk_config_scheme \<Rightarrow> account_id \<Rightarrow> asset_id \<Rightarrow> asset_id \<Rightarrow> asset_id \<Rightarrow> account_id \<Rightarrow> 'w xyk \<Rightarrow> 'w xyk" where
  "destroy_pool C who asset_a asset_b token pair_account s =
     (let s1 = s\<lparr>share_token := (share_token s)(pair_account := None), pool_assets := (pool_assets s)(pair_account := None),
                 total_liquidity := (total_liquidity s)(pair_account := 0)\<rparr>;
          s2 = (case whitelist_remove C pair_account (xyk_world s1) of Inl _ \<Rightarrow> s1 | Inr w \<Rightarrow> s1\<lparr>xyk_world := w\<rparr>)
      in xyk_emit (PoolDestroyed who asset_a asset_b token pair_account) s2)"

definition xyk_do_remove_liquidity ::
    "('w, 'z) xyk_config_scheme \<Rightarrow> account_id \<Rightarrow> asset_id \<Rightarrow> asset_id \<Rightarrow> balance \<Rightarrow> balance \<Rightarrow> balance \<Rightarrow> 'w xyk \<Rightarrow> 'w xyk xyk_result" where
  "xyk_do_remove_liquidity C who asset_a asset_b share_amount min_amount_a min_amount_b s =
     (let pair = \<lparr>asset_in = asset_a, asset_out = asset_b\<rparr>; w = xyk_world s in
      ensure (0 < share_amount) (Module ZeroLiquidity) (
      ensure (xyk_exists C pair s) (Module TokenPoolNotFound) (
      let pair_account = get_pair_id C pair;
          token = share_token_of pair_account s;
          total_shares = total_liquidity s pair_account;
          account_shares = free_balance C w token who
      in
      ensure (share_amount \<le> total_shares) (Module InsufficientLiquidity) (
      ensure (share_amount \<le> account_shares) (Module InsufficientAssetBalance) (
      ensure (min_pool_liquidity C \<le> saturating_sub account_shares share_amount \<or> account_shares = share_amount)
        (Module InsufficientLiquidity) (
      let asset_a_reserve = free_balance C w asset_a pair_account;
          asset_b_reserve = free_balance C w asset_b pair_account
      in
      tryR (map_math RemoveAssetAmountInvalid (calculate_liquidity_out asset_a_reserve asset_b_reserve share_amount total_shares))
        (\<lambda>(remove_amount_a, remove_amount_b).
      ensure (remove_amount_a \<le> free_balance C w asset_a pair_account) (Module InsufficientPoolAssetBalance) (
      ensure (remove_amount_b \<le> free_balance C w asset_b pair_account) (Module InsufficientPoolAssetBalance) (
      ensure (min_amount_a \<le> remove_amount_a) (Module SlippageLimit) (
      ensure (min_amount_b \<le> remove_amount_b) (Module SlippageLimit) (
      tryR (ok_or (checked_sub total_shares share_amount) (Module InvalidLiquidityAmount)) (\<lambda>liquidity_left.
      tryR (foreign (transfer C asset_a pair_account who remove_amount_a w)) (\<lambda>w1.
      tryR (foreign (transfer C asset_b pair_account who remove_amount_b w1)) (\<lambda>w2.
      tryR (foreign (withdraw C token who share_amount w2)) (\<lambda>w3.
      let s1 = s\<lparr>total_liquidity := (total_liquidity s)(pair_account := liquidity_left)\<rparr>;
          liquidity_a = total_balance C w3 asset_a pair_account;
          liquidity_b = total_balance C w3 asset_b pair_account
      in
      tryR (foreign (on_liquidity_changed C (oracle_source C) asset_a asset_b remove_amount_a remove_amount_b liquidity_a liquidity_b
              (ratio_new liquidity_a liquidity_b) (Some liquidity_left) w3)) (\<lambda>w4.
      let s2 = xyk_emit (LiquidityRemoved who asset_a asset_b share_amount) (s1\<lparr>xyk_world := w4\<rparr>) in
      Inr (if liquidity_left = 0 then destroy_pool C who asset_a asset_b token pair_account s2 else s2)))))))))))))))))"

definition xyk_remove_liquidity ::
    "('w, 'z) xyk_config_scheme \<Rightarrow> origin \<Rightarrow> asset_id \<Rightarrow> asset_id \<Rightarrow> balance \<Rightarrow> 'w xyk \<Rightarrow> 'w xyk xyk_result" where
  "xyk_remove_liquidity C orig asset_a asset_b share_amount s =
     tryR (ensure_signed orig) (\<lambda>who. xyk_do_remove_liquidity C who asset_a asset_b share_amount 0 0 s)"

definition xyk_remove_liquidity_with_limits ::
    "('w, 'z) xyk_config_scheme \<Rightarrow> origin \<Rightarrow> asset_id \<Rightarrow> asset_id \<Rightarrow> balance \<Rightarrow> balance \<Rightarrow> balance \<Rightarrow> 'w xyk \<Rightarrow> 'w xyk xyk_result" where
  "xyk_remove_liquidity_with_limits C orig asset_a asset_b share_amount min_amount_a min_amount_b s =
     tryR (ensure_signed orig) (\<lambda>who.
     xyk_do_remove_liquidity C who asset_a asset_b share_amount min_amount_a min_amount_b s)"

section \<open>Trades\<close>

definition xyk_validate_sell ::
    "('w, 'z) xyk_config_scheme \<Rightarrow> account_id \<Rightarrow> asset_pair \<Rightarrow> balance \<Rightarrow> balance \<Rightarrow> 'w xyk \<Rightarrow> amm_transfer xyk_result" where
  "xyk_validate_sell C who assets amount min_bought s =
     (let w = xyk_world s in
      ensure (min_trading_limit C \<le> amount) (Module InsufficientTradingAmount) (
      ensure (xyk_exists C assets s) (Module TokenPoolNotFound) (
      ensure (amount \<le> free_balance C w (asset_in assets) who) (Module InsufficientAssetBalance) (
      let pair_account = get_pair_id C assets;
          asset_in_reserve = free_balance C w (asset_in assets) pair_account;
          asset_out_reserve = free_balance C w (asset_out assets) pair_account
      in
      tryR (ok_or (checked_div asset_in_reserve (max_in_ratio C)) (Module Xyk_Overflow)) (\<lambda>max_in.
      ensure (amount \<le> max_in) (Module MaxInRatioExceeded) (
      tryR (map_math SellAssetAmountInvalid (calculate_out_given_in asset_in_reserve asset_out_reserve amount)) (\<lambda>amount_out.
      tryR (ok_or (checked_div asset_out_reserve (max_out_ratio C)) (Module Xyk_Overflow)) (\<lambda>max_out.
      ensure (amount_out \<le> max_out) (Module MaxOutRatioExceeded) (
      tryR (xyk_calculate_fee C amount_out) (\<lambda>transfer_fee.
      tryR (ok_or (checked_sub amount_out transfer_fee) (Module SellAssetAmountInvalid)) (\<lambda>amount_out_without_fee.
      ensure (amount_out < asset_out_reserve) (Module InsufficientAssetBalance) (
      ensure (min_bought \<le> amount_out_without_fee) (Module AssetAmountNotReachedLimit) (
      Inr \<lparr>tr_origin = who, tr_assets = assets, tr_amount = amount, tr_amount_b = amount_out_without_fee,
            tr_fee = (asset_out assets, transfer_fee)\<rparr>)))))))))))))"

definition trade_fee_entry :: "amm_transfer \<Rightarrow> account_id \<Rightarrow> fee_entry" where
  "trade_fee_entry t pair_account = \<lparr>fee_asset = fst (tr_fee t), fee_amount = snd (tr_fee t), fee_destination = Account pair_account\<rparr>"

definition xyk_execute_sell :: "('w, 'z) xyk_config_scheme \<Rightarrow> amm_transfer \<Rightarrow> 'w xyk \<Rightarrow> 'w xyk xyk_result" where
  "xyk_execute_sell C t s =
     (let pair_account = get_pair_id C (tr_assets t); a_in = asset_in (tr_assets t); a_out = asset_out (tr_assets t) in
      tryR (foreign (transfer C a_in (tr_origin t) pair_account (tr_amount t) (xyk_world s))) (\<lambda>w1.
      tryR (foreign (transfer C a_out pair_account (tr_origin t) (tr_amount_b t) w1)) (\<lambda>w2.
      let liquidity_in = total_balance C w2 a_in pair_account;
          liquidity_out = total_balance C w2 a_out pair_account
      in
      tryR (foreign (on_trade C (oracle_source C) a_in a_out (tr_amount t) (tr_amount_b t) liquidity_in liquidity_out
              (ratio_new liquidity_in liquidity_out) (Some (total_liquidity s pair_account)) w2)) (\<lambda>w3.
      let s1 = xyk_emit (SellExecuted (tr_origin t) a_in a_out (tr_amount t) (tr_amount_b t) (fst (tr_fee t)) (snd (tr_fee t)) pair_account)
                 (s\<lparr>xyk_world := w3\<rparr>)
      in Inr (s1\<lparr>xyk_broadcast := deposit_trade_event (tr_origin t) pair_account (Filler_XYK (share_token_of pair_account s1)) ExactIn
                  [(a_in, tr_amount t)] [(a_out, tr_amount_b t)] [trade_fee_entry t pair_account] (xyk_broadcast s1)\<rparr>)))))"

definition xyk_validate_buy ::
    "('w, 'z) xyk_config_scheme \<Rightarrow> account_id \<Rightarrow> asset_pair \<Rightarrow> balance \<Rightarrow> balance \<Rightarrow> 'w xyk \<Rightarrow> amm_transfer xyk_result" where
  "xyk_validate_buy C who assets amount max_limit s =
     (let w = xyk_world s in
      ensure (min_trading_limit C \<le> amount) (Module InsufficientTradingAmount) (
      ensure (xyk_exists C assets s) (Module TokenPoolNotFound) (
      let pair_account = get_pair_id C assets;
          asset_out_reserve = free_balance C w (asset_out assets) pair_account;
          asset_in_reserve = free_balance C w (asset_in assets) pair_account
      in
      ensure (amount < asset_out_reserve) (Module InsufficientPoolAssetBalance) (
      tryR (ok_or (checked_div asset_out_reserve (max_out_ratio C)) (Module Xyk_Overflow)) (\<lambda>max_out.
      ensure (amount \<le> max_out) (Module MaxOutRatioExceeded) (
      tryR (map_math BuyAssetAmountInvalid (calculate_in_given_out asset_out_reserve asset_in_reserve amount)) (\<lambda>buy_price.
      tryR (ok_or (checked_div asset_in_reserve (max_in_ratio C)) (Module Xyk_Overflow)) (\<lambda>max_in.
      ensure (buy_price \<le> max_in) (Module MaxInRatioExceeded) (
      tryR (xyk_calculate_fee C buy_price) (\<lambda>transfer_fee.
      tryR (ok_or (checked_add 128 buy_price transfer_fee) (Module BuyAssetAmountInvalid)) (\<lambda>buy_price_with_fee.
      ensure (buy_price_with_fee \<le> max_limit) (Module AssetAmountExceededLimit) (
      ensure (buy_price_with_fee \<le> free_balance C w (asset_in assets) who) (Module InsufficientAssetBalance) (
      Inr \<lparr>tr_origin = who, tr_assets = assets, tr_amount = amount, tr_amount_b = buy_price,
            tr_fee = (asset_in assets, transfer_fee)\<rparr>)))))))))))))"

definition xyk_execute_buy :: "('w, 'z) xyk_config_scheme \<Rightarrow> amm_transfer \<Rightarrow> account_id option \<Rightarrow> 'w xyk \<Rightarrow> 'w xyk xyk_result" where
  "xyk_execute_buy C t dest s =
     (let pair_account = get_pair_id C (tr_assets t); a_in = asset_in (tr_assets t); a_out = asset_out (tr_assets t);
          receiver = (case dest of Some d \<Rightarrow> d | None \<Rightarrow> tr_origin t) in
      tryR (foreign (transfer C a_out pair_account receiver (tr_amount t) (xyk_world s))) (\<lambda>w1.
      tryR (foreign (transfer C a_in (tr_origin t) pair_account (tr_amount_b t + snd (tr_fee t)) w1)) (\<lambda>w2.
      let liquidity_in = total_balance C w2 a_in pair_account;
          liquidity_out = total_balance C w2 a_out pair_account
      in
      tryR (foreign (on_trade C (oracle_source C) a_in a_out (tr_amount_b t) (tr_amount t) liquidity_in liquidity_out
              (ratio_new liquidity_in liquidity_out) (Some (total_liquidity s pair_account)) w2)) (\<lambda>w3.
      let s1 = xyk_emit (BuyExecuted (tr_origin t) a_out a_in (tr_amount t) (tr_amount_b t) (fst (tr_fee t)) (snd (tr_fee t)) pair_account)
                 (s\<lparr>xyk_world := w3\<rparr>)
      in Inr (s1\<lparr>xyk_broadcast := deposit_trade_event (tr_origin t) pair_account (Filler_XYK (share_token_of pair_account s1)) ExactOut
                  [(a_in, tr_amount_b t)] [(a_out, tr_amount t)] [trade_fee_entry t pair_account] (xyk_broadcast s1)\<rparr>)))))"

text \<open>The two sums of an executed transfer fit \<open>u128\<close>: \<open>xyk_validate_buy\<close> has added them with a check.\<close>

definition xyk_call_sell ::
    "('w, 'z) xyk_config_scheme \<Rightarrow> origin \<Rightarrow> asset_id \<Rightarrow> asset_id \<Rightarrow> balance \<Rightarrow> balance \<Rightarrow> 'w xyk \<Rightarrow> 'w xyk xyk_result" where
  "xyk_call_sell C orig a_in a_out amount max_limit s =
     tryR (ensure_signed orig) (\<lambda>who.
     tryR (xyk_validate_sell C who \<lparr>asset_in = a_in, asset_out = a_out\<rparr> amount max_limit s) (\<lambda>t.
     xyk_execute_sell C t s))"

definition xyk_call_buy ::
    "('w, 'z) xyk_config_scheme \<Rightarrow> origin \<Rightarrow> asset_id \<Rightarrow> asset_id \<Rightarrow> balance \<Rightarrow> balance \<Rightarrow> 'w xyk \<Rightarrow> 'w xyk xyk_result" where
  "xyk_call_buy C orig a_out a_in amount max_limit s =
     tryR (ensure_signed orig) (\<lambda>who.
     tryR (xyk_validate_buy C who \<lparr>asset_in = a_in, asset_out = a_out\<rparr> amount max_limit s) (\<lambda>t.
     xyk_execute_buy C t None s))"

definition buy_for ::
    "('w, 'z) xyk_config_scheme \<Rightarrow> account_id \<Rightarrow> asset_pair \<Rightarrow> balance \<Rightarrow> balance \<Rightarrow> account_id \<Rightarrow> 'w xyk \<Rightarrow> 'w xyk xyk_result" where
  "buy_for C who assets amount max_limit dest s =
     tryR (xyk_validate_buy C who assets amount max_limit s) (\<lambda>t. xyk_execute_buy C t (Some dest) s)"

end
