(* ===== verification/Xyk_Invariants.thy ===== *)
theory Xyk_Invariants
  imports Xyk_Pallet
begin

text \<open>
  What holds of the XYK pallet over any sequence of calls: its three storage maps describe the same pools, each at
  the account of its pair, and no call ever lowers the value of a share, measured by the product of the
  reserves over the square of the issuance.
\<close>

section \<open>Accounts of pairs\<close>

abbreviation pair_account :: "('w, 'z) xyk_config_scheme \<Rightarrow> asset_id \<Rightarrow> asset_id \<Rightarrow> account_id" where
  "pair_account \<equiv> pair_account_from_assets"

lemma le_bytes_value:
  fixes n :: nat
  assumes "n < 2 ^ 32"
  shows "n mod 256 + 256 * (n div 256 mod 256) + 65536 * (n div 65536 mod 256) + 16777216 * (n div 16777216 mod 256) = n"
proof -
  have q: "n div 65536 = n div 256 div 256" "n div 16777216 = n div 65536 div 256"
    by (simp_all add: div_mult2_eq [symmetric])
  have "n div 16777216 < 256" using assms by (intro less_mult_imp_div_less) simp
  then have "n div 16777216 mod 256 = n div 16777216" by simp
  then show ?thesis
    using div_mult_mod_eq [of n 256] div_mult_mod_eq [of "n div 256" 256] div_mult_mod_eq [of "n div 65536" 256]
    unfolding q(1) [symmetric] q(2) [symmetric] by linarith
qed

lemma le_bytes_inj:
  assumes "a < 2 ^ 32" "b < 2 ^ 32" "le_bytes a = le_bytes b"
  shows "a = b"
proof -
  have e: "a mod 256 = b mod 256" "a div 256 mod 256 = b div 256 mod 256" "a div 65536 mod 256 = b div 65536 mod 256"
      "a div 16777216 mod 256 = b div 16777216 mod 256"
    using assms(3) unfolding le_bytes_def list.inject by blast+
  show ?thesis using le_bytes_value [OF assms(1)] le_bytes_value [OF assms(2)] unfolding e by linarith
qed

lemma pair_account_commute: "pair_account C a b = pair_account C b a"
  by (auto simp: pair_account_from_assets_def from_assets_def)

text \<open>What the hash is taken of, for the pairs of 32-bit identifiers.\<close>

definition pair_seed :: "asset_id \<Rightarrow> asset_id \<Rightarrow> nat list" where
  "pair_seed a b = [120, 121, 107] @ le_bytes (min a b) @ le_bytes (max a b)"

lemma pair_account_seed: "pair_account C a b = account_hash C (pair_seed a b)"
  by (auto simp: pair_account_from_assets_def from_assets_def pair_seed_def min_def max_def)

lemma pair_seed_inj:
  assumes "pair_seed a b = pair_seed c d" "a < 2 ^ 32" "b < 2 ^ 32" "c < 2 ^ 32" "d < 2 ^ 32"
  shows "a = c \<and> b = d \<or> a = d \<and> b = c"
proof -
  have "le_bytes (min a b) = le_bytes (min c d) \<and> le_bytes (max a b) = le_bytes (max c d)"
    using assms(1) by (simp add: pair_seed_def le_bytes_def)
  then have "min a b = min c d" "max a b = max c d" using assms(2-5) by (auto intro!: le_bytes_inj simp: min_def max_def)
  then show ?thesis by (auto simp: min_def max_def split: if_splits)
qed

section \<open>The environment\<close>

text \<open>
  The ledger keeps the books of the pool accounts, which are exempt from dusting; the hash has no collisions on
  pairs; registry, whitelist and oracle do not move balances.
\<close>

locale xyk_env =
  fixes C :: "('w, 'z) xyk_config_scheme"
  assumes ledger: "pool_ledger C (pair_account C a b)"
    and hash_inj: "account_hash C (pair_seed a b) = account_hash C (pair_seed c d) \<Longrightarrow> pair_seed a b = pair_seed c d"
    and deposit_other: "deposit C t x n w = Inr w' \<Longrightarrow> x \<noteq> pair_account C a b \<Longrightarrow>
         free_balance C w' c (pair_account C a b) = free_balance C w c (pair_account C a b)"
    and withdraw_other: "withdraw C t x n w = Inr w' \<Longrightarrow> x \<noteq> pair_account C a b \<Longrightarrow>
         free_balance C w' c (pair_account C a b) = free_balance C w c (pair_account C a b)"
    and register_free: "get_or_register C nm w = Inr (t, w') \<Longrightarrow> free_balance C w' c x = free_balance C w c x"
    and create_free: "free_balance C (on_create_pool C a b w) c x = free_balance C w c x"
    and trade_free: "on_trade C src a b n m l k p i w = Inr w' \<Longrightarrow> free_balance C w' c x = free_balance C w c x"
    and liquidity_free: "on_liquidity_changed C src a b n m l k p i w = Inr w' \<Longrightarrow> free_balance C w' c x = free_balance C w c x"
    and whitelist_free: "whitelist_add C y w = Inr w' \<Longrightarrow> free_balance C w' c x = free_balance C w c x"
    and unlist_free: "whitelist_remove C y w = Inr w' \<Longrightarrow> free_balance C w' c x = free_balance C w c x"
begin

lemma pair_account_inj:
  assumes "pair_account C a b = pair_account C c d" "a < 2 ^ 32" "b < 2 ^ 32" "c < 2 ^ 32" "d < 2 ^ 32"
  shows "a = c \<and> b = d \<or> a = d \<and> b = c"
  using pair_seed_inj hash_inj assms by (simp add: pair_account_seed)

lemma transfer_in:
  "transfer C c who (pair_account C a b) n w = Inr w' \<Longrightarrow> who \<noteq> pair_account C x y \<Longrightarrow>
     free_balance C w' d (pair_account C x y) =
       free_balance C w d (pair_account C x y) + (if d = c \<and> pair_account C x y = pair_account C a b then n else 0)"
  using pool_ledger.transfer_pool [OF ledger, of c who "pair_account C a b" n w w' d x y] by auto

lemma transfer_out:
  "transfer C c (pair_account C a b) who n w = Inr w' \<Longrightarrow> who \<noteq> pair_account C x y \<Longrightarrow> who \<noteq> pair_account C a b \<Longrightarrow>
     free_balance C w' d (pair_account C x y) =
       free_balance C w d (pair_account C x y) - (if d = c \<and> pair_account C x y = pair_account C a b then n else 0)"
  using pool_ledger.transfer_pool [OF ledger, of c "pair_account C a b" who n w w' d x y] by auto

text \<open>A transfer of any asset between a pool and somebody who is no pool.\<close>

lemma pool_gains:
  assumes "transfer C x who (pair_account C a b) n w = Inr w1" "transfer C y who (pair_account C a b) m w1 = Inr w2"
    "\<And>c d. who \<noteq> pair_account C c d" "x \<noteq> y"
  shows "free_balance C w2 c (pair_account C p q) =
     free_balance C w c (pair_account C p q) + (if pair_account C p q = pair_account C a b then if c = x then n else if c = y then m else 0 else 0)"
  using transfer_in [OF assms(1) assms(3), of c p q] transfer_in [OF assms(2) assms(3), of c p q] assms(4) by auto

lemma pool_pays:
  assumes "transfer C x (pair_account C a b) who n w = Inr w1" "transfer C y (pair_account C a b) who m w1 = Inr w2"
    "\<And>c d. who \<noteq> pair_account C c d" "x \<noteq> y"
  shows "free_balance C w2 c (pair_account C p q) =
     free_balance C w c (pair_account C p q) - (if pair_account C p q = pair_account C a b then if c = x then n else if c = y then m else 0 else 0)"
  using transfer_out [OF assms(1) assms(3) assms(3), of c p q] transfer_out [OF assms(2) assms(3) assms(3), of c p q] assms(4) by auto

end

section \<open>Well-formed storage\<close>

definition pool_ok :: "('w, 'z) xyk_config_scheme \<Rightarrow> 'w xyk \<Rightarrow> account_id \<Rightarrow> bool" where
  "pool_ok C s P \<longleftrightarrow>
     (case pool_assets s P of
        None \<Rightarrow> share_token s P = None \<and> total_liquidity s P = 0
      | Some (a, b) \<Rightarrow> P = pair_account C a b \<and> a \<noteq> b \<and> a < 2 ^ 32 \<and> b < 2 ^ 32 \<and>
          share_token s P \<noteq> None \<and> 0 < total_liquidity s P)"

definition xyk_inv :: "('w, 'z) xyk_config_scheme \<Rightarrow> 'w xyk \<Rightarrow> bool" where
  "xyk_inv C s \<longleftrightarrow> (\<forall>P. pool_ok C s P)"

lemma xyk_inv_ok: "xyk_inv C s \<Longrightarrow> pool_ok C s P"
  by (simp add: xyk_inv_def)

lemma xyk_inv_pool:
  assumes "xyk_inv C s" "pool_assets s P = Some (a, b)"
  shows "P = pair_account C a b" "a \<noteq> b" "a < 2 ^ 32" "b < 2 ^ 32" "share_token s P \<noteq> None" "0 < total_liquidity s P"
proof -
  have "pool_ok C s P" using assms(1) by (simp add: xyk_inv_def)
  then show "P = pair_account C a b" "a \<noteq> b" "a < 2 ^ 32" "b < 2 ^ 32" "share_token s P \<noteq> None" "0 < total_liquidity s P"
    using assms(2) by (auto simp: pool_ok_def)
qed

lemma xyk_inv_exists: "xyk_inv C s \<Longrightarrow> share_token s P = None \<longleftrightarrow> pool_assets s P = None"
  using xyk_inv_pool(5) [of C s P] by (cases "pool_assets s P") (auto simp: xyk_inv_def pool_ok_def dest: spec [of _ P])

text \<open>
  The value of a share: \<open>share_value_kept\<close> says that the reserves of a pool grew at least as fast as its issuance, in
  the geometric mean.
\<close>

definition share_value_kept :: "('w, 'z) xyk_config_scheme \<Rightarrow> account_id \<Rightarrow> asset_id \<Rightarrow> asset_id \<Rightarrow> 'w xyk \<Rightarrow> 'w xyk \<Rightarrow> bool" where
  "share_value_kept C P a b s s' \<longleftrightarrow>
     free_balance C (xyk_world s) a P * free_balance C (xyk_world s) b P * (total_liquidity s' P)\<^sup>2
       \<le> free_balance C (xyk_world s') a P * free_balance C (xyk_world s') b P * (total_liquidity s P)\<^sup>2"

definition xyk_kept :: "('w, 'z) xyk_config_scheme \<Rightarrow> 'w xyk \<Rightarrow> 'w xyk \<Rightarrow> bool" where
  "xyk_kept C s s' \<longleftrightarrow> (\<forall>P a b. pool_assets s P = Some (a, b) \<longrightarrow> pool_assets s' P \<noteq> None \<longrightarrow>
     pool_assets s' P = Some (a, b) \<and> share_value_kept C P a b s s')"

lemma ratio_product:
  fixes p q p' q' n m :: nat
  assumes "n * p \<le> m * p'" "n * q \<le> m * q'"
  shows "p * q * n\<^sup>2 \<le> p' * q' * m\<^sup>2"
proof -
  have "(n * p) * (n * q) \<le> (m * p') * (m * q')" using assms by (rule mult_le_mono)
  then show ?thesis by (simp add: power2_eq_square ac_simps)
qed

lemma product_chain:
  fixes p q r i j k :: nat
  assumes "p * j\<^sup>2 \<le> q * i\<^sup>2" "q * k\<^sup>2 \<le> r * j\<^sup>2" "0 < j"
  shows "p * k\<^sup>2 \<le> r * i\<^sup>2"
proof -
  have "(p * j\<^sup>2) * k\<^sup>2 \<le> (q * i\<^sup>2) * k\<^sup>2" using assms(1) by (rule mult_le_mono1)
  also have "\<dots> = (q * k\<^sup>2) * i\<^sup>2" by (simp add: ac_simps)
  also have "\<dots> \<le> (r * j\<^sup>2) * i\<^sup>2" using assms(2) by (rule mult_le_mono1)
  finally have "(p * k\<^sup>2) * j\<^sup>2 \<le> (r * i\<^sup>2) * j\<^sup>2" by (simp add: ac_simps)
  then show ?thesis using assms(3) by simp
qed

section \<open>What each operation does\<close>

lemma xyk_emit_sel [simp]:
  "share_token (xyk_emit e s) = share_token s" "total_liquidity (xyk_emit e s) = total_liquidity s"
  "pool_assets (xyk_emit e s) = pool_assets s" "xyk_world (xyk_emit e s) = xyk_world s" "xyk_broadcast (xyk_emit e s) = xyk_broadcast s"
  by (simp_all add: xyk_emit_def)

lemma destroy_pool_sel:
  "share_token (destroy_pool C who a b t P s) = (share_token s)(P := None)"
  "total_liquidity (destroy_pool C who a b t P s) = (total_liquidity s)(P := 0)"
  "pool_assets (destroy_pool C who a b t P s) = (pool_assets s)(P := None)"
  by (simp_all add: destroy_pool_def Let_def split: sum.splits)

lemma validate_sell_Inr:
  assumes "xyk_validate_sell C who p amount lim s = Inr t"
  obtains fee out where "xyk_exists C p s" "out < free_balance C (xyk_world s) (asset_out p) (get_pair_id C p)"
    "calculate_out_given_in (free_balance C (xyk_world s) (asset_in p) (get_pair_id C p))
       (free_balance C (xyk_world s) (asset_out p) (get_pair_id C p)) amount = Inr out"
    "calculate_pool_trade_fee out (exchange_fee C) = Some fee" "fee \<le> out" "lim \<le> out - fee"
    "t = \<lparr>tr_origin = who, tr_assets = p, tr_amount = amount, tr_amount_b = out - fee, tr_fee = (asset_out p, fee)\<rparr>"
  using assms by (auto simp: xyk_validate_sell_def xyk_calculate_fee_def Let_def res_iff ck_iff)

lemma validate_buy_Inr:
  assumes "xyk_validate_buy C who p amount lim s = Inr t"
  obtains fee price where "xyk_exists C p s" "amount < free_balance C (xyk_world s) (asset_out p) (get_pair_id C p)"
    "calculate_in_given_out (free_balance C (xyk_world s) (asset_out p) (get_pair_id C p))
       (free_balance C (xyk_world s) (asset_in p) (get_pair_id C p)) amount = Inr price"
    "calculate_pool_trade_fee price (exchange_fee C) = Some fee" "price + fee \<le> lim" "price + fee \<le> umax 128"
    "t = \<lparr>tr_origin = who, tr_assets = p, tr_amount = amount, tr_amount_b = price, tr_fee = (asset_in p, fee)\<rparr>"
    "price + fee \<le> free_balance C (xyk_world s) (asset_in p) who" "min_trading_limit C \<le> amount"
  using assms by (auto simp: xyk_validate_buy_def xyk_calculate_fee_def Let_def res_iff ck_iff)

text \<open>Both kinds of trade: \<open>n\<close> of one asset into the pool, \<open>m\<close> of the other out of it.\<close>

definition xyk_same_storage :: "'w xyk \<Rightarrow> 'w xyk \<Rightarrow> bool" where
  "xyk_same_storage s s' \<longleftrightarrow> share_token s' = share_token s \<and> total_liquidity s' = total_liquidity s \<and> pool_assets s' = pool_assets s"

lemma execute_sell_Inr:
  assumes "xyk_execute_sell C t s = Inr s'"
  obtains w1 w2 l k p i where
    "transfer C (asset_in (tr_assets t)) (tr_origin t) (get_pair_id C (tr_assets t)) (tr_amount t) (xyk_world s) = Inr w1"
    "transfer C (asset_out (tr_assets t)) (get_pair_id C (tr_assets t)) (tr_origin t) (tr_amount_b t) w1 = Inr w2"
    "on_trade C (oracle_source C) (asset_in (tr_assets t)) (asset_out (tr_assets t)) (tr_amount t) (tr_amount_b t) l k p i w2 = Inr (xyk_world s')"
    "xyk_same_storage s s'" "execution_context (xyk_broadcast s') = execution_context (xyk_broadcast s)"
    "swapper (xyk_broadcast s') = swapper (xyk_broadcast s)"
  using assms unfolding xyk_execute_sell_def Let_def xyk_same_storage_def
  by (elim run_elims) auto

lemma execute_buy_Inr:
  assumes "xyk_execute_buy C t dest s = Inr s'"
  obtains w1 w2 l k p i where
    "transfer C (asset_out (tr_assets t)) (get_pair_id C (tr_assets t)) (case dest of Some d \<Rightarrow> d | None \<Rightarrow> tr_origin t) (tr_amount t) (xyk_world s) = Inr w1"
    "transfer C (asset_in (tr_assets t)) (tr_origin t) (get_pair_id C (tr_assets t)) (tr_amount_b t + snd (tr_fee t)) w1 = Inr w2"
    "on_trade C (oracle_source C) (asset_in (tr_assets t)) (asset_out (tr_assets t)) (tr_amount_b t) (tr_amount t) l k p i w2 = Inr (xyk_world s')"
    "xyk_same_storage s s'" "execution_context (xyk_broadcast s') = execution_context (xyk_broadcast s)"
    "swapper (xyk_broadcast s') = swapper (xyk_broadcast s)"
  using assms unfolding xyk_execute_buy_def Let_def xyk_same_storage_def
  by (elim run_elims) auto

lemma create_pool_Inr:
  assumes "create_pool C orig a n b m s = Inr s'"
  obtains who token w1 w3 w4 w5 where "orig = Signed who" "a \<noteq> b" "share_token s (pair_account C a b) = None"
    "min_pool_liquidity C \<le> n" "min_pool_liquidity C \<le> m"
    "get_or_register C (pair_name \<lparr>asset_in = a, asset_out = b\<rparr>) (xyk_world s) = Inr (token, w1)"
    "whitelist_add C (pair_account C a b) (on_create_pool C a b w1) = Inr w3"
    "transfer C a who (pair_account C a b) n w3 = Inr w4" "transfer C b who (pair_account C a b) m w4 = Inr w5"
    "deposit C token who (if a < b then n else m) w5 = Inr (xyk_world s')"
    "share_token s' = (share_token s)(pair_account C a b \<mapsto> token)" "pool_assets s' = (pool_assets s)(pair_account C a b \<mapsto> (a, b))"
    "total_liquidity s' = (total_liquidity s)(pair_account C a b := (if a < b then n else m))"
proof -
  from assms obtain who token w1 w3 w4 w5 w6 where "orig = Signed who" "a \<noteq> b" "\<not> xyk_exists C \<lparr>asset_in = a, asset_out = b\<rparr> s"
      "min_pool_liquidity C \<le> n \<and> min_pool_liquidity C \<le> m"
      "get_or_register C (pair_name \<lparr>asset_in = a, asset_out = b\<rparr>) (xyk_world s) = Inr (token, w1)"
      "whitelist_add C (pair_account C a b) (on_create_pool C a b w1) = Inr w3"
      "transfer C a who (pair_account C a b) n w3 = Inr w4" "transfer C b who (pair_account C a b) m w4 = Inr w5"
      "deposit C token who (if a < b then n else m) w5 = Inr w6"
      "s' = (xyk_emit (PoolCreated who a b (if a < b then n else m) token (pair_account C a b))
         (s\<lparr>share_token := (share_token s)(pair_account C a b \<mapsto> token), pool_assets := (pool_assets s)(pair_account C a b \<mapsto> (a, b))\<rparr>))
         \<lparr>total_liquidity := (total_liquidity s)(pair_account C a b := (if a < b then n else m)), xyk_world := w6\<rparr>"
    unfolding create_pool_def Let_def get_pair_id_def by (elim run_elims) (simp add: res_iff)
  then show ?thesis using that by (simp add: xyk_exists_def get_pair_id_def)
qed

lemma add_liquidity_Inr:
  assumes "xyk_do_add_liquidity C who a b n lim k s = Inr (added, s')"
  defines "P \<equiv> pair_account C a b"
  obtains m w1 w2 w3 l j p where "share_token s P \<noteq> None"
    "calculate_liquidity_in (free_balance C (xyk_world s) a P) (free_balance C (xyk_world s) b P) n = Inr m"
    "calculate_shares (free_balance C (xyk_world s) a P) n (total_liquidity s P) = Some added" "0 < added" "k \<le> added" "m \<le> lim"
    "transfer C a who P n (xyk_world s) = Inr w1" "transfer C b who P m w1 = Inr w2" "deposit C (share_token_of P s) who added w2 = Inr w3"
    "on_liquidity_changed C (oracle_source C) a b n m l j p (Some (total_liquidity s P + added)) w3 = Inr (xyk_world s')"
    "share_token s' = share_token s" "pool_assets s' = pool_assets s"
    "total_liquidity s' = (total_liquidity s)(P := total_liquidity s P + added)" "total_liquidity s P + added \<le> umax 128"
  using assms(1) unfolding xyk_do_add_liquidity_def Let_def get_pair_id_def asset_pair.select_convs P_def [symmetric]
  by (elim run_elims) (auto simp: res_iff ck_iff xyk_exists_def get_pair_id_def P_def)

lemma remove_liquidity_Inr:
  assumes "xyk_do_remove_liquidity C who a b k la lb s = Inr s'"
  defines "P \<equiv> pair_account C a b"
  obtains n m w1 w2 w3 w4 l j p where "share_token s P \<noteq> None" "0 < k" "k \<le> total_liquidity s P"
    "calculate_liquidity_out (free_balance C (xyk_world s) a P) (free_balance C (xyk_world s) b P) k (total_liquidity s P) = Inr (n, m)"
    "la \<le> n" "lb \<le> m" "transfer C a P who n (xyk_world s) = Inr w1" "transfer C b P who m w1 = Inr w2"
    "withdraw C (share_token_of P s) who k w2 = Inr w3"
    "on_liquidity_changed C (oracle_source C) a b n m l j p (Some (total_liquidity s P - k)) w3 = Inr w4"
    "total_liquidity s P - k = 0 \<longrightarrow> pool_assets s' = (pool_assets s)(P := None) \<and> share_token s' = (share_token s)(P := None) \<and>
       total_liquidity s' = (total_liquidity s)(P := 0) \<and> (xyk_world s' = w4 \<or> whitelist_remove C P w4 = Inr (xyk_world s'))"
    "total_liquidity s P - k \<noteq> 0 \<longrightarrow> pool_assets s' = pool_assets s \<and> share_token s' = share_token s \<and>
       total_liquidity s' = (total_liquidity s)(P := total_liquidity s P - k) \<and> xyk_world s' = w4"
proof -
  have ex: "xyk_exists C \<lparr>asset_in = a, asset_out = b\<rparr> s \<longleftrightarrow> share_token s P \<noteq> None" by (simp add: xyk_exists_def get_pair_id_def P_def)
  from assms(1) obtain n m w1 w2 w3 w4 where st: "share_token s P \<noteq> None" "0 < k" "k \<le> total_liquidity s P"
      "calculate_liquidity_out (free_balance C (xyk_world s) a P) (free_balance C (xyk_world s) b P) k (total_liquidity s P) = Inr (n, m)"
      "la \<le> n" "lb \<le> m" "transfer C a P who n (xyk_world s) = Inr w1" "transfer C b P who m w1 = Inr w2"
      "withdraw C (share_token_of P s) who k w2 = Inr w3"
      "on_liquidity_changed C (oracle_source C) a b n m (total_balance C w3 a P) (total_balance C w3 b P)
         (ratio_new (total_balance C w3 a P) (total_balance C w3 b P)) (Some (total_liquidity s P - k)) w3 = Inr w4"
    and s': "s' = (let s2 = xyk_emit (LiquidityRemoved who a b k) (s\<lparr>total_liquidity := (total_liquidity s)(P := total_liquidity s P - k), xyk_world := w4\<rparr>)
       in if total_liquidity s P - k = 0 then destroy_pool C who a b (share_token_of P s) P s2 else s2)"
    unfolding xyk_do_remove_liquidity_def Let_def get_pair_id_def asset_pair.select_convs P_def [symmetric]
    by (elim run_elims) (auto simp: res_iff ck_iff ex)
  show ?thesis
    by (rule that [OF st]) (auto simp: s' Let_def destroy_pool_sel, simp add: destroy_pool_def Let_def split: sum.splits)
qed

section \<open>Every operation keeps the value of a share\<close>

definition no_pool_account :: "('w, 'z) xyk_config_scheme \<Rightarrow> account_id \<Rightarrow> bool" where
  "no_pool_account C who \<longleftrightarrow> (\<forall>a b. who \<noteq> pair_account C a b)"

lemma share_value_kept_commute: "share_value_kept C P a b s s' = share_value_kept C P b a s s'"
  by (simp add: share_value_kept_def mult.commute)

context xyk_env
begin

lemma exists_distinct:
  assumes "xyk_inv C s" "share_token s (pair_account C a b) \<noteq> None" "a < 2 ^ 32" "b < 2 ^ 32"
  shows "a \<noteq> b" "pool_assets s (pair_account C a b) = Some (a, b) \<or> pool_assets s (pair_account C a b) = Some (b, a)"
    "0 < total_liquidity s (pair_account C a b)"
proof -
  from assms(1,2) obtain c d where cd: "pool_assets s (pair_account C a b) = Some (c, d)" by (auto simp: xyk_inv_exists)
  note ok = xyk_inv_pool [OF assms(1) cd]
  have "a = c \<and> b = d \<or> a = d \<and> b = c" using ok assms(3,4) by (intro pair_account_inj) auto
  then show "a \<noteq> b" "pool_assets s (pair_account C a b) = Some (a, b) \<or> pool_assets s (pair_account C a b) = Some (b, a)"
      "0 < total_liquidity s (pair_account C a b)"
    using ok cd by auto
qed

lemma kept_at:
  assumes inv: "xyk_inv C s" and ab: "a < 2 ^ 32" "b < 2 ^ 32"
    and frame: "\<And>c d x. pair_account C c d \<noteq> pair_account C a b \<Longrightarrow>
        free_balance C (xyk_world s') x (pair_account C c d) = free_balance C (xyk_world s) x (pair_account C c d)"
    and storage: "\<And>P. P \<noteq> pair_account C a b \<Longrightarrow> total_liquidity s' P = total_liquidity s P \<and> pool_assets s' P = pool_assets s P"
    and main: "pool_assets s' (pair_account C a b) \<noteq> None \<Longrightarrow> pool_assets s (pair_account C a b) \<noteq> None \<Longrightarrow>
        pool_assets s' (pair_account C a b) = pool_assets s (pair_account C a b) \<and> share_value_kept C (pair_account C a b) a b s s'"
  shows "xyk_kept C s s'"
  unfolding xyk_kept_def
proof (intro allI impI)
  fix P c d assume P: "pool_assets s P = Some (c, d)" "pool_assets s' P \<noteq> None"
  note ok = xyk_inv_pool [OF inv P(1)]
  show "pool_assets s' P = Some (c, d) \<and> share_value_kept C P c d s s'"
  proof (cases "P = pair_account C a b")
    case True
    then have "c = a \<and> d = b \<or> c = b \<and> d = a" using ok ab by (intro pair_account_inj) auto
    then show ?thesis using main P True share_value_kept_commute [of C P a b s s'] by auto
  next
    case False
    then show ?thesis using storage [OF False] frame [of c d] ok(1) P(1) by (simp add: share_value_kept_def)
  qed
qed

lemma trade_kept:
  assumes inv: "xyk_inv C s" and ab: "a < 2 ^ 32" "b < 2 ^ 32" and same: "xyk_same_storage s s'"
    and bal: "\<And>c p q. free_balance C (xyk_world s') c (pair_account C p q) =
        (if pair_account C p q \<noteq> pair_account C a b then free_balance C (xyk_world s) c (pair_account C p q)
         else if c = a then free_balance C (xyk_world s) c (pair_account C p q) + n
         else if c = b then free_balance C (xyk_world s) c (pair_account C p q) - m
         else free_balance C (xyk_world s) c (pair_account C p q))"
    and "a \<noteq> b" and prod: "free_balance C (xyk_world s) a (pair_account C a b) * free_balance C (xyk_world s) b (pair_account C a b) \<le>
        (free_balance C (xyk_world s) a (pair_account C a b) + n) * (free_balance C (xyk_world s) b (pair_account C a b) - m)"
  shows "xyk_kept C s s'"
proof (rule kept_at [OF inv ab])
  show "pool_assets s' (pair_account C a b) = pool_assets s (pair_account C a b) \<and> share_value_kept C (pair_account C a b) a b s s'"
    using same prod assms(6) mult_le_mono1 [OF prod] by (simp add: share_value_kept_def bal xyk_same_storage_def)
qed (use same bal in \<open>auto simp: xyk_same_storage_def\<close>)

lemma sell_kept:
  assumes run: "xyk_call_sell C (Signed who) a b n lim s = Inr s'" and inv: "xyk_inv C s" and who: "no_pool_account C who"
    and ab: "a < 2 ^ 32" "b < 2 ^ 32"
  shows "xyk_same_storage s s' \<and> xyk_kept C s s'"
proof -
  let ?p = "\<lparr>asset_in = a, asset_out = b\<rparr>"
  obtain t where t: "xyk_validate_sell C who ?p n lim s = Inr t" "xyk_execute_sell C t s = Inr s'"
    using run by (auto simp: xyk_call_sell_def res_iff)
  obtain fee out where v: "xyk_exists C ?p s" "out < free_balance C (xyk_world s) b (pair_account C a b)"
      "calculate_out_given_in (free_balance C (xyk_world s) a (pair_account C a b)) (free_balance C (xyk_world s) b (pair_account C a b)) n = Inr out"
      "fee \<le> out" "t = \<lparr>tr_origin = who, tr_assets = ?p, tr_amount = n, tr_amount_b = out - fee, tr_fee = (b, fee)\<rparr>"
    using t(1) by (elim validate_sell_Inr) (auto simp: get_pair_id_def)
  obtain w1 w2 l k p i where e: "transfer C a who (pair_account C a b) n (xyk_world s) = Inr w1"
      "transfer C b (pair_account C a b) who (out - fee) w1 = Inr w2"
      "on_trade C (oracle_source C) a b n (out - fee) l k p i w2 = Inr (xyk_world s')" "xyk_same_storage s s'"
    using t(2) by (elim execute_sell_Inr) (auto simp: v(5) get_pair_id_def)
  have nb: "a \<noteq> b" using exists_distinct(1) [OF inv _ ab] v(1) by (simp add: xyk_exists_def get_pair_id_def)
  have np: "\<And>c d. who \<noteq> pair_account C c d" using who by (simp add: no_pool_account_def)
  let ?r = "free_balance C (xyk_world s) a (pair_account C a b)" and ?q = "free_balance C (xyk_world s) b (pair_account C a b)"
  have "?r * ?q \<le> (?r + n) * (?q - out)" using v(3) by (intro xyk.sell_product) (simp add: xyk_sell_Some)
  also have "\<dots> \<le> (?r + n) * (?q - (out - fee))" by (intro mult_le_mono2) simp
  finally have prod: "?r * ?q \<le> (?r + n) * (?q - (out - fee))" .
  have "xyk_kept C s s'"
    by (rule trade_kept [OF inv ab e(4) _ nb prod])
      (use trade_free [OF e(3)] transfer_in [OF e(1) np] transfer_out [OF e(2) np np] nb in auto)
  then show ?thesis using e(4) by simp
qed

lemma buy_kept:
  assumes run: "xyk_call_buy C (Signed who) b a m lim s = Inr s'" and inv: "xyk_inv C s" and who: "no_pool_account C who"
    and ab: "a < 2 ^ 32" "b < 2 ^ 32"
  shows "xyk_same_storage s s' \<and> xyk_kept C s s'"
proof -
  let ?p = "\<lparr>asset_in = a, asset_out = b\<rparr>"
  obtain t where t: "xyk_validate_buy C who ?p m lim s = Inr t" "xyk_execute_buy C t None s = Inr s'"
    using run by (auto simp: xyk_call_buy_def res_iff)
  obtain fee price where v: "xyk_exists C ?p s" "m < free_balance C (xyk_world s) b (pair_account C a b)"
      "calculate_in_given_out (free_balance C (xyk_world s) b (pair_account C a b)) (free_balance C (xyk_world s) a (pair_account C a b)) m = Inr price"
      "t = \<lparr>tr_origin = who, tr_assets = ?p, tr_amount = m, tr_amount_b = price, tr_fee = (a, fee)\<rparr>"
    using t(1) by (elim validate_buy_Inr) (auto simp: get_pair_id_def)
  obtain w1 w2 l k p i where e: "transfer C b (pair_account C a b) who m (xyk_world s) = Inr w1"
      "transfer C a who (pair_account C a b) (price + fee) w1 = Inr w2"
      "on_trade C (oracle_source C) a b price m l k p i w2 = Inr (xyk_world s')" "xyk_same_storage s s'"
    using t(2) by (elim execute_buy_Inr) (auto simp: v(4) get_pair_id_def)
  have nb: "a \<noteq> b" using exists_distinct(1) [OF inv _ ab] v(1) by (simp add: xyk_exists_def get_pair_id_def)
  have np: "\<And>c d. who \<noteq> pair_account C c d" using who by (simp add: no_pool_account_def)
  let ?r = "free_balance C (xyk_world s) a (pair_account C a b)" and ?q = "free_balance C (xyk_world s) b (pair_account C a b)"
  have "?r * ?q \<le> (?r + price) * (?q - m)" using v(3) by (intro xyk.buy_product) (simp add: xyk_buy_Some)
  also have "\<dots> \<le> (?r + (price + fee)) * (?q - m)" by (intro mult_le_mono1) simp
  finally have prod: "?r * ?q \<le> (?r + (price + fee)) * (?q - m)" .
  have "xyk_kept C s s'"
    by (rule trade_kept [OF inv ab e(4) _ nb prod])
      (use trade_free [OF e(3)] transfer_in [OF e(2) np] transfer_out [OF e(1) np np] nb in auto)
  then show ?thesis using e(4) by simp
qed

lemma add_liquidity_value:
  fixes r q i n m added :: nat
  assumes "calculate_liquidity_in r q n = Inr m" "calculate_shares r n i = Some added"
  shows "(i + added) * r \<le> i * (r + n)" "(i + added) * q \<le> i * (q + m)"
proof -
  have r: "0 < r" and s: "added * r \<le> i * n" using assms(2) by (auto simp: calculate_shares_Some)
  then show "(i + added) * r \<le> i * (r + n)" by (simp add: algebra_simps)
  have nq: "n * q \<le> m * r"
    using assms(1) r less_div_Suc_mult [of r "n * q"] by (auto simp: calculate_liquidity_in_Inr split: if_splits)
  have "(added * q) * r = (added * r) * q" by (simp add: ac_simps)
  also have "\<dots> \<le> (i * n) * q" using s by (rule mult_le_mono1)
  also have "\<dots> = i * (n * q)" by (simp add: ac_simps)
  also have "\<dots> \<le> i * (m * r)" using nq by (rule mult_le_mono2)
  finally have "(added * q) * r \<le> (i * m) * r" by (simp add: ac_simps)
  then have "added * q \<le> i * m" using r by simp
  then show "(i + added) * q \<le> i * (q + m)" by (simp add: algebra_simps)
qed

lemma remove_liquidity_value:
  fixes r i n k :: nat
  assumes "n = k * r div i" "k \<le> i"
  shows "(i - k) * r \<le> i * (r - n)"
proof -
  have "i * n \<le> k * r" unfolding assms(1) by (metis div_mult_le mult.commute)
  then show ?thesis unfolding diff_mult_distrib diff_mult_distrib2 by linarith
qed

lemma add_liquidity_kept:
  assumes run: "xyk_do_add_liquidity C who a b n lim k s = Inr (added, s')" and inv: "xyk_inv C s" and who: "no_pool_account C who"
    and ab: "a < 2 ^ 32" "b < 2 ^ 32"
  shows "xyk_inv C s' \<and> xyk_kept C s s'"
proof -
  let ?P = "pair_account C a b"
  obtain m w1 w2 w3 l j p where st: "share_token s ?P \<noteq> None"
      "calculate_liquidity_in (free_balance C (xyk_world s) a ?P) (free_balance C (xyk_world s) b ?P) n = Inr m"
      "calculate_shares (free_balance C (xyk_world s) a ?P) n (total_liquidity s ?P) = Some added"
    and tr: "transfer C a who ?P n (xyk_world s) = Inr w1" "transfer C b who ?P m w1 = Inr w2" "deposit C (share_token_of ?P s) who added w2 = Inr w3"
      "on_liquidity_changed C (oracle_source C) a b n m l j p (Some (total_liquidity s ?P + added)) w3 = Inr (xyk_world s')"
    and s': "share_token s' = share_token s" "pool_assets s' = pool_assets s"
      "total_liquidity s' = (total_liquidity s)(?P := total_liquidity s ?P + added)"
    using run by (rule add_liquidity_Inr)
  note nb = exists_distinct(1,3) [OF inv st(1) ab]
  have np: "\<And>c d. who \<noteq> pair_account C c d" using who by (simp add: no_pool_account_def)
  have bal: "free_balance C (xyk_world s') c (pair_account C x y) = free_balance C (xyk_world s) c (pair_account C x y) +
      (if pair_account C x y = ?P then if c = a then n else if c = b then m else 0 else 0)" for c x y
    using liquidity_free [OF tr(4)] deposit_other [OF tr(3) np] pool_gains [OF tr(1,2) np nb(1)] by simp
  have "pool_ok C s' P" for P
    using xyk_inv_ok [OF inv, of P] nb(2) by (auto simp: pool_ok_def s' split: option.splits)
  then have "xyk_inv C s'" by (simp add: xyk_inv_def)
  moreover have "xyk_kept C s s'"
    by (rule kept_at [OF inv ab])
      (use nb(1) in \<open>auto simp: bal s' share_value_kept_def intro!: ratio_product add_liquidity_value [OF st(2,3)]\<close>)
  ultimately show ?thesis by simp
qed

lemma remove_liquidity_kept:
  assumes run: "xyk_do_remove_liquidity C who a b k la lb s = Inr s'" and inv: "xyk_inv C s" and who: "no_pool_account C who"
    and ab: "a < 2 ^ 32" "b < 2 ^ 32"
  shows "xyk_inv C s' \<and> xyk_kept C s s'"
proof -
  let ?P = "pair_account C a b"
  obtain n m w1 w2 w3 w4 l j p where st: "share_token s ?P \<noteq> None" "k \<le> total_liquidity s ?P"
      "calculate_liquidity_out (free_balance C (xyk_world s) a ?P) (free_balance C (xyk_world s) b ?P) k (total_liquidity s ?P) = Inr (n, m)"
    and tr: "transfer C a ?P who n (xyk_world s) = Inr w1" "transfer C b ?P who m w1 = Inr w2" "withdraw C (share_token_of ?P s) who k w2 = Inr w3"
      "on_liquidity_changed C (oracle_source C) a b n m l j p (Some (total_liquidity s ?P - k)) w3 = Inr w4"
    and d: "total_liquidity s ?P - k = 0 \<longrightarrow> pool_assets s' = (pool_assets s)(?P := None) \<and> share_token s' = (share_token s)(?P := None) \<and>
       total_liquidity s' = (total_liquidity s)(?P := 0) \<and> (xyk_world s' = w4 \<or> whitelist_remove C ?P w4 = Inr (xyk_world s'))"
    and e: "total_liquidity s ?P - k \<noteq> 0 \<longrightarrow> pool_assets s' = pool_assets s \<and> share_token s' = share_token s \<and>
       total_liquidity s' = (total_liquidity s)(?P := total_liquidity s ?P - k) \<and> xyk_world s' = w4"
    using run by (rule remove_liquidity_Inr)
  note nb = exists_distinct(1,3) [OF inv st(1) ab]
  have np: "\<And>c d. who \<noteq> pair_account C c d" using who by (simp add: no_pool_account_def)
  have w4: "free_balance C (xyk_world s') c x = free_balance C w4 c x" for c x using d e unlist_free by (cases "total_liquidity s ?P - k = 0") auto
  have bal: "free_balance C (xyk_world s') c (pair_account C x y) = free_balance C (xyk_world s) c (pair_account C x y) -
      (if pair_account C x y = ?P then if c = a then n else if c = b then m else 0 else 0)" for c x y
    using liquidity_free [OF tr(4)] withdraw_other [OF tr(3) np] pool_pays [OF tr(1,2) np nb(1)] by (simp add: w4)
  have "pool_ok C s' P" for P
    using xyk_inv_ok [OF inv, of P] nb(2) st(2) d e
    by (cases "total_liquidity s ?P - k = 0") (auto simp: pool_ok_def split: option.splits)
  then have "xyk_inv C s'" by (simp add: xyk_inv_def)
  moreover have "xyk_kept C s s'"
  proof (rule kept_at [OF inv ab])
    assume alive: "pool_assets s' ?P \<noteq> None"
    then have left: "total_liquidity s ?P - k \<noteq> 0" using d by auto
    have nm: "n = k * free_balance C (xyk_world s) a ?P div total_liquidity s ?P" "m = k * free_balance C (xyk_world s) b ?P div total_liquidity s ?P"
      using st(3) by (auto simp: calculate_liquidity_out_Inr mult.commute)
    show "pool_assets s' ?P = pool_assets s ?P \<and> share_value_kept C ?P a b s s'"
      using mp [OF e left] nb(1) st(2) nm by (auto simp: bal share_value_kept_def intro!: ratio_product remove_liquidity_value)
  qed (use bal d e in \<open>cases "total_liquidity s ?P - k = 0"; auto\<close>)+
  ultimately show ?thesis by simp
qed

lemma create_pool_kept:
  assumes run: "create_pool C (Signed who) a n b m s = Inr s'" and inv: "xyk_inv C s" and who: "no_pool_account C who"
    and ab: "a < 2 ^ 32" "b < 2 ^ 32" and min: "0 < min_pool_liquidity C"
  shows "xyk_inv C s' \<and> xyk_kept C s s'"
proof -
  let ?P = "pair_account C a b"
  obtain token w1 w3 w4 w5 where st: "a \<noteq> b" "share_token s ?P = None" "min_pool_liquidity C \<le> n" "min_pool_liquidity C \<le> m"
      and tr: "get_or_register C (pair_name \<lparr>asset_in = a, asset_out = b\<rparr>) (xyk_world s) = Inr (token, w1)"
      "whitelist_add C ?P (on_create_pool C a b w1) = Inr w3" "transfer C a who ?P n w3 = Inr w4" "transfer C b who ?P m w4 = Inr w5"
      "deposit C token who (if a < b then n else m) w5 = Inr (xyk_world s')"
      and s': "share_token s' = (share_token s)(?P \<mapsto> token)" "pool_assets s' = (pool_assets s)(?P \<mapsto> (a, b))"
      "total_liquidity s' = (total_liquidity s)(?P := (if a < b then n else m))"
    using run by (rule create_pool_Inr) auto
  have np: "\<And>c d. who \<noteq> pair_account C c d" using who by (simp add: no_pool_account_def)
  have bal: "free_balance C (xyk_world s') c (pair_account C x y) = free_balance C (xyk_world s) c (pair_account C x y) +
      (if pair_account C x y = ?P then if c = a then n else if c = b then m else 0 else 0)" for c x y
    using deposit_other [OF tr(5) np] pool_gains [OF tr(3,4) np st(1)] whitelist_free [OF tr(2)] register_free [OF tr(1)]
    by (simp add: create_free)
  have "pool_ok C s' P" for P
    using xyk_inv_ok [OF inv, of P] st ab min by (auto simp: pool_ok_def s' split: option.splits)
  then have "xyk_inv C s'" by (simp add: xyk_inv_def)
  moreover have "xyk_kept C s s'"
    by (rule kept_at [OF inv ab]) (use st(2) inv in \<open>auto simp: bal s' xyk_inv_exists\<close>)
  ultimately show ?thesis by simp
qed

end

end
