(* ===== verification/Xyk_Runs.thy ===== *)
theory Xyk_Runs
  imports Xyk_Invariants
begin

text \<open>
  Sequences of XYK calls: every extrinsic as a value of \<open>xyk_call\<close>, the steps of the pallet with those of the rest of
  the runtime, the states reachable from genesis and the runs during which a given pool exists; then the properties,
  on a concrete ledger and account hash for the witnesses.
\<close>

section \<open>Calls and runs\<close>

datatype xyk_call =
    Call_create_pool asset_id balance asset_id balance
  | Call_add_liquidity asset_id asset_id balance balance
  | Call_add_liquidity_with_limits asset_id asset_id balance balance balance
  | Call_remove_liquidity asset_id asset_id balance
  | Call_remove_liquidity_with_limits asset_id asset_id balance balance balance
  | Call_sell asset_id asset_id balance balance
  | Call_buy asset_id asset_id balance balance

fun xyk_dispatch :: "('w, 'z) xyk_config_scheme \<Rightarrow> origin \<Rightarrow> xyk_call \<Rightarrow> 'w xyk \<Rightarrow> 'w xyk xyk_result" where
  "xyk_dispatch C orig (Call_create_pool a n b m) s = create_pool C orig a n b m s"
| "xyk_dispatch C orig (Call_add_liquidity a b n lim) s = xyk_add_liquidity C orig a b n lim s"
| "xyk_dispatch C orig (Call_add_liquidity_with_limits a b n lim k) s = xyk_add_liquidity_with_limits C orig a b n lim k s"
| "xyk_dispatch C orig (Call_remove_liquidity a b k) s = xyk_remove_liquidity C orig a b k s"
| "xyk_dispatch C orig (Call_remove_liquidity_with_limits a b k la lb) s = xyk_remove_liquidity_with_limits C orig a b k la lb s"
| "xyk_dispatch C orig (Call_sell a b n lim) s = xyk_call_sell C orig a b n lim s"
| "xyk_dispatch C orig (Call_buy a b n lim) s = xyk_call_buy C orig a b n lim s"

fun xyk_call_assets :: "xyk_call \<Rightarrow> asset_id \<times> asset_id" where
  "xyk_call_assets (Call_create_pool a n b m) = (a, b)"
| "xyk_call_assets (Call_add_liquidity a b n lim) = (a, b)"
| "xyk_call_assets (Call_add_liquidity_with_limits a b n lim k) = (a, b)"
| "xyk_call_assets (Call_remove_liquidity a b k) = (a, b)"
| "xyk_call_assets (Call_remove_liquidity_with_limits a b k la lb) = (a, b)"
| "xyk_call_assets (Call_sell a b n lim) = (a, b)"
| "xyk_call_assets (Call_buy a b n lim) = (a, b)"

text \<open>Identifiers are \<open>u32\<close>; nobody holds the key of a pool account.\<close>

definition xyk_admissible :: "('w, 'z) xyk_config_scheme \<Rightarrow> account_id \<Rightarrow> xyk_call \<Rightarrow> bool" where
  "xyk_admissible C who c \<longleftrightarrow> no_pool_account C who \<and> fst (xyk_call_assets c) < 2 ^ 32 \<and> snd (xyk_call_assets c) < 2 ^ 32"

text \<open>The rest of the runtime may give to a pool and never takes from it.\<close>

inductive xyk_step :: "('w, 'z) xyk_config_scheme \<Rightarrow> 'w xyk \<Rightarrow> 'w xyk \<Rightarrow> bool" for C :: "('w, 'z) xyk_config_scheme" where
  call: "xyk_dispatch C (Signed who) c s = Inr s' \<Longrightarrow> xyk_admissible C who c \<Longrightarrow> xyk_step C s s'"
| world_moves: "(\<And>P a. pool_assets s P \<noteq> None \<Longrightarrow> free_balance C (xyk_world s) a P \<le> free_balance C w a P) \<Longrightarrow>
     xyk_step C s (s\<lparr>xyk_world := w\<rparr>)"

inductive xyk_reach :: "('w, 'z) xyk_config_scheme \<Rightarrow> 'w xyk \<Rightarrow> 'w xyk \<Rightarrow> bool" for C :: "('w, 'z) xyk_config_scheme" where
  here: "xyk_reach C s s"
| step: "xyk_reach C s s' \<Longrightarrow> xyk_step C s' s'' \<Longrightarrow> xyk_reach C s s''"

text \<open>\<open>xyk_alive C P\<close>: a run during which the pool at \<open>P\<close> exists all along.\<close>

inductive xyk_alive :: "('w, 'z) xyk_config_scheme \<Rightarrow> account_id \<Rightarrow> 'w xyk \<Rightarrow> 'w xyk \<Rightarrow> bool"
  for C :: "('w, 'z) xyk_config_scheme" and P where
  here: "pool_assets s P \<noteq> None \<Longrightarrow> xyk_alive C P s s"
| step: "xyk_alive C P s s' \<Longrightarrow> xyk_step C s' s'' \<Longrightarrow> pool_assets s'' P \<noteq> None \<Longrightarrow> xyk_alive C P s s''"

definition xyk_genesis :: "'w \<Rightarrow> broadcast \<Rightarrow> 'w xyk" where
  "xyk_genesis w b = \<lparr>share_token = Map.empty, total_liquidity = (\<lambda>_. 0), pool_assets = Map.empty,
     xyk_events = [], xyk_broadcast = b, xyk_world = w\<rparr>"

lemma xyk_genesis_inv: "xyk_inv C (xyk_genesis w b)"
  by (simp add: xyk_inv_def pool_ok_def xyk_genesis_def)

lemma pool_ok_cong:
  "share_token s' P = share_token s P \<Longrightarrow> total_liquidity s' P = total_liquidity s P \<Longrightarrow> pool_assets s' P = pool_assets s P \<Longrightarrow>
     pool_ok C s' P = pool_ok C s P"
  by (cases "pool_assets s P") (auto simp: pool_ok_def)

lemma same_storage_inv: "xyk_same_storage s s' \<Longrightarrow> xyk_inv C s \<Longrightarrow> xyk_inv C s'"
  using pool_ok_cong [of s' _ s C] by (simp add: xyk_same_storage_def xyk_inv_def)

context xyk_env
begin

lemma step_kept:
  assumes "xyk_step C s s'" "xyk_inv C s" "0 < min_pool_liquidity C"
  shows "xyk_inv C s' \<and> xyk_kept C s s'"
  using assms(1)
proof cases
  case (call who c)
  have ok: "no_pool_account C who" "fst (xyk_call_assets c) < 2 ^ 32" "snd (xyk_call_assets c) < 2 ^ 32"
    using call(2) by (auto simp: xyk_admissible_def)
  show ?thesis
  proof (cases c)
    case (Call_create_pool a n b m)
    then show ?thesis using create_pool_kept [OF _ assms(2) ok(1) _ _ assms(3)] call(1) ok(2,3) by simp
  next
    case (Call_add_liquidity a b n lim)
    then obtain k where "xyk_do_add_liquidity C who a b n lim 0 s = Inr (k, s')"
      using call(1) by (auto simp: xyk_add_liquidity_def res_iff)
    then show ?thesis using add_liquidity_kept [OF _ assms(2) ok(1)] ok(2,3) Call_add_liquidity by simp
  next
    case (Call_add_liquidity_with_limits a b n lim l)
    then obtain k where "xyk_do_add_liquidity C who a b n lim l s = Inr (k, s')"
      using call(1) by (auto simp: xyk_add_liquidity_with_limits_def res_iff)
    then show ?thesis using add_liquidity_kept [OF _ assms(2) ok(1)] ok(2,3) Call_add_liquidity_with_limits by simp
  next
    case (Call_remove_liquidity a b k)
    then have "xyk_do_remove_liquidity C who a b k 0 0 s = Inr s'" using call(1) by (auto simp: xyk_remove_liquidity_def res_iff)
    then show ?thesis using remove_liquidity_kept [OF _ assms(2) ok(1)] ok(2,3) Call_remove_liquidity by simp
  next
    case (Call_remove_liquidity_with_limits a b k la lb)
    then have "xyk_do_remove_liquidity C who a b k la lb s = Inr s'"
      using call(1) by (auto simp: xyk_remove_liquidity_with_limits_def res_iff)
    then show ?thesis using remove_liquidity_kept [OF _ assms(2) ok(1)] ok(2,3) Call_remove_liquidity_with_limits by simp
  next
    case (Call_sell a b n lim)
    then have "xyk_same_storage s s' \<and> xyk_kept C s s'" using sell_kept [OF _ assms(2) ok(1)] call(1) ok(2,3) by simp
    then show ?thesis using same_storage_inv assms(2) by blast
  next
    case (Call_buy b a n lim)
    then have "xyk_same_storage s s' \<and> xyk_kept C s s'" using buy_kept [OF _ assms(2) ok(1)] call(1) ok(2,3) by simp
    then show ?thesis using same_storage_inv assms(2) by blast
  qed
next
  case (world_moves w)
  have "xyk_kept C s s'" unfolding xyk_kept_def share_value_kept_def
    using world_moves by (auto intro!: mult_le_mono)
  moreover have "xyk_same_storage s s'" using world_moves(1) by (simp add: xyk_same_storage_def)
  ultimately show ?thesis using same_storage_inv assms(2) by blast
qed

lemma reach_inv: "xyk_reach C s s' \<Longrightarrow> xyk_inv C s \<Longrightarrow> 0 < min_pool_liquidity C \<Longrightarrow> xyk_inv C s'"
  by (induction rule: xyk_reach.induct) (auto dest: step_kept)

lemma alive_kept:
  assumes "xyk_alive C P s s'" "xyk_inv C s" "pool_assets s P = Some (a, b)" "0 < min_pool_liquidity C"
  shows "xyk_inv C s' \<and> pool_assets s' P = Some (a, b) \<and> share_value_kept C P a b s s'"
  using assms
proof (induction rule: xyk_alive.induct)
  case (here s)
  then show ?case by (simp add: share_value_kept_def)
next
  case (step s s' s'')
  then have IH: "xyk_inv C s'" "pool_assets s' P = Some (a, b)" "share_value_kept C P a b s s'" by auto
  have st: "xyk_inv C s''" "xyk_kept C s' s''" using step_kept [OF step.hyps(2) IH(1) step.prems(3)] by auto
  have "pool_assets s'' P = Some (a, b)" "share_value_kept C P a b s' s''" using st(2) IH(2) step.hyps(3) by (auto simp: xyk_kept_def)
  moreover have "0 < total_liquidity s' P" using IH(1,2) by (rule xyk_inv_pool)
  ultimately show ?case using IH(3) st(1) product_chain unfolding share_value_kept_def by blast
qed

end

section \<open>A ledger, a registry and a hash\<close>

definition bytes_value :: "nat list \<Rightarrow> nat" where
  "bytes_value xs = foldr (\<lambda>b n. b + 256 * n) xs 0"

lemma bytes_value_inj:
  "length xs = length ys \<Longrightarrow> \<forall>x\<in>set xs. x < 256 \<Longrightarrow> \<forall>x\<in>set ys. x < 256 \<Longrightarrow> bytes_value xs = bytes_value ys \<Longrightarrow> xs = ys"
proof (induction xs ys rule: list_induct2)
  case (Cons x xs y ys)
  then have eq: "x + 256 * bytes_value xs = y + 256 * bytes_value ys" and lt: "x < 256" "y < 256" by (auto simp: bytes_value_def)
  then have "(x + 256 * bytes_value xs) mod 256 = (y + 256 * bytes_value ys) mod 256" by simp
  then have "x = y" using lt by simp
  then show ?case using eq Cons by simp
qed simp

lemma pair_seed_bytes: "length (pair_seed a b) = 11" "\<forall>x\<in>set (pair_seed a b). x < 256"
  by (simp_all add: pair_seed_def le_bytes_def)

definition std_xyk_config :: "ledger xyk_config" where
  "std_xyk_config = \<lparr>
     free_balance = ledger_free, total_balance = ledger_free, can_withdraw = (\<lambda>l a x n. n \<le> ledger_free l a x),
     transfer = ledger_transfer, deposit = ledger_deposit, withdraw = ledger_withdraw,
     get_or_register = (\<lambda>name w. Inr (10, w)), string_limit = 20, account_hash = (\<lambda>bs. 1000 + bytes_value bs),
     exchange_fee = (3, 1000), min_trading_limit = 10, min_pool_liquidity = 100, max_in_ratio = 3, max_out_ratio = 3,
     oracle_source = 0, can_create = (\<lambda>_ _ _. True), on_create_pool = (\<lambda>_ _ w. w),
     on_trade = (\<lambda>_ _ _ _ _ _ _ _ _ w. Inr w), on_liquidity_changed = (\<lambda>_ _ _ _ _ _ _ _ _ w. Inr w),
     whitelist_add = (\<lambda>_ w. Inr w), whitelist_remove = (\<lambda>_ w. Inr w)\<rparr>"

lemma std_xyk_config_sel [simp]:
  "free_balance std_xyk_config = ledger_free" "total_balance std_xyk_config = ledger_free"
  "transfer std_xyk_config = ledger_transfer" "deposit std_xyk_config = ledger_deposit" "withdraw std_xyk_config = ledger_withdraw"
  "get_or_register std_xyk_config = (\<lambda>name w. Inr (10, w))" "string_limit std_xyk_config = 20"
  "account_hash std_xyk_config = (\<lambda>bs. 1000 + bytes_value bs)" "exchange_fee std_xyk_config = (3, 1000)"
  "min_trading_limit std_xyk_config = 10" "min_pool_liquidity std_xyk_config = 100" "max_in_ratio std_xyk_config = 3"
  "max_out_ratio std_xyk_config = 3" "can_create std_xyk_config = (\<lambda>_ _ _. True)" "on_create_pool std_xyk_config = (\<lambda>_ _ w. w)"
  "on_trade std_xyk_config = (\<lambda>_ _ _ _ _ _ _ _ _ w. Inr w)" "on_liquidity_changed std_xyk_config = (\<lambda>_ _ _ _ _ _ _ _ _ w. Inr w)"
  "whitelist_add std_xyk_config = (\<lambda>_ w. Inr w)" "whitelist_remove std_xyk_config = (\<lambda>_ w. Inr w)"
  by (simp_all add: std_xyk_config_def)

interpretation std_xyk: xyk_env std_xyk_config
proof (unfold_locales, goal_cases)
  case (1 a b w c x)
  show ?case by (simp add: ledger_free_def)
next
  case (2 a b c src dst n w w' d)
  then show ?case using std_ledger.transfer_pool [of c src dst n w w' d "pair_account std_xyk_config a b"] by simp
next
  case (3 a b c dst n w w')
  then show ?case using std_ledger.transfer_enough [of c "pair_account std_xyk_config a b" dst n w w'] by simp
next
  case (4 a b c n w w' d)
  then show ?case using std_ledger.deposit_pool [of c "pair_account std_xyk_config a b" n w w' d] by simp
next
  case (5 a b c n w w' d)
  then show ?case using std_ledger.withdraw_pool [of c "pair_account std_xyk_config a b" n w w' d] by simp
next
  case (6 a b c n w w')
  then show ?case using std_ledger.withdraw_enough [of c "pair_account std_xyk_config a b" n w w'] by simp
next
  case (7 a b c d)
  then have "bytes_value (pair_seed a b) = bytes_value (pair_seed c d)" by simp
  then show ?case using bytes_value_inj pair_seed_bytes by metis
next
  case (8 t x n w w' a b c)
  then show ?case by (simp add: ledger_deposit_free)
next
  case (9 t x n w w' a b c)
  then show ?case using ledger_withdraw_free [of t x n w w' c "pair_account std_xyk_config a b"] by simp
qed auto

definition sample_ledger :: ledger where
  "sample_ledger k = (if snd k = 7 then 10000 else 0)"

definition sample_broadcast :: broadcast where
  "sample_broadcast = \<lparr>incremental_id = 0, execution_context = [], swapper = None, swapped_events = []\<rparr>"

definition sample_pair_account :: account_id where
  "sample_pair_account = 1000 + bytes_value (pair_seed 1 2)"

lemma sample_pair_account: "pair_account std_xyk_config 1 2 = sample_pair_account" "pair_account std_xyk_config (Suc 0) 2 = sample_pair_account"
  "7 \<noteq> sample_pair_account" "sample_pair_account \<noteq> 7"
  by (simp_all add: pair_account_seed sample_pair_account_def)

lemma std_no_pool: "x < 1000 \<Longrightarrow> no_pool_account std_xyk_config x"
  by (auto simp: no_pool_account_def pair_account_seed)

lemmas xyk_eval = Let_def get_pair_id_def xyk_exists_def share_token_of_def sample_pair_account ledger_transfer_def ledger_withdraw_def
  ledger_deposit_def ledger_free_def ensure_signed_def xyk_emit_def xyk_calculate_fee_def calculate_pool_trade_fee_def map_math_def
  calculate_out_given_in_def math_lib_eval pair_name_def ordered_pair_def le_bytes_def

lemma sample_create:
  "\<exists>s. create_pool std_xyk_config (Signed 7) 1 1000 2 2000 (xyk_genesis sample_ledger sample_broadcast) = Inr s \<and>
     pool_assets s sample_pair_account = Some (1, 2) \<and> total_liquidity s sample_pair_account = 1000 \<and>
     share_token s sample_pair_account = Some 10 \<and>
     xyk_world s = sample_ledger((1, 7) := 9000, (1, sample_pair_account) := 1000, (2, 7) := 8000, (2, sample_pair_account) := 2000, (10, 7) := 11000)"
  by (simp add: create_pool_def xyk_genesis_def xyk_eval sample_ledger_def)

lemma sample_xyk_sell:
  assumes "share_token s sample_pair_account = Some 10" "total_liquidity s sample_pair_account = 1000" "pool_assets s sample_pair_account = Some (1, 2)"
    "xyk_world s = sample_ledger((1, 7) := 9000, (1, sample_pair_account) := 1000, (2, 7) := 8000, (2, sample_pair_account) := 2000, (10, 7) := 11000)"
  shows "\<exists>s'. xyk_call_sell std_xyk_config (Signed 7) 1 2 100 0 s = Inr s' \<and> pool_assets s' sample_pair_account = Some (1, 2) \<and>
     total_liquidity s' sample_pair_account = 1000 \<and> ledger_free (xyk_world s') 1 sample_pair_account = 1100 \<and>
     ledger_free (xyk_world s') 2 sample_pair_account = 1819"
  using assms
  by (simp add: xyk_call_sell_def xyk_validate_sell_def xyk_execute_sell_def xyk_eval sample_ledger_def)

section \<open>Properties\<close>

text \<open>
  (C22) The storage of the pallet is well formed in every state that calls and the rest of the runtime can reach: the maps
  of share tokens, pool assets and total liquidity describe the same pools, each pool is stored at the account of its
  pair of two different assets, and it has shares.
\<close>

theorem xyk_storage_well_formed:
  assumes "xyk_env C" "xyk_reach C (xyk_genesis w b) s" "0 < min_pool_liquidity C"
  shows "\<forall>P. case pool_assets s P of
           None \<Rightarrow> share_token s P = None \<and> total_liquidity s P = 0
         | Some (x, y) \<Rightarrow> P = get_pair_id C \<lparr>asset_in = x, asset_out = y\<rparr> \<and> x \<noteq> y \<and> xyk_exists C \<lparr>asset_in = y, asset_out = x\<rparr> s \<and>
             0 < total_liquidity s P"
proof -
  have inv: "xyk_inv C s" using xyk_env.reach_inv [OF assms(1,2) xyk_genesis_inv assms(3)] .
  show ?thesis
  proof
    fix P
    show "case pool_assets s P of
        None \<Rightarrow> share_token s P = None \<and> total_liquidity s P = 0
      | Some (x, y) \<Rightarrow> P = get_pair_id C \<lparr>asset_in = x, asset_out = y\<rparr> \<and> x \<noteq> y \<and> xyk_exists C \<lparr>asset_in = y, asset_out = x\<rparr> s \<and>
          0 < total_liquidity s P"
      using xyk_inv_ok [OF inv, of P] pair_account_commute [of C]
      by (cases "pool_assets s P") (auto simp: pool_ok_def xyk_exists_def get_pair_id_def)
  qed
qed

theorem xyk_storage_well_formed_witness:
  "\<exists>s. create_pool std_xyk_config (Signed 7) 1 1000 2 2000 (xyk_genesis sample_ledger sample_broadcast) = Inr s \<and>
     pool_assets s sample_pair_account = Some (1, 2) \<and> xyk_exists std_xyk_config \<lparr>asset_in = 2, asset_out = 1\<rparr> s"
proof -
  obtain s where s: "create_pool std_xyk_config (Signed 7) 1 1000 2 2000 (xyk_genesis sample_ledger sample_broadcast) = Inr s"
      "pool_assets s sample_pair_account = Some (1, 2)"
    using sample_create by blast
  have "xyk_step std_xyk_config (xyk_genesis sample_ledger sample_broadcast) s"
    using s(1) by (intro xyk_step.call [where c = "Call_create_pool 1 1000 2 2000" and who = 7]) (simp_all add: xyk_admissible_def std_no_pool)
  then have "xyk_reach std_xyk_config (xyk_genesis sample_ledger sample_broadcast) s" by (metis xyk_reach.intros)
  from spec [OF xyk_storage_well_formed [OF std_xyk.xyk_env_axioms this], of sample_pair_account] show ?thesis using s by auto
qed

text \<open>
  (C5) No sequence of calls lowers the value of a pool's shares: as long as a pool exists, whatever is traded, added and
  removed by whomever, the product of its reserves over the square of its issuance never falls. In particular
  the rounding of share amounts, withdrawals, quotes and fees never works against the liquidity providers.
\<close>

theorem xyk_share_value_never_falls:
  assumes "xyk_env C" "0 < min_pool_liquidity C" "xyk_reach C (xyk_genesis w bc) s" "xyk_alive C P s s'" "pool_assets s P = Some (a, b)"
  shows "free_balance C (xyk_world s) a P * free_balance C (xyk_world s) b P * (total_liquidity s' P)\<^sup>2
           \<le> free_balance C (xyk_world s') a P * free_balance C (xyk_world s') b P * (total_liquidity s P)\<^sup>2"
proof -
  have "xyk_inv C s" using xyk_env.reach_inv [OF assms(1,3) xyk_genesis_inv assms(2)] .
  then show ?thesis using xyk_env.alive_kept [OF assms(1,4) _ assms(5,2)] by (simp add: share_value_kept_def)
qed

theorem xyk_share_value_never_falls_witness:
  "\<exists>s s'. create_pool std_xyk_config (Signed 7) 1 1000 2 2000 (xyk_genesis sample_ledger sample_broadcast) = Inr s \<and>
     xyk_call_sell std_xyk_config (Signed 7) 1 2 100 0 s = Inr s' \<and> (1000 :: nat) * 2000 * 1000\<^sup>2 \<le> 1100 * 1819 * 1000\<^sup>2"
proof -
  obtain s where s: "create_pool std_xyk_config (Signed 7) 1 1000 2 2000 (xyk_genesis sample_ledger sample_broadcast) = Inr s"
      "pool_assets s sample_pair_account = Some (1, 2)" "total_liquidity s sample_pair_account = 1000" "share_token s sample_pair_account = Some 10"
      "xyk_world s = sample_ledger((1, 7) := 9000, (1, sample_pair_account) := 1000, (2, 7) := 8000, (2, sample_pair_account) := 2000, (10, 7) := 11000)"
    using sample_create by blast
  obtain s' where s': "xyk_call_sell std_xyk_config (Signed 7) 1 2 100 0 s = Inr s'" "pool_assets s' sample_pair_account = Some (1, 2)"
      "total_liquidity s' sample_pair_account = 1000" "ledger_free (xyk_world s') 1 sample_pair_account = 1100" "ledger_free (xyk_world s') 2 sample_pair_account = 1819"
    using sample_xyk_sell [OF s(4,3,2,5)] by blast
  have "xyk_step std_xyk_config (xyk_genesis sample_ledger sample_broadcast) s"
    using s(1) by (intro xyk_step.call [where c = "Call_create_pool 1 1000 2 2000" and who = 7]) (simp_all add: xyk_admissible_def std_no_pool)
  then have reach: "xyk_reach std_xyk_config (xyk_genesis sample_ledger sample_broadcast) s" by (metis xyk_reach.intros)
  have "xyk_step std_xyk_config s s'"
    using s'(1) by (intro xyk_step.call [where c = "Call_sell 1 2 100 0" and who = 7]) (simp_all add: xyk_admissible_def std_no_pool)
  then have "xyk_alive std_xyk_config sample_pair_account s s'" using s(2) s'(2) by (metis xyk_alive.intros option.distinct(1))
  from xyk_share_value_never_falls [OF std_xyk.xyk_env_axioms _ reach this s(2)] show ?thesis
    using s s' by (auto simp: ledger_free_def umax_def)
qed

end
