(* ===== verification/Xyk_Router.thy ===== *)
theory Xyk_Router
  imports Xyk_Runs Router_Types
begin

text \<open>
  The XYK pools as the route executor sees them (\<open>pallets/xyk/src/trade_execution.rs\<close>) and as price
  providers (\<open>impls.rs\<close>), with what a trade means for the trader's account and for the quotes of other pools.
\<close>

type_synonym 'a xyk_executor = "xyk_error dispatch_error executor_error + 'a"

section \<open>Trade execution\<close>

definition xyk_out_given_in ::
    "('w, 'z) xyk_config_scheme \<Rightarrow> pool_type \<Rightarrow> asset_id \<Rightarrow> asset_id \<Rightarrow> balance \<Rightarrow> 'w xyk \<Rightarrow> balance xyk_executor" where
  "xyk_out_given_in C pool a_in a_out amount_in s =
     ensure (pool = Pool_XYK) NotSupported (
     let assets = \<lparr>asset_in = a_in, asset_out = a_out\<rparr> in
     ensure (xyk_exists C assets s) (Executor_Error (Module TokenPoolNotFound)) (
     let pair_account = get_pair_id C assets;
         asset_in_reserve = free_balance C (xyk_world s) a_in pair_account;
         asset_out_reserve = free_balance C (xyk_world s) a_out pair_account
     in
     tryR (executor (map_math SellAssetAmountInvalid (calculate_out_given_in asset_in_reserve asset_out_reserve amount_in))) (\<lambda>amount_out.
     ensure (amount_out < asset_out_reserve) (Executor_Error (Module InsufficientPoolAssetBalance)) (
     tryR (executor (xyk_calculate_fee C amount_out)) (\<lambda>transfer_fee.
     ok_or (checked_sub amount_out transfer_fee) (Executor_Error (Module SellAssetAmountInvalid)))))))"

definition xyk_in_given_out ::
    "('w, 'z) xyk_config_scheme \<Rightarrow> pool_type \<Rightarrow> asset_id \<Rightarrow> asset_id \<Rightarrow> balance \<Rightarrow> 'w xyk \<Rightarrow> balance xyk_executor" where
  "xyk_in_given_out C pool a_in a_out amount_out s =
     ensure (pool = Pool_XYK) NotSupported (
     let assets = \<lparr>asset_in = a_in, asset_out = a_out\<rparr> in
     ensure (xyk_exists C assets s) (Executor_Error (Module TokenPoolNotFound)) (
     let pair_account = get_pair_id C assets;
         asset_out_reserve = free_balance C (xyk_world s) a_out pair_account;
         asset_in_reserve = free_balance C (xyk_world s) a_in pair_account
     in
     ensure (amount_out < asset_out_reserve) (Executor_Error (Module InsufficientPoolAssetBalance)) (
     ensure (min_trading_limit C \<le> amount_out) (Executor_Error (Module InsufficientTradingAmount)) (
     tryR (executor (map_math BuyAssetAmountInvalid (calculate_in_given_out asset_out_reserve asset_in_reserve amount_out))) (\<lambda>amount_in.
     tryR (executor (xyk_calculate_fee C amount_in)) (\<lambda>transfer_fee.
     ok_or (checked_add 128 amount_in transfer_fee) (Executor_Error (Module BuyAssetAmountInvalid))))))))"

definition xyk_router_sell ::
    "('w, 'z) xyk_config_scheme \<Rightarrow> origin \<Rightarrow> pool_type \<Rightarrow> asset_id \<Rightarrow> asset_id \<Rightarrow> balance \<Rightarrow> balance \<Rightarrow> 'w xyk \<Rightarrow> 'w xyk xyk_executor" where
  "xyk_router_sell C who pool a_in a_out amount_in min_limit s =
     ensure (pool = Pool_XYK) NotSupported (executor (xyk_call_sell C who a_in a_out amount_in min_limit s))"

definition xyk_router_buy ::
    "('w, 'z) xyk_config_scheme \<Rightarrow> origin \<Rightarrow> pool_type \<Rightarrow> asset_id \<Rightarrow> asset_id \<Rightarrow> balance \<Rightarrow> balance \<Rightarrow> 'w xyk \<Rightarrow> 'w xyk xyk_executor" where
  "xyk_router_buy C who pool a_in a_out amount_out max_limit s =
     ensure (pool = Pool_XYK) NotSupported (executor (xyk_call_buy C who a_out a_in amount_out max_limit s))"

definition xyk_liquidity_depth ::
    "('w, 'z) xyk_config_scheme \<Rightarrow> pool_type \<Rightarrow> asset_id \<Rightarrow> asset_id \<Rightarrow> 'w xyk \<Rightarrow> balance xyk_executor" where
  "xyk_liquidity_depth C pool asset_a asset_b s =
     ensure (pool = Pool_XYK) NotSupported (
     let pair_account = get_pair_id C \<lparr>asset_in = asset_a, asset_out = asset_b\<rparr> in
     Inr (free_balance C (xyk_world s) asset_a pair_account))"

definition xyk_spot_price_with_fee ::
    "arith \<Rightarrow> ('w, 'z) xyk_config_scheme \<Rightarrow> pool_type \<Rightarrow> asset_id \<Rightarrow> asset_id \<Rightarrow> 'w xyk \<Rightarrow> nat xyk_executor" where
  "xyk_spot_price_with_fee A C pool asset_a asset_b s =
     ensure (pool = Pool_XYK) NotSupported (
     let pair_account = get_pair_id C \<lparr>asset_in = asset_b, asset_out = asset_a\<rparr>;
         asset_a_reserve = free_balance C (xyk_world s) asset_a pair_account;
         asset_b_reserve = free_balance C (xyk_world s) asset_b pair_account
     in
     case calculate_spot_price_with_fee A asset_a_reserve asset_b_reserve (Some (exchange_fee C)) of
       None \<Rightarrow> Inl (Executor_Error (Module Xyk_Panicked))
     | Some (Inl _) \<Rightarrow> Inl (Executor_Error (Arithmetic Arith_Overflow))
     | Some (Inr p) \<Rightarrow> ok_or (fx_reciprocal A p) (Executor_Error Corruption))"

text \<open>The spot price provider of \<open>impls.rs\<close>.\<close>

definition xyk_pair_exists :: "('w, 'z) xyk_config_scheme \<Rightarrow> asset_id \<Rightarrow> asset_id \<Rightarrow> 'w xyk \<Rightarrow> bool" where
  "xyk_pair_exists C asset_a asset_b s = xyk_exists C \<lparr>asset_in = asset_b, asset_out = asset_a\<rparr> s"

definition xyk_spot_price :: "arith \<Rightarrow> ('w, 'z) xyk_config_scheme \<Rightarrow> asset_id \<Rightarrow> asset_id \<Rightarrow> 'w xyk \<Rightarrow> nat option" where
  "xyk_spot_price A C asset_a asset_b s =
     (if xyk_pair_exists C asset_a asset_b s then
        let pair_account = get_pair_id C \<lparr>asset_in = asset_b, asset_out = asset_a\<rparr>;
            asset_a_reserve = free_balance C (xyk_world s) asset_a pair_account;
            asset_b_reserve = free_balance C (xyk_world s) asset_b pair_account
        in fx_checked_from_rational A asset_a_reserve asset_b_reserve
      else None)"

section \<open>What a trade means for the trader\<close>

text \<open>The quotes of a pair depend on its share token and its reserves only.\<close>

lemma xyk_quotes_cong:
  assumes "share_token s' (pair_account C a b) = share_token s (pair_account C a b)"
    "\<And>c. free_balance C (xyk_world s') c (pair_account C a b) = free_balance C (xyk_world s) c (pair_account C a b)"
  shows "xyk_out_given_in C p a b n s' = xyk_out_given_in C p a b n s" "xyk_in_given_out C p a b n s' = xyk_in_given_out C p a b n s"
  using assms by (simp_all add: xyk_out_given_in_def xyk_in_given_out_def xyk_exists_def get_pair_id_def)

context xyk_env
begin

lemma exists_not_same:
  assumes "xyk_inv C s" "share_token s (pair_account C a b) \<noteq> None"
  shows "a \<noteq> b"
proof
  assume "a = b"
  from assms obtain c d where cd: "pool_assets s (pair_account C a b) = Some (c, d)" by (auto simp: xyk_inv_exists)
  note ok = xyk_inv_pool [OF assms(1) cd]
  have "pair_seed a b = pair_seed c d" using ok(1) hash_inj by (simp add: pair_account_seed)
  then have "le_bytes (min c d) = le_bytes (max c d)" using \<open>a = b\<close> by (simp add: pair_seed_def le_bytes_def)
  then have "min c d = max c d" using ok(3,4) by (intro le_bytes_inj) (simp_all add: min_def max_def)
  then show False using ok(2) by (simp add: min_def max_def split: if_splits)
qed

text \<open>
  A trade runs at its quote, moves the two amounts between the trader and the pool, and touches neither the storage
  of the pools nor the context nor the balances of anybody else.
\<close>

lemma xyk_sell_swaps:
  assumes run: "xyk_call_sell C (Signed T) a b n l s = Inr s'" and inv: "xyk_inv C s" and T: "no_pool_account C T"
  shows "\<exists>m. l \<le> m \<and> xyk_out_given_in C Pool_XYK a b n s = Inr m \<and> a \<noteq> b \<and>
     (\<forall>z. pool_ledger C z \<longrightarrow> z \<noteq> pair_account C a b \<longrightarrow> swapped C z T a n b m (xyk_world s) (xyk_world s'))"
proof -
  let ?p = "\<lparr>asset_in = a, asset_out = b\<rparr>" and ?P = "pair_account C a b"
  from run obtain t where t: "xyk_validate_sell C T ?p n l s = Inr t" "xyk_execute_sell C t s = Inr s'"
    by (auto simp: xyk_call_sell_def res_iff)
  from t(1) obtain fee out where v: "xyk_exists C ?p s" "out < free_balance C (xyk_world s) b ?P"
      "calculate_out_given_in (free_balance C (xyk_world s) a ?P) (free_balance C (xyk_world s) b ?P) n = Inr out"
      "calculate_pool_trade_fee out (exchange_fee C) = Some fee" "fee \<le> out" "l \<le> out - fee"
      "t = \<lparr>tr_origin = T, tr_assets = ?p, tr_amount = n, tr_amount_b = out - fee, tr_fee = (b, fee)\<rparr>"
    by (rule validate_sell_Inr) (simp add: get_pair_id_def)
  from t(2) obtain w1 w2 l' k p i where e: "transfer C a T ?P n (xyk_world s) = Inr w1" "transfer C b ?P T (out - fee) w1 = Inr w2"
      "on_trade C (oracle_source C) a b n (out - fee) l' k p i w2 = Inr (xyk_world s')"
    by (rule execute_sell_Inr) (simp add: v(7) get_pair_id_def)
  have ab: "a \<noteq> b" using exists_not_same [OF inv, of a b] v(1) by (simp add: xyk_exists_def get_pair_id_def)
  have q: "xyk_out_given_in C Pool_XYK a b n s = Inr (out - fee)"
    using v by (simp add: xyk_out_given_in_def xyk_calculate_fee_def get_pair_id_def Let_def checked_sub_def)
  have "swapped C z T a n b (out - fee) (xyk_world s) (xyk_world s')" if "pool_ledger C z" "z \<noteq> ?P" for z
    using swapped_cong [OF pool_ledger.swap_at [OF that(1) e(1,2) that(2) _ ab]] T trade_free [OF e(3)] by (simp add: no_pool_account_def)
  then show ?thesis using ab q v(6) by blast
qed

lemma xyk_buy_swaps:
  assumes run: "xyk_call_buy C (Signed T) b a m l s = Inr s'" and inv: "xyk_inv C s" and T: "no_pool_account C T"
  shows "\<exists>n. n \<le> l \<and> xyk_in_given_out C Pool_XYK a b m s = Inr n \<and> a \<noteq> b \<and>
     (\<forall>z. pool_ledger C z \<longrightarrow> z \<noteq> pair_account C a b \<longrightarrow> swapped C z T a n b m (xyk_world s) (xyk_world s'))"
proof -
  let ?p = "\<lparr>asset_in = a, asset_out = b\<rparr>" and ?P = "pair_account C a b"
  from run obtain t where t: "xyk_validate_buy C T ?p m l s = Inr t" "xyk_execute_buy C t None s = Inr s'"
    by (auto simp: xyk_call_buy_def res_iff)
  from t(1) obtain fee price where v: "xyk_exists C ?p s" "m < free_balance C (xyk_world s) b ?P"
      "calculate_in_given_out (free_balance C (xyk_world s) b ?P) (free_balance C (xyk_world s) a ?P) m = Inr price"
      "calculate_pool_trade_fee price (exchange_fee C) = Some fee" "price + fee \<le> l" "price + fee \<le> umax 128"
      "t = \<lparr>tr_origin = T, tr_assets = ?p, tr_amount = m, tr_amount_b = price, tr_fee = (a, fee)\<rparr>" "min_trading_limit C \<le> m"
    by (rule validate_buy_Inr) (simp add: get_pair_id_def)
  from t(2) obtain w1 w2 l' k p i where e: "transfer C b ?P T m (xyk_world s) = Inr w1" "transfer C a T ?P (price + fee) w1 = Inr w2"
      "on_trade C (oracle_source C) a b price m l' k p i w2 = Inr (xyk_world s')"
    by (rule execute_buy_Inr) (simp add: v(7) get_pair_id_def)
  have ab: "a \<noteq> b" using exists_not_same [OF inv, of a b] v(1) by (simp add: xyk_exists_def get_pair_id_def)
  have q: "xyk_in_given_out C Pool_XYK a b m s = Inr (price + fee)"
    using v by (simp add: xyk_in_given_out_def xyk_calculate_fee_def get_pair_id_def Let_def checked_add_def narrow_def)
  have "swapped C z T a (price + fee) b m (xyk_world s) (xyk_world s')" if "pool_ledger C z" "z \<noteq> ?P" for z
    using swapped_cong [OF pool_ledger.swap_back_at [OF that(1) e(1,2) that(2) _ ab]] T trade_free [OF e(3)] by (simp add: no_pool_account_def)
  then show ?thesis using ab q v(5) by blast
qed

end

lemma xyk_sell_storage:
  "xyk_call_sell C (Signed T) a b n l s = Inr s' \<Longrightarrow> xyk_same_storage s s' \<and> execution_context (xyk_broadcast s') = execution_context (xyk_broadcast s)"
  unfolding xyk_call_sell_def tryR_Inr by (elim exE conjE execute_sell_Inr) simp

lemma xyk_buy_storage:
  "xyk_call_buy C (Signed T) b a m l s = Inr s' \<Longrightarrow> xyk_same_storage s s' \<and> execution_context (xyk_broadcast s') = execution_context (xyk_broadcast s)"
  unfolding xyk_call_buy_def tryR_Inr by (elim exE conjE execute_buy_Inr) simp

text \<open>What transfers and the trade handler keep, a trade keeps.\<close>

lemma xyk_trade_frame:
  assumes "\<And>a x y n w w'. transfer C a x y n w = Inr w' \<Longrightarrow> f w' = f w"
    "\<And>src a b n m l k p i w w'. on_trade C src a b n m l k p i w = Inr w' \<Longrightarrow> f w' = f w"
  shows "xyk_call_sell C orig a b n l s = Inr s' \<Longrightarrow> f (xyk_world s') = f (xyk_world s)"
    "xyk_call_buy C orig b a m l s = Inr s' \<Longrightarrow> f (xyk_world s') = f (xyk_world s)"
  unfolding xyk_call_sell_def xyk_call_buy_def tryR_Inr
  by (elim exE conjE execute_sell_Inr execute_buy_Inr, metis assms)+

end
