(* ===== verification/Runtime_Pools.thy ===== *)
theory Runtime_Pools
  imports Omnipool_Trades Xyk_Router Router_Contract
begin

text \<open>
  The route executor of the runtime over the Omnipool and the XYK pools (\<open>runtime/hydradx/src/assets.rs\<close>,
  \<open>pallet_route_executor::Config\<close>). The two pallets share one ledger and one execution context; the state \<open>pools\<close> holds
  them once, beside the storage of each pallet. The contracts of \<open>Router_Contract\<close> are discharged here, and the
  properties of a routed trade follow. The other pools of the runtime (Stableswap, LBP, Aave, HSM) are not members here.
\<close>

section \<open>The pools of the runtime\<close>

record 'w pools =
  omnipool_part :: "'w omnipool"
  xyk_part :: "'w xyk"
  pools_world :: 'w
  pools_broadcast :: broadcast

definition at_omnipool :: "'w pools \<Rightarrow> 'w omnipool" where
  "at_omnipool s = (omnipool_part s)\<lparr>world := pools_world s, bcast := pools_broadcast s\<rparr>"

definition at_xyk :: "'w pools \<Rightarrow> 'w xyk" where
  "at_xyk s = (xyk_part s)\<lparr>xyk_world := pools_world s, xyk_broadcast := pools_broadcast s\<rparr>"

definition with_omnipool :: "'w omnipool \<Rightarrow> 'w pools \<Rightarrow> 'w pools" where
  "with_omnipool x s = s\<lparr>omnipool_part := x, pools_world := world x, pools_broadcast := bcast x\<rparr>"

definition with_xyk :: "'w xyk \<Rightarrow> 'w pools \<Rightarrow> 'w pools" where
  "with_xyk x s = s\<lparr>xyk_part := x, pools_world := xyk_world x, pools_broadcast := xyk_broadcast x\<rparr>"

datatype pool_error = From_Omnipool "omnipool_error dispatch_error" | From_XYK "xyk_error dispatch_error"

definition lift_executor :: "('e \<Rightarrow> 'f) \<Rightarrow> 'e executor_error + 'a \<Rightarrow> 'f executor_error + 'a" where
  "lift_executor f m = (case m of Inl NotSupported \<Rightarrow> Inl NotSupported | Inl (Executor_Error e) \<Rightarrow> Inl (Executor_Error (f e)) | Inr x \<Rightarrow> Inr x)"

definition omnipool_amm :: "'w omnipool_config \<Rightarrow> ('w pools, pool_error) amm" where
  "omnipool_amm C = \<lparr>
     amm_out_given_in = (\<lambda>p a b n s. lift_executor From_Omnipool (omnipool_calculate_out_given_in C p a b n (at_omnipool s))),
     amm_in_given_out = (\<lambda>p a b n s. lift_executor From_Omnipool (omnipool_calculate_in_given_out C p a b n (at_omnipool s))),
     amm_execute_sell = (\<lambda>who p a b n l s.
       tryR (lift_executor From_Omnipool (omnipool_execute_sell C who p a b n l (at_omnipool s))) (\<lambda>x. Inr (with_omnipool x s))),
     amm_execute_buy = (\<lambda>who p a b n l s.
       tryR (lift_executor From_Omnipool (omnipool_execute_buy C who p a b n l (at_omnipool s))) (\<lambda>x. Inr (with_omnipool x s))),
     amm_liquidity_depth = (\<lambda>p a b s. lift_executor From_Omnipool (omnipool_get_liquidity_depth C p a b (at_omnipool s))),
     amm_spot_price_with_fee = (\<lambda>p a b s. lift_executor From_Omnipool (omnipool_spot_price_with_fee C p a b (at_omnipool s)))\<rparr>"

definition xyk_amm :: "arith \<Rightarrow> ('w, 'z) xyk_config_scheme \<Rightarrow> ('w pools, pool_error) amm" where
  "xyk_amm A C = \<lparr>
     amm_out_given_in = (\<lambda>p a b n s. lift_executor From_XYK (xyk_out_given_in C p a b n (at_xyk s))),
     amm_in_given_out = (\<lambda>p a b n s. lift_executor From_XYK (xyk_in_given_out C p a b n (at_xyk s))),
     amm_execute_sell = (\<lambda>who p a b n l s.
       tryR (lift_executor From_XYK (xyk_router_sell C who p a b n l (at_xyk s))) (\<lambda>x. Inr (with_xyk x s))),
     amm_execute_buy = (\<lambda>who p a b n l s.
       tryR (lift_executor From_XYK (xyk_router_buy C who p a b n l (at_xyk s))) (\<lambda>x. Inr (with_xyk x s))),
     amm_liquidity_depth = (\<lambda>p a b s. lift_executor From_XYK (xyk_liquidity_depth C p a b (at_xyk s))),
     amm_spot_price_with_fee = (\<lambda>p a b s. lift_executor From_XYK (xyk_spot_price_with_fee A C p a b (at_xyk s)))\<rparr>"

definition pools_amm :: "'w omnipool_config \<Rightarrow> ('w, 'z) xyk_config_scheme \<Rightarrow> ('w pools, pool_error) amm" where
  "pools_amm CO CX = amm_tuple (omnipool_amm CO) (xyk_amm (oarith CO) CX)"

text \<open>What the executor takes from outside: the fungibles interface of the ledger, the oracle, origins and accounts.\<close>

record 'w router_params =
  fungible_reducible :: "'w \<Rightarrow> asset_id \<Rightarrow> account_id \<Rightarrow> balance"
  fungible_transfer :: "asset_id \<Rightarrow> account_id \<Rightarrow> account_id \<Rightarrow> balance \<Rightarrow> 'w \<Rightarrow> nat + 'w"
  oracle_of_route :: "'w \<Rightarrow> route \<Rightarrow> (nat \<times> nat) option"
  insert_origin :: "origin \<Rightarrow> bool"
  native_asset :: asset_id
  trader_account :: account_id

definition pools_router ::
    "'w omnipool_config \<Rightarrow> ('w, 'z) xyk_config_scheme \<Rightarrow> 'w router_params \<Rightarrow> ('w pools, pool_error) router_config" where
  "pools_router CO CX R = \<lparr>
     router_amm = pools_amm CO CX, router_arith = oarith CO,
     reducible_balance = (\<lambda>s. fungible_reducible R (pools_world s)),
     router_transfer = (\<lambda>a x y n s. tryR (fungible_transfer R a x y n (pools_world s)) (\<lambda>w. Inr (s\<lparr>pools_world := w\<rparr>))),
     get_broadcast = pools_broadcast, put_broadcast = (\<lambda>b s. s\<lparr>pools_broadcast := b\<rparr>),
     native_asset_id = native_asset R, oracle_route_price = (\<lambda>s. oracle_of_route R (pools_world s)),
     default_route_pool_type = Pool_Omnipool, force_insert_origin = insert_origin R, router_account = trader_account R\<rparr>"

lemma pools_router_sel [simp]:
  "router_amm (pools_router CO CX R) = pools_amm CO CX" "reducible_balance (pools_router CO CX R) = (\<lambda>s. fungible_reducible R (pools_world s))"
  "router_transfer (pools_router CO CX R) = (\<lambda>a x y n s. tryR (fungible_transfer R a x y n (pools_world s)) (\<lambda>w. Inr (s\<lparr>pools_world := w\<rparr>)))"
  "get_broadcast (pools_router CO CX R) = pools_broadcast" "put_broadcast (pools_router CO CX R) = (\<lambda>b s. s\<lparr>pools_broadcast := b\<rparr>)"
  "router_account (pools_router CO CX R) = trader_account R" "default_route_pool_type (pools_router CO CX R) = Pool_Omnipool"
  "router_arith (pools_router CO CX R) = oarith CO" "native_asset_id (pools_router CO CX R) = native_asset R"
  by (simp_all add: pools_router_def)

section \<open>Asking the right pool\<close>

lemma lift_executor_simps [simp]:
  "lift_executor f (Inl NotSupported) = Inl NotSupported" "lift_executor f (Inr x) = Inr x" "lift_executor f (Inl (Executor_Error e)) = Inl (Executor_Error (f e))"
  by (simp_all add: lift_executor_def)

lemma lift_executor_Inr [res_iff]: "lift_executor f m = Inr x \<longleftrightarrow> m = Inr x"
  by (auto simp: lift_executor_def split: sum.splits executor_error.splits)

lemma or_else_simps [simp]: "or_else m (Inl NotSupported) = m" "or_else (Inl NotSupported) n = n"
  by (auto simp: or_else_def split: sum.splits executor_error.splits)

lemma omnipool_other [simp]:
  assumes "p \<noteq> Pool_Omnipool"
  shows "omnipool_calculate_out_given_in C p a b n s = Inl NotSupported" "omnipool_calculate_in_given_out C p a b n s = Inl NotSupported"
    "omnipool_execute_sell C who p a b n l s = Inl NotSupported" "omnipool_execute_buy C who p a b n l s = Inl NotSupported"
  using assms by (simp_all add: omnipool_calculate_out_given_in_def omnipool_calculate_in_given_out_def omnipool_execute_sell_def
      omnipool_execute_buy_def ensure_def)

lemma xyk_other [simp]:
  assumes "p \<noteq> Pool_XYK"
  shows "xyk_out_given_in C p a b n s = Inl NotSupported" "xyk_in_given_out C p a b n s = Inl NotSupported"
    "xyk_router_sell C who p a b n l s = Inl NotSupported" "xyk_router_buy C who p a b n l s = Inl NotSupported"
  using assms by (simp_all add: xyk_out_given_in_def xyk_in_given_out_def xyk_router_sell_def xyk_router_buy_def ensure_def)

text \<open>Each pool type has one pool behind it.\<close>

lemma pools_quotes:
  "amm_out_given_in (pools_amm CO CX) p a b n s =
     (if p = Pool_Omnipool then lift_executor From_Omnipool (omnipool_calculate_out_given_in CO p a b n (at_omnipool s))
      else lift_executor From_XYK (xyk_out_given_in CX p a b n (at_xyk s)))"
  "amm_in_given_out (pools_amm CO CX) p a b n s =
     (if p = Pool_Omnipool then lift_executor From_Omnipool (omnipool_calculate_in_given_out CO p a b n (at_omnipool s))
      else lift_executor From_XYK (xyk_in_given_out CX p a b n (at_xyk s)))"
  by (simp_all add: pools_amm_def omnipool_amm_def xyk_amm_def)

lemma pools_execute_Inr:
  "amm_execute_sell (pools_amm CO CX) who p a b n l s = Inr s' \<longleftrightarrow>
     (\<exists>x. p = Pool_Omnipool \<and> sell CO who a b n l (at_omnipool s) = Inr x \<and> s' = with_omnipool x s) \<or>
     (\<exists>x. p = Pool_XYK \<and> xyk_call_sell CX who a b n l (at_xyk s) = Inr x \<and> s' = with_xyk x s)"
  "amm_execute_buy (pools_amm CO CX) who p a b n l s = Inr s' \<longleftrightarrow>
     (\<exists>x. p = Pool_Omnipool \<and> buy CO who b a n l (at_omnipool s) = Inr x \<and> s' = with_omnipool x s) \<or>
     (\<exists>x. p = Pool_XYK \<and> xyk_call_buy CX who b a n l (at_xyk s) = Inr x \<and> s' = with_xyk x s)"
  by (cases p; auto simp: pools_amm_def omnipool_amm_def xyk_amm_def omnipool_execute_sell_def omnipool_execute_buy_def
      xyk_router_sell_def xyk_router_buy_def res_iff)+

section \<open>The environment\<close>

text \<open>
  One ledger behind the pallets and the executor. The accounts of the pools, of the router and of its users are distinct
  and of no concern to each other's handlers; a transfer and an XYK trade do not change the fees of the Omnipool.
\<close>

locale pools_env = xyk_env CX for CX :: "('w, 'z) xyk_config_scheme" +
  fixes CO :: "'w omnipool_config" and R :: "'w router_params" and user :: "account_id \<Rightarrow> bool"
  assumes one_ledger: "free_balance CX = free_balance CO" "transfer CX = transfer CO" "deposit CX = deposit CO" "withdraw CX = withdraw CO"
    and one_transfer: "fungible_transfer R a x y n w = Inr w' \<Longrightarrow> transfer CO a x y n w = Inr w'"
    and all_reducible: "user x \<or> x = trader_account R \<Longrightarrow> fungible_reducible R w a x = free_balance CO w a x"
    and fees: "fee_provider (fee_get CO) (fee_get_and_store CO)"
    and protocol_ledger: "pool_ledger CO (protocol_account CO)"
    and pair_outside: "omnipool_outsider CO (pair_account CX a b)"
    and party_outside: "user x \<or> x = trader_account R \<Longrightarrow> omnipool_outsider CO x"
    and party_no_pair: "user x \<or> x = trader_account R \<Longrightarrow> no_pool_account CX x"
    and router_no_party: "\<not> user (trader_account R)"
    and transfer_fees: "transfer CO a x y n w = Inr w' \<Longrightarrow> fee_get CO w' = fee_get CO w"
    and xyk_trade_fees: "xyk_config.on_trade CX src a b n m l k p i w = Inr w' \<Longrightarrow> fee_get CO w' = fee_get CO w"

definition pools_inv :: "('w, 'z) xyk_config_scheme \<Rightarrow> 'w pools \<Rightarrow> bool" where
  "pools_inv CX s = xyk_inv CX (xyk_part s)"

text \<open>Trades in different pools; two trades in the Omnipool share its hub asset and its slip fees.\<close>

definition pools_independent :: "('w, 'z) xyk_config_scheme \<Rightarrow> trade \<Rightarrow> trade \<Rightarrow> bool" where
  "pools_independent CX t u \<longleftrightarrow> trade_pool t \<noteq> trade_pool u \<or>
     trade_pool t = Pool_XYK \<and> pair_account CX (trade_in t) (trade_out t) \<noteq> pair_account CX (trade_in u) (trade_out u)"

lemma view_sel [simp]:
  "world (at_omnipool s) = pools_world s" "bcast (at_omnipool s) = pools_broadcast s"
  "xyk_world (at_xyk s) = pools_world s" "xyk_broadcast (at_xyk s) = pools_broadcast s"
  "share_token (at_xyk s) = share_token (xyk_part s)"
  "pools_world (with_omnipool x s) = world x" "pools_broadcast (with_omnipool x s) = bcast x" "xyk_part (with_omnipool x s) = xyk_part s"
  "pools_world (with_xyk y s) = xyk_world y" "pools_broadcast (with_xyk y s) = xyk_broadcast y" "xyk_part (with_xyk y s) = y"
  "at_omnipool (with_xyk y s) = (at_omnipool s)\<lparr>world := xyk_world y, bcast := xyk_broadcast y\<rparr>"
  "at_omnipool (s\<lparr>pools_world := w\<rparr>) = (at_omnipool s)\<lparr>world := w, bcast := pools_broadcast s\<rparr>"
  "at_omnipool (s\<lparr>pools_broadcast := bc\<rparr>) = (at_omnipool s)\<lparr>world := pools_world s, bcast := bc\<rparr>"
  by (simp_all add: at_omnipool_def at_xyk_def with_omnipool_def with_xyk_def)

lemma view_inv [simp]: "xyk_inv C (at_xyk s) = xyk_inv C (xyk_part s)"
  by (auto intro!: same_storage_inv [of "xyk_part s" "at_xyk s"] elim: same_storage_inv [rotated] simp: xyk_same_storage_def at_xyk_def)

text \<open>
  What a trade of \<open>n\<close> of \<open>a\<close> for \<open>m\<close> of \<open>b\<close> signed by \<open>T\<close> does in the pool of type \<open>p\<close>: it swaps the amounts at every account
  outside that pool, keeps the storage of the XYK pools and the context, and leaves the other pool's state alone.
\<close>

definition elsewhere :: "'w omnipool_config \<Rightarrow> ('w, 'z) xyk_config_scheme \<Rightarrow> pool_type \<Rightarrow> asset_id \<Rightarrow> asset_id \<Rightarrow> account_id \<Rightarrow> bool" where
  "elsewhere CO CX p a b z \<longleftrightarrow> p = Pool_Omnipool \<and> omnipool_outsider CO z \<or> p = Pool_XYK \<and> pool_ledger CO z \<and> z \<noteq> pair_account CX a b"

definition pool_effect ::
    "'w omnipool_config \<Rightarrow> ('w, 'z) xyk_config_scheme \<Rightarrow> account_id \<Rightarrow> pool_type \<Rightarrow> asset_id \<Rightarrow> balance \<Rightarrow> asset_id \<Rightarrow> balance \<Rightarrow> 'w pools \<Rightarrow> 'w pools \<Rightarrow> bool" where
  "pool_effect CO CX T p a n b m s s' \<longleftrightarrow> a \<noteq> b \<and>
     (\<forall>z. elsewhere CO CX p a b z \<longrightarrow> swapped CO z T a n b m (pools_world s) (pools_world s')) \<and>
     execution_context (pools_broadcast s') = execution_context (pools_broadcast s) \<and>
     (p = Pool_Omnipool \<and> xyk_part s' = xyk_part s \<or>
      p = Pool_XYK \<and> (\<exists>y. s' = with_xyk y s \<and> xyk_same_storage (at_xyk s) y \<and> fee_get CO (xyk_world y) = fee_get CO (pools_world s)))"

context pools_env
begin

lemma ledgers_agree: "pool_ledger CX = pool_ledger CO" "swapped CX = swapped CO"
  by (simp_all add: fun_eq_iff pool_ledger_def swapped_def one_ledger)

lemma party_facts:
  assumes "user z \<or> z = trader_account R"
  shows "pool_ledger CO z" "z \<noteq> pair_account CX a b" "z \<noteq> protocol_account CO"
  using party_outside [OF assms] party_no_pair [OF assms] omnipool_outsider.no_protocol
  by (auto simp: omnipool_outsider_def no_pool_account_def)

lemma trader_no_pair: "no_pool_account CX (trader_account R)"
  by (simp add: party_no_pair)

lemma xyk_fees:
  "xyk_call_sell CX orig a b n l s = Inr s' \<Longrightarrow> fee_get CO (xyk_world s') = fee_get CO (xyk_world s)"
  "xyk_call_buy CX orig b a m l s = Inr s' \<Longrightarrow> fee_get CO (xyk_world s') = fee_get CO (xyk_world s)"
  using xyk_trade_frame [where f = "fee_get CO" and C = CX] transfer_fees xyk_trade_fees unfolding one_ledger by blast+

lemma sell_at:
  assumes run: "amm_execute_sell (pools_amm CO CX) (Signed (trader_account R)) p a b n l s = Inr s'" and inv: "pools_inv CX s"
  shows "\<exists>m. l \<le> m \<and> amm_out_given_in (pools_amm CO CX) p a b n s = Inr m \<and> pool_effect CO CX (trader_account R) p a n b m s s'"
proof -
  let ?T = "trader_account R"
  from run consider x where "p = Pool_Omnipool" "sell CO (Signed ?T) a b n l (at_omnipool s) = Inr x" "s' = with_omnipool x s"
    | y where "p = Pool_XYK" "xyk_call_sell CX (Signed ?T) a b n l (at_xyk s) = Inr y" "s' = with_xyk y s"
    by (auto simp: pools_execute_Inr)
  then show ?thesis
  proof cases
    case 1
    then show ?thesis
      using omnipool_sell_swaps [OF fees 1(2)] party_facts(3) [of ?T] omnipool_sell_context [OF 1(2)]
      by (auto simp: pools_quotes pool_effect_def elsewhere_def)
  next
    case 2
    then show ?thesis
      using xyk_sell_swaps [OF 2(2) _ trader_no_pair] inv xyk_sell_storage [OF 2(2)] xyk_fees(1) [OF 2(2)]
      by (auto simp: pools_quotes pools_inv_def ledgers_agree pool_effect_def elsewhere_def)
  qed
qed

lemma buy_at:
  assumes run: "amm_execute_buy (pools_amm CO CX) (Signed (trader_account R)) p a b m l s = Inr s'" and inv: "pools_inv CX s"
  shows "\<exists>n. n \<le> l \<and> amm_in_given_out (pools_amm CO CX) p a b m s = Inr n \<and> pool_effect CO CX (trader_account R) p a n b m s s'"
proof -
  let ?T = "trader_account R"
  from run consider x where "p = Pool_Omnipool" "buy CO (Signed ?T) b a m l (at_omnipool s) = Inr x" "s' = with_omnipool x s"
    | y where "p = Pool_XYK" "xyk_call_buy CX (Signed ?T) b a m l (at_xyk s) = Inr y" "s' = with_xyk y s"
    by (auto simp: pools_execute_Inr)
  then show ?thesis
  proof cases
    case 1
    then show ?thesis
      using omnipool_buy_swaps [OF fees 1(2)] party_facts(3) [of ?T] omnipool_buy_context [OF 1(2)]
      by (auto simp: pools_quotes pool_effect_def elsewhere_def)
  next
    case 2
    then show ?thesis
      using xyk_buy_swaps [OF 2(2) _ trader_no_pair] inv xyk_buy_storage [OF 2(2)] xyk_fees(2) [OF 2(2)]
      by (auto simp: pools_quotes pools_inv_def ledgers_agree pool_effect_def elsewhere_def)
  qed
qed

text \<open>What follows from the effect, for sales and purchases alike.\<close>

lemma effect_swapped:
  assumes "pool_effect CO CX (trader_account R) p a n b m s s'" "user z \<or> z = trader_account R"
  shows "swapped CO z (trader_account R) a n b m (pools_world s) (pools_world s')"
proof -
  have "elsewhere CO CX p a b z" using assms party_outside [OF assms(2)] party_facts [OF assms(2)] by (auto simp: elsewhere_def pool_effect_def)
  then show ?thesis using assms(1) by (simp add: pool_effect_def)
qed

lemma effect_traded:
  assumes "pool_effect CO CX (trader_account R) p a n b m s s'"
  shows "traded (\<lambda>s. fungible_reducible R (pools_world s)) (trader_account R) a b n m s s'"
  using effect_swapped [OF assms, of "trader_account R"] assms by (simp add: traded_def swapped_def all_reducible pool_effect_def)

lemma effect_users:
  assumes "pool_effect CO CX (trader_account R) p a n b m s s'" "user u"
  shows "fungible_reducible R (pools_world s') c u = fungible_reducible R (pools_world s) c u"
  using effect_swapped [OF assms(1), of u] assms(2) router_no_party by (auto simp: swapped_def all_reducible)

lemma effect_inv: "pool_effect CO CX (trader_account R) p a n b m s s' \<Longrightarrow> pools_inv CX s \<Longrightarrow> pools_inv CX s'"
  using same_storage_inv [of "at_xyk s" _ CX] by (auto simp: pool_effect_def pools_inv_def)

lemma effect_elsewhere:
  "pool_effect CO CX (trader_account R) p a n b m s s' \<Longrightarrow> elsewhere CO CX p a b z \<Longrightarrow> z \<noteq> trader_account R \<Longrightarrow>
     free_balance CO (pools_world s') c z = free_balance CO (pools_world s) c z"
  by (auto simp: pool_effect_def swapped_def)

lemma xyk_quotes_kept:
  assumes "share_token (xyk_part s') (pair_account CX c d) = share_token (xyk_part s) (pair_account CX c d)"
    "\<And>x. free_balance CO (pools_world s') x (pair_account CX c d) = free_balance CO (pools_world s) x (pair_account CX c d)"
  shows "xyk_out_given_in CX p c d k (at_xyk s') = xyk_out_given_in CX p c d k (at_xyk s)" "xyk_in_given_out CX p c d k (at_xyk s') = xyk_in_given_out CX p c d k (at_xyk s)"
  by (rule xyk_quotes_cong; use assms in \<open>simp add: one_ledger\<close>)+

lemma effect_quotes:
  assumes eff: "pool_effect CO CX (trader_account R) p a n b m s s'"
    and ind: "pools_independent CX \<lparr>trade_pool = p, trade_in = a, trade_out = b\<rparr> t"
  shows "amm_out_given_in (pools_amm CO CX) (trade_pool t) (trade_in t) (trade_out t) k s' = amm_out_given_in (pools_amm CO CX) (trade_pool t) (trade_in t) (trade_out t) k s \<and>
    amm_in_given_out (pools_amm CO CX) (trade_pool t) (trade_in t) (trade_out t) k s' = amm_in_given_out (pools_amm CO CX) (trade_pool t) (trade_in t) (trade_out t) k s"
proof -
  let ?P = "pair_account CX (trade_in t) (trade_out t)"
  have ne: "trader_account R \<noteq> ?P" "protocol_account CO \<noteq> pair_account CX x y" "trader_account R \<noteq> protocol_account CO" for x y
    using party_facts(2,3) [of "trader_account R"] omnipool_outsider.no_protocol [OF pair_outside, of x y] by metis+
  have led: "pool_ledger CO ?P" using ledger by (simp add: ledgers_agree)
  have "trade_pool t = Pool_Omnipool \<and> p = Pool_XYK \<or> trade_pool t = Pool_XYK \<and> elsewhere CO CX p a b ?P \<or> trade_pool t \<notin> {Pool_Omnipool, Pool_XYK}"
    using ind eff pair_outside led by (auto simp: pools_independent_def pool_effect_def elsewhere_def)
  then consider "trade_pool t = Pool_Omnipool" "p = Pool_XYK" | "trade_pool t = Pool_XYK" "elsewhere CO CX p a b ?P" | "trade_pool t \<notin> {Pool_Omnipool, Pool_XYK}"
    by blast
  then show ?thesis
  proof cases
    case 1
    then obtain y where y: "s' = with_xyk y s" "fee_get CO (xyk_world y) = fee_get CO (pools_world s)" using eff by (auto simp: pool_effect_def)
    have "elsewhere CO CX p a b (protocol_account CO)" using 1 protocol_ledger ne(2) by (simp add: elsewhere_def)
    then show ?thesis
      using omnipool_quotes_cong [of CO "xyk_world y" "at_omnipool s"] effect_elsewhere [OF eff] ne(3) y 1 by (simp add: pools_quotes)
  next
    case 2
    have "share_token (xyk_part s') = share_token (xyk_part s)" using eff by (auto simp: pool_effect_def xyk_same_storage_def)
    then show ?thesis using xyk_quotes_kept [of s' "trade_in t" "trade_out t" s] effect_elsewhere [OF eff 2(2)] ne(1) 2(1) by (simp add: pools_quotes)
  next
    case 3
    then show ?thesis by (simp add: pools_quotes)
  qed
qed

end

context pools_env
begin

text \<open>Neither a transfer between users and the router nor a new context moves a quote.\<close>

lemma transfer_no_quotes:
  assumes "transfer CO a x (trader_account R) n (pools_world s) = Inr w" "user x"
  shows "amm_out_given_in (pools_amm CO CX) p c d k (s\<lparr>pools_world := w\<rparr>) = amm_out_given_in (pools_amm CO CX) p c d k s"
    "amm_in_given_out (pools_amm CO CX) p c d k (s\<lparr>pools_world := w\<rparr>) = amm_in_given_out (pools_amm CO CX) p c d k s"
proof -
  have pair: "free_balance CO w c (pair_account CX i j) = free_balance CO (pools_world s) c (pair_account CX i j)" for c i j
    using pool_ledger.transfer_pool [OF ledger [unfolded ledgers_agree] assms(1), of c i j] party_facts(2) [of _ i j] assms(2) by metis
  have prot: "free_balance CO w c (protocol_account CO) = free_balance CO (pools_world s) c (protocol_account CO)" for c
    using pool_ledger.transfer_pool [OF protocol_ledger assms(1), of c] party_facts(3) assms(2) by metis
  show "amm_out_given_in (pools_amm CO CX) p c d k (s\<lparr>pools_world := w\<rparr>) = amm_out_given_in (pools_amm CO CX) p c d k s"
      "amm_in_given_out (pools_amm CO CX) p c d k (s\<lparr>pools_world := w\<rparr>) = amm_in_given_out (pools_amm CO CX) p c d k s"
    using omnipool_quotes_cong [of CO w "at_omnipool s"] prot transfer_fees [OF assms(1)]
      xyk_quotes_kept [of "s\<lparr>pools_world := w\<rparr>" c d s] pair by (simp_all add: pools_quotes)
qed

lemma context_no_quotes:
  "amm_out_given_in (pools_amm CO CX) p c d k (s\<lparr>pools_broadcast := b\<rparr>) = amm_out_given_in (pools_amm CO CX) p c d k s"
  "amm_in_given_out (pools_amm CO CX) p c d k (s\<lparr>pools_broadcast := b\<rparr>) = amm_in_given_out (pools_amm CO CX) p c d k s"
  using omnipool_quotes_cong [of CO "pools_world s" "at_omnipool s"] xyk_quotes_kept [of "s\<lparr>pools_broadcast := b\<rparr>" c d s]
  by (simp_all add: pools_quotes)

end

sublocale pools_env \<subseteq> routed: router_env "pools_router CO CX R" user "pools_inv CX" "pools_independent CX"
proof (unfold_locales, unfold pools_router_sel, goal_cases)
  case (1 p a b n l s s')
  then show ?case using sell_at [OF 1] effect_traded by blast
next
  case (2 p a b n l s s' u c)
  then show ?case using sell_at [OF 2(1,2)] effect_users by blast
next
  case (3 p a b n l s s')
  then show ?case using sell_at [OF 3] effect_inv by blast
next
  case (4 p a b n l s s')
  then show ?case using sell_at [OF 4] by (auto simp: pool_effect_def)
next
  case (5 p a b n l s s' t k)
  then show ?case using sell_at [OF 5(1,2)] effect_quotes by blast
next
  case (6 p a b m l s s')
  then show ?case using buy_at [OF 6] effect_traded by blast
next
  case (7 p a b m l s s' u c)
  then show ?case using buy_at [OF 7(1,2)] effect_users by blast
next
  case (8 p a b m l s s')
  then show ?case using buy_at [OF 8] effect_inv by blast
next
  case (9 p a b m l s s')
  then show ?case using buy_at [OF 9] by (auto simp: pool_effect_def)
next
  case (10 p a b m l s s' t k)
  then show ?case using buy_at [OF 10(1,2)] effect_quotes by blast
next
  case 11
  then show ?case by (rule router_no_party)
next
  case (12 a x y n s s' z c)
  then obtain w where "transfer CO a x y n (pools_world s) = Inr w" "s' = s\<lparr>pools_world := w\<rparr>" by (auto simp: res_iff dest: one_transfer)
  then show ?case
    using pool_ledger.transfer_pool [OF party_facts(1) [OF 12(2)], of a x y n "pools_world s" w c] 12(2,3) by (auto simp: all_reducible)
next
  case (13 a x y n s s')
  then show ?case
    using pool_ledger.transfer_enough [OF party_facts(1), of x a y n "pools_world s"] one_transfer all_reducible [of x] by (auto simp: res_iff)
next
  case (14 a x y n s s')
  then show ?case by (auto simp: res_iff pools_inv_def)
next
  case (15 a x y n s s')
  then show ?case by (auto simp: res_iff)
next
  case (16 a x n s s' p c d k)
  then obtain w where "transfer CO a x (trader_account R) n (pools_world s) = Inr w" "s' = s\<lparr>pools_world := w\<rparr>"
    by (auto simp: res_iff dest: one_transfer)
  then show ?case using transfer_no_quotes [OF _ 16(2)] by simp
next
  case (17 b s)
  then show ?case by simp
next
  case (18 b s c z)
  then show ?case by simp
next
  case (19 s b)
  then show ?case by (simp add: pools_inv_def)
next
  case (20 p c d k b s)
  then show ?case by (rule context_no_quotes)
next
  case (21 p c d k b s)
  then show ?case by (rule context_no_quotes)
qed

context pools_env
begin

lemma routed_env: "router_env (pools_router CO CX R) user (pools_inv CX) (pools_independent CX)"
  by (rule routed.router_env_axioms)

end

end
