(* ===== verification/Routed_Trades.thy ===== *)
theory Routed_Trades
  imports Runtime_Pools
begin

text \<open>
  What a user of the route executor gets, over the Omnipool and the XYK pools of the runtime, for every route: the
  properties, and a concrete runtime with both pools on one ledger for their witnesses.
\<close>

section \<open>A runtime with both pools\<close>

definition runtime_xyk_config :: "std_world xyk_config" where
  "runtime_xyk_config = \<lparr>
     free_balance = (\<lambda>w. ledger_free (sw_ledger w)), total_balance = (\<lambda>w. ledger_free (sw_ledger w)),
     can_withdraw = (\<lambda>w a x n. n \<le> ledger_free (sw_ledger w) a x),
     transfer = (\<lambda>a x y n. on_ledger (ledger_transfer a x y n)),
     deposit = (\<lambda>a x n. on_ledger (ledger_deposit a x n)), withdraw = (\<lambda>a x n. on_ledger (ledger_withdraw a x n)),
     get_or_register = (\<lambda>name w. Inr (10, w)), string_limit = 20, account_hash = (\<lambda>bs. 1000 + bytes_value bs),
     exchange_fee = (3, 1000), min_trading_limit = 1000, min_pool_liquidity = 1000, max_in_ratio = 3, max_out_ratio = 3,
     oracle_source = 0, can_create = (\<lambda>_ _ _. True), on_create_pool = (\<lambda>_ _ w. w),
     on_trade = (\<lambda>_ _ _ _ _ _ _ _ _ w. Inr w), on_liquidity_changed = (\<lambda>_ _ _ _ _ _ _ _ _ w. Inr w),
     whitelist_add = (\<lambda>_ w. Inr w), whitelist_remove = (\<lambda>_ w. Inr w)\<rparr>"

lemma runtime_xyk_config_sel [simp]:
  "free_balance runtime_xyk_config = (\<lambda>w. ledger_free (sw_ledger w))" "total_balance runtime_xyk_config = (\<lambda>w. ledger_free (sw_ledger w))"
  "transfer runtime_xyk_config = (\<lambda>a x y n. on_ledger (ledger_transfer a x y n))"
  "deposit runtime_xyk_config = (\<lambda>a x n. on_ledger (ledger_deposit a x n))" "withdraw runtime_xyk_config = (\<lambda>a x n. on_ledger (ledger_withdraw a x n))"
  "get_or_register runtime_xyk_config = (\<lambda>name w. Inr (10, w))" "account_hash runtime_xyk_config = (\<lambda>bs. 1000 + bytes_value bs)"
  "exchange_fee runtime_xyk_config = (3, 1000)" "min_trading_limit runtime_xyk_config = 1000"
  "xyk_config.max_in_ratio runtime_xyk_config = 3" "xyk_config.max_out_ratio runtime_xyk_config = 3"
  "on_create_pool runtime_xyk_config = (\<lambda>_ _ w. w)" "xyk_config.on_trade runtime_xyk_config = (\<lambda>_ _ _ _ _ _ _ _ _ w. Inr w)"
  "xyk_config.on_liquidity_changed runtime_xyk_config = (\<lambda>_ _ _ _ _ _ _ _ _ w. Inr w)"
  "whitelist_add runtime_xyk_config = (\<lambda>_ w. Inr w)" "whitelist_remove runtime_xyk_config = (\<lambda>_ w. Inr w)"
  by (simp_all add: runtime_xyk_config_def)

definition runtime_params :: "std_world router_params" where
  "runtime_params = \<lparr>
     fungible_reducible = (\<lambda>w. ledger_free (sw_ledger w)), fungible_transfer = (\<lambda>a x y n. on_ledger (ledger_transfer a x y n)),
     oracle_of_route = (\<lambda>_ _. None), insert_origin = (\<lambda>orig. orig = Root), native_asset = 0, trader_account = 500\<rparr>"

lemma runtime_params_sel [simp]:
  "fungible_reducible runtime_params = (\<lambda>w. ledger_free (sw_ledger w))"
  "fungible_transfer runtime_params = (\<lambda>a x y n. on_ledger (ledger_transfer a x y n))" "trader_account runtime_params = 500"
  by (simp_all add: runtime_params_def)

interpretation runtime_xyk: xyk_env runtime_xyk_config
proof (intro xyk_env.intro, goal_cases)
  case (1 a b)
  show ?case by (rule world_ledger) simp_all
next
  case (2 a b c d)
  then have "bytes_value (pair_seed a b) = bytes_value (pair_seed c d)" by simp
  then show ?case using bytes_value_inj pair_seed_bytes by metis
qed (simp_all, metis on_ledger_books(1), metis on_ledger_books(2))

lemma pair_accounts_high: "1000 \<le> pair_account runtime_xyk_config a b"
  by (simp add: pair_account_seed)

lemma runtime_no_pool: "x < 1000 \<Longrightarrow> no_pool_account runtime_xyk_config x"
  by (auto simp: no_pool_account_def pair_account_seed)

interpretation runtime_pools: pools_env runtime_xyk_config std_omnipool_config runtime_params "\<lambda>x. x = 7"
proof (intro pools_env.intro runtime_xyk.xyk_env_axioms pools_env_axioms.intro, goal_cases)
  case 7
  show ?case by (rule std_fee.fee_provider_axioms)
next
  case (9 a b)
  then show ?case using pair_accounts_high [of a b] by (intro std_outsider) (auto simp: fee_receiver_def)
next
  case (11 x)
  then show ?case by (intro runtime_no_pool) auto
qed (auto intro!: std_outsider world_ledger simp: fee_receiver_def)

section \<open>A routed sale\<close>

text \<open>Account 7 sells asset 3 for HDX, through the XYK pool of assets 2 and 3 and the Omnipool.\<close>

definition runtime_pair :: account_id where
  "runtime_pair = 1000 + bytes_value (pair_seed 2 3)"

definition runtime_state :: "std_world pools router" where
  "runtime_state = \<lparr>routes = Map.empty, router_events = [],
     router_state = \<lparr>omnipool_part = sample_pool,
       xyk_part = \<lparr>share_token = [runtime_pair \<mapsto> 10], total_liquidity = (\<lambda>_. 0)(runtime_pair := 1000000),
         pool_assets = [runtime_pair \<mapsto> (2, 3)], xyk_events = [], xyk_broadcast = sample_broadcast, xyk_world = sample_world\<rparr>,
       pools_world = \<lparr>sw_ledger = (\<lambda>_. 0)((0, 100) := 1000000000, (1, 100) := 3000000000, (2, 100) := 1000000000,
           (2, runtime_pair) := 1000000, (3, runtime_pair) := 2000000, (3, 7) := 50000), sw_nft = [0 \<mapsto> 5, 1 \<mapsto> 7]\<rparr>,
       pools_broadcast = sample_broadcast\<rparr>\<rparr>"

definition runtime_route :: route where
  "runtime_route = [\<lparr>trade_pool = Pool_XYK, trade_in = 3, trade_out = 2\<rparr>, \<lparr>trade_pool = Pool_Omnipool, trade_in = 2, trade_out = 0\<rparr>]"

abbreviation runtime_router :: "(std_world pools, pool_error) router_config" where
  "runtime_router \<equiv> pools_router std_omnipool_config runtime_xyk_config runtime_params"

lemma runtime_pair_facts: "pair_account runtime_xyk_config 3 2 = runtime_pair" "pair_account runtime_xyk_config 2 3 = runtime_pair"
  "7 \<noteq> runtime_pair" "runtime_pair \<noteq> 7" "100 \<noteq> runtime_pair" "runtime_pair \<noteq> 100" "500 \<noteq> runtime_pair" "runtime_pair \<noteq> 500" "77 \<noteq> runtime_pair" "runtime_pair \<noteq> 77"
  by (simp_all add: pair_account_seed runtime_pair_def pair_seed_def)

lemmas route_eval = router_sell_def router_do_sell_def ensure_route_size_def MAX_NUMBER_OF_TRADES_def get_route_or_default_def
  ensure_route_arguments_def finish_trade_def runtime_route_def runtime_state_def runtime_pair_facts pools_amm_def omnipool_amm_def xyk_amm_def
  omnipool_execute_sell_def xyk_router_sell_def xyk_call_sell_def xyk_validate_sell_def xyk_execute_sell_def at_xyk_def with_xyk_def
  at_omnipool_def with_omnipool_def sample_broadcast_def set_swapper_def remove_swapper_def Route_Executor.of_broadcast_def

lemma runtime_sale:
  "\<exists>r'. router_sell runtime_router (Signed 7) 3 0 50000 48000 runtime_route runtime_state = Inr r' \<and> router_events r' = [Executed 3 0 50000 48485 0]"
  by (simp add: route_eval xyk_eval sell_eval)

lemma runtime_state_inv: "pools_inv runtime_xyk_config (router_state runtime_state)"
  by (simp add: pools_inv_def xyk_inv_def pool_ok_def runtime_state_def runtime_pair_facts)

lemma runtime_route_facts:
  "sorted_wrt (pools_independent runtime_xyk_config) runtime_route"
  "\<forall>c\<in>route_assets runtime_route. fungible_reducible runtime_params (pools_world (router_state runtime_state)) c 500 = 0"
  "get_route_or_default runtime_router 3 0 runtime_route runtime_state = runtime_route" "router_events runtime_state = []"
  "ledger_free (sw_ledger (pools_world (router_state runtime_state))) 0 7 = 0"
  by (simp_all add: get_route_or_default_def runtime_route_def runtime_state_def pools_independent_def route_assets_def ledger_free_def runtime_pair_facts)

section \<open>Properties\<close>

text \<open>
  (C4) A routed sale over the Omnipool and the XYK pools: whoever sells pays exactly the amount they named, receives at least
  their limit in one other asset, and no other asset of theirs moves; the execution context is restored. When the trades
  of the route do not move each other's quotes and the router account holds none of the assets of the route, the amount
  received is exactly what \<open>calculate_expected_amount_out\<close> announced for the route before the call.
\<close>

theorem router_sell_delivers:
  assumes env: "pools_env CX CO R user" "user who" "pools_inv CX (router_state r)"
    and run: "router_sell (pools_router CO CX R) (Signed who) a b n lim rt r = Inr r'"
  defines "route \<equiv> get_route_or_default (pools_router CO CX R) a b rt r"
    and "bal \<equiv> \<lambda>r c x. fungible_reducible R (pools_world (router_state r)) c x"
  shows "\<exists>m i. lim \<le> m \<and> n \<le> bal r a who \<and>
     (\<forall>c. bal r' c who = (if c = a then bal r c who - n else if c = b then bal r c who + m else bal r c who)) \<and>
     router_events r' = router_events r @ [Executed a b n m i] \<and>
     execution_context (pools_broadcast (router_state r')) = execution_context (pools_broadcast (router_state r)) \<and>
     (sorted_wrt (pools_independent CX) route \<longrightarrow> (\<forall>c\<in>route_assets route. bal r c (trader_account R) = 0) \<longrightarrow>
        calculate_expected_amount_out (pools_router CO CX R) route n r = Inr m)"
proof -
  let ?C = "pools_router CO CX R"
  have run': "router_do_sell ?C (Signed who) a b n lim rt r = Inr r'" using run by (simp add: router_sell_def)
  obtain m i where m: "lim \<le> m" "traded (reducible_balance ?C) who a b n m (router_state r) (router_state r')"
      "execution_context (get_broadcast ?C (router_state r')) = execution_context (get_broadcast ?C (router_state r))"
      "router_events r' = router_events r @ [Executed a b n m i]"
    using router_env.do_sell_effect [OF pools_env.routed_env [OF env(1)] run' env(3,2)] by blast
  have "calculate_expected_amount_out ?C route n r = Inr m"
    if "sorted_wrt (pools_independent CX) route" "\<forall>c\<in>route_assets route. bal r c (trader_account R) = 0"
  proof -
    have "\<exists>m. calculate_expected_amount_out ?C route n r = Inr m \<and> lim \<le> m \<and> traded (reducible_balance ?C) who a b n m (router_state r) (router_state r')"
      unfolding route_def
      by (rule router_env.do_sell_quote [OF pools_env.routed_env [OF env(1)] run' env(3,2)]) (use that in \<open>simp_all add: route_def bal_def\<close>)
    then obtain m' where "calculate_expected_amount_out ?C route n r = Inr m'" "traded (reducible_balance ?C) who a b n m' (router_state r) (router_state r')"
      by blast
    then show ?thesis using m(2) by (auto simp: traded_def dest: spec [of _ b])
  qed
  then show ?thesis using m unfolding traded_def bal_def by auto
qed

theorem router_sell_delivers_witness:
  "\<exists>r'. router_sell runtime_router (Signed 7) 3 0 50000 48000 runtime_route runtime_state = Inr r' \<and>
     router_events r' = [Executed 3 0 50000 48485 0] \<and>
     ledger_free (sw_ledger (pools_world (router_state r'))) 0 7 = 48485 \<and>
     calculate_expected_amount_out runtime_router runtime_route 50000 runtime_state = Inr 48485"
proof -
  obtain r' where r': "router_sell runtime_router (Signed 7) 3 0 50000 48000 runtime_route runtime_state = Inr r'"
      "router_events r' = [Executed 3 0 50000 48485 0]"
    using runtime_sale by blast
  from router_sell_delivers [OF runtime_pools.pools_env_axioms _ runtime_state_inv r'(1), unfolded runtime_route_facts(3)]
  show ?thesis using r' runtime_route_facts by auto
qed

text \<open>
  (C9) A routed purchase over the Omnipool and the XYK pools: whoever buys pays exactly what \<open>calculate_expected_amount_in\<close>
  announced for the route before the call, which is within their limit, receives at least the amount they asked for, and no
  other asset of theirs moves; the execution context is restored. When the trades of the route do not move each other's
  quotes and the router account holds none of the assets of the route, they receive exactly the amount they asked for.
\<close>

theorem router_buy_delivers:
  assumes env: "pools_env CX CO R user" "user who" "pools_inv CX (router_state r)"
    and run: "router_buy (pools_router CO CX R) (Signed who) a b m lim rt r = Inr r'"
  defines "route \<equiv> get_route_or_default (pools_router CO CX R) a b rt r"
    and "bal \<equiv> \<lambda>r c x. fungible_reducible R (pools_world (router_state r)) c x"
  shows "\<exists>n m' i. calculate_expected_amount_in (pools_router CO CX R) route m r = Inr n \<and> n \<le> lim \<and> m \<le> m' \<and> n \<le> bal r a who \<and>
     (\<forall>c. bal r' c who = (if c = a then bal r c who - n else if c = b then bal r c who + m' else bal r c who)) \<and>
     router_events r' = router_events r @ [Executed a b n m' i] \<and>
     execution_context (pools_broadcast (router_state r')) = execution_context (pools_broadcast (router_state r)) \<and>
     (sorted_wrt (pools_independent CX) route \<longrightarrow> (\<forall>c\<in>route_assets route. bal r c (trader_account R) = 0) \<longrightarrow> m' = m)"
  using router_env.buy_effect [OF pools_env.routed_env [OF env(1)] run env(3,2)] unfolding traded_def bal_def route_def pools_router_sel by blast

lemma runtime_purchase:
  "\<exists>r'. router_buy runtime_router (Signed 7) 3 0 10000 20000 runtime_route runtime_state = Inr r' \<and> router_events r' = [Executed 3 0 10113 10000 0]"
  by (simp add: route_eval xyk_eval buy_eval router_buy_def calculate_buy_trade_amounts_def omnipool_calculate_in_given_out_def xyk_in_given_out_def
      omnipool_execute_buy_def xyk_router_buy_def xyk_call_buy_def xyk_validate_buy_def xyk_execute_buy_def Xyk_Math.calculate_in_given_out_def
      FIXED_ROUND_UP_def peek_trade_slip_fees_def)

theorem router_buy_delivers_witness:
  "\<exists>r'. router_buy runtime_router (Signed 7) 3 0 10000 20000 runtime_route runtime_state = Inr r' \<and>
     router_events r' = [Executed 3 0 10113 10000 0] \<and>
     ledger_free (sw_ledger (pools_world (router_state r'))) 0 7 = 10000 \<and>
     calculate_expected_amount_in runtime_router runtime_route 10000 runtime_state = Inr 10113"
proof -
  obtain r' where r': "router_buy runtime_router (Signed 7) 3 0 10000 20000 runtime_route runtime_state = Inr r'"
      "router_events r' = [Executed 3 0 10113 10000 0]"
    using runtime_purchase by blast
  from router_buy_delivers [OF runtime_pools.pools_env_axioms _ runtime_state_inv r'(1), unfolded runtime_route_facts(3)]
  show ?thesis using r' runtime_route_facts by auto
qed

text \<open>
  (C23) A route that anybody sets is the one that trades of the pair then take, in both directions, and no other pair's route
  changes. Where the route in use was valid, the new one pays strictly more for the reference amounts, both ways.
\<close>

theorem set_route_improves:
  fixes C :: "('s, 'e) router_config"
  assumes run: "set_route C orig pair rt r = Inr r'" and ne: "pair_in pair \<noteq> pair_out pair"
  defines "old \<equiv> get_route C (route_ordered_pair pair) r" and "new \<equiv> (if is_ordered pair then rt else inverse_route rt)"
  shows "get_route C pair r' = rt \<and> get_route C \<lparr>pair_in = pair_out pair, pair_out = pair_in pair\<rparr> r' = inverse_route rt \<and>
     (\<forall>p. route_ordered_pair p \<noteq> route_ordered_pair pair \<longrightarrow> get_route C p r' = get_route C p r) \<and>
     (\<forall>x y. validate_route C old r = Inr (x, y) \<longrightarrow>
        (\<exists>o1 n1 o2 n2. calculate_expected_amount_out C old x r = Inr o1 \<and> calculate_expected_amount_out C new x r = Inr n1 \<and> o1 < n1 \<and>
           calculate_expected_amount_out C (inverse_route old) y r = Inr o2 \<and> calculate_expected_amount_out C (inverse_route new) y r = Inr n2 \<and> o2 < n2))"
proof -
  have len: "length rt \<le> MAX_NUMBER_OF_TRADES" and r': "r' = insert_route (route_ordered_pair pair) new r"
    using run by (auto simp: set_route_def res_iff Let_def ensure_route_size_def new_def split: sum.splits prod.splits if_splits)
  have "\<exists>o1 n1 o2 n2. calculate_expected_amount_out C old x r = Inr o1 \<and> calculate_expected_amount_out C new x r = Inr n1 \<and> o1 < n1 \<and>
      calculate_expected_amount_out C (inverse_route old) y r = Inr o2 \<and> calculate_expected_amount_out C (inverse_route new) y r = Inr n2 \<and> o2 < n2"
    if "validate_route C old r = Inr (x, y)" for x y
    using run that by (auto simp: set_route_def res_iff Let_def old_def [symmetric] new_def [symmetric] split: if_splits)
  then show ?thesis
    using ne by (auto simp: r' get_route_def insert_route_def route_ordered_pair_def is_ordered_def new_def inverse_route_inverse [OF len])
qed

text \<open>Pools that trade at fixed rates, the XYK pool better than the Omnipool.\<close>

definition rate_amm :: "(unit, unit) amm" where
  "rate_amm = \<lparr>
     amm_out_given_in = (\<lambda>p a b n s. Inr (if p = Pool_XYK then 2 * n else n)), amm_in_given_out = (\<lambda>p a b n s. Inr n),
     amm_execute_sell = (\<lambda>who p a b n l s. Inr s), amm_execute_buy = (\<lambda>who p a b n l s. Inr s),
     amm_liquidity_depth = (\<lambda>p a b s. Inr 100000), amm_spot_price_with_fee = (\<lambda>p a b s. Inr fx_one)\<rparr>"

definition rate_router :: "(unit, unit) router_config" where
  "rate_router = \<lparr>
     router_amm = rate_amm, router_arith = std_arith, reducible_balance = (\<lambda>s a x. 0), router_transfer = (\<lambda>a x y n s. Inr s),
     get_broadcast = (\<lambda>s. sample_broadcast), put_broadcast = (\<lambda>b s. s), native_asset_id = 0, oracle_route_price = (\<lambda>s rt. Some (1, 1)),
     default_route_pool_type = Pool_Omnipool, force_insert_origin = (\<lambda>orig. orig = Root), router_account = 500\<rparr>"

definition rate_state :: "unit router" where
  "rate_state = \<lparr>routes = Map.empty, router_events = [], router_state = ()\<rparr>"

definition rate_route :: route where
  "rate_route = [\<lparr>trade_pool = Pool_XYK, trade_in = 5, trade_out = 4\<rparr>, \<lparr>trade_pool = Pool_XYK, trade_in = 4, trade_out = 3\<rparr>]"

theorem set_route_improves_witness:
  "\<exists>r'. set_route rate_router (Signed 7) \<lparr>pair_in = 5, pair_out = 3\<rparr> rate_route rate_state = Inr r' \<and>
     get_route rate_router \<lparr>pair_in = 5, pair_out = 3\<rparr> r' = rate_route \<and>
     get_route rate_router \<lparr>pair_in = 3, pair_out = 5\<rparr> r' = inverse_route rate_route"
proof -
  have "\<exists>r'. set_route rate_router (Signed 7) \<lparr>pair_in = 5, pair_out = 3\<rparr> rate_route rate_state = Inr r'"
    by (simp add: set_route_def rate_router_def rate_amm_def rate_state_def rate_route_def ensure_route_size_def MAX_NUMBER_OF_TRADES_def
        ensure_route_arguments_def route_ordered_pair_def is_ordered_def inverse_route_def inverse_trade_def validate_route_def get_route_def
        calculate_reference_amount_in_def router_validate_sell_def calculate_expected_amount_out_def calculate_sell_trade_amounts_def
        Let_def ensure_signed_def checked_div_def)
  then show ?thesis using set_route_improves [of rate_router "Signed 7" "\<lparr>pair_in = 5, pair_out = 3\<rparr>" rate_route rate_state] by fastforce
qed

end
