(* ===== verification/Ema_Runs.thy ===== *)
theory Ema_Runs
  imports Ema_Oracle
begin

text \<open>
  The oracle over time. The runs of the pallet are the calls, the handlers that pools call, the changes of the asset registry and
  the ends of blocks; the invariant of the storage holds in each state they reach. At the end of a block the stored value of every
  period is the value that readers saw in the block, integrated with the data of the block: catching up and integrating never fail, so the
  defaults of the code are never taken. Data of a source that is not a pool changes through calls of authorised accounts only.
\<close>

section \<open>The end of a block\<close>

text \<open>An oracle that the end of a block finds in order: older than the block, with a last-block oracle beside it.\<close>

definition oracle_due :: "ema \<Rightarrow> oracle_key \<Rightarrow> oracle_period \<Rightarrow> bool" where
  "oracle_due s k p \<longleftrightarrow>
     (\<forall>e init. oracles s (k, p) = Some (e, init) \<longrightarrow> oe_updated_at e < em_block s \<and> oracles s (k, LastBlock) \<noteq> None)"

definition oracle_after :: "ema_config \<Rightarrow> ema \<Rightarrow> oracle_key \<Rightarrow> oracle_period \<Rightarrow> oracle_entry \<Rightarrow> oracle_entry \<times> nat" where
  "oracle_after C s k p entry = (case get_updated_entry C k p s of None \<Rightarrow> (entry, em_block s)
     | Some (e, init) \<Rightarrow> (the (calculate_new_by_integrating_incoming (em_arith C) e p entry), init))"

lemma entry_of_data_updated [simp]: "oe_updated_at (entry_of_data d n) = n"
  by (simp add: entry_of_data_def split: prod.splits)

lemma integrate_next:
  "oe_updated_at e + 1 = oe_updated_at entry \<Longrightarrow>
     \<exists>e'. calculate_new_by_integrating_incoming A e p entry = Some e' \<and> oe_updated_at e' = oe_updated_at entry"
  by (auto simp: calculate_new_by_integrating_incoming_def checked_sub_def)

lemma catch_up:
  assumes "oe_updated_at prev < oe_updated_at lb"
  obtains e where "calculate_current_from_outdated A F prev p lb = Some e" "oe_updated_at e = oe_updated_at lb"
  using assms by (cases "p = LastBlock") (auto simp: calculate_current_from_outdated_def checked_sub_def)

lemma fast_forward_updated [simp]: "oe_updated_at (fast_forward_to e n) = n"
  by (simp add: fast_forward_to_def)

lemma last_block_oracle_Some:
  "last_block_oracle k n s = Some (e, i) \<longleftrightarrow>
     (\<exists>e0. oracles s (k, LastBlock) = Some (e0, i) \<and> e = (if oe_updated_at e0 \<noteq> n then fast_forward_to e0 n else e0))"
  unfolding last_block_oracle_def map_option_eq_Some by (simp only: split_paired_Ex prod.case prod.inject) blast

lemma last_block_oracle_updated: "last_block_oracle k n s = Some (e, i) \<Longrightarrow> oe_updated_at e = n"
  by (auto simp: last_block_oracle_Some)

text \<open>The mutating closure computes what a reader sees, integrated with the incoming entry.\<close>

lemma update_existing_reads:
  assumes "oracles s (k, p) = Some (prev, init)" "oracle_due s k p"
  obtains e where "get_updated_entry C k p s = Some (e, init)" "oe_updated_at e + 1 = em_block s"
    "\<And>entry. oe_updated_at entry = em_block s \<Longrightarrow>
       update_existing C k p entry prev s = the (calculate_new_by_integrating_incoming (em_arith C) e p entry)"
proof -
  define parent where "parent = em_block s - 1"
  have d: "oe_updated_at prev < em_block s" and l: "oracles s (k, LastBlock) \<noteq> None"
    using assms by (auto simp: oracle_due_def)
  then have b: "saturating_sub (em_block s) (Suc 0) = parent" "parent + 1 = em_block s" by (auto simp: parent_def saturating_sub_def)
  obtain lb li where lb: "last_block_oracle k parent s = Some (lb, li)"
    using l by (auto simp: last_block_oracle_def split: prod.splits)
  note lbu = last_block_oracle_updated [OF lb]
  show ?thesis
  proof (cases "oe_updated_at prev < parent")
    case True
    then obtain e where e: "calculate_current_from_outdated (em_arith C) (em_fixed C) prev p lb = Some e" "oe_updated_at e = parent"
      using catch_up lbu by metis
    have "p = LastBlock \<Longrightarrow> e = lb \<and> li = init"
      using e(1) lb assms(1) by (auto simp: calculate_current_from_outdated_def last_block_oracle_Some split: if_splits bind_splits)
    then have "get_updated_entry C k p s = Some (e, init)" using e lb assms(1) True b(1) by (auto simp: get_updated_entry_def)
    moreover have "update_existing C k p entry prev s = the (calculate_new_by_integrating_incoming (em_arith C) e p entry)"
      if "oe_updated_at entry = em_block s" for entry
      using integrate_next [of e entry "em_arith C" p] that e lb True b by (auto simp: update_existing_def)
    ultimately show ?thesis using that e(2) b(2) by blast
  next
    case False
    then have p: "oe_updated_at prev = parent" using d b by simp
    have "p = LastBlock \<Longrightarrow> prev = lb \<and> li = init"
      using lb assms(1) p by (auto simp: last_block_oracle_Some)
    then have "get_updated_entry C k p s = Some (prev, init)" using lb assms(1) p b(1) by (auto simp: get_updated_entry_def)
    moreover have "update_existing C k p entry prev s = the (calculate_new_by_integrating_incoming (em_arith C) prev p entry)"
      if "oe_updated_at entry = em_block s" for entry
      using integrate_next [of prev entry "em_arith C" p] that p b by (auto simp: update_existing_def)
    ultimately show ?thesis using that p b(2) by blast
  qed
qed

lemma no_oracle_no_reading: "oracles s (k, p) = None \<Longrightarrow> get_updated_entry C k p s = None"
  by (cases "p = LastBlock"; cases "last_block_oracle k (saturating_sub (em_block s) 1) s")
    (auto simp: get_updated_entry_def last_block_oracle_def)

lemma oracles_update_oracle:
  assumes "oracle_due s k p" "oe_updated_at entry = em_block s"
  shows "snd (update_oracle C k p entry s) = s\<lparr>oracles := (oracles s)((k, p) \<mapsto> oracle_after C s k p entry)\<rparr>"
proof (cases "oracles s (k, p)")
  case None
  then show ?thesis by (simp add: update_oracle_def oracle_after_def no_oracle_no_reading)
next
  case (Some x)
  obtain prev init where x: "oracles s (k, p) = Some (prev, init)" using Some by (cases x) simp
  show ?thesis
    by (rule update_existing_reads [OF x assms(1), of C]) (simp add: update_oracle_def oracle_after_def x assms(2) Let_def)
qed

text \<open>Updating one oracle leaves what is read of the others.\<close>

lemma get_updated_entry_cong:
  "oracles s' (k, p) = oracles s (k, p) \<Longrightarrow> oracles s' (k, LastBlock) = oracles s (k, LastBlock) \<Longrightarrow> em_block s' = em_block s \<Longrightarrow>
     get_updated_entry C k p s' = get_updated_entry C k p s"
  by (cases "p = LastBlock") (simp_all add: get_updated_entry_def last_block_oracle_def)

lemma oracle_after_cong:
  "oracles s' (k, p) = oracles s (k, p) \<Longrightarrow> oracles s' (k, LastBlock) = oracles s (k, LastBlock) \<Longrightarrow> em_block s' = em_block s \<Longrightarrow>
     oracle_after C s' k p entry = oracle_after C s k p entry"
  using get_updated_entry_cong [of s' k p s C] by (simp add: oracle_after_def split: option.splits)

definition override :: "(oracle_period \<Rightarrow> 'v) \<Rightarrow> oracle_key \<Rightarrow> oracle_period set \<Rightarrow> (oracle_key \<times> oracle_period \<rightharpoonup> 'v) \<Rightarrow> oracle_key \<times> oracle_period \<rightharpoonup> 'v" where
  "override f k P m = (\<lambda>x. if fst x = k \<and> snd x \<in> P then Some (f (snd x)) else m x)"

lemma override_step:
  "p \<notin> P \<Longrightarrow> (\<And>q. q \<in> P \<Longrightarrow> g q = f q) \<Longrightarrow> override g k P (m((k, p) \<mapsto> f p)) = override f k (insert p P) m"
  "(override f k P m)((k, p) \<mapsto> f p) = override f k (insert p P) m"
  by (auto simp: override_def fun_eq_iff)

definition set_oracles :: "(oracle_period \<Rightarrow> oracle_entry \<times> nat) \<Rightarrow> oracle_key \<Rightarrow> oracle_period set \<Rightarrow> ema \<Rightarrow> ema" where
  "set_oracles f k P s = s\<lparr>oracles := override f k P (oracles s)\<rparr>"

lemma set_oracles_sel [simp]:
  "oracles (set_oracles f k P s) (k', p) = (if k' = k \<and> p \<in> P then Some (f p) else oracles s (k', p))"
  "em_block (set_oracles f k P s) = em_block s" "accumulator (set_oracles f k P s) = accumulator s"
  by (simp_all add: set_oracles_def override_def)

lemma set_oracles_empty: "set_oracles f k {} s = s"
  by (simp add: set_oracles_def override_def)

lemma set_oracles_step:
  "p \<notin> P \<Longrightarrow> (\<And>q. q \<in> P \<Longrightarrow> g q = f q) \<Longrightarrow>
     set_oracles g k P (s\<lparr>oracles := (oracles s)((k, p) \<mapsto> f p)\<rparr>) = set_oracles f k (insert p P) s"
  "(set_oracles f k P s)\<lparr>oracles := (oracles (set_oracles f k P s))((k, p) \<mapsto> f p)\<rparr> = set_oracles f k (insert p P) s"
  by (simp_all add: set_oracles_def override_step)

lemma oracles_update_periods:
  assumes "\<And>p. p \<in> set ps \<Longrightarrow> oracle_due s k p" "oe_updated_at entry = em_block s" "LastBlock \<notin> set ps" "distinct ps"
  shows "snd (update_periods C k entry ps s) = set_oracles (\<lambda>p. oracle_after C s k p entry) k (set ps) s"
  using assms
proof (induction ps arbitrary: s)
  case Nil
  then show ?case by (simp add: set_oracles_empty)
next
  case (Cons p ps)
  define s1 where "s1 = s\<lparr>oracles := (oracles s)((k, p) \<mapsto> oracle_after C s k p entry)\<rparr>"
  have s1: "snd (update_oracle C k p entry s) = s1"
    unfolding s1_def using Cons.prems by (intro oracles_update_oracle) auto
  have same: "oracles s1 (k, q) = oracles s (k, q)" "oracles s1 (k, LastBlock) = oracles s (k, LastBlock)" "em_block s1 = em_block s"
    if "q \<in> set ps" for q
    using Cons.prems that by (auto simp: s1_def)
  have "oracle_due s1 k q" if "q \<in> set ps" for q
    using Cons.prems(1) [of q] same [OF that] that by (simp add: oracle_due_def)
  then have "snd (update_periods C k entry ps s1) = set_oracles (\<lambda>q. oracle_after C s1 k q entry) k (set ps) s1"
    using Cons.prems by (intro Cons.IH) (auto simp: s1_def)
  also have "\<dots> = set_oracles (\<lambda>q. oracle_after C s k q entry) k (set (p # ps)) s"
    using same Cons.prems(4) unfolding s1_def list.set by (intro set_oracles_step(1)) (auto intro: oracle_after_cong)
  finally show ?case using s1 by (simp add: split_beta)
qed

definition tracked :: "ema_config \<Rightarrow> oracle_period set" where
  "tracked C = insert LastBlock (set (em_supported_periods C))"

lemma oracles_update_key:
  assumes "\<And>p. p \<in> tracked C \<Longrightarrow> oracle_due s k p" "oe_updated_at entry = em_block s" "distinct (em_supported_periods C)"
  shows "snd (update_oracle C k LastBlock entry (snd (update_periods C k entry (filter (\<lambda>p. p \<noteq> LastBlock) (em_supported_periods C)) s))) =
    set_oracles (\<lambda>p. oracle_after C s k p entry) k (tracked C) s"
proof -
  define P where "P = set (filter (\<lambda>p. p \<noteq> LastBlock) (em_supported_periods C))"
  define s1 where "s1 = set_oracles (\<lambda>p. oracle_after C s k p entry) k P s"
  have s1: "snd (update_periods C k entry (filter (\<lambda>p. p \<noteq> LastBlock) (em_supported_periods C)) s) = s1"
    unfolding s1_def P_def using assms by (intro oracles_update_periods) (auto simp: tracked_def)
  have same: "oracles s1 (k, LastBlock) = oracles s (k, LastBlock)" "em_block s1 = em_block s"
    by (auto simp: s1_def P_def)
  have "oracle_due s1 k LastBlock"
    using assms(1) [of LastBlock] same by (simp add: oracle_due_def tracked_def)
  then have "snd (update_oracle C k LastBlock entry s1) = s1\<lparr>oracles := (oracles s1)((k, LastBlock) \<mapsto> oracle_after C s k LastBlock entry)\<rparr>"
    using oracles_update_oracle [of s1 k LastBlock entry C] oracle_after_cong [OF same(1) same(1) same(2), of C entry] assms(2) same(2) by simp
  also have "\<dots> = set_oracles (\<lambda>p. oracle_after C s k p entry) k (insert LastBlock P) s"
    unfolding s1_def by (rule set_oracles_step(2))
  also have "insert LastBlock P = tracked C" by (auto simp: P_def tracked_def)
  finally show ?thesis unfolding s1 .
qed

text \<open>What the end of a block leaves alone.\<close>

definition same_access :: "ema \<Rightarrow> ema \<Rightarrow> bool" where
  "same_access s s' \<longleftrightarrow> whitelisted_assets s' = whitelisted_assets s \<and> external_sources s' = external_sources s \<and>
     authorized_accounts s' = authorized_accounts s \<and> registry_whitelist s' = registry_whitelist s \<and> em_block s' = em_block s \<and>
     accumulator s' = accumulator s"

lemma same_access_trans [trans]: "same_access s s' \<Longrightarrow> same_access s' s'' \<Longrightarrow> same_access s s''"
  by (simp add: same_access_def)

lemma same_access_update_oracle: "same_access s (snd (update_oracle C k p entry s))"
  by (auto simp: same_access_def update_oracle_def Let_def split: option.splits)

lemma same_access_update_periods: "same_access s (snd (update_periods C k entry ps s))"
proof (induction ps arbitrary: s)
  case Nil
  show ?case by (simp add: same_access_def)
next
  case (Cons p ps)
  show ?case using same_access_trans [OF same_access_update_oracle Cons.IH] by (simp add: split_beta)
qed

lemma em_deposit_sel [simp]:
  "accumulator (em_deposit e s) = accumulator s" "oracles (em_deposit e s) = oracles s" "em_block (em_deposit e s) = em_block s"
  "whitelisted_assets (em_deposit e s) = whitelisted_assets s" "external_sources (em_deposit e s) = external_sources s"
  "authorized_accounts (em_deposit e s) = authorized_accounts s" "registry_whitelist (em_deposit e s) = registry_whitelist s"
  by (simp_all add: em_deposit_def)

lemma same_access_update_from_entries: "same_access s (update_from_entries C xs s)"
proof (induction xs arbitrary: s)
  case Nil
  show ?case by (simp add: same_access_def)
next
  case (Cons x xs)
  have dep: "same_access t (em_deposit e t)" for t e by (simp add: same_access_def)
  show ?case
    using same_access_trans [OF same_access_trans [OF same_access_update_periods same_access_update_oracle] same_access_trans [OF dep Cons.IH]]
    by (simp add: split_beta)
qed

lemma oracles_update_from_entries:
  assumes "\<And>k entry. (k, entry) \<in> set xs \<Longrightarrow> oe_updated_at entry = em_block s \<and> (\<forall>p\<in>tracked C. oracle_due s k p)"
    "distinct (map fst xs)" "distinct (em_supported_periods C)"
  shows "oracles (update_from_entries C xs s) (k, p) =
    (case map_of xs k of Some entry \<Rightarrow> if p \<in> tracked C then Some (oracle_after C s k p entry) else oracles s (k, p)
     | None \<Rightarrow> oracles s (k, p))"
  using assms(1,2)
proof (induction xs arbitrary: s)
  case Nil
  then show ?case by simp
next
  case (Cons x xs)
  obtain k1 entry where x: "x = (k1, entry)" by (cases x)
  define s1 where "s1 = set_oracles (\<lambda>p. oracle_after C s k1 p entry) k1 (tracked C) s"
  have "snd (update_oracle C k1 LastBlock entry (snd (update_periods C k1 entry (filter (\<lambda>p. p \<noteq> LastBlock) (em_supported_periods C)) s))) = s1"
    unfolding s1_def using Cons.prems(1) [of k1 entry] x assms(3) by (intro oracles_update_key) auto
  then obtain ev where run: "update_from_entries C (x # xs) s = update_from_entries C xs (em_deposit ev s1)"
    by (simp add: split_beta x)
  have same: "oracles s1 (k', q) = oracles s (k', q)" if "k' \<noteq> k1" for k' q using that by (simp add: s1_def)
  have k1: "k1 \<notin> fst ` set xs" using Cons.prems(2) x by simp
  have "oe_updated_at e = em_block s1 \<and> (\<forall>q\<in>tracked C. oracle_due (em_deposit ev s1) k' q)" if "(k', e) \<in> set xs" for k' e
  proof -
    have "k' \<noteq> k1" using k1 that by (metis fst_conv image_eqI)
    then show ?thesis using Cons.prems(1) [of k' e] that same by (simp add: oracle_due_def s1_def)
  qed
  then have "oracles (update_from_entries C xs (em_deposit ev s1)) (k, p) =
     (case map_of xs k of Some entry \<Rightarrow> if p \<in> tracked C then Some (oracle_after C (em_deposit ev s1) k p entry) else oracles s1 (k, p)
      | None \<Rightarrow> oracles s1 (k, p))"
    using Cons.IH [of "em_deposit ev s1", unfolded em_deposit_sel] Cons.prems(2) by simp
  moreover have "oracle_after C (em_deposit ev s1) k p e = oracle_after C s k p e" if "k \<noteq> k1" for e
    using same [OF that] by (intro oracle_after_cong) (simp_all add: s1_def)
  moreover have "map_of xs k1 = None" using k1 by (simp add: map_of_eq_None_iff)
  ultimately show ?case
    unfolding run by (cases "k = k1") (auto simp: x s1_def split: option.splits)
qed

section \<open>Runs\<close>

datatype ema_call =
    Add_Oracle oracle_source "asset_id \<times> asset_id"
  | Remove_Oracle oracle_source "asset_id \<times> asset_id"
  | Update_Bifrost_Oracle nat nat "balance \<times> balance"
  | Register_External_Source oracle_source
  | Add_Authorized_Account oracle_source "asset_id \<times> asset_id" account_id
  | Remove_External_Source oracle_source
  | Set_External_Oracle oracle_source nat nat "balance \<times> balance"
  | Remove_Authorized_Account oracle_source "asset_id \<times> asset_id" account_id
  | Set_External_Oracle_By_Ids oracle_source asset_id asset_id "balance \<times> balance"

fun ema_dispatch :: "ema_config \<Rightarrow> origin \<Rightarrow> ema_call \<Rightarrow> ema \<Rightarrow> ema ema_result" where
  "ema_dispatch C orig (Add_Oracle src assets) s = add_oracle C orig src assets s"
| "ema_dispatch C orig (Remove_Oracle src assets) s = remove_oracle C orig src assets s"
| "ema_dispatch C orig (Update_Bifrost_Oracle a b price) s = update_bifrost_oracle C orig a b price s"
| "ema_dispatch C orig (Register_External_Source src) s = register_external_source C orig src s"
| "ema_dispatch C orig (Add_Authorized_Account src assets account) s = add_authorized_account C orig src assets account s"
| "ema_dispatch C orig (Remove_External_Source src) s = remove_external_source C orig src s"
| "ema_dispatch C orig (Set_External_Oracle src a b price) s = set_external_oracle C orig src a b price s"
| "ema_dispatch C orig (Remove_Authorized_Account src assets account) s = remove_authorized_account C orig src assets account s"
| "ema_dispatch C orig (Set_External_Oracle_By_Ids src a b price) s = set_external_oracle_by_ids C orig src a b price s"

definition ema_empty :: ema where
  "ema_empty = \<lparr>accumulator = [], oracles = Map.empty, whitelisted_assets = [], external_sources = {}, authorized_accounts = {},
     registry_whitelist = (\<lambda>_. False), em_block = 0, em_events = []\<rparr>"

text \<open>The genesis state is built at block zero, and the first block is block one.\<close>

inductive ema_reachable :: "ema_config \<Rightarrow> ema \<Rightarrow> bool" for C where
  genesis: "ema_reachable C ((ema_genesis_build C data ema_empty)\<lparr>em_block := 1\<rparr>)"
| call: "ema_reachable C s \<Longrightarrow> ema_dispatch C orig c s = Inr s' \<Longrightarrow> ema_reachable C s'"
| trade: "ema_reachable C s \<Longrightarrow> handler_on_trade C src a b n m l k price shares s = Inr s' \<Longrightarrow> ema_reachable C s'"
| liquidity: "ema_reachable C s \<Longrightarrow> handler_on_liquidity_changed C src a b n m l k price shares s = Inr s' \<Longrightarrow> ema_reachable C s'"
| registry: "ema_reachable C s \<Longrightarrow> ema_reachable C (s\<lparr>registry_whitelist := w\<rparr>)"
| block: "ema_reachable C s \<Longrightarrow> ema_reachable C ((ema_on_finalize C s)\<lparr>em_block := em_block s + 1\<rparr>)"

section \<open>The invariant\<close>

definition internal_entries :: "ema_config \<Rightarrow> ema \<Rightarrow> nat" where
  "internal_entries C s = length (filter (\<lambda>(key, _). em_internal_sources C (fst key)) (accumulator s))"

definition accumulator_ok :: "ema_config \<Rightarrow> ema \<Rightarrow> bool" where
  "accumulator_ok C s \<longleftrightarrow> keys_sorted (accumulator s) \<and> (\<forall>x \<in> set (accumulator s). oe_updated_at (snd x) = em_block s) \<and>
     internal_entries C s \<le> em_max_unique_entries C"

definition oracles_ok :: "ema_config \<Rightarrow> ema \<Rightarrow> bool" where
  "oracles_ok C s \<longleftrightarrow> (\<forall>k p e init. oracles s (k, p) = Some (e, init) \<longrightarrow>
     oe_updated_at e < em_block s \<and> init \<le> oe_updated_at e \<and> p \<in> tracked C \<and> oracles s (k, LastBlock) \<noteq> None)"

definition access_ok :: "ema_config \<Rightarrow> ema \<Rightarrow> bool" where
  "access_ok C s \<longleftrightarrow> length (whitelisted_assets s) \<le> em_max_unique_entries C \<and>
     (\<forall>x \<in> authorized_accounts s. fst (fst x) \<in> external_sources s)"

definition ema_inv :: "ema_config \<Rightarrow> ema \<Rightarrow> bool" where
  "ema_inv C s \<longleftrightarrow> accumulator_ok C s \<and> oracles_ok C s \<and> access_ok C s"

lemma ema_inv_due: "ema_inv C s \<Longrightarrow> oracle_due s k p"
  unfolding ema_inv_def oracles_ok_def oracle_due_def by blast

lemma internal_entries_card:
  "keys_sorted (accumulator s) \<Longrightarrow>
     internal_entries C s = card {k \<in> fst ` set (accumulator s). em_internal_sources C (fst k)}"
  unfolding internal_entries_def by (rule count_keys)

lemma on_entry_cases:
  assumes "on_entry C src assets entry s = Some s'"
  obtains "s' = s" | e where "map_of (accumulator s) (src, assets) = Some e"
      "s' = s\<lparr>accumulator := bt_insert (src, assets) (accumulate_volume_and_update_from e entry) (accumulator s)\<rparr>"
  | "map_of (accumulator s) (src, assets) = None" "em_internal_sources C src \<Longrightarrow> internal_entries C s < em_max_unique_entries C"
      "s' = s\<lparr>accumulator := bt_insert (src, assets) entry (accumulator s)\<rparr>"
proof (cases "\<not> oracle_whitelist s (src, assets) \<and> em_internal_sources C src")
  case True
  then show ?thesis using assms that(1) by (simp add: on_entry_def)
next
  case False
  then have run: "on_entry C src assets entry s = (case map_of (accumulator s) (src, assets) of
      Some e \<Rightarrow> Some (s\<lparr>accumulator := bt_insert (src, assets) (accumulate_volume_and_update_from e entry) (accumulator s)\<rparr>)
    | None \<Rightarrow> if em_internal_sources C src \<and> em_max_unique_entries C \<le> internal_entries C s then None
        else Some (s\<lparr>accumulator := bt_insert (src, assets) entry (accumulator s)\<rparr>))"
    unfolding on_entry_def internal_entries_def Let_def by (rule if_not_P)
  show ?thesis
  proof (cases "map_of (accumulator s) (src, assets)")
    case None
    have "\<not> (em_internal_sources C src \<and> em_max_unique_entries C \<le> internal_entries C s)"
    proof
      assume "em_internal_sources C src \<and> em_max_unique_entries C \<le> internal_entries C s"
      then show False using assms unfolding run None by simp
    qed
    then show ?thesis using assms that(3) [OF None] unfolding run None option.case by (auto simp: not_le)
  next
    case (Some e)
    then show ?thesis using assms that(2) unfolding run by simp
  qed
qed

lemma ema_inv_insert:
  assumes "ema_inv C s" "oe_updated_at e = em_block s"
    "(src, assets) \<notin> fst ` set (accumulator s) \<Longrightarrow> em_internal_sources C src \<Longrightarrow> internal_entries C s < em_max_unique_entries C"
  shows "ema_inv C (s\<lparr>accumulator := bt_insert (src, assets) e (accumulator s)\<rparr>)"
proof -
  let ?K = "{k \<in> fst ` set (accumulator s). em_internal_sources C (fst k)}"
  let ?K' = "{k \<in> insert (src, assets) (fst ` set (accumulator s)). em_internal_sources C (fst k)}"
  have acc: "keys_sorted (accumulator s)" "internal_entries C s \<le> em_max_unique_entries C" "\<forall>x \<in> set (accumulator s). oe_updated_at (snd x) = em_block s"
    using assms(1) by (simp_all add: ema_inv_def accumulator_ok_def)
  have "?K' = (if em_internal_sources C src then insert (src, assets) ?K else ?K)" by auto
  then have "card ?K' \<le> em_max_unique_entries C"
    using acc(2) assms(3) internal_entries_card [OF acc(1), of C] by (auto simp: card_insert_if)
  then have "internal_entries C (s\<lparr>accumulator := bt_insert (src, assets) e (accumulator s)\<rparr>) \<le> em_max_unique_entries C"
    using acc(1) by (subst internal_entries_card) simp_all
  moreover have "\<forall>x \<in> set (bt_insert (src, assets) e (accumulator s)). oe_updated_at (snd x) = em_block s"
    using acc(3) assms(2) by (auto dest: set_bt_insert)
  ultimately show ?thesis using assms(1) acc(1) by (simp add: ema_inv_def accumulator_ok_def oracles_ok_def access_ok_def)
qed

lemma on_entry_inv:
  assumes "ema_inv C s" "on_entry C src assets entry s = Some s'" "oe_updated_at entry = em_block s"
  shows "ema_inv C s'"
  using assms(2)
proof (cases rule: on_entry_cases)
  case 1
  then show ?thesis using assms by simp
next
  case (2 e)
  then have "(src, assets) \<in> fst ` set (accumulator s)" by (force dest: map_of_SomeD)
  then show ?thesis unfolding 2 using assms by (intro ema_inv_insert) (auto simp: accumulate_volume_and_update_from_def)
next
  case 3
  then show ?thesis unfolding 3(3) using assms by (intro ema_inv_insert) auto
qed

lemma internal_entries_mono:
  assumes "keys_sorted (accumulator s)" "keys_sorted (accumulator s')" "set (accumulator s') \<subseteq> set (accumulator s)"
  shows "internal_entries C s' \<le> internal_entries C s"
  using assms by (auto simp: internal_entries_card intro!: card_mono)

lemma initial_entry_updated [simp]: "oe_updated_at (initial_entry a b price l sh) = 0"
  by (simp add: initial_entry_def Let_def entry_inverted_def)

lemma do_set_oracle_inner_run:
  assumes "do_set_oracle_inner C who src a b price s = Inr s'"
  obtains entry where "src \<in> external_sources s" "((src, ema_ordered_pair a b), who) \<in> authorized_accounts s"
    "fst price \<noteq> 0" "snd price \<noteq> 0" "oe_updated_at entry = em_block s" "on_entry C src (ema_ordered_pair a b) entry s = Some s'"
proof -
  define e where "e = \<lparr>oe_price = ratio_new (fst price) (snd price), oe_volume = volume_default, oe_liquidity = \<lparr>liq_a = 0, liq_b = 0\<rparr>,
    oe_shares_issuance = None, oe_updated_at = em_block s\<rparr>"
  define entry where "entry = (if ema_ordered_pair a b = (a, b) then e else entry_inverted e)"
  have "oe_updated_at entry = em_block s" by (simp add: entry_def e_def entry_inverted_def)
  then show ?thesis
    using assms that [of entry]
    unfolding do_set_oracle_inner_def Let_def e_def [symmetric] entry_def [symmetric] by (elim run_elims) (auto simp: res_iff)
qed

lemma do_set_oracle_run:
  "do_set_oracle C who src x y price s = Inr s' \<Longrightarrow> \<exists>a b. do_set_oracle_inner C who src a b price s = Inr s'"
  unfolding do_set_oracle_def by (elim run_elims) blast

lemma remove_periods_sel [simp]:
  "oracles (remove_periods k ps s) (k', p) = (if k' = k \<and> p \<in> set ps then None else oracles s (k', p))"
  "accumulator (remove_periods k ps s) = (if ps = [] then accumulator s else bt_remove k (accumulator s))"
  "em_block (remove_periods k ps s) = em_block s" "whitelisted_assets (remove_periods k ps s) = whitelisted_assets s"
  "external_sources (remove_periods k ps s) = external_sources s" "authorized_accounts (remove_periods k ps s) = authorized_accounts s"
  by (induction ps arbitrary: s) (auto simp: bt_remove_def bt_retain_def)

text \<open>Taking oracles and entries of a key away keeps the invariant, where all periods of the key go.\<close>

lemma ema_inv_removal:
  assumes "ema_inv C s" "em_block s' = em_block s" "access_ok C s'" "keys_sorted (accumulator s')" "set (accumulator s') \<subseteq> set (accumulator s)"
    "\<And>k p. oracles s' (k, p) = None \<or> oracles s' (k, p) = oracles s (k, p)"
    "\<And>k p. oracles s' (k, LastBlock) = None \<Longrightarrow> oracles s (k, LastBlock) \<noteq> None \<Longrightarrow> p \<in> tracked C \<Longrightarrow> oracles s' (k, p) = None"
  shows "ema_inv C s'"
proof -
  have "accumulator_ok C s'"
    using assms(1,2,4,5) internal_entries_mono [of s s' C] by (auto simp: ema_inv_def accumulator_ok_def)
  moreover have "oracles_ok C s'"
    unfolding oracles_ok_def
  proof (intro allI impI)
    fix k p e init
    assume a: "oracles s' (k, p) = Some (e, init)"
    then have "oracles s (k, p) = Some (e, init)" using assms(6) [of k p] by simp
    then have "oe_updated_at e < em_block s \<and> init \<le> oe_updated_at e \<and> p \<in> tracked C \<and> oracles s (k, LastBlock) \<noteq> None"
      using assms(1) unfolding ema_inv_def oracles_ok_def by blast
    then show "oe_updated_at e < em_block s' \<and> init \<le> oe_updated_at e \<and> p \<in> tracked C \<and> oracles s' (k, LastBlock) \<noteq> None"
      using a assms(2) assms(7) [of k p] by (metis option.distinct(1))
  qed
  ultimately show ?thesis using assms(3) by (simp add: ema_inv_def)
qed

lemma remove_oracle_inv:
  assumes "ema_inv C s" "remove_oracle C orig src assets s = Inr s'" "LastBlock \<in> set (em_supported_periods C)"
  shows "ema_inv C s'"
proof -
  define k where "k = (src, ema_ordered_pair (fst assets) (snd assets))"
  define t where "t = remove_periods k (em_supported_periods C) (s\<lparr>whitelisted_assets := remove1 k (whitelisted_assets s)\<rparr>)"
  have s': "s' = em_deposit (RemovedFromWhitelist src (snd k)) t"
    using assms(2) by (auto simp: remove_oracle_def k_def t_def Let_def res_iff)
  have ne: "em_supported_periods C \<noteq> []" using assms(3) by auto
  show ?thesis
  proof (rule ema_inv_removal [OF assms(1)])
    show "access_ok C s'" using assms(1) by (auto simp: s' t_def ema_inv_def access_ok_def length_remove1)
    show "keys_sorted (accumulator s')" using assms(1) by (simp add: s' t_def ema_inv_def accumulator_ok_def)
    show "set (accumulator s') \<subseteq> set (accumulator s)" by (auto simp: s' t_def dest: set_bt_remove)
    show "oracles s' (k', p) = None \<or> oracles s' (k', p) = oracles s (k', p)" for k' p by (auto simp: s' t_def)
    show "oracles s' (k', p) = None" if "oracles s' (k', LastBlock) = None" "oracles s (k', LastBlock) \<noteq> None" "p \<in> tracked C" for k' p
      using that assms(3) by (auto simp: s' t_def tracked_def split: if_splits)
  qed (simp add: s' t_def)
qed

lemma remove_external_source_inv:
  assumes "ema_inv C s" "remove_external_source C orig src s = Inr s'"
  shows "ema_inv C s'"
proof -
  have s': "s' = em_deposit (ExternalSourceRemoved src)
       (s\<lparr>external_sources := external_sources s - {src},
          authorized_accounts := Set.filter (\<lambda>(key, _). fst key \<noteq> src) (authorized_accounts s),
          oracles := (\<lambda>(key, p). if fst key = src then None else oracles s (key, p)),
          accumulator := bt_retain (\<lambda>key. fst key \<noteq> src) (accumulator s)\<rparr>)"
    using assms(2) by (auto simp: remove_external_source_def res_iff)
  show ?thesis
  proof (rule ema_inv_removal [OF assms(1)])
    show "access_ok C s'" using assms(1) by (auto simp: s' ema_inv_def access_ok_def)
    show "keys_sorted (accumulator s')" using assms(1) by (simp add: s' ema_inv_def accumulator_ok_def)
    show "set (accumulator s') \<subseteq> set (accumulator s)" by (auto simp: s' dest: set_bt_retain)
  qed (auto simp: s' split: if_splits)
qed

text \<open>The calls of the authority that only touch lists.\<close>

lemma ema_inv_access:
  "ema_inv C s \<Longrightarrow> oracles s' = oracles s \<Longrightarrow> accumulator s' = accumulator s \<Longrightarrow> em_block s' = em_block s \<Longrightarrow> access_ok C s' \<Longrightarrow> ema_inv C s'"
  by (simp add: ema_inv_def accumulator_ok_def oracles_ok_def internal_entries_def)

lemma add_oracle_inv:
  assumes "ema_inv C s" "add_oracle C orig src assets s = Inr s'"
  shows "ema_inv C s'"
  using assms(2) unfolding add_oracle_def Let_def
  by (elim run_elims, hypsubst, intro ema_inv_access [OF assms(1)])
    (use assms(1) in \<open>auto simp: ema_inv_def access_ok_def dest: length_bts_try_insert\<close>)

lemma register_external_source_inv:
  assumes "ema_inv C s" "register_external_source C orig src s = Inr s'"
  shows "ema_inv C s'"
  using assms(2) unfolding register_external_source_def
  by (elim run_elims, hypsubst, intro ema_inv_access [OF assms(1)])
    (use assms(1) in \<open>fastforce simp: ema_inv_def access_ok_def\<close>)+

lemma add_authorized_account_inv:
  assumes "ema_inv C s" "add_authorized_account C orig src assets account s = Inr s'"
  shows "ema_inv C s'"
  using assms(2) unfolding add_authorized_account_def Let_def
  by (elim run_elims, hypsubst, intro ema_inv_access [OF assms(1)])
    (use assms(1) in \<open>fastforce simp: ema_inv_def access_ok_def\<close>)+

lemma remove_authorized_account_inv:
  assumes "ema_inv C s" "remove_authorized_account C orig src assets account s = Inr s'"
  shows "ema_inv C s'"
  using assms(2) unfolding remove_authorized_account_def Let_def
  by (elim run_elims, hypsubst, intro ema_inv_access [OF assms(1)])
    (use assms(1) in \<open>fastforce simp: ema_inv_def access_ok_def\<close>)+

lemma do_set_oracle_inner_inv:
  "ema_inv C s \<Longrightarrow> do_set_oracle_inner C who src a b price s = Inr s' \<Longrightarrow> ema_inv C s'"
  by (erule do_set_oracle_inner_run) (rule on_entry_inv)

text \<open>A call that sets a price is \<open>do_set_oracle_inner\<close> of the account that signed it.\<close>

lemma price_calls:
  assumes "ema_dispatch C orig c s = Inr s'"
    "c = Update_Bifrost_Oracle x y price \<or> c = Set_External_Oracle src x y price \<or> c = Set_External_Oracle_By_Ids src x y price"
  obtains who src' a b where "orig = Signed who" "do_set_oracle_inner C who src' a b price s = Inr s'"
  using assms
  by (auto simp: update_bifrost_oracle_def set_external_oracle_def set_external_oracle_by_ids_def res_iff dest!: do_set_oracle_run)

lemma ema_dispatch_inv:
  assumes "ema_inv C s" "ema_dispatch C orig c s = Inr s'" "LastBlock \<in> set (em_supported_periods C)"
  shows "ema_inv C s'"
proof (cases c)
  case (Update_Bifrost_Oracle a b price)
  then show ?thesis using assms price_calls [OF assms(2)] do_set_oracle_inner_inv by metis
next
  case (Set_External_Oracle src a b price)
  then show ?thesis using assms price_calls [OF assms(2)] do_set_oracle_inner_inv by metis
next
  case (Set_External_Oracle_By_Ids src a b price)
  then show ?thesis using assms price_calls [OF assms(2)] do_set_oracle_inner_inv by metis
qed (use assms in \<open>auto intro: add_oracle_inv remove_oracle_inv register_external_source_inv add_authorized_account_inv
  remove_external_source_inv remove_authorized_account_inv\<close>)

lemma handlers_inv:
  "ema_inv C s \<Longrightarrow> handler_on_trade C src a b n m l k price shares s = Inr s' \<Longrightarrow> ema_inv C s'"
  "ema_inv C s \<Longrightarrow> handler_on_liquidity_changed C src a b n m l k price shares s = Inr s' \<Longrightarrow> ema_inv C s'"
  by (auto simp: handler_on_trade_def handler_on_liquidity_changed_def em_on_trade_def em_on_liquidity_changed_def res_iff
      intro: on_entry_inv)

text \<open>The oracles at the end of a block.\<close>

lemma oracles_on_finalize:
  assumes "ema_inv C s" "distinct (em_supported_periods C)"
  shows "oracles (ema_on_finalize C s) (k, p) =
    (case map_of (accumulator s) k of Some entry \<Rightarrow> if p \<in> tracked C then Some (oracle_after C s k p entry) else oracles s (k, p)
     | None \<Rightarrow> oracles s (k, p))"
proof -
  define t where "t = s\<lparr>accumulator := []\<rparr>"
  have acc: "keys_sorted (accumulator s)" "\<forall>x \<in> set (accumulator s). oe_updated_at (snd x) = em_block s"
    using assms(1) by (simp_all add: ema_inv_def accumulator_ok_def)
  have due: "oracle_due t k p" for k p using ema_inv_due [OF assms(1), of k p] by (simp add: oracle_due_def t_def)
  have pre: "oe_updated_at e = em_block t \<and> (\<forall>p\<in>tracked C. oracle_due t k p)" if "(k, e) \<in> set (accumulator s)" for k e
    using bspec [OF acc(2) that] due by (simp add: t_def)
  have cong: "oracle_after C t k p e = oracle_after C s k p e" "oracles t = oracles s" for e
    by (rule oracle_after_cong) (simp_all add: t_def)
  show ?thesis
    unfolding ema_on_finalize_def update_oracles_from_accumulator_def t_def [symmetric]
    using oracles_update_from_entries [OF pre keys_sorted_distinct [OF acc(1)] assms(2), of k p] unfolding cong .
qed

lemma oracle_after_read:
  assumes "oracle_due s k p" "oe_updated_at entry = em_block s"
  shows "case get_updated_entry C k p s of
      None \<Rightarrow> oracles s (k, p) = None \<and> oracle_after C s k p entry = (entry, em_block s)
    | Some (e, init) \<Rightarrow> \<exists>prev e'. oracles s (k, p) = Some (prev, init) \<and>
        calculate_new_by_integrating_incoming (em_arith C) e p entry = Some e' \<and> oe_updated_at e' = em_block s \<and>
        oracle_after C s k p entry = (e', init)"
proof (cases "oracles s (k, p)")
  case None
  then show ?thesis by (simp add: oracle_after_def no_oracle_no_reading)
next
  case (Some x)
  obtain prev init where x: "oracles s (k, p) = Some (prev, init)" using Some by (cases x) simp
  show ?thesis
  proof (rule update_existing_reads [OF x assms(1), of C])
    fix e assume e: "get_updated_entry C k p s = Some (e, init)" "oe_updated_at e + 1 = em_block s"
    then obtain e' where "calculate_new_by_integrating_incoming (em_arith C) e p entry = Some e'" "oe_updated_at e' = em_block s"
      using integrate_next [of e entry "em_arith C" p] assms(2) by auto
    then show ?thesis using e x by (simp add: oracle_after_def)
  qed
qed

lemma finalize_access: "same_access (s\<lparr>accumulator := []\<rparr>) (ema_on_finalize C s)"
  unfolding ema_on_finalize_def update_oracles_from_accumulator_def by (rule same_access_update_from_entries)

abbreviation next_block :: "ema_config \<Rightarrow> ema \<Rightarrow> ema" where
  "next_block C s \<equiv> (ema_on_finalize C s)\<lparr>em_block := em_block s + 1\<rparr>"

lemma finalize_inv:
  assumes "ema_inv C s" "distinct (em_supported_periods C)"
  shows "ema_inv C (next_block C s)"
proof -
  have acc: "accumulator_ok C (next_block C s)" "access_ok C (next_block C s)"
    using finalize_access [of s C] assms(1) by (simp_all add: same_access_def accumulator_ok_def internal_entries_def access_ok_def ema_inv_def)
  have upd: "\<forall>x \<in> set (accumulator s). oe_updated_at (snd x) = em_block s" using assms(1) by (simp add: ema_inv_def accumulator_ok_def)
  have ok: "oe_updated_at e < em_block s \<and> init \<le> oe_updated_at e \<and> p \<in> tracked C \<and> oracles s (k, LastBlock) \<noteq> None"
    if "oracles s (k, p) = Some (e, init)" for k p e init
    using assms(1) that unfolding ema_inv_def oracles_ok_def by blast
  have "oracles_ok C (next_block C s)"
    unfolding oracles_ok_def
  proof (intro allI impI)
    fix k p e init
    assume o: "oracles (next_block C s) (k, p) = Some (e, init)"
    note fin = oracles_on_finalize [OF assms]
    show "oe_updated_at e < em_block (next_block C s) \<and> init \<le> oe_updated_at e \<and> p \<in> tracked C \<and> oracles (next_block C s) (k, LastBlock) \<noteq> None"
    proof (cases "map_of (accumulator s) k")
      case None
      then show ?thesis using o ok [of k p e init] by (auto simp: fin)
    next
      case (Some entry)
      have en: "oe_updated_at entry = em_block s" using upd map_of_SomeD [OF Some] by fastforce
      have lb: "oracles (next_block C s) (k, LastBlock) \<noteq> None" using Some by (simp add: fin tracked_def)
      show ?thesis
      proof (cases "p \<in> tracked C")
        case True
        then have e: "oracle_after C s k p entry = (e, init)" using o Some by (simp add: fin)
        then have "oe_updated_at e = em_block s \<and> init \<le> em_block s"
          using oracle_after_read [OF ema_inv_due [OF assms(1)] en, of k p C] en ok [of k p _ init]
          by (cases "get_updated_entry C k p s") (force)+
        then show ?thesis using True lb by simp
      next
        case False
        then show ?thesis using o Some ok [of k p e init] by (simp add: fin)
      qed
    qed
  qed
  with acc show ?thesis by (simp add: ema_inv_def)
qed

section \<open>Genesis\<close>

definition genesis_ok :: "ema_config \<Rightarrow> ema \<Rightarrow> bool" where
  "genesis_ok C s \<longleftrightarrow> em_block s = 0 \<and> accumulator s = [] \<and> whitelisted_assets s = [] \<and> authorized_accounts s = {} \<and>
     (\<forall>k p e init. oracles s (k, p) = Some (e, init) \<longrightarrow> oe_updated_at e = 0 \<and> init = 0 \<and> p \<in> set (em_supported_periods C))"

lemma genesis_update_oracle:
  assumes "genesis_ok C s" "oe_updated_at entry = 0" "p \<in> set (em_supported_periods C)"
  shows "genesis_ok C (snd (update_oracle C k p entry s))"
    "oracles (snd (update_oracle C k p entry s)) (k', q) \<noteq> None \<longleftrightarrow> oracles s (k', q) \<noteq> None \<or> k' = k \<and> q = p"
proof -
  have ex: "update_existing C k p entry prev s = prev" if "oe_updated_at prev = 0" for prev
    using assms(1,2) that
    by (simp add: update_existing_def genesis_ok_def saturating_sub_def calculate_new_by_integrating_incoming_def checked_sub_def)
  show "oracles (snd (update_oracle C k p entry s)) (k', q) \<noteq> None \<longleftrightarrow> oracles s (k', q) \<noteq> None \<or> k' = k \<and> q = p"
    by (auto simp: update_oracle_def Let_def split: option.splits)
  have ok: "oe_updated_at e = 0 \<and> init = 0 \<and> q \<in> set (em_supported_periods C)" if "oracles s (k', q) = Some (e, init)" for k' q e init
    using assms(1) that unfolding genesis_ok_def by blast
  show "genesis_ok C (snd (update_oracle C k p entry s))"
  proof (cases "oracles s (k, p)")
    case None
    then show ?thesis using assms by (simp add: update_oracle_def genesis_ok_def)
  next
    case (Some x)
    then obtain prev init where x: "oracles s (k, p) = Some (prev, init)" by (cases x) simp
    then show ?thesis using assms(1) ok [OF x] by (simp add: update_oracle_def Let_def ex fun_upd_idem)
  qed
qed

lemma genesis_update_periods:
  assumes "genesis_ok C s" "oe_updated_at entry = 0" "set ps \<subseteq> set (em_supported_periods C)"
  shows "genesis_ok C (snd (update_periods C k entry ps s)) \<and>
    (\<forall>k' q. oracles (snd (update_periods C k entry ps s)) (k', q) \<noteq> None \<longleftrightarrow> oracles s (k', q) \<noteq> None \<or> k' = k \<and> q \<in> set ps)"
  using assms
proof (induction ps arbitrary: s)
  case Nil
  then show ?case by simp
next
  case (Cons p ps)
  note one = genesis_update_oracle [of C s entry p k]
  have "genesis_ok C (snd (update_oracle C k p entry s))" using Cons.prems by (intro one(1)) auto
  from Cons.IH [OF this] show ?case using Cons.prems one(2) by (simp add: split_beta) blast
qed

lemma genesis_build_ok:
  assumes "genesis_ok C s" "\<And>k p. oracles s (k, p) \<noteq> None \<Longrightarrow> oracles s (k, LastBlock) \<noteq> None" "LastBlock \<in> set (em_supported_periods C)"
  shows "genesis_ok C (ema_genesis_build C data s) \<and>
    (\<forall>k p. oracles (ema_genesis_build C data s) (k, p) \<noteq> None \<longrightarrow> oracles (ema_genesis_build C data s) (k, LastBlock) \<noteq> None)"
  using assms(1,2)
proof (induction data arbitrary: s)
  case Nil
  then show ?case by simp
next
  case (Cons x xs)
  obtain src a b price l sh where x: "x = (src, (a, b), price, l, sh)" by (metis prod.collapse)
  define t where "t = snd (update_periods C (src, ema_ordered_pair a b) (initial_entry a b price l sh) (em_supported_periods C) s)"
  have "genesis_ok C t" "\<And>k p. oracles t (k, p) \<noteq> None \<Longrightarrow> oracles t (k, LastBlock) \<noteq> None"
    unfolding t_def using genesis_update_periods [OF Cons.prems(1), of "initial_entry a b price l sh" "em_supported_periods C"] Cons.prems(2) assms(3)
    by (simp, metis initial_entry_updated order_refl)
  from Cons.IH [OF this] show ?case by (simp add: x t_def)
qed

lemma ema_genesis_inv:
  assumes "LastBlock \<in> set (em_supported_periods C)"
  shows "ema_inv C ((ema_genesis_build C data ema_empty)\<lparr>em_block := 1\<rparr>)"
proof -
  define g where "g = ema_genesis_build C data ema_empty"
  have "genesis_ok C g \<and> (\<forall>k p. oracles g (k, p) \<noteq> None \<longrightarrow> oracles g (k, LastBlock) \<noteq> None)"
    unfolding g_def by (rule genesis_build_ok [OF _ _ assms]) (simp_all add: genesis_ok_def ema_empty_def)
  then have g: "genesis_ok C g" "\<forall>k p. oracles g (k, p) \<noteq> None \<longrightarrow> oracles g (k, LastBlock) \<noteq> None" by blast+
  then have o: "oe_updated_at e = 0 \<and> init = 0 \<and> p \<in> set (em_supported_periods C) \<and> oracles g (k, LastBlock) \<noteq> None"
    if "oracles g (k, p) = Some (e, init)" for k p e init
    using that unfolding genesis_ok_def by blast
  have "oracles_ok C (g\<lparr>em_block := 1\<rparr>)"
    unfolding oracles_ok_def using o by (simp add: tracked_def)
  then show ?thesis
    using g(1) by (simp add: ema_inv_def accumulator_ok_def access_ok_def internal_entries_def genesis_ok_def g_def)
qed

lemma ema_reachable_inv:
  assumes "ema_reachable C s" "LastBlock \<in> set (em_supported_periods C)" "distinct (em_supported_periods C)"
  shows "ema_inv C s"
  using assms(1)
proof induction
  case (registry s w)
  then show ?case by (simp add: ema_inv_def access_ok_def accumulator_ok_def oracles_ok_def internal_entries_def)
qed (use assms(2,3) in \<open>auto intro: ema_genesis_inv ema_dispatch_inv handlers_inv finalize_inv simp del: One_nat_def\<close>)

section \<open>Properties\<close>

lemma stored_now_is_read:
  assumes "oracles s (k, p) = Some (e, init)" "oe_updated_at e + 1 = em_block s" "oracles s (k, LastBlock) \<noteq> None"
  shows "get_updated_entry C k p s = Some (e, init)"
proof -
  obtain lb li where lb: "last_block_oracle k (oe_updated_at e) s = Some (lb, li)"
    using assms(3) by (auto simp: last_block_oracle_def split: prod.splits)
  have "saturating_sub (em_block s) 1 = oe_updated_at e" using assms(2) by (simp add: saturating_sub_def)
  then show ?thesis
    using assms(1,2) lb by (cases "p = LastBlock") (auto simp: get_updated_entry_def last_block_oracle_def)
qed

text \<open>
  (C8) At the end of a block in which a pair had data, every tracked period is updated without a default being taken: what the next block reads is
  what the block itself read, integrated with the data accumulated in the block, with the same first block; a period read for
  the first time starts from the data of the block.
\<close>

theorem ema_finalize_integrates:
  assumes "ema_reachable C s" "LastBlock \<in> set (em_supported_periods C)" "distinct (em_supported_periods C)"
    "map_of (accumulator s) k = Some entry" "p = LastBlock \<or> p \<in> set (em_supported_periods C)"
  shows "case get_updated_entry C k p s of
      None \<Rightarrow> get_updated_entry C k p ((ema_on_finalize C s)\<lparr>em_block := em_block s + 1\<rparr>) = Some (entry, em_block s)
    | Some (e, init) \<Rightarrow> \<exists>e'. calculate_new_by_integrating_incoming (em_arith C) e p entry = Some e' \<and>
        get_updated_entry C k p ((ema_on_finalize C s)\<lparr>em_block := em_block s + 1\<rparr>) = Some (e', init)"
proof -
  note inv = ema_reachable_inv [OF assms(1-3)]
  have en: "oe_updated_at entry = em_block s"
    using inv map_of_SomeD [OF assms(4)] by (fastforce simp: ema_inv_def accumulator_ok_def)
  have tr: "p \<in> tracked C" "LastBlock \<in> tracked C" using assms(5) by (auto simp: tracked_def)
  have o: "oracles (next_block C s) (k, q) = Some (oracle_after C s k q entry)" if "q \<in> tracked C" for q
    using oracles_on_finalize [OF inv assms(3), of k q] assms(4) that by simp
  have read: "get_updated_entry C k p (next_block C s) = Some (e, init)"
    if "oracle_after C s k p entry = (e, init)" "oe_updated_at e = em_block s" for e init
    using o [OF tr(1)] o [OF tr(2)] that by (intro stored_now_is_read) simp_all
  from oracle_after_read [OF ema_inv_due [OF inv] en, of k p C] show ?thesis
    using read en by (auto split: option.splits)
qed

text \<open>
  (C18) A call changes the data of a source and pair, pending or stored, only if it is signed by an account that is authorised for exactly this source and
  pair, and then only the pending entry of the block, or if it comes from the authority, and then it only deletes. Authorisations are
  added by the authority alone.
\<close>

theorem ema_data_changed_by_authorised:
  assumes "ema_dispatch C orig c s = Inr s'"
  shows "(map_of (accumulator s') (src, pair) \<noteq> map_of (accumulator s) (src, pair) \<or>
      (\<exists>p. oracles s' ((src, pair), p) \<noteq> oracles s ((src, pair), p)) \<longrightarrow>
      (\<exists>who. orig = Signed who \<and> src \<in> external_sources s \<and> ((src, pair), who) \<in> authorized_accounts s \<and> oracles s' = oracles s) \<or>
      em_authority C orig \<and> map_of (accumulator s') (src, pair) = None \<and>
        (\<forall>p. oracles s' ((src, pair), p) = None \<or> oracles s' ((src, pair), p) = oracles s ((src, pair), p))) \<and>
    (\<not> authorized_accounts s' \<subseteq> authorized_accounts s \<longrightarrow> em_authority C orig)"
proof -
  have price: ?thesis if "orig = Signed who" "do_set_oracle_inner C who src' a b price s = Inr s'" for who src' a b price
    using that(2)
  proof (cases rule: do_set_oracle_inner_run)
    case (1 entry)
    from 1(6) have "oracles s' = oracles s \<and> authorized_accounts s' = authorized_accounts s \<and>
        (map_of (accumulator s') (src, pair) \<noteq> map_of (accumulator s) (src, pair) \<longrightarrow> (src, pair) = (src', ema_ordered_pair a b))"
      by (cases rule: on_entry_cases) auto
    then show ?thesis using 1(1,2) that(1) by auto
  qed
  show ?thesis
  proof (cases c)
    case (Update_Bifrost_Oracle a b pr)
    then show ?thesis using price_calls [OF assms] price by metis
  next
    case (Set_External_Oracle sr a b pr)
    then show ?thesis using price_calls [OF assms] price by metis
  next
    case (Set_External_Oracle_By_Ids sr a b pr)
    then show ?thesis using price_calls [OF assms] price by metis
  qed (use assms in \<open>auto simp: em_ensure_authority_def add_oracle_def remove_oracle_def register_external_source_def remove_external_source_def
      add_authorized_account_def remove_authorized_account_def Let_def res_iff split: if_splits\<close>)
qed

definition entry_u128 :: "oracle_entry \<Rightarrow> bool" where
  "entry_u128 e \<longleftrightarrow> liq_a (oe_liquidity e) \<le> umax 128 \<and> liq_b (oe_liquidity e) \<le> umax 128 \<and> vol_a_in (oe_volume e) \<le> umax 128 \<and>
     vol_b_out (oe_volume e) \<le> umax 128 \<and> vol_a_out (oe_volume e) \<le> umax 128 \<and> vol_b_in (oe_volume e) \<le> umax 128"

definition volume_le :: "volume \<Rightarrow> volume \<Rightarrow> bool" where
  "volume_le v w \<longleftrightarrow> vol_a_in v \<le> vol_a_in w \<and> vol_b_out v \<le> vol_b_out w \<and> vol_a_out v \<le> vol_a_out w \<and> vol_b_in v \<le> vol_b_in w"

definition between :: "nat \<Rightarrow> nat \<Rightarrow> nat \<Rightarrow> bool" where
  "between x y z \<longleftrightarrow> min x y \<le> z \<and> z \<le> max x y"

lemma outdated_between:
  assumes "sp_arith A" "entry_u128 prev" "entry_u128 lb" "calculate_current_from_outdated A F prev p lb = Some e" "p \<noteq> LastBlock"
  shows "between (liq_a (oe_liquidity prev)) (liq_a (oe_liquidity lb)) (liq_a (oe_liquidity e))"
    "between (liq_b (oe_liquidity prev)) (liq_b (oe_liquidity lb)) (liq_b (oe_liquidity e))" "volume_le (oe_volume e) (oe_volume prev)"
proof -
  obtain n where e: "e = entry_of_data (ema_update_outdated A F n (raw_data prev)
      (oe_price lb, (liq_a (oe_liquidity lb), liq_b (oe_liquidity lb)), oe_shares_issuance lb) (into_smoothing p)) (oe_updated_at lb)"
    using assms(4,5) by (auto simp: calculate_current_from_outdated_def split: if_splits bind_splits)
  define w where "w = exp_smoothing F (into_smoothing p) n"
  have w: "w \<le> DIV" by (simp add: w_def exp_smoothing_def Let_def)
  note avg = sp_arith.balance_average_between [OF assms(1) w]
  have z: "0 \<le> umax 128" by simp
  show "between (liq_a (oe_liquidity prev)) (liq_a (oe_liquidity lb)) (liq_a (oe_liquidity e))"
    "between (liq_b (oe_liquidity prev)) (liq_b (oe_liquidity lb)) (liq_b (oe_liquidity e))" "volume_le (oe_volume e) (oe_volume prev)"
    using assms(2,3) avg avg(2) [OF _ z]
    by (simp_all add: e entry_of_data_def raw_data_def volume_tuple_def volume_of_tuple_def Let_def w_def [symmetric] between_def volume_le_def entry_u128_def)
qed

lemma into_smoothing_le: "into_smoothing p \<le> DIV"
  by (cases p) (simp_all add: DIV_def)

text \<open>
  (C38) What a reader sees of an oracle that has not been updated for a while lies between the stored value and the value of the last block with data: the
  liquidity of each asset is between the two, and the volumes have only decayed. The power that the smoothing factor subtracts from one
  never exceeds one, for any number of blocks, so that the subtraction cannot underflow.
\<close>

theorem ema_reading_between:
  assumes "sp_arith (em_arith C)" "fixed_lib (em_fixed C)" "oracles s (k, p) = Some (prev, init)" "oracles s (k, LastBlock) = Some (lb, i)"
    "entry_u128 prev" "entry_u128 lb" "get_updated_entry C k p s = Some (e, init')" "n \<le> umax 32"
  shows "saturating_powi_high_precision (em_fixed C) (DIV - into_smoothing p) n \<le> DIV \<and> init' = init \<and>
    between (liq_a (oe_liquidity prev)) (liq_a (oe_liquidity lb)) (liq_a (oe_liquidity e)) \<and>
    between (liq_b (oe_liquidity prev)) (liq_b (oe_liquidity lb)) (liq_b (oe_liquidity e)) \<and> volume_le (oe_volume e) (oe_volume prev)"
proof -
  have n: "n \<le> umax 128" using assms(8) by (simp add: umax_def)
  have pow: "saturating_powi_high_precision (em_fixed C) (DIV - into_smoothing p) n \<le> DIV"
    by (rule fixed_lib.power_fraction [OF assms(2) _ n]) simp
  obtain lb' where lb': "last_block_oracle k (saturating_sub (em_block s) 1) s = Some (lb', i)" "oe_liquidity lb' = oe_liquidity lb"
      "oe_volume lb' = oe_volume lb \<or> oe_volume lb' = volume_default" "entry_u128 lb'"
    using assms(4,6) by (auto simp: last_block_oracle_def fast_forward_to_def entry_u128_def volume_default_def)
  show ?thesis
  proof (cases "p = LastBlock")
    case True
    then have "e = lb'" "init' = i" "prev = lb" "init = i" using assms(3,4,7) lb'(1) by (simp_all add: get_updated_entry_def)
    then show ?thesis using pow lb' by (auto simp: between_def volume_le_def volume_default_def)
  next
    case False
    then have r: "init' = init \<and> (e = prev \<or> calculate_current_from_outdated (em_arith C) (em_fixed C) prev p lb' = Some e)"
      using assms(3,7) lb'(1) by (auto simp: get_updated_entry_def split: if_splits bind_splits)
    then show ?thesis
      using pow outdated_between [OF assms(1,5) lb'(4) _ False, of "em_fixed C" e] lb'(2) by (auto simp: between_def volume_le_def)
  qed
qed

section \<open>A run\<close>

definition ema_run0 :: ema where
  "ema_run0 = (ema_genesis_build std_ema [] ema_empty)\<lparr>em_block := 1\<rparr>\<lparr>registry_whitelist := (\<lambda>_. True)\<rparr>"

definition ema_trade :: "balance \<Rightarrow> balance \<Rightarrow> ema \<Rightarrow> ema ema_result" where
  "ema_trade n m s = handler_on_trade std_ema OMNIPOOL_SOURCE 5 2 n m (1000 * n) (1000 * m) (ratio_new m n) None s"

definition ema_run1 :: ema where
  "ema_run1 = (case ema_trade 10 20 ema_run0 of Inr s \<Rightarrow> s | Inl _ \<Rightarrow> ema_run0)"

definition ema_run2 :: ema where
  "ema_run2 = next_block std_ema ema_run1"

definition ema_run3 :: ema where
  "ema_run3 = (case ema_trade 10 30 ema_run2 of Inr s \<Rightarrow> s | Inl _ \<Rightarrow> ema_run2)"

lemmas ema_run_defs = ema_run3_def ema_run2_def ema_run1_def ema_run0_def ema_trade_def

definition ema_k :: oracle_key where
  "ema_k = (OMNIPOOL_SOURCE, (2, 5))"

definition ema_e :: "nat \<Rightarrow> nat \<Rightarrow> nat \<Rightarrow> oracle_entry" where
  "ema_e n m b = \<lparr>oe_price = ratio_new n m, oe_volume = from_a_out_b_in m n, oe_liquidity = \<lparr>liq_a = 1000 * m, liq_b = 1000 * n\<rparr>,
     oe_shares_issuance = None, oe_updated_at = b\<rparr>"

lemmas ema_handler_defs = ema_trade_def ema_k_def ema_e_def handler_on_trade_def em_on_trade_def on_entry_def oracle_whitelist_def std_ema_def
  bt_insert_def bt_retain_def ema_ordered_pair_def determine_normalized_price_def determine_normalized_volume_def
  determine_normalized_liquidity_def internal_oracle_sources_def ratio_inverted_def ratio_new_def ratio_is_zero_def

lemma ema_run1: "ema_trade 10 20 ema_run0 = Inr ema_run1" "ema_run1 = ema_run0\<lparr>accumulator := [(ema_k, ema_e 10 20 1)]\<rparr>"
  by (simp_all add: ema_run_defs ema_handler_defs ema_empty_def)

lemma ema_run2:
  "oracles ema_run2 (ema_k, p) = (if p \<in> set runtime_periods then Some (ema_e 10 20 1, 1) else None)" "em_block ema_run2 = 2"
  "accumulator ema_run2 = []" "registry_whitelist ema_run2 = (\<lambda>_. True)"
  by (simp_all add: ema_run2_def ema_run1(2) ema_on_finalize_def update_oracles_from_accumulator_def runtime_periods_def std_ema_def
      update_oracle_def ema_run0_def ema_empty_def em_deposit_def)

lemma ema_run3: "ema_trade 10 30 ema_run2 = Inr ema_run3" "ema_run3 = ema_run2\<lparr>accumulator := [(ema_k, ema_e 10 30 2)]\<rparr>"
  by (simp_all add: ema_run3_def ema_run2 ema_handler_defs)

lemma ema_run3_reachable: "ema_reachable std_ema ema_run3"
proof -
  have "ema_reachable std_ema ema_run0" unfolding ema_run0_def by (intro ema_reachable.registry ema_reachable.genesis)
  from ema_reachable.trade [OF this ema_run1(1) [unfolded ema_trade_def]] have "ema_reachable std_ema ema_run2"
    unfolding ema_run2_def by (rule ema_reachable.block)
  from ema_reachable.trade [OF this ema_run3(1) [unfolded ema_trade_def]] show ?thesis .
qed

text \<open>Integration in the second block of a run of two trades.\<close>

theorem ema_finalize_integrates_witness:
  "get_updated_entry std_ema ema_k Short ema_run3 = Some (ema_e 10 20 1, 1) \<and>
   (\<exists>e'. calculate_new_by_integrating_incoming (em_arith std_ema) (ema_e 10 20 1) Short (ema_e 10 30 2) = Some e' \<and>
      get_updated_entry std_ema ema_k Short ((ema_on_finalize std_ema ema_run3)\<lparr>em_block := em_block ema_run3 + 1\<rparr>) = Some (e', 1))"
proof -
  have r: "get_updated_entry std_ema ema_k Short ema_run3 = Some (ema_e 10 20 1, 1)"
    by (rule stored_now_is_read) (simp_all add: ema_run3(2) ema_run2 runtime_periods_def ema_e_def)
  show ?thesis
    using r ema_finalize_integrates [OF ema_run3_reachable, of ema_k "ema_e 10 30 2" Short]
    by (simp add: ema_run3(2) std_ema_def runtime_periods_def)
qed

definition ema_authorised :: ema where
  "ema_authorised = ema_run0\<lparr>external_sources := {BIFROST_SOURCE}, authorized_accounts := {((BIFROST_SOURCE, (2, 5)), 7)}\<rparr>"

definition ema_priced :: ema where
  "ema_priced = ema_authorised\<lparr>accumulator := [((BIFROST_SOURCE, (2, 5)), \<lparr>oe_price = ratio_new 4 3, oe_volume = volume_default,
     oe_liquidity = \<lparr>liq_a = 0, liq_b = 0\<rparr>, oe_shares_issuance = None, oe_updated_at = 1\<rparr>)]\<rparr>"

lemma ema_priced_run: "ema_dispatch std_ema (Signed 7) (Set_External_Oracle_By_Ids BIFROST_SOURCE 5 2 (3, 4)) ema_authorised = Inr ema_priced"
  by (simp add: set_external_oracle_by_ids_def ensure_signed_def do_set_oracle_inner_def ema_authorised_def ema_priced_def ema_handler_defs ema_run0_def
      ema_empty_def BIFROST_SOURCE_def OMNIPOOL_SOURCE_def STABLESWAP_SOURCE_def XYK_SOURCE_def entry_inverted_def volume_inverted_def
      volume_default_def liquidity_inverted_def Let_def)

text \<open>A price set by an authorised account.\<close>

theorem ema_data_changed_by_authorised_witness:
  "map_of (accumulator ema_priced) (BIFROST_SOURCE, (2, 5)) \<noteq> map_of (accumulator ema_authorised) (BIFROST_SOURCE, (2, 5)) \<and>
   (\<exists>who. Signed 7 = Signed who \<and> BIFROST_SOURCE \<in> external_sources ema_authorised \<and>
      ((BIFROST_SOURCE, (2, 5)), who) \<in> authorized_accounts ema_authorised \<and> oracles ema_priced = oracles ema_authorised)"
  using ema_data_changed_by_authorised [OF ema_priced_run, of BIFROST_SOURCE "(2, 5)"]
  by (simp add: ema_priced_def ema_authorised_def ema_run0_def ema_empty_def std_ema_def)

text \<open>Eight blocks without data.\<close>

theorem ema_reading_between_witness:
  "\<exists>e. get_updated_entry std_ema ema_k Short (ema_run2\<lparr>em_block := 10\<rparr>) = Some (e, 1) \<and> between 20000 20000 (liq_a (oe_liquidity e)) \<and>
     volume_le (oe_volume e) (oe_volume (ema_e 10 20 1)) \<and> saturating_powi_high_precision (em_fixed std_ema) (DIV - into_smoothing Short) 8 \<le> DIV"
proof -
  have o: "oracles (ema_run2\<lparr>em_block := 10\<rparr>) (ema_k, p) = Some (ema_e 10 20 1, 1)" if "p = Short \<or> p = LastBlock" for p
    using that by (auto simp: ema_run2 runtime_periods_def)
  have "oracle_due (ema_run2\<lparr>em_block := 10\<rparr>) ema_k Short"
    by (simp add: oracle_due_def ema_run2 runtime_periods_def ema_e_def)
  from update_existing_reads [OF o this, of std_ema] obtain e where
    e: "get_updated_entry std_ema ema_k Short (ema_run2\<lparr>em_block := 10\<rparr>) = Some (e, 1)" by blast
  have "entry_u128 (ema_e 10 20 1)" by (simp add: entry_u128_def ema_e_def from_a_out_b_in_def umax_def)
  from ema_reading_between [OF _ _ o o this this e, of 8] show ?thesis
    using e std.sp_arith_axioms std_frac.fixed_lib_axioms by (simp add: std_ema_def umax_def ema_e_def between_def)
qed

end
