(* ===== verification/Bonds.thy ===== *)
theory Bonds
  imports Issuance
begin

text \<open>
  The bonds pallet (\<open>pallets/bonds/src/lib.rs\<close>): the treasury locks an asset in the account of the pallet and receives bonds, one to
  one, that anyone can redeem for the asset once they are mature. The asset registry and the clock are external; the locale \<open>bonds_env\<close> says
  what the pallet relies on. In every reachable state the bonds of an asset are backed by the balance of the pallet.
\<close>

section \<open>Storage and environment\<close>

datatype bonds_error =
    NotRegistered | NotMature | InvalidMaturity | DisallowedAsset | Bonds_AssetNotFound | InvalidBondName | FailToParseName

record bonds_store =
  bond_ids :: "asset_id \<times> nat \<rightharpoonup> asset_id"
  bonds :: "asset_id \<rightharpoonup> asset_id \<times> nat"

datatype asset_kind = Kind_Token | Kind_XYK | Kind_StableSwap | Kind_Bond | Kind_External | Kind_Erc20

text \<open>\<open>register_bond\<close> is \<open>register_insufficient_asset\<close> of the registry for a name and an existential deposit; the other arguments are fixed.\<close>

record 'w bonds_config = "'w issuing" +
  asset_type :: "'w \<Rightarrow> asset_id \<Rightarrow> asset_kind option"
  register_bond :: "nat list \<Rightarrow> balance \<Rightarrow> 'w \<Rightarrow> nat + asset_id \<times> 'w"
  existential_deposit :: "'w \<Rightarrow> asset_id \<Rightarrow> balance"
  bonds_now :: "'w \<Rightarrow> nat"
  bonds_account :: account_id
  issue_origin :: "origin \<Rightarrow> bool"
  issuer_account :: account_id
  asset_type_whitelist :: "asset_kind \<Rightarrow> bool"
  name_limit :: nat

type_synonym 'w bonds_state = "bonds_store \<times> 'w"

section \<open>Names\<close>

definition to_le_bytes :: "nat \<Rightarrow> nat \<Rightarrow> nat list" where
  "to_le_bytes k n = map (\<lambda>i. n div 256 ^ i mod 256) [0..<k]"

primrec from_le_bytes :: "nat list \<Rightarrow> nat" where
  "from_le_bytes [] = 0"
| "from_le_bytes (b # bs) = b + 256 * from_le_bytes bs"

definition bond_name :: "asset_id \<Rightarrow> nat \<Rightarrow> nat list" where
  "bond_name asset_id when = to_le_bytes 4 asset_id @ [46] @ to_le_bytes 8 when"

text \<open>Slicing a name that is too short panics, \<open>None\<close>; a slice of four bytes always converts.\<close>

definition parse_bond_name :: "nat list \<Rightarrow> (bonds_error + asset_id) option" where
  "parse_bond_name name = (if length name < 4 then None else Some (Inr (from_le_bytes (take 4 name))))"

section \<open>Calls\<close>

definition bond_of :: "('w, 'z) bonds_config_scheme \<Rightarrow> asset_id \<Rightarrow> nat \<Rightarrow> 'w bonds_state \<Rightarrow> bonds_error dispatch_error + asset_id \<times> 'w bonds_state" where
  "bond_of C asset_id maturity s =
     (case bond_ids (fst s) (asset_id, maturity) of
        Some bond_id \<Rightarrow> Inr (bond_id, s)
      | None \<Rightarrow>
          ensure (bonds_now C (snd s) \<le> maturity) (Module InvalidMaturity) (
          let ed = existential_deposit C (snd s) asset_id;
              b_name = bond_name asset_id maturity in
          ensure (length b_name \<le> name_limit C) (Module InvalidBondName) (
          tryR (foreign (register_bond C b_name ed (snd s))) (\<lambda>(bond_id, w).
          Inr (bond_id, \<lparr>bond_ids = (bond_ids (fst s))((asset_id, maturity) \<mapsto> bond_id), bonds = (bonds (fst s))(bond_id \<mapsto> (asset_id, maturity))\<rparr>, w)))))"

definition issue :: "('w, 'z) bonds_config_scheme \<Rightarrow> origin \<Rightarrow> asset_id \<Rightarrow> balance \<Rightarrow> nat \<Rightarrow> 'w bonds_state \<Rightarrow> bonds_error dispatch_error + 'w bonds_state" where
  "issue C orig asset_id amount maturity s =
     ensure (issue_origin C orig) BadOrigin (
     let who = issuer_account C in
     tryR (ok_or (asset_type C (snd s) asset_id) (Module Bonds_AssetNotFound)) (\<lambda>kind.
     ensure (asset_type_whitelist C kind) (Module DisallowedAsset) (
     tryR (bond_of C asset_id maturity s) (\<lambda>(bond_id, st, w).
     tryR (foreign (transfer C asset_id who (bonds_account C) amount w)) (\<lambda>w.
     tryR (foreign (deposit C bond_id who amount w)) (\<lambda>w.
     Inr (st, w)))))))"

definition redeem :: "('w, 'z) bonds_config_scheme \<Rightarrow> origin \<Rightarrow> asset_id \<Rightarrow> balance \<Rightarrow> 'w bonds_state \<Rightarrow> bonds_error dispatch_error + 'w bonds_state" where
  "redeem C orig bond_id amount s =
     tryR (ensure_signed orig) (\<lambda>who.
     tryR (ok_or (bonds (fst s) bond_id) (Module NotRegistered)) (\<lambda>(underlying_asset_id, maturity).
     ensure (maturity \<le> bonds_now C (snd s)) (Module NotMature) (
     tryR (foreign (withdraw C bond_id who amount (snd s))) (\<lambda>w.
     tryR (foreign (transfer C underlying_asset_id (bonds_account C) who amount w)) (\<lambda>w.
     Inr (fst s, w))))))"

section \<open>What the pallet relies on\<close>

text \<open>
  A new asset has an identifier that was not registered, unregistered assets are not issued, and the currency operations and the registry leave
  each other alone. Minting and burning for others leaves the account of the pallet.
\<close>

locale bonds_env = pool_ledger C "bonds_account C" + issuing_ledger C for C :: "('w, 'z) bonds_config_scheme" +
  assumes register_fresh: "register_bond C name ed w = Inr (i, w') \<Longrightarrow> asset_type C w i = None"
    and register_keeps: "register_bond C name ed w = Inr (i, w') \<Longrightarrow> free_balance C w' = free_balance C w \<and> total_issuance C w' = total_issuance C w"
    and register_types: "register_bond C name ed w = Inr (i, w') \<Longrightarrow> asset_type C w' = (asset_type C w)(i \<mapsto> Kind_Bond)"
    and unregistered: "asset_type C w a = None \<Longrightarrow> total_issuance C w a = 0"
    and transfer_types: "transfer C a src dst n w = Inr w' \<Longrightarrow> asset_type C w' = asset_type C w"
    and deposit_types: "deposit C a x n w = Inr w' \<Longrightarrow> asset_type C w' = asset_type C w"
    and withdraw_types: "withdraw C a x n w = Inr w' \<Longrightarrow> asset_type C w' = asset_type C w"
    and deposit_others: "deposit C a x n w = Inr w' \<Longrightarrow> x \<noteq> bonds_account C \<Longrightarrow> free_balance C w' b (bonds_account C) = free_balance C w b (bonds_account C)"
    and withdraw_others: "withdraw C a x n w = Inr w' \<Longrightarrow> x \<noteq> bonds_account C \<Longrightarrow> free_balance C w' b (bonds_account C) = free_balance C w b (bonds_account C)"
    and issuer_other: "issuer_account C \<noteq> bonds_account C"

definition bonds_on :: "bonds_store \<Rightarrow> asset_id \<Rightarrow> asset_id set" where
  "bonds_on st a = {b. \<exists>m. bonds st b = Some (a, m)}"

definition outstanding :: "('w, 'z) bonds_config_scheme \<Rightarrow> asset_id \<Rightarrow> 'w bonds_state \<Rightarrow> balance" where
  "outstanding C a s = (\<Sum>b\<in>bonds_on (fst s) a. total_issuance C (snd s) b)"

definition bonds_inv :: "('w, 'z) bonds_config_scheme \<Rightarrow> 'w bonds_state \<Rightarrow> bool" where
  "bonds_inv C s \<longleftrightarrow> finite (dom (bonds (fst s))) \<and> (\<forall>b x. bonds (fst s) b = Some x \<longleftrightarrow> bond_ids (fst s) x = Some b) \<and>
     (\<forall>b \<in> dom (bonds (fst s)). asset_type C (snd s) b \<noteq> None) \<and>
     (\<forall>a. outstanding C a s \<le> free_balance C (snd s) a (bonds_account C))"

section \<open>Runs\<close>

text \<open>
  Between the calls the rest of the runtime acts: it takes nothing from the account of the pallet, mints and burns no bonds and
  deregisters nothing. The account of the pallet signs nothing.
\<close>

definition bonds_foreign :: "('w, 'z) bonds_config_scheme \<Rightarrow> 'w bonds_state \<Rightarrow> 'w \<Rightarrow> bool" where
  "bonds_foreign C s w' \<longleftrightarrow> (\<forall>a. free_balance C (snd s) a (bonds_account C) \<le> free_balance C w' a (bonds_account C)) \<and>
     (\<forall>b \<in> dom (bonds (fst s)). total_issuance C w' b = total_issuance C (snd s) b) \<and>
     (\<forall>a. asset_type C (snd s) a \<noteq> None \<longrightarrow> asset_type C w' a \<noteq> None)"

inductive bonds_reachable :: "('w, 'z) bonds_config_scheme \<Rightarrow> 'w bonds_state \<Rightarrow> bool" for C where
  genesis: "bonds_reachable C (\<lparr>bond_ids = Map.empty, bonds = Map.empty\<rparr>, w)"
| issue: "bonds_reachable C s \<Longrightarrow> issue C orig a n m s = Inr s' \<Longrightarrow> bonds_reachable C s'"
| redeem: "bonds_reachable C s \<Longrightarrow> redeem C (Signed who) b n s = Inr s' \<Longrightarrow> who \<noteq> bonds_account C \<Longrightarrow> bonds_reachable C s'"
| foreign: "bonds_reachable C s \<Longrightarrow> bonds_foreign C s w' \<Longrightarrow> bonds_reachable C (fst s, w')"

section \<open>Backing\<close>

context bonds_env
begin

lemma bonds_inv_finite: "bonds_inv C s \<Longrightarrow> finite (bonds_on (fst s) a)"
  by (rule finite_subset [of _ "dom (bonds (fst s))"]) (auto simp: bonds_on_def bonds_inv_def)

lemma bond_of_run:
  assumes "bond_of C a m s = Inr (b, st, w)" "bonds_inv C s"
  shows "bonds_inv C (st, w) \<and> bonds st b = Some (a, m)"
proof (cases "bond_ids (fst s) (a, m)")
  case (Some x)
  then have "st = fst s" "w = snd s" "b = x" using assms(1) by (auto simp: bond_of_def)
  then show ?thesis using assms(2) Some unfolding bonds_inv_def by auto
next
  case None
  then obtain name ed where r: "register_bond C name ed (snd s) = Inr (b, w)"
      and st: "st = \<lparr>bond_ids = (bond_ids (fst s))((a, m) \<mapsto> b), bonds = (bonds (fst s))(b \<mapsto> (a, m))\<rparr>"
    using assms(1) by (auto simp: bond_of_def Let_def res_iff)
  note keep = register_keeps [OF r] register_types [OF r] and fresh = register_fresh [OF r]
  have nb: "bonds (fst s) b = None" using assms(2) fresh unfolding bonds_inv_def by (metis domIff)
  have zero: "total_issuance C (snd s) b = 0" using unregistered [OF fresh] .
  have "outstanding C c (st, w) = outstanding C c s" for c
  proof -
    have "bonds_on st c = (if c = a then insert b (bonds_on (fst s) c) else bonds_on (fst s) c)"
      using nb by (auto simp: st bonds_on_def)
    moreover have "b \<notin> bonds_on (fst s) c" using nb by (simp add: bonds_on_def)
    ultimately show ?thesis using bonds_inv_finite [OF assms(2), of c] keep(1) zero by (cases "c = a") (simp_all add: outstanding_def)
  qed
  moreover have iff: "bonds (fst s) x = Some y \<longleftrightarrow> bond_ids (fst s) y = Some x" for x y
    using assms(2) unfolding bonds_inv_def by blast
  have "\<forall>x y. bonds st x = Some y \<longleftrightarrow> bond_ids st y = Some x"
  proof (intro allI)
    show "bonds st x = Some y \<longleftrightarrow> bond_ids st y = Some x" for x y
      using iff [of x y] iff [of b y] iff [of x "(a, m)"] None nb by (auto simp: st)
  qed
  moreover have "finite (dom (bonds st))" "\<forall>x \<in> dom (bonds st). asset_type C w x \<noteq> None" "bonds st b = Some (a, m)"
    using assms(2) keep(2) by (auto simp: st bonds_inv_def)
  ultimately show ?thesis
    using assms(2) keep(1) unfolding bonds_inv_def fst_conv snd_conv by metis
qed

lemma outstanding_mint:
  assumes "finite (bonds_on st c)" "total_issuance C w' = (total_issuance C w)(b := total_issuance C w b + n)" "bonds st b = Some (a, m)"
  shows "outstanding C c (st, w') = outstanding C c (st, w) + (if c = a then n else 0)"
proof -
  have "outstanding C c (st, w') = (\<Sum>x\<in>bonds_on st c. total_issuance C w x + (if x = b then n else 0))"
    by (auto simp: outstanding_def assms(2) intro: sum.cong)
  also have "\<dots> = outstanding C c (st, w) + (if b \<in> bonds_on st c then n else 0)"
    using assms(1) by (simp add: sum.distrib outstanding_def)
  also have "b \<in> bonds_on st c \<longleftrightarrow> c = a" using assms(3) by (auto simp: bonds_on_def)
  finally show ?thesis .
qed

lemma issue_inv:
  assumes "bonds_inv C s" "issue C orig a n m s = Inr s'"
  shows "bonds_inv C s'"
proof -
  obtain b st w w1 w2 where run: "bond_of C a m s = Inr (b, st, w)" "transfer C a (issuer_account C) (bonds_account C) n w = Inr w1"
      "deposit C b (issuer_account C) n w1 = Inr w2" "s' = (st, w2)"
    using assms(2) by (auto simp: issue_def Let_def res_iff)
  note inv = bond_of_run [OF run(1) assms(1)]
  have i: "total_issuance C w2 = (total_issuance C w)(b := total_issuance C w b + n)"
    using deposit_issuance [OF run(3)] transfer_issuance [OF run(2)] by (intro ext) simp
  have f: "free_balance C w2 c (bonds_account C) = free_balance C w c (bonds_account C) + (if c = a then n else 0)" for c
    using deposit_others [OF run(3) issuer_other] transfer_pool [OF run(2), of c] issuer_other by simp
  have "outstanding C c (st, w2) \<le> free_balance C w2 c (bonds_account C)" for c
    using outstanding_mint [OF _ i, of st c a m] inv bonds_inv_finite [of "(st, w)" c] by (auto simp: f bonds_inv_def)
  then show ?thesis
    using inv deposit_types [OF run(3)] transfer_types [OF run(2)] by (simp add: run(4) bonds_inv_def)
qed

lemma redeem_run:
  assumes "redeem C (Signed who) b n s = Inr s'" "who \<noteq> bonds_account C"
  obtains a m where "bonds (fst s) b = Some (a, m)" "m \<le> bonds_now C (snd s)" "fst s' = fst s" "n \<le> total_issuance C (snd s) b"
    "total_issuance C (snd s') = (total_issuance C (snd s))(b := total_issuance C (snd s) b - n)"
    "n \<le> free_balance C (snd s) a (bonds_account C)"
    "\<And>c. free_balance C (snd s') c (bonds_account C) = free_balance C (snd s) c (bonds_account C) - (if c = a then n else 0)"
    "asset_type C (snd s') = asset_type C (snd s)"
proof -
  obtain a m w1 w2 where run: "bonds (fst s) b = Some (a, m)" "m \<le> bonds_now C (snd s)" "withdraw C b who n (snd s) = Inr w1"
      "transfer C a (bonds_account C) who n w1 = Inr w2" "s' = (fst s, w2)"
    using assms(1) by (auto simp: redeem_def res_iff)
  have "total_issuance C w2 = (total_issuance C (snd s))(b := total_issuance C (snd s) b - n)"
    using withdraw_issuance [OF run(3)] transfer_issuance [OF run(4)] by (intro ext) simp
  then show ?thesis
    using that run withdraw_issued [OF run(3)] withdraw_others [OF run(3) assms(2)] transfer_pool [OF run(4)] transfer_enough [OF run(4) assms(2)]
      transfer_types [OF run(4)] withdraw_types [OF run(3)] assms(2) by simp
qed

lemma redeem_inv:
  assumes "bonds_inv C s" "redeem C (Signed who) b n s = Inr s'" "who \<noteq> bonds_account C"
  shows "bonds_inv C s'"
  using assms(2,3)
proof (rule redeem_run)
  fix a m
  assume r: "bonds (fst s) b = Some (a, m)" "fst s' = fst s" "n \<le> total_issuance C (snd s) b"
    "total_issuance C (snd s') = (total_issuance C (snd s))(b := total_issuance C (snd s) b - n)"
    "\<And>c. free_balance C (snd s') c (bonds_account C) = free_balance C (snd s) c (bonds_account C) - (if c = a then n else 0)"
    "asset_type C (snd s') = asset_type C (snd s)"
  have "total_issuance C (snd s) = (total_issuance C (snd s'))(b := total_issuance C (snd s') b + n)"
    using r(3,4) by (intro ext) simp
  then have "outstanding C c s = outstanding C c s' + (if c = a then n else 0)" for c
    using outstanding_mint [of "fst s" c "snd s" "snd s'" b n a m] r(1,2) bonds_inv_finite [OF assms(1), of c] by (simp add: outstanding_def)
  then have "outstanding C c s' \<le> free_balance C (snd s') c (bonds_account C)" for c
    using assms(1) r(5) [of c] unfolding bonds_inv_def by (metis add_diff_cancel_right' diff_le_mono)
  then show ?thesis using assms(1) r(2,6) by (simp add: bonds_inv_def)
qed

lemma bonds_reachable_inv: "bonds_reachable C s \<Longrightarrow> bonds_inv C s"
proof (induction rule: bonds_reachable.induct)
  case (genesis w)
  then show ?case by (simp add: bonds_inv_def outstanding_def bonds_on_def)
next
  case (foreign s w')
  have "outstanding C a (fst s, w') = outstanding C a s" for a
    using foreign(2) by (auto simp: outstanding_def bonds_foreign_def bonds_on_def intro: sum.cong)
  then show ?case using foreign(2,3) by (auto simp: bonds_inv_def bonds_foreign_def intro: order_trans)
qed (auto intro: issue_inv redeem_inv)

text \<open>A holder that may burn bonds finds the asset in the account of the pallet.\<close>

lemma redeem_covered:
  assumes inv: "bonds_inv C s" and b: "bonds (fst s) b = Some (a, m)" and w: "withdraw C b who n (snd s) = Inr w" and who: "who \<noteq> bonds_account C"
  shows "n \<le> free_balance C w a (bonds_account C)"
proof -
  have "b \<in> bonds_on (fst s) a" using b by (auto simp: bonds_on_def)
  then have "total_issuance C (snd s) b \<le> outstanding C a s"
    unfolding outstanding_def by (rule member_le_sum) (use bonds_inv_finite [OF inv] in auto)
  then show ?thesis using withdraw_issued [OF w] withdraw_others [OF w who, of a] inv unfolding bonds_inv_def by (metis order_trans)
qed

lemma redeem_pays:
  assumes run: "redeem C (Signed who) b n s = Inr s'" and who: "pool_ledger C who" "who \<noteq> bonds_account C" and b: "bonds (fst s) b = Some (a, m)"
  shows "free_balance C (snd s') c who + (if c = b then n else 0) = free_balance C (snd s) c who + (if c = a then n else 0)"
proof -
  obtain w1 w2 where run: "withdraw C b who n (snd s) = Inr w1" "transfer C a (bonds_account C) who n w1 = Inr w2" "s' = (fst s, w2)"
    using run b by (auto simp: redeem_def res_iff)
  show ?thesis
    using pool_ledger.withdraw_pool [OF who(1) run(1), of c] pool_ledger.withdraw_enough [OF who(1) run(1)]
      pool_ledger.transfer_pool [OF who(1) run(2), of c] who(2) run(3) by auto
qed

end

section \<open>Names are read back\<close>

lemma to_le_bytes_Suc: "to_le_bytes (Suc k) n = n mod 256 # to_le_bytes k (n div 256)"
  by (simp add: to_le_bytes_def upt_conv_Cons map_Suc_upt [symmetric] div_mult2_eq del: upt_Suc)

lemma le_bytes_round_trip: "n < 256 ^ k \<Longrightarrow> from_le_bytes (to_le_bytes k n) = n"
proof (induction k arbitrary: n)
  case 0
  then show ?case by (simp add: to_le_bytes_def)
next
  case (Suc k)
  then have "n div 256 < 256 ^ k" by (simp add: less_mult_imp_div_less mult.commute)
  with Suc.IH show ?case by (simp add: to_le_bytes_Suc)
qed

lemma length_to_le_bytes [simp]: "length (to_le_bytes k n) = k"
  by (simp add: to_le_bytes_def)

section \<open>Properties\<close>

text \<open>
  (C19) In every reachable state the bonds on an asset that are in circulation, over all maturities, are covered by the balance of the pallet in the asset, and
  the two storage maps name the same bonds. So bonds are paid out: a successful \<open>redeem\<close> is of a mature bond; it burns the holder's bonds and pays the holder
  the same amount of the underlying asset from the account of the pallet, and changes no other balance of the holder, no other issuance and no bond. And it does
  succeed: a mature bond that the holder can burn is never refused for want of the asset, the pallet account covers it; only the ledger itself could still refuse
  the payment of an amount the pallet holds.
\<close>

theorem bonds_backed:
  assumes "bonds_env C" "bonds_reachable C s"
  shows "(\<Sum>b | \<exists>m. bonds (fst s) b = Some (a, m). total_issuance C (snd s) b) \<le> free_balance C (snd s) a (bonds_account C) \<and>
    (\<forall>b x. bonds (fst s) b = Some x \<longleftrightarrow> bond_ids (fst s) x = Some b) \<and>
    (redeem C (Signed who) b n s = Inr s' \<longrightarrow> pool_ledger C who \<longrightarrow> who \<noteq> bonds_account C \<longrightarrow>
       (\<exists>c m. bonds (fst s) b = Some (c, m) \<and> m \<le> bonds_now C (snd s) \<and> fst s' = fst s \<and>
          (\<forall>x. total_issuance C (snd s') x + (if x = b then n else 0) = total_issuance C (snd s) x) \<and>
          (\<forall>x. free_balance C (snd s') x (bonds_account C) + (if x = c then n else 0) = free_balance C (snd s) x (bonds_account C)) \<and>
          (\<forall>x. free_balance C (snd s') x who + (if x = b then n else 0) = free_balance C (snd s) x who + (if x = c then n else 0)))) \<and>
    (bonds (fst s) b = Some (u, m) \<longrightarrow> m \<le> bonds_now C (snd s) \<longrightarrow> who \<noteq> bonds_account C \<longrightarrow> withdraw C b who n (snd s) = Inr w \<longrightarrow>
       n \<le> free_balance C w u (bonds_account C) \<and>
       (transfer C u (bonds_account C) who n w = Inr w' \<longrightarrow> redeem C (Signed who) b n s = Inr (fst s, w')))"
proof (intro conjI impI)
  have inv: "bonds_inv C s" using bonds_env.bonds_reachable_inv [OF assms] .
  then show "(\<Sum>b | \<exists>m. bonds (fst s) b = Some (a, m). total_issuance C (snd s) b) \<le> free_balance C (snd s) a (bonds_account C)"
    unfolding bonds_inv_def outstanding_def bonds_on_def by blast
  show "\<forall>b x. bonds (fst s) b = Some x \<longleftrightarrow> bond_ids (fst s) x = Some b" using inv unfolding bonds_inv_def by blast
next
  assume run: "redeem C (Signed who) b n s = Inr s'" and who: "pool_ledger C who" "who \<noteq> bonds_account C"
  show "\<exists>c m. bonds (fst s) b = Some (c, m) \<and> m \<le> bonds_now C (snd s) \<and> fst s' = fst s \<and>
      (\<forall>x. total_issuance C (snd s') x + (if x = b then n else 0) = total_issuance C (snd s) x) \<and>
      (\<forall>x. free_balance C (snd s') x (bonds_account C) + (if x = c then n else 0) = free_balance C (snd s) x (bonds_account C)) \<and>
      (\<forall>x. free_balance C (snd s') x who + (if x = b then n else 0) = free_balance C (snd s) x who + (if x = c then n else 0))"
    by (rule bonds_env.redeem_run [OF assms(1) run who(2)])
      (use bonds_env.redeem_pays [OF assms(1) run who] in \<open>intro exI conjI allI; auto\<close>)
next
  assume h: "bonds (fst s) b = Some (u, m)" "m \<le> bonds_now C (snd s)" "who \<noteq> bonds_account C" "withdraw C b who n (snd s) = Inr w"
  show "n \<le> free_balance C w u (bonds_account C)"
    by (rule bonds_env.redeem_covered [OF assms(1) bonds_env.bonds_reachable_inv [OF assms] h(1,4,3)])
  assume "transfer C u (bonds_account C) who n w = Inr w'"
  then show "redeem C (Signed who) b n s = Inr (fst s, w')" using h by (simp add: redeem_def ensure_signed_def)
qed

text \<open>The name of a bond gives the identifier of its asset back, for every maturity, and fits into the thirteen bytes it is built from.\<close>

theorem bond_name_round_trip:
  assumes "asset_id < 2 ^ 32"
  shows "parse_bond_name (bond_name asset_id when) = Some (Inr asset_id) \<and> length (bond_name asset_id when) = 13"
  using assms le_bytes_round_trip [of asset_id 4] by (simp add: parse_bond_name_def bond_name_def)

theorem bond_name_round_trip_witness:
  "parse_bond_name (bond_name 1000085 1700000000000) = Some (Inr 1000085)"
  using bond_name_round_trip [of 1000085 1700000000000] by simp

section \<open>A run\<close>

text \<open>A registry that numbers new assets; only registered assets are issued.\<close>

record bonds_world =
  bw_issue :: issue_world
  bw_types :: "asset_id \<rightharpoonup> asset_kind"
  bw_next :: asset_id
  bw_now :: nat

definition bw_lift :: "asset_id \<Rightarrow> (issue_world \<Rightarrow> nat + issue_world) \<Rightarrow> bonds_world \<Rightarrow> nat + bonds_world" where
  "bw_lift a f w = ensure (bw_types w a \<noteq> None) 4 (tryR (f (bw_issue w)) (\<lambda>l. Inr (w\<lparr>bw_issue := l\<rparr>)))"

definition bw_register :: "nat list \<Rightarrow> balance \<Rightarrow> bonds_world \<Rightarrow> nat + asset_id \<times> bonds_world" where
  "bw_register name ed w = ensure (bw_types w (bw_next w) = None) 5
     (Inr (bw_next w, w\<lparr>bw_types := (bw_types w)(bw_next w \<mapsto> Kind_Bond), bw_issue := (bw_issue w)\<lparr>iw_issued := (iw_issued (bw_issue w))(bw_next w := 0)\<rparr>,
        bw_next := bw_next w + 1\<rparr>))"

definition std_bonds :: "bonds_world bonds_config" where
  "std_bonds = \<lparr>free_balance = (\<lambda>w. ledger_free (iw_ledger (bw_issue w))), total_balance = (\<lambda>w. ledger_free (iw_ledger (bw_issue w))),
     can_withdraw = (\<lambda>w a x n. n \<le> ledger_free (iw_ledger (bw_issue w)) a x), transfer = (\<lambda>a x y n. bw_lift a (iw_transfer a x y n)),
     deposit = (\<lambda>a x n. bw_lift a (iw_deposit a x n)), withdraw = (\<lambda>a x n. bw_lift a (iw_withdraw a x n)),
     total_issuance = (\<lambda>w a. if bw_types w a = None then 0 else iw_issued (bw_issue w) a),
     asset_type = bw_types, register_bond = bw_register, existential_deposit = (\<lambda>_ _. 1), bonds_now = bw_now, bonds_account = 900,
     issue_origin = (\<lambda>orig. orig = Root), issuer_account = 1, asset_type_whitelist = (\<lambda>k. k = Kind_Token), name_limit = 100\<rparr>"

lemma std_bonds_sel [simp]:
  "free_balance std_bonds w = ledger_free (iw_ledger (bw_issue w))" "transfer std_bonds a x y n = bw_lift a (iw_transfer a x y n)"
  "deposit std_bonds a x n = bw_lift a (iw_deposit a x n)" "withdraw std_bonds a x n = bw_lift a (iw_withdraw a x n)"
  "total_issuance std_bonds w a = (if bw_types w a = None then 0 else iw_issued (bw_issue w) a)" "asset_type std_bonds = bw_types"
  "register_bond std_bonds = bw_register" "bonds_account std_bonds = 900" "issuer_account std_bonds = 1"
  by (simp_all add: std_bonds_def)

lemma bw_lift_Inr: "bw_lift a f w = Inr w' \<longleftrightarrow> bw_types w a \<noteq> None \<and> (\<exists>l. f (bw_issue w) = Inr l \<and> w' = w\<lparr>bw_issue := l\<rparr>)"
  by (auto simp: bw_lift_def res_iff)

lemma std_bonds_ledger: "pool_ledger std_bonds P"
proof (unfold_locales, goal_cases)
  case (1 w a x)
  then show ?case by (simp add: ledger_free_def)
next
  case (2 a src dst n w w' b)
  then show ?case using std_issue_pool.transfer_pool [of a src dst n "bw_issue w" _ b P] by (auto simp: bw_lift_Inr)
next
  case (3 a dst n w w')
  then show ?case using std_issue_pool.transfer_enough [of a P dst n "bw_issue w"] by (auto simp: bw_lift_Inr)
next
  case (4 a n w w' b)
  then show ?case using std_issue_pool.deposit_pool [of a P n "bw_issue w" _ b] by (auto simp: bw_lift_Inr)
next
  case (5 a n w w' b)
  then show ?case using std_issue_pool.withdraw_pool [of a P n "bw_issue w" _ b] by (auto simp: bw_lift_Inr)
next
  case (6 a n w w')
  then show ?case using std_issue_pool.withdraw_enough [of a P n "bw_issue w"] by (auto simp: bw_lift_Inr)
qed

interpretation std_bonds: bonds_env std_bonds
proof (intro bonds_env.intro issuing_ledger.intro bonds_env_axioms.intro std_bonds_ledger, goal_cases)
  case (1 a src dst n w w' b)
  then show ?case using std_issue.transfer_issuance [of a src dst n "bw_issue w" _ b] by (auto simp: bw_lift_Inr)
next
  case (2 a x n w w' b)
  then show ?case using std_issue.deposit_issuance [of a x n "bw_issue w" _ b] by (auto simp: bw_lift_Inr)
next
  case (3 a x n w w' b)
  then show ?case using std_issue.withdraw_issuance [of a x n "bw_issue w" _ b] by (auto simp: bw_lift_Inr)
next
  case (4 a x n w w')
  then show ?case using std_issue.withdraw_issued [of a x n "bw_issue w"] by (auto simp: bw_lift_Inr)
qed (auto simp: bw_register_def bw_lift_Inr std_issuing_others res_iff fun_eq_iff)

definition bonds_start :: "bonds_world bonds_state" where
  "bonds_start = (\<lparr>bond_ids = Map.empty, bonds = Map.empty\<rparr>,
     \<lparr>bw_issue = \<lparr>iw_ledger = (\<lambda>x. if x = (0, 1) then 5000 else 0), iw_issued = (\<lambda>a. if a = 0 then 5000 else 0)\<rparr>,
      bw_types = [0 \<mapsto> Kind_Token], bw_next = 1000, bw_now = 50\<rparr>)"

definition bonds_issued :: "bonds_world bonds_state" where
  "bonds_issued = (case issue std_bonds Root 0 300 60 bonds_start of Inr s \<Rightarrow> s | Inl _ \<Rightarrow> bonds_start)"

definition bonds_mature :: "bonds_world bonds_state" where
  "bonds_mature = (fst bonds_issued, (snd bonds_issued)\<lparr>bw_now := 70\<rparr>)"

definition bonds_redeemed :: "bonds_world bonds_state" where
  "bonds_redeemed = (case redeem std_bonds (Signed 1) 1000 200 bonds_mature of Inr s \<Rightarrow> s | Inl _ \<Rightarrow> bonds_start)"

lemmas bonds_run_defs = issue_def bond_of_def bond_name_def to_le_bytes_def std_bonds_def bw_register_def bw_lift_def iw_transfer_def iw_deposit_def
  iw_withdraw_def ledger_transfer_def ledger_withdraw_def ledger_deposit_def ledger_free_def umax_def redeem_def ensure_signed_def

lemma bonds_issued_run:
  "issue std_bonds Root 0 300 60 bonds_start = Inr bonds_issued" "bonds (fst bonds_issued) 1000 = Some (0, 60)"
  by (simp_all add: bonds_issued_def bonds_start_def bonds_run_defs)

lemma bonds_redeemed_run: "redeem std_bonds (Signed 1) 1000 200 bonds_mature = Inr bonds_redeemed"
  by (simp add: bonds_redeemed_def bonds_mature_def bonds_issued_def bonds_start_def bonds_run_defs)

theorem bonds_backed_witness:
  "(\<Sum>b | \<exists>m. bonds (fst bonds_mature) b = Some (0, m). total_issuance std_bonds (snd bonds_mature) b) \<le> free_balance std_bonds (snd bonds_mature) 0 900 \<and>
   bonds (fst bonds_mature) 1000 = Some (0, 60) \<and>
   free_balance std_bonds (snd bonds_redeemed) 0 900 + 200 = free_balance std_bonds (snd bonds_mature) 0 900 \<and>
   free_balance std_bonds (snd bonds_redeemed) 0 1 = free_balance std_bonds (snd bonds_mature) 0 1 + 200 \<and>
   free_balance std_bonds (snd bonds_redeemed) 1000 1 + 200 = free_balance std_bonds (snd bonds_mature) 1000 1"
proof -
  have "bonds_reachable std_bonds bonds_start" unfolding bonds_start_def by (rule bonds_reachable.genesis)
  from bonds_reachable.issue [OF this bonds_issued_run(1)] have "bonds_reachable std_bonds bonds_mature"
    unfolding bonds_mature_def by (rule bonds_reachable.foreign) (simp add: bonds_foreign_def std_bonds_def)
  note backed = bonds_backed [OF std_bonds.bonds_env_axioms this, of 0 1 1000 200 bonds_redeemed, unfolded std_bonds_sel(8)]
  have b: "bonds (fst bonds_mature) 1000 = Some (0, 60)" using bonds_issued_run(2) by (simp add: bonds_mature_def)
  have "(1 :: nat) \<noteq> 900" by simp
  with backed bonds_redeemed_run std_bonds_ledger [of 1] obtain c m where r: "bonds (fst bonds_mature) 1000 = Some (c, m)"
      "\<And>x. free_balance std_bonds (snd bonds_redeemed) x 900 + (if x = c then 200 else 0) = free_balance std_bonds (snd bonds_mature) x 900"
      "\<And>x. free_balance std_bonds (snd bonds_redeemed) x 1 + (if x = 1000 then 200 else 0) = free_balance std_bonds (snd bonds_mature) x 1 + (if x = c then 200 else 0)"
    by blast
  have "c = 0" using r(1) b by simp
  then show ?thesis using conjunct1 [OF backed] b r(2) [of 0] r(3) [of 0] r(3) [of 1000] by simp
qed

end
