(* ===== verification/Referrals.thy ===== *)
theory Referrals
  imports Rational_Math Frame_Support
begin

text \<open>
  The referrals pallet (\<open>pallets/referrals/src/lib.rs\<close>): accounts register codes, traders link to a code, a slice of the trade fees
  becomes shares of the referrer and the trader in a pot, and shares are claimed for the pot's reward asset. Currency, conversion
  and price are external. Storage is the record \<open>referrals\<close>; the world behind the currency is its last field.
\<close>

section \<open>Levels\<close>

datatype level = Level_None | Tier0 | Tier1 | Tier2 | Tier3 | Tier4

record fee_distribution =
  fd_referrer :: nat
  fd_trader :: nat

fun next_level :: "level \<Rightarrow> level" where
  "next_level Tier0 = Tier1"
| "next_level Tier1 = Tier2"
| "next_level Tier2 = Tier3"
| "next_level Tier3 = Tier4"
| "next_level Tier4 = Tier4"
| "next_level Level_None = Level_None"

definition is_max_level :: "level \<Rightarrow> bool" where
  "is_max_level l \<longleftrightarrow> l = Tier4"

text \<open>The recursion does not end on \<open>Level::None\<close> when its own volume is reached.\<close>

partial_function (option) level_increase :: "(level \<Rightarrow> balance) \<Rightarrow> level \<Rightarrow> balance \<Rightarrow> level option" where
  "level_increase volume l amount =
     (if is_max_level l then Some l
      else if volume (next_level l) \<le> amount then level_increase volume (next_level l) amount
      else Some l)"

section \<open>Storage and environment\<close>

datatype referrals_error =
    TooLong | TooShort | InvalidCharacter | AlreadyExists | InvalidCode | AlreadyLinked | ZeroAmount | LinkNotAllowed
  | IncorrectRewardCalculation | IncorrectRewardPercentage | AlreadyRegistered | PriceNotFound | ConversionMinTradingAmountNotReached
  | ConversionZeroAmountReceived

type_synonym referral_code = "nat list"

record 'w referrals =
  referral_codes :: "referral_code \<rightharpoonup> account_id"
  referral_accounts :: "account_id \<rightharpoonup> referral_code"
  linked_accounts :: "account_id \<rightharpoonup> account_id"
  referrer_shares :: "account_id \<Rightarrow> balance"
  trader_shares :: "account_id \<Rightarrow> balance"
  total_shares :: balance
  referrer :: "account_id \<rightharpoonup> level \<times> balance"
  asset_rewards :: "asset_id \<times> level \<rightharpoonup> fee_distribution"
  pending_conversions :: "asset_id list"
  rf_world :: 'w

text \<open>
  \<open>rf_transfer\<close> takes whether the sender must be preserved; \<open>rf_convert\<close> returns a world also where it fails. Pending assets are
  iterated in the order of \<open>rf_hash\<close>, the hash of their key. \<open>None\<close> in place of a result is a run that does not end.
\<close>

record 'w referrals_config =
  rf_arith :: arith
  rf_authority :: "origin \<Rightarrow> bool"
  rf_balance :: "'w \<Rightarrow> asset_id \<Rightarrow> account_id \<Rightarrow> balance"
  rf_transfer :: "asset_id \<Rightarrow> account_id \<Rightarrow> account_id \<Rightarrow> balance \<Rightarrow> bool \<Rightarrow> 'w \<Rightarrow> nat + 'w"
  rf_convert :: "account_id \<Rightarrow> asset_id \<Rightarrow> asset_id \<Rightarrow> balance \<Rightarrow> 'w \<Rightarrow> (nat + balance) \<times> 'w"
  rf_price :: "'w \<Rightarrow> asset_id \<Rightarrow> asset_id \<Rightarrow> ratio option"
  rf_hash :: "asset_id \<Rightarrow> nat"
  reward_asset :: asset_id
  pot_account_id :: account_id
  registration_fee :: "asset_id \<times> balance \<times> account_id"
  code_length :: nat
  min_code_length :: nat
  level_volume :: "level \<Rightarrow> balance"
  level_rewards :: "level \<Rightarrow> fee_distribution"
  seed_native_amount :: balance
  permill_checked_add :: "nat \<Rightarrow> nat \<Rightarrow> nat option"
  convert_weight :: "nat \<times> nat"
  one_read :: "nat \<times> nat"

type_synonym 'a referrals_result = "referrals_error dispatch_error + 'a"

section \<open>Codes\<close>

text \<open>A byte read as a character is one of the first 256 of Unicode; the letters and numbers there are not only the ASCII ones.\<close>

definition is_alphanumeric :: "nat \<Rightarrow> bool" where
  "is_alphanumeric c \<longleftrightarrow> 48 \<le> c \<and> c \<le> 57 \<or> 65 \<le> c \<and> c \<le> 90 \<or> 97 \<le> c \<and> c \<le> 122 \<or>
     c \<in> {170, 178, 179, 181, 185, 186, 188, 189, 190} \<or> 192 \<le> c \<and> c \<le> 214 \<or> 216 \<le> c \<and> c \<le> 246 \<or> 248 \<le> c \<and> c \<le> 255"

definition to_ascii_uppercase :: "nat \<Rightarrow> nat" where
  "to_ascii_uppercase c = (if 97 \<le> c \<and> c \<le> 122 then c - 32 else c)"

definition normalize_code :: "('w, 'z) referrals_config_scheme \<Rightarrow> referral_code \<Rightarrow> referral_code" where
  "normalize_code C code = take (code_length C) (map to_ascii_uppercase code)"

definition register_code :: "('w, 'z) referrals_config_scheme \<Rightarrow> origin \<Rightarrow> referral_code \<Rightarrow> 'w referrals \<Rightarrow> 'w referrals referrals_result" where
  "register_code C orig code s =
     tryR (ensure_signed orig) (\<lambda>who.
     ensure (referral_accounts s who = None) (Module AlreadyRegistered) (
     ensure (min_code_length C \<le> length code) (Module TooShort) (
     ensure (list_all is_alphanumeric code) (Module InvalidCharacter) (
     let code = normalize_code C code in
     ensure (referral_codes s code = None) (Module AlreadyExists) (
     let (fee_asset, fee_amount, beneficiary) = registration_fee C in
     tryR (foreign (rf_transfer C fee_asset who beneficiary fee_amount True (rf_world s))) (\<lambda>w.
     Inr (s\<lparr>referral_codes := (referral_codes s)(code \<mapsto> who), referrer := (referrer s)(who \<mapsto> (Tier0, 0)),
            referral_accounts := (referral_accounts s)(who \<mapsto> code), rf_world := w\<rparr>)))))))"

definition link_code :: "('w, 'z) referrals_config_scheme \<Rightarrow> origin \<Rightarrow> referral_code \<Rightarrow> 'w referrals \<Rightarrow> 'w referrals referrals_result" where
  "link_code C orig code s =
     tryR (ensure_signed orig) (\<lambda>who.
     let code = normalize_code C code in
     tryR (ok_or (referral_codes s code) (Module InvalidCode)) (\<lambda>ref_account.
     ensure (linked_accounts s who = None) (Module AlreadyLinked) (
     ensure (who \<noteq> ref_account) (Module LinkNotAllowed) (
     Inr (s\<lparr>linked_accounts := (linked_accounts s)(who \<mapsto> ref_account)\<rparr>)))))"

section \<open>Conversion\<close>

definition referrals_convert :: "('w, 'z) referrals_config_scheme \<Rightarrow> origin \<Rightarrow> asset_id \<Rightarrow> 'w referrals \<Rightarrow> 'w referrals referrals_result" where
  "referrals_convert C orig asset_id s =
     tryR (ensure_signed orig) (\<lambda>_.
     let asset_balance = rf_balance C (rf_world s) asset_id (pot_account_id C) in
     ensure (0 < asset_balance) (Module ZeroAmount) (
     case rf_convert C (pot_account_id C) asset_id (reward_asset C) asset_balance (rf_world s) of
       (Inl e, _) \<Rightarrow> Inl (Foreign e)
     | (Inr total_reward_asset, w) \<Rightarrow>
         Inr (s\<lparr>rf_world := w, pending_conversions := remove1 asset_id (pending_conversions s)\<rparr>)))"

text \<open>
  A conversion that fails is skipped, and the asset is no longer pending. A conversion changes the world and none of the pallet's own storage. In the
  runtime it is a sale of the pot on the Omnipool, whose fee goes through \<open>process_trade_fee\<close> for the pot: the pot is linked to nobody, so this
  changes no storage as long as no rewards are configured for \<open>Level::None\<close>.
\<close>

primrec convert_pending :: "('w, 'z) referrals_config_scheme \<Rightarrow> asset_id list \<Rightarrow> 'w referrals \<Rightarrow> 'w referrals" where
  "convert_pending C [] s = s"
| "convert_pending C (asset_id # assets) s =
     (let asset_balance = rf_balance C (rf_world s) asset_id (pot_account_id C);
          w = snd (rf_convert C (pot_account_id C) asset_id (reward_asset C) asset_balance (rf_world s))
      in convert_pending C assets (s\<lparr>rf_world := w, pending_conversions := remove1 asset_id (pending_conversions s)\<rparr>))"

text \<open>
  Weights are pairs of reference time and proof size, both 64 bits wide. The count of conversions is cast to \<open>usize\<close>, which has 32 bits
  in the runtime's WebAssembly; the result carries the weight spent.
\<close>

definition max_converts :: "('w, 'z) referrals_config_scheme \<Rightarrow> nat \<times> nat \<Rightarrow> nat" where
  "max_converts C remaining_weight =
     (let ref_time = saturating_sub (fst remaining_weight) (fst (one_read C));
          proof_size = saturating_sub (snd remaining_weight) (snd (one_read C));
          unwrap_or_0 = (\<lambda>n. case n of Some k \<Rightarrow> k | None \<Rightarrow> 0)
      in min (unwrap_or_0 (checked_div ref_time (fst (convert_weight C)))) (unwrap_or_0 (checked_div proof_size (snd (convert_weight C)))))"

definition referrals_on_idle :: "('w, 'z) referrals_config_scheme \<Rightarrow> nat \<times> nat \<Rightarrow> 'w referrals \<Rightarrow> (nat \<times> nat) \<times> 'w referrals" where
  "referrals_on_idle C remaining_weight s =
     (if convert_weight C = (0, 0) then ((0, 0), s)
      else
        let assets = take (max_converts C remaining_weight mod 2 ^ 32) (pending_conversions s);
            spent = (\<lambda>w r. saturating_add 64 (min (umax 64) (w * length assets)) r)
        in ((spent (fst (convert_weight C)) (fst (one_read C)), spent (snd (convert_weight C)) (snd (one_read C))),
            convert_pending C assets s))"

section \<open>Rewards\<close>

definition convert_shares :: "balance \<Rightarrow> balance \<Rightarrow> balance \<Rightarrow> balance option" where
  "convert_shares reward_reserve share_issuance to_convert = do {
     p \<leftarrow> checked_mul 256 to_convert reward_reserve;
     r \<leftarrow> checked_div p share_issuance;
     narrow 128 r
   }"

text \<open>The level of a referrer after a reward; \<open>None\<close> when the recursion does not end.\<close>

definition reward_referrer :: "('w, 'z) referrals_config_scheme \<Rightarrow> account_id \<Rightarrow> balance \<Rightarrow> 'w referrals \<Rightarrow> 'w referrals option" where
  "reward_referrer C who referrer_rewards s =
     (case referrer s who of
        None \<Rightarrow> Some s
      | Some (level, paid) \<Rightarrow> do {
          let paid = saturating_add 128 paid referrer_rewards;
          new_level \<leftarrow> level_increase (level_volume C) level paid;
          Some (s\<lparr>referrer := (referrer s)(who \<mapsto> (new_level, paid))\<rparr>)
        })"

definition claim_rewards :: "('w, 'z) referrals_config_scheme \<Rightarrow> origin \<Rightarrow> 'w referrals \<Rightarrow> 'w referrals referrals_result option" where
  "claim_rewards C orig s =
     (case ensure_signed orig of Inl e \<Rightarrow> Some (Inl e) | Inr who \<Rightarrow>
      let s = convert_pending C (pending_conversions s) s;
          ref_shares = referrer_shares s who;
          trade_shares = trader_shares s who;
          s = s\<lparr>referrer_shares := (referrer_shares s)(who := 0), trader_shares := (trader_shares s)(who := 0)\<rparr>;
          shares = saturating_add 128 ref_shares trade_shares
      in if shares = 0 then Some (Inr s)
         else
           let reward_reserve = saturating_sub (rf_balance C (rf_world s) (reward_asset C) (pot_account_id C)) (seed_native_amount C);
               share_issuance = total_shares s
           in case (do {
                 referrer_rewards \<leftarrow> convert_shares reward_reserve share_issuance ref_shares;
                 trader_rewards \<leftarrow> convert_shares reward_reserve share_issuance trade_shares;
                 total_rewards \<leftarrow> checked_add 128 referrer_rewards trader_rewards;
                 Some (referrer_rewards, total_rewards) }) of
                None \<Rightarrow> Some (Inl (Arithmetic Arith_Overflow))
              | Some (referrer_rewards, total_rewards) \<Rightarrow>
                  if reward_reserve < total_rewards then Some (Inl (Module IncorrectRewardCalculation))
                  else case rf_transfer C (reward_asset C) (pot_account_id C) who total_rewards (shares \<noteq> share_issuance) (rf_world s) of
                    Inl e \<Rightarrow> Some (Inl (Foreign e))
                  | Inr w \<Rightarrow> map_option Inr (reward_referrer C who referrer_rewards
                      (s\<lparr>rf_world := w, total_shares := saturating_sub (total_shares s) shares\<rparr>)))"

definition set_reward_percentage ::
    "('w, 'z) referrals_config_scheme \<Rightarrow> origin \<Rightarrow> asset_id \<Rightarrow> level \<Rightarrow> fee_distribution \<Rightarrow> 'w referrals \<Rightarrow> 'w referrals referrals_result" where
  "set_reward_percentage C orig asset_id level rewards s =
     ensure (rf_authority C orig) BadOrigin (
     ensure (permill_checked_add C (fd_referrer rewards) (fd_trader rewards) \<noteq> None) (Module IncorrectRewardPercentage) (
     Inr (s\<lparr>asset_rewards := (asset_rewards s)((asset_id, level) \<mapsto> rewards)\<rparr>)))"

text \<open>The level and the referrer of a trade: \<open>None\<close> where a linked referrer has no entry.\<close>

definition trade_level :: "account_id \<Rightarrow> 'w referrals \<Rightarrow> (level \<times> account_id option) option" where
  "trade_level trader s = (case linked_accounts s trader of
     Some acc \<Rightarrow> (case referrer s acc of Some (level, _) \<Rightarrow> Some (level, Some acc) | None \<Rightarrow> None)
   | None \<Rightarrow> Some (Level_None, None))"

definition mint_shares ::
    "('w, 'z) referrals_config_scheme \<Rightarrow> account_id \<Rightarrow> asset_id \<Rightarrow> account_id option \<Rightarrow> balance \<Rightarrow> balance \<Rightarrow> balance \<Rightarrow> 'w referrals \<Rightarrow> 'w referrals" where
  "mint_shares C trader asset_id ref_account used ref_shares trade_shares s =
     (let s = s\<lparr>total_shares := saturating_add 128 (total_shares s) (saturating_add 128 ref_shares trade_shares)\<rparr>;
          s = (case ref_account of Some acc \<Rightarrow>
                 s\<lparr>referrer_shares := (referrer_shares s)(acc := saturating_add 128 (referrer_shares s acc) ref_shares)\<rparr> | None \<Rightarrow> s);
          s = (if trade_shares \<noteq> 0
               then s\<lparr>trader_shares := (trader_shares s)(trader := saturating_add 128 (trader_shares s trader) trade_shares)\<rparr> else s)
      in if 0 < used \<and> asset_id \<noteq> reward_asset C \<and> asset_id \<notin> set (pending_conversions s)
         then s\<lparr>pending_conversions := insort_key (rf_hash C) asset_id (pending_conversions s)\<rparr> else s)"

definition process_trade_fee ::
    "('w, 'z) referrals_config_scheme \<Rightarrow> account_id \<Rightarrow> asset_id \<Rightarrow> balance \<Rightarrow> 'w referrals \<Rightarrow> (balance \<times> 'w referrals) referrals_result" where
  "process_trade_fee C trader asset_id amount s =
     (case rf_price C (rf_world s) (reward_asset C) asset_id of None \<Rightarrow> Inr (0, s) | Some price \<Rightarrow>
      case trade_level trader s of None \<Rightarrow> Inr (0, s) | Some (level, ref_account) \<Rightarrow>
      let rewards = (case asset_rewards s (asset_id, level) of Some r \<Rightarrow> r | None \<Rightarrow> level_rewards C level);
          referrer_reward = (if ref_account \<noteq> None then permill_mul_floor (rf_arith C) (fd_referrer rewards) amount else 0);
          trader_reward = permill_mul_floor (rf_arith C) (fd_trader rewards) amount;
          used = saturating_add 128 referrer_reward trader_reward
      in ensure (used \<le> amount) (Module IncorrectRewardCalculation) (
         tryR (if ref_account \<noteq> None
               then ok_or (mul_rational (rf_arith C) Round_Down referrer_reward (ratio_n price) (ratio_d price)) (Arithmetic Arith_Overflow)
               else Inr 0) (\<lambda>ref_shares.
         tryR (ok_or (mul_rational (rf_arith C) Round_Down trader_reward (ratio_n price) (ratio_d price)) (Arithmetic Arith_Overflow)) (\<lambda>trade_shares.
         Inr (used, mint_shares C trader asset_id ref_account used ref_shares trade_shares s)))))"

section \<open>Runs\<close>

text \<open>
  Fees come in as long as the counter of shares is below the maximum of its type; between the calls the rest of the runtime changes the
  world behind the currency.
\<close>

inductive referrals_reachable :: "('w, 'z) referrals_config_scheme \<Rightarrow> 'w referrals \<Rightarrow> bool" for C where
  genesis: "referrals_reachable C \<lparr>referral_codes = Map.empty, referral_accounts = Map.empty, linked_accounts = Map.empty,
     referrer_shares = (\<lambda>_. 0), trader_shares = (\<lambda>_. 0), total_shares = 0, referrer = Map.empty, asset_rewards = Map.empty,
     pending_conversions = [], rf_world = w\<rparr>"
| register: "referrals_reachable C s \<Longrightarrow> register_code C orig code s = Inr s' \<Longrightarrow> referrals_reachable C s'"
| link: "referrals_reachable C s \<Longrightarrow> link_code C orig code s = Inr s' \<Longrightarrow> referrals_reachable C s'"
| convert: "referrals_reachable C s \<Longrightarrow> referrals_convert C orig a s = Inr s' \<Longrightarrow> referrals_reachable C s'"
| claim: "referrals_reachable C s \<Longrightarrow> claim_rewards C orig s = Some (Inr s') \<Longrightarrow> referrals_reachable C s'"
| percentage: "referrals_reachable C s \<Longrightarrow> set_reward_percentage C orig a l r s = Inr s' \<Longrightarrow> referrals_reachable C s'"
| idle: "referrals_reachable C s \<Longrightarrow> referrals_on_idle C n s = (spent, s') \<Longrightarrow> referrals_reachable C s'"
| fee: "referrals_reachable C s \<Longrightarrow> process_trade_fee C trader a n s = Inr (used, s') \<Longrightarrow> total_shares s' < umax 128 \<Longrightarrow> referrals_reachable C s'"
| foreign: "referrals_reachable C s \<Longrightarrow> referrals_reachable C (s\<lparr>rf_world := w\<rparr>)"

section \<open>The invariant\<close>

definition share_sum :: "(account_id \<Rightarrow> balance) \<Rightarrow> balance" where
  "share_sum f = (\<Sum>x | 0 < f x. f x)"

abbreviation finite_shares :: "(account_id \<Rightarrow> balance) \<Rightarrow> bool" where
  "finite_shares f \<equiv> finite {x. 0 < f x}"

lemma finite_shares_upd [simp]: "finite_shares f \<Longrightarrow> finite_shares (f(k := v))"
  by (rule finite_subset [of _ "insert k {x. 0 < f x}"]) auto

lemma share_sum_remove:
  assumes "finite_shares f"
  shows "share_sum f = f k + share_sum (f(k := 0))"
proof (cases "f k = 0")
  case True
  then show ?thesis by (simp add: fun_upd_idem)
next
  case False
  have "share_sum f = f k + (\<Sum>x\<in>{x. 0 < f x} - {k}. f x)" unfolding share_sum_def using assms False by (intro sum.remove) auto
  also have "(\<Sum>x\<in>{x. 0 < f x} - {k}. f x) = share_sum (f(k := 0))" unfolding share_sum_def by (rule sum.cong) auto
  finally show ?thesis .
qed

lemma share_sum_upd: "finite_shares f \<Longrightarrow> share_sum (f(k := v)) + f k = share_sum f + v"
  using share_sum_remove [of f k] share_sum_remove [where f = "f(k := v)" and k = k, OF finite_shares_upd] by simp

lemma share_le_sum: "finite_shares f \<Longrightarrow> f k \<le> share_sum f"
  using share_sum_remove [of f k] by simp

definition shares_ok :: "'w referrals \<Rightarrow> bool" where
  "shares_ok s \<longleftrightarrow> finite_shares (referrer_shares s) \<and> finite_shares (trader_shares s) \<and> total_shares s \<le> umax 128 \<and>
     total_shares s = share_sum (referrer_shares s) + share_sum (trader_shares s)"

definition codes_ok :: "('w, 'z) referrals_config_scheme \<Rightarrow> 'w referrals \<Rightarrow> bool" where
  "codes_ok C s \<longleftrightarrow> (\<forall>code who. referral_codes s code = Some who \<longleftrightarrow> referral_accounts s who = Some code) \<and>
     (\<forall>code \<in> dom (referral_codes s). normalize_code C code = code) \<and>
     dom (referrer s) = dom (referral_accounts s) \<and> (\<forall>x \<in> ran (referrer s). fst x \<noteq> Level_None) \<and>
     (\<forall>who acc. linked_accounts s who = Some acc \<longrightarrow> who \<noteq> acc \<and> acc \<in> dom (referral_accounts s))"

definition pending_ok :: "('w, 'z) referrals_config_scheme \<Rightarrow> 'w referrals \<Rightarrow> bool" where
  "pending_ok C s \<longleftrightarrow> distinct (pending_conversions s) \<and> reward_asset C \<notin> set (pending_conversions s) \<and>
     (\<forall>r \<in> ran (asset_rewards s). permill_checked_add C (fd_referrer r) (fd_trader r) \<noteq> None)"

definition referrals_inv :: "('w, 'z) referrals_config_scheme \<Rightarrow> 'w referrals \<Rightarrow> bool" where
  "referrals_inv C s \<longleftrightarrow> shares_ok s \<and> codes_ok C s \<and> pending_ok C s"

lemmas referrals_inv_defs = referrals_inv_def shares_ok_def codes_ok_def pending_ok_def

subsection \<open>Levels\<close>

lemma level_increase_steps:
  "level_increase v Tier4 n = Some Tier4"
  "level_increase v Tier3 n = (if v Tier4 \<le> n then level_increase v Tier4 n else Some Tier3)"
  "level_increase v Tier2 n = (if v Tier3 \<le> n then level_increase v Tier3 n else Some Tier2)"
  "level_increase v Tier1 n = (if v Tier2 \<le> n then level_increase v Tier2 n else Some Tier1)"
  "level_increase v Tier0 n = (if v Tier1 \<le> n then level_increase v Tier1 n else Some Tier0)"
  by (subst level_increase.simps, simp add: is_max_level_def)+

lemma level_increase_ends:
  assumes "l \<noteq> Level_None"
  obtains l' where "level_increase v l n = Some l'" "l' \<noteq> Level_None"
proof -
  have "\<exists>l'. level_increase v l n = Some l' \<and> l' \<noteq> Level_None" using assms by (cases l) (simp_all add: level_increase_steps)
  then show ?thesis using that by blast
qed

subsection \<open>Operations\<close>

lemma referrals_inv_world [simp]: "referrals_inv C (s\<lparr>rf_world := w\<rparr>) = referrals_inv C s"
  by (simp add: referrals_inv_defs)

lemma pending_remove_inv: "referrals_inv C s \<Longrightarrow> referrals_inv C (s\<lparr>rf_world := w, pending_conversions := remove1 a (pending_conversions s)\<rparr>)"
  by (auto simp: referrals_inv_defs dest: notin_set_remove1)

lemma convert_pending_inv: "referrals_inv C s \<Longrightarrow> referrals_inv C (convert_pending C as s)"
  by (induction as arbitrary: s) (simp_all add: Let_def pending_remove_inv)

lemma convert_pending_sel [simp]:
  "referrer_shares (convert_pending C as s) = referrer_shares s" "trader_shares (convert_pending C as s) = trader_shares s"
  "total_shares (convert_pending C as s) = total_shares s" "referrer (convert_pending C as s) = referrer s"
  by (induction as arbitrary: s) (simp_all add: Let_def)

lemma uppercase_idem [simp]: "to_ascii_uppercase (to_ascii_uppercase c) = to_ascii_uppercase c"
  by (auto simp: to_ascii_uppercase_def)

lemma normalize_idem: "normalize_code C (normalize_code C code) = normalize_code C code"
  by (simp add: normalize_code_def take_map comp_def)

lemma register_code_inv:
  assumes "referrals_inv C s" "register_code C orig code s = Inr s'"
  shows "referrals_inv C s'"
proof -
  define c where "c = normalize_code C code"
  obtain who w where run: "referral_accounts s who = None" "referral_codes s c = None"
      "s' = s\<lparr>referral_codes := (referral_codes s)(c \<mapsto> who), referrer := (referrer s)(who \<mapsto> (Tier0, 0)),
        referral_accounts := (referral_accounts s)(who \<mapsto> c), rf_world := w\<rparr>"
    using assms(2) by (cases "registration_fee C") (auto simp: register_code_def c_def Let_def res_iff)
  have codes: "\<forall>x y. referral_codes s x = Some y \<longleftrightarrow> referral_accounts s y = Some x" "\<forall>x \<in> dom (referral_codes s). normalize_code C x = x"
      "dom (referrer s) = dom (referral_accounts s)" "\<forall>x \<in> ran (referrer s). fst x \<noteq> Level_None"
      "\<forall>x y. linked_accounts s x = Some y \<longrightarrow> x \<noteq> y \<and> y \<in> dom (referral_accounts s)"
    using assms(1) by (auto simp: referrals_inv_def codes_ok_def)
  have "referrer s who = None" using codes(3) run(1) by blast
  then have "ran ((referrer s)(who \<mapsto> (Tier0, 0))) = insert (Tier0, 0) (ran (referrer s))" by (rule ran_map_upd)
  moreover have "((referral_codes s)(c \<mapsto> who)) x = Some y \<longleftrightarrow> ((referral_accounts s)(who \<mapsto> c)) y = Some x" for x y
    using codes(1) run(1,2) by (metis fun_upd_apply option.distinct(1) option.inject)
  ultimately have "codes_ok C s'"
    using codes by (auto simp: codes_ok_def run(3) normalize_idem c_def)
  then show ?thesis using assms(1) by (simp add: referrals_inv_def shares_ok_def pending_ok_def run(3))
qed

lemma link_code_inv:
  assumes "referrals_inv C s" "link_code C orig code s = Inr s'"
  shows "referrals_inv C s'"
proof -
  obtain who acc c where run: "referral_codes s c = Some acc" "who \<noteq> acc" "s' = s\<lparr>linked_accounts := (linked_accounts s)(who \<mapsto> acc)\<rparr>"
    using assms(2) by (auto simp: link_code_def Let_def res_iff)
  have "acc \<in> dom (referral_accounts s)" using assms(1) run(1) unfolding referrals_inv_def codes_ok_def by blast
  then show ?thesis using assms(1) run(2) by (auto simp: referrals_inv_defs run(3))
qed

text \<open>Zeroing the shares of an account takes them from the total.\<close>

lemma shares_ok_claim:
  assumes "shares_ok s"
  shows "referrer_shares s who + trader_shares s who \<le> total_shares s"
    "shares_ok (s\<lparr>referrer_shares := (referrer_shares s)(who := 0), trader_shares := (trader_shares s)(who := 0), rf_world := w,
       total_shares := total_shares s - (referrer_shares s who + trader_shares s who)\<rparr>)"
  using assms share_sum_upd [of "referrer_shares s" who 0] share_sum_upd [of "trader_shares s" who 0]
    finite_shares_upd [of "referrer_shares s" who 0] finite_shares_upd [of "trader_shares s" who 0]
    share_le_sum [of "referrer_shares s" who] share_le_sum [of "trader_shares s" who]
  by (simp_all add: shares_ok_def del: fun_upd_apply) linarith

lemma convert_shares_floor:
  assumes "x \<le> T" "T \<le> umax 128" "R \<le> umax 128" "0 < T"
  shows "convert_shares R T x = Some (x * R div T)" "x * R div T \<le> R"
proof -
  have x: "x \<le> umax 128" using assms by simp
  have "x * R \<le> umax 128 * umax 128" using x assms(3) by (rule mult_le_mono)
  then have p: "x * R \<le> umax 256" by (rule order_trans) (simp add: umax_def)
  have "x * R \<le> R * T" using assms(1) by (simp add: mult.commute)
  then show q: "x * R div T \<le> R" by (rule div_le_if_mult)
  then have "x * R div T \<le> umax 128" using assms(3) by simp
  with p assms(4) show "convert_shares R T x = Some (x * R div T)"
    by (simp add: convert_shares_def checked_mul_def checked_div_def narrow_def)
qed

lemma reward_referrer_inv:
  assumes "referrals_inv C t"
  obtains t' where "reward_referrer C who n t = Some t'" "referrals_inv C t'" "rf_world t' = rf_world t"
    "referrer_shares t' = referrer_shares t" "trader_shares t' = trader_shares t" "total_shares t' = total_shares t"
proof (cases "referrer t who")
  case None
  then show ?thesis using that assms by (simp add: reward_referrer_def)
next
  case (Some x)
  obtain l m where x: "x = (l, m)" by (cases x)
  have codes: "\<forall>y \<in> ran (referrer t). fst y \<noteq> Level_None" "dom (referrer t) = dom (referral_accounts t)"
    using assms by (simp_all add: referrals_inv_def codes_ok_def)
  then have "l \<noteq> Level_None" using Some by (auto simp: x ran_def)
  then obtain l' where l': "level_increase (level_volume C) l (saturating_add 128 m n) = Some l'" "l' \<noteq> Level_None"
    by (rule level_increase_ends)
  let ?t = "t\<lparr>referrer := (referrer t)(who \<mapsto> (l', saturating_add 128 m n))\<rparr>"
  have "\<forall>y \<in> ran (referrer ?t). fst y \<noteq> Level_None" using codes(1) l'(2) by (auto simp: ran_def)
  moreover have "dom (referrer ?t) = dom (referral_accounts t)" using codes(2) Some by auto
  ultimately have "referrals_inv C ?t" using assms by (simp add: referrals_inv_defs)
  then show ?thesis using that Some l'(1) by (simp add: reward_referrer_def x)
qed

definition claim_payout :: "('w, 'z) referrals_config_scheme \<Rightarrow> account_id \<Rightarrow> 'w referrals \<Rightarrow> balance" where
  "claim_payout C who s =
     (let R = rf_balance C (rf_world s) (reward_asset C) (pot_account_id C) - seed_native_amount C
      in referrer_shares s who * R div total_shares s + trader_shares s who * R div total_shares s)"

text \<open>
  A claim neither overflows nor fails its own check nor loops: it pays the two rounded-down parts of the pot, and only the transfer can fail.
\<close>

lemma claim_run:
  assumes "referrals_inv C s0" "\<And>w a x. rf_balance C w a x \<le> umax 128" "s = convert_pending C (pending_conversions s0) s0"
  shows "claim_payout C who s \<le> rf_balance C (rf_world s) (reward_asset C) (pot_account_id C) - seed_native_amount C \<and>
    (if referrer_shares s who + trader_shares s who = 0 then claim_rewards C (Signed who) s0 = Some (Inr s)
     else case rf_transfer C (reward_asset C) (pot_account_id C) who (claim_payout C who s)
            (referrer_shares s who + trader_shares s who \<noteq> total_shares s) (rf_world s) of
          Inl e \<Rightarrow> claim_rewards C (Signed who) s0 = Some (Inl (Foreign e))
        | Inr w \<Rightarrow> \<exists>s'. claim_rewards C (Signed who) s0 = Some (Inr s') \<and> referrals_inv C s' \<and> rf_world s' = w \<and>
            referrer_shares s' = (referrer_shares s)(who := 0) \<and> trader_shares s' = (trader_shares s)(who := 0) \<and>
            total_shares s' = total_shares s - (referrer_shares s who + trader_shares s who))"
proof -
  have inv: "referrals_inv C s" unfolding assms(3) by (rule convert_pending_inv [OF assms(1)])
  then have sh: "shares_ok s" by (simp add: referrals_inv_def)
  define x where "x = referrer_shares s who"
  define y where "y = trader_shares s who"
  define T where "T = total_shares s"
  define R where "R = rf_balance C (rf_world s) (reward_asset C) (pot_account_id C) - seed_native_amount C"
  have xy: "x + y \<le> T" "T \<le> umax 128" using shares_ok_claim(1) [OF sh, of who] sh by (simp_all add: x_def y_def T_def shares_ok_def)
  have R: "R \<le> umax 128" unfolding R_def using assms(2) [of "rf_world s"] by (meson diff_le_self order_trans)
  have pay: "claim_payout C who s = x * R div T + y * R div T" by (simp add: claim_payout_def x_def y_def R_def T_def Let_def)
  have "x * R div T + y * R div T \<le> (x * R + y * R) div T" by (rule div_add_le)
  also have "\<dots> \<le> R" using mult_le_mono2 [OF xy(1), of R] by (intro div_le_if_mult) (simp add: algebra_simps)
  finally have le: "claim_payout C who s \<le> R" unfolding pay .
  define s1 where "s1 = s\<lparr>referrer_shares := (referrer_shares s)(who := 0), trader_shares := (trader_shares s)(who := 0)\<rparr>"
  define z where "z = x + y"
  have sat: "saturating_add 128 x y = z" using xy by (simp add: saturating_add_def z_def)
  have run: "claim_rewards C (Signed who) s0 = (if z = 0 then Some (Inr s1) else
      case rf_transfer C (reward_asset C) (pot_account_id C) who (claim_payout C who s) (z \<noteq> T) (rf_world s) of
        Inl e \<Rightarrow> Some (Inl (Foreign e))
      | Inr w \<Rightarrow> map_option Inr (reward_referrer C who (x * R div T) (s1\<lparr>rf_world := w, total_shares := T - z\<rparr>)))"
  proof (cases "z = 0")
    case True
    then show ?thesis
      unfolding claim_rewards_def ensure_signed_def origin.case sum.case Let_def assms(3) [symmetric]
      unfolding x_def [symmetric] y_def [symmetric] sat by (simp add: s1_def)
  next
    case False
    then have T: "0 < T" using xy(1) z_def by linarith
    have c: "convert_shares R T x = Some (x * R div T)" "convert_shares R T y = Some (y * R div T)"
      using xy R T by (simp_all add: convert_shares_floor)
    have "checked_add 128 (x * R div T) (y * R div T) = Some (claim_payout C who s)" using le R by (simp add: checked_add_def pay)
    with c False le show ?thesis
      unfolding claim_rewards_def ensure_signed_def origin.case sum.case Let_def assms(3) [symmetric]
      unfolding x_def [symmetric] y_def [symmetric] sat
      by (simp add: s1_def saturating_sub_def R_def [symmetric] T_def [symmetric] split: sum.splits)
  qed
  show ?thesis
  proof (cases "z = 0")
    case True
    then have "(referrer_shares s)(who := 0) = referrer_shares s" "(trader_shares s)(who := 0) = trader_shares s"
      by (auto simp: x_def y_def z_def)
    then have "s1 = s" by (simp add: s1_def)
    with True run le show ?thesis by (simp add: R_def x_def y_def z_def)
  next
    case False
    have "\<exists>s'. map_option Inr (reward_referrer C who (x * R div T) (s1\<lparr>rf_world := w, total_shares := T - z\<rparr>)) = Some (Inr s') \<and>
        referrals_inv C s' \<and> rf_world s' = w \<and> referrer_shares s' = (referrer_shares s)(who := 0) \<and>
        trader_shares s' = (trader_shares s)(who := 0) \<and> total_shares s' = T - z" for w
    proof -
      have "referrals_inv C (s1\<lparr>rf_world := w, total_shares := T - z\<rparr>)"
        using shares_ok_claim(2) [OF sh, of who w] inv
        by (simp add: s1_def T_def x_def y_def z_def referrals_inv_def codes_ok_def pending_ok_def shares_ok_def)
      then show ?thesis by (rule reward_referrer_inv [where who = who and n = "x * R div T"]) (simp add: s1_def)
    qed
    with False run le show ?thesis
      unfolding x_def [symmetric] y_def [symmetric] T_def [symmetric] R_def [symmetric] z_def [symmetric] by (simp split: sum.splits)
  qed
qed

text \<open>Minting below the maximum of the counter does not saturate anywhere.\<close>

lemma mint_saturating:
  assumes "shares_ok s" "saturating_add 128 (total_shares s) (saturating_add 128 n m) < umax 128"
  shows "total_shares s + (n + m) < umax 128" "saturating_add 128 (total_shares s) (saturating_add 128 n m) = total_shares s + (n + m)"
    "saturating_add 128 (referrer_shares s x) n = referrer_shares s x + n" "saturating_add 128 (trader_shares s x) m = trader_shares s x + m"
proof -
  show t: "total_shares s + (n + m) < umax 128" using assms(2) by (auto simp: saturating_add_def min_def split: if_splits)
  have "referrer_shares s x \<le> total_shares s" "trader_shares s x \<le> total_shares s"
    using assms(1) share_le_sum [of "referrer_shares s" x] share_le_sum [of "trader_shares s" x] by (simp_all add: shares_ok_def)
  with t show "saturating_add 128 (total_shares s) (saturating_add 128 n m) = total_shares s + (n + m)"
    "saturating_add 128 (referrer_shares s x) n = referrer_shares s x + n" "saturating_add 128 (trader_shares s x) m = trader_shares s x + m"
    by (auto simp: saturating_add_def)
qed

lemma mint_shares_sel [simp]:
  "total_shares (mint_shares C trader a acc used n m s) = saturating_add 128 (total_shares s) (saturating_add 128 n m)"
  "referrer_shares (mint_shares C trader a acc used n m s) =
     (case acc of Some x \<Rightarrow> (referrer_shares s)(x := saturating_add 128 (referrer_shares s x) n) | None \<Rightarrow> referrer_shares s)"
  "trader_shares (mint_shares C trader a acc used n m s) =
     (if m \<noteq> 0 then (trader_shares s)(trader := saturating_add 128 (trader_shares s trader) m) else trader_shares s)"
  "codes_ok C (mint_shares C trader a acc used n m s) = codes_ok C s"
  by (auto simp: mint_shares_def Let_def codes_ok_def split: option.splits)

lemma mint_shares_pending: "pending_ok C s \<Longrightarrow> pending_ok C (mint_shares C trader a acc used n m s)"
  by (auto simp: mint_shares_def Let_def pending_ok_def distinct_insort set_insort_key split: option.splits)

lemma mint_shares_inv:
  assumes "referrals_inv C s" "total_shares (mint_shares C trader a acc used n m s) < umax 128" "acc = None \<Longrightarrow> n = 0"
  shows "referrals_inv C (mint_shares C trader a acc used n m s)"
proof -
  have sh: "shares_ok s" using assms(1) by (simp add: referrals_inv_def)
  note sat = mint_saturating [OF sh assms(2) [unfolded mint_shares_sel]]
  have t: "share_sum ((trader_shares s)(trader := trader_shares s trader + m)) = share_sum (trader_shares s) + m"
    using share_sum_upd [of "trader_shares s" trader "trader_shares s trader + m"] sh by (simp add: shares_ok_def)
  have r: "share_sum ((referrer_shares s)(x := referrer_shares s x + n)) = share_sum (referrer_shares s) + n" for x
    using share_sum_upd [of "referrer_shares s" x "referrer_shares s x + n"] sh by (simp add: shares_ok_def)
  have "shares_ok (mint_shares C trader a acc used n m s)"
    using sh t r sat finite_shares_upd [of "trader_shares s" trader "trader_shares s trader + m"] finite_shares_upd [of "referrer_shares s"] assms(3)
    by (cases acc; cases "m = 0") (simp_all add: shares_ok_def sat(2-4) del: fun_upd_apply)
  then show ?thesis using assms(1) by (simp add: referrals_inv_def mint_shares_pending)
qed

text \<open>A processed fee: nothing without a price, else shares are minted and the asset may become pending.\<close>

lemma process_trade_fee_run:
  assumes "process_trade_fee C trader a amount s = Inr (used, s')"
  obtains "s' = s" "used = 0"
  | acc n m where "acc = None \<Longrightarrow> n = 0" "used \<le> amount" "s' = mint_shares C trader a acc used n m s"
proof (cases "rf_price C (rf_world s) (reward_asset C) a")
  case None
  then show ?thesis using assms that(1) by (simp add: process_trade_fee_def)
next
  case (Some price)
  show ?thesis
  proof (cases "trade_level trader s")
    case None
    then show ?thesis using assms that(1) Some by (simp add: process_trade_fee_def)
  next
    case level: (Some x)
    obtain l acc where x: "x = (l, acc)" by (cases x)
    show ?thesis
      using assms unfolding process_trade_fee_def Let_def Some level x option.case prod.case
      by (elim run_elims) (use that(2) [of acc] in \<open>auto split: if_splits\<close>)
  qed
qed

lemma process_trade_fee_inv:
  assumes "referrals_inv C s" "process_trade_fee C trader a amount s = Inr (used, s')" "total_shares s' < umax 128"
  shows "referrals_inv C s'"
  using assms(2)
proof (cases rule: process_trade_fee_run)
  case 1
  then show ?thesis using assms by simp
next
  case (2 acc n m)
  then show ?thesis using assms mint_shares_inv by blast
qed

section \<open>Reachable states\<close>

text \<open>What the pallet relies on: balances are 128 bits wide and a sum of two parts in a million exists only up to one.\<close>

locale referrals_env = sp_arith "rf_arith C" for C :: "('w, 'z) referrals_config_scheme" +
  assumes balance_u128: "rf_balance C w a x \<le> umax 128"
    and percentages_add: "permill_checked_add C p q = Some r \<Longrightarrow> p + q \<le> permill_one"
begin

lemma referrals_reachable_inv:
  assumes "referrals_reachable C s"
  shows "referrals_inv C s"
  using assms
proof induction
  case (genesis w)
  then show ?case by (simp add: referrals_inv_defs share_sum_def)
next
  case (convert s orig a s')
  then show ?case by (auto simp: referrals_convert_def Let_def res_iff pending_remove_inv split: prod.splits sum.splits)
next
  case (claim s orig s')
  obtain who where "orig = Signed who" using claim(2) by (cases orig) (auto simp: claim_rewards_def ensure_signed_def)
  then show ?case
    using claim_run [OF claim(3) balance_u128 refl, of who] claim(2) convert_pending_inv [OF claim(3)]
    by (auto split: if_splits sum.splits)
next
  case (percentage s orig a l r s')
  have sub: "ran ((asset_rewards s)((a, l) \<mapsto> r)) \<subseteq> insert r (ran (asset_rewards s))" by (auto simp: ran_def)
  have s': "s' = s\<lparr>asset_rewards := (asset_rewards s)((a, l) \<mapsto> r)\<rparr>"
    and r: "permill_checked_add C (fd_referrer r) (fd_trader r) \<noteq> None"
    using percentage(2) unfolding set_reward_percentage_def by (simp_all split: if_splits add: res_iff)
  have "pending_ok C s'" using percentage(3) sub r unfolding s' referrals_inv_def pending_ok_def by simp blast
  moreover have "shares_ok s' = shares_ok s" "codes_ok C s' = codes_ok C s" unfolding s' shares_ok_def codes_ok_def by simp_all
  ultimately show ?case using percentage(3) by (simp add: referrals_inv_def)
next
  case (idle s n spent s')
  then show ?case by (auto simp: referrals_on_idle_def Let_def convert_pending_inv split: if_splits)
qed (auto intro: register_code_inv link_code_inv process_trade_fee_inv)

text \<open>The parts of a fee together are at most the fee, also after rounding.\<close>

lemma parts_le:
  assumes "p + q \<le> permill_one" "n \<le> umax 128"
  shows "permill_mul_floor (rf_arith C) p n + permill_mul_floor (rf_arith C) q n \<le> n"
    "saturating_add 128 (permill_mul_floor (rf_arith C) p n) (permill_mul_floor (rf_arith C) q n) =
       permill_mul_floor (rf_arith C) p n + permill_mul_floor (rf_arith C) q n"
proof -
  have "p * n div permill_one + q * n div permill_one \<le> (p * n + q * n) div permill_one" by (rule div_add_le)
  also have "\<dots> \<le> permill_one * n div permill_one"
    using mult_le_mono1 [OF assms(1), of n] by (intro div_le_mono) (simp add: algebra_simps)
  finally have "p * n div permill_one + q * n div permill_one \<le> n" by (simp add: permill_one_def)
  then show "permill_mul_floor (rf_arith C) p n + permill_mul_floor (rf_arith C) q n \<le> n" using assms by (simp add: permill_mul_floor)
  then show "saturating_add 128 (permill_mul_floor (rf_arith C) p n) (permill_mul_floor (rf_arith C) q n) =
       permill_mul_floor (rf_arith C) p n + permill_mul_floor (rf_arith C) q n"
    using assms(2) by (simp add: saturating_add_def)
qed

lemma rewards_in_range:
  assumes "referrals_reachable C s" "\<And>l. fd_referrer (level_rewards C l) + fd_trader (level_rewards C l) \<le> permill_one"
    and "r = (case asset_rewards s k of Some r \<Rightarrow> r | None \<Rightarrow> level_rewards C l)"
  shows "fd_referrer r + fd_trader r \<le> permill_one"
proof (cases "asset_rewards s k")
  case None
  then show ?thesis using assms(2,3) by simp
next
  case (Some x)
  then have "r \<in> ran (asset_rewards s)" using assms(3) ranI [of "asset_rewards s" k x] by simp
  then have "permill_checked_add C (fd_referrer r) (fd_trader r) \<noteq> None"
    using referrals_reachable_inv [OF assms(1)] by (simp add: referrals_inv_def pending_ok_def)
  then show ?thesis using percentages_add by blast
qed

end

section \<open>The runtime's tiers and a run\<close>

definition referrals_level_volume_and_rewards :: "level \<Rightarrow> balance \<times> fee_distribution" where
  "referrals_level_volume_and_rewards k =
     (let units = 10 ^ 12;
          volume = (case k of Tier0 \<Rightarrow> 0 | Level_None \<Rightarrow> 0 | Tier1 \<Rightarrow> 305 * units | Tier2 \<Rightarrow> 4583 * units | Tier3 \<Rightarrow> 61111 * units
                    | Tier4 \<Rightarrow> 763888 * units);
          percent = (\<lambda>r t. \<lparr>fd_referrer = r * 10000, fd_trader = t * 10000\<rparr>);
          rewards = (case k of Level_None \<Rightarrow> percent 0 0 | Tier0 \<Rightarrow> percent 60 40 | Tier1 \<Rightarrow> percent 65 35 | Tier2 \<Rightarrow> percent 70 30
                     | Tier3 \<Rightarrow> percent 75 25 | Tier4 \<Rightarrow> percent 80 20)
      in (volume, rewards))"

text \<open>The runtime's tiers, code lengths and seed on the plain ledger; conversion is one to one with account 801, every price is one.\<close>

definition std_referrals :: "ledger referrals_config" where
  "std_referrals = \<lparr>rf_arith = std_arith, rf_authority = (\<lambda>orig. orig = Root), rf_balance = ledger_free,
     rf_transfer = (\<lambda>a x y n keep. ledger_transfer a x y n),
     rf_convert = (\<lambda>x a b n w. case tryR (ledger_transfer a x 801 n w) (ledger_transfer b 801 x n) of Inl e \<Rightarrow> (Inl e, w) | Inr w' \<Rightarrow> (Inr n, w')),
     rf_price = (\<lambda>_ _ _. Some \<lparr>ratio_n = 1, ratio_d = 1\<rparr>), rf_hash = id, reward_asset = 0, pot_account_id = 800,
     registration_fee = (0, 222 * 10 ^ 12, 802), code_length = 10, min_code_length = 4,
     level_volume = (\<lambda>l. fst (referrals_level_volume_and_rewards l)), level_rewards = (\<lambda>l. snd (referrals_level_volume_and_rewards l)),
     seed_native_amount = 10 ^ 13, permill_checked_add = (\<lambda>p q. if p + q \<le> permill_one then Some (p + q) else None),
     convert_weight = (10 ^ 9, 10 ^ 4), one_read = (10 ^ 7, 0)\<rparr>"

interpretation std_ref: referrals_env std_referrals
  using std.sp_arith_axioms
  by (auto simp: referrals_env_def referrals_env_axioms_def std_referrals_def ledger_free_def split: if_splits)

definition referrals_start :: "ledger referrals" where
  "referrals_start = \<lparr>referral_codes = Map.empty, referral_accounts = Map.empty, linked_accounts = Map.empty,
     referrer_shares = (\<lambda>_. 0), trader_shares = (\<lambda>_. 0), total_shares = 0, referrer = Map.empty, asset_rewards = Map.empty,
     pending_conversions = [],
     rf_world = (\<lambda>_. 0)((0, 1) := 500 * 10 ^ 12, (0, 800) := 10 ^ 13, (5, 800) := 1000, (0, 801) := 5000)\<rparr>"

text \<open>Account 1 registers \<open>hydra\<close>, account 2 links to it and trades with a fee of 1000.\<close>

definition referrals_registered :: "ledger referrals" where
  "referrals_registered = referrals_start\<lparr>referral_codes := [[72, 89, 68, 82, 65] \<mapsto> 1], referrer := [1 \<mapsto> (Tier0, 0)],
     referral_accounts := [1 \<mapsto> [72, 89, 68, 82, 65]], rf_world := (rf_world referrals_start)((0, 1) := 278 * 10 ^ 12, (0, 802) := 222 * 10 ^ 12)\<rparr>"

definition referrals_linked :: "ledger referrals" where
  "referrals_linked = referrals_registered\<lparr>linked_accounts := [2 \<mapsto> 1]\<rparr>"

definition referrals_traded :: "ledger referrals" where
  "referrals_traded = referrals_linked\<lparr>referrer_shares := (\<lambda>_. 0)(1 := 600), trader_shares := (\<lambda>_. 0)(2 := 400), total_shares := 1000,
     pending_conversions := [5]\<rparr>"

lemmas referrals_run_defs = referrals_start_def referrals_registered_def referrals_linked_def referrals_traded_def std_referrals_def

lemma referrals_registered_run: "register_code std_referrals (Signed 1) [104, 121, 100, 114, 97] referrals_start = Inr referrals_registered"
  by (simp add: register_code_def referrals_run_defs ensure_signed_def ensure_def tryR_def foreign_def is_alphanumeric_def normalize_code_def
      to_ascii_uppercase_def ledger_transfer_def ledger_withdraw_def ledger_deposit_def ledger_free_def umax_def Let_def)

lemma referrals_linked_run: "link_code std_referrals (Signed 2) [72, 121, 100, 114, 97] referrals_registered = Inr referrals_linked"
  by (simp add: link_code_def referrals_run_defs ensure_signed_def ensure_def tryR_def ok_or_def normalize_code_def to_ascii_uppercase_def)

lemma referrals_traded_run: "process_trade_fee std_referrals 2 5 1000 referrals_linked = Inr (1000, referrals_traded)"
  by (simp add: process_trade_fee_def trade_level_def mint_shares_def referrals_run_defs referrals_level_volume_and_rewards_def std_arith_def
      permill_one_def narrow_def saturating_add_def ensure_def tryR_def ok_or_def Let_def umax_def)

lemma referrals_run_reachable: "referrals_reachable std_referrals referrals_linked" "referrals_reachable std_referrals referrals_traded"
proof -
  have "referrals_reachable std_referrals referrals_start" unfolding referrals_start_def by (rule referrals_reachable.genesis)
  from referrals_reachable.link [OF referrals_reachable.register [OF this referrals_registered_run] referrals_linked_run]
  show l: "referrals_reachable std_referrals referrals_linked" .
  show "referrals_reachable std_referrals referrals_traded"
    by (rule referrals_reachable.fee [OF l referrals_traded_run]) (simp add: referrals_traded_def umax_def)
qed

section \<open>Properties\<close>

text \<open>
  (C21) In every state the pallet reaches, the counter of all shares is the sum of what referrers and traders hold, so what is minted and what
  is claimed agree; codes and their accounts are inverse to each other and stored in normal form; a referrer has an entry, never of the
  level \<open>None\<close>; and an account is only linked to a registered one, never to itself.
\<close>

theorem referrals_accounting:
  assumes "referrals_env C" "referrals_reachable C s"
  shows "total_shares s = (\<Sum>x | 0 < referrer_shares s x. referrer_shares s x) + (\<Sum>x | 0 < trader_shares s x. trader_shares s x) \<and>
    total_shares s \<le> umax 128 \<and>
    (referral_codes s code = Some who \<longleftrightarrow> referral_accounts s who = Some code) \<and>
    (referral_codes s code = Some who \<longrightarrow> normalize_code C code = code \<and> (\<exists>l n. referrer s who = Some (l, n) \<and> l \<noteq> Level_None)) \<and>
    (linked_accounts s x = Some acc \<longrightarrow> x \<noteq> acc \<and> referral_accounts s acc \<noteq> None)"
proof -
  have inv: "referrals_inv C s" by (rule referrals_env.referrals_reachable_inv [OF assms])
  then have codes: "codes_ok C s" and "shares_ok s" by (simp_all add: referrals_inv_def)
  have "\<exists>l n. referrer s who = Some (l, n) \<and> l \<noteq> Level_None" if "referral_codes s code = Some who"
  proof -
    have "who \<in> dom (referrer s)" using codes that unfolding codes_ok_def by blast
    then obtain l n where r: "referrer s who = Some (l, n)" by force
    then have "(l, n) \<in> ran (referrer s)" by (rule ranI)
    then show ?thesis using r codes unfolding codes_ok_def by force
  qed
  moreover have "normalize_code C code = code" if "referral_codes s code = Some who"
    using codes that unfolding codes_ok_def by blast
  moreover have "x \<noteq> acc \<and> referral_accounts s acc \<noteq> None" if "linked_accounts s x = Some acc"
    using codes that unfolding codes_ok_def by blast
  moreover have "referral_codes s code = Some who \<longleftrightarrow> referral_accounts s who = Some code" using codes unfolding codes_ok_def by blast
  ultimately show ?thesis using \<open>shares_ok s\<close> unfolding shares_ok_def share_sum_def by blast
qed

theorem referrals_accounting_witness:
  "1000 = (\<Sum>x | 0 < referrer_shares referrals_traded x. referrer_shares referrals_traded x) +
     (\<Sum>x | 0 < trader_shares referrals_traded x. trader_shares referrals_traded x) \<and>
   referral_codes referrals_traded [72, 89, 68, 82, 65] = Some 1 \<and> normalize_code std_referrals [72, 89, 68, 82, 65] = [72, 89, 68, 82, 65] \<and>
   linked_accounts referrals_traded 2 = Some 1 \<and> referral_accounts referrals_traded 1 \<noteq> None"
  using referrals_accounting [OF std_ref.referrals_env_axioms referrals_run_reachable(2), of "[72, 89, 68, 82, 65]" 1 2 1]
  by (simp add: referrals_traded_def referrals_linked_def referrals_registered_def)

text \<open>
  (C20) A claim always comes to an end: it never overflows, fails its own check or recurses for ever on the levels. It pays the rounded-down
  part of the pot above the seed for the referrer's and for the trader's shares, never more than there is, and never so much that a share
  left in the pot is worth less than before. Only the transfer can fail; else exactly the claimant's shares are gone.
\<close>

theorem referrals_claim_pays:
  assumes "referrals_env C" "referrals_reachable C s0"
    and "s = convert_pending C (pending_conversions s0) s0"
    and "R = rf_balance C (rf_world s) (reward_asset C) (pot_account_id C) - seed_native_amount C"
    and "x = referrer_shares s0 who" "y = trader_shares s0 who" "pay = x * R div total_shares s0 + y * R div total_shares s0"
  shows "pay \<le> R \<and> R * (total_shares s0 - (x + y)) \<le> (R - pay) * total_shares s0 \<and>
    (if x + y = 0 then claim_rewards C (Signed who) s0 = Some (Inr s)
     else case rf_transfer C (reward_asset C) (pot_account_id C) who pay (x + y \<noteq> total_shares s0) (rf_world s) of
          Inl e \<Rightarrow> claim_rewards C (Signed who) s0 = Some (Inl (Foreign e))
        | Inr w \<Rightarrow> \<exists>s'. claim_rewards C (Signed who) s0 = Some (Inr s') \<and> rf_world s' = w \<and>
            referrer_shares s' = (referrer_shares s0)(who := 0) \<and> trader_shares s' = (trader_shares s0)(who := 0) \<and>
            total_shares s' = total_shares s0 - (x + y))"
proof -
  have inv: "referrals_inv C s0" by (rule referrals_env.referrals_reachable_inv [OF assms(1,2)])
  have eq: "referrer_shares s = referrer_shares s0" "trader_shares s = trader_shares s0" "total_shares s = total_shares s0"
    by (simp_all add: assms(3))
  have pay: "claim_payout C who s = pay" by (simp add: claim_payout_def Let_def eq assms(4-7))
  have le: "x + y \<le> total_shares s0" using shares_ok_claim(1) [of s0 who] inv by (simp add: referrals_inv_def assms(5,6))
  note run = claim_run [OF inv referrals_env.balance_u128 [OF assms(1)] assms(3), of who, unfolded pay eq assms(5,6) [symmetric] assms(4) [symmetric]]
  have "pay * total_shares s0 \<le> (x + y) * R"
    unfolding assms(7) add_mult_distrib by (intro add_mono div_times_less_eq_dividend)
  then have "R * (total_shares s0 - (x + y)) \<le> (R - pay) * total_shares s0"
    by (simp add: diff_mult_distrib diff_mult_distrib2 mult.commute diff_le_mono2)
  with run show ?thesis by (auto split: if_splits sum.splits)
qed

theorem referrals_claim_pays_witness:
  "\<exists>s'. claim_rewards std_referrals (Signed 1) referrals_traded = Some (Inr s') \<and> total_shares s' = 400 \<and>
     ledger_free (rf_world s') 0 1 = 278 * 10 ^ 12 + 600"
  using referrals_claim_pays [OF std_ref.referrals_env_axioms referrals_run_reachable(2) refl refl refl refl refl, of 1]
  by (simp add: referrals_run_defs Let_def tryR_def ledger_transfer_def ledger_withdraw_def ledger_deposit_def ledger_free_def umax_def)
    (elim exE conjE, intro exI conjI, assumption, simp_all)

text \<open>
  (C39) A trade fee offered to the pallet is never overdrawn: what is used is the rounded-down referrer's and trader's percentage of it, which
  percentages set by the authority or taken from the tiers keep at or below the whole, so the check on the calculation never fires and
  only the price conversion can overflow; a trader who is not linked brings nothing to any referrer.
\<close>

theorem referrals_fee_bounded:
  assumes "referrals_env C" "referrals_reachable C s" "amount \<le> umax 128"
    and "\<And>l. fd_referrer (level_rewards C l) + fd_trader (level_rewards C l) \<le> permill_one"
  shows "case process_trade_fee C trader a amount s of
      Inl e \<Rightarrow> e = Arithmetic Arith_Overflow
    | Inr (used, s') \<Rightarrow> used \<le> amount \<and>
        (used = 0 \<or> (\<exists>level acc r. trade_level trader s = Some (level, acc) \<and>
           r = (case asset_rewards s (a, level) of Some r \<Rightarrow> r | None \<Rightarrow> level_rewards C level) \<and>
           used = (if acc = None then 0 else fd_referrer r * amount div permill_one) + fd_trader r * amount div permill_one)) \<and>
        (linked_accounts s trader = None \<longrightarrow> referrer_shares s' = referrer_shares s)"
proof (cases "rf_price C (rf_world s) (reward_asset C) a = None \<or> trade_level trader s = None")
  case True
  then show ?thesis by (auto simp: process_trade_fee_def split: option.splits)
next
  case False
  then obtain price l acc where p: "rf_price C (rf_world s) (reward_asset C) a = Some price" "trade_level trader s = Some (l, acc)" by auto
  define r where "r = (case asset_rewards s (a, l) of Some r \<Rightarrow> r | None \<Rightarrow> level_rewards C l)"
  have sum: "fd_referrer r + fd_trader r \<le> permill_one"
    by (rule referrals_env.rewards_in_range [OF assms(1,2,4) r_def])
  have A: "sp_arith (rf_arith C)" using assms(1) by (simp add: referrals_env_def)
  note floor = sp_arith.permill_mul_floor [OF A _ assms(3)]
  define used where "used = (if acc = None then 0 else fd_referrer r * amount div permill_one) + fd_trader r * amount div permill_one"
  have used: "saturating_add 128 (if acc \<noteq> None then permill_mul_floor (rf_arith C) (fd_referrer r) amount else 0)
      (permill_mul_floor (rf_arith C) (fd_trader r) amount) = used" "used \<le> amount"
    using referrals_env.parts_le [OF assms(1) sum assms(3)] sum assms(3)
    by (auto simp: used_def floor saturating_add_def)
  have acc: "acc = None \<longleftrightarrow> linked_accounts s trader = None"
    using p(2) by (auto simp: trade_level_def split: option.splits)
  have part: "\<exists>level acc r. trade_level trader s = Some (level, acc) \<and>
       r = (case asset_rewards s (a, level) of Some r \<Rightarrow> r | None \<Rightarrow> level_rewards C level) \<and>
       used = (if acc = None then 0 else fd_referrer r * amount div permill_one) + fd_trader r * amount div permill_one"
    using p(2) r_def used_def by blast
  have "process_trade_fee C trader a amount s = Inl (Arithmetic Arith_Overflow) \<or>
      (\<exists>n m. process_trade_fee C trader a amount s = Inr (used, mint_shares C trader a acc used n m s))"
    unfolding process_trade_fee_def p option.case prod.case r_def [symmetric] Let_def used(1)
    using used(2) by (auto simp: ensure_def tryR_def ok_or_def split: sum.splits option.splits if_splits)
  then show ?thesis
  proof (elim disjE exE)
    fix n m
    assume "process_trade_fee C trader a amount s = Inr (used, mint_shares C trader a acc used n m s)"
    then show ?thesis using used(2) acc part by (simp only: sum.case prod.case mint_shares_sel) (cases acc; cases "linked_accounts s trader"; simp)
  qed simp
qed

theorem referrals_fee_bounded_witness:
  "trade_level 2 referrals_linked = Some (Tier0, Some 1) \<and> (1000 :: nat) = 600000 * 1000 div permill_one + 400000 * 1000 div permill_one"
proof -
  have "fd_referrer (level_rewards std_referrals l) + fd_trader (level_rewards std_referrals l) \<le> permill_one" for l
    by (cases l) (simp_all add: std_referrals_def referrals_level_volume_and_rewards_def Let_def permill_one_def)
  from referrals_fee_bounded [OF std_ref.referrals_env_axioms referrals_run_reachable(1), of 1000 2 5, OF _ this]
  show ?thesis unfolding referrals_traded_run
    by (simp add: referrals_run_defs trade_level_def umax_def referrals_level_volume_and_rewards_def Let_def)
qed

end
