(* ===== verification/Spec2Isabelle.thy ===== *)
theory Spec2Isabelle
  imports Xyk_Math Omnipool_Router Omnipool_Safety Otc Circuit_Limits Stableswap_Safety Routed_Trades Ema_Runs Bonds Referrals
begin

text \<open>
  A verification library for the Hydration node, a parachain whose runtime is a set of
  market-making pallets over a common math crate.

  \<^bold>\<open>The program and its parts.\<close> The math crate (\<open>src/math\<close>) holds pure pricing formulas over
  \<open>u128\<close> balances with \<open>U256\<close> intermediates. The pallets (\<open>src/pallets\<close>) keep storage, check the
  caller, call the formulas, move balances on a multi-currency ledger and deposit events. The
  Omnipool pairs every asset with a hub asset (LRNA) in one pool owned by the protocol account: a trade
  sells one asset for hub asset and buys the other with it, fees are taken in the bought asset and in hub
  asset, a slip fee grows with the hub flow of the block, and liquidity providers hold positions (NFTs).
  The dynamic-fees pallet recomputes an asset's fees from oracle volumes once per block. The broadcast
  pallet stamps trades with a stack of execution contexts. XYK pools hold two assets in an account of
  their own. Stable pools hold two to five assets near a peg; their share token is an asset that the router trades like any other. The route executor composes pools: it moves a user's asset to its own account, trades along a
  route through the pools' quotes and executions, and pays the result out. The EMA oracle accumulates what pools and
  authorised feeds report in a block and merges it at the end of the block into moving averages that other pallets read. Bonds are
  issued one to one against an underlying asset and redeemed at maturity; the referrals pallet turns a slice of the trade fees into shares of a pot.

  \<^bold>\<open>Conventions.\<close> Machine integers are naturals with the width written at each operation that can
  overflow (\<open>Prelude\<close>); bit flags are words. A Rust \<open>Result\<close> is a sum with \<open>Inl\<close> the error, an \<open>Option\<close>
  or a panic is an option; each definition's text says which. Storage is a record, maps are partial functions.
  An operation takes its state last and returns the new one; a failed dispatch returns no state since the
  runtime rolls it back. Code outside the repository is a parameter: \<open>sp_arithmetic\<close> is the record
  \<open>arith\<close> with contract \<open>sp_arith\<close> (\<open>Sp_Arith\<close>; \<open>FixedU128::from_rational\<close> rounds to the nearest, \<open>Perbill::from_rational\<close> reduces
  denominators above \<open>10 ^ 9\<close>), the ledger is the record \<open>currency\<close> over an opaque
  world with contract \<open>pool_ledger\<close> for one account (\<open>Frame_Support\<close>). Every contract is a locale, interpreted on a concrete
  implementation that the witnesses then run.

  \<^bold>\<open>Theories.\<close>
  \<^item> \<open>Prelude\<close>: checked, saturating and narrowing arithmetic, \<open>?\<close>/\<open>ok_or\<close>/\<open>ensure!\<close>, floor division,
    sums over storage maps; the collections \<open>ck_iff\<close> and \<open>res_iff\<close> invert successful runs.
  \<^item> \<open>Sp_Arith\<close>, \<open>Math_Lib\<close>: the arithmetic contract; error type, macros and trade fee of the math
    crate (\<open>math/src/lib.rs\<close>, \<open>fee.rs\<close>).
  \<^item> \<open>Xyk_Math\<close>: \<open>math/src/xyk\<close>, all formulas. The locale \<open>cp_market\<close> is the contract of a
    constant-product market; the pool's product never falls over any sequence of trades, quotes are mutually
    inverse up to rounding, and a liquidity round trip never pays.
  \<^item> \<open>Omnipool_Types\<close>, \<open>Omnipool_Slip\<close>, \<open>Omnipool_Math\<close>: \<open>math/src/omnipool/{types,slip_fee,math}.rs\<close>.
    Signed updates are integer addition; the slip fee is the stated rate and its inversions are safe, except in
    a regime in which a theorem shows the sell-side inversion to return less than was wanted; sells, buys, hub trades, deposits and withdrawals never lower the value
    of a share.
  \<^item> \<open>Frame_Support\<close>, \<open>Broadcast\<close>: origins, errors, the ledger; \<open>pallets/broadcast\<close>.
  \<^item> \<open>Omnipool_Pallet\<close>: \<open>pallets/omnipool/src/{lib,types,traits}.rs\<close>, one definition per helper and
    extrinsic. \<open>Omnipool_Invariants\<close> and \<open>Omnipool_Positions\<close>: the hub asset of the protocol account is the sum
    of all hub reserves, and an asset's shares are those of its positions plus the protocol's.
    \<open>Omnipool_Instance\<close>: a concrete runtime. \<open>Omnipool_Runs\<close>: the transition system of all calls, block ends
    and foreign activity; the invariant and the assertions of \<open>try_state\<close> hold in each reachable state.
    \<open>Omnipool_Router\<close>: \<open>router_execution.rs\<close> and \<open>provider.rs\<close>.
    \<open>Omnipool_Safety\<close>: self-checks never fire, only the owner changes a position, and frozen assets stand still, their tokens on the
    ledger included (locale \<open>omnipool_tokens\<close>).
  \<^item> \<open>Dynamic_Fees\<close>: \<open>math/src/dynamic_fees\<close> and \<open>pallets/dynamic-fees\<close>; the fee is within its bounds, the
    recalculation returns except in the cases a theorem names, and a fee stored in a block is final in it (locale \<open>fee_provider\<close>).
  \<^item> \<open>Reserves\<close>, \<open>Otc\<close>: named reserves (locale \<open>named_reserve\<close>); \<open>pallets/otc\<close>. Every order is backed by its owner's
    reserve, the owner can always cancel, and a fill moves the posted amounts (locales \<open>otc_env\<close>, \<open>transfers_of\<close>).
  \<^item> \<open>Circuit_Breaker\<close>, \<open>Circuit_Limits\<close>: \<open>pallets/circuit-breaker\<close>; the volumes of a block refine the trades
    accepted in it and stay within the limit, withdrawals are bounded over time and over the hooks of the blocks, and the issuance fuse holds.
  \<^item> \<open>Rational_Math\<close>: \<open>math/src/{ratio,support/rational}.rs\<close>; when rounding keeps its direction and when it does not.
  \<^item> \<open>Stableswap_Math\<close>, \<open>Stableswap_Shares\<close>: \<open>math/src/stableswap\<close>, all formulas. \<open>Stableswap_Newton\<close>,
    \<open>Stableswap_Trades\<close>: the integer iterations stay on the safe side of the exact roots, so that a trade in a two-asset
    pool never lowers the exact invariant.
  \<^item> \<open>Stableswap_Pallet\<close>: \<open>pallets/stableswap/src/{lib,types}.rs\<close>, one definition per helper and extrinsic. \<open>Stableswap_Steps\<close>: successful
    runs taken apart and the invariant of the storage. \<open>Stableswap_Runs\<close>: all calls as a transition system; withdrawals (locales
    \<open>stable_params\<close>, \<open>stable_env\<close>). \<open>Stableswap_Router\<close>: \<open>trade_execution.rs\<close>. \<open>Stableswap_Safety\<close>: the storage of every reachable
    state, proportional withdrawals, trades that execute at their quote and keep the invariant of what the ledger holds, and the order of pegs.
  \<^item> \<open>Xyk_Pallet\<close>: \<open>pallets/xyk/src/{lib,types}.rs\<close>. \<open>Xyk_Invariants\<close>, \<open>Xyk_Runs\<close>: the storage maps describe the same pools in
    every reachable state, and no sequence of calls lowers the value of a share. \<open>Xyk_Router\<close>: \<open>trade_execution.rs\<close>, \<open>impls.rs\<close>.
  \<^item> \<open>Router_Types\<close>: \<open>traits/src/router.rs\<close>, routes and the interface of a pool. \<open>Route_Executor\<close>: \<open>pallets/route-executor\<close>.
    \<open>Router_Contract\<close>: what the executor needs of pools and ledger (locales \<open>amm_contract\<close>, \<open>router_env\<close>) and what follows.
    \<open>Omnipool_Trades\<close>: the Omnipool seen from accounts outside it (locale \<open>omnipool_outsider\<close>); a trade executes at its quote, in the balances. \<open>Runtime_Pools\<close>: the executor of
    the runtime over the Omnipool and the XYK pools, which discharges the contracts (locale \<open>pools_env\<close>). \<open>Routed_Trades\<close>: a
    routed trade pays and delivers what was quoted, and a route is only replaced by a better one.
  \<^item> \<open>Ema_Math\<close>: \<open>math/src/ema/math.rs\<close>, \<open>fraction.rs\<close>, integer powers of \<open>transcendental.rs\<close>; averages lie between what they average. The
    \<open>fixed\<close> library is the record \<open>fixed_ops\<close> with contract \<open>fixed_lib\<close>. \<open>Ordered_Map\<close>: \<open>BTreeMap\<close>. \<open>Ema_Oracle\<close>: \<open>pallets/ema-oracle\<close> and
    \<open>traits/src/oracle.rs\<close>. \<open>Ema_Runs\<close>: what a block reads of an oracle, integrated with the data of the block, is what the next block reads; only
    authorised accounts change external data; an outdated value decays towards the last one.
  \<^item> \<open>Issuance\<close>, \<open>Bonds\<close>: a ledger with issuance (locale \<open>issuing_ledger\<close>); \<open>pallets/bonds\<close>. The issued bonds are backed by what the pallet
    holds (locale \<open>bonds_env\<close>), a redemption pays the holder one to one and is never refused for want of the asset, and the name of a bond determines its asset.
  \<^item> \<open>Referrals\<close>: \<open>pallets/referrals\<close> and the tiers of the runtime. Shares add up, a claim always ends and pays its part of the pot, and a fee is
    never overdrawn (locale \<open>referrals_env\<close>).

  \<^bold>\<open>Bounds and fuel.\<close> No definition uses fuel: the recursion on referral levels is a partial function, shown to end from every reachable
  state, and each other loop is structural, over a list the code builds or a
  counter the code bounds (the dynamic-fee loop runs over at most \<open>MAX_BLOCK_DIFFERENCE\<close> blocks, the stable-pool
  iterations over the const parameters of the code, which are arguments here and arbitrary in the theorems).

  \<^bold>\<open>What the invariants assume.\<close> The protocol account signs no extrinsic, governance does not list the hub
  asset as a pool asset (the code does not forbid it), protocol liquidity is not withdrawn to the
  protocol account itself, and the rest of the runtime does not move the hub asset of the protocol account. The hash behind
  the accounts of XYK pairs has no collisions on pairs; pools, router and users have different accounts. The hooks of the stable pools
  and the dusting whitelist move no balances, and neither do the handlers of the Omnipool beyond the fee they take; a trader's balances are kept exactly, so
  trades that leave dust are outside the properties on balances. A conversion of referral fees changes no referral storage, which holds while no rewards are
  configured for unlinked accounts. Within the period of the issuance fuse the authority does not lock the asset or lift its lockdown; existential
  deposits may change at any time, deposit limits up to the stated bound. The quote of a first deposit into a stable pool through the router is left out of its property.

  \<^bold>\<open>Not modelled.\<close> Weights, benchmarks, events other than the trade events, migrations, RPC and node
  service code (pure I/O or generated), and the pallets the manifest lists as not modelled.
\<close>

end
